(* ===== verification/Prelude.thy ===== *)
theory Prelude
  imports Main "HOL-Library.AList"
begin

text \<open>
  Shared vocabulary of the development.

  \<^item> 64-bit integers. Go's \<open>int64\<close> is an \<open>int\<close> whose arithmetic wraps explicitly
    (\<open>wrap64\<close>); a value is in range when \<open>is_int64\<close> holds.
  \<^item> Results. A Go function returning \<open>(T, error)\<close> is a function into \<open>'e + 'a\<close>; the early
    return \<open>if err != nil \{ return err \}\<close> is \<open>rbind\<close>.
  \<^item> Transactions. A SQL transaction is a list of statements, each a function from the database to
    an error or a new database; \<open>run_tx\<close> stops at the first error. The caller keeps the old
    database in that case, which is what a SQL rollback does.
  \<^item> Sums over the rows of a table, and how they change when one row changes.
\<close>

named_theorems stmt_simps "single SQL statements"
named_theorems limit_defs "numeric limits of the source"

section \<open>64-bit signed integers\<close>

type_synonym int64 = int

definition MaxInt64 :: int64 where
  [limit_defs]: "MaxInt64 = 9223372036854775807"

definition MinInt64 :: int64 where
  [limit_defs]: "MinInt64 = - 9223372036854775808"

definition is_int64 :: "int \<Rightarrow> bool" where
  "is_int64 x \<longleftrightarrow> MinInt64 \<le> x \<and> x \<le> MaxInt64"

definition wrap64 :: "int \<Rightarrow> int64" where
  "wrap64 x = (x + 9223372036854775808) mod 18446744073709551616 - 9223372036854775808"

lemma wrap64_id [simp]: "is_int64 x \<Longrightarrow> wrap64 x = x"
  by (simp add: wrap64_def is_int64_def MaxInt64_def MinInt64_def)

lemma is_int64_wrap64 [simp]: "is_int64 (wrap64 x)"
proof -
  let ?m = "(x + 9223372036854775808) mod 18446744073709551616"
  have "0 \<le> ?m" "?m < 18446744073709551616" by simp_all
  then show ?thesis
    unfolding wrap64_def is_int64_def MaxInt64_def MinInt64_def by linarith
qed

lemma is_int64_nonneg [intro]: "0 \<le> x \<Longrightarrow> x \<le> MaxInt64 \<Longrightarrow> is_int64 x"
  by (simp add: is_int64_def MinInt64_def)

lemma MaxInt64_pos [simp]: "0 < MaxInt64" "0 \<le> MaxInt64"
  by (simp_all add: MaxInt64_def)

text \<open>Go's integer division by a positive constant, which truncates towards zero.\<close>

definition go_div :: "int \<Rightarrow> int \<Rightarrow> int" where
  "go_div a b = (if a < 0 then - ((- a) div b) else a div b)"

section \<open>Results\<close>

fun rbind :: "'e + 'a \<Rightarrow> ('a \<Rightarrow> 'e + 'b) \<Rightarrow> 'e + 'b" where
  "rbind (Inl e) f = Inl e"
| "rbind (Inr a) f = f a"

lemma rbind_Inr_iff: "rbind r f = Inr b \<longleftrightarrow> (\<exists>a. r = Inr a \<and> f a = Inr b)"
  by (cases r) auto

lemma rbind_Inl_iff:
  "rbind r f = Inl e \<longleftrightarrow> r = Inl e \<or> (\<exists>a. r = Inr a \<and> f a = Inl e)"
  by (cases r) auto

lemma rbindE:
  assumes "rbind r f = Inr b"
  obtains a where "r = Inr a" and "f a = Inr b"
  using assms by (cases r) auto

section \<open>Transactions\<close>

fun run_tx :: "('s \<Rightarrow> 'e + 's) list \<Rightarrow> 's \<Rightarrow> 'e + 's" where
  "run_tx [] s = Inr s"
| "run_tx (f # fs) s = rbind (f s) (run_tx fs)"

lemma run_tx_append: "run_tx (fs @ gs) s = rbind (run_tx fs s) (run_tx gs)"
proof (induction fs arbitrary: s)
  case (Cons f fs)
  then show ?case by (cases "f s") auto
qed simp

text \<open>An invariant kept by every statement of a transaction is kept by the transaction.\<close>

lemma run_tx_invariant:
  assumes "run_tx fs s = Inr s'" and "P s"
    and "\<And>f t t'. f \<in> set fs \<Longrightarrow> P t \<Longrightarrow> f t = Inr t' \<Longrightarrow> P t'"
  shows "P s'"
  using assms
proof (induction fs arbitrary: s)
  case (Cons f fs)
  from Cons.prems(1) obtain t where t: "f s = Inr t" and rest: "run_tx fs t = Inr s'"
    by (auto elim: rbindE)
  from Cons.prems(2,3) t have "P t" by (meson list.set_intros(1))
  with rest Cons.prems(3) show ?case by (auto intro: Cons.IH)
qed simp

section \<open>Keyed tables\<close>

text \<open>
  A SQL table with a primary key is an association list, read through \<open>tget\<close>. \<open>INSERT OR
  IGNORE\<close> adds the row when the key is free; a conditional \<open>UPDATE\<close> whose \<open>WHERE\<close> names the
  whole key affects one row or none, and affecting none is the error \<open>miss\<close>.
\<close>

type_synonym ('k, 'r) table = "('k \<times> 'r) list"

definition tget :: "('k, 'r) table \<Rightarrow> 'k \<Rightarrow> 'r option" where
  "tget t k = map_of t k"

definition tput :: "'k \<Rightarrow> 'r \<Rightarrow> ('k, 'r) table \<Rightarrow> ('k, 'r) table" where
  "tput k r t = AList.update k r t"

definition insert_ignore :: "'k \<Rightarrow> 'r \<Rightarrow> ('k, 'r) table \<Rightarrow> ('k, 'r) table" where
  "insert_ignore k r t = (case tget t k of None \<Rightarrow> tput k r t | Some _ \<Rightarrow> t)"

definition update_one ::
    "'e \<Rightarrow> 'k \<Rightarrow> ('r \<Rightarrow> bool) \<Rightarrow> ('r \<Rightarrow> 'r) \<Rightarrow> ('k, 'r) table \<Rightarrow> 'e + ('k, 'r) table" where
  "update_one miss k guard upd t =
     (case tget t k of
        None \<Rightarrow> Inl miss
      | Some r \<Rightarrow> if guard r then Inr (tput k (upd r) t) else Inl miss)"

lemma tget_Nil [simp]: "tget [] k = None"
  by (simp add: tget_def)

lemma tget_tput [simp]: "tget (tput k r t) k' = (if k' = k then Some r else tget t k')"
  by (simp add: tget_def tput_def update_conv')

lemma tget_insert_ignore:
  "tget (insert_ignore k r t) k' =
     (if k' = k then Some (case tget t k of None \<Rightarrow> r | Some r' \<Rightarrow> r') else tget t k')"
  by (auto simp: insert_ignore_def split: option.splits)

lemma distinct_tput [simp]: "distinct (map fst t) \<Longrightarrow> distinct (map fst (tput k r t))"
  by (simp add: tput_def distinct_update)

lemma distinct_insert_ignore [simp]:
  "distinct (map fst t) \<Longrightarrow> distinct (map fst (insert_ignore k r t))"
  by (simp add: insert_ignore_def split: option.splits)

lemma update_one_Inr_iff [stmt_simps]:
  "update_one miss k g u t = Inr t' \<longleftrightarrow> (\<exists>r. tget t k = Some r \<and> g r \<and> t' = tput k (u r) t)"
  by (auto simp: update_one_def split: option.splits)

lemma update_one_Inl_iff [stmt_simps]:
  "update_one miss k g u t = Inl e \<longleftrightarrow> e = miss \<and> (\<forall>r. tget t k = Some r \<longrightarrow> \<not> g r)"
  by (auto simp: update_one_def split: option.splits)

section \<open>Sums over rows\<close>

definition row_sum :: "('r \<Rightarrow> bool) \<Rightarrow> ('r \<Rightarrow> int) \<Rightarrow> 'r list \<Rightarrow> int" where
  "row_sum P f rs = sum_list (map f (filter P rs))"

lemma row_sum_Nil [simp]: "row_sum P f [] = 0"
  by (simp add: row_sum_def)

lemma row_sum_Cons [simp]: "row_sum P f (r # rs) = (if P r then f r else 0) + row_sum P f rs"
  by (simp add: row_sum_def)

lemma row_sum_append [simp]: "row_sum P f (xs @ ys) = row_sum P f xs + row_sum P f ys"
  by (simp add: row_sum_def)

lemma row_sum_nonneg: "(\<And>r. r \<in> set rs \<Longrightarrow> P r \<Longrightarrow> 0 \<le> f r) \<Longrightarrow> 0 \<le> row_sum P f rs"
  by (induction rs) (auto intro!: add_nonneg_nonneg)

lemma row_sum_zero: "(\<And>r. r \<in> set rs \<Longrightarrow> f r = 0) \<Longrightarrow> row_sum P f rs = 0"
  by (induction rs) auto

lemma row_sum_cong:
  "(\<And>r. r \<in> set rs \<Longrightarrow> P r = Q r) \<Longrightarrow> (\<And>r. r \<in> set rs \<Longrightarrow> Q r \<Longrightarrow> f r = g r) \<Longrightarrow>
   row_sum P f rs = row_sum Q g rs"
  by (induction rs) auto

lemma row_sum_mono:
  "(\<And>r. r \<in> set rs \<Longrightarrow> P r \<Longrightarrow> f r \<le> (if Q r then g r else 0)) \<Longrightarrow>
   (\<And>r. r \<in> set rs \<Longrightarrow> Q r \<Longrightarrow> 0 \<le> g r) \<Longrightarrow> row_sum P f rs \<le> row_sum Q g rs"
proof (induction rs)
  case (Cons r rs)
  then have "row_sum P f rs \<le> row_sum Q g rs" by simp
  moreover have "(if P r then f r else 0) \<le> (if Q r then g r else 0)"
    using Cons.prems(1)[of r] Cons.prems(2)[of r] by auto
  ultimately show ?case by simp
qed simp

lemma row_sum_member_le:
  assumes "\<And>r. r \<in> set rs \<Longrightarrow> P r \<Longrightarrow> 0 \<le> f r" and "r \<in> set rs" and "P r"
  shows "f r \<le> row_sum P f rs"
  using assms
proof (induction rs)
  case (Cons x xs)
  have nn: "0 \<le> row_sum P f xs" by (rule row_sum_nonneg) (simp add: Cons.prems)
  show ?case
  proof (cases "x = r")
    case True
    with nn Cons.prems show ?thesis by simp
  next
    case False
    with Cons have "f r \<le> row_sum P f xs" by simp
    with Cons.prems(1)[of x] show ?thesis by auto
  qed
qed simp

text \<open>
  Updating the one row with a given key: rows with distinct keys, so exactly one changes and the sum
  moves by the difference.
\<close>

lemma row_sum_update_key:
  assumes "distinct (map key rs)" and "r \<in> set rs"
  shows "row_sum P f (map (\<lambda>x. if key x = key r then u x else x) rs) =
           row_sum P f rs - (if P r then f r else 0) + (if P (u r) then f (u r) else 0)"
  using assms
proof (induction rs)
  case (Cons x xs)
  show ?case
  proof (cases "x = r")
    case True
    with Cons.prems(1) have "\<forall>y \<in> set xs. key y \<noteq> key r" by (auto simp: image_iff)
    then have "map (\<lambda>y. if key y = key r then u y else y) xs = xs"
      by (induction xs) auto
    with True show ?thesis by simp
  next
    case False
    with Cons.prems have "r \<in> set xs" by simp
    moreover from this Cons.prems have "key x \<noteq> key r" by auto
    ultimately show ?thesis using Cons by simp
  qed
qed simp

section \<open>Aggregates that track a ledger\<close>

text \<open>
  An aggregate \<open>view\<close> tracks a list of rows when its value at every key is the sum of the
  contributions of the rows with that key.
\<close>

definition tracks :: "('k \<Rightarrow> int) \<Rightarrow> ('r \<Rightarrow> 'k) \<Rightarrow> ('r \<Rightarrow> int) \<Rightarrow> 'r list \<Rightarrow> bool" where
  "tracks view key f rows \<longleftrightarrow> (\<forall>k. view k = row_sum (\<lambda>r. key r = k) f rows)"

lemma tracks_append:
  assumes "tracks view key f rows"
    and "\<And>k. view' k = view k + (if k = key r then f r else 0)"
  shows "tracks view' key f (rows @ [r])"
  using assms by (simp add: tracks_def)

lemma tracks_update:
  assumes "tracks view key f rows" and "distinct (map ident rows)" and "r \<in> set rows"
    and "key (u r) = key r"
    and "\<And>k. view' k = view k + (if k = key r then f (u r) - f r else 0)"
  shows "tracks view' key f (map (\<lambda>x. if ident x = ident r then u x else x) rows)"
  using assms by (simp add: tracks_def row_sum_update_key)

lemma tracks_member_le:
  assumes "tracks view key f rows" and "r \<in> set rows"
    and "\<And>x. x \<in> set rows \<Longrightarrow> 0 \<le> f x"
  shows "f r \<le> view (key r)"
  using assms row_sum_member_le[of rows "\<lambda>x. key x = key r" f r] by (simp add: tracks_def)

lemma tracks_nonneg:
  "tracks view key f rows \<Longrightarrow> (\<And>x. x \<in> set rows \<Longrightarrow> 0 \<le> f x) \<Longrightarrow> 0 \<le> view k"
  by (simp add: tracks_def row_sum_nonneg)

end
