(* ===== verification/Billing.thy ===== *)
theory Billing
  imports Prelude
begin

text \<open>
  The cost model of \<open>internal/domain/billing\<close>: rate cards with request-wide pricing tiers, the
  frozen \<open>Plan\<close> a reservation is taken under, the cost of a token usage vector
  (\<open>plan_cost\<close>) and of a unit count (\<open>unit_cost\<close>), and the merge of cumulative usage
  snapshots. Amounts are pico-US-dollars in \<open>int64\<close> with the code's checked arithmetic.
\<close>

section \<open>Identities and limits\<close>

type_synonym provider = string

definition ProviderQwen :: provider where "ProviderQwen = ''qwen''"

definition Qwen37Plus :: string where "Qwen37Plus = ''qwen3.7-plus''"
definition Qwen3ASRFlashRealtime :: string where
  "Qwen3ASRFlashRealtime = ''qwen3-asr-flash-realtime''"
definition QwenImage20 :: string where "QwenImage20 = ''qwen-image-2.0''"
definition QwenAudio30TTSFlash :: string where "QwenAudio30TTSFlash = ''qwen-audio-3.0-tts-flash''"
definition Wan27T2V :: string where "Wan27T2V = ''wan2.7-t2v''"
definition Wan27I2V :: string where "Wan27I2V = ''wan2.7-i2v-2026-04-25''"
definition QwenTTSClone :: string where "QwenTTSClone = ''qwen-tts-clone''"

lemmas model_names = ProviderQwen_def Qwen37Plus_def Qwen3ASRFlashRealtime_def QwenImage20_def
  QwenAudio30TTSFlash_def Wan27T2V_def Wan27I2V_def QwenTTSClone_def

definition PicoUSDPerMicroUSD :: int64 where "PicoUSDPerMicroUSD = 1000000"
definition Qwen37InputLimit :: int64 where [limit_defs]: "Qwen37InputLimit = 1000000"
definition Qwen37OutputLimit :: int64 where [limit_defs]: "Qwen37OutputLimit = 65536"
definition QwenASRInputLimit :: int64 where [limit_defs]: "QwenASRInputLimit = 120"
definition QwenImageInputLimit :: int64 where [limit_defs]: "QwenImageInputLimit = 6"
definition QwenTTSInputLimit :: int64 where [limit_defs]: "QwenTTSInputLimit = 4000"
definition QwenVideoInputLimit :: int64 where [limit_defs]: "QwenVideoInputLimit = 15"
definition QwenVoiceInputLimit :: int64 where [limit_defs]: "QwenVoiceInputLimit = 2"

datatype billing_error = ErrUnknownRateCard | ErrCostOverflow

text \<open>
  \<open>InputClass\<close> is a \<open>uint8\<close> with six named values; \<open>InputOther\<close> is any other byte.
\<close>

datatype input_class =
    InputStandard | InputAudioSeconds | InputImages | InputCharacters | InputVideoSeconds
  | InputVoices | InputOther nat

record unit_class =
  unit_models :: "string list"
  minUnits :: int64

fun unitClasses :: "input_class \<Rightarrow> unit_class option" where
  "unitClasses InputAudioSeconds = Some \<lparr>unit_models = [Qwen3ASRFlashRealtime], minUnits = 0\<rparr>"
| "unitClasses InputImages = Some \<lparr>unit_models = [QwenImage20], minUnits = 1\<rparr>"
| "unitClasses InputCharacters = Some \<lparr>unit_models = [QwenAudio30TTSFlash], minUnits = 1\<rparr>"
| "unitClasses InputVideoSeconds = Some \<lparr>unit_models = [Wan27T2V, Wan27I2V], minUnits = 1\<rparr>"
| "unitClasses InputVoices = Some \<lparr>unit_models = [QwenTTSClone], minUnits = 1\<rparr>"
| "unitClasses _ = None"

section \<open>Checked arithmetic\<close>

definition checkedMul :: "int64 \<Rightarrow> int64 \<Rightarrow> billing_error + int64" where
  "checkedMul a b =
     (if a < 0 \<or> b < 0 \<or> (a \<noteq> 0 \<and> b > MaxInt64 div a) then Inl ErrCostOverflow
      else Inr (wrap64 (a * b)))"

definition checkedAdd :: "int64 \<Rightarrow> int64 \<Rightarrow> billing_error + int64" where
  "checkedAdd a b =
     (if a < 0 \<or> b < 0 \<or> a > wrap64 (MaxInt64 - b) then Inl ErrCostOverflow
      else Inr (wrap64 (a + b)))"

definition nonNegative :: "int64 \<Rightarrow> int64" where
  "nonNegative v = (if v < 0 then 0 else v)"

text \<open>The checked operations compute the exact result or report an overflow; they never wrap.\<close>

lemma checkedMul_exact:
  assumes "0 \<le> a" "0 \<le> b"
  shows "checkedMul a b = (if a * b \<le> MaxInt64 then Inr (a * b) else Inl ErrCostOverflow)"
proof (cases "a = 0")
  case False
  with assms have a: "0 < a" by simp
  have "b \<le> MaxInt64 div a \<longleftrightarrow> a * b \<le> MaxInt64"
  proof
    assume "b \<le> MaxInt64 div a"
    then have "a * b \<le> a * (MaxInt64 div a)" using a by simp
    also have "\<dots> \<le> MaxInt64"
    proof -
      have "MaxInt64 = a * (MaxInt64 div a) + MaxInt64 mod a" by simp
      moreover have "0 \<le> MaxInt64 mod a" using a by simp
      ultimately show ?thesis by linarith
    qed
    finally show "a * b \<le> MaxInt64" .
  next
    assume "a * b \<le> MaxInt64"
    then have "(a * b) div a \<le> MaxInt64 div a" using a by (intro zdiv_mono1) auto
    then show "b \<le> MaxInt64 div a" using a by simp
  qed
  with assms a show ?thesis
    by (auto simp: checkedMul_def not_less intro!: wrap64_id is_int64_nonneg)
qed (use assms in \<open>simp add: checkedMul_def wrap64_def\<close>)

lemma checkedAdd_exact:
  assumes "0 \<le> a" "0 \<le> b" "b \<le> MaxInt64"
  shows "checkedAdd a b = (if a + b \<le> MaxInt64 then Inr (a + b) else Inl ErrCostOverflow)"
proof -
  from assms have "wrap64 (MaxInt64 - b) = MaxInt64 - b"
    by (intro wrap64_id is_int64_nonneg) auto
  moreover have "a + b \<le> MaxInt64 \<Longrightarrow> wrap64 (a + b) = a + b"
    using assms by (intro wrap64_id is_int64_nonneg) auto
  ultimately show ?thesis using assms by (auto simp: checkedAdd_def)
qed

section \<open>Usage snapshots\<close>

record usage =
  Present :: bool
  Malformed :: bool
  PromptTokens :: int64
  CompletionTokens :: int64
  TotalTokens :: int64
  CachedPromptTokens :: int64
  ReasoningTokens :: int64

definition zero_usage :: usage where
  "zero_usage = \<lparr>Present = False, Malformed = False, PromptTokens = 0, CompletionTokens = 0,
     TotalTokens = 0, CachedPromptTokens = 0, ReasoningTokens = 0\<rparr>"

definition usageHasNegative :: "usage \<Rightarrow> bool" where
  "usageHasNegative u \<longleftrightarrow> PromptTokens u < 0 \<or> CompletionTokens u < 0 \<or> TotalTokens u < 0 \<or>
     CachedPromptTokens u < 0 \<or> ReasoningTokens u < 0"

definition MergeSnapshot :: "usage \<Rightarrow> usage \<Rightarrow> usage" where
  "MergeSnapshot u v =
     \<lparr>Present = (Present u \<or> Present v),
      Malformed = (Malformed u \<or> Malformed v \<or> usageHasNegative v),
      PromptTokens = max (PromptTokens u) (nonNegative (PromptTokens v)),
      CompletionTokens = max (CompletionTokens u) (nonNegative (CompletionTokens v)),
      TotalTokens = max (TotalTokens u) (nonNegative (TotalTokens v)),
      CachedPromptTokens = max (CachedPromptTokens u) (nonNegative (CachedPromptTokens v)),
      ReasoningTokens = max (ReasoningTokens u) (nonNegative (ReasoningTokens v))\<rparr>"

section \<open>Rate cards\<close>

record pricing_tier =
  InputUpperBound :: int64
  InputPUSD :: int64
  CacheHitInputPUSD :: int64
  OutputPUSD :: int64

definition zero_tier :: pricing_tier where
  "zero_tier = \<lparr>InputUpperBound = 0, InputPUSD = 0, CacheHitInputPUSD = 0, OutputPUSD = 0\<rparr>"

definition flat_tier :: "int64 \<Rightarrow> int64 \<Rightarrow> pricing_tier" where
  "flat_tier bound price =
     \<lparr>InputUpperBound = bound, InputPUSD = price, CacheHitInputPUSD = 0, OutputPUSD = 0\<rparr>"

record rate_card =
  card_ID :: string
  card_Provider :: provider
  card_Model :: string
  InputLimit :: int64
  OutputLimit :: int64
  tiers :: "pricing_tier list"

definition qwenCards :: "(string \<times> rate_card) list" where
  "qwenCards =
   [(Qwen37Plus,
      \<lparr>card_ID = ''qwen3.7-plus-sg-thinking-2026-07-24'', card_Provider = ProviderQwen,
       card_Model = Qwen37Plus, InputLimit = Qwen37InputLimit, OutputLimit = Qwen37OutputLimit,
       tiers =
         [\<lparr>InputUpperBound = 256000, InputPUSD = 1600000, CacheHitInputPUSD = 320000,
           OutputPUSD = 1600000\<rparr>,
          \<lparr>InputUpperBound = Qwen37InputLimit, InputPUSD = 4800000, CacheHitInputPUSD = 960000,
           OutputPUSD = 4800000\<rparr>]\<rparr>),
    (Qwen3ASRFlashRealtime,
      \<lparr>card_ID = ''qwen3-asr-flash-realtime-sg-2026-07-24'', card_Provider = ProviderQwen,
       card_Model = Qwen3ASRFlashRealtime, InputLimit = QwenASRInputLimit, OutputLimit = 0,
       tiers = [flat_tier QwenASRInputLimit 90000000]\<rparr>),
    (QwenImage20,
      \<lparr>card_ID = ''qwen-image-2.0-assumed-2026-07-27'', card_Provider = ProviderQwen,
       card_Model = QwenImage20, InputLimit = QwenImageInputLimit, OutputLimit = 0,
       tiers = [flat_tier QwenImageInputLimit 35000000000]\<rparr>),
    (QwenAudio30TTSFlash,
      \<lparr>card_ID = ''qwen-audio-3.0-tts-flash-assumed-2026-07-28'', card_Provider = ProviderQwen,
       card_Model = QwenAudio30TTSFlash, InputLimit = QwenTTSInputLimit, OutputLimit = 0,
       tiers = [flat_tier QwenTTSInputLimit 14000000]\<rparr>),
    (Wan27T2V,
      \<lparr>card_ID = ''wan2.7-t2v-assumed-2026-07-27'', card_Provider = ProviderQwen,
       card_Model = Wan27T2V, InputLimit = QwenVideoInputLimit, OutputLimit = 0,
       tiers = [flat_tier QwenVideoInputLimit 83000000000]\<rparr>),
    (Wan27I2V,
      \<lparr>card_ID = ''wan2.7-i2v-2026-04-25-720p-conservative-2026-08-06'',
       card_Provider = ProviderQwen, card_Model = Wan27I2V, InputLimit = QwenVideoInputLimit,
       OutputLimit = 0, tiers = [flat_tier QwenVideoInputLimit 105000000000]\<rparr>),
    (QwenTTSClone,
      \<lparr>card_ID = ''qwen-tts-clone-2026-07-28'', card_Provider = ProviderQwen,
       card_Model = QwenTTSClone, InputLimit = QwenVoiceInputLimit, OutputLimit = 0,
       tiers = [flat_tier QwenVoiceInputLimit 200000000000]\<rparr>)]"

definition Lookup :: "provider \<Rightarrow> string \<Rightarrow> billing_error + rate_card" where
  "Lookup p m =
     (if p = ProviderQwen
      then (case map_of qwenCards m of None \<Rightarrow> Inl ErrUnknownRateCard | Some c \<Rightarrow> Inr c)
      else Inl ErrUnknownRateCard)"

definition tier_malformed :: "rate_card \<Rightarrow> pricing_tier \<Rightarrow> bool" where
  "tier_malformed r t \<longleftrightarrow>
     InputUpperBound t \<le> 0 \<or> InputUpperBound t > InputLimit r \<or>
     InputPUSD t \<le> 0 \<or> OutputPUSD t < 0 \<or> CacheHitInputPUSD t < 0 \<or>
     (OutputLimit r > 0 \<and> OutputPUSD t = 0)"

fun scan_tiers :: "rate_card \<Rightarrow> int64 \<Rightarrow> pricing_tier list \<Rightarrow> pricing_tier option" where
  "scan_tiers r tokens [] = None"
| "scan_tiers r tokens (t # ts) =
     (if tier_malformed r t then None
      else if tokens \<le> InputUpperBound t then Some t
      else scan_tiers r tokens ts)"

definition tierForInput :: "rate_card \<Rightarrow> int64 \<Rightarrow> pricing_tier option" where
  "tierForInput r tokens =
     (if tokens < 0 \<or> tokens > InputLimit r \<or> length (tiers r) = 0 then None
      else scan_tiers r tokens (tiers r))"

section \<open>Plans\<close>

record plan =
  Provider :: provider
  Model :: string
  RateCardID :: string
  InputClass :: input_class
  PromptQuote :: int64
  OutputQuote :: int64
  ReservedPUSD :: int64
  card :: rate_card
  tier :: pricing_tier

definition class_admits :: "rate_card \<Rightarrow> provider \<Rightarrow> string \<Rightarrow> input_class \<Rightarrow> int64 \<Rightarrow> int64 \<Rightarrow> bool" where
  "class_admits c p m cls promptBound outputBound =
     (if cls = InputStandard then OutputLimit c \<noteq> 0
      else case unitClasses cls of
             None \<Rightarrow> False
           | Some u \<Rightarrow> p = ProviderQwen \<and> m \<in> set (unit_models u) \<and> outputBound = 0 \<and>
                       promptBound \<ge> minUnits u)"

definition NewPlan ::
    "provider \<Rightarrow> string \<Rightarrow> input_class \<Rightarrow> int64 \<Rightarrow> int64 \<Rightarrow> billing_error + plan" where
  "NewPlan p m cls promptBound outputBound =
     rbind (Lookup p m) (\<lambda>c.
       if \<not> class_admits c p m cls promptBound outputBound then Inl ErrUnknownRateCard
       else if promptBound < 0 \<or> outputBound < 0 \<or> promptBound > InputLimit c \<or>
               outputBound > OutputLimit c then Inl ErrUnknownRateCard
       else case tierForInput c promptBound of
              None \<Rightarrow> Inl ErrUnknownRateCard
            | Some t \<Rightarrow>
                rbind (checkedMul promptBound (InputPUSD t)) (\<lambda>inCost.
                rbind (checkedMul outputBound (OutputPUSD t)) (\<lambda>outCost.
                rbind (checkedAdd inCost outCost) (\<lambda>total.
                Inr \<lparr>Provider = p, Model = m, RateCardID = card_ID c, InputClass = cls,
                     PromptQuote = promptBound, OutputQuote = outputBound,
                     ReservedPUSD = total, card = c, tier = t\<rparr>))))"

definition NewUnitPlan :: "provider \<Rightarrow> string \<Rightarrow> input_class \<Rightarrow> int64 \<Rightarrow> billing_error + plan" where
  "NewUnitPlan p m cls units = NewPlan p m cls units 0"

definition samePlan :: "plan \<Rightarrow> plan \<Rightarrow> bool" where
  "samePlan a b \<longleftrightarrow> Provider a = Provider b \<and> Model a = Model b \<and> RateCardID a = RateCardID b \<and>
     InputClass a = InputClass b \<and> PromptQuote a = PromptQuote b \<and>
     OutputQuote a = OutputQuote b \<and> ReservedPUSD a = ReservedPUSD b \<and> tier a = tier b"

definition Validate :: "plan \<Rightarrow> billing_error + unit" where
  "Validate p =
     rbind (NewPlan (Provider p) (Model p) (InputClass p) (PromptQuote p) (OutputQuote p)) (\<lambda>want.
       if samePlan p want then Inr () else Inl ErrUnknownRateCard)"

definition UnitCost :: "plan \<Rightarrow> input_class \<Rightarrow> int64 \<Rightarrow> billing_error + int64" where
  "UnitCost p cls units =
     (if unitClasses cls = None \<or> InputClass p \<noteq> cls then Inl ErrUnknownRateCard
      else if units < 0 \<or> units > InputLimit (card p) then Inl ErrUnknownRateCard
      else case tierForInput (card p) units of
             None \<Rightarrow> Inl ErrUnknownRateCard
           | Some t \<Rightarrow> checkedMul units (InputPUSD t))"

text \<open>
  \<open>Cost\<close> returns \<open>(cost, ok, err)\<close>: \<open>Inl\<close> is an error, \<open>Inr None\<close> is
  \<open>ok = false\<close> (keep the full reservation), \<open>Inr (Some c)\<close> is the cost \<open>c\<close>.
\<close>

definition usage_authoritative :: "usage \<Rightarrow> bool" where
  "usage_authoritative u \<longleftrightarrow>
     Present u \<and> \<not> Malformed u \<and> \<not> usageHasNegative u \<and> PromptTokens u > 0"

definition Cost :: "plan \<Rightarrow> usage \<Rightarrow> billing_error + int64 option" where
  "Cost p u =
     (if InputClass p \<noteq> InputStandard then Inl ErrUnknownRateCard
      else if \<not> usage_authoritative u then Inr None
      else
        let prompt = nonNegative (PromptTokens u);
            completion = nonNegative (CompletionTokens u)
        in if TotalTokens u \<le> 0 then Inr None
        else (case checkedAdd prompt completion of
            Inl _ \<Rightarrow> Inr None
          | Inr visibleTotal \<Rightarrow>
             (if TotalTokens u < visibleTotal then Inr None
              else if CachedPromptTokens u > prompt then Inr None
              else
                let derivedOutput = wrap64 (TotalTokens u - prompt)
                in if ReasoningTokens u > derivedOutput then Inr None
                else
                  let completion' = (if derivedOutput > completion then derivedOutput else completion)
                  in (case tierForInput (card p) prompt of
                        None \<Rightarrow> Inr None
                      | Some t \<Rightarrow>
                         (let hit = nonNegative (CachedPromptTokens u)
                          in rbind (checkedMul hit (CacheHitInputPUSD t)) (\<lambda>hitCost.
                             rbind (checkedMul (wrap64 (prompt - hit)) (InputPUSD t)) (\<lambda>missCost.
                             rbind (checkedAdd hitCost missCost) (\<lambda>inputCost.
                             rbind (checkedMul completion' (OutputPUSD t)) (\<lambda>outputCost.
                             rbind (checkedAdd inputCost outputCost) (\<lambda>cost.
                             Inr (Some cost)))))))))))"

section \<open>Well-formed cards\<close>

text \<open>
  What the shipped cards satisfy: ordered tiers that cover the whole input range, prices that never
  drop from one tier to the next, cache hits no dearer than misses, and a worst-case price below
  the \<open>int64\<close> range.
\<close>

definition tier_le :: "pricing_tier \<Rightarrow> pricing_tier \<Rightarrow> bool" where
  "tier_le t t' \<longleftrightarrow> InputPUSD t \<le> InputPUSD t' \<and> CacheHitInputPUSD t \<le> CacheHitInputPUSD t' \<and>
     OutputPUSD t \<le> OutputPUSD t'"

definition tier_ok :: "rate_card \<Rightarrow> pricing_tier \<Rightarrow> bool" where
  "tier_ok c t \<longleftrightarrow> \<not> tier_malformed c t \<and> CacheHitInputPUSD t \<le> InputPUSD t \<and>
     InputLimit c * InputPUSD t + OutputLimit c * OutputPUSD t \<le> MaxInt64"

definition card_wf :: "rate_card \<Rightarrow> bool" where
  "card_wf c \<longleftrightarrow> tiers c \<noteq> [] \<and> 0 \<le> InputLimit c \<and> 0 \<le> OutputLimit c \<and>
     list_all (tier_ok c) (tiers c) \<and> sorted_wrt tier_le (tiers c) \<and>
     InputUpperBound (last (tiers c)) = InputLimit c"

lemma shipped_cards_wf: "list_all (\<lambda>(m, c). card_wf c \<and> card_Model c = m) qwenCards"
  by (simp add: qwenCards_def card_wf_def tier_ok_def tier_le_def tier_malformed_def flat_tier_def
      limit_defs)

lemma Lookup_wf: "Lookup p m = Inr c \<Longrightarrow> card_wf c \<and> card_Model c = m \<and> p = ProviderQwen"
  using shipped_cards_wf
  by (auto simp: Lookup_def list_all_iff split: if_splits option.splits dest!: map_of_SomeD)

lemma scan_tiers_Some:
  "scan_tiers c n ts = Some t \<Longrightarrow> t \<in> set ts \<and> n \<le> InputUpperBound t \<and> \<not> tier_malformed c t"
  by (induction ts) (auto split: if_splits)

lemma scan_tiers_total:
  "list_all (tier_ok c) ts \<Longrightarrow> ts \<noteq> [] \<Longrightarrow> n \<le> InputUpperBound (last ts) \<Longrightarrow>
   \<exists>t. scan_tiers c n ts = Some t"
proof (induction ts)
  case (Cons t ts)
  then show ?case by (cases "ts = []") (auto simp: tier_ok_def)
qed simp

lemma scan_tiers_mono:
  "sorted_wrt tier_le ts \<Longrightarrow> n \<le> n' \<Longrightarrow> scan_tiers c n ts = Some t \<Longrightarrow>
   scan_tiers c n' ts = Some t' \<Longrightarrow> tier_le t t'"
proof (induction ts)
  case (Cons x xs)
  then show ?case
    by (auto simp: tier_le_def split: if_splits dest!: scan_tiers_Some)
qed simp

lemma tierForInput_Some:
  assumes "tierForInput c n = Some t"
  shows "t \<in> set (tiers c)" "n \<le> InputUpperBound t" "0 \<le> n" "n \<le> InputLimit c"
  using assms by (auto simp: tierForInput_def split: if_splits dest: scan_tiers_Some)

lemma tierForInput_total:
  "card_wf c \<Longrightarrow> 0 \<le> n \<Longrightarrow> n \<le> InputLimit c \<Longrightarrow> \<exists>t. tierForInput c n = Some t"
  by (auto simp: tierForInput_def card_wf_def intro!: scan_tiers_total)

lemma tierForInput_mono:
  "card_wf c \<Longrightarrow> n \<le> n' \<Longrightarrow> tierForInput c n = Some t \<Longrightarrow> tierForInput c n' = Some t' \<Longrightarrow>
   tier_le t t'"
  by (auto simp: tierForInput_def card_wf_def split: if_splits intro: scan_tiers_mono)

lemma tierForInput_ok:
  assumes "card_wf c" "tierForInput c n = Some t"
  shows "tier_ok c t" "0 < InputPUSD t" "0 \<le> OutputPUSD t" "0 \<le> CacheHitInputPUSD t"
proof -
  show "tier_ok c t"
    using assms tierForInput_Some(1) by (auto simp: card_wf_def list_all_iff)
  then show "0 < InputPUSD t" "0 \<le> OutputPUSD t" "0 \<le> CacheHitInputPUSD t"
    by (auto simp: tier_ok_def tier_malformed_def not_le)
qed

text \<open>Inside a card's limits the two products and their sum are exact.\<close>

lemma quote_exact:
  assumes wf: "card_wf c" and t: "tierForInput c k = Some t"
    and a: "0 \<le> a" "a \<le> InputLimit c" and b: "0 \<le> b" "b \<le> OutputLimit c"
  shows "checkedMul a (InputPUSD t) = Inr (a * InputPUSD t)"
    and "checkedMul b (OutputPUSD t) = Inr (b * OutputPUSD t)"
    and "checkedAdd (a * InputPUSD t) (b * OutputPUSD t) = Inr (a * InputPUSD t + b * OutputPUSD t)"
proof -
  note pos = tierForInput_ok[OF wf t]
  have max: "InputLimit c * InputPUSD t + OutputLimit c * OutputPUSD t \<le> MaxInt64"
    using pos(1) by (simp add: tier_ok_def)
  have ia: "a * InputPUSD t \<le> InputLimit c * InputPUSD t" using a pos by (simp add: mult_right_mono)
  have ob: "b * OutputPUSD t \<le> OutputLimit c * OutputPUSD t" using b pos by (simp add: mult_right_mono)
  have nn: "0 \<le> a * InputPUSD t" "0 \<le> b * OutputPUSD t" using a b pos by simp_all
  have le: "a * InputPUSD t \<le> MaxInt64" "b * OutputPUSD t \<le> MaxInt64"
      "a * InputPUSD t + b * OutputPUSD t \<le> MaxInt64"
    using ia ob nn max by linarith+
  show "checkedMul a (InputPUSD t) = Inr (a * InputPUSD t)"
    using a(1) pos(2) le(1) by (simp add: checkedMul_exact)
  show "checkedMul b (OutputPUSD t) = Inr (b * OutputPUSD t)"
    using b(1) pos(3) le(2) by (simp add: checkedMul_exact)
  show "checkedAdd (a * InputPUSD t) (b * OutputPUSD t) = Inr (a * InputPUSD t + b * OutputPUSD t)"
    using nn le by (simp add: checkedAdd_exact)
qed

lemmas plan_eval = NewPlan_def NewUnitPlan_def Lookup_def qwenCards_def class_admits_def
  tierForInput_def tier_malformed_def flat_tier_def model_names limit_defs checkedMul_def
  checkedAdd_def wrap64_def MinInt64_def

section \<open>Plans: existence, amount, validation\<close>

lemma NewPlanE:
  assumes "NewPlan p m cls pb ob = Inr pl"
  obtains c t where "Lookup p m = Inr c" "card_wf c" "tierForInput c pb = Some t"
    "class_admits c p m cls pb ob" "0 \<le> pb" "pb \<le> InputLimit c" "0 \<le> ob" "ob \<le> OutputLimit c"
    "pl = \<lparr>Provider = p, Model = m, RateCardID = card_ID c, InputClass = cls, PromptQuote = pb,
           OutputQuote = ob, ReservedPUSD = pb * InputPUSD t + ob * OutputPUSD t, card = c, tier = t\<rparr>"
proof -
  from assms obtain c where c: "Lookup p m = Inr c"
    by (auto simp: NewPlan_def elim!: rbindE)
  with assms obtain t where t: "tierForInput c pb = Some t"
    and bounds: "class_admits c p m cls pb ob" "0 \<le> pb" "pb \<le> InputLimit c" "0 \<le> ob"
      "ob \<le> OutputLimit c"
    by (auto simp: NewPlan_def not_less split: if_splits option.splits)
  have wf: "card_wf c" using Lookup_wf[OF c] by simp
  note exact = quote_exact[OF wf t bounds(2,3,4,5)]
  from assms c t bounds exact have "pl = \<lparr>Provider = p, Model = m, RateCardID = card_ID c,
      InputClass = cls, PromptQuote = pb, OutputQuote = ob,
      ReservedPUSD = pb * InputPUSD t + ob * OutputPUSD t, card = c, tier = t\<rparr>"
    by (simp add: NewPlan_def split: if_splits)
  with c wf t bounds show thesis by (rule that)
qed

text \<open>Pricing a request never overflows: a plan exists exactly for the bounds the card and the
  input class admit, and every refusal is \<open>ErrUnknownRateCard\<close>.\<close>

theorem NewPlan_total:
  "((\<exists>pl. NewPlan p m cls pb ob = Inr pl) \<longleftrightarrow>
     (\<exists>c. Lookup p m = Inr c \<and> class_admits c p m cls pb ob \<and>
          0 \<le> pb \<and> pb \<le> InputLimit c \<and> 0 \<le> ob \<and> ob \<le> OutputLimit c)) \<and>
   NewPlan p m cls pb ob \<noteq> Inl ErrCostOverflow"
proof -
  have ok: "\<exists>pl. NewPlan p m cls pb ob = Inr pl"
    if c: "Lookup p m = Inr c" and adm: "class_admits c p m cls pb ob"
      and b: "0 \<le> pb" "pb \<le> InputLimit c" "0 \<le> ob" "ob \<le> OutputLimit c" for c
  proof -
    have wf: "card_wf c" using Lookup_wf[OF c] by simp
    then obtain t where t: "tierForInput c pb = Some t" using tierForInput_total b by blast
    with quote_exact[OF wf t b] c adm b show ?thesis by (simp add: NewPlan_def)
  qed
  have iff: "(\<exists>pl. NewPlan p m cls pb ob = Inr pl) \<longleftrightarrow>
     (\<exists>c. Lookup p m = Inr c \<and> class_admits c p m cls pb ob \<and>
          0 \<le> pb \<and> pb \<le> InputLimit c \<and> 0 \<le> ob \<and> ob \<le> OutputLimit c)"
    using ok by (auto elim!: NewPlanE)
  moreover have "NewPlan p m cls pb ob \<noteq> Inl ErrCostOverflow"
  proof
    assume ovf: "NewPlan p m cls pb ob = Inl ErrCostOverflow"
    then obtain c where "Lookup p m = Inr c" "class_admits c p m cls pb ob" "0 \<le> pb"
        "pb \<le> InputLimit c" "0 \<le> ob" "ob \<le> OutputLimit c"
      by (auto simp: NewPlan_def Lookup_def rbind_Inl_iff not_less split: if_splits option.splits)
    with ok ovf show False by fastforce
  qed
  ultimately show ?thesis by blast
qed

lemma NewPlan_reserved_bounds:
  assumes "NewPlan p m cls pb ob = Inr pl"
  shows "0 \<le> ReservedPUSD pl" "ReservedPUSD pl \<le> MaxInt64" "Provider pl = ProviderQwen"
proof -
  from assms obtain c t where c: "Lookup p m = Inr c" "card_wf c" "tierForInput c pb = Some t"
    "0 \<le> pb" "pb \<le> InputLimit c" "0 \<le> ob" "ob \<le> OutputLimit c"
    and pl: "ReservedPUSD pl = pb * InputPUSD t + ob * OutputPUSD t" "Provider pl = p"
    by (auto elim!: NewPlanE)
  note ok = tierForInput_ok[OF c(2,3)]
  show "0 \<le> ReservedPUSD pl" using pl c ok by simp
  have "pb * InputPUSD t \<le> InputLimit c * InputPUSD t" "ob * OutputPUSD t \<le> OutputLimit c * OutputPUSD t"
    using c ok by (simp_all add: mult_right_mono)
  with ok(1) show "ReservedPUSD pl \<le> MaxInt64" unfolding pl by (simp add: tier_ok_def)
  show "Provider pl = ProviderQwen" using Lookup_wf[OF c(1)] pl by simp
qed

text \<open>\<open>Validate\<close> accepts exactly the plans \<open>NewPlan\<close> makes, up to the unexported rate card
  it does not compare: a forged amount, tier, card id or quote is refused.\<close>

theorem Validate_iff_NewPlan:
  "Validate pl = Inr () \<longleftrightarrow>
     (\<exists>c. NewPlan (Provider pl) (Model pl) (InputClass pl) (PromptQuote pl) (OutputQuote pl) =
            Inr (pl\<lparr>card := c\<rparr>))"
proof
  assume "Validate pl = Inr ()"
  then obtain w where w: "NewPlan (Provider pl) (Model pl) (InputClass pl) (PromptQuote pl)
      (OutputQuote pl) = Inr w" and same: "samePlan pl w"
    by (auto simp: Validate_def rbind_Inr_iff split: if_splits)
  then have "w = pl\<lparr>card := card w\<rparr>" by (cases pl; cases w) (simp add: samePlan_def)
  with w show "\<exists>c. NewPlan (Provider pl) (Model pl) (InputClass pl) (PromptQuote pl) (OutputQuote pl) =
      Inr (pl\<lparr>card := c\<rparr>)" by metis
qed (auto simp: Validate_def samePlan_def)

lemma Validate_bounds:
  assumes "Validate pl = Inr ()"
  shows "0 \<le> ReservedPUSD pl" "ReservedPUSD pl \<le> MaxInt64" "Provider pl = ProviderQwen"
  using assms NewPlan_reserved_bounds
  by (fastforce simp: Validate_def samePlan_def rbind_Inr_iff split: if_splits)+

section \<open>The cost of a usage vector\<close>

definition usage_int64 :: "usage \<Rightarrow> bool" where
  "usage_int64 u \<longleftrightarrow> is_int64 (PromptTokens u) \<and> is_int64 (CompletionTokens u) \<and>
     is_int64 (TotalTokens u) \<and> is_int64 (CachedPromptTokens u) \<and> is_int64 (ReasoningTokens u)"

text \<open>An accepted usage vector is self-consistent, and its price is exact integer arithmetic.\<close>

lemma Cost_SomeE:
  assumes cost: "Cost pl u = Inr (Some c)" and wf: "card_wf (card pl)" and i64: "usage_int64 u"
  obtains t where "tierForInput (card pl) (PromptTokens u) = Some t"
    "0 < PromptTokens u" "0 \<le> CompletionTokens u"
    "PromptTokens u + CompletionTokens u \<le> TotalTokens u"
    "0 \<le> CachedPromptTokens u" "CachedPromptTokens u \<le> PromptTokens u"
    "0 \<le> ReasoningTokens u" "ReasoningTokens u \<le> TotalTokens u - PromptTokens u"
    "c = CachedPromptTokens u * CacheHitInputPUSD t +
         (PromptTokens u - CachedPromptTokens u) * InputPUSD t +
         (TotalTokens u - PromptTokens u) * OutputPUSD t"
proof -
  from cost have auth: "usage_authoritative u" and std: "InputClass pl = InputStandard"
    by (auto simp: Cost_def split: if_splits)
  then have nn: "0 < PromptTokens u" "0 \<le> CompletionTokens u" "0 \<le> CachedPromptTokens u"
      "0 \<le> ReasoningTokens u" "0 \<le> TotalTokens u"
    by (auto simp: usage_authoritative_def usageHasNegative_def)
  then have eqs: "nonNegative (PromptTokens u) = PromptTokens u"
      "nonNegative (CompletionTokens u) = CompletionTokens u"
      "nonNegative (CachedPromptTokens u) = CachedPromptTokens u"
    by (auto simp: nonNegative_def)
  have le: "CompletionTokens u \<le> MaxInt64" "TotalTokens u \<le> MaxInt64"
    using i64 by (auto simp: usage_int64_def is_int64_def)
  have add: "checkedAdd (PromptTokens u) (CompletionTokens u) =
      (if PromptTokens u + CompletionTokens u \<le> MaxInt64
       then Inr (PromptTokens u + CompletionTokens u) else Inl ErrCostOverflow)"
    using nn le by (simp add: checkedAdd_exact)
  from cost std auth add have vis: "PromptTokens u + CompletionTokens u \<le> TotalTokens u"
    and hit: "CachedPromptTokens u \<le> PromptTokens u"
    by (auto simp: Cost_def eqs Let_def split: if_splits)
  have wr: "wrap64 (TotalTokens u - PromptTokens u) = TotalTokens u - PromptTokens u"
      "wrap64 (PromptTokens u - CachedPromptTokens u) = PromptTokens u - CachedPromptTokens u"
    using nn vis hit le by (auto intro!: wrap64_id is_int64_nonneg)
  have reas: "ReasoningTokens u \<le> TotalTokens u - PromptTokens u"
    using cost std auth add vis hit by (auto simp: Cost_def eqs wr Let_def split: if_splits)
  have comp: "(if CompletionTokens u < TotalTokens u - PromptTokens u
      then TotalTokens u - PromptTokens u else CompletionTokens u) = TotalTokens u - PromptTokens u"
    using vis by auto
  from reas obtain t where t: "tierForInput (card pl) (PromptTokens u) = Some t"
    and chain: "rbind (checkedMul (CachedPromptTokens u) (CacheHitInputPUSD t)) (\<lambda>h.
       rbind (checkedMul (PromptTokens u - CachedPromptTokens u) (InputPUSD t)) (\<lambda>i.
       rbind (checkedAdd h i) (\<lambda>s.
       rbind (checkedMul (TotalTokens u - PromptTokens u) (OutputPUSD t)) (\<lambda>o'.
       rbind (checkedAdd s o') (\<lambda>c. Inr (Some c)))))) = Inr (Some c)"
    using cost std auth add vis hit nn le
    by (auto simp: Cost_def eqs wr comp Let_def split: option.splits)
  note ok = tierForInput_ok[OF wf t]
  have prods: "0 \<le> CachedPromptTokens u * CacheHitInputPUSD t"
      "0 \<le> (PromptTokens u - CachedPromptTokens u) * InputPUSD t"
      "0 \<le> (TotalTokens u - PromptTokens u) * OutputPUSD t"
    using nn hit vis ok by simp_all
  from chain have "c = CachedPromptTokens u * CacheHitInputPUSD t +
         (PromptTokens u - CachedPromptTokens u) * InputPUSD t +
         (TotalTokens u - PromptTokens u) * OutputPUSD t"
    using nn hit vis ok prods
    by (auto simp: checkedMul_exact checkedAdd_exact split: if_splits)
  with t nn vis hit reas show thesis by (intro that)
qed

text \<open>C35. The reservation is an upper quote: whenever the provider reports a usage inside the token
  bounds a plan was priced for, the settled cost is non-negative and at most the reserved amount,
  whichever tier the actual prompt falls into and however much of it was cached.\<close>

theorem plan_quote_bounds_cost:
  assumes plan: "NewPlan p m cls pb ob = Inr pl"
    and cost: "Cost pl u = Inr (Some c)" and i64: "usage_int64 u"
    and prompt: "PromptTokens u \<le> pb" and out: "TotalTokens u - PromptTokens u \<le> ob"
  shows "0 \<le> c \<and> c \<le> ReservedPUSD pl"
proof -
  from plan obtain k t where wf: "card_wf k" and t: "tierForInput k pb = Some t"
    and card: "card pl = k" and res: "ReservedPUSD pl = pb * InputPUSD t + ob * OutputPUSD t"
    by (auto elim!: NewPlanE)
  from cost wf i64 obtain t' where t': "tierForInput k (PromptTokens u) = Some t'"
    and u: "0 < PromptTokens u" "0 \<le> CachedPromptTokens u" "CachedPromptTokens u \<le> PromptTokens u"
      "0 \<le> CompletionTokens u" "PromptTokens u + CompletionTokens u \<le> TotalTokens u"
    and c: "c = CachedPromptTokens u * CacheHitInputPUSD t' +
         (PromptTokens u - CachedPromptTokens u) * InputPUSD t' +
         (TotalTokens u - PromptTokens u) * OutputPUSD t'"
    unfolding card[symmetric] by (blast elim: Cost_SomeE)
  note ok = tierForInput_ok[OF wf t'] and ok' = tierForInput_ok[OF wf t]
  have mono: "InputPUSD t' \<le> InputPUSD t" "OutputPUSD t' \<le> OutputPUSD t"
    using tierForInput_mono[OF wf prompt t' t] by (simp_all add: tier_le_def)
  have "CachedPromptTokens u * CacheHitInputPUSD t' \<le> CachedPromptTokens u * InputPUSD t'"
    using u ok by (intro mult_left_mono) (auto simp: tier_ok_def)
  then have "c \<le> PromptTokens u * InputPUSD t' + (TotalTokens u - PromptTokens u) * OutputPUSD t'"
    unfolding c by (simp add: algebra_simps)
  moreover have "PromptTokens u * InputPUSD t' \<le> pb * InputPUSD t"
    using u prompt mono ok ok' by (intro mult_mono) auto
  moreover have "(TotalTokens u - PromptTokens u) * OutputPUSD t' \<le> ob * OutputPUSD t"
    using u out mono ok ok' by (intro mult_mono) auto
  moreover have "0 \<le> c" unfolding c using u ok by simp
  ultimately show ?thesis unfolding res by linarith
qed

theorem plan_quote_bounds_cost_witness:
  "\<exists>pl c. NewPlan ProviderQwen Qwen37Plus InputStandard 1000 500 = Inr pl \<and>
     Cost pl \<lparr>Present = True, Malformed = False, PromptTokens = 800, CompletionTokens = 200,
       TotalTokens = 1100, CachedPromptTokens = 100, ReasoningTokens = 50\<rparr> = Inr (Some c) \<and>
     c = 1632000000 \<and> c \<le> ReservedPUSD pl"
proof -
  let ?u = "\<lparr>Present = True, Malformed = False, PromptTokens = 800, CompletionTokens = 200,
       TotalTokens = 1100, CachedPromptTokens = 100, ReasoningTokens = 50\<rparr>"
  obtain pl where pl: "NewPlan ProviderQwen Qwen37Plus InputStandard 1000 500 = Inr pl"
    and c: "Cost pl ?u = Inr (Some 1632000000)"
    by (simp add: plan_eval Cost_def usage_authoritative_def usageHasNegative_def nonNegative_def)
  have "usage_int64 ?u" by (simp add: usage_int64_def is_int64_def MaxInt64_def MinInt64_def)
  from plan_quote_bounds_cost[OF pl c this] pl c show ?thesis by auto
qed

lemma UnitCost_reserved:
  assumes "NewUnitPlan p m cls n = Inr pl" and "cls \<noteq> InputStandard"
  shows "UnitCost pl cls n = Inr (ReservedPUSD pl)"
proof -
  from assms(1) obtain c t where c: "card_wf c" "tierForInput c n = Some t" "0 \<le> n" "n \<le> InputLimit c"
    "class_admits c p m cls n 0"
    and pl: "card pl = c" "InputClass pl = cls" "ReservedPUSD pl = n * InputPUSD t"
    by (auto simp: NewUnitPlan_def elim!: NewPlanE)
  moreover have "0 \<le> OutputLimit c" using c(1) by (simp add: card_wf_def)
  then have "checkedMul n (InputPUSD t) = Inr (n * InputPUSD t)"
    using quote_exact(1)[OF c(1,2,3,4), of 0] by simp
  moreover have "unitClasses cls \<noteq> None"
    using c(5) assms(2) by (auto simp: class_admits_def split: option.splits)
  ultimately show ?thesis by (simp add: UnitCost_def)
qed

text \<open>A unit capability settles for exactly what it reserved: the requested quantity is the billed
  quantity.\<close>

theorem unit_cost_eq_reserved:
  assumes "NewUnitPlan p m cls n = Inr pl" and "cls \<noteq> InputStandard"
  shows "UnitCost pl cls n = Inr (ReservedPUSD pl)"
  using assms by (rule UnitCost_reserved)

theorem unit_cost_eq_reserved_witness:
  "\<exists>pl. NewUnitPlan ProviderQwen Wan27T2V InputVideoSeconds 5 = Inr pl \<and>
     UnitCost pl InputVideoSeconds 5 = Inr 415000000000"
proof -
  obtain pl where pl: "NewUnitPlan ProviderQwen Wan27T2V InputVideoSeconds 5 = Inr pl"
    and r: "ReservedPUSD pl = 415000000000"
    by (simp add: plan_eval)
  from unit_cost_eq_reserved[OF pl] pl r show ?thesis by auto
qed

section \<open>Merging usage frames\<close>

definition merge_frames :: "usage list \<Rightarrow> usage" where
  "merge_frames = foldl MergeSnapshot zero_usage"

lemma MergeSnapshot_comm: "MergeSnapshot (MergeSnapshot u v) w = MergeSnapshot (MergeSnapshot u w) v"
  by (simp add: MergeSnapshot_def max.commute max.left_commute max.assoc disj_ac)

lemma MergeSnapshot_idem: "MergeSnapshot (MergeSnapshot u v) v = MergeSnapshot u v"
  by (simp add: MergeSnapshot_def max.assoc)

lemma foldl_Merge_absorb:
  "v \<in> set fs \<Longrightarrow> MergeSnapshot (foldl MergeSnapshot u fs) v = foldl MergeSnapshot u fs"
proof (induction fs rule: rev_induct)
  case (snoc w ws)
  then show ?case
    by (cases "v = w") (auto simp: MergeSnapshot_idem MergeSnapshot_comm[of _ w v])
qed simp

lemma foldl_Merge_set:
  "set fs = set gs \<Longrightarrow> foldl MergeSnapshot u fs = foldl MergeSnapshot u gs"
proof -
  have push: "foldl MergeSnapshot (MergeSnapshot u v) fs = MergeSnapshot (foldl MergeSnapshot u fs) v"
    for u v fs by (induction fs arbitrary: u) (simp_all add: MergeSnapshot_comm)
  have sub: "set fs \<subseteq> set gs \<Longrightarrow>
      foldl MergeSnapshot (foldl MergeSnapshot u gs) fs = foldl MergeSnapshot u gs" for u fs gs
    by (induction fs) (auto simp: foldl_Merge_absorb)
  have swap: "foldl MergeSnapshot (foldl MergeSnapshot u gs) fs =
      foldl MergeSnapshot (foldl MergeSnapshot u fs) gs" for u fs gs
    by (induction gs arbitrary: u) (simp_all add: push)
  assume "set fs = set gs"
  then show ?thesis using sub[of fs gs u] sub[of gs fs u] swap[of u gs fs] by simp
qed

text \<open>Cumulative usage frames merge independently of their order and of repetitions, so a stream
  that repeats or reorders usage frames is never charged twice; one malformed or negative frame
  marks the whole stream malformed.\<close>

theorem merge_frames_order_free:
  assumes "set fs = set gs"
  shows "merge_frames fs = merge_frames gs \<and>
    (Malformed (merge_frames fs) \<longleftrightarrow> (\<exists>v \<in> set gs. Malformed v \<or> usageHasNegative v))"
proof -
  have "Malformed (foldl MergeSnapshot u fs) \<longleftrightarrow>
      Malformed u \<or> (\<exists>v \<in> set fs. Malformed v \<or> usageHasNegative v)" for u
    by (induction fs arbitrary: u) (auto simp: MergeSnapshot_def)
  with assms show ?thesis
    by (simp add: merge_frames_def foldl_Merge_set[OF assms] zero_usage_def)
qed

theorem merge_frames_order_free_witness:
  "merge_frames [zero_usage\<lparr>PromptTokens := 3\<rparr>, zero_usage\<lparr>PromptTokens := - 1\<rparr>] =
   merge_frames [zero_usage\<lparr>PromptTokens := - 1\<rparr>, zero_usage\<lparr>PromptTokens := 3\<rparr>,
     zero_usage\<lparr>PromptTokens := 3\<rparr>] \<and>
   Malformed (merge_frames [zero_usage\<lparr>PromptTokens := 3\<rparr>, zero_usage\<lparr>PromptTokens := - 1\<rparr>])"
proof -
  have eq: "set [zero_usage\<lparr>PromptTokens := 3\<rparr>, zero_usage\<lparr>PromptTokens := - 1\<rparr>] =
      set [zero_usage\<lparr>PromptTokens := - 1\<rparr>, zero_usage\<lparr>PromptTokens := 3\<rparr>,
        zero_usage\<lparr>PromptTokens := 3\<rparr>]" by auto
  moreover have "usageHasNegative (zero_usage\<lparr>PromptTokens := - 1\<rparr>)" by (simp add: usageHasNegative_def)
  ultimately show ?thesis using merge_frames_order_free[OF eq] by auto
qed

section \<open>Charge exposure\<close>

datatype charge_exposure = ChargePossible | DefinitelyUnbilled | ExposureOther nat

definition MayHaveCharged :: "charge_exposure \<Rightarrow> bool" where
  "MayHaveCharged e \<longleftrightarrow> e \<noteq> DefinitelyUnbilled"

end
