(* ===== verification/Quota_Store.thy ===== *)
theory Quota_Store
  imports Billing
begin

text \<open>
  The quota domain (\<open>internal/domain/quota/quota.go\<close>) and the spend ledger
  (\<open>internal/infra/store/quotastore/quotastore.go\<close>). A database \<open>db\<close> holds the six
  aggregate tables and the ledger of reservations; \<open>Reserve\<close>, \<open>Settle\<close>, \<open>Rollback\<close>,
  \<open>reconcileOne\<close> and \<open>ResetMonthlyRequests\<close> are its transactions, statement by statement.
  The request id and the clock are arguments.
\<close>

section \<open>The quota domain\<close>

record period =
  Month :: string
  Day :: string

record limits =
  MonthlyQuota :: int64
  GlobalMonthlySpendPUSD :: int64
  DailySublimit :: int64
  ImageDailyLimit :: int64
  SpeechDailyLimit :: int64
  VideoDailyLimit :: int64
  VoiceDailyLimit :: int64

record reservation =
  RequestID :: string
  InstallID :: string
  Period :: period
  Plan :: plan
  Res_ReservedPUSD :: int64
  SublimitApplied :: bool
  CategoryApplied :: string
  CategoryUnits :: int64

definition CategoryImage :: string where "CategoryImage = ''image''"
definition CategorySpeech :: string where "CategorySpeech = ''speech''"
definition CategoryVideo :: string where "CategoryVideo = ''video''"
definition CategoryVoice :: string where "CategoryVoice = ''voice''"

lemmas category_names = CategoryImage_def CategorySpeech_def CategoryVideo_def CategoryVoice_def

datatype store_error =
    ErrMonthlyExhausted
  | ErrSublimitExceeded
  | CategoryDailyExceededError string
  | ErrBudgetExceeded
  | ErrMonthlyResetBlocked
  | ConditionalMiss string
  | AffectedRows string nat
  | InvalidPlan billing_error
  | ZeroCostPlan
  | InvalidReservation
  | AmountMismatch
  | NegativeSettlement
  | SqlConstraint string

section \<open>The database\<close>

record spend_row =
  spend_pusd :: int64
  requests :: int64

definition empty_spend :: spend_row where
  "empty_spend = \<lparr>spend_pusd = 0, requests = 0\<rparr>"

datatype ledger_state = StateOpen | StateSettled | StateRolledBack | StateOrphaned

record ledger_row =
  request_id :: string
  install_id :: string
  row_provider :: provider
  row_model :: string
  rate_card_id :: string
  period_month :: string
  period_day :: string
  reserved_pusd :: int64
  charged_pusd :: "int64 option"
  state :: ledger_state
  sublimit_applied :: bool
  category :: string
  category_units :: int64
  created_at :: int
  terminal_at :: "int option"

record db =
  quota_monthly :: "(string \<times> string, int64) table"
  install_spend_daily :: "(string \<times> string, spend_row) table"
  install_category_daily :: "(string \<times> string \<times> string, int64) table"
  provider_spend_daily :: "(string \<times> string, spend_row) table"
  global_spend_daily :: "(string, spend_row) table"
  global_spend_monthly :: "(string, spend_row) table"
  spend_ledger :: "ledger_row list"

definition empty_db :: db where
  "empty_db = \<lparr>quota_monthly = [], install_spend_daily = [], install_category_daily = [],
     provider_spend_daily = [], global_spend_daily = [], global_spend_monthly = [],
     spend_ledger = []\<rparr>"

type_synonym stmt = "db \<Rightarrow> store_error + db"

text \<open>The \<open>CHECK\<close> constraints of \<open>spend_ledger\<close> (migration 0001).\<close>

definition ledger_check :: "ledger_row \<Rightarrow> bool" where
  "ledger_check x \<longleftrightarrow> row_provider x = ''qwen'' \<and> reserved_pusd x > 0 \<and>
     (case charged_pusd x of None \<Rightarrow> True | Some c \<Rightarrow> c \<ge> 0) \<and>
     (case state x of
        StateOpen \<Rightarrow> charged_pusd x = None \<and> terminal_at x = None
      | StateSettled \<Rightarrow> charged_pusd x \<noteq> None \<and> terminal_at x \<noteq> None
      | StateRolledBack \<Rightarrow> charged_pusd x = Some 0 \<and> terminal_at x \<noteq> None
      | StateOrphaned \<Rightarrow> charged_pusd x = Some (reserved_pusd x) \<and> terminal_at x \<noteq> None)"

text \<open>Statements on one table, lifted to the database.\<close>

definition on_monthly ::
    "((string \<times> string, int64) table \<Rightarrow> store_error + (string \<times> string, int64) table) \<Rightarrow> stmt" where
  "on_monthly f s = rbind (f (quota_monthly s)) (\<lambda>t. Inr (s\<lparr>quota_monthly := t\<rparr>))"

definition on_install ::
    "((string \<times> string, spend_row) table \<Rightarrow> store_error + (string \<times> string, spend_row) table) \<Rightarrow> stmt" where
  "on_install f s = rbind (f (install_spend_daily s)) (\<lambda>t. Inr (s\<lparr>install_spend_daily := t\<rparr>))"

definition on_category ::
    "((string \<times> string \<times> string, int64) table \<Rightarrow>
      store_error + (string \<times> string \<times> string, int64) table) \<Rightarrow> stmt" where
  "on_category f s = rbind (f (install_category_daily s)) (\<lambda>t. Inr (s\<lparr>install_category_daily := t\<rparr>))"

definition on_provider ::
    "((string \<times> string, spend_row) table \<Rightarrow> store_error + (string \<times> string, spend_row) table) \<Rightarrow> stmt" where
  "on_provider f s = rbind (f (provider_spend_daily s)) (\<lambda>t. Inr (s\<lparr>provider_spend_daily := t\<rparr>))"

definition on_global ::
    "((string, spend_row) table \<Rightarrow> store_error + (string, spend_row) table) \<Rightarrow> stmt" where
  "on_global f s = rbind (f (global_spend_daily s)) (\<lambda>t. Inr (s\<lparr>global_spend_daily := t\<rparr>))"

definition on_wallet ::
    "((string, spend_row) table \<Rightarrow> store_error + (string, spend_row) table) \<Rightarrow> stmt" where
  "on_wallet f s = rbind (f (global_spend_monthly s)) (\<lambda>t. Inr (s\<lparr>global_spend_monthly := t\<rparr>))"

definition upsert :: "'k \<Rightarrow> 'r \<Rightarrow> ('k, 'r) table \<Rightarrow> store_error + ('k, 'r) table" where
  "upsert k r t = Inr (insert_ignore k r t)"

text \<open>\<open>SET spend_pusd = spend_pusd + v\<close>, optionally with \<open>requests = requests + c\<close>.\<close>

definition add_spend :: "int64 \<Rightarrow> int64 \<Rightarrow> spend_row \<Rightarrow> spend_row" where
  "add_spend v c x = x\<lparr>spend_pusd := spend_pusd x + v, requests := requests x + c\<rparr>"

lemmas on_defs = on_monthly_def on_install_def on_category_def on_provider_def on_global_def
  on_wallet_def

section \<open>Reserve\<close>

definition validatePlan :: "plan \<Rightarrow> store_error + unit" where
  "validatePlan pl =
     (case Validate pl of
        Inl e \<Rightarrow> Inl (InvalidPlan e)
      | Inr _ \<Rightarrow> if ReservedPUSD pl \<le> 0 then Inl ZeroCostPlan else Inr ())"

definition planCategory :: "plan \<Rightarrow> string \<times> int64" where
  "planCategory pl =
     (case InputClass pl of
        InputImages \<Rightarrow> (CategoryImage, PromptQuote pl)
      | InputCharacters \<Rightarrow> (CategorySpeech, PromptQuote pl)
      | InputVideoSeconds \<Rightarrow> (CategoryVideo, 1)
      | InputVoices \<Rightarrow> (CategoryVoice, PromptQuote pl)
      | _ \<Rightarrow> ([], 0))"

definition categoryCap :: "string \<Rightarrow> limits \<Rightarrow> int64" where
  "categoryCap c lim =
     (if c = CategoryImage then ImageDailyLimit lim
      else if c = CategorySpeech then SpeechDailyLimit lim
      else if c = CategoryVideo then VideoDailyLimit lim
      else if c = CategoryVoice then VoiceDailyLimit lim
      else 0)"

definition reserve_month :: "string \<Rightarrow> period \<Rightarrow> limits \<Rightarrow> stmt list" where
  "reserve_month i p lim =
     [on_monthly (upsert (i, Month p) 0),
      on_monthly (update_one ErrMonthlyExhausted (i, Month p) (\<lambda>n. n < MonthlyQuota lim) (\<lambda>n. n + 1))]"

definition reserve_install :: "string \<Rightarrow> int64 \<Rightarrow> period \<Rightarrow> stmt list" where
  "reserve_install i v p =
     [on_install (upsert (i, Day p) empty_spend),
      on_install (update_one (ConditionalMiss ''install spend reserve'') (i, Day p)
        (\<lambda>x. spend_pusd x \<le> MaxInt64 - v) (add_spend v 0))]"

definition reserve_sublimit :: "string \<Rightarrow> period \<Rightarrow> limits \<Rightarrow> stmt list" where
  "reserve_sublimit i p lim =
     (if DailySublimit lim > 0
      then [on_install (update_one ErrSublimitExceeded (i, Day p)
              (\<lambda>x. requests x < DailySublimit lim) (add_spend 0 1))]
      else [])"

definition reserve_category :: "string \<Rightarrow> plan \<Rightarrow> period \<Rightarrow> limits \<Rightarrow> stmt list" where
  "reserve_category i pl p lim =
     (let (cat, units) = planCategory pl in
      if cat = [] then []
      else
       [on_category (upsert (i, cat, Day p) 0),
        (let dayCap = categoryCap cat lim in
         if dayCap > 0
         then on_category (update_one (CategoryDailyExceededError cat) (i, cat, Day p)
                (\<lambda>n. n + units \<le> dayCap) (\<lambda>n. n + units))
         else on_category (update_one (ConditionalMiss ''category daily record'') (i, cat, Day p)
                (\<lambda>n. n \<le> MaxInt64 - units) (\<lambda>n. n + units)))])"

definition reserve_provider :: "provider \<Rightarrow> int64 \<Rightarrow> period \<Rightarrow> stmt list" where
  "reserve_provider pr v p =
     [on_provider (upsert (pr, Day p) empty_spend),
      on_provider (update_one (ConditionalMiss ''provider spend reserve'') (pr, Day p)
        (\<lambda>x. spend_pusd x \<le> MaxInt64 - v \<and> requests x < MaxInt64) (add_spend v 1))]"

definition reserve_global :: "int64 \<Rightarrow> period \<Rightarrow> stmt list" where
  "reserve_global v p =
     [on_global (upsert (Day p) empty_spend),
      on_global (update_one (ConditionalMiss ''global spend reserve'') (Day p)
        (\<lambda>x. spend_pusd x \<le> MaxInt64 - v \<and> requests x < MaxInt64) (add_spend v 1))]"

definition reserve_wallet :: "int64 \<Rightarrow> period \<Rightarrow> limits \<Rightarrow> stmt list" where
  "reserve_wallet v p lim =
     [on_wallet (upsert (Month p) empty_spend),
      on_wallet (update_one ErrBudgetExceeded (Month p)
        (\<lambda>x. spend_pusd x \<le> wrap64 (GlobalMonthlySpendPUSD lim - v)) (add_spend v 1))]"

definition new_reservation :: "string \<Rightarrow> string \<Rightarrow> plan \<Rightarrow> period \<Rightarrow> limits \<Rightarrow> reservation" where
  "new_reservation rid i pl p lim =
     \<lparr>RequestID = rid, InstallID = i, Period = p, Plan = pl, Res_ReservedPUSD = ReservedPUSD pl,
      SublimitApplied = (DailySublimit lim > 0),
      CategoryApplied = fst (planCategory pl), CategoryUnits = snd (planCategory pl)\<rparr>"

definition open_row :: "reservation \<Rightarrow> int \<Rightarrow> ledger_row" where
  "open_row r now =
     \<lparr>request_id = RequestID r, install_id = InstallID r, row_provider = Provider (Plan r),
      row_model = Model (Plan r), rate_card_id = RateCardID (Plan r),
      period_month = Month (Period r), period_day = Day (Period r),
      reserved_pusd = ReservedPUSD (Plan r), charged_pusd = None, state = StateOpen,
      sublimit_applied = SublimitApplied r, category = CategoryApplied r,
      category_units = CategoryUnits r, created_at = now, terminal_at = None\<rparr>"

definition ledger_insert :: "ledger_row \<Rightarrow> stmt" where
  "ledger_insert x s =
     (if request_id x \<in> set (map request_id (spend_ledger s)) \<or> \<not> ledger_check x
      then Inl (SqlConstraint ''spend_ledger'')
      else Inr (s\<lparr>spend_ledger := spend_ledger s @ [x]\<rparr>))"

definition reserve_tx :: "reservation \<Rightarrow> limits \<Rightarrow> int \<Rightarrow> stmt list" where
  "reserve_tx r lim now =
     (let i = InstallID r; p = Period r; pl = Plan r; v = ReservedPUSD pl in
      reserve_month i p lim @ reserve_install i v p @ reserve_sublimit i p lim @
      reserve_category i pl p lim @ reserve_provider (Provider pl) v p @ reserve_global v p @
      reserve_wallet v p lim @ [ledger_insert (open_row r now)])"

definition Reserve ::
    "string \<Rightarrow> int \<Rightarrow> string \<Rightarrow> plan \<Rightarrow> period \<Rightarrow> limits \<Rightarrow> db \<Rightarrow> store_error + (db \<times> reservation)" where
  "Reserve rid now i pl p lim s =
     rbind (validatePlan pl) (\<lambda>_.
       let r = new_reservation rid i pl p lim
       in rbind (run_tx (reserve_tx r lim now) s) (\<lambda>s'. Inr (s', r)))"

section \<open>Settle and Rollback\<close>

definition validateReservation :: "reservation \<Rightarrow> store_error + unit" where
  "validateReservation r =
     (if RequestID r = [] \<or> InstallID r = [] \<or> Res_ReservedPUSD r \<le> 0 then Inl InvalidReservation
      else if Res_ReservedPUSD r \<noteq> ReservedPUSD (Plan r) then Inl AmountMismatch
      else validatePlan (Plan r))"

text \<open>The \<open>WHERE\<close> of the compare-and-swap: the open row of this request, every column as the
  reservation recorded it.\<close>

definition cas_match :: "reservation \<Rightarrow> ledger_row \<Rightarrow> bool" where
  "cas_match r x \<longleftrightarrow>
     request_id x = RequestID r \<and> state x = StateOpen \<and> install_id x = InstallID r \<and>
     row_provider x = Provider (Plan r) \<and> row_model x = Model (Plan r) \<and>
     rate_card_id x = RateCardID (Plan r) \<and> period_month x = Month (Period r) \<and>
     period_day x = Day (Period r) \<and> reserved_pusd x = Res_ReservedPUSD r \<and>
     sublimit_applied x = SublimitApplied r \<and> category x = CategoryApplied r \<and>
     category_units x = CategoryUnits r"

definition terminal_row :: "ledger_state \<Rightarrow> int64 \<Rightarrow> int \<Rightarrow> ledger_row \<Rightarrow> ledger_row" where
  "terminal_row st c now x = x\<lparr>state := st, charged_pusd := Some c, terminal_at := Some now\<rparr>"

definition cas_rows :: "(ledger_row \<Rightarrow> bool) \<Rightarrow> (ledger_row \<Rightarrow> ledger_row) \<Rightarrow> db \<Rightarrow> db \<times> nat" where
  "cas_rows P u s =
     (s\<lparr>spend_ledger := map (\<lambda>x. if P x then u x else x) (spend_ledger s)\<rparr>,
      length (filter P (spend_ledger s)))"

definition sub_spend ::
    "string \<Rightarrow> 'k \<Rightarrow> int64 \<Rightarrow> int64 \<Rightarrow> ('k, spend_row) table \<Rightarrow> store_error + ('k, spend_row) table" where
  "sub_spend opn k v c =
     update_one (ConditionalMiss opn) k (\<lambda>x. spend_pusd x \<ge> v \<and> requests x \<ge> c) (add_spend (- v) (- c))"

text \<open>
  \<open>sub_spend\<close> with \<open>c = 1\<close> is the rollback's \<open>SET spend_pusd = spend_pusd - ?, requests =
  requests - 1 WHERE \<dots> AND requests >= 1\<close>; the settle refund does not read \<open>requests\<close> at all,
  so it has its own form.
\<close>

definition refund_spend ::
    "string \<Rightarrow> 'k \<Rightarrow> int64 \<Rightarrow> ('k, spend_row) table \<Rightarrow> store_error + ('k, spend_row) table" where
  "refund_spend opn k v = update_one (ConditionalMiss opn) k (\<lambda>x. spend_pusd x \<ge> v) (add_spend (- v) 0)"

definition topup_spend ::
    "string \<Rightarrow> 'k \<Rightarrow> int64 \<Rightarrow> ('k, spend_row) table \<Rightarrow> store_error + ('k, spend_row) table" where
  "topup_spend opn k v =
     update_one (ConditionalMiss opn) k (\<lambda>x. spend_pusd x \<le> wrap64 (MaxInt64 - v)) (add_spend v 0)"

definition adjustSpend :: "reservation \<Rightarrow> int64 \<Rightarrow> stmt" where
  "adjustSpend r delta =
     (let i = InstallID r; d = Day (Period r); m = Month (Period r); pr = Provider (Plan r) in
      if delta = 0 then Inr
      else if delta > 0 then run_tx
        [on_install (refund_spend ''install settle refund'' (i, d) delta),
         on_provider (refund_spend ''provider settle refund'' (pr, d) delta),
         on_global (refund_spend ''global settle refund'' d delta),
         on_wallet (refund_spend ''global month settle refund'' m delta)]
      else let topUp = wrap64 (- delta) in run_tx
        [on_install (topup_spend ''install settle top-up'' (i, d) topUp),
         on_provider (topup_spend ''provider settle top-up'' (pr, d) topUp),
         on_global (topup_spend ''global settle top-up'' d topUp),
         on_wallet (topup_spend ''global month settle top-up'' m topUp)])"

definition Settle :: "int \<Rightarrow> reservation \<Rightarrow> int64 \<Rightarrow> stmt" where
  "Settle now r actual s =
     rbind (validateReservation r) (\<lambda>_.
       if actual < 0 then Inl NegativeSettlement
       else
         let delta = wrap64 (Res_ReservedPUSD r - actual);
             (s', n) = cas_rows (cas_match r) (terminal_row StateSettled actual now) s
         in if n = 0 then Inr s
            else if n \<noteq> 1 then Inl (AffectedRows ''ledger settle'' n)
            else adjustSpend r delta s')"

definition rollback_install :: "reservation \<Rightarrow> stmt" where
  "rollback_install r =
     (let k = (InstallID r, Day (Period r)) in
      if SublimitApplied r
      then on_install (sub_spend ''install rollback'' k (Res_ReservedPUSD r) 1)
      else on_install (refund_spend ''install rollback'' k (Res_ReservedPUSD r)))"

definition rollback_tx :: "reservation \<Rightarrow> stmt list" where
  "rollback_tx r =
     (let i = InstallID r; d = Day (Period r); m = Month (Period r); v = Res_ReservedPUSD r in
      [rollback_install r] @
      (if CategoryApplied r \<noteq> [] \<and> CategoryUnits r > 0
       then [on_category (update_one (ConditionalMiss ''category rollback'') (i, CategoryApplied r, d)
               (\<lambda>n. n \<ge> CategoryUnits r) (\<lambda>n. n - CategoryUnits r))]
       else []) @
      [on_provider (sub_spend ''provider rollback'' (Provider (Plan r), d) v 1),
       on_global (sub_spend ''global rollback'' d v 1),
       on_wallet (sub_spend ''global month rollback'' m v 1),
       on_monthly (update_one (ConditionalMiss ''month rollback'') (i, m) (\<lambda>n. n \<ge> 1) (\<lambda>n. n - 1))])"

definition Rollback :: "int \<Rightarrow> reservation \<Rightarrow> stmt" where
  "Rollback now r s =
     rbind (validateReservation r) (\<lambda>_.
       let (s', n) = cas_rows (cas_match r) (terminal_row StateRolledBack 0 now) s
       in if n = 0 then Inr s
          else if n \<noteq> 1 then Inl (AffectedRows ''ledger rollback'' n)
          else run_tx (rollback_tx r) s')"

section \<open>Reconciler, monthly reset and reads\<close>

definition orphan_match :: "string \<Rightarrow> ledger_row \<Rightarrow> bool" where
  "orphan_match rid x \<longleftrightarrow> request_id x = rid \<and> state x = StateOpen"

definition orphan_row :: "int \<Rightarrow> ledger_row \<Rightarrow> ledger_row" where
  "orphan_row now x =
     x\<lparr>state := StateOrphaned, charged_pusd := Some (reserved_pusd x), terminal_at := Some now\<rparr>"

definition reconcileOne :: "int \<Rightarrow> string \<Rightarrow> db \<Rightarrow> store_error + (db \<times> bool)" where
  "reconcileOne now rid s =
     (let (s', n) = cas_rows (orphan_match rid) (orphan_row now) s
      in if n > 1 then Inl (AffectedRows ''reconcile'' n) else Inr (s', n = 1))"

fun reconcile_ids :: "int \<Rightarrow> string list \<Rightarrow> db \<Rightarrow> nat \<Rightarrow> store_error option \<times> db \<times> nat" where
  "reconcile_ids now [] s n = (None, s, n)"
| "reconcile_ids now (rid # rids) s n =
     (case reconcileOne now rid s of
        Inl e \<Rightarrow> (Some e, s, n)
      | Inr (s', won) \<Rightarrow> reconcile_ids now rids s' (if won then n + 1 else n))"

definition ReconcileOrphans :: "int \<Rightarrow> int \<Rightarrow> db \<Rightarrow> store_error option \<times> db \<times> nat" where
  "ReconcileOrphans now cutoff s =
     reconcile_ids now
       (map request_id (filter (\<lambda>x. state x = StateOpen \<and> created_at x < cutoff) (spend_ledger s))) s 0"

definition OpenReservations :: "db \<Rightarrow> nat" where
  "OpenReservations s = length (filter (\<lambda>x. state x = StateOpen) (spend_ledger s))"

definition ResetMonthlyRequests :: "period \<Rightarrow> db \<Rightarrow> store_error + (db \<times> nat)" where
  "ResetMonthlyRequests p s =
     (if OpenReservations s \<noteq> 0 then Inl ErrMonthlyResetBlocked
      else
        let hit = (\<lambda>e. snd (fst e) = Month p \<and> snd e > 0)
        in Inr (s\<lparr>quota_monthly := map (\<lambda>e. if hit e then (fst e, 0) else e) (quota_monthly s)\<rparr>,
                length (filter hit (quota_monthly s))))"

definition spend_at :: "('k, spend_row) table \<Rightarrow> 'k \<Rightarrow> int64" where
  "spend_at t k = (case tget t k of None \<Rightarrow> 0 | Some x \<Rightarrow> spend_pusd x)"

definition reqs_at :: "('k, spend_row) table \<Rightarrow> 'k \<Rightarrow> int64" where
  "reqs_at t k = (case tget t k of None \<Rightarrow> 0 | Some x \<Rightarrow> requests x)"

definition count_at :: "('k, int64) table \<Rightarrow> 'k \<Rightarrow> int64" where
  "count_at t k = (case tget t k of None \<Rightarrow> 0 | Some n \<Rightarrow> n)"

definition View :: "string \<Rightarrow> period \<Rightarrow> db \<Rightarrow> int64 \<times> int64 \<times> int64" where
  "View i p s =
     (count_at (quota_monthly s) (i, Month p),
      spend_at (install_spend_daily s) (i, Day p),
      spend_at (global_spend_monthly s) (Month p))"

end
