(* ===== verification/Quota_Effects.thy ===== *)
theory Quota_Effects
  imports Quota_Store
begin

text \<open>
  What one successful transaction of the spend ledger changes, table by table. \<open>shifted t t' k v c\<close>
  says that the row at key \<open>k\<close> gained \<open>v\<close> pUSD and \<open>c\<close> requests and every other row kept its
  balance; \<open>cshifted\<close> is the same for the two counting tables.
\<close>

definition shifted ::
    "('k, spend_row) table \<Rightarrow> ('k, spend_row) table \<Rightarrow> 'k \<Rightarrow> int \<Rightarrow> int \<Rightarrow> bool" where
  "shifted t t' k v c \<longleftrightarrow>
     (\<forall>j. spend_at t' j = spend_at t j + (if j = k then v else 0)) \<and>
     (\<forall>j. reqs_at t' j = reqs_at t j + (if j = k then c else 0))"

definition cshifted :: "('k, int64) table \<Rightarrow> ('k, int64) table \<Rightarrow> 'k \<Rightarrow> int \<Rightarrow> bool" where
  "cshifted t t' k c \<longleftrightarrow> (\<forall>j. count_at t' j = count_at t j + (if j = k then c else 0))"

lemmas at_defs = spend_at_def reqs_at_def count_at_def

lemma shifted_trans:
  "shifted t t' k v c \<Longrightarrow> shifted t' t'' k v' c' \<Longrightarrow> shifted t t'' k (v + v') (c + c')"
  by (simp add: shifted_def)

lemma spend_at_insert_ignore [simp]:
  "spend_at (insert_ignore k empty_spend t) j = spend_at t j"
  "reqs_at (insert_ignore k empty_spend t) j = reqs_at t j"
  by (auto simp: at_defs tget_insert_ignore empty_spend_def split: option.splits)

lemma count_at_insert_ignore [simp]: "count_at (insert_ignore k 0 t) j = count_at t j"
  by (auto simp: at_defs tget_insert_ignore split: option.splits)

lemma update_one_shifted:
  assumes "update_one e k g (add_spend v c) t = Inr t'"
  shows "shifted t t' k v c"
  using assms by (auto simp: stmt_simps shifted_def at_defs add_spend_def)

lemma update_one_cshifted:
  assumes "update_one e k g u t = Inr t'" and "\<And>n. u n = n + c"
  shows "cshifted t t' k c"
  using assms by (auto simp: stmt_simps cshifted_def at_defs)

lemma update_one_cshifted_minus:
  "update_one e k g (\<lambda>n. n - c) t = Inr t' \<Longrightarrow> cshifted t t' k (- c)"
  by (erule update_one_cshifted) simp

lemma update_one_guard:
  assumes "update_one e k g u t = Inr t'"
  obtains x where "tget t k = Some x" "g x"
  using assms by (auto simp: stmt_simps)

text \<open>When an update with the right guard succeeds: the aggregate covers the amount.\<close>

lemma update_one_ok:
  assumes "tget t k = Some x" "g x"
  shows "update_one e k g u t = Inr (tput k (u x) t)"
  using assms by (simp add: update_one_def)

section \<open>Blocks of the reserve transaction\<close>

lemma reserve_month_effect:
  assumes "run_tx (reserve_month i p lim) s = Inr s'"
  obtains t where "s' = s\<lparr>quota_monthly := t\<rparr>"
    "cshifted (quota_monthly s) t (i, Month p) 1"
    "count_at (quota_monthly s) (i, Month p) < MonthlyQuota lim"
proof -
  let ?t0 = "insert_ignore (i, Month p) 0 (quota_monthly s)"
  from assms obtain t where u: "update_one ErrMonthlyExhausted (i, Month p)
      (\<lambda>n. n < MonthlyQuota lim) (\<lambda>n. n + 1) ?t0 = Inr t" and s': "s' = s\<lparr>quota_monthly := t\<rparr>"
    by (auto simp: reserve_month_def on_monthly_def upsert_def rbind_Inr_iff)
  have "cshifted ?t0 t (i, Month p) 1" using u by (rule update_one_cshifted) simp
  then have "cshifted (quota_monthly s) t (i, Month p) 1" by (simp add: cshifted_def)
  moreover have "count_at ?t0 (i, Month p) < MonthlyQuota lim"
    using u by (auto simp: stmt_simps count_at_def)
  ultimately show thesis using s' that by simp
qed

lemma reserve_install_effect:
  assumes "run_tx (reserve_install i v p) s = Inr s'"
  obtains t where "s' = s\<lparr>install_spend_daily := t\<rparr>"
    "shifted (install_spend_daily s) t (i, Day p) v 0"
proof -
  let ?t0 = "insert_ignore (i, Day p) empty_spend (install_spend_daily s)"
  from assms obtain t where u: "update_one (ConditionalMiss ''install spend reserve'') (i, Day p)
      (\<lambda>x. spend_pusd x \<le> MaxInt64 - v) (add_spend v 0) ?t0 = Inr t"
      and s': "s' = s\<lparr>install_spend_daily := t\<rparr>"
    by (auto simp: reserve_install_def on_install_def upsert_def rbind_Inr_iff)
  from update_one_shifted[OF u] s' that show thesis by (simp add: shifted_def)
qed

lemma reserve_sublimit_effect:
  assumes "run_tx (reserve_sublimit i p lim) s = Inr s'"
  obtains t where "s' = s\<lparr>install_spend_daily := t\<rparr>"
    "shifted (install_spend_daily s) t (i, Day p) 0 (if DailySublimit lim > 0 then 1 else 0)"
    "DailySublimit lim > 0 \<Longrightarrow> reqs_at (install_spend_daily s) (i, Day p) < DailySublimit lim"
proof (cases "DailySublimit lim > 0")
  case True
  with assms obtain t where u: "update_one ErrSublimitExceeded (i, Day p)
      (\<lambda>x. requests x < DailySublimit lim) (add_spend 0 1) (install_spend_daily s) = Inr t"
      and s': "s' = s\<lparr>install_spend_daily := t\<rparr>"
    by (auto simp: reserve_sublimit_def on_install_def rbind_Inr_iff)
  moreover have "reqs_at (install_spend_daily s) (i, Day p) < DailySublimit lim"
    using u by (auto simp: stmt_simps reqs_at_def)
  ultimately show thesis using update_one_shifted[OF u] True that by simp
next
  case False
  with assms have "s' = s" by (simp add: reserve_sublimit_def)
  then have "s' = s\<lparr>install_spend_daily := install_spend_daily s\<rparr>" by simp
  then show thesis by (rule that) (use False in \<open>auto simp: shifted_def\<close>)
qed

lemma reserve_category_effect:
  assumes "run_tx (reserve_category i pl p lim) s = Inr s'"
  obtains t where "s' = s\<lparr>install_category_daily := t\<rparr>"
    "cshifted (install_category_daily s) t (i, fst (planCategory pl), Day p)
       (if fst (planCategory pl) = [] then 0 else snd (planCategory pl))"
    "\<lbrakk>fst (planCategory pl) \<noteq> []; categoryCap (fst (planCategory pl)) lim > 0\<rbrakk> \<Longrightarrow>
       count_at (install_category_daily s) (i, fst (planCategory pl), Day p) + snd (planCategory pl)
         \<le> categoryCap (fst (planCategory pl)) lim"
proof (cases "fst (planCategory pl) = []")
  case True
  with assms have "s' = s\<lparr>install_category_daily := install_category_daily s\<rparr>"
    by (simp add: reserve_category_def case_prod_beta)
  then show thesis by (rule that) (use True in \<open>auto simp: cshifted_def\<close>)
next
  case False
  obtain cat units where c: "planCategory pl = (cat, units)" by (cases "planCategory pl")
  let ?t0 = "insert_ignore (i, cat, Day p) 0 (install_category_daily s)"
  let ?cap = "categoryCap cat lim"
  let ?e = "if ?cap > 0 then CategoryDailyExceededError cat else ConditionalMiss ''category daily record''"
  let ?g = "if ?cap > 0 then (\<lambda>n. n + units \<le> ?cap) else (\<lambda>n. n \<le> MaxInt64 - units)"
  from assms False c obtain t where
      u: "update_one ?e (i, cat, Day p) ?g (\<lambda>n. n + units) ?t0 = Inr t"
      and s': "s' = s\<lparr>install_category_daily := t\<rparr>"
    by (cases "?cap > 0")
      (auto simp: reserve_category_def on_category_def upsert_def rbind_Inr_iff Let_def)
  have "cshifted ?t0 t (i, cat, Day p) units" using u by (rule update_one_cshifted) simp
  moreover have "count_at ?t0 (i, cat, Day p) + units \<le> categoryCap cat lim"
    if "categoryCap cat lim > 0"
    using u that by (auto simp: stmt_simps count_at_def)
  ultimately show thesis using s' that c False by (simp add: cshifted_def)
qed

lemma reserve_provider_effect:
  assumes "run_tx (reserve_provider pr v p) s = Inr s'"
  obtains t where "s' = s\<lparr>provider_spend_daily := t\<rparr>"
    "shifted (provider_spend_daily s) t (pr, Day p) v 1"
proof -
  let ?t0 = "insert_ignore (pr, Day p) empty_spend (provider_spend_daily s)"
  from assms obtain g t where u: "update_one (ConditionalMiss ''provider spend reserve'') (pr, Day p)
      g (add_spend v 1) ?t0 = Inr t" and s': "s' = s\<lparr>provider_spend_daily := t\<rparr>"
    by (auto simp: reserve_provider_def on_provider_def upsert_def rbind_Inr_iff)
  from update_one_shifted[OF u] s' that show thesis by (simp add: shifted_def)
qed

lemma reserve_global_effect:
  assumes "run_tx (reserve_global v p) s = Inr s'"
  obtains t where "s' = s\<lparr>global_spend_daily := t\<rparr>"
    "shifted (global_spend_daily s) t (Day p) v 1"
proof -
  let ?t0 = "insert_ignore (Day p) empty_spend (global_spend_daily s)"
  from assms obtain g t where u: "update_one (ConditionalMiss ''global spend reserve'') (Day p)
      g (add_spend v 1) ?t0 = Inr t" and s': "s' = s\<lparr>global_spend_daily := t\<rparr>"
    by (auto simp: reserve_global_def on_global_def upsert_def rbind_Inr_iff)
  from update_one_shifted[OF u] s' that show thesis by (simp add: shifted_def)
qed

lemma reserve_wallet_effect:
  assumes "run_tx (reserve_wallet v p lim) s = Inr s'"
  obtains t where "s' = s\<lparr>global_spend_monthly := t\<rparr>"
    "shifted (global_spend_monthly s) t (Month p) v 1"
    "spend_at (global_spend_monthly s) (Month p) \<le> wrap64 (GlobalMonthlySpendPUSD lim - v)"
proof -
  let ?t0 = "insert_ignore (Month p) empty_spend (global_spend_monthly s)"
  from assms obtain t where u: "update_one ErrBudgetExceeded (Month p)
      (\<lambda>x. spend_pusd x \<le> wrap64 (GlobalMonthlySpendPUSD lim - v)) (add_spend v 1) ?t0 = Inr t"
      and s': "s' = s\<lparr>global_spend_monthly := t\<rparr>"
    by (auto simp: reserve_wallet_def on_wallet_def upsert_def rbind_Inr_iff)
  have "spend_at ?t0 (Month p) \<le> wrap64 (GlobalMonthlySpendPUSD lim - v)"
    using u by (auto simp: stmt_simps spend_at_def)
  with update_one_shifted[OF u] s' that show thesis by (simp add: shifted_def)
qed

section \<open>The whole reserve\<close>

text \<open>Everything a successful reserve did, as one record of facts.\<close>

definition reserve_effect :: "reservation \<Rightarrow> limits \<Rightarrow> int \<Rightarrow> db \<Rightarrow> db \<Rightarrow> bool" where
  "reserve_effect r lim now s s' \<longleftrightarrow>
     (let i = InstallID r; d = Day (Period r); m = Month (Period r); pl = Plan r;
          v = ReservedPUSD pl in
      cshifted (quota_monthly s) (quota_monthly s') (i, m) 1 \<and>
      shifted (install_spend_daily s) (install_spend_daily s') (i, d) v
        (if SublimitApplied r then 1 else 0) \<and>
      cshifted (install_category_daily s) (install_category_daily s') (i, CategoryApplied r, d)
        (CategoryUnits r) \<and>
      shifted (provider_spend_daily s) (provider_spend_daily s') (Provider pl, d) v 1 \<and>
      shifted (global_spend_daily s) (global_spend_daily s') d v 1 \<and>
      shifted (global_spend_monthly s) (global_spend_monthly s') m v 1 \<and>
      spend_ledger s' = spend_ledger s @ [open_row r now] \<and>
      RequestID r \<notin> set (map request_id (spend_ledger s)) \<and> ledger_check (open_row r now))"

text \<open>The gates a successful reserve passed.\<close>

definition reserve_gates :: "reservation \<Rightarrow> limits \<Rightarrow> db \<Rightarrow> bool" where
  "reserve_gates r lim s \<longleftrightarrow>
     (let i = InstallID r; d = Day (Period r); m = Month (Period r); c = CategoryApplied r in
      count_at (quota_monthly s) (i, m) < MonthlyQuota lim \<and>
      (DailySublimit lim > 0 \<longrightarrow> reqs_at (install_spend_daily s) (i, d) < DailySublimit lim) \<and>
      (c \<noteq> [] \<and> categoryCap c lim > 0 \<longrightarrow>
         count_at (install_category_daily s) (i, c, d) + CategoryUnits r \<le> categoryCap c lim) \<and>
      spend_at (global_spend_monthly s) m
        \<le> wrap64 (GlobalMonthlySpendPUSD lim - ReservedPUSD (Plan r)))"

lemma open_row_request_id [simp]: "request_id (open_row r now) = RequestID r"
  by (simp add: open_row_def)

lemma planCategory_none: "fst (planCategory pl) = [] \<Longrightarrow> snd (planCategory pl) = 0"
  by (auto simp: planCategory_def category_names split: input_class.splits)

lemma Reserve_effect:
  assumes "Reserve rid now i pl p lim s = Inr (s', r)"
  shows "r = new_reservation rid i pl p lim" "validatePlan pl = Inr ()"
    "reserve_effect r lim now s s'" "reserve_gates r lim s"
proof -
  from assms show r: "r = new_reservation rid i pl p lim" and vp: "validatePlan pl = Inr ()"
    by (auto simp: Reserve_def Let_def rbind_Inr_iff)
  let ?v = "ReservedPUSD pl" and ?c = "planCategory pl"
  from assms r have tx: "run_tx (reserve_tx r lim now) s = Inr s'"
    by (auto simp: Reserve_def Let_def rbind_Inr_iff)
  have fields: "InstallID r = i" "Period r = p" "Plan r = pl" "RequestID r = rid"
      "SublimitApplied r = (DailySublimit lim > 0)" "CategoryApplied r = fst ?c"
      "CategoryUnits r = snd ?c"
    by (simp_all add: r new_reservation_def)
  from tx obtain s1 s2 s3 s4 s5 s6 s7 where
      b1: "run_tx (reserve_month i p lim) s = Inr s1" and
      b2: "run_tx (reserve_install i ?v p) s1 = Inr s2" and
      b3: "run_tx (reserve_sublimit i p lim) s2 = Inr s3" and
      b4: "run_tx (reserve_category i pl p lim) s3 = Inr s4" and
      b5: "run_tx (reserve_provider (Provider pl) ?v p) s4 = Inr s5" and
      b6: "run_tx (reserve_global ?v p) s5 = Inr s6" and
      b7: "run_tx (reserve_wallet ?v p lim) s6 = Inr s7" and
      b8: "ledger_insert (open_row r now) s7 = Inr s'"
    by (auto simp: reserve_tx_def Let_def fields run_tx_append rbind_Inr_iff)
  from b1 obtain t1 where e1: "s1 = s\<lparr>quota_monthly := t1\<rparr>"
    "cshifted (quota_monthly s) t1 (i, Month p) 1"
    "count_at (quota_monthly s) (i, Month p) < MonthlyQuota lim" by (rule reserve_month_effect)
  from b2 obtain t2 where e2: "s2 = s1\<lparr>install_spend_daily := t2\<rparr>"
    "shifted (install_spend_daily s1) t2 (i, Day p) ?v 0" by (rule reserve_install_effect)
  from b3 obtain t3 where e3: "s3 = s2\<lparr>install_spend_daily := t3\<rparr>"
    "shifted (install_spend_daily s2) t3 (i, Day p) 0 (if DailySublimit lim > 0 then 1 else 0)"
    "DailySublimit lim > 0 \<Longrightarrow> reqs_at (install_spend_daily s2) (i, Day p) < DailySublimit lim"
    by (rule reserve_sublimit_effect) blast
  from b4 obtain t4 where e4: "s4 = s3\<lparr>install_category_daily := t4\<rparr>"
    "cshifted (install_category_daily s3) t4 (i, fst ?c, Day p) (if fst ?c = [] then 0 else snd ?c)"
    "\<lbrakk>fst ?c \<noteq> []; categoryCap (fst ?c) lim > 0\<rbrakk> \<Longrightarrow>
       count_at (install_category_daily s3) (i, fst ?c, Day p) + snd ?c \<le> categoryCap (fst ?c) lim"
    by (rule reserve_category_effect) blast
  from b5 obtain t5 where e5: "s5 = s4\<lparr>provider_spend_daily := t5\<rparr>"
    "shifted (provider_spend_daily s4) t5 (Provider pl, Day p) ?v 1" by (rule reserve_provider_effect)
  from b6 obtain t6 where e6: "s6 = s5\<lparr>global_spend_daily := t6\<rparr>"
    "shifted (global_spend_daily s5) t6 (Day p) ?v 1" by (rule reserve_global_effect)
  from b7 obtain t7 where e7: "s7 = s6\<lparr>global_spend_monthly := t7\<rparr>"
    "shifted (global_spend_monthly s6) t7 (Month p) ?v 1"
    "spend_at (global_spend_monthly s6) (Month p) \<le> wrap64 (GlobalMonthlySpendPUSD lim - ?v)"
    by (rule reserve_wallet_effect)
  have cat: "(if fst ?c = [] then 0 else snd ?c) = snd ?c" using planCategory_none by auto
  have inst: "shifted (install_spend_daily s) t3 (i, Day p) ?v (if DailySublimit lim > 0 then 1 else 0)"
    using shifted_trans[OF e2(2), of t3 0] e3(2) e1(1) e2(1) by simp
  from b8 have led: "s' = s7\<lparr>spend_ledger := spend_ledger s7 @ [open_row r now]\<rparr>"
      "request_id (open_row r now) \<notin> set (map request_id (spend_ledger s7))"
      "ledger_check (open_row r now)"
    by (auto simp: ledger_insert_def split: if_splits)
  show "reserve_effect r lim now s s'"
    using led e1(1,2) e3(1) e2(1) e4(1,2) e5 e6 e7(1,2) inst
    unfolding reserve_effect_def Let_def fields cat by (simp add: fields)
  have "reqs_at t2 (i, Day p) = reqs_at (install_spend_daily s) (i, Day p)"
    using e2(2) e1(1) by (simp add: shifted_def)
  then show "reserve_gates r lim s"
    using e1(1,3) e2(1) e3(1,3) e4(1,3) e5(1) e6(1) e7(3)
    by (auto simp: reserve_gates_def Let_def fields)
qed

section \<open>Compare-and-swap on the ledger\<close>

definition swap_row :: "string \<Rightarrow> (ledger_row \<Rightarrow> ledger_row) \<Rightarrow> ledger_row list \<Rightarrow> ledger_row list" where
  "swap_row rid u = map (\<lambda>x. if request_id x = rid then u x else x)"

lemma cas_rows_hit:
  assumes dist: "distinct (map request_id (spend_ledger s))"
    and P: "\<And>x. P x \<Longrightarrow> request_id x = rid"
    and cas: "cas_rows P u s = (s', n)" and hit: "n \<noteq> 0"
  obtains x where "x \<in> set (spend_ledger s)" "P x" "n = 1"
    "s' = s\<lparr>spend_ledger := swap_row rid u (spend_ledger s)\<rparr>"
proof -
  from cas hit obtain x where x: "x \<in> set (spend_ledger s)" "P x"
    by (auto simp: cas_rows_def filter_empty_conv)
  have uniq: "P y \<longleftrightarrow> request_id y = rid" if "y \<in> set (spend_ledger s)" for y
    using that x P dist by (auto simp: distinct_map inj_on_def)
  have flt: "filter P (spend_ledger s) = filter (\<lambda>y. y = x) (spend_ledger s)"
    by (rule filter_cong) (use uniq x P dist in \<open>auto simp: distinct_map inj_on_def\<close>)
  have "length (filter (\<lambda>y. y = x) (spend_ledger s)) = 1"
    using x dist by (simp add: distinct_map distinct_length_filter Int_absorb2)
  with cas flt have n: "n = 1" by (simp add: cas_rows_def)
  have "s' = s\<lparr>spend_ledger := swap_row rid u (spend_ledger s)\<rparr>"
    using cas uniq by (auto simp: cas_rows_def swap_row_def)
  with x n show thesis by (rule that)
qed

lemma cas_rows_miss:
  assumes "cas_rows P u s = (s', 0)"
  shows "\<forall>x \<in> set (spend_ledger s). \<not> P x"
  using assms by (auto simp: cas_rows_def filter_empty_conv)

lemma cas_match_id: "cas_match r x \<Longrightarrow> request_id x = RequestID r"
  by (simp add: cas_match_def)

text \<open>The row a compare-and-swap found, and what the transaction did around it.\<close>

definition spend_moved :: "ledger_row \<Rightarrow> int \<Rightarrow> int \<Rightarrow> db \<Rightarrow> db \<Rightarrow> bool" where
  "spend_moved x v c s s' \<longleftrightarrow>
     shifted (install_spend_daily s) (install_spend_daily s') (install_id x, period_day x) v
       (if sublimit_applied x then c else 0) \<and>
     shifted (provider_spend_daily s) (provider_spend_daily s') (row_provider x, period_day x) v c \<and>
     shifted (global_spend_daily s) (global_spend_daily s') (period_day x) v c \<and>
     shifted (global_spend_monthly s) (global_spend_monthly s') (period_month x) v c"

lemma shifted_refl [simp]: "shifted t t k 0 0" "cshifted t2 t2 k 0"
  by (simp_all add: shifted_def cshifted_def)

lemma adjustSpend_effect:
  assumes "adjustSpend r delta s = Inr s'" and "delta < 0 \<Longrightarrow> wrap64 (- delta) = - delta"
    and "cas_match r x"
  shows "spend_moved x (- delta) 0 s s'" "quota_monthly s' = quota_monthly s"
    "install_category_daily s' = install_category_daily s" "spend_ledger s' = spend_ledger s"
proof -
  have keys: "install_id x = InstallID r" "period_day x = Day (Period r)"
      "row_provider x = Provider (Plan r)" "period_month x = Month (Period r)"
    using assms(3) by (simp_all add: cas_match_def)
  consider "delta = 0" | "delta > 0" | "delta < 0" by linarith
  then have "spend_moved x (- delta) 0 s s' \<and> quota_monthly s' = quota_monthly s \<and>
    install_category_daily s' = install_category_daily s \<and> spend_ledger s' = spend_ledger s"
  proof cases
    case 1
    then show ?thesis using assms(1) by (simp add: adjustSpend_def spend_moved_def)
  next
    case 2
    then show ?thesis using assms(1)
      by (auto simp: adjustSpend_def Let_def on_defs refund_spend_def rbind_Inr_iff spend_moved_def keys
          dest!: update_one_shifted)
  next
    case 3
    with assms(2) have w: "wrap64 (- delta) = - delta" by simp
    from 3 show ?thesis using assms(1)
      by (auto simp: adjustSpend_def Let_def on_defs topup_spend_def rbind_Inr_iff spend_moved_def keys w
          dest!: update_one_shifted)
  qed
  then show "spend_moved x (- delta) 0 s s'" "quota_monthly s' = quota_monthly s"
    "install_category_daily s' = install_category_daily s" "spend_ledger s' = spend_ledger s"
    by blast+
qed

lemma validateReservationD:
  assumes "validateReservation r = Inr ()"
  shows "Res_ReservedPUSD r = ReservedPUSD (Plan r)" "0 < Res_ReservedPUSD r"
    "Res_ReservedPUSD r \<le> MaxInt64" "Provider (Plan r) = ProviderQwen"
  using assms Validate_bounds[of "Plan r"]
  by (auto simp: validateReservation_def validatePlan_def split: if_splits sum.splits)

text \<open>A successful settle either lost the race (nothing changes) or terminalised exactly one row.\<close>

lemma Settle_cases:
  assumes "Settle now r a s = Inr s'" and "distinct (map request_id (spend_ledger s))"
    and i64: "is_int64 a"
  obtains "s' = s" "\<forall>x \<in> set (spend_ledger s). \<not> cas_match r x"
  | x where "x \<in> set (spend_ledger s)" "cas_match r x" "0 \<le> a"
      "spend_moved x (a - reserved_pusd x) 0 s s'" "quota_monthly s' = quota_monthly s"
      "install_category_daily s' = install_category_daily s"
      "spend_ledger s' = swap_row (request_id x) (terminal_row StateSettled a now) (spend_ledger s)"
proof -
  from assms(1) have v: "validateReservation r = Inr ()" and a: "0 \<le> a"
    by (auto simp: Settle_def rbind_Inr_iff split: if_splits)
  note vd = validateReservationD[OF v]
  have w: "wrap64 (Res_ReservedPUSD r - a) = Res_ReservedPUSD r - a"
    "wrap64 (- (Res_ReservedPUSD r - a)) = - (Res_ReservedPUSD r - a)"
    using vd a i64 by (auto intro!: wrap64_id simp: is_int64_def MaxInt64_def MinInt64_def)
  obtain s1 n where cas: "cas_rows (cas_match r) (terminal_row StateSettled a now) s = (s1, n)"
    by (cases "cas_rows (cas_match r) (terminal_row StateSettled a now) s")
  show thesis
  proof (cases "n = 0")
    case True
    with assms(1) v a cas have "s' = s" by (simp add: Settle_def)
    then show thesis using cas_rows_miss cas True that(1) by metis
  next
    case False
    from cas_rows_hit[OF assms(2) cas_match_id cas False] obtain x where
      x: "x \<in> set (spend_ledger s)" "cas_match r x" "n = 1"
      "s1 = s\<lparr>spend_ledger := swap_row (RequestID r) (terminal_row StateSettled a now) (spend_ledger s)\<rparr>"
      by metis
    with assms(1) v a cas w have adj: "adjustSpend r (Res_ReservedPUSD r - a) s1 = Inr s'"
      by (simp add: Settle_def)
    note eff = adjustSpend_effect[OF adj _ x(2), unfolded w, OF refl]
    have res: "reserved_pusd x = Res_ReservedPUSD r" "RequestID r = request_id x"
      using x(2) by (simp_all add: cas_match_def)
    show thesis
      by (rule that(2)[OF x(1,2) a]) (use eff x(4) res in \<open>simp_all add: spend_moved_def\<close>)
  qed
qed

lemma Rollback_cases:
  assumes "Rollback now r s = Inr s'" and "distinct (map request_id (spend_ledger s))"
  obtains "s' = s" "\<forall>x \<in> set (spend_ledger s). \<not> cas_match r x"
  | x where "x \<in> set (spend_ledger s)" "cas_match r x"
      "spend_moved x (- reserved_pusd x) (- 1) s s'"
      "cshifted (quota_monthly s) (quota_monthly s') (install_id x, period_month x) (- 1)"
      "cshifted (install_category_daily s) (install_category_daily s')
         (install_id x, category x, period_day x)
         (if category x \<noteq> [] \<and> category_units x > 0 then - category_units x else 0)"
      "spend_ledger s' = swap_row (request_id x) (terminal_row StateRolledBack 0 now) (spend_ledger s)"
proof -
  from assms(1) have v: "validateReservation r = Inr ()"
    by (auto simp: Rollback_def rbind_Inr_iff)
  obtain s1 n where cas: "cas_rows (cas_match r) (terminal_row StateRolledBack 0 now) s = (s1, n)"
    by (cases "cas_rows (cas_match r) (terminal_row StateRolledBack 0 now) s")
  show thesis
  proof (cases "n = 0")
    case True
    with assms(1) v cas have "s' = s" by (simp add: Rollback_def)
    then show thesis using cas_rows_miss cas True that(1) by metis
  next
    case False
    from cas_rows_hit[OF assms(2) cas_match_id cas False] obtain x where
      x: "x \<in> set (spend_ledger s)" "cas_match r x" "n = 1"
      "s1 = s\<lparr>spend_ledger := swap_row (RequestID r) (terminal_row StateRolledBack 0 now) (spend_ledger s)\<rparr>"
      by metis
    have keys: "install_id x = InstallID r" "period_day x = Day (Period r)"
      "row_provider x = Provider (Plan r)" "period_month x = Month (Period r)"
      "reserved_pusd x = Res_ReservedPUSD r" "request_id x = RequestID r"
      "sublimit_applied x = SublimitApplied r" "category x = CategoryApplied r"
      "category_units x = CategoryUnits r"
      using x(2) by (simp_all add: cas_match_def)
    from assms(1) v cas x(3) have tx: "run_tx (rollback_tx r) s1 = Inr s'"
      by (simp add: Rollback_def)
    then obtain s2 where inst: "rollback_install r s1 = Inr s2"
      and rest: "run_tx (tl (rollback_tx r)) s2 = Inr s'"
      by (auto simp: rollback_tx_def Let_def rbind_Inr_iff)
    from inst obtain t where t: "s2 = s1\<lparr>install_spend_daily := t\<rparr>"
      "shifted (install_spend_daily s1) t (InstallID r, Day (Period r)) (- Res_ReservedPUSD r)
         (if SublimitApplied r then - 1 else 0)"
      by (cases "SublimitApplied r")
        (auto simp: rollback_install_def Let_def on_defs sub_spend_def refund_spend_def rbind_Inr_iff
          dest!: update_one_shifted)
    show thesis
    proof (rule that(2)[OF x(1,2)])
      show "spend_moved x (- reserved_pusd x) (- 1) s s'"
        using rest t x(4)
        by (auto simp: rollback_tx_def Let_def on_defs sub_spend_def rbind_Inr_iff spend_moved_def keys
            split: if_splits dest!: update_one_shifted)
      show "spend_ledger s' = swap_row (request_id x) (terminal_row StateRolledBack 0 now) (spend_ledger s)"
        using rest t x(4)
        by (auto simp: rollback_tx_def Let_def on_defs rbind_Inr_iff keys split: if_splits)
      show "cshifted (quota_monthly s) (quota_monthly s') (install_id x, period_month x) (- 1)"
        using rest t x(4)
        by (auto simp: rollback_tx_def Let_def on_defs rbind_Inr_iff keys split: if_splits
            dest!: update_one_cshifted_minus)
      show "cshifted (install_category_daily s) (install_category_daily s')
         (install_id x, category x, period_day x)
         (if category x \<noteq> [] \<and> category_units x > 0 then - category_units x else 0)"
        using rest t x(4)
        by (auto simp: rollback_tx_def Let_def on_defs rbind_Inr_iff keys split: if_splits
            dest!: update_one_cshifted_minus)
    qed
  qed
qed

end
