(* ===== verification/Quota_Ledger.thy ===== *)
theory Quota_Ledger
  imports Quota_Effects
begin

text \<open>
  The spend ledger as a state machine: one step per committed transaction (a failed transaction
  leaves the database as it was). The invariant \<open>ledger_inv\<close> says that every aggregate equals
  the sum over the ledger rows that feed it; from it follow conservation in every reachable
  database, that settling and rolling back never hit the corruption branches, and that the
  operator's monthly wallet is never oversold.
\<close>

section \<open>What a ledger row contributes\<close>

definition contrib :: "ledger_row \<Rightarrow> int" where
  "contrib x = (case charged_pusd x of None \<Rightarrow> reserved_pusd x | Some c \<Rightarrow> c)"

definition live :: "ledger_row \<Rightarrow> int" where
  "live x = (if state x = StateRolledBack then 0 else 1)"

definition sub_live :: "ledger_row \<Rightarrow> int" where
  "sub_live x = (if sublimit_applied x then live x else 0)"

definition unit_live :: "ledger_row \<Rightarrow> int" where
  "unit_live x = live x * category_units x"

definition open_one :: "ledger_row \<Rightarrow> int" where
  "open_one x = (if state x = StateOpen then 1 else 0)"

definition install_day :: "ledger_row \<Rightarrow> string \<times> string" where
  "install_day x = (install_id x, period_day x)"

definition provider_day :: "ledger_row \<Rightarrow> string \<times> string" where
  "provider_day x = (row_provider x, period_day x)"

definition category_day :: "ledger_row \<Rightarrow> string \<times> string \<times> string" where
  "category_day x = (install_id x, category x, period_day x)"

definition install_month :: "ledger_row \<Rightarrow> string \<times> string" where
  "install_month x = (install_id x, period_month x)"

lemmas key_defs = install_day_def provider_day_def category_day_def install_month_def
lemmas value_defs = contrib_def live_def sub_live_def unit_live_def open_one_def

definition row_ok :: "ledger_row \<Rightarrow> bool" where
  "row_ok x \<longleftrightarrow> ledger_check x \<and> reserved_pusd x \<le> MaxInt64 \<and> 0 \<le> category_units x \<and>
     (category x = [] \<longrightarrow> category_units x = 0)"

lemma row_ok_nonneg:
  assumes "row_ok x"
  shows "0 \<le> contrib x" "0 \<le> live x" "0 \<le> sub_live x" "0 \<le> unit_live x" "0 \<le> open_one x"
  using assms by (auto simp: row_ok_def ledger_check_def value_defs split: option.splits)

section \<open>The invariant\<close>

definition spends_track :: "db \<Rightarrow> bool" where
  "spends_track s \<longleftrightarrow>
     tracks (spend_at (install_spend_daily s)) install_day contrib (spend_ledger s) \<and>
     tracks (spend_at (provider_spend_daily s)) provider_day contrib (spend_ledger s) \<and>
     tracks (spend_at (global_spend_daily s)) period_day contrib (spend_ledger s) \<and>
     tracks (spend_at (global_spend_monthly s)) period_month contrib (spend_ledger s)"

definition counts_track :: "db \<Rightarrow> bool" where
  "counts_track s \<longleftrightarrow>
     tracks (reqs_at (install_spend_daily s)) install_day sub_live (spend_ledger s) \<and>
     tracks (reqs_at (provider_spend_daily s)) provider_day live (spend_ledger s) \<and>
     tracks (reqs_at (global_spend_daily s)) period_day live (spend_ledger s) \<and>
     tracks (reqs_at (global_spend_monthly s)) period_month live (spend_ledger s) \<and>
     tracks (count_at (install_category_daily s)) category_day unit_live (spend_ledger s)"

text \<open>
  A monthly reset zeroes the request counters and leaves the ledger alone, so the counter is only
  bounded: it covers every open reservation and never exceeds the requests that were kept.
\<close>

definition month_bounds :: "db \<Rightarrow> bool" where
  "month_bounds s \<longleftrightarrow>
     (\<forall>k. row_sum (\<lambda>x. install_month x = k) open_one (spend_ledger s) \<le> count_at (quota_monthly s) k \<and>
          count_at (quota_monthly s) k \<le> row_sum (\<lambda>x. install_month x = k) live (spend_ledger s))"

definition ledger_inv :: "db \<Rightarrow> bool" where
  "ledger_inv s \<longleftrightarrow> distinct (map request_id (spend_ledger s)) \<and> list_all row_ok (spend_ledger s) \<and>
     spends_track s \<and> counts_track s \<and> month_bounds s"

lemma ledger_inv_empty: "ledger_inv empty_db"
  by (simp add: ledger_inv_def spends_track_def counts_track_def month_bounds_def empty_db_def
      tracks_def at_defs)

lemma ledger_invD:
  assumes "ledger_inv s"
  shows "distinct (map request_id (spend_ledger s))" "\<And>x. x \<in> set (spend_ledger s) \<Longrightarrow> row_ok x"
    "spends_track s" "counts_track s" "month_bounds s"
  using assms by (auto simp: ledger_inv_def list_all_iff)

section \<open>Reserve keeps it\<close>

lemma reserve_effect_inv:
  assumes inv: "ledger_inv s" and eff: "reserve_effect r lim now s s'"
    and ok: "row_ok (open_row r now)"
  shows "ledger_inv s'"
proof -
  let ?x = "open_row r now"
  note D = ledger_invD[OF inv]
  note sp = D(3)[unfolded spends_track_def] and ct = D(4)[unfolded counts_track_def]
  note E = eff[unfolded reserve_effect_def Let_def]
  have led: "spend_ledger s' = spend_ledger s @ [?x]" using E by blast
  have vals: "contrib ?x = ReservedPUSD (Plan r)" "live ?x = 1" "open_one ?x = 1"
      "sub_live ?x = (if SublimitApplied r then 1 else 0)" "unit_live ?x = CategoryUnits r"
    by (simp_all add: value_defs open_row_def)
  have keys: "install_day ?x = (InstallID r, Day (Period r))"
      "provider_day ?x = (Provider (Plan r), Day (Period r))"
      "period_day ?x = Day (Period r)" "period_month ?x = Month (Period r)"
      "category_day ?x = (InstallID r, CategoryApplied r, Day (Period r))"
      "install_month ?x = (InstallID r, Month (Period r))"
    by (simp_all add: key_defs open_row_def)
  have "spends_track s'"
    unfolding spends_track_def led
    by (intro conjI tracks_append[OF sp[THEN conjunct1]]
        tracks_append[OF sp[THEN conjunct2, THEN conjunct1]]
        tracks_append[OF sp[THEN conjunct2, THEN conjunct2, THEN conjunct1]]
        tracks_append[OF sp[THEN conjunct2, THEN conjunct2, THEN conjunct2]])
      (use E in \<open>auto simp: vals keys shifted_def\<close>)
  moreover have "counts_track s'"
    unfolding counts_track_def led
    by (intro conjI tracks_append[OF ct[THEN conjunct1]]
        tracks_append[OF ct[THEN conjunct2, THEN conjunct1]]
        tracks_append[OF ct[THEN conjunct2, THEN conjunct2, THEN conjunct1]]
        tracks_append[OF ct[THEN conjunct2, THEN conjunct2, THEN conjunct2, THEN conjunct1]]
        tracks_append[OF ct[THEN conjunct2, THEN conjunct2, THEN conjunct2, THEN conjunct2]])
      (use E in \<open>auto simp: vals keys shifted_def cshifted_def\<close>)
  moreover have "month_bounds s'"
    using D(5) E by (auto simp: month_bounds_def led vals keys cshifted_def)
  ultimately show ?thesis
    using D(1) inv E ok by (auto simp: ledger_inv_def led)
qed

lemma Reserve_inv:
  assumes "ledger_inv s" and "Reserve rid now i pl p lim s = Inr (s', r)"
  shows "ledger_inv s'"
proof -
  note eff = Reserve_effect[OF assms(2)]
  from eff(2) have bounds: "0 < ReservedPUSD pl" "ReservedPUSD pl \<le> MaxInt64" "Validate pl = Inr ()"
    using Validate_bounds[of pl] by (auto simp: validatePlan_def split: sum.splits if_splits)
  then have "0 \<le> PromptQuote pl"
    by (auto simp: Validate_def rbind_Inr_iff elim!: NewPlanE)
  then have "0 \<le> snd (planCategory pl)" by (auto simp: planCategory_def split: input_class.splits)
  moreover have "ledger_check (open_row r now)" using eff(3) by (simp add: reserve_effect_def Let_def)
  ultimately have "row_ok (open_row r now)"
    using bounds planCategory_none[of pl]
    by (auto simp: row_ok_def open_row_def eff(1) new_reservation_def)
  with assms(1) eff(3) show ?thesis by (rule reserve_effect_inv)
qed

section \<open>Terminal transitions keep it\<close>

text \<open>
  One row leaves \<open>StateOpen\<close> with charge \<open>c\<close>; the four spend tables move by \<open>c\<close> minus the
  reservation, the counting tables by minus one exactly when the row was rolled back.
\<close>

lemma swap_row_inv:
  assumes inv: "ledger_inv s" and x: "x \<in> set (spend_ledger s)" "state x = StateOpen"
    and u: "\<And>y. request_id (u y) = request_id y" "install_id (u x) = install_id x"
      "row_provider (u x) = row_provider x" "period_day (u x) = period_day x"
      "period_month (u x) = period_month x" "category (u x) = category x"
      "category_units (u x) = category_units x" "sublimit_applied (u x) = sublimit_applied x"
    and ok: "row_ok (u x)" and st: "state (u x) \<noteq> StateOpen"
    and led: "spend_ledger s' = swap_row (request_id x) u (spend_ledger s)"
    and moved: "spend_moved x (contrib (u x) - reserved_pusd x) (live (u x) - 1) s s'"
    and month: "cshifted (quota_monthly s) (quota_monthly s') (install_month x) (live (u x) - 1)"
    and cat: "cshifted (install_category_daily s) (install_category_daily s') (category_day x)
      (unit_live (u x) - category_units x)"
  shows "ledger_inv s'"
proof -
  note D = ledger_invD[OF inv]
  note sp = D(3)[unfolded spends_track_def] and ct = D(4)[unfolded counts_track_def]
  have "row_ok x" using D(2) x(1) .
  with x(2) have vals: "contrib x = reserved_pusd x" "live x = 1" "unit_live x = category_units x"
      "open_one x = 1" "sub_live x = (if sublimit_applied x then 1 else 0)"
    by (auto simp: value_defs row_ok_def ledger_check_def)
  have vals': "open_one (u x) = 0" "sub_live (u x) = (if sublimit_applied x then live (u x) else 0)"
    using st u by (auto simp: value_defs)
  have keys: "install_day (u x) = install_day x" "provider_day (u x) = provider_day x"
      "category_day (u x) = category_day x" "install_month (u x) = install_month x"
    using u by (simp_all add: key_defs)
  note M = moved[unfolded spend_moved_def shifted_def]
  have spends:
    "spend_at (install_spend_daily s') i = spend_at (install_spend_daily s) i +
       (if i = install_day x then contrib (u x) - contrib x else 0)"
    "spend_at (provider_spend_daily s') i = spend_at (provider_spend_daily s) i +
       (if i = provider_day x then contrib (u x) - contrib x else 0)"
    "spend_at (global_spend_daily s') d = spend_at (global_spend_daily s) d +
       (if d = period_day x then contrib (u x) - contrib x else 0)"
    "spend_at (global_spend_monthly s') d = spend_at (global_spend_monthly s) d +
       (if d = period_month x then contrib (u x) - contrib x else 0)" for i d
    using M by (simp_all add: vals key_defs del: split_paired_All)
  have counts:
    "reqs_at (install_spend_daily s') i = reqs_at (install_spend_daily s) i +
       (if i = install_day x then sub_live (u x) - sub_live x else 0)"
    "reqs_at (provider_spend_daily s') i = reqs_at (provider_spend_daily s) i +
       (if i = provider_day x then live (u x) - live x else 0)"
    "reqs_at (global_spend_daily s') d = reqs_at (global_spend_daily s) d +
       (if d = period_day x then live (u x) - live x else 0)"
    "reqs_at (global_spend_monthly s') d = reqs_at (global_spend_monthly s) d +
       (if d = period_month x then live (u x) - live x else 0)"
    "count_at (install_category_daily s') c = count_at (install_category_daily s) c +
       (if c = category_day x then unit_live (u x) - unit_live x else 0)" for i d c
    using M cat by (simp_all add: vals vals' key_defs cshifted_def del: split_paired_All)
  have "spends_track s'"
    unfolding spends_track_def led swap_row_def
    by (intro conjI tracks_update[where u = u, OF sp[THEN conjunct1] D(1) x(1) keys(1) spends(1)]
        tracks_update[where u = u, OF sp[THEN conjunct2, THEN conjunct1] D(1) x(1) keys(2) spends(2)]
        tracks_update[where u = u, OF sp[THEN conjunct2, THEN conjunct2, THEN conjunct1] D(1) x(1) u(4) spends(3)]
        tracks_update[where u = u, OF sp[THEN conjunct2, THEN conjunct2, THEN conjunct2] D(1) x(1) u(5) spends(4)])
  moreover have "counts_track s'"
    unfolding counts_track_def led swap_row_def
    by (intro conjI tracks_update[where u = u, OF ct[THEN conjunct1] D(1) x(1) keys(1) counts(1)]
        tracks_update[where u = u, OF ct[THEN conjunct2, THEN conjunct1] D(1) x(1) keys(2) counts(2)]
        tracks_update[where u = u, OF ct[THEN conjunct2, THEN conjunct2, THEN conjunct1] D(1) x(1) u(4) counts(3)]
        tracks_update[where u = u, OF ct[THEN conjunct2, THEN conjunct2, THEN conjunct2, THEN conjunct1] D(1) x(1) u(5) counts(4)]
        tracks_update[where u = u, OF ct[THEN conjunct2, THEN conjunct2, THEN conjunct2, THEN conjunct2] D(1) x(1) keys(3) counts(5)])
  moreover have "month_bounds s'"
    unfolding month_bounds_def
  proof (intro allI)
    fix k
    have "count_at (quota_monthly s') k =
        count_at (quota_monthly s) k + (if k = install_month x then live (u x) - 1 else 0)"
      using month unfolding cshifted_def by blast
    moreover have "row_sum (\<lambda>x. install_month x = k) open_one (spend_ledger s) \<le> count_at (quota_monthly s) k"
      "count_at (quota_monthly s) k \<le> row_sum (\<lambda>x. install_month x = k) live (spend_ledger s)"
      using D(5) unfolding month_bounds_def by blast+
    moreover have "0 \<le> live (u x)" by (simp add: live_def)
    ultimately show "row_sum (\<lambda>x. install_month x = k) open_one (spend_ledger s') \<le> count_at (quota_monthly s') k \<and>
      count_at (quota_monthly s') k \<le> row_sum (\<lambda>x. install_month x = k) live (spend_ledger s')"
      by (cases "install_month x = k")
        (simp_all add: led swap_row_def row_sum_update_key[OF D(1) x(1)] vals vals' keys)
  qed
  moreover have "map request_id (spend_ledger s') = map request_id (spend_ledger s)"
    using u(1) by (simp add: led swap_row_def)
  moreover have "row_ok y" if "y \<in> set (spend_ledger s')" for y
  proof -
    from that obtain z where z: "z \<in> set (spend_ledger s)"
      "y = (if request_id z = request_id x then u z else z)" by (auto simp: led swap_row_def)
    moreover have "request_id z = request_id x \<Longrightarrow> z = x"
      using D(1) x(1) z(1) by (auto simp: distinct_map inj_on_def)
    ultimately show ?thesis using D(2) ok by auto
  qed
  ultimately show ?thesis using D(1) by (simp add: ledger_inv_def list_all_iff)
qed

lemma Settle_inv:
  assumes inv: "ledger_inv s" and "Settle now r a s = Inr s'" and "is_int64 a"
  shows "ledger_inv s'"
  using assms(2) ledger_invD(1)[OF inv] assms(3)
proof (cases rule: Settle_cases)
  case 1
  with inv show ?thesis by simp
next
  case (2 x)
  have "row_ok x" using ledger_invD(2)[OF inv 2(1)] .
  moreover have "state x = StateOpen" using 2(2) by (simp add: cas_match_def)
  ultimately show ?thesis
    using 2 by (intro swap_row_inv[OF inv, where u = "terminal_row StateSettled a now"])
      (auto simp: terminal_row_def value_defs row_ok_def ledger_check_def cshifted_def)
qed

lemma Rollback_inv:
  assumes inv: "ledger_inv s" and "Rollback now r s = Inr s'"
  shows "ledger_inv s'"
  using assms(2) ledger_invD(1)[OF inv]
proof (cases rule: Rollback_cases)
  case 1
  with inv show ?thesis by simp
next
  case (2 x)
  have ok: "row_ok x" using ledger_invD(2)[OF inv 2(1)] .
  moreover have "state x = StateOpen" using 2(2) by (simp add: cas_match_def)
  moreover have "(if category x \<noteq> [] \<and> category_units x > 0 then - category_units x else 0) =
      - category_units x"
    using ok by (auto simp: row_ok_def)
  ultimately show ?thesis
    using 2 by (intro swap_row_inv[OF inv, where u = "terminal_row StateRolledBack 0 now"])
      (auto simp: terminal_row_def value_defs row_ok_def ledger_check_def install_month_def category_day_def)
qed

lemma reconcileOne_cases:
  assumes "reconcileOne now rid s = Inr (s', won)" and "distinct (map request_id (spend_ledger s))"
  obtains "s' = s" "\<not> won" "\<forall>x \<in> set (spend_ledger s). \<not> orphan_match rid x"
  | x where "x \<in> set (spend_ledger s)" "orphan_match rid x" "won"
      "s' = s\<lparr>spend_ledger := swap_row rid (orphan_row now) (spend_ledger s)\<rparr>"
proof -
  obtain s1 n where cas: "cas_rows (orphan_match rid) (orphan_row now) s = (s1, n)"
    by (cases "cas_rows (orphan_match rid) (orphan_row now) s")
  show thesis
  proof (cases "n = 0")
    case True
    have miss: "\<forall>x \<in> set (spend_ledger s). \<not> orphan_match rid x"
      using cas_rows_miss cas True by blast
    then have "map (\<lambda>x. if orphan_match rid x then orphan_row now x else x) (spend_ledger s) = spend_ledger s"
      by (auto intro: map_idI)
    with cas have "s1 = s" by (auto simp: cas_rows_def)
    with assms(1) cas True miss show thesis using that(1) by (auto simp: reconcileOne_def)
  next
    case False
    have "\<And>x. orphan_match rid x \<Longrightarrow> request_id x = rid" by (simp add: orphan_match_def)
    from cas_rows_hit[OF assms(2) this cas False] obtain x where
      x: "x \<in> set (spend_ledger s)" "orphan_match rid x" and n: "n = 1"
      and s1: "s1 = s\<lparr>spend_ledger := swap_row rid (orphan_row now) (spend_ledger s)\<rparr>" by metis
    from assms(1) cas n have "s' = s1" "won" by (simp_all add: reconcileOne_def)
    with x s1 show thesis using that(2) by blast
  qed
qed

lemma reconcileOne_inv:
  assumes inv: "ledger_inv s" and "reconcileOne now rid s = Inr (s', won)"
  shows "ledger_inv s'"
  using assms(2) ledger_invD(1)[OF inv]
proof (cases rule: reconcileOne_cases)
  case 1
  with inv show ?thesis by simp
next
  case (2 x)
  have "row_ok x" using ledger_invD(2)[OF inv 2(1)] .
  then show ?thesis
    using 2 by (intro swap_row_inv[OF inv, where u = "orphan_row now" and x = x])
      (auto simp: orphan_row_def orphan_match_def value_defs row_ok_def ledger_check_def
        cshifted_def spend_moved_def)
qed

lemma tget_map_keys:
  "tget (map (\<lambda>e. if h e then (fst e, 0) else e) t) k =
     map_option (\<lambda>n. if h (k, n) then 0 else n) (tget t k)"
  unfolding tget_def by (induction t) auto

lemma ResetMonthlyRequests_inv:
  assumes inv: "ledger_inv s" and "ResetMonthlyRequests p s = Inr (s', n)"
  shows "ledger_inv s'"
proof -
  note D = ledger_invD[OF inv]
  from assms(2) have none: "\<forall>x \<in> set (spend_ledger s). state x \<noteq> StateOpen"
    by (auto simp: ResetMonthlyRequests_def OpenReservations_def filter_empty_conv split: if_splits)
  from assms(2) have s': "s' = s\<lparr>quota_monthly :=
      map (\<lambda>e. if snd (fst e) = Month p \<and> snd e > 0 then (fst e, 0) else e) (quota_monthly s)\<rparr>"
    by (auto simp: ResetMonthlyRequests_def Let_def split: if_splits)
  have cnt: "count_at (quota_monthly s') k =
      (if snd k = Month p \<and> count_at (quota_monthly s) k > 0 then 0 else count_at (quota_monthly s) k)" for k
    by (cases "tget (quota_monthly s) k") (simp_all add: s' count_at_def tget_map_keys)
  have op: "row_sum (\<lambda>x. install_month x = k) open_one (spend_ledger s) = 0" for k
    by (rule row_sum_zero) (simp add: open_one_def none)
  have "0 \<le> row_sum (\<lambda>x. install_month x = k) live (spend_ledger s)" for k
    by (rule row_sum_nonneg) (simp add: live_def)
  moreover have "row_sum (\<lambda>x. install_month x = k) open_one (spend_ledger s) \<le> count_at (quota_monthly s) k \<and>
     count_at (quota_monthly s) k \<le> row_sum (\<lambda>x. install_month x = k) live (spend_ledger s)" for k
    using D(5) unfolding month_bounds_def by blast
  moreover have "spend_ledger s' = spend_ledger s" by (simp add: s')
  ultimately have "month_bounds s'"
    unfolding month_bounds_def by (intro allI) (simp only: cnt op split: if_split, fastforce)
  with inv show ?thesis
    by (simp add: ledger_inv_def spends_track_def counts_track_def s')
qed

section \<open>Runs of the store\<close>

text \<open>One step per committed transaction, with arbitrary arguments: any reservation value may be
  presented to \<open>Settle\<close> and \<open>Rollback\<close>, in any order and any number of times.\<close>

inductive db_step :: "db \<Rightarrow> db \<Rightarrow> bool" where
  step_reserve: "Reserve rid now i pl p lim s = Inr (s', r) \<Longrightarrow> db_step s s'"
| step_settle: "is_int64 a \<Longrightarrow> Settle now r a s = Inr s' \<Longrightarrow> db_step s s'"
| step_rollback: "Rollback now r s = Inr s' \<Longrightarrow> db_step s s'"
| step_reconcile: "reconcileOne now rid s = Inr (s', won) \<Longrightarrow> db_step s s'"
| step_reset: "ResetMonthlyRequests p s = Inr (s', n) \<Longrightarrow> db_step s s'"

inductive db_reachable :: "db \<Rightarrow> bool" where
  reach_start: "db_reachable empty_db"
| reach_step: "db_reachable s \<Longrightarrow> db_step s s' \<Longrightarrow> db_reachable s'"

lemma db_step_inv: "db_step s s' \<Longrightarrow> ledger_inv s \<Longrightarrow> ledger_inv s'"
  by (induction rule: db_step.induct)
    (auto intro: Reserve_inv Settle_inv Rollback_inv reconcileOne_inv ResetMonthlyRequests_inv)

lemma db_reachable_inv: "db_reachable s \<Longrightarrow> ledger_inv s"
  by (induction rule: db_reachable.induct) (auto intro: ledger_inv_empty db_step_inv)

end
