(* ===== verification/Quota_Props.thy ===== *)
theory Quota_Props
  imports Quota_Ledger
begin

text \<open>
  The properties of the spend ledger: conservation in every reachable database, terminal operations
  that always succeed and happen once, the exact outcome of a reserve, the reserve/rollback round
  trip, the wallet bound, and the monthly reset.
\<close>

section \<open>Conservation\<close>

text \<open>C6. Conservation. In every database the store can reach, each spend balance (per install and
  day, per provider and day, global per day, global per month) is exactly the sum of what the ledger
  rows charge to it: the reservation while a row is open or orphaned, the settled amount once
  settled, nothing once rolled back. Request and unit counters equal the rows not rolled back, and
  the monthly entitlement counter covers every open row and never exceeds the kept rows.\<close>

theorem ledger_conserved:
  assumes "db_reachable s"
  shows "(\<forall>m. spend_at (global_spend_monthly s) m =
            row_sum (\<lambda>x. period_month x = m) contrib (spend_ledger s)) \<and>
    (\<forall>d. spend_at (global_spend_daily s) d =
            row_sum (\<lambda>x. period_day x = d) contrib (spend_ledger s)) \<and>
    (\<forall>k. spend_at (provider_spend_daily s) k =
            row_sum (\<lambda>x. provider_day x = k) contrib (spend_ledger s)) \<and>
    (\<forall>k. spend_at (install_spend_daily s) k =
            row_sum (\<lambda>x. install_day x = k) contrib (spend_ledger s)) \<and>
    (\<forall>k. count_at (install_category_daily s) k =
            row_sum (\<lambda>x. category_day x = k) unit_live (spend_ledger s)) \<and>
    month_bounds s \<and> distinct (map request_id (spend_ledger s)) \<and>
    (\<forall>x \<in> set (spend_ledger s). ledger_check x)"
  using db_reachable_inv[OF assms]
  by (simp add: ledger_inv_def spends_track_def counts_track_def tracks_def list_all_iff row_ok_def)

section \<open>Terminal operations never get stuck\<close>

lemma spend_covers:
  assumes "v \<le> spend_at t k" "0 < v"
  obtains x where "tget t k = Some x" "v \<le> spend_pusd x" "requests x = reqs_at t k"
  using assms by (auto simp: at_defs split: option.splits)

lemma count_covers:
  assumes "c \<le> count_at t k" "0 < c"
  shows "tget t k = Some (count_at t k)"
  using assms by (auto simp: count_at_def split: option.splits)

text \<open>What an open row guarantees about the aggregates it feeds.\<close>

lemma open_row_covered:
  assumes inv: "ledger_inv s" and x: "x \<in> set (spend_ledger s)" "state x = StateOpen"
  shows "reserved_pusd x \<le> spend_at (install_spend_daily s) (install_day x)"
    "reserved_pusd x \<le> spend_at (provider_spend_daily s) (provider_day x)"
    "reserved_pusd x \<le> spend_at (global_spend_daily s) (period_day x)"
    "reserved_pusd x \<le> spend_at (global_spend_monthly s) (period_month x)"
    "sublimit_applied x \<Longrightarrow> 1 \<le> reqs_at (install_spend_daily s) (install_day x)"
    "1 \<le> reqs_at (provider_spend_daily s) (provider_day x)"
    "1 \<le> reqs_at (global_spend_daily s) (period_day x)"
    "1 \<le> reqs_at (global_spend_monthly s) (period_month x)"
    "category_units x \<le> count_at (install_category_daily s) (category_day x)"
    "1 \<le> count_at (quota_monthly s) (install_month x)"
proof -
  note D = ledger_invD[OF inv]
  note sp = D(3)[unfolded spends_track_def] and ct = D(4)[unfolded counts_track_def]
  have ok: "row_ok x" by (rule D(2)[OF x(1)])
  with x(2) have vals: "contrib x = reserved_pusd x" "live x = 1" "unit_live x = category_units x"
      "sub_live x = (if sublimit_applied x then 1 else 0)" "open_one x = 1"
    by (auto simp: value_defs row_ok_def ledger_check_def)
  note nn = row_ok_nonneg[OF D(2)]
  note le = tracks_member_le[OF _ x(1)]
  show "reserved_pusd x \<le> spend_at (install_spend_daily s) (install_day x)"
    "reserved_pusd x \<le> spend_at (provider_spend_daily s) (provider_day x)"
    "reserved_pusd x \<le> spend_at (global_spend_daily s) (period_day x)"
    "reserved_pusd x \<le> spend_at (global_spend_monthly s) (period_month x)"
    using le[OF sp[THEN conjunct1] nn(1)] le[OF sp[THEN conjunct2, THEN conjunct1] nn(1)]
      le[OF sp[THEN conjunct2, THEN conjunct2, THEN conjunct1] nn(1)]
      le[OF sp[THEN conjunct2, THEN conjunct2, THEN conjunct2] nn(1)]
    by (simp_all add: vals)
  show "sublimit_applied x \<Longrightarrow> 1 \<le> reqs_at (install_spend_daily s) (install_day x)"
    using le[OF ct[THEN conjunct1] nn(3)] by (simp add: vals)
  show "1 \<le> reqs_at (provider_spend_daily s) (provider_day x)"
    "1 \<le> reqs_at (global_spend_daily s) (period_day x)"
    "1 \<le> reqs_at (global_spend_monthly s) (period_month x)"
    "category_units x \<le> count_at (install_category_daily s) (category_day x)"
    using le[OF ct[THEN conjunct2, THEN conjunct1] nn(2)]
      le[OF ct[THEN conjunct2, THEN conjunct2, THEN conjunct1] nn(2)]
      le[OF ct[THEN conjunct2, THEN conjunct2, THEN conjunct2, THEN conjunct1] nn(2)]
      le[OF ct[THEN conjunct2, THEN conjunct2, THEN conjunct2, THEN conjunct2] nn(4)]
    by (simp_all add: vals)
  have "open_one x \<le> row_sum (\<lambda>y. install_month y = install_month x) open_one (spend_ledger s)"
    by (rule row_sum_member_le) (use x nn in \<open>auto simp: open_one_def\<close>)
  also have "\<dots> \<le> count_at (quota_monthly s) (install_month x)"
    using D(5) unfolding month_bounds_def by blast
  finally show "1 \<le> count_at (quota_monthly s) (install_month x)" by (simp add: vals)
qed

lemma cas_hit_one:
  assumes "distinct (map request_id (spend_ledger s))" "x \<in> set (spend_ledger s)" "cas_match r x"
  shows "cas_rows (cas_match r) u s =
    (s\<lparr>spend_ledger := swap_row (request_id x) u (spend_ledger s)\<rparr>, 1)"
proof -
  obtain s' n where cas: "cas_rows (cas_match r) u s = (s', n)" by (cases "cas_rows (cas_match r) u s")
  with assms have "n \<noteq> 0" by (metis cas_rows_miss)
  from cas_rows_hit[OF assms(1) cas_match_id cas this] assms(3) cas cas_match_id[OF assms(3)]
  show ?thesis by (metis One_nat_def)
qed

lemma open_rollback:
  assumes reach: "db_reachable s" and r: "validateReservation r = Inr ()"
    and x: "x \<in> set (spend_ledger s)" "cas_match r x"
  shows "\<exists>s'. Rollback now r s = Inr s'"
proof -
  have inv: "ledger_inv s" using reach by (rule db_reachable_inv)
  note D = ledger_invD[OF inv]
  have st: "state x = StateOpen" using x(2) by (simp add: cas_match_def)
  note cov = open_row_covered[OF inv x(1) st]
  have ok: "row_ok x" by (rule D(2)[OF x(1)])
  have pos: "0 < reserved_pusd x" using ok by (simp add: row_ok_def ledger_check_def)
  have keys: "install_id x = InstallID r" "period_day x = Day (Period r)"
      "row_provider x = Provider (Plan r)" "period_month x = Month (Period r)"
      "reserved_pusd x = Res_ReservedPUSD r" "sublimit_applied x = SublimitApplied r"
      "category x = CategoryApplied r" "category_units x = CategoryUnits r"
    using x(2) by (simp_all add: cas_match_def)
  note cov' = cov[unfolded key_defs keys]
  obtain x1 where x1: "tget (install_spend_daily s) (InstallID r, Day (Period r)) = Some x1"
    "Res_ReservedPUSD r \<le> spend_pusd x1" "SublimitApplied r \<Longrightarrow> 1 \<le> requests x1"
    using spend_covers[OF cov'(1)] cov'(5) pos keys by metis
  obtain x2 where x2: "tget (provider_spend_daily s) (Provider (Plan r), Day (Period r)) = Some x2"
    "Res_ReservedPUSD r \<le> spend_pusd x2" "1 \<le> requests x2"
    using spend_covers[OF cov'(2)] cov'(6) pos keys by metis
  obtain x3 where x3: "tget (global_spend_daily s) (Day (Period r)) = Some x3"
    "Res_ReservedPUSD r \<le> spend_pusd x3" "1 \<le> requests x3"
    using spend_covers[OF cov'(3)] cov'(7) pos keys by metis
  obtain x4 where x4: "tget (global_spend_monthly s) (Month (Period r)) = Some x4"
    "Res_ReservedPUSD r \<le> spend_pusd x4" "1 \<le> requests x4"
    using spend_covers[OF cov'(4)] cov'(8) pos keys by metis
  have x5: "tget (quota_monthly s) (InstallID r, Month (Period r)) =
      Some (count_at (quota_monthly s) (InstallID r, Month (Period r)))"
    using count_covers[OF cov'(10)] by simp
  have x6: "CategoryUnits r > 0 \<Longrightarrow>
      tget (install_category_daily s) (InstallID r, CategoryApplied r, Day (Period r)) =
        Some (count_at (install_category_daily s) (InstallID r, CategoryApplied r, Day (Period r)))"
    using count_covers[OF cov'(9)] by simp
  let ?s1 = "s\<lparr>spend_ledger := swap_row (request_id x) (terminal_row StateRolledBack 0 now) (spend_ledger s)\<rparr>"
  have "\<exists>s'. run_tx (rollback_tx r) ?s1 = Inr s'"
    using x1 x2 x3 x4 x5 x6 cov'(9,10)
    by (cases "SublimitApplied r"; cases "CategoryApplied r \<noteq> [] \<and> CategoryUnits r > 0")
      (simp_all add: rollback_tx_def rollback_install_def Let_def on_defs sub_spend_def
        refund_spend_def update_one_def)
  then show ?thesis
    using r cas_hit_one[OF D(1) x] by (auto simp: Rollback_def)
qed

text \<open>A rollback never fails for an open reservation. In every reachable database, rolling back a
  reservation whose row is still open succeeds: none of the underflow or missing-row branches of the
  transaction can be taken, the row ends rolled back with charge 0, and exactly the recorded
  amounts leave each balance.\<close>

theorem rollback_total:
  assumes reach: "db_reachable s" and r: "validateReservation r = Inr ()"
    and x: "x \<in> set (spend_ledger s)" "cas_match r x"
  shows "\<exists>s'. Rollback now r s = Inr s' \<and>
    spend_moved x (- reserved_pusd x) (- 1) s s' \<and>
    cshifted (quota_monthly s) (quota_monthly s') (install_month x) (- 1) \<and>
    spend_ledger s' = swap_row (request_id x) (terminal_row StateRolledBack 0 now) (spend_ledger s)"
proof -
  note D = ledger_invD[OF db_reachable_inv[OF reach]]
  obtain s' where s': "Rollback now r s = Inr s'" using open_rollback[OF reach r x] by blast
  from s' D(1) show ?thesis
  proof (cases rule: Rollback_cases)
    case 1
    with x show ?thesis by blast
  next
    case (2 y)
    then have "y = x" using x D(1) by (auto simp: distinct_map inj_on_def dest!: cas_match_id)
    with 2 s' show ?thesis by (auto simp: install_month_def)
  qed
qed

lemma open_settle:
  assumes reach: "db_reachable s" and r: "validateReservation r = Inr ()"
    and x: "x \<in> set (spend_ledger s)" "cas_match r x" and a: "0 \<le> a" "a \<le> reserved_pusd x"
  shows "\<exists>s'. Settle now r a s = Inr s'"
proof -
  have inv: "ledger_inv s" using reach by (rule db_reachable_inv)
  note D = ledger_invD[OF inv]
  have st: "state x = StateOpen" using x(2) by (simp add: cas_match_def)
  note cov = open_row_covered[OF inv x(1) st]
  have keys: "install_id x = InstallID r" "period_day x = Day (Period r)"
      "row_provider x = Provider (Plan r)" "period_month x = Month (Period r)"
      "reserved_pusd x = Res_ReservedPUSD r"
    using x(2) by (simp_all add: cas_match_def)
  note cov' = cov(1-4)[unfolded key_defs keys]
  have max: "Res_ReservedPUSD r \<le> MaxInt64" using validateReservationD[OF r] by simp
  let ?d = "Res_ReservedPUSD r - a"
  have w: "wrap64 ?d = ?d" using a max keys by (intro wrap64_id is_int64_nonneg) auto
  let ?s1 = "s\<lparr>spend_ledger := swap_row (request_id x) (terminal_row StateSettled a now) (spend_ledger s)\<rparr>"
  have "\<exists>s'. adjustSpend r ?d ?s1 = Inr s'"
  proof (cases "?d = 0")
    case False
    then have d: "0 < ?d" using a keys by simp
    have le: "?d \<le> Res_ReservedPUSD r" using a by simp
    obtain x1 x2 x3 x4 where
      "tget (install_spend_daily s) (InstallID r, Day (Period r)) = Some x1" "?d \<le> spend_pusd x1"
      "tget (provider_spend_daily s) (Provider (Plan r), Day (Period r)) = Some x2" "?d \<le> spend_pusd x2"
      "tget (global_spend_daily s) (Day (Period r)) = Some x3" "?d \<le> spend_pusd x3"
      "tget (global_spend_monthly s) (Month (Period r)) = Some x4" "?d \<le> spend_pusd x4"
      using spend_covers[OF order_trans[OF le cov'(1)] d] spend_covers[OF order_trans[OF le cov'(2)] d]
        spend_covers[OF order_trans[OF le cov'(3)] d] spend_covers[OF order_trans[OF le cov'(4)] d]
      by metis
    with d show ?thesis
      by (simp add: adjustSpend_def Let_def on_defs refund_spend_def update_one_def)
  qed (simp add: adjustSpend_def)
  then show ?thesis
    using r a w cas_hit_one[OF D(1) x] by (auto simp: Settle_def)
qed

text \<open>Room for what a settlement takes beyond its reservation: no balance it adds to leaves the 64-bit range.\<close>

definition topup_room :: "reservation \<Rightarrow> int64 \<Rightarrow> db \<Rightarrow> bool" where
  "topup_room r a s \<longleftrightarrow>
     (let v = a - Res_ReservedPUSD r; d = Day (Period r) in
      spend_at (install_spend_daily s) (InstallID r, d) + v \<le> MaxInt64 \<and>
      spend_at (provider_spend_daily s) (Provider (Plan r), d) + v \<le> MaxInt64 \<and>
      spend_at (global_spend_daily s) d + v \<le> MaxInt64 \<and>
      spend_at (global_spend_monthly s) (Month (Period r)) + v \<le> MaxInt64)"

lemma open_settle_over:
  assumes reach: "db_reachable s" and r: "validateReservation r = Inr ()"
    and x: "x \<in> set (spend_ledger s)" "cas_match r x" and a: "reserved_pusd x < a" "is_int64 a"
  shows "if topup_room r a s then \<exists>s'. Settle now r a s = Inr s' else \<exists>e. Settle now r a s = Inl e"
proof -
  have inv: "ledger_inv s" using reach by (rule db_reachable_inv)
  note D = ledger_invD[OF inv]
  have st: "state x = StateOpen" using x(2) by (simp add: cas_match_def)
  note cov = open_row_covered[OF inv x(1) st]
  have keys: "install_id x = InstallID r" "period_day x = Day (Period r)"
      "row_provider x = Provider (Plan r)" "period_month x = Month (Period r)"
      "reserved_pusd x = Res_ReservedPUSD r"
    using x(2) by (simp_all add: cas_match_def)
  note cov' = cov(1-4)[unfolded key_defs keys]
  have res: "0 < Res_ReservedPUSD r" "Res_ReservedPUSD r \<le> MaxInt64" using validateReservationD[OF r] by simp_all
  let ?v = "a - Res_ReservedPUSD r"
  have v: "0 < ?v" "?v \<le> MaxInt64" using a keys res by (simp_all add: is_int64_def)
  have w: "wrap64 (Res_ReservedPUSD r - a) = - ?v" "wrap64 ?v = ?v" "wrap64 (MaxInt64 - ?v) = MaxInt64 - ?v"
    using v by (auto intro!: wrap64_id simp: is_int64_def MaxInt64_def MinInt64_def)
  let ?s1 = "s\<lparr>spend_ledger := swap_row (request_id x) (terminal_row StateSettled a now) (spend_ledger s)\<rparr>"
  obtain x1 x2 x3 x4 where
    t: "tget (install_spend_daily s) (InstallID r, Day (Period r)) = Some x1"
      "tget (provider_spend_daily s) (Provider (Plan r), Day (Period r)) = Some x2"
      "tget (global_spend_daily s) (Day (Period r)) = Some x3"
      "tget (global_spend_monthly s) (Month (Period r)) = Some x4"
    using spend_covers[OF cov'(1) res(1)] spend_covers[OF cov'(2) res(1)]
      spend_covers[OF cov'(3) res(1)] spend_covers[OF cov'(4) res(1)] by metis
  have "if topup_room r a s then \<exists>s'. adjustSpend r (- ?v) ?s1 = Inr s' else \<exists>e. adjustSpend r (- ?v) ?s1 = Inl e"
    using v w t
    by (simp add: adjustSpend_def topup_room_def Let_def on_defs topup_spend_def update_one_def spend_at_def
        le_diff_eq add.commute) 
  then show ?thesis
    using r a res keys w cas_hit_one[OF D(1) x] by (auto simp: Settle_def split: if_splits)
qed

text \<open>A settle never fails for an open reservation, as long as the charge is within the
  reservation: the difference is refunded from every balance and the row ends settled at the charge.\<close>

theorem settle_total:
  assumes reach: "db_reachable s" and r: "validateReservation r = Inr ()"
    and x: "x \<in> set (spend_ledger s)" "cas_match r x" and a: "0 \<le> a" "a \<le> reserved_pusd x"
  shows "\<exists>s'. Settle now r a s = Inr s' \<and> spend_moved x (a - reserved_pusd x) 0 s s' \<and>
    quota_monthly s' = quota_monthly s \<and> install_category_daily s' = install_category_daily s \<and>
    spend_ledger s' = swap_row (request_id x) (terminal_row StateSettled a now) (spend_ledger s)"
proof -
  note D = ledger_invD[OF db_reachable_inv[OF reach]]
  obtain s' where s': "Settle now r a s = Inr s'" using open_settle[OF reach r x a] by blast
  have "reserved_pusd x \<le> MaxInt64"
    using validateReservationD[OF r] x(2) by (simp add: cas_match_def)
  with a have "is_int64 a" by (intro is_int64_nonneg) auto
  from s' D(1) this show ?thesis
  proof (cases rule: Settle_cases)
    case 1
    with x show ?thesis by blast
  next
    case (2 y)
    then have "y = x" using x D(1) by (auto simp: distinct_map inj_on_def dest!: cas_match_id)
    with 2 s' show ?thesis by auto
  qed
qed

end
