(* ===== verification/Quota_Runs.thy ===== *)
theory Quota_Runs
  imports Quota_Props
begin

text \<open>
  Further properties of the spend ledger: terminal operations happen once, reserve followed by
  rollback restores every balance, the exact outcome of a reserve, the wallet bound, the orphan
  reconciler and the monthly reset.
\<close>

section \<open>Once only\<close>

lemma no_cas_match_after:
  assumes "distinct (map request_id rows)" "x \<in> set rows"
    and "state (u x) \<noteq> StateOpen" "RequestID r = request_id x" "\<And>y. request_id (u y) = request_id y"
  shows "\<forall>y \<in> set (swap_row (request_id x) u rows). \<not> cas_match r y \<and> \<not> orphan_match (RequestID r) y"
proof
  fix y assume "y \<in> set (swap_row (request_id x) u rows)"
  then obtain z where z: "z \<in> set rows" "y = (if request_id z = request_id x then u z else z)"
    by (auto simp: swap_row_def)
  then have "request_id z = request_id x \<Longrightarrow> z = x"
    using assms(1,2) by (auto simp: distinct_map inj_on_def)
  with z assms(3-5) show "\<not> cas_match r y \<and> \<not> orphan_match (RequestID r) y"
    by (auto simp: cas_match_def orphan_match_def)
qed

lemma ops_miss:
  assumes "\<forall>y \<in> set (spend_ledger s). \<not> cas_match r y \<and> \<not> orphan_match (RequestID r) y"
    and "validateReservation r = Inr ()"
  shows "Rollback now r s = Inr s" "0 \<le> a \<Longrightarrow> Settle now r a s = Inr s"
    "reconcileOne now (RequestID r) s = Inr (s, False)"
proof -
  have f: "filter (cas_match r) (spend_ledger s) = []"
      "filter (orphan_match (RequestID r)) (spend_ledger s) = []"
    using assms(1) by (auto simp: filter_empty_conv)
  have m: "map (\<lambda>x. if orphan_match (RequestID r) x then u x else x) (spend_ledger s) = spend_ledger s" for u
    using assms(1) by (auto intro: map_idI)
  show "Rollback now r s = Inr s" "0 \<le> a \<Longrightarrow> Settle now r a s = Inr s"
    using assms(2) f by (simp_all add: Rollback_def Settle_def cas_rows_def)
  show "reconcileOne now (RequestID r) s = Inr (s, False)"
    using f m by (simp add: reconcileOne_def cas_rows_def)
qed

text \<open>C34. Money moves once. After a settle has closed a reservation, a further settle, rollback or
  orphan reconciliation of the same request, with any amount, changes nothing; the same after a
  rollback.\<close>

theorem terminal_once:
  assumes reach: "db_reachable s" and x: "x \<in> set (spend_ledger s)" "cas_match r x"
    and op: "(is_int64 a \<and> Settle now r a s = Inr s') \<or> Rollback now r s = Inr s'"
    and r': "validateReservation r' = Inr ()" "RequestID r' = RequestID r"
  shows "Rollback now' r' s' = Inr s' \<and> (0 \<le> a' \<longrightarrow> Settle now' r' a' s' = Inr s') \<and>
    reconcileOne now' (RequestID r') s' = Inr (s', False)"
proof -
  note dist = ledger_invD(1)[OF db_reachable_inv[OF reach]]
  have "\<exists>u. spend_ledger s' = swap_row (request_id x) u (spend_ledger s) \<and> state (u x) \<noteq> StateOpen \<and>
      (\<forall>y. request_id (u y) = request_id y)"
    using op
  proof
    assume "is_int64 a \<and> Settle now r a s = Inr s'"
    then have i: "is_int64 a" and s': "Settle now r a s = Inr s'" by simp_all
    from s' dist i show ?thesis
    proof (cases rule: Settle_cases)
      case 1
      with x show ?thesis by blast
    next
      case (2 y)
      then have "request_id y = request_id x" using x by (auto dest!: cas_match_id)
      with 2 show ?thesis by (intro exI[of _ "terminal_row StateSettled a now"]) (simp add: terminal_row_def)
    qed
  next
    assume "Rollback now r s = Inr s'"
    then show ?thesis using dist
    proof (cases rule: Rollback_cases)
      case 1
      with x show ?thesis by blast
    next
      case (2 y)
      then have "request_id y = request_id x" using x by (auto dest!: cas_match_id)
      with 2 show ?thesis
        by (intro exI[of _ "terminal_row StateRolledBack 0 now"]) (simp add: terminal_row_def)
    qed
  qed
  then obtain u where u: "spend_ledger s' = swap_row (request_id x) u (spend_ledger s)"
    "state (u x) \<noteq> StateOpen" "\<And>y. request_id (u y) = request_id y" by blast
  have "RequestID r' = request_id x" using r'(2) x(2) by (simp add: cas_match_id)
  with no_cas_match_after[OF dist x(1) u(2) this u(3)] u(1) ops_miss[OF _ r'(1)]
  show ?thesis by auto
qed

section \<open>Reserve then roll back\<close>

definition same_balances :: "db \<Rightarrow> db \<Rightarrow> bool" where
  "same_balances s t \<longleftrightarrow>
     (\<forall>k. count_at (quota_monthly s) k = count_at (quota_monthly t) k) \<and>
     (\<forall>k. spend_at (install_spend_daily s) k = spend_at (install_spend_daily t) k \<and>
          reqs_at (install_spend_daily s) k = reqs_at (install_spend_daily t) k) \<and>
     (\<forall>k. count_at (install_category_daily s) k = count_at (install_category_daily t) k) \<and>
     (\<forall>k. spend_at (provider_spend_daily s) k = spend_at (provider_spend_daily t) k \<and>
          reqs_at (provider_spend_daily s) k = reqs_at (provider_spend_daily t) k) \<and>
     (\<forall>k. spend_at (global_spend_daily s) k = spend_at (global_spend_daily t) k \<and>
          reqs_at (global_spend_daily s) k = reqs_at (global_spend_daily t) k) \<and>
     (\<forall>k. spend_at (global_spend_monthly s) k = spend_at (global_spend_monthly t) k \<and>
          reqs_at (global_spend_monthly s) k = reqs_at (global_spend_monthly t) k)"

lemma open_row_matches: "cas_match (new_reservation rid i pl p lim) (open_row (new_reservation rid i pl p lim) now)"
  by (simp add: cas_match_def open_row_def new_reservation_def)

lemma validatePlan_pos: "validatePlan pl = Inr () \<Longrightarrow> \<not> ReservedPUSD pl \<le> 0"
  by (cases "Validate pl") (auto simp: validatePlan_def split: if_splits)

lemma new_reservation_valid:
  "validatePlan pl = Inr () \<Longrightarrow> rid \<noteq> [] \<Longrightarrow> i \<noteq> [] \<Longrightarrow>
   validateReservation (new_reservation rid i pl p lim) = Inr ()"
  using validatePlan_pos[of pl] unfolding validateReservation_def new_reservation_def by simp

text \<open>Reserve followed by rollback is the identity on every balance: the rollback of a fresh
  reservation always succeeds and restores each monthly, daily, provider, global and category
  figure, whatever the limits were and even if they change in between.\<close>

theorem reserve_rollback_roundtrip:
  assumes reach: "db_reachable s" and ids: "rid \<noteq> []" "i \<noteq> []"
    and res: "Reserve rid now i pl p lim s = Inr (s1, r)"
  shows "\<exists>s2. Rollback now' r s1 = Inr s2 \<and> same_balances s s2"
proof -
  have reach1: "db_reachable s1" by (rule reach_step[OF reach step_reserve[OF res]])
  note eff = Reserve_effect[OF res]
  note E = eff(3)[unfolded reserve_effect_def Let_def]
  let ?x = "open_row r now"
  have x: "?x \<in> set (spend_ledger s1)" "cas_match r ?x"
    using E open_row_matches[of rid i pl p lim now] by (simp_all add: eff(1))
  have val: "validateReservation r = Inr ()"
    using new_reservation_valid[OF eff(2) ids] by (simp add: eff(1))
  from open_rollback[OF reach1 val x] obtain s2 where s2: "Rollback now' r s1 = Inr s2" by blast
  have dist: "distinct (map request_id (spend_ledger s1))"
    by (rule ledger_invD(1)[OF db_reachable_inv[OF reach1]])
  from s2 dist show ?thesis
  proof (cases rule: Rollback_cases)
    case 1
    with x show ?thesis by blast
  next
    case (2 y)
    then have y: "y = ?x" using x dist by (auto simp: distinct_map inj_on_def dest!: cas_match_id)
    have "row_ok ?x" using ledger_invD(2)[OF db_reachable_inv[OF reach1] x(1)] .
    then have units: "(if CategoryApplied r \<noteq> [] \<and> CategoryUnits r > 0 then - CategoryUnits r else 0) =
        - CategoryUnits r"
      by (auto simp: row_ok_def open_row_def)
    have keys: "install_id ?x = InstallID r" "period_day ?x = Day (Period r)"
      "row_provider ?x = Provider (Plan r)" "period_month ?x = Month (Period r)"
      "reserved_pusd ?x = ReservedPUSD (Plan r)" "sublimit_applied ?x = SublimitApplied r"
      "category ?x = CategoryApplied r" "category_units ?x = CategoryUnits r"
      by (simp_all add: open_row_def)
    have "same_balances s s2"
      using E 2(3-5) unfolding y spend_moved_def keys units
      by (simp add: same_balances_def shifted_def cshifted_def)
    with s2 show ?thesis by blast
  qed
qed

section \<open>The outcome of a reserve\<close>

text \<open>No aggregate is within one reservation of the \<open>int64\<close> ceiling.\<close>

definition headroom :: "string \<Rightarrow> plan \<Rightarrow> period \<Rightarrow> db \<Rightarrow> bool" where
  "headroom i pl p s \<longleftrightarrow>
     spend_at (install_spend_daily s) (i, Day p) \<le> MaxInt64 - ReservedPUSD pl \<and>
     count_at (install_category_daily s) (i, fst (planCategory pl), Day p)
       \<le> MaxInt64 - snd (planCategory pl) \<and>
     spend_at (provider_spend_daily s) (Provider pl, Day p) \<le> MaxInt64 - ReservedPUSD pl \<and>
     reqs_at (provider_spend_daily s) (Provider pl, Day p) < MaxInt64 \<and>
     spend_at (global_spend_daily s) (Day p) \<le> MaxInt64 - ReservedPUSD pl \<and>
     reqs_at (global_spend_daily s) (Day p) < MaxInt64"

text \<open>A conditional update after its upsert: the guard decides on the old value, or on zero.\<close>

lemma update_after_upsert:
  "update_one e k g u (insert_ignore k z t) =
     (let x = (case tget t k of None \<Rightarrow> z | Some y \<Rightarrow> y)
      in if g x then Inr (tput k (u x) (insert_ignore k z t)) else Inl e)"
  by (simp add: update_one_def tget_insert_ignore Let_def)

lemma count_old: "(case tget t k of None \<Rightarrow> 0 | Some n \<Rightarrow> n) = count_at t k"
  by (simp add: count_at_def)

lemma spend_old:
  "spend_pusd (case tget t k of None \<Rightarrow> empty_spend | Some x \<Rightarrow> x) = spend_at t k"
  "requests (case tget t k of None \<Rightarrow> empty_spend | Some x \<Rightarrow> x) = reqs_at t k"
  by (auto simp: at_defs empty_spend_def split: option.splits)

definition gate_error :: "reservation \<Rightarrow> limits \<Rightarrow> db \<Rightarrow> store_error option" where
  "gate_error r lim s =
     (let i = InstallID r; d = Day (Period r); m = Month (Period r); c = CategoryApplied r in
      if count_at (quota_monthly s) (i, m) \<ge> MonthlyQuota lim then Some ErrMonthlyExhausted
      else if DailySublimit lim > 0 \<and> reqs_at (install_spend_daily s) (i, d) \<ge> DailySublimit lim
      then Some ErrSublimitExceeded
      else if c \<noteq> [] \<and> categoryCap c lim > 0 \<and>
              count_at (install_category_daily s) (i, c, d) + CategoryUnits r > categoryCap c lim
      then Some (CategoryDailyExceededError c)
      else if spend_at (global_spend_monthly s) m > wrap64 (GlobalMonthlySpendPUSD lim - ReservedPUSD (Plan r))
      then Some ErrBudgetExceeded
      else None)"

lemma reserve_month_run:
  "run_tx (reserve_month i p lim) s =
     (if count_at (quota_monthly s) (i, Month p) \<ge> MonthlyQuota lim then Inl ErrMonthlyExhausted
      else Inr (s\<lparr>quota_monthly := tput (i, Month p) (count_at (quota_monthly s) (i, Month p) + 1)
             (insert_ignore (i, Month p) 0 (quota_monthly s))\<rparr>))"
  by (simp add: reserve_month_def on_monthly_def upsert_def update_after_upsert count_old Let_def)

definition bumped :: "'k \<Rightarrow> int \<Rightarrow> int \<Rightarrow> ('k, spend_row) table \<Rightarrow> ('k, spend_row) table" where
  "bumped k v c t =
     tput k (add_spend v c (case tget t k of None \<Rightarrow> empty_spend | Some x \<Rightarrow> x)) (insert_ignore k empty_spend t)"

lemma bumped_at:
  "tget (bumped k v c t) k \<noteq> None" "reqs_at (bumped k v c t) k = reqs_at t k + c"
  by (auto simp: bumped_def reqs_at_def add_spend_def empty_spend_def split: option.splits)

lemma reserve_install_run:
  assumes "spend_at (install_spend_daily s) (i, Day p) \<le> MaxInt64 - v"
  shows "run_tx (reserve_install i v p) s =
    Inr (s\<lparr>install_spend_daily := bumped (i, Day p) v 0 (install_spend_daily s)\<rparr>)"
  using assms
  by (simp add: reserve_install_def on_install_def upsert_def update_after_upsert spend_old Let_def
      bumped_def)

lemma reserve_sublimit_run:
  assumes "tget (install_spend_daily s) (i, Day p) \<noteq> None"
  shows "\<exists>t. run_tx (reserve_sublimit i p lim) s =
     (if DailySublimit lim > 0 \<and> reqs_at (install_spend_daily s) (i, Day p) \<ge> DailySublimit lim
      then Inl ErrSublimitExceeded else Inr (s\<lparr>install_spend_daily := t\<rparr>))"
proof (cases "DailySublimit lim > 0")
  case True
  with assms show ?thesis
    by (auto simp: reserve_sublimit_def on_install_def update_one_def reqs_at_def)
next
  case False
  then show ?thesis
    by (intro exI[of _ "install_spend_daily s"]) (simp add: reserve_sublimit_def)
qed

lemma reserve_category_run:
  assumes "count_at (install_category_daily s) (i, fst (planCategory pl), Day p)
       \<le> MaxInt64 - snd (planCategory pl)"
  shows "\<exists>t. run_tx (reserve_category i pl p lim) s =
     (let c = fst (planCategory pl) in
      if c \<noteq> [] \<and> categoryCap c lim > 0 \<and>
         count_at (install_category_daily s) (i, c, Day p) + snd (planCategory pl) > categoryCap c lim
      then Inl (CategoryDailyExceededError c) else Inr (s\<lparr>install_category_daily := t\<rparr>))"
proof (cases "fst (planCategory pl) = []")
  case True
  then show ?thesis
    by (intro exI[of _ "install_category_daily s"]) (simp add: reserve_category_def case_prod_beta Let_def)
next
  case False
  let ?k = "(i, fst (planCategory pl), Day p)"
  let ?t = "install_category_daily s"
  let ?t' = "tput ?k (count_at ?t ?k + snd (planCategory pl)) (insert_ignore ?k 0 ?t)"
  from False assms show ?thesis
    by (cases "categoryCap (fst (planCategory pl)) lim > 0"; intro exI[of _ ?t'])
      (simp_all add: reserve_category_def case_prod_beta on_category_def upsert_def update_after_upsert
        count_old Let_def)
qed

lemma reserve_provider_run:
  assumes "spend_at (provider_spend_daily s) (pr, Day p) \<le> MaxInt64 - v"
    "reqs_at (provider_spend_daily s) (pr, Day p) < MaxInt64"
  shows "run_tx (reserve_provider pr v p) s =
    Inr (s\<lparr>provider_spend_daily := bumped (pr, Day p) v 1 (provider_spend_daily s)\<rparr>)"
  using assms
  by (simp add: reserve_provider_def on_provider_def upsert_def update_after_upsert spend_old Let_def
      bumped_def)

lemma reserve_global_run:
  assumes "spend_at (global_spend_daily s) (Day p) \<le> MaxInt64 - v"
    "reqs_at (global_spend_daily s) (Day p) < MaxInt64"
  shows "run_tx (reserve_global v p) s =
    Inr (s\<lparr>global_spend_daily := bumped (Day p) v 1 (global_spend_daily s)\<rparr>)"
  using assms
  by (simp add: reserve_global_def on_global_def upsert_def update_after_upsert spend_old Let_def
      bumped_def)

lemma reserve_wallet_run:
  "run_tx (reserve_wallet v p lim) s =
     (if spend_at (global_spend_monthly s) (Month p) > wrap64 (GlobalMonthlySpendPUSD lim - v)
      then Inl ErrBudgetExceeded
      else Inr (s\<lparr>global_spend_monthly := bumped (Month p) v 1 (global_spend_monthly s)\<rparr>))"
  by (simp add: reserve_wallet_def on_wallet_def upsert_def update_after_upsert spend_old Let_def
      bumped_def)

lemma Reserve_by_gates:
  fixes lim :: limits and i :: string and p :: period
  assumes plan: "validatePlan pl = Inr ()" and room: "headroom i pl p s"
    and fresh: "rid \<notin> set (map request_id (spend_ledger s))"
  defines "r \<equiv> new_reservation rid i pl p lim"
  shows "\<exists>s'. Reserve rid now i pl p lim s =
    (case gate_error r lim s of Some e \<Rightarrow> Inl e | None \<Rightarrow> Inr (s', r))"
proof -
  let ?v = "ReservedPUSD pl"
  have fields: "InstallID r = i" "Period r = p" "Plan r = pl" "CategoryApplied r = fst (planCategory pl)"
      "CategoryUnits r = snd (planCategory pl)"
    by (simp_all add: r_def new_reservation_def)
  note room = room[unfolded headroom_def]
  define s1 where "s1 = s\<lparr>quota_monthly := tput (i, Month p) (count_at (quota_monthly s) (i, Month p) + 1)
             (insert_ignore (i, Month p) 0 (quota_monthly s))\<rparr>"
  define t2 where "t2 = bumped (i, Day p) ?v 0 (install_spend_daily s)"
  define s2 where "s2 = s1\<lparr>install_spend_daily := t2\<rparr>"
  have b2: "run_tx (reserve_install i ?v p) s1 = Inr s2"
    using reserve_install_run[of s1 i p ?v] room by (simp add: s1_def s2_def t2_def)
  obtain t3 where b3: "run_tx (reserve_sublimit i p lim) s2 =
     (if DailySublimit lim > 0 \<and> reqs_at (install_spend_daily s) (i, Day p) \<ge> DailySublimit lim
      then Inl ErrSublimitExceeded else Inr (s2\<lparr>install_spend_daily := t3\<rparr>))"
    using reserve_sublimit_run[of s2 i p lim] by (auto simp: s2_def t2_def bumped_at)
  define s3 where "s3 = s2\<lparr>install_spend_daily := t3\<rparr>"
  obtain t4 where b4: "run_tx (reserve_category i pl p lim) s3 =
     (let c = fst (planCategory pl) in
      if c \<noteq> [] \<and> categoryCap c lim > 0 \<and>
         count_at (install_category_daily s) (i, c, Day p) + snd (planCategory pl) > categoryCap c lim
      then Inl (CategoryDailyExceededError c) else Inr (s3\<lparr>install_category_daily := t4\<rparr>))"
    using reserve_category_run[of s3 i pl p lim] room by (auto simp: s1_def s2_def s3_def)
  define s4 where "s4 = s3\<lparr>install_category_daily := t4\<rparr>"
  define s5 where "s5 = s4\<lparr>provider_spend_daily := bumped (Provider pl, Day p) ?v 1 (provider_spend_daily s)\<rparr>"
  have b5: "run_tx (reserve_provider (Provider pl) ?v p) s4 = Inr s5"
    using reserve_provider_run[of s4 "Provider pl" p ?v] room
    by (simp add: s1_def s2_def s3_def s4_def s5_def)
  define s6 where "s6 = s5\<lparr>global_spend_daily := bumped (Day p) ?v 1 (global_spend_daily s)\<rparr>"
  have b6: "run_tx (reserve_global ?v p) s5 = Inr s6"
    using reserve_global_run[of s5 p ?v] room by (simp add: s1_def s2_def s3_def s4_def s5_def s6_def)
  define t7 where "t7 = bumped (Month p) ?v 1 (global_spend_monthly s)"
  have b7: "run_tx (reserve_wallet ?v p lim) s6 =
     (if spend_at (global_spend_monthly s) (Month p) > wrap64 (GlobalMonthlySpendPUSD lim - ?v)
      then Inl ErrBudgetExceeded else Inr (s6\<lparr>global_spend_monthly := t7\<rparr>))"
    by (simp add: reserve_wallet_run s1_def s2_def s3_def s4_def s5_def s6_def t7_def)
  have "ledger_check (open_row r now)"
    using plan Validate_bounds(3)[of pl]
    by (auto simp: ledger_check_def open_row_def fields validatePlan_def ProviderQwen_def
        split: sum.splits if_splits)
  then have ins: "ledger_insert (open_row r now) (s6\<lparr>global_spend_monthly := t7\<rparr>) =
      Inr (s6\<lparr>global_spend_monthly := t7, spend_ledger := spend_ledger s @ [open_row r now]\<rparr>)"
    using fresh by (simp add: ledger_insert_def s1_def s2_def s3_def s4_def s5_def s6_def r_def
        new_reservation_def)
  have tx: "run_tx (reserve_tx r lim now) s =
      (case gate_error r lim s of
         Some e \<Rightarrow> Inl e
       | None \<Rightarrow> Inr (s6\<lparr>global_spend_monthly := t7, spend_ledger := spend_ledger s @ [open_row r now]\<rparr>))"
    unfolding reserve_tx_def fields Let_def run_tx_append reserve_month_run s1_def[symmetric]
    by (simp add: b2 b3[folded s3_def] b4[folded s4_def] b5 b6 b7 ins gate_error_def fields Let_def)
  have red: "Reserve rid now i pl p lim s = rbind (run_tx (reserve_tx r lim now) s) (\<lambda>s'. Inr (s', r))"
    using plan by (simp add: Reserve_def r_def Let_def)
  show ?thesis
    unfolding red tx by (cases "gate_error r lim s") auto
qed

text \<open>The exact outcome of a reserve. For a valid plan, a fresh request id and balances away from
  the \<open>int64\<close> ceiling, a reserve is denied exactly when one of its gates is closed, and the error
  names the first closed gate in the order monthly entitlement, daily sublimit, category cap,
  operator wallet; otherwise it succeeds and opens the reservation.\<close>

theorem reserve_outcome:
  fixes lim :: limits and i :: string and p :: period
  assumes plan: "validatePlan pl = Inr ()" and room: "headroom i pl p s"
    and fresh: "rid \<notin> set (map request_id (spend_ledger s))"
  defines "r \<equiv> new_reservation rid i pl p lim"
  shows "case gate_error r lim s of
      Some e \<Rightarrow> Reserve rid now i pl p lim s = Inl e
    | None \<Rightarrow> \<exists>s'. Reserve rid now i pl p lim s = Inr (s', r) \<and> reserve_effect r lim now s s'"
proof (cases "gate_error r lim s")
  case None
  with Reserve_by_gates[OF plan room fresh, of now lim] obtain s' where
    s': "Reserve rid now i pl p lim s = Inr (s', r)" by (auto simp: r_def)
  from Reserve_effect(3)[OF s'] s' None show ?thesis by auto
next
  case (Some e)
  with Reserve_by_gates[OF plan room fresh, of now lim] show ?thesis by (auto simp: r_def)
qed

section \<open>The wallet is never oversold\<close>

text \<open>
  Runs in which every reserve uses a wallet limit of at most \<open>L\<close>. A settlement may take more than its
  reservation; the last index adds up what the settlements took beyond. (The amounts the gateway settles are
  within their reservations, by \<open>Billing.plan_quote_bounds_cost\<close> and \<open>Billing.unit_cost_eq_reserved\<close>, unless
  the provider reports more tokens than the quote allows for.)
\<close>

inductive budget_run :: "int64 \<Rightarrow> db \<Rightarrow> int \<Rightarrow> bool" for L where
  budget_start: "budget_run L empty_db 0"
| budget_reserve: "budget_run L s e \<Longrightarrow> 0 \<le> GlobalMonthlySpendPUSD lim \<Longrightarrow> GlobalMonthlySpendPUSD lim \<le> L \<Longrightarrow>
     Reserve rid now i pl p lim s = Inr (s', r) \<Longrightarrow> budget_run L s' e"
| budget_settle: "budget_run L s e \<Longrightarrow> is_int64 a \<Longrightarrow> Settle now r a s = Inr s' \<Longrightarrow>
     budget_run L s' (e + (if s' = s then 0 else max 0 (a - Res_ReservedPUSD r)))"
| budget_rollback: "budget_run L s e \<Longrightarrow> Rollback now r s = Inr s' \<Longrightarrow> budget_run L s' e"
| budget_reconcile: "budget_run L s e \<Longrightarrow> reconcileOne now rid s = Inr (s', won) \<Longrightarrow> budget_run L s' e"
| budget_reset: "budget_run L s e \<Longrightarrow> ResetMonthlyRequests p s = Inr (s', n) \<Longrightarrow> budget_run L s' e"

lemma budget_run_reachable: "budget_run L s e \<Longrightarrow> db_reachable s"
  by (induction rule: budget_run.induct) (auto intro: db_reachable.intros db_step.intros)

lemma budget_run_beyond: "budget_run L s e \<Longrightarrow> 0 \<le> e"
  by (induction rule: budget_run.induct) auto

text \<open>C32. The operator's monthly wallet is not oversold: along any interleaving of reserves,
  settlements, rollbacks, reconciliations and resets, the month's recorded spend never exceeds the
  largest wallet limit in force at any reserve by more than the settlements took beyond their
  reservations; so while they stay within, never.\<close>

theorem wallet_never_oversold:
  assumes "budget_run L s e" and "0 \<le> L" and "L \<le> MaxInt64"
  shows "spend_at (global_spend_monthly s) m \<le> L + e"
  using assms(1)
proof (induction arbitrary: m rule: budget_run.induct)
  case budget_start
  then show ?case using assms(2) by (simp add: empty_db_def at_defs)
next
  case (budget_reserve s e lim rid now i pl p s' r)
  note eff = Reserve_effect[OF budget_reserve.hyps(4)]
  note E = eff(3)[unfolded reserve_effect_def Let_def]
  have r: "Period r = p" "Plan r = pl" by (simp_all add: eff(1) new_reservation_def)
  have pos: "0 < ReservedPUSD pl" using validatePlan_pos[OF eff(2)] by simp
  have "ReservedPUSD pl \<le> MaxInt64"
    using eff(2) Validate_bounds(2)[of pl] by (auto simp: validatePlan_def split: sum.splits)
  then have "wrap64 (GlobalMonthlySpendPUSD lim - ReservedPUSD pl) = GlobalMonthlySpendPUSD lim - ReservedPUSD pl"
    using pos budget_reserve.hyps(2,3) assms(3)
    by (intro wrap64_id) (simp add: is_int64_def MaxInt64_def MinInt64_def)
  then have "spend_at (global_spend_monthly s) (Month p) + ReservedPUSD pl \<le> L"
    using eff(4) budget_reserve.hyps(3) by (simp add: reserve_gates_def Let_def r)
  moreover have "spend_at (global_spend_monthly s') m =
      spend_at (global_spend_monthly s) m + (if m = Month p then ReservedPUSD pl else 0)"
    using E by (simp add: shifted_def r)
  ultimately show ?case using budget_reserve.IH[of m] budget_run_beyond[OF budget_reserve.hyps(1)] by auto
next
  case (budget_settle s e a now r s')
  have dist: "distinct (map request_id (spend_ledger s))"
    by (rule ledger_invD(1)[OF db_reachable_inv[OF budget_run_reachable[OF budget_settle.hyps(1)]]])
  from budget_settle.hyps(3) dist budget_settle.hyps(2) show ?case
  proof (cases rule: Settle_cases)
    case 1
    with budget_settle.IH show ?thesis by simp
  next
    case (2 x)
    have "reserved_pusd x = Res_ReservedPUSD r" using 2(2) by (simp add: cas_match_def)
    then show ?thesis
      using 2(4) budget_settle.IH[of m] by (cases "s' = s") (auto simp: spend_moved_def shifted_def)
  qed
next
  case (budget_rollback s e now r s')
  note inv = db_reachable_inv[OF budget_run_reachable[OF budget_rollback.hyps(1)]]
  from budget_rollback.hyps(2) ledger_invD(1)[OF inv] show ?case
  proof (cases rule: Rollback_cases)
    case 1
    with budget_rollback.IH show ?thesis by simp
  next
    case (2 x)
    have "0 < reserved_pusd x" using ledger_invD(2)[OF inv 2(1)] by (simp add: row_ok_def ledger_check_def)
    with 2(3) budget_rollback.IH[of m] show ?thesis by (auto simp: spend_moved_def shifted_def)
  qed
next
  case (budget_reconcile s e now rid s' won)
  have dist: "distinct (map request_id (spend_ledger s))"
    by (rule ledger_invD(1)[OF db_reachable_inv[OF budget_run_reachable[OF budget_reconcile.hyps(1)]]])
  from budget_reconcile.hyps(2) dist show ?case
    by (cases rule: reconcileOne_cases) (use budget_reconcile.IH in simp_all)
next
  case (budget_reset s e p s' n)
  then show ?case by (auto simp: ResetMonthlyRequests_def Let_def split: if_splits)
qed

section \<open>The orphan reconciler and the monthly reset\<close>

text \<open>The monthly reset is an entitlement reset, never an accounting reset: it is refused exactly
  while a reservation is open, and otherwise zeroes every request counter of that month, counts the
  installs that had used something, and leaves other months, every spend balance and the ledger as
  they were.\<close>

theorem reset_monthly_effect:
  "(if OpenReservations s = 0
    then \<exists>s' n. ResetMonthlyRequests p s = Inr (s', n) \<and>
      (\<forall>i m. count_at (quota_monthly s') (i, m) =
         (if m = Month p \<and> count_at (quota_monthly s) (i, m) > 0 then 0
          else count_at (quota_monthly s) (i, m))) \<and>
      n = length (filter (\<lambda>e. snd (fst e) = Month p \<and> snd e > 0) (quota_monthly s)) \<and>
      s' = s\<lparr>quota_monthly := quota_monthly s'\<rparr>
    else ResetMonthlyRequests p s = Inl ErrMonthlyResetBlocked)"
proof (cases "OpenReservations s = 0")
  case True
  have "count_at (map (\<lambda>e. if snd (fst e) = Month p \<and> snd e > 0 then (fst e, 0) else e) (quota_monthly s)) (i, m) =
      (if m = Month p \<and> count_at (quota_monthly s) (i, m) > 0 then 0 else count_at (quota_monthly s) (i, m))" for i m
    by (cases "tget (quota_monthly s) (i, m)") (simp_all add: count_at_def tget_map_keys)
  with True show ?thesis by (simp add: ResetMonthlyRequests_def Let_def)
qed (simp add: ResetMonthlyRequests_def)

lemma reconcile_ids_run:
  assumes "ledger_inv s" "distinct rids"
    and "\<forall>rid \<in> set rids. \<exists>x \<in> set (spend_ledger s). orphan_match rid x"
  shows "\<exists>s'. reconcile_ids now rids s n = (None, s', n + length rids) \<and>
     s' = s\<lparr>spend_ledger := map (\<lambda>x. if request_id x \<in> set rids then orphan_row now x else x) (spend_ledger s)\<rparr>"
  using assms
proof (induction rids arbitrary: s n)
  case (Cons rid rids)
  note dist = ledger_invD(1)[OF Cons.prems(1)]
  obtain x where x: "x \<in> set (spend_ledger s)" "orphan_match rid x" using Cons.prems(3) by auto
  obtain s1 won where r1: "reconcileOne now rid s = Inr (s1, won)"
  proof -
    obtain s1 n1 where cas: "cas_rows (orphan_match rid) (orphan_row now) s = (s1, n1)"
      by (cases "cas_rows (orphan_match rid) (orphan_row now) s")
    have "n1 \<noteq> 0" using cas_rows_miss cas x by metis
    from cas_rows_hit[OF dist _ cas this, of rid] have "n1 = 1" by (metis orphan_match_def)
    with cas that show thesis by (simp add: reconcileOne_def)
  qed
  from r1 dist have won: "won" and s1: "s1 = s\<lparr>spend_ledger := swap_row rid (orphan_row now) (spend_ledger s)\<rparr>"
    by (cases rule: reconcileOne_cases; use x in blast)+
  have rest: "\<forall>q \<in> set rids. \<exists>y \<in> set (spend_ledger s1). orphan_match q y"
  proof
    fix q assume q: "q \<in> set rids"
    then obtain y where y: "y \<in> set (spend_ledger s)" "orphan_match q y" using Cons.prems(3) by auto
    with q Cons.prems(2) have "request_id y \<noteq> rid" by (auto simp: orphan_match_def)
    with y have "y \<in> set (spend_ledger s1)" by (force simp: s1 swap_row_def)
    with y show "\<exists>y \<in> set (spend_ledger s1). orphan_match q y" by blast
  qed
  have "ledger_inv s1" by (rule reconcileOne_inv[OF Cons.prems(1) r1])
  from Cons.IH[OF this _ rest, of "n + 1"] Cons.prems(2) obtain s' where
    s': "reconcile_ids now rids s1 (n + 1) = (None, s', n + 1 + length rids)"
    "s' = s1\<lparr>spend_ledger := map (\<lambda>x. if request_id x \<in> set rids then orphan_row now x else x) (spend_ledger s1)\<rparr>"
    by auto
  have "s' = s\<lparr>spend_ledger := map (\<lambda>x. if request_id x \<in> set (rid # rids) then orphan_row now x else x) (spend_ledger s)\<rparr>"
    using Cons.prems(2) by (auto simp: s'(2) s1 swap_row_def orphan_row_def)
  with s' r1 won show ?case by simp
qed simp

text \<open>The orphan reconciler closes exactly the open reservations older than the cutoff, at their
  full reserved cost, without failing and without touching a balance; it reports how many it closed.\<close>

theorem reconcile_orphans_effect:
  assumes "db_reachable s"
  shows "ReconcileOrphans now cutoff s =
    (None,
     s\<lparr>spend_ledger := map (\<lambda>x. if state x = StateOpen \<and> created_at x < cutoff then orphan_row now x else x)
        (spend_ledger s)\<rparr>,
     length (filter (\<lambda>x. state x = StateOpen \<and> created_at x < cutoff) (spend_ledger s)))"
proof -
  let ?old = "\<lambda>x. state x = StateOpen \<and> created_at x < cutoff"
  let ?ids = "map request_id (filter ?old (spend_ledger s))"
  have inv: "ledger_inv s" using assms by (rule db_reachable_inv)
  note dist = ledger_invD(1)[OF inv]
  have "distinct ?ids" using dist by (simp add: distinct_map_filter)
  moreover have "\<forall>rid \<in> set ?ids. \<exists>x \<in> set (spend_ledger s). orphan_match rid x"
    by (auto simp: orphan_match_def)
  ultimately obtain s' where s': "reconcile_ids now ?ids s 0 = (None, s', 0 + length ?ids)"
    "s' = s\<lparr>spend_ledger := map (\<lambda>x. if request_id x \<in> set ?ids then orphan_row now x else x) (spend_ledger s)\<rparr>"
    using reconcile_ids_run[OF inv] by blast
  have "request_id x \<in> set ?ids \<longleftrightarrow> ?old x" if "x \<in> set (spend_ledger s)" for x
    using that dist by (auto simp: distinct_map inj_on_def)
  then have "map (\<lambda>x. if request_id x \<in> set ?ids then orphan_row now x else x) (spend_ledger s) =
      map (\<lambda>x. if ?old x then orphan_row now x else x) (spend_ledger s)"
    by (intro map_cong refl) simp
  with s' show ?thesis by (simp add: ReconcileOrphans_def)
qed

end
