(* ===== verification/Quota_Witness.thy ===== *)
theory Quota_Witness
  imports Quota_Runs
begin

text \<open>
  One concrete reservation (a video request of five seconds on an empty ledger), evaluated, and the
  ledger properties applied to it.
\<close>

section \<open>The scenario\<close>

definition demo_plan :: plan where
  "demo_plan = projr (NewUnitPlan ProviderQwen Wan27T2V InputVideoSeconds 5)"

definition demo_period :: period where
  "demo_period = \<lparr>Month = ''2026-07'', Day = ''2026-07-01''\<rparr>"

definition demo_limits :: limits where
  "demo_limits = \<lparr>MonthlyQuota = 3, GlobalMonthlySpendPUSD = 1000000000000, DailySublimit = 2,
     ImageDailyLimit = 1, SpeechDailyLimit = 100, VideoDailyLimit = 1, VoiceDailyLimit = 1\<rparr>"

definition demo_res :: reservation where
  "demo_res = new_reservation ''r1'' ''i1'' demo_plan demo_period demo_limits"

definition demo_row :: ledger_row where "demo_row = open_row demo_res 100"

definition demo_db :: db where
  "demo_db = fst (projr (Reserve ''r1'' 100 ''i1'' demo_plan demo_period demo_limits empty_db))"

lemma demo_plan_new: "NewUnitPlan ProviderQwen Wan27T2V InputVideoSeconds 5 = Inr demo_plan"
  unfolding demo_plan_def by (simp add: plan_eval)

lemma demo_plan_cost: "ReservedPUSD demo_plan = 415000000000" "Provider demo_plan = ''qwen''"
    "planCategory demo_plan = (''video'', 1)"
  by (simp_all add: demo_plan_def plan_eval planCategory_def category_names)

lemma demo_plan_valid: "validatePlan demo_plan = Inr ()"
  by (simp add: validatePlan_def demo_plan_def plan_eval Validate_def samePlan_def)

lemma demo_gates: "gate_error demo_res demo_limits empty_db = None"
  by (simp add: gate_error_def demo_res_def new_reservation_def demo_plan_cost demo_limits_def empty_db_def
      at_defs categoryCap_def category_names wrap64_def Let_def)

lemma demo_headroom: "headroom ''i1'' demo_plan demo_period empty_db"
  by (simp add: headroom_def empty_db_def at_defs demo_plan_cost MaxInt64_def)

lemma demo_reserve:
  "Reserve ''r1'' 100 ''i1'' demo_plan demo_period demo_limits empty_db = Inr (demo_db, demo_res)"
proof -
  have "RequestID demo_res \<notin> set (map request_id (spend_ledger empty_db))"
    by (simp add: empty_db_def)
  then show ?thesis
    using Reserve_by_gates[OF demo_plan_valid demo_headroom, of "''r1''" 100 demo_limits] demo_gates
    by (auto simp: demo_db_def demo_res_def[symmetric] empty_db_def)
qed

lemma demo_reachable: "db_reachable demo_db"
  by (rule reach_step[OF reach_start step_reserve[OF demo_reserve]])

lemma demo_res_valid: "validateReservation demo_res = Inr ()"
  unfolding demo_res_def by (rule new_reservation_valid[OF demo_plan_valid]) simp_all

lemma demo_ledger: "spend_ledger demo_db = [demo_row]" "cas_match demo_res demo_row"
  using Reserve_effect(3)[OF demo_reserve]
  by (simp_all add: reserve_effect_def Let_def demo_row_def empty_db_def demo_res_def open_row_matches)

lemma demo_row_fields: "request_id demo_row = ''r1''" "reserved_pusd demo_row = 415000000000"
    "state demo_row = StateOpen" "created_at demo_row = 100"
  by (simp_all add: demo_row_def open_row_def demo_res_def new_reservation_def demo_plan_cost)

section \<open>The properties at this scenario\<close>

theorem ledger_conserved_witness:
  "db_reachable demo_db \<and>
   spend_at (global_spend_monthly demo_db) ''2026-07'' = 415000000000"
proof -
  have "period_month demo_row = ''2026-07''" "contrib demo_row = 415000000000"
    by (simp_all add: contrib_def demo_row_def open_row_def demo_res_def new_reservation_def demo_period_def
        demo_plan_cost)
  with ledger_conserved[OF demo_reachable, THEN conjunct1] demo_reachable show ?thesis
    by (simp add: demo_ledger)
qed

theorem rollback_total_witness: "\<exists>s'. Rollback 200 demo_res demo_db = Inr s'"
  using rollback_total[OF demo_reachable demo_res_valid _ demo_ledger(2)] by (auto simp: demo_ledger(1))

theorem settle_total_witness: "\<exists>s'. Settle 200 demo_res 1000 demo_db = Inr s' \<and>
    spend_moved demo_row (- 414999999000) 0 demo_db s'"
  using settle_total[OF demo_reachable demo_res_valid _ demo_ledger(2), of 1000 200]
  by (auto simp: demo_ledger(1) demo_row_fields)

theorem terminal_once_witness:
  "\<exists>s'. Rollback 200 demo_res demo_db = Inr s' \<and> Rollback 300 demo_res s' = Inr s' \<and>
     Settle 300 demo_res 7 s' = Inr s'"
proof -
  obtain s' where s': "Rollback 200 demo_res demo_db = Inr s'"
    using open_rollback[OF demo_reachable demo_res_valid _ demo_ledger(2)] by (auto simp: demo_ledger(1))
  from terminal_once[OF demo_reachable _ demo_ledger(2) disjI2[OF s'] demo_res_valid refl, of 300 7 ] s'
  show ?thesis by (auto simp: demo_ledger(1))
qed

theorem reserve_rollback_roundtrip_witness:
  "\<exists>s2. Rollback 200 demo_res demo_db = Inr s2 \<and> same_balances empty_db s2"
  by (rule reserve_rollback_roundtrip[OF reach_start _ _ demo_reserve]) simp_all

theorem reserve_outcome_witness:
  "\<exists>s'. Reserve ''r1'' 100 ''i1'' demo_plan demo_period demo_limits empty_db = Inr (s', demo_res) \<and>
     reserve_effect demo_res demo_limits 100 empty_db s'"
proof -
  have "''r1'' \<notin> set (map request_id (spend_ledger empty_db))" by (simp add: empty_db_def)
  from reserve_outcome[OF demo_plan_valid demo_headroom this, of 100 demo_limits] show ?thesis
    by (simp add: demo_res_def[symmetric] demo_gates)
qed

theorem wallet_never_oversold_witness:
  "budget_run 1000000000000 demo_db 0 \<and>
   spend_at (global_spend_monthly demo_db) ''2026-07'' \<le> 1000000000000"
proof -
  have run: "budget_run 1000000000000 demo_db 0"
    by (rule budget_reserve[OF budget_start _ _ demo_reserve]) (simp_all add: demo_limits_def)
  from wallet_never_oversold[OF this] run show ?thesis by (simp add: MaxInt64_def)
qed

theorem reconcile_orphans_effect_witness:
  "ReconcileOrphans 5000 1000 demo_db =
     (None, demo_db\<lparr>spend_ledger := [orphan_row 5000 demo_row]\<rparr>, 1)"
  using reconcile_orphans_effect[OF demo_reachable, of 5000 1000]
  by (simp add: demo_ledger(1) demo_row_fields)

end
