(* ===== verification/Wire.thy ===== *)
theory Wire
  imports Prelude
begin

text \<open>
  The text that crosses the wire between the dashboard SPA and the gateway, byte by byte: decimal
  integers (\<open>strconv.Itoa\<close>, \<open>FormatInt\<close>, \<open>Atoi\<close>, \<open>ParseInt\<close>), white-space trimming in Go and in
  JavaScript, and query strings (\<open>URLSearchParams\<close> on the browser side, \<open>url.ParseQuery\<close> on the
  server side). A \<open>string\<close> is the UTF-8 byte sequence of a text.
\<close>

section \<open>Decimal integers\<close>

definition digit_char :: "nat \<Rightarrow> char" where
  "digit_char d = char_of (48 + d)"

fun dec :: "nat \<Rightarrow> string" where
  "dec n = (if n < 10 then [digit_char n] else dec (n div 10) @ [digit_char (n mod 10)])"

declare dec.simps [simp del]

definition itoa :: "int \<Rightarrow> string" where
  "itoa i = (if i < 0 then CHR ''-'' # dec (nat (- i)) else dec (nat i))"

definition char_digit :: "char \<Rightarrow> nat option" where
  "char_digit c = (let n = of_char c in if 48 \<le> n \<and> n \<le> 57 then Some (n - 48) else None)"

fun dec_value :: "nat \<Rightarrow> string \<Rightarrow> nat option" where
  "dec_value acc [] = Some acc"
| "dec_value acc (c # cs) = (case char_digit c of None \<Rightarrow> None | Some d \<Rightarrow> dec_value (10 * acc + d) cs)"

definition parse_uint :: "string \<Rightarrow> nat option" where
  "parse_uint s = (if s = [] then None else dec_value 0 s)"

text \<open>\<open>ParseInt(s, 10, 64)\<close>; on the 64-bit targets of this program \<open>Atoi\<close> is the same function.\<close>

definition parse_int :: "string \<Rightarrow> int64 option" where
  "parse_int s =
     (let (sign, body) =
        (case s of
           [] \<Rightarrow> (1, [])
         | c # cs \<Rightarrow> if c = CHR ''-'' then (- 1, cs) else if c = CHR ''+'' then (1, cs) else (1, s))
      in case parse_uint body of
           None \<Rightarrow> None
         | Some n \<Rightarrow> if is_int64 (sign * int n) then Some (sign * int n) else None)"

lemma char_digit_digit_char [simp]: "d < 10 \<Longrightarrow> char_digit (digit_char d) = Some d"
  by (simp add: char_digit_def digit_char_def)

lemma dec_not_Nil [simp]: "dec n \<noteq> []"
  by (subst dec.simps) simp

lemma dec_value_append:
  "dec_value acc (xs @ ys) = (case dec_value acc xs of None \<Rightarrow> None | Some v \<Rightarrow> dec_value v ys)"
  by (induction acc xs rule: dec_value.induct) (auto split: option.splits)

lemma dec_value_dec: "dec_value 0 (dec n) = Some n"
proof (induction n rule: dec.induct)
  case (1 n)
  then show ?case
    by (subst dec.simps) (simp add: dec_value_append)
qed

lemma dec_digits: "c \<in> set (dec n) \<Longrightarrow> 48 \<le> (of_char c :: nat) \<and> (of_char c :: nat) \<le> 57"
proof (induction n rule: dec.induct)
  case (1 n)
  then show ?case
    by (subst (asm) dec.simps) (auto simp: digit_char_def split: if_splits)
qed

lemma dec_head: "dec n = c # cs \<Longrightarrow> c \<noteq> CHR ''-'' \<and> c \<noteq> CHR ''+''"
  using dec_digits[of c n] by auto

lemma parse_int_itoa [simp]: "is_int64 i \<Longrightarrow> parse_int (itoa i) = Some i"
proof -
  assume i: "is_int64 i"
  obtain c cs where c: "dec (nat i) = c # cs" by (cases "dec (nat i)") auto
  show "parse_int (itoa i) = Some i"
  proof (cases "i < 0")
    case True
    with i show ?thesis by (simp add: parse_int_def itoa_def parse_uint_def dec_value_dec)
  next
    case False
    have "dec_value 0 (c # cs) = Some (nat i)" using dec_value_dec[of "nat i"] c by simp
    then have "parse_uint (c # cs) = Some (nat i)" by (simp only: parse_uint_def list.distinct if_False)
    with False i dec_head[OF c] c show ?thesis by (simp add: parse_int_def itoa_def)
  qed
qed

lemma itoa_not_Nil [simp]: "itoa i \<noteq> []"
  by (simp add: itoa_def)

lemma itoa_inj: "is_int64 i \<Longrightarrow> is_int64 j \<Longrightarrow> itoa i = itoa j \<Longrightarrow> i = j"
  by (metis option.inject parse_int_itoa)

section \<open>White space\<close>

text \<open>The byte sequences of the white-space characters: Go's \<open>unicode.IsSpace\<close>, and the white space
  and line terminators that \<open>String.prototype.trim\<close> removes.\<close>

definition bytes :: "nat list \<Rightarrow> string" where
  "bytes = List.map char_of"

definition unicode_space_seqs :: "string list" where
  "unicode_space_seqs =
     List.map bytes
      ([[9], [10], [11], [12], [13], [32], [194, 160], [225, 154, 128]] @
       List.map (\<lambda>k. [226, 128, k]) [128, 129, 130, 131, 132, 133, 134, 135, 136, 137, 138, 168, 169, 175] @
       [[226, 129, 159], [227, 128, 128]])"

definition go_space_seqs :: "string list" where
  "go_space_seqs = bytes [194, 133] # unicode_space_seqs"

definition js_space_seqs :: "string list" where
  "js_space_seqs = bytes [239, 187, 191] # unicode_space_seqs"

definition is_prefix :: "string \<Rightarrow> string \<Rightarrow> bool" where
  "is_prefix p s \<longleftrightarrow> take (length p) s = p"

definition strip_one :: "string list \<Rightarrow> string \<Rightarrow> string option" where
  "strip_one ws s =
     (case filter (\<lambda>p. p \<noteq> [] \<and> is_prefix p s) ws of [] \<Rightarrow> None | p # _ \<Rightarrow> Some (drop (length p) s))"

lemma strip_one_shorter: "strip_one ws s = Some t \<Longrightarrow> length t < length s"
proof -
  assume "strip_one ws s = Some t"
  then obtain p ps where "filter (\<lambda>p. p \<noteq> [] \<and> is_prefix p s) ws = p # ps" "t = drop (length p) s"
    by (auto simp: strip_one_def split: list.splits)
  then have "p \<noteq> []" "is_prefix p s" by (auto simp: filter_eq_Cons_iff)
  then have "0 < length p" "length p \<le> length s"
    by (auto simp: is_prefix_def dest: arg_cong[where f = length])
  with \<open>t = drop (length p) s\<close> show ?thesis by (cases p; cases s) auto
qed

function trim_left :: "string list \<Rightarrow> string \<Rightarrow> string" where
  "trim_left ws s = (case strip_one ws s of None \<Rightarrow> s | Some t \<Rightarrow> trim_left ws t)"
  by auto
termination by (relation "measure (\<lambda>(ws, s). length s)") (auto dest: strip_one_shorter)

declare trim_left.simps [simp del]

lemma trim_left_stop: "strip_one ws s = None \<Longrightarrow> trim_left ws s = s"
  by (subst trim_left.simps) simp

lemma trim_left_go: "strip_one ws s = Some t \<Longrightarrow> trim_left ws s = trim_left ws t"
  by (subst trim_left.simps) simp

definition trim :: "string list \<Rightarrow> string \<Rightarrow> string" where
  "trim ws s = rev (trim_left (List.map rev ws) (rev (trim_left ws s)))"

definition TrimSpace :: "string \<Rightarrow> string" where "TrimSpace = trim go_space_seqs"

definition js_trim :: "string \<Rightarrow> string" where "js_trim = trim js_space_seqs"

lemma trim_left_shorter: "length (trim_left ws s) \<le> length s"
proof (induction ws s rule: trim_left.induct)
  case (1 ws s)
  then show ?case
    by (subst trim_left.simps) (fastforce dest: strip_one_shorter split: option.splits)
qed

lemma trim_left_fix: "strip_one ws (trim_left ws s) = None"
proof (induction ws s rule: trim_left.induct)
  case (1 ws s)
  then show ?case by (subst trim_left.simps) (auto split: option.splits)
qed

text \<open>Trimming a trimmed text changes nothing.\<close>

lemma trim_left_suffix: "\<exists>u. s = u @ trim_left ws s"
proof (induction ws s rule: trim_left.induct)
  case (1 ws s)
  show ?case
  proof (cases "strip_one ws s")
    case None
    then show ?thesis by (simp add: trim_left_stop)
  next
    case (Some t)
    then obtain p where "is_prefix p s" "t = drop (length p) s"
      by (auto simp: strip_one_def filter_eq_Cons_iff split: list.splits)
    then have "s = p @ t" by (metis append_take_drop_id is_prefix_def)
    with 1[OF Some] show ?thesis by (metis append.assoc trim_left_go[OF Some])
  qed
qed

lemma is_prefix_append: "is_prefix p s \<longleftrightarrow> (\<exists>u. s = p @ u)"
  unfolding is_prefix_def by (metis append_eq_conv_conj append_take_drop_id)

lemma strip_one_None: "strip_one ws s = None \<longleftrightarrow> filter (\<lambda>p. p \<noteq> [] \<and> is_prefix p s) ws = []"
  by (simp add: strip_one_def split: list.split)

lemma trim_trim: "trim ws (trim ws s) = trim ws s"
proof -
  let ?a = "trim_left ws s" and ?b = "trim ws s"
  obtain u where "rev ?a = u @ rev ?b" using trim_left_suffix[of "rev ?a" "List.map rev ws"] by (auto simp: trim_def)
  then have "rev (rev ?a) = rev (rev ?b) @ rev u" by (simp only: rev_append)
  then have "is_prefix p ?a" if "is_prefix p ?b" for p using that by (auto simp: is_prefix_append)
  moreover have "strip_one ws ?a = None" by (rule trim_left_fix)
  ultimately have "strip_one ws ?b = None" unfolding strip_one_None filter_empty_conv by blast
  moreover have "strip_one (List.map rev ws) (rev ?b) = None" by (simp add: trim_def trim_left_fix)
  ultimately show ?thesis by (subst trim_def) (simp only: trim_left_stop rev_rev_ident)
qed

lemma js_trim_trim [simp]: "js_trim (js_trim s) = js_trim s"
  by (simp add: js_trim_def trim_trim)

text \<open>A printable ASCII character begins and ends no white-space sequence, so a text that starts and
  ends with one is not changed by trimming.\<close>

definition graph_char :: "char \<Rightarrow> bool" where
  "graph_char c \<longleftrightarrow> (32 :: nat) < of_char c \<and> (of_char c :: nat) < 127"

lemma strip_one_graph:
  assumes c: "graph_char c" and ws: "\<forall>p \<in> set ws. case p of [] \<Rightarrow> True | q # _ \<Rightarrow> \<not> graph_char q"
  shows "strip_one ws (c # s) = None"
proof -
  have "\<not> (p \<noteq> [] \<and> is_prefix p (c # s))" if "p \<in> set ws" for p
    using bspec[OF ws that] c by (cases p) (auto simp: is_prefix_def)
  then have "filter (\<lambda>p. p \<noteq> [] \<and> is_prefix p (c # s)) ws = []" by (simp add: filter_empty_conv)
  then show ?thesis by (simp add: strip_one_def)
qed

lemma head_not_graph:
  "(case ns of [] \<Rightarrow> False | n # _ \<Rightarrow> n mod 256 \<le> 32 \<or> 127 \<le> n mod 256) \<Longrightarrow>
   (case bytes ns of [] \<Rightarrow> True | q # _ \<Rightarrow> \<not> graph_char q)"
  by (cases ns) (auto simp: bytes_def graph_char_def)

lemma last_not_graph:
  "(case rev ns of [] \<Rightarrow> False | n # _ \<Rightarrow> n mod 256 \<le> 32 \<or> 127 \<le> n mod 256) \<Longrightarrow>
   (case rev (bytes ns) of [] \<Rightarrow> True | q # _ \<Rightarrow> \<not> graph_char q)"
  using head_not_graph[of "rev ns"] by (simp add: bytes_def rev_map)

lemma space_seqs_not_graph:
  "\<forall>p \<in> set go_space_seqs. case p of [] \<Rightarrow> True | q # _ \<Rightarrow> \<not> graph_char q"
  "\<forall>p \<in> set (List.map rev go_space_seqs). case p of [] \<Rightarrow> True | q # _ \<Rightarrow> \<not> graph_char q"
  unfolding go_space_seqs_def unicode_space_seqs_def list.map append.simps list.set insert_iff ball_simps
  by (intro conjI head_not_graph last_not_graph; simp)+

lemma js_space_seqs_not_graph:
  "\<forall>p \<in> set js_space_seqs. case p of [] \<Rightarrow> True | q # _ \<Rightarrow> \<not> graph_char q"
  "\<forall>p \<in> set (List.map rev js_space_seqs). case p of [] \<Rightarrow> True | q # _ \<Rightarrow> \<not> graph_char q"
  unfolding js_space_seqs_def unicode_space_seqs_def list.map append.simps list.set insert_iff ball_simps
  by (intro conjI head_not_graph last_not_graph; simp)+

lemma trim_left_Nil [simp]: "trim_left ws [] = []"
  using trim_left_shorter[of ws "[]"] by simp

lemma trim_graph:
  assumes ws: "\<forall>p \<in> set ws. case p of [] \<Rightarrow> True | q # _ \<Rightarrow> \<not> graph_char q"
    "\<forall>p \<in> set (List.map rev ws). case p of [] \<Rightarrow> True | q # _ \<Rightarrow> \<not> graph_char q"
    and g: "graph_char (hd s)" "graph_char (List.last s)"
  shows "trim ws s = s"
proof (cases s)
  case (Cons c t)
  obtain d u where d: "rev s = d # u" by (cases "rev s") (auto simp: Cons)
  then have "List.last s = d" by (metis hd_rev list.sel(1))
  with g have "trim_left (List.map rev ws) (rev s) = rev s"
    using trim_left_stop[OF strip_one_graph[OF _ ws(2)]] d by simp
  moreover have "trim_left ws s = s"
    using trim_left_stop[OF strip_one_graph[OF _ ws(1)]] g Cons by simp
  ultimately show ?thesis by (simp add: trim_def)
qed (simp add: trim_def)

lemma TrimSpace_graph: "graph_char (hd s) \<Longrightarrow> graph_char (List.last s) \<Longrightarrow> TrimSpace s = s"
  unfolding TrimSpace_def by (rule trim_graph[OF space_seqs_not_graph])

lemma js_trim_graph: "graph_char (hd s) \<Longrightarrow> graph_char (List.last s) \<Longrightarrow> js_trim s = s"
  unfolding js_trim_def by (rule trim_graph[OF js_space_seqs_not_graph])

section \<open>Query strings\<close>

text \<open>\<open>application/x-www-form-urlencoded\<close> as \<open>URLSearchParams.toString\<close> writes it.\<close>

definition form_safe :: "char \<Rightarrow> bool" where
  "form_safe c \<longleftrightarrow> (let n = of_char c :: nat in
     48 \<le> n \<and> n \<le> 57 \<or> 65 \<le> n \<and> n \<le> 90 \<or> 97 \<le> n \<and> n \<le> 122 \<or> n \<in> {42, 45, 46, 95})"

definition hex_char :: "nat \<Rightarrow> char" where
  "hex_char d = (if d < 10 then char_of (48 + d) else char_of (55 + d))"

definition char_hex :: "char \<Rightarrow> nat option" where
  "char_hex c = (let n = of_char c in
     if 48 \<le> n \<and> n \<le> 57 then Some (n - 48)
     else if 65 \<le> n \<and> n \<le> 70 then Some (n - 55)
     else if 97 \<le> n \<and> n \<le> 102 then Some (n - 87)
     else None)"

definition form_byte :: "char \<Rightarrow> string" where
  "form_byte c =
     (if form_safe c then [c]
      else if c = CHR '' '' then ''+''
      else [CHR ''%'', hex_char (of_char c div 16), hex_char (of_char c mod 16)])"

definition form_encode :: "string \<Rightarrow> string" where
  "form_encode s = concat (List.map form_byte s)"

fun join :: "string \<Rightarrow> string list \<Rightarrow> string" where
  "join sep [] = []"
| "join sep [x] = x"
| "join sep (x # y # ys) = x @ sep @ join sep (y # ys)"

definition query_string :: "(string \<times> string) list \<Rightarrow> string" where
  "query_string kvs = join ''&'' (List.map (\<lambda>(k, v). form_encode k @ ''='' @ form_encode v) kvs)"

text \<open>\<open>url.QueryUnescape\<close> and \<open>url.ParseQuery\<close>: a pair that holds a semicolon or a malformed escape
  is dropped, and \<open>Get\<close> reads the first value of a key.\<close>

fun query_unescape :: "string \<Rightarrow> string option" where
  "query_unescape [] = Some []"
| "query_unescape (c # s) =
     (if c = CHR ''%'' then
        (case s of
           h # l # rest \<Rightarrow>
             (case (char_hex h, char_hex l) of
                (Some a, Some b) \<Rightarrow> map_option (\<lambda>t. char_of (16 * a + b) # t) (query_unescape rest)
              | _ \<Rightarrow> None)
         | _ \<Rightarrow> None)
      else map_option (\<lambda>t. (if c = CHR ''+'' then CHR '' '' else c) # t) (query_unescape s))"

fun split_on :: "char \<Rightarrow> string \<Rightarrow> string list" where
  "split_on c [] = [[]]"
| "split_on c (x # xs) =
     (if x = c then [] # split_on c xs
      else case split_on c xs of [] \<Rightarrow> [[x]] | p # ps \<Rightarrow> (x # p) # ps)"

fun cut :: "char \<Rightarrow> string \<Rightarrow> string \<times> string" where
  "cut c [] = ([], [])"
| "cut c (x # xs) = (if x = c then ([], xs) else (let (a, b) = cut c xs in (x # a, b)))"

definition parse_pair :: "string \<Rightarrow> (string \<times> string) option" where
  "parse_pair s =
     (if s = [] \<or> CHR '';'' \<in> set s then None
      else let (k, v) = cut (CHR ''='') s
           in case (query_unescape k, query_unescape v) of
                (Some k', Some v') \<Rightarrow> Some (k', v')
              | _ \<Rightarrow> None)"

definition parse_query :: "string \<Rightarrow> (string \<times> string) list" where
  "parse_query s = List.map_filter parse_pair (split_on (CHR ''&'') s)"

definition query_get :: "string \<Rightarrow> (string \<times> string) list \<Rightarrow> string" where
  "query_get k kvs = (case map_of kvs k of None \<Rightarrow> [] | Some v \<Rightarrow> v)"

lemma hex_char_digit: "d < 16 \<Longrightarrow> char_hex (hex_char d) = Some d"
  by (auto simp: char_hex_def hex_char_def Let_def)

lemma hex_char_plain: "d < 16 \<Longrightarrow> hex_char d \<noteq> CHR ''&'' \<and> hex_char d \<noteq> CHR ''='' \<and> hex_char d \<noteq> CHR '';''"
proof -
  assume "d < 16"
  then have "48 \<le> (of_char (hex_char d) :: nat)" "(of_char (hex_char d) :: nat) \<le> 57 \<or> 65 \<le> (of_char (hex_char d) :: nat)"
    by (auto simp: hex_char_def)
  then show ?thesis by auto
qed

lemma of_char_lt: "of_char c div 16 < (16 :: nat)" "of_char c mod 16 < (16 :: nat)"
proof -
  have "of_char c < (256 :: nat)" by (metis of_char_of mod_less_divisor of_char_mod_256 zero_less_numeral)
  then show "of_char c div 16 < (16 :: nat)" "of_char c mod 16 < (16 :: nat)"
    by (simp_all add: div_less_iff_less_mult)
qed

lemma form_byte_plain: "x \<in> set (form_byte c) \<Longrightarrow> x \<noteq> CHR ''&'' \<and> x \<noteq> CHR ''='' \<and> x \<noteq> CHR '';''"
  using hex_char_plain[OF of_char_lt(1)[of c]] hex_char_plain[OF of_char_lt(2)[of c]]
  by (auto simp: form_byte_def form_safe_def Let_def split: if_splits)

lemma form_encode_plain: "x \<in> set (form_encode s) \<Longrightarrow> x \<noteq> CHR ''&'' \<and> x \<noteq> CHR ''='' \<and> x \<noteq> CHR '';''"
  using form_byte_plain by (auto simp: form_encode_def)

lemma unescape_form_byte: "query_unescape (form_byte c @ t) = map_option ((#) c) (query_unescape t)"
proof -
  have plain: "form_safe c \<Longrightarrow> c \<noteq> CHR ''%'' \<and> c \<noteq> CHR ''+''" by (auto simp: form_safe_def Let_def)
  have "char_of (16 * (of_char c div 16) + of_char c mod 16 :: nat) = c" by simp
  with plain show ?thesis
    by (simp add: form_byte_def hex_char_digit of_char_lt)
qed

lemma unescape_form_encode: "query_unescape (form_encode s) = Some s"
  by (induction s) (simp_all add: form_encode_def unescape_form_byte)

lemma cut_append: "c \<notin> set a \<Longrightarrow> cut c (a @ c # b) = (a, b)"
  by (induction a) auto

lemma split_on_plain: "c \<notin> set s \<Longrightarrow> split_on c s = [s]"
  by (induction s) auto

lemma split_on_append: "c \<notin> set a \<Longrightarrow> split_on c (a @ c # b) = a # split_on c b"
  by (induction a) auto

lemma parse_pair_form:
  "parse_pair (form_encode k @ ''='' @ form_encode v) = Some (k, v)"
proof -
  have "CHR ''='' \<notin> set (form_encode k)" "CHR '';'' \<notin> set (form_encode k)"
      "CHR '';'' \<notin> set (form_encode v)"
    using form_encode_plain by blast+
  then show ?thesis by (simp add: parse_pair_def cut_append unescape_form_encode)
qed

text \<open>What the browser encodes the server decodes, for every key and value.\<close>

lemma parse_query_string: "kvs \<noteq> [] \<Longrightarrow> parse_query (query_string kvs) = kvs"
proof (induction kvs rule: list_nonempty_induct)
  case (single kv)
  obtain k v where kv: "kv = (k, v)" by (cases kv)
  let ?p = "form_encode k @ ''='' @ form_encode v"
  have "CHR ''&'' \<notin> set ?p" using form_encode_plain by fastforce
  from split_on_plain[OF this] show ?case
    by (simp add: parse_query_def query_string_def kv List.map_filter_simps parse_pair_form[simplified])
next
  case (cons kv kvs)
  obtain k v where kv: "kv = (k, v)" by (cases kv)
  let ?p = "form_encode k @ ''='' @ form_encode v"
  have plain: "CHR ''&'' \<notin> set ?p" using form_encode_plain by fastforce
  obtain q qs where "kvs = q # qs" using cons.hyps by (cases kvs) auto
  then have "query_string (kv # kvs) = ?p @ CHR ''&'' # query_string kvs"
    by (simp add: query_string_def kv)
  then have "split_on (CHR ''&'') (query_string (kv # kvs)) = ?p # split_on (CHR ''&'') (query_string kvs)"
    using split_on_append[OF plain] by simp
  with cons.IH show ?case
    by (simp add: parse_query_def List.map_filter_simps parse_pair_form[simplified] kv)
qed

end
