(* ===== verification/Apierr.thy ===== *)
theory Apierr
  imports Wire
begin

text \<open>
  The wire errors of \<open>internal/domain/apierr/apierr.go\<close>, every sentinel with its status, code and
  message, and their rendering by \<open>internal/transport/httpapi/response/response.go\<close>. A JSON value is
  \<open>json\<close>; an object keeps its fields in order, and a number that is
  not an integer is a reduced fraction, numerator first.
\<close>

section \<open>JSON values and responses\<close>

datatype json =
    JNull
  | JBool bool
  | JNum int
  | JReal "int \<times> int"
  | JStr string
  | JArr "json list"
  | JObj "(string \<times> json) list"

text \<open>A response as the client meets it: the status, the headers and the body, which is empty, text that
  is not JSON, or a JSON value.\<close>

datatype body = EmptyBody | NotJson | Json json

record response =
  resp_status :: int
  resp_headers :: "(string \<times> string) list"
  resp_body :: body

section \<open>Errors\<close>

record api_error =
  Status :: int
  Code :: string
  Message :: string
  Details :: "(string \<times> json) list"

definition NewError :: "int \<Rightarrow> string \<Rightarrow> string \<Rightarrow> api_error" where
  "NewError st c m = \<lparr>Status = st, Code = c, Message = m, Details = []\<rparr>"

definition NewErrorWithDetails :: "int \<Rightarrow> string \<Rightarrow> string \<Rightarrow> (string \<times> json) list \<Rightarrow> api_error" where
  "NewErrorWithDetails st c m d = \<lparr>Status = st, Code = c, Message = m, Details = d\<rparr>"

text \<open>A Go \<open>error\<close> value: one of ours, or anything else.\<close>

datatype go_error = Api api_error | OtherError string

definition LoginLocked :: "int \<Rightarrow> api_error" where
  "LoginLocked retryAfterSec =
     NewErrorWithDetails 429 ''LOGIN_LOCKED'' ''too many attempts, retry later''
       [(''retryAfterSec'', JNum retryAfterSec)]"

datatype sentinel =
    ErrInvalidInstall
  | ErrDeviceProofRequired
  | ErrDeviceProofInvalid
  | ErrDeviceProofNonceInvalid
  | ErrDeviceProofReplayed
  | ErrAccountBanned
  | ErrRateLimited
  | ErrRequestBodyTooLarge
  | ErrQuotaExhausted
  | ErrUpstreamBusy
  | ErrBudgetExhausted
  | ErrBadRequest
  | ErrUpstreamError
  | ErrUpstreamTimeout
  | ErrMultimodalUnavailable
  | ErrAudioUnavailable
  | ErrSpeechUnavailable
  | ErrMediaUnavailable
  | ErrImageUnavailable
  | ErrImageSourceInvalid
  | ErrVideoFrameInvalid
  | ErrVoiceUnavailable
  | ErrVoiceSampleInvalid
  | ErrVoiceInventoryFull
  | ErrVoiceNameTaken
  | ErrVoiceCapacityReached
  | ErrVoiceNotFound
  | ErrImageQuotaExhausted
  | ErrTTSUnavailable
  | ErrTTSQuotaExhausted
  | ErrVideoUnavailable
  | ErrVideoQuotaExhausted
  | ErrVoiceQuotaExhausted
  | ErrVideoTaskNotFound
  | ErrMediaUploadInvalid
  | ErrMediaUploadNotFound
  | ErrMediaLeaseNotFound
  | ErrMediaUploadConflict
  | ErrMediaIntegrityFailed
  | ErrInstallRateLimited
  | ErrInstallCapReached
  | ErrInstallFPLimited
  | ErrInstallPoWRequired
  | ErrInstallPoWInvalid
  | ErrDiskLow
  | ErrQuotaResetBusy

fun sentinel_error :: "sentinel \<Rightarrow> api_error" where
  "sentinel_error ErrInvalidInstall = NewError 401 ''INVALID_INSTALL''
     (''missing or invalid install id'')"
| "sentinel_error ErrDeviceProofRequired = NewError 401 ''DEVICE_PROOF_REQUIRED''
     (''device proof is required'')"
| "sentinel_error ErrDeviceProofInvalid = NewError 401 ''DEVICE_PROOF_INVALID''
     (''device proof is invalid'')"
| "sentinel_error ErrDeviceProofNonceInvalid = NewError 401 ''DEVICE_PROOF_NONCE_INVALID''
     (''device proof challenge expired; fetch a fresh challenge'')"
| "sentinel_error ErrDeviceProofReplayed = NewError 409 ''DEVICE_PROOF_REPLAYED''
     (''device proof was already used'')"
| "sentinel_error ErrAccountBanned = NewError 403 ''ACCOUNT_BANNED''
     (''this install has been disabled'')"
| "sentinel_error ErrRateLimited = NewError 429 ''RATE_LIMITED''
     (''rate or daily sub-limit exceeded'')"
| "sentinel_error ErrRequestBodyTooLarge = NewError 413 ''REQUEST_BODY_TOO_LARGE''
     (''request body exceeds the configured size limit'')"
| "sentinel_error ErrQuotaExhausted = NewError 429 ''QUOTA_EXHAUSTED''
     (''monthly free-tier quota exhausted'')"
| "sentinel_error ErrUpstreamBusy = NewError 429 ''UPSTREAM_BUSY''
     (''upstream capacity is busy, retry shortly'')"
| "sentinel_error ErrBudgetExhausted = NewError 402 ''BUDGET_EXHAUSTED''
     (''daily service budget reached, try again tomorrow'')"
| "sentinel_error ErrBadRequest = NewError 400 ''BAD_REQUEST''
     (''invalid request body'')"
| "sentinel_error ErrUpstreamError = NewError 502 ''UPSTREAM_ERROR''
     (''upstream model provider error'')"
| "sentinel_error ErrUpstreamTimeout = NewError 504 ''UPSTREAM_TIMEOUT''
     (''upstream model provider timeout'')"
| "sentinel_error ErrMultimodalUnavailable = NewError 503 ''MULTIMODAL_UNAVAILABLE''
     (''multimodal input is unavailable on this deployment'')"
| "sentinel_error ErrAudioUnavailable = NewError 503 ''AUDIO_UNAVAILABLE''
     (''audio input is not available on this deployment'')"
| "sentinel_error ErrSpeechUnavailable = NewError 503 ''SPEECH_UNAVAILABLE''
     (''speech transcription is not available on this deployment'')"
| "sentinel_error ErrMediaUnavailable = NewError 503 ''MEDIA_UNAVAILABLE''
     (''durable media upload is not enabled on this deployment'')"
| "sentinel_error ErrImageUnavailable = NewError 503 ''IMAGE_UNAVAILABLE''
     (''image generation is not available on this deployment'')"
| "sentinel_error ErrImageSourceInvalid = NewError 400 ''IMAGE_SOURCE_INVALID''
     (''the edit source must be a base64 data URL, not an address'')"
| "sentinel_error ErrVideoFrameInvalid = NewError 400 ''VIDEO_FRAME_INVALID''
     (''the first frame must be a base64 data URL, not an address'')"
| "sentinel_error ErrVoiceUnavailable = NewError 503 ''VOICE_UNAVAILABLE''
     (''voice cloning is not available on this deployment'')"
| "sentinel_error ErrVoiceSampleInvalid = NewError 400 ''VOICE_SAMPLE_INVALID''
     (''the voice sample must be a base64 data URL, not an address'')"
| "sentinel_error ErrVoiceInventoryFull = NewError 409 ''VOICE_INVENTORY_FULL''
     (''voice inventory is full '' @ bytes [226, 128, 148] @ '' delete a voice to make room'')"
| "sentinel_error ErrVoiceNameTaken = NewError 409 ''VOICE_NAME_TAKEN''
     (''a voice with this name already exists '' @ bytes [226, 128, 148] @ '' delete it first'')"
| "sentinel_error ErrVoiceCapacityReached = NewError 503 ''VOICE_CAPACITY_REACHED''
     (''the service cannot register new voices right now'')"
| "sentinel_error ErrVoiceNotFound = NewError 404 ''VOICE_NOT_FOUND''
     (''voice not found'')"
| "sentinel_error ErrImageQuotaExhausted = NewError 429 ''IMAGE_QUOTA_EXHAUSTED''
     (''daily image generation quota reached, try again tomorrow'')"
| "sentinel_error ErrTTSUnavailable = NewError 503 ''TTS_UNAVAILABLE''
     (''speech synthesis is not available on this deployment'')"
| "sentinel_error ErrTTSQuotaExhausted = NewError 429 ''TTS_QUOTA_EXHAUSTED''
     (''daily speech synthesis quota reached, try again tomorrow'')"
| "sentinel_error ErrVideoUnavailable = NewError 503 ''VIDEO_UNAVAILABLE''
     (''video generation is not available on this deployment'')"
| "sentinel_error ErrVideoQuotaExhausted = NewError 429 ''VIDEO_QUOTA_EXHAUSTED''
     (''daily video generation quota reached, try again tomorrow'')"
| "sentinel_error ErrVoiceQuotaExhausted = NewError 429 ''VOICE_QUOTA_EXHAUSTED''
     (''daily voice enrollment quota reached, try again tomorrow'')"
| "sentinel_error ErrVideoTaskNotFound = NewError 404 ''VIDEO_TASK_NOT_FOUND''
     (''video task was not found'')"
| "sentinel_error ErrMediaUploadInvalid = NewError 400 ''MEDIA_UPLOAD_INVALID''
     (''invalid media upload request'')"
| "sentinel_error ErrMediaUploadNotFound = NewError 404 ''MEDIA_UPLOAD_NOT_FOUND''
     (''media upload was not found'')"
| "sentinel_error ErrMediaLeaseNotFound = NewError 404 ''MEDIA_LEASE_NOT_FOUND''
     (''media lease was not found'')"
| "sentinel_error ErrMediaUploadConflict = NewError 409 ''MEDIA_UPLOAD_CONFLICT''
     (''media upload is not writable in its current state'')"
| "sentinel_error ErrMediaIntegrityFailed = NewError 422 ''MEDIA_INTEGRITY_FAILED''
     (''media upload failed integrity verification'')"
| "sentinel_error ErrInstallRateLimited = NewError 429 ''INSTALL_RATE_LIMITED''
     (''too many installs from this address, retry later'')"
| "sentinel_error ErrInstallCapReached = NewError 429 ''INSTALL_CAP_REACHED''
     (''install issuance is temporarily at capacity, retry later'')"
| "sentinel_error ErrInstallFPLimited = NewError 429 ''INSTALL_FP_LIMITED''
     (''too many installs for this client, retry later'')"
| "sentinel_error ErrInstallPoWRequired = NewError 403 ''INSTALL_POW_REQUIRED''
     (''proof-of-work is required: solve GET /v1/install/challenge and resubmit with X-PoW'')"
| "sentinel_error ErrInstallPoWInvalid = NewError 403 ''INSTALL_POW_INVALID''
     (''invalid proof-of-work: fetch a fresh challenge from GET /v1/install/challenge and retry'')"
| "sentinel_error ErrDiskLow = NewError 503 ''DISK_LOW''
     (''service temporarily read-only: low disk space'')"
| "sentinel_error ErrQuotaResetBusy = NewError 409 ''QUOTA_RESET_BUSY''
     (''quota reset is waiting for active requests to settle'')"

definition UpstreamRejected :: "string \<Rightarrow> api_error" where
  "UpstreamRejected reason =
     NewErrorWithDetails 400 ''UPSTREAM_REJECTED''
       ''upstream rejected the request: reduce input size or max_tokens, or fix request parameters''
       [(''reason'', JStr reason)]"

definition InternalError :: api_error where
  "InternalError = NewError 500 ''INTERNAL'' ''internal error''"

definition RetryAfterSeconds :: "api_error \<Rightarrow> (int \<times> string) option" where
  "RetryAfterSeconds e =
     (case map_of (Details e) ''retryAfterSec'' of
        Some (JNum n) \<Rightarrow> Some (n, itoa n)
      | _ \<Rightarrow> None)"

section \<open>Rendering\<close>

definition WriteJSON :: "int \<Rightarrow> json \<Rightarrow> response" where
  "WriteJSON st v =
     \<lparr>resp_status = st, resp_headers = [(''Content-Type'', ''application/json'')], resp_body = Json v\<rparr>"

definition writeAPIError :: "api_error \<Rightarrow> response" where
  "writeAPIError e =
     \<lparr>resp_status = Status e,
      resp_headers = (case RetryAfterSeconds e of None \<Rightarrow> [] | Some (_, h) \<Rightarrow> [(''Retry-After'', h)]) @
        [(''Content-Type'', ''application/json'')],
      resp_body = Json (JObj [(''error'', JObj ([(''code'', JStr (Code e)), (''message'', JStr (Message e))] @
        (if Details e = [] then [] else [(''details'', JObj (Details e))])))])\<rparr>"

definition WriteError :: "go_error \<Rightarrow> response" where
  "WriteError err = writeAPIError (case err of Api e \<Rightarrow> e | OtherError _ \<Rightarrow> InternalError)"

definition WriteErrorWith :: "int \<Rightarrow> string \<Rightarrow> string \<Rightarrow> response" where
  "WriteErrorWith st c m = writeAPIError (NewError st c m)"

text \<open>Every sentinel is a client or server error.\<close>

lemma sentinel_status: "400 \<le> Status (sentinel_error a) \<and> Status (sentinel_error a) < 600"
  by (cases a) (simp_all add: NewError_def)

end
