(* ===== verification/Civil.thy ===== *)
theory Civil
  imports Wire
begin

text \<open>
  The part of Go's \<open>time\<close> package the gateway uses for its accounting buckets: the civil date of an
  instant in a location, the formats \<open>2006-01\<close>, \<open>2006-01-02\<close> and \<open>2006-01-02T15\<close>, and the start of
  the following month. Instants are seconds since the epoch. A location carries the two functions
  the time-zone database gives for it.
\<close>

record location =
  offset_at :: "int \<Rightarrow> int"
  to_instant :: "int \<Rightarrow> int"

definition utc :: location where
  "utc = \<lparr>offset_at = (\<lambda>_. 0), to_instant = (\<lambda>l. l)\<rparr>"

definition fixed_zone :: "int \<Rightarrow> location" where
  "fixed_zone off = \<lparr>offset_at = (\<lambda>_. off), to_instant = (\<lambda>l. l - off)\<rparr>"

definition local_seconds :: "location \<Rightarrow> int \<Rightarrow> int" where
  "local_seconds loc t = t + offset_at loc t"

text \<open>Days since the epoch to year, month and day in the proleptic Gregorian calendar.\<close>

definition civil_of_days :: "int \<Rightarrow> int \<times> int \<times> int" where
  "civil_of_days z =
     (let z' = z + 719468;
          era = z' div 146097;
          doe = z' mod 146097;
          yoe = (doe - doe div 1460 + doe div 36524 - doe div 146096) div 365;
          doy = doe - (365 * yoe + yoe div 4 - yoe div 100);
          mp = (5 * doy + 2) div 153;
          d = doy - (153 * mp + 2) div 5 + 1;
          m = (if mp < 10 then mp + 3 else mp - 9);
          y = yoe + era * 400
      in (if m \<le> 2 then y + 1 else y, m, d))"

definition days_of_civil :: "int \<Rightarrow> int \<Rightarrow> int \<Rightarrow> int" where
  "days_of_civil y m d =
     (let y' = (if m \<le> 2 then y - 1 else y);
          era = y' div 400;
          yoe = y' mod 400;
          mp = (if m > 2 then m - 3 else m + 9);
          doy = (153 * mp + 2) div 5 + d - 1;
          doe = yoe * 365 + yoe div 4 - yoe div 100 + doy
      in era * 146097 + doe - 719468)"

definition civil_at :: "location \<Rightarrow> int \<Rightarrow> int \<times> int \<times> int" where
  "civil_at loc t = civil_of_days (local_seconds loc t div 86400)"

definition hour_at :: "location \<Rightarrow> int \<Rightarrow> int" where
  "hour_at loc t = (local_seconds loc t mod 86400) div 3600"

fun pad :: "nat \<Rightarrow> string \<Rightarrow> string" where
  "pad n s = (if length s < n then replicate (n - length s) (CHR ''0'') @ s else s)"

definition FormatMonth :: "location \<Rightarrow> int \<Rightarrow> string" where
  "FormatMonth loc t = (let (y, m, d) = civil_at loc t in pad 4 (itoa y) @ ''-'' @ pad 2 (itoa m))"

definition FormatDay :: "location \<Rightarrow> int \<Rightarrow> string" where
  "FormatDay loc t = (let (y, m, d) = civil_at loc t in FormatMonth loc t @ ''-'' @ pad 2 (itoa d))"

definition FormatHour :: "location \<Rightarrow> int \<Rightarrow> string" where
  "FormatHour loc t = FormatDay loc t @ ''T'' @ pad 2 (itoa (hour_at loc t))"

text \<open>\<open>time.Date(y, m, 1, \<dots>).AddDate(0, 1, 0)\<close>: midnight of the first day of the next month.\<close>

definition next_month_start :: "location \<Rightarrow> int \<Rightarrow> int \<Rightarrow> int" where
  "next_month_start loc y m =
     to_instant loc (86400 * (if m = 12 then days_of_civil (y + 1) 1 1 else days_of_civil y (m + 1) 1))"

text \<open>\<open>ParseInLocation("2006-01", s)\<close>: four digits, a dash, two digits naming a month.\<close>

definition parse_month :: "string \<Rightarrow> (int \<times> int) option" where
  "parse_month s =
     (if length s = 7 \<and> s ! 4 = CHR ''-'' then
        (case (parse_uint (take 4 s), parse_uint (drop 5 s)) of
           (Some y, Some m) \<Rightarrow> if 1 \<le> m \<and> m \<le> 12 then Some (int y, int m) else None
         | _ \<Rightarrow> None)
      else None)"

end
