(* ===== verification/Quota_Service.thy ===== *)
theory Quota_Service
  imports Quota_Runs Apierr Civil
begin

text \<open>
  The accounting use case \<open>internal/app/quota/service.go\<close> over the store: the wire error of each
  denial, the quota view, and the period arithmetic of \<open>internal/domain/quota\<close>.
\<close>

section \<open>Periods\<close>

definition SnapshotPeriod :: "int \<Rightarrow> location \<Rightarrow> period" where
  "SnapshotPeriod now loc = \<lparr>Month = FormatMonth loc now, Day = FormatDay loc now\<rparr>"

text \<open>\<open>None\<close> is the zero time returned for a malformed month.\<close>

definition MonthResetAt :: "period \<Rightarrow> location \<Rightarrow> int option" where
  "MonthResetAt p loc =
     (case parse_month (Month p) of None \<Rightarrow> None | Some (y, m) \<Rightarrow> Some (next_month_start loc y m))"

section \<open>The service\<close>

definition category_wire :: "string \<Rightarrow> sentinel option" where
  "category_wire c =
     (if c = CategoryImage then Some ErrImageQuotaExhausted
      else if c = CategoryVideo then Some ErrVideoQuotaExhausted
      else if c = CategorySpeech then Some ErrTTSQuotaExhausted
      else if c = CategoryVoice then Some ErrVoiceQuotaExhausted
      else None)"

definition mapReserveErr :: "store_error \<Rightarrow> go_error" where
  "mapReserveErr err =
     (case err of
        ErrMonthlyExhausted \<Rightarrow> Api (sentinel_error ErrQuotaExhausted)
      | ErrSublimitExceeded \<Rightarrow> Api (sentinel_error ErrRateLimited)
      | ErrBudgetExceeded \<Rightarrow> Api (sentinel_error ErrBudgetExhausted)
      | CategoryDailyExceededError c \<Rightarrow>
          (case category_wire c of
             Some w \<Rightarrow> Api (sentinel_error w)
           | None \<Rightarrow> OtherError (''quota: per-category daily units exhausted: '' @ c))
      | _ \<Rightarrow> OtherError ''quota'')"

definition Service_Reserve ::
    "string \<Rightarrow> int \<Rightarrow> limits \<Rightarrow> string \<Rightarrow> plan \<Rightarrow> period \<Rightarrow> db \<Rightarrow> go_error + (db \<times> reservation)" where
  "Service_Reserve rid now lim i pl p s =
     (case Reserve rid now i pl p lim s of
        Inl e \<Rightarrow> Inl (mapReserveErr e)
      | Inr res \<Rightarrow> Inr res)"

definition Service_Settle :: "int \<Rightarrow> reservation \<Rightarrow> int64 \<Rightarrow> db \<Rightarrow> go_error + db" where
  "Service_Settle now r actual s =
     (case Settle now r actual s of Inl e \<Rightarrow> Inl (OtherError ''quota'') | Inr s' \<Rightarrow> Inr s')"

definition Service_Rollback :: "int \<Rightarrow> reservation \<Rightarrow> db \<Rightarrow> go_error + db" where
  "Service_Rollback now r s =
     (case Rollback now r s of Inl e \<Rightarrow> Inl (OtherError ''quota'') | Inr s' \<Rightarrow> Inr s')"

record quota_view =
  Limit :: int64
  Used :: int64
  Remaining :: int64
  ResetAt :: "int option"
  Available :: bool

definition Service_View :: "location \<Rightarrow> limits \<Rightarrow> string \<Rightarrow> period \<Rightarrow> db \<Rightarrow> quota_view" where
  "Service_View loc lim i p s =
     (let (used, _, globalSpend) = View i p s;
          rem = wrap64 (MonthlyQuota lim - used);
          remaining = (if rem < 0 then 0 else rem)
      in \<lparr>Limit = MonthlyQuota lim, Used = used, Remaining = remaining,
          ResetAt = MonthResetAt p loc,
          Available = (remaining > 0 \<and> globalSpend < GlobalMonthlySpendPUSD lim)\<rparr>)"

definition Service_ReconcileOrphans :: "int \<Rightarrow> int \<Rightarrow> db \<Rightarrow> store_error option \<times> db \<times> nat" where
  "Service_ReconcileOrphans older now s = ReconcileOrphans now (now - older) s"

section \<open>What a client is told\<close>

text \<open>The plan's quote is positive and fits the wallet arithmetic.\<close>

lemma plan_quote:
  assumes "validatePlan pl = Inr ()"
  shows "0 < ReservedPUSD pl" "ReservedPUSD pl \<le> MaxInt64"
  using assms validatePlan_pos[of pl] Validate_bounds(2)[of pl]
  by (auto simp: validatePlan_def split: sum.splits)

lemma wallet_guard_exact:
  assumes "validatePlan pl = Inr ()" "0 \<le> L" "L \<le> MaxInt64"
  shows "wrap64 (L - ReservedPUSD pl) = L - ReservedPUSD pl"
  using plan_quote[OF assms(1)] assms(2,3)
  by (intro wrap64_id) (simp add: is_int64_def MaxInt64_def MinInt64_def)

lemma count_nonneg:
  assumes "ledger_inv s"
  shows "0 \<le> count_at (quota_monthly s) k"
proof -
  have "0 \<le> row_sum (\<lambda>x. install_month x = k) open_one (spend_ledger s)"
    by (rule row_sum_nonneg) (simp add: open_one_def)
  also have "\<dots> \<le> count_at (quota_monthly s) k"
    using ledger_invD(5)[OF assms] by (simp add: month_bounds_def del: split_paired_All)
  finally show ?thesis .
qed

text \<open>The quota view never promises less than the truth of a denial: when it reports a request as
  unavailable, every reservation of that install in that period is refused, whatever it costs.\<close>

theorem unavailable_is_denied:
  assumes "\<not> Available (Service_View loc lim i p s)" and "db_reachable s"
    and "is_int64 (MonthlyQuota lim)" "0 \<le> MonthlyQuota lim"
    and "0 \<le> GlobalMonthlySpendPUSD lim" "GlobalMonthlySpendPUSD lim \<le> MaxInt64"
  shows "\<exists>e. Service_Reserve rid now lim i pl p s = Inl e"
proof (cases "Reserve rid now i pl p lim s")
  case (Inr res)
  then obtain s' r where r: "Reserve rid now i pl p lim s = Inr (s', r)" by (cases res) auto
  note eff = Reserve_effect[OF r]
  have f: "InstallID r = i" "Period r = p" "Plan r = pl" by (simp_all add: eff(1) new_reservation_def)
  have month: "count_at (quota_monthly s) (i, Month p) < MonthlyQuota lim"
    and wallet: "spend_at (global_spend_monthly s) (Month p) \<le> GlobalMonthlySpendPUSD lim - ReservedPUSD pl"
    using eff(4) wallet_guard_exact[OF eff(2) assms(5,6)] by (simp_all add: reserve_gates_def Let_def f)
  have nonneg: "0 \<le> count_at (quota_monthly s) (i, Month p)"
    using db_reachable_inv[OF assms(2)] by (rule count_nonneg)
  have "wrap64 (MonthlyQuota lim - count_at (quota_monthly s) (i, Month p)) =
      MonthlyQuota lim - count_at (quota_monthly s) (i, Month p)"
    using month nonneg assms(3) by (intro wrap64_id) (simp add: is_int64_def MinInt64_def MaxInt64_def)
  with month wallet plan_quote(1)[OF eff(2)] assms(1) show ?thesis
    by (simp add: Service_View_def View_def Let_def)
qed (simp add: Service_Reserve_def)

text \<open>The statements before the wallet gate neither report a budget denial nor move the wallet.\<close>

definition quiet :: "stmt \<Rightarrow> bool" where
  "quiet f \<longleftrightarrow> (\<forall>s. f s \<noteq> Inl ErrBudgetExceeded \<and>
     (\<forall>s'. f s = Inr s' \<longrightarrow> global_spend_monthly s' = global_spend_monthly s))"

lemma quiet_run:
  "list_all quiet fs \<Longrightarrow> run_tx fs s \<noteq> Inl ErrBudgetExceeded \<and>
     (\<forall>s'. run_tx fs s = Inr s' \<longrightarrow> global_spend_monthly s' = global_spend_monthly s)"
proof (induction fs arbitrary: s)
  case (Cons f fs)
  from Cons.prems have "quiet f" and fs: "list_all quiet fs" by simp_all
  then have f: "f s \<noteq> Inl ErrBudgetExceeded" "\<And>s'. f s = Inr s' \<Longrightarrow> global_spend_monthly s' = global_spend_monthly s"
    unfolding quiet_def by blast+
  show ?case
  proof (cases "f s")
    case (Inr s1)
    with Cons.IH[OF fs, of s1] f(2)[OF Inr] show ?thesis by simp
  qed (use f(1) in auto)
qed simp

lemma quiet_on_monthly:
  assumes "\<And>t. f t \<noteq> Inl ErrBudgetExceeded"
  shows "quiet (on_monthly f)"
proof -
  have "on_monthly f s \<noteq> Inl ErrBudgetExceeded \<and>
      (\<forall>s'. on_monthly f s = Inr s' \<longrightarrow> global_spend_monthly s' = global_spend_monthly s)" for s
    using assms[of "quota_monthly s"] by (cases "f (quota_monthly s)") (auto simp: on_monthly_def)
  then show ?thesis unfolding quiet_def by blast
qed

lemma quiet_on_install:
  assumes "\<And>t. f t \<noteq> Inl ErrBudgetExceeded"
  shows "quiet (on_install f)"
proof -
  have "on_install f s \<noteq> Inl ErrBudgetExceeded \<and>
      (\<forall>s'. on_install f s = Inr s' \<longrightarrow> global_spend_monthly s' = global_spend_monthly s)" for s
    using assms[of "install_spend_daily s"] by (cases "f (install_spend_daily s)") (auto simp: on_install_def)
  then show ?thesis unfolding quiet_def by blast
qed

lemma quiet_on_category:
  assumes "\<And>t. f t \<noteq> Inl ErrBudgetExceeded"
  shows "quiet (on_category f)"
proof -
  have "on_category f s \<noteq> Inl ErrBudgetExceeded \<and>
      (\<forall>s'. on_category f s = Inr s' \<longrightarrow> global_spend_monthly s' = global_spend_monthly s)" for s
    using assms[of "install_category_daily s"] by (cases "f (install_category_daily s)") (auto simp: on_category_def)
  then show ?thesis unfolding quiet_def by blast
qed

lemma quiet_on_provider:
  assumes "\<And>t. f t \<noteq> Inl ErrBudgetExceeded"
  shows "quiet (on_provider f)"
proof -
  have "on_provider f s \<noteq> Inl ErrBudgetExceeded \<and>
      (\<forall>s'. on_provider f s = Inr s' \<longrightarrow> global_spend_monthly s' = global_spend_monthly s)" for s
    using assms[of "provider_spend_daily s"] by (cases "f (provider_spend_daily s)") (auto simp: on_provider_def)
  then show ?thesis unfolding quiet_def by blast
qed

lemma quiet_on_global:
  assumes "\<And>t. f t \<noteq> Inl ErrBudgetExceeded"
  shows "quiet (on_global f)"
proof -
  have "on_global f s \<noteq> Inl ErrBudgetExceeded \<and>
      (\<forall>s'. on_global f s = Inr s' \<longrightarrow> global_spend_monthly s' = global_spend_monthly s)" for s
    using assms[of "global_spend_daily s"] by (cases "f (global_spend_daily s)") (auto simp: on_global_def)
  then show ?thesis unfolding quiet_def by blast
qed

lemmas quiet_on = quiet_on_monthly quiet_on_install quiet_on_category quiet_on_provider quiet_on_global

lemma not_budget:
  "upsert k x t \<noteq> Inl ErrBudgetExceeded"
  "e \<noteq> ErrBudgetExceeded \<Longrightarrow> update_one e k g u t \<noteq> Inl ErrBudgetExceeded"
  by (simp_all add: upsert_def update_one_def split: option.split)

lemma quiet_reserve:
  "list_all quiet (reserve_month i p lim @ reserve_install i v p @ reserve_sublimit i p lim @
     reserve_category i pl p lim @ reserve_provider pr v p @ reserve_global v p)"
proof -
  note q = quiet_on not_budget
  have "list_all quiet (reserve_month i p lim)" by (simp add: reserve_month_def q)
  moreover have "list_all quiet (reserve_install i v p)" by (simp add: reserve_install_def q)
  moreover have "list_all quiet (reserve_sublimit i p lim)" by (simp add: reserve_sublimit_def q)
  moreover have "list_all quiet (reserve_category i pl p lim)"
    by (cases "planCategory pl") (simp add: reserve_category_def Let_def q)
  moreover have "list_all quiet (reserve_provider pr v p)" by (simp add: reserve_provider_def q)
  moreover have "list_all quiet (reserve_global v p)" by (simp add: reserve_global_def q)
  ultimately show ?thesis by simp
qed

lemma Reserve_budget_denial:
  assumes "Reserve rid now i pl p lim s = Inl ErrBudgetExceeded"
  shows "spend_at (global_spend_monthly s) (Month p) > wrap64 (GlobalMonthlySpendPUSD lim - ReservedPUSD pl)"
proof -
  let ?r = "new_reservation rid i pl p lim" and ?v = "ReservedPUSD pl"
  let ?pre = "reserve_month i p lim @ reserve_install i ?v p @ reserve_sublimit i p lim @
     reserve_category i pl p lim @ reserve_provider (Provider pl) ?v p @ reserve_global ?v p"
  have f: "InstallID ?r = i" "Period ?r = p" "Plan ?r = pl" by (simp_all add: new_reservation_def)
  have tx: "reserve_tx ?r lim now = ?pre @ reserve_wallet ?v p lim @ [ledger_insert (open_row ?r now)]"
    by (simp add: reserve_tx_def f Let_def)
  note q = quiet_run[OF quiet_reserve[of i p lim ?v pl "Provider pl"], of s]
  from assms have "run_tx (reserve_tx ?r lim now) s = Inl ErrBudgetExceeded"
    by (auto simp: Reserve_def Let_def rbind_Inl_iff validatePlan_def split: sum.splits if_splits)
  then obtain s1 where s1: "run_tx ?pre s = Inr s1"
    and w: "run_tx (reserve_wallet ?v p lim @ [ledger_insert (open_row ?r now)]) s1 = Inl ErrBudgetExceeded"
    using q unfolding tx run_tx_append[of ?pre] by (auto simp: rbind_Inl_iff)
  then have "run_tx (reserve_wallet ?v p lim) s1 = Inl ErrBudgetExceeded"
    by (auto simp: run_tx_append rbind_Inl_iff ledger_insert_def split: if_splits)
  moreover have "global_spend_monthly s1 = global_spend_monthly s" using q s1 by blast
  ultimately show ?thesis by (simp add: reserve_wallet_run split: if_splits)
qed

text \<open>The budget denial outlives the day it speaks of. A reservation refused for the operator's budget
  carries the message "daily service budget reached, try again tomorrow", but the gate is the monthly
  wallet: on every other day of the same month, with the balances as they are, the same request is
  refused again.\<close>

theorem budget_denial_is_monthly:
  assumes "Service_Reserve rid now lim i pl p s = Inl (Api (sentinel_error ErrBudgetExhausted))"
    and "Month p' = Month p"
  shows "(\<exists>e. Service_Reserve rid' now' lim i pl p' s = Inl e) \<and>
    Message (sentinel_error ErrBudgetExhausted) = ''daily service budget reached, try again tomorrow''"
proof -
  from assms(1) have den: "Reserve rid now i pl p lim s = Inl ErrBudgetExceeded"
    by (auto simp: Service_Reserve_def mapReserveErr_def category_wire_def NewError_def
        split: sum.splits store_error.splits option.splits if_splits)
  have "\<exists>e. Reserve rid' now' i pl p' lim s = Inl e"
  proof (cases "Reserve rid' now' i pl p' lim s")
    case (Inr res)
    then obtain s' r where "Reserve rid' now' i pl p' lim s = Inr (s', r)" by (cases res) auto
    note eff = Reserve_effect[OF this]
    have f: "Period r = p'" "Plan r = pl" by (simp_all add: eff(1) new_reservation_def)
    have "spend_at (global_spend_monthly s) (Month p) \<le> wrap64 (GlobalMonthlySpendPUSD lim - ReservedPUSD pl)"
      using eff(4) assms(2) by (simp add: reserve_gates_def Let_def f)
    then show ?thesis using Reserve_budget_denial[OF den] by simp
  qed simp
  then show ?thesis by (auto simp: Service_Reserve_def NewError_def)
qed

end
