(* ===== verification/Install.thy ===== *)
theory Install
  imports Civil
begin

text \<open>
  Install issuance: the domain values of \<open>internal/domain/install\<close>, the store of
  \<open>internal/infra/store/installstore/installstore.go\<close> (identity rows and the three rate buckets) and
  the use case of \<open>internal/app/install/service.go\<close>. SHA-256 and the id generator are arguments.
\<close>

section \<open>Domain values\<close>

definition StatusActive :: string where "StatusActive = ''active''"
definition StatusBanned :: string where "StatusBanned = ''banned''"

definition MaxFingerprintLen :: nat where "MaxFingerprintLen = 256"
definition MaxClientLen :: nat where "MaxClientLen = 128"

record install_request =
  req_Fingerprint :: string
  req_Client :: string

definition NewRequest :: "string \<Rightarrow> string \<Rightarrow> install_request" where
  "NewRequest fingerprint client =
     \<lparr>req_Fingerprint = take MaxFingerprintLen (TrimSpace fingerprint),
      req_Client = take MaxClientLen (TrimSpace client)\<rparr>"

record ip_gate =
  ip_Enabled :: bool
  ip_Key :: string
  WindowHour :: string
  ip_Max :: int64

record global_gate =
  global_Enabled :: bool
  global_WindowDay :: string
  global_Cap :: int64

record fp_gate =
  fp_Enabled :: bool
  FPSHA256 :: string
  fp_WindowDay :: string
  fp_Cap :: int64
  Cutoff :: int

record issue_params =
  p_InstallID :: string
  p_PublicKey :: string
  p_Thumbprint :: string
  p_Fingerprint :: string
  p_Client :: string
  p_Now :: int
  IPGate :: ip_gate
  GlobalGate :: global_gate
  FPGate :: fp_gate

datatype gate = GateNone | GateIP | GateGlobal | GateFP

record issue_result =
  Admitted :: bool
  res_Gate :: gate
  res_InstallID :: string
  Existing :: bool

section \<open>The store\<close>

record install_row =
  ins_id :: string
  public_key :: string
  key_thumbprint :: string
  fingerprint :: "string option"
  client :: "string option"
  ins_status :: string
  install_created_at :: int
  last_seen_at :: int

record install_db =
  installs :: "install_row list"
  install_ip_rate :: "(string \<times> string, int64) table"
  install_global_rate :: "(string, int64) table"
  install_fp_rate :: "(string \<times> string, int64 \<times> int) table"

definition empty_install_db :: install_db where
  "empty_install_db = \<lparr>installs = [], install_ip_rate = [], install_global_rate = [], install_fp_rate = []\<rparr>"

text \<open>SQLite compares text bytewise.\<close>

fun str_less :: "string \<Rightarrow> string \<Rightarrow> bool" where
  "str_less [] ys = (ys \<noteq> [])"
| "str_less (x # xs) [] = False"
| "str_less (x # xs) (y # ys) =
     (if x = y then str_less xs ys else (of_char x :: nat) < of_char y)"

text \<open>A conditional bump: the row's count grows by one while it is below the cap.\<close>

definition bump :: "'k \<Rightarrow> int64 \<Rightarrow> ('k, int64) table \<Rightarrow> ('k, int64) table option" where
  "bump k cap t =
     (case tget t k of
        None \<Rightarrow> None
      | Some n \<Rightarrow> if n < cap then Some (tput k (n + 1) t) else None)"

definition bumpIPRate :: "ip_gate \<Rightarrow> install_db \<Rightarrow> install_db option" where
  "bumpIPRate g s =
     (let kept = filter (\<lambda>e. \<not> (fst (fst e) = ip_Key g \<and> str_less (snd (fst e)) (WindowHour g)))
                   (install_ip_rate s);
          k = (ip_Key g, WindowHour g)
      in map_option (\<lambda>t. s\<lparr>install_ip_rate := t\<rparr>) (bump k (ip_Max g) (insert_ignore k 0 kept)))"

definition bumpGlobalRate :: "global_gate \<Rightarrow> install_db \<Rightarrow> install_db option" where
  "bumpGlobalRate g s =
     (let kept = filter (\<lambda>e. \<not> str_less (fst e) (global_WindowDay g)) (install_global_rate s);
          k = global_WindowDay g
      in map_option (\<lambda>t. s\<lparr>install_global_rate := t\<rparr>) (bump k (global_Cap g) (insert_ignore k 0 kept)))"

definition bumpFPRate :: "fp_gate \<Rightarrow> install_db \<Rightarrow> install_db option" where
  "bumpFPRate g s =
     (let kept = filter (\<lambda>e. \<not> (fst (fst e) = FPSHA256 g \<and> str_less (snd (fst e)) (fp_WindowDay g)))
                   (install_fp_rate s);
          k = (FPSHA256 g, fp_WindowDay g)
      in case tget kept k of
           None \<Rightarrow> Some (s\<lparr>install_fp_rate := tput k (1, Cutoff g) kept\<rparr>)
         | Some (n, last_at) \<Rightarrow>
             if n < fp_Cap g \<and> last_at < Cutoff g
             then Some (s\<lparr>install_fp_rate := tput k (n + 1, Cutoff g) kept\<rparr>)
             else None)"

definition nullStr :: "string \<Rightarrow> string option" where
  "nullStr s = (if s = [] then None else Some s)"

definition insertInstall :: "string \<Rightarrow> issue_params \<Rightarrow> install_db \<Rightarrow> install_db option" where
  "insertInstall i p s =
     (if i \<in> set (map ins_id (installs s)) \<or> p_Thumbprint p \<in> set (map key_thumbprint (installs s))
      then None
      else Some (s\<lparr>installs := installs s @
        [\<lparr>ins_id = i, public_key = p_PublicKey p, key_thumbprint = p_Thumbprint p,
          fingerprint = nullStr (p_Fingerprint p), client = nullStr (p_Client p),
          ins_status = StatusActive, install_created_at = p_Now p, last_seen_at = p_Now p\<rparr>]\<rparr>))"

definition gate_step :: "bool \<Rightarrow> (install_db \<Rightarrow> install_db option) \<Rightarrow> gate \<Rightarrow> install_db \<Rightarrow> gate + install_db" where
  "gate_step enabled f g s =
     (if enabled then (case f s of None \<Rightarrow> Inl g | Some s' \<Rightarrow> Inr s') else Inr s)"

text \<open>The three gates in their fixed order; a reject names the gate that tripped.\<close>

definition run_gates :: "issue_params \<Rightarrow> install_db \<Rightarrow> gate + install_db" where
  "run_gates p s =
     rbind (gate_step (ip_Enabled (IPGate p)) (bumpIPRate (IPGate p)) GateIP s)
       (\<lambda>s. rbind (gate_step (global_Enabled (GlobalGate p)) (bumpGlobalRate (GlobalGate p)) GateGlobal s)
          (gate_step (fp_Enabled (FPGate p)) (bumpFPRate (FPGate p)) GateFP))"

text \<open>
  One issuance transaction. \<open>fresh\<close> is the second id of the generator, drawn when the first one
  collides; a second collision is an error. A gate reject or an error rolls everything back.
\<close>

definition store_Issue ::
    "string \<Rightarrow> issue_params \<Rightarrow> install_db \<Rightarrow> (issue_result option) \<times> install_db" where
  "store_Issue fresh p s =
     (case find (\<lambda>x. key_thumbprint x = p_Thumbprint p) (installs s) of
        Some x \<Rightarrow> (Some \<lparr>Admitted = True, res_Gate = GateNone, res_InstallID = ins_id x, Existing = True\<rparr>, s)
      | None \<Rightarrow>
          (case run_gates p s of
             Inl g \<Rightarrow> (Some \<lparr>Admitted = False, res_Gate = g, res_InstallID = [], Existing = False\<rparr>, s)
           | Inr s1 \<Rightarrow>
               let ok = (\<lambda>i. \<lparr>Admitted = True, res_Gate = GateNone, res_InstallID = i, Existing = False\<rparr>)
               in case insertInstall (p_InstallID p) p s1 of
                    Some s2 \<Rightarrow> (Some (ok (p_InstallID p)), s2)
                  | None \<Rightarrow>
                      (case insertInstall fresh p s1 of
                         Some s2 \<Rightarrow> (Some (ok fresh), s2)
                       | None \<Rightarrow> (None, s))))"

definition Lookup_install :: "string \<Rightarrow> install_db \<Rightarrow> string option" where
  "Lookup_install i s = map_option ins_status (find (\<lambda>x. ins_id x = i) (installs s))"

definition store_PublicKey :: "string \<Rightarrow> install_db \<Rightarrow> string option" where
  "store_PublicKey i s = map_option public_key (find (\<lambda>x. ins_id x = i) (installs s))"

definition RefreshLastSeen :: "string \<Rightarrow> int \<Rightarrow> int \<Rightarrow> install_db \<Rightarrow> install_db" where
  "RefreshLastSeen i now interval s =
     s\<lparr>installs := map (\<lambda>x. if ins_id x = i \<and> last_seen_at x < now - interval
                            then x\<lparr>last_seen_at := now\<rparr> else x) (installs s)\<rparr>"

definition store_InstallsToday :: "string \<Rightarrow> install_db \<Rightarrow> int64" where
  "store_InstallsToday day s = (case tget (install_global_rate s) day of None \<Rightarrow> 0 | Some n \<Rightarrow> n)"

text \<open>The dashboard's ban and unban (\<open>bootstrap/dashstore.go\<close>).\<close>

definition SetStatus :: "string \<Rightarrow> string \<Rightarrow> install_db \<Rightarrow> bool \<times> install_db" where
  "SetStatus i st s =
     (\<exists>x \<in> set (installs s). ins_id x = i,
      s\<lparr>installs := map (\<lambda>x. if ins_id x = i then x\<lparr>ins_status := st\<rparr> else x) (installs s)\<rparr>)"

section \<open>The use case\<close>

record install_config =
  InstallPerIPHour :: int64
  InstallGlobalDailyCap :: int64
  InstallPerFPDaily :: int64
  InstallPerFPCooldownSec :: int64
  Location :: location

definition fpDailyCapDisabledSentinel :: int64 where "fpDailyCapDisabledSentinel = 2 ^ 62"

definition LastSeenRefreshInterval :: int where "LastSeenRefreshInterval = 600"
definition lastSeenMapPruneAt :: nat where "lastSeenMapPruneAt = 4096"

definition globalGate :: "install_config \<Rightarrow> int \<Rightarrow> global_gate" where
  "globalGate cfg now =
     (if InstallGlobalDailyCap cfg \<le> 0
      then \<lparr>global_Enabled = False, global_WindowDay = [], global_Cap = 0\<rparr>
      else \<lparr>global_Enabled = True, global_WindowDay = FormatDay (Location cfg) now,
             global_Cap = InstallGlobalDailyCap cfg\<rparr>)"

text \<open>\<open>AddDate(1000, 0, 0)\<close>: the same month, day and time of day, a thousand years on (UTC); a 29
  February that the target year lacks becomes 1 March. \<close>

definition add_years :: "int \<Rightarrow> int \<Rightarrow> int" where
  "add_years n now =
     (let (y, m, d) = civil_of_days (now div 86400)
      in 86400 * (days_of_civil (y + n) m 1 + d - 1) + now mod 86400)"

definition fpGate :: "(string \<Rightarrow> string) \<Rightarrow> install_config \<Rightarrow> string \<Rightarrow> int \<Rightarrow> fp_gate" where
  "fpGate hash cfg fp now =
     (let dailyCap = InstallPerFPDaily cfg; cooldown = InstallPerFPCooldownSec cfg
      in if (dailyCap \<le> 0 \<and> cooldown \<le> 0) \<or> fp = []
         then \<lparr>fp_Enabled = False, FPSHA256 = [], fp_WindowDay = [], fp_Cap = 0, Cutoff = 0\<rparr>
         else \<lparr>fp_Enabled = True, FPSHA256 = hash fp, fp_WindowDay = FormatDay (Location cfg) now,
                fp_Cap = (if dailyCap > 0 then dailyCap else fpDailyCapDisabledSentinel),
                Cutoff = (if cooldown > 0 then now - cooldown else add_years 1000 now)\<rparr>)"

definition issueParams ::
    "(string \<Rightarrow> string) \<Rightarrow> install_config \<Rightarrow> string \<Rightarrow> int \<Rightarrow> install_request \<Rightarrow> string \<Rightarrow> string \<Rightarrow> string \<Rightarrow>
      issue_params" where
  "issueParams hash cfg i now req key thumbprint ipKey =
     \<lparr>p_InstallID = i, p_PublicKey = key, p_Thumbprint = thumbprint,
      p_Fingerprint = req_Fingerprint req, p_Client = req_Client req, p_Now = now,
      IPGate = \<lparr>ip_Enabled = (InstallPerIPHour cfg > 0), ip_Key = ipKey,
                 WindowHour = FormatHour (Location cfg) now, ip_Max = InstallPerIPHour cfg\<rparr>,
      GlobalGate = globalGate cfg now,
      FPGate = fpGate hash cfg (req_Fingerprint req) now\<rparr>"

datatype install_error = InstallRateLimited | InstallCapReached | InstallFPLimited | InstallInternal

definition gateError :: "gate \<Rightarrow> install_error" where
  "gateError g = (case g of GateIP \<Rightarrow> InstallRateLimited | GateGlobal \<Rightarrow> InstallCapReached
     | GateFP \<Rightarrow> InstallFPLimited | GateNone \<Rightarrow> InstallInternal)"

text \<open>The state of the service: the store, the in-process throttle map and the created counter.\<close>

record install_service =
  store :: install_db
  lastSeen :: "(string, int) table"
  created :: nat

definition Issue ::
    "(string \<Rightarrow> string) \<Rightarrow> install_config \<Rightarrow> string \<times> string \<Rightarrow> int \<Rightarrow> install_request \<Rightarrow> string \<Rightarrow> string \<Rightarrow>
      string \<Rightarrow> install_service \<Rightarrow> (gate \<times> install_error + string) \<times> install_service" where
  "Issue hash cfg ids now req key thumbprint ipKey s =
     (let p = issueParams hash cfg (fst ids) now req key thumbprint ipKey
      in case store_Issue (snd ids) p (store s) of
           (None, _) \<Rightarrow> (Inl (GateNone, InstallInternal), s)
         | (Some res, t) \<Rightarrow>
             if \<not> Admitted res then (Inl (res_Gate res, gateError (res_Gate res)), s\<lparr>store := t\<rparr>)
             else (Inr (res_InstallID res),
                   s\<lparr>store := t, created := (if Existing res then created s else created s + 1)\<rparr>))"

definition shouldRefresh :: "string \<Rightarrow> int \<Rightarrow> (string, int) table \<Rightarrow> bool \<times> (string, int) table" where
  "shouldRefresh i now seen =
     (case tget seen i of
        Some last_at \<Rightarrow>
          if now - last_at < LastSeenRefreshInterval then (False, seen)
          else (True, tput i now (if length seen \<ge> lastSeenMapPruneAt
                 then filter (\<lambda>e. \<not> now - snd e \<ge> LastSeenRefreshInterval) seen else seen))
      | None \<Rightarrow> (True, tput i now (if length seen \<ge> lastSeenMapPruneAt
                 then filter (\<lambda>e. \<not> now - snd e \<ge> LastSeenRefreshInterval) seen else seen)))"

text \<open>The authenticator the paid capabilities use: the stored id and status, with a throttled
  last-seen write.\<close>

definition LookupInstall ::
    "int \<Rightarrow> string \<Rightarrow> install_service \<Rightarrow> (string \<times> string) option \<times> install_service" where
  "LookupInstall now i s =
     (if i = [] then (None, s)
      else case Lookup_install i (store s) of
             None \<Rightarrow> (None, s)
           | Some st \<Rightarrow>
               let (refresh, seen) = shouldRefresh i now (lastSeen s)
               in (Some (i, st),
                   s\<lparr>lastSeen := seen,
                     store := (if refresh then RefreshLastSeen i now LastSeenRefreshInterval (store s)
                               else store s)\<rparr>))"

end
