(* ===== verification/Genrun.thy ===== *)
theory Genrun
  imports Quota_Service Install
begin

text \<open>
  The skeleton every paid capability walks (\<open>internal/app/genrun/genrun.go\<close>): authorize, reserve, call
  the provider, settle or roll back, under the context of the request, which may have ended by then. The wallet is a port; the interface \<open>wallet\<close> states what the
  skeleton relies on, and the accounting service over the spend ledger provides it.
\<close>

section \<open>The ports\<close>

record 'w quota_port =
  q_snapshot :: "int \<Rightarrow> period"
  q_reserve :: "string \<Rightarrow> plan \<Rightarrow> period \<Rightarrow> 'w \<Rightarrow> go_error + ('w \<times> reservation)"
  q_settle :: "reservation \<Rightarrow> int64 \<Rightarrow> 'w \<Rightarrow> go_error + 'w"
  q_rollback :: "reservation \<Rightarrow> 'w \<Rightarrow> go_error + 'w"

text \<open>A nil port is \<open>None\<close>. The authenticator answers id, status and found; the limiter's answer to a
  key is its state at the moment of the call; the clock is its current reading.\<close>

record 'w runner =
  auth :: "(string \<Rightarrow> go_error + (string \<times> string \<times> bool)) option"
  rl :: "(string \<Rightarrow> bool) option"
  quota :: "'w quota_port option"
  clock :: "int option"
  has_config :: bool

record 'w run_state =
  world :: 'w
  settle_failures :: nat
  rollback_failures :: nat

definition Ready :: "'w runner \<Rightarrow> bool" where
  "Ready r \<longleftrightarrow> auth r \<noteq> None \<and> has_config r \<and> quota r \<noteq> None \<and> clock r \<noteq> None"

section \<open>The steps\<close>

definition Authorize :: "'w runner \<Rightarrow> string \<Rightarrow> api_error + string" where
  "Authorize r installID =
     (case auth r of
        None \<Rightarrow> Inl InternalError
      | Some look \<Rightarrow>
          if installID = [] then Inl (sentinel_error ErrInvalidInstall)
          else case look installID of
            Inl _ \<Rightarrow> Inl InternalError
          | Inr (got, st, found) \<Rightarrow>
              if \<not> found \<or> got = [] then Inl (sentinel_error ErrInvalidInstall)
              else if st = StatusBanned then Inl (sentinel_error ErrAccountBanned)
              else if (case rl r of None \<Rightarrow> False | Some allow \<Rightarrow> \<not> allow got)
              then Inl (sentinel_error ErrRateLimited)
              else Inr got)"

definition api_of :: "api_error \<Rightarrow> go_error \<Rightarrow> api_error" where
  "api_of dflt err = (case err of Api e \<Rightarrow> e | OtherError _ \<Rightarrow> dflt)"

definition Run_Reserve ::
    "'w runner \<Rightarrow> string \<Rightarrow> plan \<Rightarrow> 'w run_state \<Rightarrow> api_error + ('w run_state \<times> reservation)" where
  "Run_Reserve r installID pl s =
     (case (quota r, clock r) of
        (Some q, Some now) \<Rightarrow>
          (case q_reserve q installID pl (q_snapshot q now) (world s) of
             Inl err \<Rightarrow> Inl (api_of InternalError err)
           | Inr (w, res) \<Rightarrow> Inr (s\<lparr>world := w\<rparr>, res))
      | _ \<Rightarrow> Inl InternalError)"

text \<open>A close-out that fails is counted and leaves the wallet as it was; \<open>None\<close> is a nil reservation. \<open>gone\<close> says
  whether the context handed over has ended before the close-out commits: its transaction then fails.\<close>

definition context_gone :: go_error where
  "context_gone = OtherError ''context canceled''"

definition Run_Settle ::
    "'w quota_port \<Rightarrow> bool \<Rightarrow> reservation option \<Rightarrow> int64 \<Rightarrow> 'w run_state \<Rightarrow> go_error option \<times> 'w run_state" where
  "Run_Settle q gone res actual s =
     (case res of
        None \<Rightarrow> (None, s)
      | Some r \<Rightarrow>
          (case (if gone then Inl context_gone else q_settle q r actual (world s)) of
             Inl err \<Rightarrow> (Some err, s\<lparr>settle_failures := settle_failures s + 1\<rparr>)
           | Inr w \<Rightarrow> (None, s\<lparr>world := w\<rparr>)))"

definition Run_Rollback ::
    "'w quota_port \<Rightarrow> bool \<Rightarrow> reservation option \<Rightarrow> 'w run_state \<Rightarrow> go_error option \<times> 'w run_state" where
  "Run_Rollback q gone res s =
     (case res of
        None \<Rightarrow> (None, s)
      | Some r \<Rightarrow>
          (case (if gone then Inl context_gone else q_rollback q r (world s)) of
             Inl err \<Rightarrow> (Some err, s\<lparr>rollback_failures := rollback_failures s + 1\<rparr>)
           | Inr w \<Rightarrow> (None, s\<lparr>world := w\<rparr>)))"

record charge =
  ch_Plan :: plan
  Class :: input_class
  Units :: int64

text \<open>
  One synchronous paid call. \<open>env\<close> is what the other requests do to the wallet while the provider
  works; \<open>gone\<close> says whether the context of the request ends before the close-out, which uses it, commits;
  \<open>result\<close> is the provider's answer: the artifact, whether the rejection is provably unbilled, and the
  error. A context that ends before the reservation commits makes the port's reserve fail.
\<close>

definition Do ::
    "'w runner \<Rightarrow> string \<Rightarrow> charge \<Rightarrow> ('w \<Rightarrow> 'w) \<Rightarrow> bool \<Rightarrow> 'a \<times> bool \<times> go_error option \<Rightarrow> 'w run_state \<Rightarrow>
      (api_error + 'a) \<times> 'w run_state" where
  "Do r installID c env gone result s =
     (case Run_Reserve r installID (ch_Plan c) s of
        Inl ae \<Rightarrow> (Inl ae, s)
      | Inr (s1, res) \<Rightarrow>
          let q = the (quota r);
              s2 = s1\<lparr>world := env (world s1)\<rparr>;
              (out, unbilled, err) = result
          in case err of
               Some e \<Rightarrow>
                 (Inl (api_of (sentinel_error ErrUpstreamError) e),
                  if unbilled then snd (Run_Rollback q gone (Some res) s2)
                  else snd (Run_Settle q gone (Some res) (Res_ReservedPUSD res) s2))
             | None \<Rightarrow>
                 let cost = (case UnitCost (Plan res) (Class c) (Units c) of
                               Inl _ \<Rightarrow> Res_ReservedPUSD res | Inr v \<Rightarrow> v)
                 in (Inr out, snd (Run_Settle q gone (Some res) cost s2)))"

text \<open>What a call owes once the provider has answered (the GW-INV-50 rule).\<close>

definition due :: "charge \<Rightarrow> bool \<Rightarrow> go_error option \<Rightarrow> reservation \<Rightarrow> int64" where
  "due c unbilled err res =
     (case err of
        Some _ \<Rightarrow> if unbilled then 0 else Res_ReservedPUSD res
      | None \<Rightarrow> (case UnitCost (Plan res) (Class c) (Units c) of
                   Inl _ \<Rightarrow> Res_ReservedPUSD res | Inr v \<Rightarrow> v))"

definition answer :: "'a \<Rightarrow> go_error option \<Rightarrow> api_error + 'a" where
  "answer out err = (case err of None \<Rightarrow> Inr out | Some e \<Rightarrow> Inl (api_of (sentinel_error ErrUpstreamError) e))"

section \<open>The wallet interface\<close>

text \<open>The other requests keep the invariant and leave an open reservation of ours open, unless the orphan
  reconciler closes it at its full amount.\<close>

definition fair_env ::
    "('w \<Rightarrow> bool) \<Rightarrow> (reservation \<Rightarrow> 'w \<Rightarrow> int64 option option) \<Rightarrow> (reservation \<Rightarrow> bool) \<Rightarrow>
      ('w \<Rightarrow> 'w) \<Rightarrow> bool" where
  "fair_env sound booked mine env \<longleftrightarrow> (\<forall>r w. mine r \<longrightarrow> sound w \<longrightarrow> booked r w = Some None \<longrightarrow>
     sound (env w) \<and> (booked r (env w) = Some None \<or> booked r (env w) = Some (Some (Res_ReservedPUSD r))))"

text \<open>
  \<open>booked r w\<close> is what the wallet holds for a reservation: \<open>None\<close> when it does not know it, \<open>Some None\<close>
  while it is open, and its final charge once it is closed; \<open>mine\<close> are the reservations this port's
  reserve can hand out.
\<close>

locale wallet =
  fixes port :: "'w quota_port" and sound :: "'w \<Rightarrow> bool"
    and booked :: "reservation \<Rightarrow> 'w \<Rightarrow> int64 option option" and mine :: "reservation \<Rightarrow> bool"
  assumes reserve_opens: "sound w \<Longrightarrow> i \<noteq> [] \<Longrightarrow> q_reserve port i pl p w = Inr (w', r) \<Longrightarrow>
      sound w' \<and> mine r \<and> booked r w' = Some None \<and> Plan r = pl \<and> Res_ReservedPUSD r = ReservedPUSD pl \<and>
      0 < Res_ReservedPUSD r"
    and settle_closes: "sound w \<Longrightarrow> booked r w = Some None \<Longrightarrow> 0 \<le> a \<Longrightarrow> a \<le> Res_ReservedPUSD r \<Longrightarrow>
      \<exists>w'. q_settle port r a w = Inr w' \<and> sound w' \<and> booked r w' = Some (Some a)"
    and rollback_closes: "sound w \<Longrightarrow> booked r w = Some None \<Longrightarrow>
      \<exists>w'. q_rollback port r w = Inr w' \<and> sound w' \<and> booked r w' = Some (Some 0)"
    and closed_settle: "sound w \<Longrightarrow> booked r w = Some (Some c) \<Longrightarrow> 0 \<le> a \<Longrightarrow> q_settle port r a w = Inr w"
    and closed_rollback: "sound w \<Longrightarrow> booked r w = Some (Some c) \<Longrightarrow> q_rollback port r w = Inr w"
begin

lemma settle_step:
  assumes "sound w" "booked r w = Some None \<or> booked r w = Some (Some (Res_ReservedPUSD r))"
    and "0 \<le> a" "a \<le> Res_ReservedPUSD r"
  shows "\<exists>w'. q_settle port r a w = Inr w' \<and> sound w' \<and>
    booked r w' = Some (Some (if booked r w = Some None then a else Res_ReservedPUSD r))"
  using assms settle_closes[OF assms(1) _ assms(3,4)] closed_settle[OF assms(1) _ assms(3)] by fastforce

lemma rollback_step:
  assumes "sound w" "booked r w = Some None \<or> booked r w = Some (Some (Res_ReservedPUSD r))"
  shows "\<exists>w'. q_rollback port r w = Inr w' \<and> sound w' \<and>
    booked r w' = Some (Some (if booked r w = Some None then 0 else Res_ReservedPUSD r))"
  using assms rollback_closes[OF assms(1)] closed_rollback[OF assms(1)] by fastforce

text \<open>A paid call closes its books: it is refused with the wallet untouched, or its reservation ends
  closed at the amount due (at the full amount when the orphan reconciler came first) and no
  close-out failure is counted. A request that is gone when its call returns leaves the wallet as the others
  left it, and one failure is counted.\<close>

lemma Do_books:
  assumes sound: "sound (world s)" and id: "i \<noteq> []" and q: "quota r = Some port" and clk: "clock r = Some now"
    and env: "fair_env sound booked mine env"
    and cost: "\<And>v. UnitCost (ch_Plan c) (Class c) (Units c) = Inr v \<Longrightarrow> 0 \<le> v \<and> v \<le> ReservedPUSD (ch_Plan c)"
    and do: "Do r i c env gone (out, unbilled, err) s = (ans, s')"
  shows "(\<exists>e. ans = Inl e \<and> s' = s) \<or>
    (\<exists>w1 res. q_reserve port i (ch_Plan c) (q_snapshot port now) (world s) = Inr (w1, res) \<and>
      sound (world s') \<and> ans = answer out err \<and>
      (if gone
       then world s' = env w1 \<and> (booked res (env w1) = Some None \<or> booked res (env w1) = Some (Some (Res_ReservedPUSD res))) \<and>
         settle_failures s' + rollback_failures s' = settle_failures s + rollback_failures s + 1
       else booked res (world s') = Some (Some
           (if booked res (env w1) = Some None then due c unbilled err res else Res_ReservedPUSD res)) \<and>
         settle_failures s' = settle_failures s \<and> rollback_failures s' = rollback_failures s))"
proof (cases "Run_Reserve r i (ch_Plan c) s")
  case (Inl ae)
  with do show ?thesis by (auto simp: Do_def)
next
  case (Inr p)
  obtain s1 res where p: "p = (s1, res)" by (cases p)
  from Inr p q clk obtain w1 where
    w1: "q_reserve port i (ch_Plan c) (q_snapshot port now) (world s) = Inr (w1, res)"
    and s1: "s1 = s\<lparr>world := w1\<rparr>"
    by (auto simp: Run_Reserve_def split: option.splits sum.splits)
  note opened = reserve_opens[OF sound id w1]
  let ?w = "env w1"
  have w: "sound ?w" "booked res ?w = Some None \<or> booked res ?w = Some (Some (Res_ReservedPUSD res))"
    using env opened unfolding fair_env_def by blast+
  show ?thesis
  proof (cases gone)
    case True
    have "world s' = ?w \<and> ans = answer out err \<and>
        settle_failures s' + rollback_failures s' = settle_failures s + rollback_failures s + 1"
      using do Inr p q True
      by (auto simp: Do_def Run_Settle_def Run_Rollback_def s1 answer_def Let_def split: option.splits if_splits)
    with w w1 True show ?thesis by auto
  next
    case False
    have pos: "0 \<le> Res_ReservedPUSD res" using opened by simp
    have due: "0 \<le> due c unbilled err res" "due c unbilled err res \<le> Res_ReservedPUSD res"
      using cost opened pos by (auto simp: due_def split: option.splits sum.splits)
    have "\<exists>w'. s' = s1\<lparr>world := w'\<rparr> \<and> ans = answer out err \<and> sound w' \<and>
        booked res w' = Some (Some (if booked res ?w = Some None then due c unbilled err res else Res_ReservedPUSD res))"
    proof (cases "err \<noteq> None \<and> unbilled")
      case True
      with rollback_step[OF w] do Inr p q False show ?thesis
        by (auto simp: Do_def Run_Rollback_def s1 due_def answer_def split: if_splits)
    next
      case charged: False
      have d: "due c unbilled err res =
          (case err of Some _ \<Rightarrow> Res_ReservedPUSD res
           | None \<Rightarrow> (case UnitCost (Plan res) (Class c) (Units c) of Inl _ \<Rightarrow> Res_ReservedPUSD res | Inr v \<Rightarrow> v))"
        using charged by (auto simp: due_def split: option.splits)
      from settle_step[OF w due] obtain w' where w': "q_settle port res (due c unbilled err res) ?w = Inr w'"
        "sound w'" "booked res w' = Some (Some
          (if booked res ?w = Some None then due c unbilled err res else Res_ReservedPUSD res))" by blast
      have "s' = s1\<lparr>world := w'\<rparr> \<and> ans = answer out err"
        using do Inr p q w'(1) charged False unfolding d
        by (cases err) (simp_all add: Do_def Run_Settle_def s1 answer_def Let_def)
      with w' show ?thesis by blast
    qed
    with w1 opened False show ?thesis by (auto simp: s1)
  qed
qed

end

end
