(* ===== verification/Genrun_Store.thy ===== *)
theory Genrun_Store
  imports Genrun
begin

text \<open>
  The accounting service over the spend ledger as a wallet, and the money half of a paid call against
  it: whatever the other requests do meanwhile, the books of the call are closed exactly once.
\<close>

section \<open>The port\<close>

definition idgen_RequestID :: "string \<Rightarrow> string" where
  "idgen_RequestID entropy = ''req_'' @ entropy"

definition store_port :: "string \<Rightarrow> int \<Rightarrow> int \<Rightarrow> limits \<Rightarrow> location \<Rightarrow> db quota_port" where
  "store_port entropy t1 t2 lim loc =
     \<lparr>q_snapshot = (\<lambda>now. SnapshotPeriod now loc),
      q_reserve = (\<lambda>i pl p s. Service_Reserve (idgen_RequestID entropy) t1 lim i pl p s),
      q_settle = Service_Settle t2,
      q_rollback = Service_Rollback t2\<rparr>"

definition row_of :: "reservation \<Rightarrow> ledger_row \<Rightarrow> bool" where
  "row_of r x \<longleftrightarrow> cas_match r (x\<lparr>state := StateOpen\<rparr>)"

definition store_booked :: "reservation \<Rightarrow> db \<Rightarrow> int64 option option" where
  "store_booked r s =
     (if validateReservation r = Inr ()
      then map_option charged_pusd (find (row_of r) (spend_ledger s)) else None)"

definition minted :: "string \<Rightarrow> reservation \<Rightarrow> bool" where
  "minted entropy r \<longleftrightarrow> RequestID r = idgen_RequestID entropy"

lemma row_of_id: "row_of r x \<Longrightarrow> request_id x = RequestID r"
  by (simp add: row_of_def cas_match_def)

lemma cas_match_row_of: "cas_match r x \<longleftrightarrow> row_of r x \<and> state x = StateOpen"
  by (auto simp: row_of_def cas_match_def)

lemma find_row:
  assumes "distinct (map request_id xs)" "x \<in> set xs" "row_of r x"
  shows "find (row_of r) xs = Some x"
  using assms
proof (induction xs)
  case (Cons y ys)
  have "row_of r y \<Longrightarrow> y = x"
    using Cons.prems row_of_id[of r y] row_of_id[of r x] by (auto simp: rev_image_eqI)
  with Cons show ?case by auto
qed simp

lemma booked_iff:
  assumes "db_reachable s"
  shows "store_booked r s = Some v \<longleftrightarrow> validateReservation r = Inr () \<and>
    (\<exists>x \<in> set (spend_ledger s). row_of r x \<and> charged_pusd x = v)"
proof
  assume "store_booked r s = Some v"
  then show "validateReservation r = Inr () \<and> (\<exists>x \<in> set (spend_ledger s). row_of r x \<and> charged_pusd x = v)"
    by (auto simp: store_booked_def find_Some_iff split: if_splits intro!: bexI[OF _ nth_mem])
next
  note D = ledger_invD(1)[OF db_reachable_inv[OF assms]]
  assume "validateReservation r = Inr () \<and> (\<exists>x \<in> set (spend_ledger s). row_of r x \<and> charged_pusd x = v)"
  with find_row[OF D] show "store_booked r s = Some v" by (auto simp: store_booked_def)
qed

lemma open_iff:
  assumes "db_reachable s" "x \<in> set (spend_ledger s)"
  shows "charged_pusd x = None \<longleftrightarrow> state x = StateOpen"
  using ledger_invD(2)[OF db_reachable_inv[OF assms(1)] assms(2)]
  by (cases "state x") (auto simp: row_ok_def ledger_check_def)

lemma booked_open:
  assumes "db_reachable s" "store_booked r s = Some None"
  obtains x where "x \<in> set (spend_ledger s)" "cas_match r x" "row_of r x" "validateReservation r = Inr ()"
  using assms open_iff[OF assms(1)] by (auto simp: booked_iff[OF assms(1)] cas_match_row_of)

lemma booked_closed_miss:
  assumes "db_reachable s" "store_booked r s = Some (Some c)"
  shows "\<forall>y \<in> set (spend_ledger s). \<not> cas_match r y \<and> \<not> orphan_match (RequestID r) y"
proof
  note D = ledger_invD(1)[OF db_reachable_inv[OF assms(1)]]
  from assms obtain x where x: "x \<in> set (spend_ledger s)" "row_of r x" "charged_pusd x = Some c"
    by (auto simp: booked_iff[OF assms(1)])
  fix y assume y: "y \<in> set (spend_ledger s)"
  have "request_id y = RequestID r \<Longrightarrow> y = x"
    using x y D row_of_id[OF x(2)] by (auto simp: distinct_map inj_on_def)
  with x open_iff[OF assms(1) x(1)] show "\<not> cas_match r y \<and> \<not> orphan_match (RequestID r) y"
    by (auto simp: cas_match_def orphan_match_def)
qed

lemma reach_settle: "db_reachable s \<Longrightarrow> is_int64 a \<Longrightarrow> Settle now r a s = Inr s' \<Longrightarrow> db_reachable s'"
  by (rule reach_step[OF _ step_settle])

lemma reach_rollback: "db_reachable s \<Longrightarrow> Rollback now r s = Inr s' \<Longrightarrow> db_reachable s'"
  by (rule reach_step[OF _ step_rollback])

lemma booked_after_swap:
  assumes reach: "db_reachable s'" and x: "x \<in> set (spend_ledger s)" "row_of r x" "validateReservation r = Inr ()"
    and led: "spend_ledger s' = swap_row (request_id x) (terminal_row st c now) (spend_ledger s)"
  shows "store_booked r s' = Some (Some c)"
  unfolding booked_iff[OF reach]
proof (intro conjI bexI)
  show "terminal_row st c now x \<in> set (spend_ledger s')" using x(1) by (force simp: led swap_row_def)
  show "row_of r (terminal_row st c now x)" "charged_pusd (terminal_row st c now x) = Some c"
    using x(2) by (simp_all add: row_of_def cas_match_def terminal_row_def)
qed (rule x(3))

interpretation spend_wallet: wallet "store_port entropy t1 t2 lim loc" db_reachable store_booked "minted entropy"
proof
  fix w i pl p w' r
  assume w: "db_reachable w" and i: "i \<noteq> []"
    and res: "q_reserve (store_port entropy t1 t2 lim loc) i pl p w = Inr (w', r)"
  let ?rid = "idgen_RequestID entropy"
  from res have R: "Reserve ?rid t1 i pl p lim w = Inr (w', r)"
    by (auto simp: store_port_def Service_Reserve_def split: sum.splits)
  have reach: "db_reachable w'" by (rule reach_step[OF w step_reserve[OF R]])
  note eff = Reserve_effect[OF R]
  have "open_row r t1 \<in> set (spend_ledger w')" using eff(3) by (simp add: reserve_effect_def Let_def)
  moreover have "cas_match r (open_row r t1)" "charged_pusd (open_row r t1) = None"
    by (simp_all add: eff(1) open_row_matches) (simp add: open_row_def)
  moreover have "validateReservation r = Inr ()"
    unfolding eff(1) by (rule new_reservation_valid[OF eff(2) _ i]) (simp add: idgen_RequestID_def)
  ultimately have "store_booked r w' = Some None" by (auto simp: booked_iff[OF reach] cas_match_row_of)
  with reach plan_quote(1)[OF eff(2)]
  show "db_reachable w' \<and> minted entropy r \<and> store_booked r w' = Some None \<and> Plan r = pl \<and>
      Res_ReservedPUSD r = ReservedPUSD pl \<and> 0 < Res_ReservedPUSD r"
    by (simp add: eff(1) minted_def new_reservation_def)
next
  fix w r a
  assume w: "db_reachable w" and b: "store_booked r w = Some None" and a: "0 \<le> a" "a \<le> Res_ReservedPUSD r"
  from booked_open[OF w b] obtain x where x: "x \<in> set (spend_ledger w)" "cas_match r x" "row_of r x"
    "validateReservation r = Inr ()" .
  have ax: "a \<le> reserved_pusd x" using a(2) x(2) by (simp add: cas_match_def)
  have i64: "is_int64 a" using a validateReservationD[OF x(4)] by (intro is_int64_nonneg) auto
  from open_settle[OF w x(4,1,2) a(1) ax] obtain w' where w': "Settle t2 r a w = Inr w'" by blast
  have reach: "db_reachable w'" by (rule reach_settle[OF w i64 w'])
  from w' ledger_invD(1)[OF db_reachable_inv[OF w]] i64 have "store_booked r w' = Some (Some a)"
  proof (cases rule: Settle_cases)
    case 1
    with x show ?thesis by blast
  next
    case (2 y)
    then show ?thesis by (intro booked_after_swap[OF reach, of y w]) (use x(4) in \<open>auto simp: cas_match_row_of\<close>)
  qed
  with w' reach show "\<exists>w'. q_settle (store_port entropy t1 t2 lim loc) r a w = Inr w' \<and> db_reachable w' \<and>
      store_booked r w' = Some (Some a)"
    by (auto simp: store_port_def Service_Settle_def)
next
  fix w r
  assume w: "db_reachable w" and b: "store_booked r w = Some None"
  from booked_open[OF w b] obtain x where x: "x \<in> set (spend_ledger w)" "cas_match r x" "row_of r x"
    "validateReservation r = Inr ()" .
  from open_rollback[OF w x(4,1,2)] obtain w' where w': "Rollback t2 r w = Inr w'" by blast
  have reach: "db_reachable w'" by (rule reach_rollback[OF w w'])
  from w' ledger_invD(1)[OF db_reachable_inv[OF w]] have "store_booked r w' = Some (Some 0)"
  proof (cases rule: Rollback_cases)
    case 1
    with x show ?thesis by blast
  next
    case (2 y)
    then show ?thesis by (intro booked_after_swap[OF reach, of y w]) (use x(4) in \<open>auto simp: cas_match_row_of\<close>)
  qed
  with w' reach show "\<exists>w'. q_rollback (store_port entropy t1 t2 lim loc) r w = Inr w' \<and> db_reachable w' \<and>
      store_booked r w' = Some (Some 0)"
    by (auto simp: store_port_def Service_Rollback_def)
next
  fix w r c a
  assume w: "db_reachable w" and b: "store_booked r w = Some (Some c)" and a: "0 \<le> (a :: int64)"
  have "validateReservation r = Inr ()" using b by (simp add: booked_iff[OF w])
  from ops_miss(2)[OF booked_closed_miss[OF w b] this a]
  show "q_settle (store_port entropy t1 t2 lim loc) r a w = Inr w"
    by (simp add: store_port_def Service_Settle_def)
next
  fix w r c
  assume w: "db_reachable w" and b: "store_booked r w = Some (Some c)"
  have "validateReservation r = Inr ()" using b by (simp add: booked_iff[OF w])
  from ops_miss(1)[OF booked_closed_miss[OF w b] this]
  show "q_rollback (store_port entropy t1 t2 lim loc) r w = Inr w"
    by (simp add: store_port_def Service_Rollback_def)
qed

section \<open>The other requests\<close>

text \<open>What anything else in the process may do to the ledger while a call is in flight: reserve, settle
  or roll back under other request ids, reconcile any request as an orphan, reset the month.\<close>

inductive others :: "string \<Rightarrow> db \<Rightarrow> db \<Rightarrow> bool" for rid where
  others_refl: "others rid s s"
| others_reserve: "others rid s t \<Longrightarrow> Reserve rid' now i pl p lim t = Inr (u, r') \<Longrightarrow> others rid s u"
| others_settle: "others rid s t \<Longrightarrow> RequestID r' \<noteq> rid \<Longrightarrow> is_int64 a \<Longrightarrow> Settle now r' a t = Inr u \<Longrightarrow>
    others rid s u"
| others_rollback: "others rid s t \<Longrightarrow> RequestID r' \<noteq> rid \<Longrightarrow> Rollback now r' t = Inr u \<Longrightarrow> others rid s u"
| others_reconcile: "others rid s t \<Longrightarrow> reconcileOne now rid' t = Inr (u, won) \<Longrightarrow> others rid s u"
| others_reset: "others rid s t \<Longrightarrow> ResetMonthlyRequests p t = Inr (u, n) \<Longrightarrow> others rid s u"

lemma others_reachable: "others rid s t \<Longrightarrow> db_reachable s \<Longrightarrow> db_reachable t"
proof (induction rule: others.induct)
  case others_reserve
  then show ?case by (meson reach_step step_reserve)
next
  case others_settle
  then show ?case by (meson reach_step step_settle)
next
  case others_rollback
  then show ?case by (meson reach_step step_rollback)
next
  case others_reconcile
  then show ?case by (meson reach_step step_reconcile)
next
  case others_reset
  then show ?case by (meson reach_step step_reset)
qed

definition kept :: "ledger_row \<Rightarrow> db \<Rightarrow> bool" where
  "kept x s \<longleftrightarrow> x \<in> set (spend_ledger s) \<or>
     (state x = StateOpen \<and> (\<exists>now. orphan_row now x \<in> set (spend_ledger s)))"

lemma kept_swap_other:
  "kept x s \<Longrightarrow> spend_ledger s' = swap_row rid u (spend_ledger s) \<Longrightarrow> rid \<noteq> request_id x \<Longrightarrow> kept x s'"
  by (force simp: kept_def swap_row_def orphan_row_def)

lemma kept_orphan:
  assumes k: "kept x s" and dist: "distinct (map request_id (spend_ledger s))"
    and y: "y \<in> set (spend_ledger s)" "orphan_match rid y"
    and led: "spend_ledger s' = swap_row rid (orphan_row now) (spend_ledger s)"
  shows "kept x s'"
proof (cases "request_id x = rid")
  case False
  then show ?thesis by (intro kept_swap_other[OF k led]) simp
next
  case True
  have uniq: "z = y" if "z \<in> set (spend_ledger s)" "request_id z = rid" for z
    using that y dist by (simp add: orphan_match_def distinct_map inj_on_def)
  have yo: "state y = StateOpen" using y(2) by (simp add: orphan_match_def)
  have "x \<in> set (spend_ledger s)"
  proof (rule ccontr)
    assume "x \<notin> set (spend_ledger s)"
    then obtain t where "orphan_row t x \<in> set (spend_ledger s)" using k unfolding kept_def by blast
    with uniq[of "orphan_row t x"] True have "y = orphan_row t x" by (simp add: orphan_row_def)
    with yo show False by (simp add: orphan_row_def)
  qed
  moreover from uniq[OF this True] yo have "state x = StateOpen" by simp
  ultimately show ?thesis using True led by (force simp: kept_def swap_row_def)
qed

lemma others_kept:
  assumes "others rid s t" "db_reachable s" "kept x s" "request_id x = rid"
  shows "kept x t"
  using assms
proof (induction rule: others.induct)
  case (others_reserve s t rid' now i pl p lim u r')
  with Reserve_effect(3)[OF others_reserve.hyps(2)] show ?case
    by (auto simp: kept_def reserve_effect_def Let_def)
next
  case (others_settle s t r' a now u)
  note dist = ledger_invD(1)[OF db_reachable_inv[OF others_reachable[OF others_settle.hyps(1) others_settle.prems(1)]]]
  from others_settle.hyps(4) dist others_settle.hyps(3) show ?case
  proof (cases rule: Settle_cases)
    case (2 y)
    with others_settle show ?thesis
      by (intro kept_swap_other[OF _ 2(7)]) (auto dest!: cas_match_id)
  qed (use others_settle in simp)
next
  case (others_rollback s t r' now u)
  note dist = ledger_invD(1)[OF db_reachable_inv[OF others_reachable[OF others_rollback.hyps(1) others_rollback.prems(1)]]]
  from others_rollback.hyps(3) dist show ?case
  proof (cases rule: Rollback_cases)
    case (2 y)
    with others_rollback show ?thesis
      by (intro kept_swap_other[OF _ 2(6)]) (auto dest!: cas_match_id)
  qed (use others_rollback in simp)
next
  case (others_reconcile s t now rid' u won)
  note dist = ledger_invD(1)[OF db_reachable_inv[OF others_reachable[OF others_reconcile.hyps(1) others_reconcile.prems(1)]]]
  from others_reconcile.hyps(2) dist show ?case
  proof (cases rule: reconcileOne_cases)
    case (2 y)
    have k: "kept x t" using others_reconcile by simp
    show ?thesis by (rule kept_orphan[OF k dist 2(1,2)]) (simp add: 2(4))
  qed (use others_reconcile in simp)
next
  case (others_reset s t p u n)
  have "spend_ledger u = spend_ledger t"
    using others_reset.hyps(2) by (auto simp: ResetMonthlyRequests_def Let_def split: if_splits)
  with others_reset show ?case by (simp add: kept_def)
qed

lemma others_fair:
  assumes "\<And>w. db_reachable w \<Longrightarrow> others (idgen_RequestID entropy) w (env w)"
  shows "fair_env db_reachable store_booked (minted entropy) env"
  unfolding fair_env_def
proof (intro allI impI)
  fix r w assume r: "minted entropy r" and w: "db_reachable w" and b: "store_booked r w = Some None"
  note o = assms[OF w]
  have reach: "db_reachable (env w)" by (rule others_reachable[OF o w])
  from booked_open[OF w b] obtain x where x: "x \<in> set (spend_ledger w)" "cas_match r x" "row_of r x"
    "validateReservation r = Inr ()" .
  have "kept x (env w)"
    using others_kept[OF o w _ ] x(1) r cas_match_id[OF x(2)] by (simp add: kept_def minted_def)
  moreover have "charged_pusd x = None" "reserved_pusd x = Res_ReservedPUSD r"
    using x(2) open_iff[OF w x(1)] by (simp_all add: cas_match_def)
  moreover have "row_of r (orphan_row now x)" for now using x(3) by (simp add: row_of_def cas_match_def orphan_row_def)
  ultimately have "store_booked r (env w) = Some None \<or>
      store_booked r (env w) = Some (Some (Res_ReservedPUSD r))"
    using x(3,4) by (auto simp: kept_def booked_iff[OF reach] orphan_row_def) force
  with reach show "db_reachable (env w) \<and> (store_booked r (env w) = Some None \<or>
      store_booked r (env w) = Some (Some (Res_ReservedPUSD r)))" by simp
qed

section \<open>Late close-outs and large amounts\<close>

text \<open>The orphan reconciler closes an open reservation at its full amount.\<close>

lemma orphan_closes:
  assumes "db_reachable w" "store_booked r w = Some None"
  shows "\<exists>t. reconcileOne now (RequestID r) w = Inr (t, True) \<and> store_booked r t = Some (Some (Res_ReservedPUSD r))"
proof -
  from booked_open[OF assms] obtain x where x: "x \<in> set (spend_ledger w)" "cas_match r x" "row_of r x"
    "validateReservation r = Inr ()" .
  have om: "orphan_match (RequestID r) x" using x(2) by (simp add: orphan_match_def cas_match_def)
  note dist = ledger_invD(1)[OF db_reachable_inv[OF assms(1)]]
  obtain t won where t: "reconcileOne now (RequestID r) w = Inr (t, won)"
  proof -
    obtain s1 n1 where cas: "cas_rows (orphan_match (RequestID r)) (orphan_row now) w = (s1, n1)"
      by (cases "cas_rows (orphan_match (RequestID r)) (orphan_row now) w")
    have "n1 \<noteq> 0" using cas_rows_miss cas x(1) om by metis
    from cas_rows_hit[OF dist _ cas this, of "RequestID r"] have "n1 = 1" by (metis orphan_match_def)
    with cas that show thesis by (simp add: reconcileOne_def)
  qed
  from t dist have won: "won" and led: "spend_ledger t = swap_row (RequestID r) (orphan_row now) (spend_ledger w)"
    by (cases rule: reconcileOne_cases; use x(1) om in auto)+
  have reach: "db_reachable t" by (rule reach_step[OF assms(1) step_reconcile[OF t]])
  have "orphan_row now x \<in> set (spend_ledger t)" using x(1) row_of_id[OF x(3)] by (force simp: led swap_row_def)
  moreover have "row_of r (orphan_row now x)" "charged_pusd (orphan_row now x) = Some (Res_ReservedPUSD r)"
    using x(2,3) by (simp_all add: row_of_def cas_match_def orphan_row_def)
  ultimately have "store_booked r t = Some (Some (Res_ReservedPUSD r))" using x(4) by (auto simp: booked_iff[OF reach])
  with t won show ?thesis by auto
qed

text \<open>A settlement beyond the reservation closes the row at that amount when the balances have room for it, and
  else fails.\<close>

lemma store_settle_over:
  assumes w: "db_reachable w" and b: "store_booked r w = Some None" and a: "Res_ReservedPUSD r < a" "is_int64 a"
  shows "if topup_room r a w
    then \<exists>w'. q_settle (store_port entropy t1 t2 lim loc) r a w = Inr w' \<and> db_reachable w' \<and> store_booked r w' = Some (Some a)
    else \<exists>e. q_settle (store_port entropy t1 t2 lim loc) r a w = Inl e"
proof -
  from booked_open[OF w b] obtain x where x: "x \<in> set (spend_ledger w)" "cas_match r x" "row_of r x"
    "validateReservation r = Inr ()" .
  have ax: "reserved_pusd x < a" using a(1) x(2) by (simp add: cas_match_def)
  note over = open_settle_over[OF w x(4,1,2) ax a(2), of t2]
  show ?thesis
  proof (cases "topup_room r a w")
    case True
    with over obtain w' where w': "Settle t2 r a w = Inr w'" by auto
    have reach: "db_reachable w'" by (rule reach_settle[OF w a(2) w'])
    from w' ledger_invD(1)[OF db_reachable_inv[OF w]] a(2) have "store_booked r w' = Some (Some a)"
    proof (cases rule: Settle_cases)
      case 1
      with x show ?thesis by blast
    next
      case (2 y)
      then show ?thesis by (intro booked_after_swap[OF reach, of y w]) (use x(4) in \<open>auto simp: cas_match_row_of\<close>)
    qed
    with True w' reach show ?thesis by (simp add: store_port_def Service_Settle_def)
  next
    case False
    with over show ?thesis by (auto simp: store_port_def Service_Settle_def)
  qed
qed

section \<open>A paid call\<close>

text \<open>C33. A paid call closes its books, unless the client leaves. Run against the spend ledger, with any other traffic
  in between, a call is either refused before the provider is reached, with the wallet untouched, or it owns one
  ledger row. If the context of the request lasts, that row ends closed: at zero when the provider provably refused
  to bill, at the full reservation otherwise (success, ambiguous failure, or the orphan reconciler came first),
  and no close-out fails. If the context ends before the close-out, which uses it, the close-out fails and is
  counted, the books are as the others left them, and a row still open is closed at the full reservation by the next
  reconciliation of it. The caller gets the artifact exactly when the provider returned one.\<close>

theorem paid_call_closes_books:
  assumes reach: "db_reachable (world s)" and id: "i \<noteq> []"
    and port: "quota r = Some (store_port entropy t1 t2 lim loc)" "clock r = Some now"
    and plan: "NewUnitPlan prov m (Class c) (Units c) = Inr (ch_Plan c)" "Class c \<noteq> InputStandard"
    and env: "\<And>w. db_reachable w \<Longrightarrow> others (idgen_RequestID entropy) w (env w)"
    and do: "Do r i c env gone (out, unbilled, err) s = (ans, s')"
  shows "(\<exists>e. ans = Inl e \<and> s' = s) \<or>
    (\<exists>w1 res. Service_Reserve (idgen_RequestID entropy) t1 lim i (ch_Plan c) (SnapshotPeriod now loc) (world s) =
        Inr (w1, res) \<and> ans = answer out err \<and>
      (if gone
       then world s' = env w1 \<and> settle_failures s' + rollback_failures s' = settle_failures s + rollback_failures s + 1 \<and>
         (if store_booked res (world s') = Some None
          then \<exists>t. reconcileOne later (RequestID res) (world s') = Inr (t, True) \<and>
            store_booked res t = Some (Some (ReservedPUSD (ch_Plan c)))
          else store_booked res (world s') = Some (Some (ReservedPUSD (ch_Plan c))))
       else settle_failures s' = settle_failures s \<and> rollback_failures s' = rollback_failures s \<and>
         (\<exists>x \<in> set (spend_ledger (world s')). row_of res x \<and> charged_pusd x = Some
           (if store_booked res (env w1) = Some None \<and> err \<noteq> None \<and> unbilled then 0 else ReservedPUSD (ch_Plan c)))))"
proof -
  have cost: "UnitCost (ch_Plan c) (Class c) (Units c) = Inr (ReservedPUSD (ch_Plan c))"
    using UnitCost_reserved[OF plan] .
  have nonneg: "0 \<le> ReservedPUSD (ch_Plan c)"
    using NewPlan_reserved_bounds(1)[of prov m "Class c" "Units c" 0 "ch_Plan c"] plan(1)
    by (simp add: NewUnitPlan_def)
  let ?q = "store_port entropy t1 t2 lim loc"
  from spend_wallet.Do_books[OF reach id port others_fair[OF env] _ do] cost nonneg
  consider (refused) e where "ans = Inl e" "s' = s"
    | (opened) w1 res where "q_reserve ?q i (ch_Plan c) (q_snapshot ?q now) (world s) = Inr (w1, res)"
        "db_reachable (world s')" "ans = answer out err"
        "if gone
         then world s' = env w1 \<and>
           (store_booked res (env w1) = Some None \<or> store_booked res (env w1) = Some (Some (Res_ReservedPUSD res))) \<and>
           settle_failures s' + rollback_failures s' = settle_failures s + rollback_failures s + 1
         else store_booked res (world s') = Some (Some
             (if store_booked res (env w1) = Some None then due c unbilled err res else Res_ReservedPUSD res)) \<and>
           settle_failures s' = settle_failures s \<and> rollback_failures s' = rollback_failures s"
    by auto
  then show ?thesis
  proof cases
    case refused
    then show ?thesis by blast
  next
    case opened
    have R: "Service_Reserve (idgen_RequestID entropy) t1 lim i (ch_Plan c) (SnapshotPeriod now loc) (world s) =
        Inr (w1, res)"
      using opened(1) by (simp add: store_port_def)
    have pl: "Plan res = ch_Plan c" "Res_ReservedPUSD res = ReservedPUSD (ch_Plan c)"
      using spend_wallet.reserve_opens[OF reach id opened(1)] by simp_all
    show ?thesis
    proof (cases gone)
      case True
      with opened(4) have g: "world s' = env w1"
        "store_booked res (world s') = Some None \<or> store_booked res (world s') = Some (Some (ReservedPUSD (ch_Plan c)))"
        "settle_failures s' + rollback_failures s' = settle_failures s + rollback_failures s + 1"
        using pl by simp_all
      from g(2) orphan_closes[OF opened(2), of res later] pl(2)
      have "if store_booked res (world s') = Some None
          then \<exists>t. reconcileOne later (RequestID res) (world s') = Inr (t, True) \<and>
            store_booked res t = Some (Some (ReservedPUSD (ch_Plan c)))
          else store_booked res (world s') = Some (Some (ReservedPUSD (ch_Plan c)))" by auto
      with True R opened(3) g(1,3) show ?thesis by auto
    next
      case False
      with opened(4) have b: "store_booked res (world s') = Some (Some
          (if store_booked res (env w1) = Some None then due c unbilled err res else Res_ReservedPUSD res))"
        and f: "settle_failures s' = settle_failures s" "rollback_failures s' = rollback_failures s" by simp_all
      have "due c unbilled err res = (if err \<noteq> None \<and> unbilled then 0 else ReservedPUSD (ch_Plan c))"
        using cost by (auto simp: due_def pl split: option.splits)
      with b pl obtain x where "x \<in> set (spend_ledger (world s'))" "row_of res x"
        "charged_pusd x = Some (if store_booked res (env w1) = Some None \<and> err \<noteq> None \<and> unbilled then 0
           else ReservedPUSD (ch_Plan c))"
        by (auto simp: booked_iff[OF opened(2)] split: if_splits)
      with R opened(3) f False show ?thesis by auto
    qed
  qed
qed

section \<open>The install gate\<close>

definition install_auth :: "int \<Rightarrow> install_service \<Rightarrow> string \<Rightarrow> go_error + (string \<times> string \<times> bool)" where
  "install_auth now sv i =
     (case fst (LookupInstall now i sv) of
        None \<Rightarrow> Inr ([], [], False)
      | Some (got, st) \<Rightarrow> Inr (got, st, True))"

text \<open>The install gate over the install store: a request is authorized exactly when the install is
  registered, not banned and within its pace, and then under its own id; a banned install is refused
  as banned whatever the pacing says, from the moment the dashboard bans it.\<close>

theorem authorize_iff:
  assumes "auth r = Some (install_auth now sv)"
  shows "(Authorize r i = Inr got \<longleftrightarrow>
      got = i \<and> i \<noteq> [] \<and> (\<exists>st. Lookup_install i (store sv) = Some st \<and> st \<noteq> StatusBanned) \<and>
      (case rl r of None \<Rightarrow> True | Some allow \<Rightarrow> allow i)) \<and>
    (Authorize (r\<lparr>auth := Some (install_auth now (sv\<lparr>store := snd (SetStatus i StatusBanned (store sv))\<rparr>))\<rparr>) i =
      Inl (sentinel_error (if i \<noteq> [] \<and> fst (SetStatus i StatusBanned (store sv))
        then ErrAccountBanned else ErrInvalidInstall)))"
proof
  show "Authorize r i = Inr got \<longleftrightarrow>
      got = i \<and> i \<noteq> [] \<and> (\<exists>st. Lookup_install i (store sv) = Some st \<and> st \<noteq> StatusBanned) \<and>
      (case rl r of None \<Rightarrow> True | Some allow \<Rightarrow> allow i)"
    using assms
    by (auto simp: Authorize_def install_auth_def LookupInstall_def split: option.splits prod.splits if_splits)
  have find_map: "find (\<lambda>x. ins_id x = i) (map (\<lambda>x. if ins_id x = i then x\<lparr>ins_status := st\<rparr> else x) xs) =
      map_option (\<lambda>x. x\<lparr>ins_status := st\<rparr>) (find (\<lambda>x. ins_id x = i) xs)" for st xs
    by (induction xs) auto
  have found: "(\<exists>x \<in> set xs. ins_id x = i) \<longleftrightarrow> find (\<lambda>x. ins_id x = i) xs \<noteq> None" for xs
    by (induction xs) auto
  show "Authorize (r\<lparr>auth := Some (install_auth now (sv\<lparr>store := snd (SetStatus i StatusBanned (store sv))\<rparr>))\<rparr>) i =
      Inl (sentinel_error (if i \<noteq> [] \<and> fst (SetStatus i StatusBanned (store sv))
        then ErrAccountBanned else ErrInvalidInstall))"
    by (cases "find (\<lambda>x. ins_id x = i) (installs (store sv))")
      (auto simp: Authorize_def install_auth_def LookupInstall_def Lookup_install_def SetStatus_def found find_map
        split: option.splits prod.splits if_splits)
qed

end
