(* ===== verification/Service_Witness.thy ===== *)
theory Service_Witness
  imports Quota_Witness Genrun_Store
begin

text \<open>Concrete applications of the properties of the accounting service and of the paid-call skeleton.\<close>

lemma demo_gates_any:
  "gate_error (new_reservation rid i demo_plan p demo_limits) demo_limits empty_db = None"
  by (simp add: gate_error_def new_reservation_def demo_plan_cost demo_limits_def empty_db_def
      at_defs categoryCap_def category_names wrap64_def Let_def)

lemma demo_headroom_any: "headroom i demo_plan p empty_db"
  by (simp add: headroom_def empty_db_def at_defs demo_plan_cost MaxInt64_def)

lemma demo_reserve_any:
  "\<exists>s'. Reserve rid now i demo_plan p demo_limits empty_db =
     Inr (s', new_reservation rid i demo_plan p demo_limits)"
proof -
  have "rid \<notin> set (map request_id (spend_ledger empty_db))" by (simp add: empty_db_def)
  from Reserve_by_gates[OF demo_plan_valid demo_headroom_any this, where now = now and lim = demo_limits] show ?thesis
    by (simp add: demo_gates_any)
qed

definition demo_runner :: "db runner" where
  "demo_runner = \<lparr>auth = None, rl = None, quota = Some (store_port ''00'' 10 20 demo_limits utc),
     clock = Some 0, has_config = True\<rparr>"

definition demo_charge :: charge where
  "demo_charge = \<lparr>ch_Plan = demo_plan, Class = InputVideoSeconds, Units = 5\<rparr>"

definition demo_start :: "db run_state" where
  "demo_start = \<lparr>world = empty_db, settle_failures = 0, rollback_failures = 0\<rparr>"

theorem paid_call_closes_books_witness:
  "\<exists>s' x. Do demo_runner ''i1'' demo_charge (\<lambda>s. s) False (''art'', False, None) demo_start = (Inr ''art'', s') \<and>
     x \<in> set (spend_ledger (world s')) \<and> charged_pusd x = Some 415000000000 \<and> settle_failures s' = 0"
proof -
  obtain ans s' where do: "Do demo_runner ''i1'' demo_charge (\<lambda>s. s) False (''art'', False, None) demo_start = (ans, s')"
    by (cases "Do demo_runner ''i1'' demo_charge (\<lambda>s. s) False (''art'', False, None) demo_start")
  obtain w1 r where res: "Service_Reserve (idgen_RequestID ''00'') 10 demo_limits ''i1'' demo_plan
      (SnapshotPeriod 0 utc) empty_db = Inr (w1, r)"
    using demo_reserve_any[of "idgen_RequestID ''00''" 10 "''i1''" "SnapshotPeriod 0 utc"]
    by (auto simp: Service_Reserve_def)
  have no: "ans \<noteq> Inl e" for e
    using do res by (auto simp: Do_def Run_Reserve_def demo_runner_def demo_charge_def demo_start_def store_port_def
        Let_def split: sum.splits)
  have plan: "NewUnitPlan ProviderQwen Wan27T2V (Class demo_charge) (Units demo_charge) = Inr (ch_Plan demo_charge)"
    by (simp add: demo_charge_def demo_plan_new)
  have h: "db_reachable (world demo_start)" "''i1'' \<noteq> []"
    "quota demo_runner = Some (store_port ''00'' 10 20 demo_limits utc)" "clock demo_runner = Some 0"
    "Class demo_charge \<noteq> InputStandard"
    by (simp_all add: demo_start_def demo_runner_def demo_charge_def reach_start)
  note T = paid_call_closes_books[OF h(1-4) plan h(5) others_refl do, of 99]
  from T no obtain x where "ans = answer ''art'' None" "x \<in> set (spend_ledger (world s'))"
    "charged_pusd x = Some (ReservedPUSD (ch_Plan demo_charge))" "settle_failures s' = settle_failures demo_start"
    by auto
  then show ?thesis using do by (auto simp: answer_def demo_charge_def demo_plan_cost demo_start_def)
qed

definition demo_service :: install_service where
  "demo_service = \<lparr>store = empty_install_db\<lparr>installs := [\<lparr>ins_id = ''i1'', public_key = ''pk'', key_thumbprint = ''k'',
     fingerprint = None, client = None, ins_status = StatusActive, install_created_at = 0, last_seen_at = 0\<rparr>]\<rparr>,
     lastSeen = [], created = 1\<rparr>"

theorem authorize_iff_witness:
  "Authorize (demo_runner\<lparr>auth := Some (install_auth 5 demo_service)\<rparr>) ''i1'' = Inr ''i1''"
  using authorize_iff[of "demo_runner\<lparr>auth := Some (install_auth 5 demo_service)\<rparr>" 5 demo_service "''i1''" "''i1''"]
  by (simp add: demo_runner_def demo_service_def Lookup_install_def StatusActive_def StatusBanned_def)

theorem unavailable_is_denied_witness:
  "\<exists>e. Service_Reserve ''r'' 1 (demo_limits\<lparr>MonthlyQuota := 0\<rparr>) ''i1'' demo_plan demo_period empty_db = Inl e"
  by (rule unavailable_is_denied[OF _ reach_start, where loc = utc])
    (simp_all add: Service_View_def View_def empty_db_def at_defs demo_limits_def is_int64_def MaxInt64_def
      MinInt64_def wrap64_def Let_def)

theorem budget_denial_is_monthly_witness:
  "\<exists>e. Service_Reserve ''r'' 1 (demo_limits\<lparr>GlobalMonthlySpendPUSD := 0\<rparr>) ''i1'' demo_plan
     (demo_period\<lparr>Day := ''2026-07-02''\<rparr>) empty_db = Inl e"
proof -
  let ?lim = "demo_limits\<lparr>GlobalMonthlySpendPUSD := 0\<rparr>"
  have "''r'' \<notin> set (map request_id (spend_ledger empty_db))" by (simp add: empty_db_def)
  moreover have "gate_error (new_reservation ''r'' ''i1'' demo_plan demo_period ?lim) ?lim empty_db = Some ErrBudgetExceeded"
    by (simp add: gate_error_def new_reservation_def demo_plan_cost demo_limits_def empty_db_def
        at_defs categoryCap_def category_names wrap64_def Let_def)
  ultimately have "Reserve ''r'' 1 ''i1'' demo_plan demo_period ?lim empty_db = Inl ErrBudgetExceeded"
    using Reserve_by_gates[OF demo_plan_valid demo_headroom_any, where rid = "''r''" and now = 1 and lim = ?lim
        and i = "''i1''" and p = demo_period] by auto
  then have "Service_Reserve ''r'' 1 ?lim ''i1'' demo_plan demo_period empty_db =
      Inl (Api (sentinel_error ErrBudgetExhausted))"
    by (simp add: Service_Reserve_def mapReserveErr_def)
  from budget_denial_is_monthly[OF this, of "demo_period\<lparr>Day := ''2026-07-02''\<rparr>"] show ?thesis by simp
qed

end
