(* ===== verification/Install_Props.thy ===== *)
theory Install_Props
  imports Install
begin

text \<open>
  Properties of install issuance: identity is idempotent by device key, gates reject atomically and in
  order, the daily valve bounds issuance, the last-seen throttle spaces its writes, and the
  fingerprint cooldown does not block.
\<close>

section \<open>Identity\<close>

definition identity_ok :: "install_db \<Rightarrow> bool" where
  "identity_ok s \<longleftrightarrow> distinct (map ins_id (installs s)) \<and> distinct (map key_thumbprint (installs s))"

lemma gates_installs: "run_gates p s = Inr s' \<Longrightarrow> installs s' = installs s"
  by (auto simp: run_gates_def gate_step_def rbind_Inr_iff bumpIPRate_def bumpGlobalRate_def bumpFPRate_def
      Let_def split: if_splits option.splits prod.splits)

lemma insertInstallE:
  assumes "insertInstall i p s = Some s'"
  obtains x where "installs s' = installs s @ [x]" "ins_id x = i" "key_thumbprint x = p_Thumbprint p"
    "i \<notin> set (map ins_id (installs s))" "p_Thumbprint p \<notin> set (map key_thumbprint (installs s))"
  using assms that by (force simp: insertInstall_def split: if_splits)

text \<open>What an answered issuance did: recovered the existing row, rejected, or appended one row.\<close>

lemma store_Issue_cases:
  assumes "store_Issue fresh p s = (Some r, s')"
  obtains
    (existing) x where "find (\<lambda>x. key_thumbprint x = p_Thumbprint p) (installs s) = Some x"
      "res_InstallID r = ins_id x" "Admitted r" "Existing r" "s' = s"
  | (reject) g where "run_gates p s = Inl g" "s' = s" "\<not> Admitted r" "res_Gate r = g"
      "find (\<lambda>x. key_thumbprint x = p_Thumbprint p) (installs s) = None"
  | (admitted) s1 where "run_gates p s = Inr s1" "insertInstall (res_InstallID r) p s1 = Some s'"
      "Admitted r" "\<not> Existing r" "find (\<lambda>x. key_thumbprint x = p_Thumbprint p) (installs s) = None"
  using assms
  by (auto simp: store_Issue_def Let_def split: option.splits sum.splits)

lemma store_Issue_identity:
  assumes "store_Issue fresh p s = (Some r, s')" "identity_ok s"
  shows "identity_ok s'"
  using assms(1)
proof (cases rule: store_Issue_cases)
  case (admitted s1)
  from admitted(2) gates_installs[OF admitted(1)] assms(2) show ?thesis
    by (elim insertInstallE) (auto simp: identity_ok_def)
qed (use assms(2) in auto)

lemma find_unique:
  "distinct (map f xs) \<Longrightarrow> x \<in> set xs \<Longrightarrow> find (\<lambda>y. f y = f x) xs = Some x"
  by (induction xs) (auto simp: rev_image_eqI)

lemma find_thumbprint_None:
  "find (\<lambda>x. key_thumbprint x = k) xs = None \<longleftrightarrow> k \<notin> set (map key_thumbprint xs)"
  by (auto simp: find_None_iff)

inductive install_step :: "install_db \<Rightarrow> install_db \<Rightarrow> bool" where
  do_issue: "store_Issue fresh p s = (Some r, s') \<Longrightarrow> install_step s s'"
| do_status: "SetStatus i st s = (found, s') \<Longrightarrow> install_step s s'"
| do_refresh: "install_step s (RefreshLastSeen i now interval s)"

inductive install_steps :: "install_db \<Rightarrow> install_db \<Rightarrow> bool" where
  steps_refl: "install_steps s s"
| steps_step: "install_steps s t \<Longrightarrow> install_step t u \<Longrightarrow> install_steps s u"

definition keys_of :: "install_db \<Rightarrow> (string \<times> string) list" where
  "keys_of s = map (\<lambda>x. (ins_id x, key_thumbprint x)) (installs s)"

lemma keys_of_update:
  "keys_of (s\<lparr>installs := map f (installs s)\<rparr>) = keys_of s"
  if "\<And>x. ins_id (f x) = ins_id x \<and> key_thumbprint (f x) = key_thumbprint x"
  using that by (simp add: keys_of_def)

lemma identity_keys:
  "identity_ok s \<longleftrightarrow> distinct (map fst (keys_of s)) \<and> distinct (map snd (keys_of s))"
  by (simp add: identity_ok_def keys_of_def comp_def)

lemma install_step_keys:
  assumes "install_step s s'"
  shows "(identity_ok s \<longrightarrow> identity_ok s') \<and> set (keys_of s) \<subseteq> set (keys_of s')"
  using assms
proof cases
  case (do_issue fresh p r)
  from do_issue have "set (keys_of s) \<subseteq> set (keys_of s')"
  proof (cases rule: store_Issue_cases)
    case (admitted s1)
    from admitted(2) gates_installs[OF admitted(1)] show ?thesis
      by (elim insertInstallE) (auto simp: keys_of_def)
  qed auto
  with do_issue store_Issue_identity show ?thesis by blast
next
  case (do_status i st found)
  then have "keys_of s' = keys_of s"
    using keys_of_update[of "\<lambda>x. if ins_id x = i then x\<lparr>ins_status := st\<rparr> else x" s]
    by (auto simp: SetStatus_def)
  then show ?thesis by (simp add: identity_keys)
next
  case (do_refresh i now interval)
  then have "keys_of s' = keys_of s"
    using keys_of_update[of "\<lambda>x. if ins_id x = i \<and> last_seen_at x < now - interval
        then x\<lparr>last_seen_at := now\<rparr> else x" s]
    by (auto simp: RefreshLastSeen_def)
  then show ?thesis by (simp add: identity_keys)
qed

lemma install_steps_keys:
  "install_steps s s' \<Longrightarrow> (identity_ok s \<longrightarrow> identity_ok s') \<and> set (keys_of s) \<subseteq> set (keys_of s')"
  by (induction rule: install_steps.induct) (auto dest: install_step_keys)

lemma issue_existing:
  assumes "identity_ok s" "(i, p_Thumbprint p) \<in> set (keys_of s)"
  shows "store_Issue fresh p s =
    (Some \<lparr>Admitted = True, res_Gate = GateNone, res_InstallID = i, Existing = True\<rparr>, s)"
proof -
  from assms(2) obtain x where x: "x \<in> set (installs s)" "ins_id x = i" "key_thumbprint x = p_Thumbprint p"
    by (auto simp: keys_of_def)
  from find_unique[of key_thumbprint "installs s" x] assms(1) x
  show ?thesis by (simp add: store_Issue_def identity_ok_def)
qed

lemma issue_registers:
  assumes "store_Issue fresh p s = (Some r, s')" "Admitted r"
  shows "(res_InstallID r, p_Thumbprint p) \<in> set (keys_of s')"
  using assms(1)
proof (cases rule: store_Issue_cases)
  case (existing x)
  then show ?thesis by (force simp: keys_of_def find_Some_iff in_set_conv_nth)
next
  case (admitted s1)
  from admitted(2) show ?thesis by (elim insertInstallE) (auto simp: keys_of_def)
qed (use assms(2) in auto)

text \<open>A device keeps its identity. Once a device key has been admitted, every later issuance with the
  same key thumbprint, whatever happened to the store in between and whatever the gates say, returns
  the same install id and changes nothing: it consumes no gate and opens no second quota pool.\<close>

theorem issue_idempotent:
  assumes "install_steps empty_install_db s" and "store_Issue fresh p s = (Some r, s1)" and "Admitted r"
    and "install_steps s1 s2" and "p_Thumbprint q = p_Thumbprint p"
  shows "store_Issue fresh' q s2 =
    (Some \<lparr>Admitted = True, res_Gate = GateNone, res_InstallID = res_InstallID r, Existing = True\<rparr>, s2)"
proof (rule issue_existing)
  have "identity_ok s"
    using install_steps_keys[OF assms(1)] by (simp add: identity_ok_def empty_install_db_def)
  then have "identity_ok s1" by (rule store_Issue_identity[OF assms(2)])
  with install_steps_keys[OF assms(4)] show "identity_ok s2" by blast
  show "(res_InstallID r, p_Thumbprint q) \<in> set (keys_of s2)"
    using issue_registers[OF assms(2,3)] install_steps_keys[OF assms(4)] assms(5) by auto
qed

section \<open>The gates\<close>

definition ip_closed :: "issue_params \<Rightarrow> install_db \<Rightarrow> bool" where
  "ip_closed p s \<longleftrightarrow> ip_Enabled (IPGate p) \<and>
     (case tget (install_ip_rate s) (ip_Key (IPGate p), WindowHour (IPGate p)) of
        None \<Rightarrow> 0 | Some n \<Rightarrow> n) \<ge> ip_Max (IPGate p)"

definition global_closed :: "issue_params \<Rightarrow> install_db \<Rightarrow> bool" where
  "global_closed p s \<longleftrightarrow> global_Enabled (GlobalGate p) \<and>
     store_InstallsToday (global_WindowDay (GlobalGate p)) s \<ge> global_Cap (GlobalGate p)"

definition fp_closed :: "issue_params \<Rightarrow> install_db \<Rightarrow> bool" where
  "fp_closed p s \<longleftrightarrow> fp_Enabled (FPGate p) \<and>
     (case tget (install_fp_rate s) (FPSHA256 (FPGate p), fp_WindowDay (FPGate p)) of
        None \<Rightarrow> False
      | Some (n, last_at) \<Rightarrow> n \<ge> fp_Cap (FPGate p) \<or> last_at \<ge> Cutoff (FPGate p))"

definition closed_gate :: "issue_params \<Rightarrow> install_db \<Rightarrow> gate option" where
  "closed_gate p s =
     (if ip_closed p s then Some GateIP
      else if global_closed p s then Some GateGlobal
      else if fp_closed p s then Some GateFP
      else None)"

lemma str_less_irrefl [simp]: "\<not> str_less x x"
  by (induction x) auto

lemma tget_filter_keep: "P k \<Longrightarrow> tget (filter (\<lambda>e. P (fst e)) t) k = tget t k"
  by (induction t) (auto simp: tget_def)

lemma tget_prune:
  "tget (filter (\<lambda>e. \<not> (fst (fst e) = a \<and> str_less (snd (fst e)) w)) t) (a, w) = tget t (a, w)"
  "tget (filter (\<lambda>e. \<not> str_less (fst e) w) t') w = tget t' w"
  using tget_filter_keep[of "\<lambda>k. \<not> (fst k = a \<and> str_less (snd k) w)" "(a, w)" t]
    tget_filter_keep[of "\<lambda>k. \<not> str_less k w" w t']
  by simp_all

lemmas tget_pruned = tget_prune tget_prune[simplified]

lemma bump_insert_ignore:
  "bump k cap (insert_ignore k 0 t) =
     (let n = (case tget t k of None \<Rightarrow> 0 | Some n \<Rightarrow> n)
      in if n < cap then Some (tput k (n + 1) (insert_ignore k 0 t)) else None)"
  by (simp add: bump_def tget_insert_ignore Let_def)

lemma ip_step:
  "gate_step (ip_Enabled (IPGate p)) (bumpIPRate (IPGate p)) GateIP s = Inl g \<longleftrightarrow> ip_closed p s \<and> g = GateIP"
  by (auto simp: gate_step_def bumpIPRate_def bump_insert_ignore tget_pruned ip_closed_def Let_def
      split: option.splits if_splits)

lemma global_step:
  "gate_step (global_Enabled (GlobalGate p)) (bumpGlobalRate (GlobalGate p)) GateGlobal s = Inl g \<longleftrightarrow>
     global_closed p s \<and> g = GateGlobal"
  by (auto simp: gate_step_def bumpGlobalRate_def bump_insert_ignore tget_pruned global_closed_def
      store_InstallsToday_def Let_def split: option.splits if_splits)

lemma fp_step:
  "gate_step (fp_Enabled (FPGate p)) (bumpFPRate (FPGate p)) GateFP s = Inl g \<longleftrightarrow> fp_closed p s \<and> g = GateFP"
  by (auto simp: gate_step_def bumpFPRate_def tget_pruned fp_closed_def Let_def split: option.splits if_splits)

lemma ip_step_frame:
  "gate_step e (bumpIPRate g) w s = Inr s' \<Longrightarrow>
     install_global_rate s' = install_global_rate s \<and> install_fp_rate s' = install_fp_rate s"
  by (auto simp: gate_step_def bumpIPRate_def Let_def split: if_splits option.splits)

lemma global_step_frame:
  "gate_step e (bumpGlobalRate g) w s = Inr s' \<Longrightarrow>
     install_ip_rate s' = install_ip_rate s \<and> install_fp_rate s' = install_fp_rate s"
  by (auto simp: gate_step_def bumpGlobalRate_def Let_def split: if_splits option.splits)

lemma run_gates_closed: "run_gates p s = Inl g \<longleftrightarrow> closed_gate p s = Some g"
proof (cases "gate_step (ip_Enabled (IPGate p)) (bumpIPRate (IPGate p)) GateIP s")
  case (Inl g1)
  with ip_step[of p s g1] show ?thesis by (auto simp: run_gates_def closed_gate_def)
next
  case ip: (Inr s1)
  then have noip: "\<not> ip_closed p s" using ip_step[of p s GateIP] by auto
  note fr = ip_step_frame[OF ip]
  have gl: "global_closed p s1 = global_closed p s" "fp_closed p s1 = fp_closed p s"
    using fr by (simp_all add: global_closed_def store_InstallsToday_def fp_closed_def)
  show ?thesis
  proof (cases "gate_step (global_Enabled (GlobalGate p)) (bumpGlobalRate (GlobalGate p)) GateGlobal s1")
    case (Inl g2)
    with global_step[of p s1 g2] ip noip gl show ?thesis by (auto simp: run_gates_def closed_gate_def)
  next
    case gb: (Inr s2)
    then have "\<not> global_closed p s" using global_step[of p s1 GateGlobal] gl by auto
    moreover have "fp_closed p s2 = fp_closed p s"
      using global_step_frame[OF gb] gl by (simp add: fp_closed_def)
    ultimately show ?thesis
      using ip gb noip fp_step[of p s2 g] by (auto simp: run_gates_def closed_gate_def)
  qed
qed

text \<open>The exact outcome of an issuance for a new device: it is rejected exactly when a gate is
  closed, the first closed one in the order per-IP, global, per-fingerprint names the reject, and a
  rejected issuance changes no counter and no row. Otherwise it is admitted with the proposed id, or
  with the regenerated one when that id was taken.\<close>

theorem issue_outcome:
  assumes "p_Thumbprint p \<notin> set (map key_thumbprint (installs s))"
    and "fresh \<notin> set (map ins_id (installs s))"
  shows "case closed_gate p s of
      Some g \<Rightarrow> store_Issue fresh p s =
        (Some \<lparr>Admitted = False, res_Gate = g, res_InstallID = [], Existing = False\<rparr>, s)
    | None \<Rightarrow> (\<exists>s' x. installs s' = installs s @ [x] \<and> ins_status x = StatusActive \<and>
        key_thumbprint x = p_Thumbprint p \<and>
        ins_id x = (if p_InstallID p \<in> set (map ins_id (installs s)) then fresh else p_InstallID p) \<and>
        store_Issue fresh p s =
          (Some \<lparr>Admitted = True, res_Gate = GateNone, res_InstallID = ins_id x, Existing = False\<rparr>, s'))"
proof -
  have new: "find (\<lambda>x. key_thumbprint x = p_Thumbprint p) (installs s) = None"
    using assms(1) by (simp add: find_thumbprint_None)
  show ?thesis
  proof (cases "run_gates p s")
    case (Inl g)
    with new run_gates_closed[of p s g] show ?thesis by (simp add: store_Issue_def)
  next
    case (Inr s1)
    then have "closed_gate p s = None" using run_gates_closed[of p s] by (cases "closed_gate p s") auto
    with new Inr assms gates_installs[OF Inr] show ?thesis
      by (cases "p_InstallID p \<in> set (map ins_id (installs s))")
        (simp_all add: store_Issue_def insertInstall_def Let_def)
  qed
qed

section \<open>The daily valve\<close>

text \<open>Issuances of one day under a cap, mixed with status changes and last-seen writes; \<open>n\<close> counts the
  new devices admitted.\<close>

inductive day_run :: "string \<Rightarrow> int64 \<Rightarrow> install_db \<Rightarrow> nat \<Rightarrow> bool" for d C where
  day_start: "tget (install_global_rate s) d = None \<Longrightarrow> day_run d C s 0"
| day_issue: "day_run d C s n \<Longrightarrow> global_Enabled (GlobalGate p) \<Longrightarrow> global_WindowDay (GlobalGate p) = d \<Longrightarrow>
     global_Cap (GlobalGate p) \<le> C \<Longrightarrow> store_Issue fresh p s = (Some r, s') \<Longrightarrow>
     day_run d C s' (if Admitted r \<and> \<not> Existing r then n + 1 else n)"
| day_status: "day_run d C s n \<Longrightarrow> SetStatus i st s = (found, s') \<Longrightarrow> day_run d C s' n"
| day_refresh: "day_run d C s n \<Longrightarrow> day_run d C (RefreshLastSeen i now interval s) n"

lemma run_gates_global:
  assumes "run_gates p s = Inr s'" "global_Enabled (GlobalGate p)"
  shows "store_InstallsToday (global_WindowDay (GlobalGate p)) s < global_Cap (GlobalGate p)"
    "store_InstallsToday (global_WindowDay (GlobalGate p)) s' =
       store_InstallsToday (global_WindowDay (GlobalGate p)) s + 1"
  using assms
  by (auto simp: run_gates_def gate_step_def rbind_Inr_iff bumpIPRate_def bumpGlobalRate_def bumpFPRate_def
      bump_insert_ignore tget_pruned store_InstallsToday_def Let_def split: if_splits option.splits prod.splits)

lemma insertInstall_rates: "insertInstall i p s = Some s' \<Longrightarrow> install_global_rate s' = install_global_rate s"
  by (auto simp: insertInstall_def split: if_splits)

text \<open>The daily valve holds: however issuances, bans and lookups interleave on a day, and whatever the
  other gates do, the number of new devices admitted that day is the recorded count and never exceeds
  the largest cap in force.\<close>

theorem day_valve:
  assumes "day_run d C s n" and "0 \<le> C"
  shows "int n = store_InstallsToday d s \<and> int n \<le> C"
  using assms(1)
proof induction
  case (day_issue s n p fresh r s')
  from day_issue.hyps(5) show ?case
  proof (cases rule: store_Issue_cases)
    case (admitted s1)
    have "store_InstallsToday d s' = store_InstallsToday d s1"
      using insertInstall_rates[OF admitted(2)] by (simp add: store_InstallsToday_def)
    with run_gates_global[OF admitted(1) day_issue.hyps(2)] day_issue admitted show ?thesis by auto
  qed (use day_issue.IH in auto)
next
  case (day_status s n i st found s')
  then show ?case by (auto simp: SetStatus_def store_InstallsToday_def)
qed (use assms(2) in \<open>auto simp: store_InstallsToday_def RefreshLastSeen_def\<close>)

section \<open>The fingerprint cooldown\<close>

lemma issue_admits:
  assumes "p_Thumbprint p \<notin> set (map key_thumbprint (installs s))" "closed_gate p s = None"
    and "p_InstallID p \<notin> set (map ins_id (installs s))"
  shows "\<exists>s1 s2. run_gates p s = Inr s1 \<and> insertInstall (p_InstallID p) p s1 = Some s2 \<and>
    store_Issue fresh p s =
      (Some \<lparr>Admitted = True, res_Gate = GateNone, res_InstallID = p_InstallID p, Existing = False\<rparr>, s2)"
proof -
  have "find (\<lambda>x. key_thumbprint x = p_Thumbprint p) (installs s) = None"
    using assms(1) by (simp add: find_thumbprint_None)
  moreover obtain s1 where "run_gates p s = Inr s1"
    using run_gates_closed[of p s] assms(2) by (cases "run_gates p s") auto
  ultimately show ?thesis
    using assms gates_installs by (auto simp: store_Issue_def insertInstall_def Let_def)
qed

text \<open>The per-fingerprint cooldown never binds. With only the cooldown configured, of any length
  whatsoever, a second device that shows the same fingerprint on the same day is admitted at every
  later instant, one second later included: the bucket stores the cooldown boundary of the first
  issuance where the time of that issuance belongs.\<close>

theorem fp_cooldown_never_blocks:
  assumes cfg: "InstallPerFPDaily cfg = 0" "InstallPerIPHour cfg = 0" "InstallGlobalDailyCap cfg = 0"
    and cool: "0 < InstallPerFPCooldownSec cfg" and fp: "req_Fingerprint req \<noteq> []"
    and later: "t1 < t2" "FormatDay (Location cfg) t2 = FormatDay (Location cfg) t1"
    and ids: "i1 \<noteq> i2" "k1 \<noteq> k2"
  shows "\<exists>s1 s2. Issue hash cfg (i1, j1) t1 req pk1 k1 ip1 \<lparr>store = empty_install_db, lastSeen = [], created = 0\<rparr> = (Inr i1, s1) \<and>
      Issue hash cfg (i2, j2) t2 req pk2 k2 ip2 s1 = (Inr i2, s2)"
proof -
  let ?k = "(hash (req_Fingerprint req), FormatDay (Location cfg) t1)"
  let ?s1 = "empty_install_db\<lparr>install_fp_rate := [(?k, (1, t1 - InstallPerFPCooldownSec cfg))],
      installs := [\<lparr>ins_id = i1, public_key = pk1, key_thumbprint = k1,
        fingerprint = nullStr (req_Fingerprint req), client = nullStr (req_Client req),
        ins_status = StatusActive, install_created_at = t1, last_seen_at = t1\<rparr>]\<rparr>"
  note simps = issueParams_def globalGate_def fpGate_def cfg store_Issue_def run_gates_def gate_step_def
    bumpFPRate_def insertInstall_def empty_install_db_def Issue_def Let_def tput_def tget_def
    fpDailyCapDisabledSentinel_def
  have "Issue hash cfg (i1, j1) t1 req pk1 k1 ip1 \<lparr>store = empty_install_db, lastSeen = [], created = 0\<rparr> =
      (Inr i1, \<lparr>store = ?s1, lastSeen = [], created = 1\<rparr>)"
    using fp cool by (simp add: simps)
  moreover have "\<exists>s2. Issue hash cfg (i2, j2) t2 req pk2 k2 ip2 \<lparr>store = ?s1, lastSeen = [], created = 1\<rparr> = (Inr i2, s2)"
    using fp cool later ids by (simp add: simps)
  ultimately show ?thesis by blast
qed

section \<open>The last-seen throttle\<close>

fun refresh_run :: "(string, int) table \<Rightarrow> (int \<times> string) list \<Rightarrow> bool list" where
  "refresh_run seen [] = []"
| "refresh_run seen ((now, i) # calls) =
     (let (b, seen') = shouldRefresh i now seen in b # refresh_run seen' calls)"

definition throttled :: "string \<Rightarrow> int \<Rightarrow> int \<Rightarrow> (string, int) table \<Rightarrow> bool" where
  "throttled i t1 now seen \<longleftrightarrow> distinct (map fst seen) \<and> t1 \<le> now \<and>
     ((\<exists>t. tget seen i = Some t \<and> t1 \<le> t) \<or> t1 + LastSeenRefreshInterval \<le> now)"

lemma tget_filter:
  "distinct (map fst t) \<Longrightarrow> tget (filter P t) k = (case tget t k of None \<Rightarrow> None | Some v \<Rightarrow> if P (k, v) then Some v else None)"
proof (induction t)
  case (Cons e t)
  have "fst e \<notin> fst ` set t \<Longrightarrow> tget (filter P t) (fst e) = None"
    by (auto simp: tget_def map_of_eq_None_iff)
  with Cons show ?case by (cases e) (auto simp: tget_def split: option.splits)
qed (simp add: tget_def)

lemma distinct_filter_keys: "distinct (map fst t) \<Longrightarrow> distinct (map fst (filter P t))"
  by (simp add: distinct_map_filter)

lemma throttled_step:
  assumes "throttled i t1 now seen" "now \<le> now'" "shouldRefresh j now' seen = (b, seen')"
  shows "throttled i t1 now' seen'" "j = i \<Longrightarrow> b \<Longrightarrow> t1 + LastSeenRefreshInterval \<le> now'"
  using assms
  by (auto simp: throttled_def shouldRefresh_def tget_filter distinct_filter_keys
      split: option.splits if_splits)

lemma refresh_run_throttled:
  assumes "throttled i t1 now seen" "sorted (now # map fst calls)" "n < length calls"
    and "snd (calls ! n) = i" "refresh_run seen calls ! n"
  shows "t1 + LastSeenRefreshInterval \<le> fst (calls ! n)"
  using assms
proof (induction calls arbitrary: seen now n)
  case (Cons c calls)
  obtain now' j where c: "c = (now', j)" by (cases c)
  obtain b seen' where r: "shouldRefresh j now' seen = (b, seen')" by (cases "shouldRefresh j now' seen")
  note step = throttled_step[OF Cons.prems(1) _ r]
  show ?case
  proof (cases n)
    case 0
    with Cons.prems step c r show ?thesis by simp
  next
    case (Suc m)
    with Cons.prems step(1) c r show ?thesis by (intro Cons.IH[of now' seen' m, THEN order_trans]) auto
  qed
qed simp

text \<open>The last-seen writes of one install are spaced: among any lookups in time order, starting from
  an empty throttle map and however many other installs pass through it and force it to prune, two
  lookups of the same install that both write are at least the refresh interval apart.\<close>

theorem last_seen_spaced:
  assumes "sorted (map fst calls)" and "m < n" and "n < length calls" and "snd (calls ! m) = snd (calls ! n)"
    and "refresh_run [] calls ! m" and "refresh_run [] calls ! n"
  shows "fst (calls ! m) + LastSeenRefreshInterval \<le> fst (calls ! n)"
proof -
  have "fst (calls ! m) + LastSeenRefreshInterval \<le> fst (calls ! n)"
    if "distinct (map fst seen)" "refresh_run seen calls ! m" "refresh_run seen calls ! n" for seen
    using that assms(1-4)
  proof (induction calls arbitrary: seen m n)
    case (Cons c calls)
    obtain now j where c: "c = (now, j)" by (cases c)
    obtain b seen' where r: "shouldRefresh j now seen = (b, seen')" by (cases "shouldRefresh j now seen")
    have d: "distinct (map fst seen')"
      using Cons.prems(1) r by (auto simp: shouldRefresh_def distinct_filter_keys split: option.splits if_splits)
    obtain n' where n: "n = Suc n'" using Cons.prems(5) by (cases n) auto
    show ?case
    proof (cases m)
      case 0
      then have b: "b" using Cons.prems c r by simp
      then have "throttled j now now seen'"
        using r d by (auto simp: throttled_def shouldRefresh_def split: option.splits if_splits)
      from refresh_run_throttled[OF this] show ?thesis using Cons.prems c r n 0 by simp
    next
      case (Suc m')
      with Cons.IH[of seen' m' n'] Cons.prems n d c r show ?thesis by simp
    qed
  qed simp
  from this[of "[]"] assms show ?thesis by simp
qed

section \<open>Witnesses\<close>

definition demo_params :: "string \<Rightarrow> string \<Rightarrow> issue_params" where
  "demo_params i k =
     \<lparr>p_InstallID = i, p_PublicKey = ''pk'', p_Thumbprint = k, p_Fingerprint = ''fp'', p_Client = [],
      p_Now = 50, IPGate = \<lparr>ip_Enabled = True, ip_Key = ''a'', WindowHour = ''h'', ip_Max = 1\<rparr>,
      GlobalGate = \<lparr>global_Enabled = True, global_WindowDay = ''d'', global_Cap = 5\<rparr>,
      FPGate = \<lparr>fp_Enabled = False, FPSHA256 = [], fp_WindowDay = [], fp_Cap = 0, Cutoff = 0\<rparr>\<rparr>"

definition demo_store :: install_db where
  "demo_store = snd (store_Issue ''j'' (demo_params ''i1'' ''k1'') empty_install_db)"

lemma demo_issue:
  "store_Issue ''j'' (demo_params ''i1'' ''k1'') empty_install_db =
     (Some \<lparr>Admitted = True, res_Gate = GateNone, res_InstallID = ''i1'', Existing = False\<rparr>, demo_store)"
  unfolding demo_store_def by code_simp

lemma demo_store_facts:
  "\<not> p_Thumbprint (demo_params ''i2'' ''k2'') \<in> set (map key_thumbprint (installs demo_store))"
  "\<not> ''j2'' \<in> set (map ins_id (installs demo_store))"
  "closed_gate (demo_params ''i2'' ''k2'') demo_store = Some GateIP"
  by code_simp+

theorem issue_idempotent_witness:
  "store_Issue ''j'' (demo_params ''i9'' ''k1'') demo_store =
     (Some \<lparr>Admitted = True, res_Gate = GateNone, res_InstallID = ''i1'', Existing = True\<rparr>, demo_store)"
  using issue_idempotent[OF steps_refl demo_issue _ steps_refl, of "demo_params ''i9'' ''k1''" "''j''"]
  by (simp add: demo_params_def)

theorem issue_outcome_witness:
  "store_Issue ''j2'' (demo_params ''i2'' ''k2'') demo_store =
     (Some \<lparr>Admitted = False, res_Gate = GateIP, res_InstallID = [], Existing = False\<rparr>, demo_store)"
  using issue_outcome[OF demo_store_facts(1,2)] by (simp add: demo_store_facts(3))

theorem day_valve_witness: "store_InstallsToday ''d'' demo_store = 1"
proof -
  have "day_run ''d'' 5 demo_store (if True \<and> \<not> False then 0 + 1 else 0)"
    using day_issue[OF day_start _ _ _ demo_issue, of "''d''" 5]
    by (simp add: demo_params_def empty_install_db_def tget_def)
  from day_valve[OF this] show ?thesis by simp
qed

definition demo_cooldown :: install_config where
  "demo_cooldown = \<lparr>InstallPerIPHour = 0, InstallGlobalDailyCap = 0, InstallPerFPDaily = 0,
     InstallPerFPCooldownSec = 600, Location = utc\<rparr>"

theorem fp_cooldown_never_blocks_witness:
  "\<exists>s1 s2. Issue (\<lambda>x. x) demo_cooldown (''i1'', ''j'') 1000000 \<lparr>req_Fingerprint = ''fp'', req_Client = []\<rparr> ''pk'' ''k1'' ''ip''
       \<lparr>store = empty_install_db, lastSeen = [], created = 0\<rparr> = (Inr ''i1'', s1) \<and>
     Issue (\<lambda>x. x) demo_cooldown (''i2'', ''j'') 1000001 \<lparr>req_Fingerprint = ''fp'', req_Client = []\<rparr> ''pk'' ''k2'' ''ip'' s1 = (Inr ''i2'', s2)"
proof (rule fp_cooldown_never_blocks)
  show "FormatDay (Location demo_cooldown) 1000001 = FormatDay (Location demo_cooldown) 1000000"
    by (simp add: FormatDay_def FormatMonth_def civil_at_def local_seconds_def demo_cooldown_def utc_def)
qed (simp_all add: demo_cooldown_def)

theorem last_seen_spaced_witness:
  "refresh_run [] [(0, ''a''), (5, ''a''), (600, ''a'')] = [True, False, True] \<and>
   fst ([(0 :: int, ''a''), (5, ''a''), (600, ''a'')] ! 0) + LastSeenRefreshInterval \<le> 600"
proof -
  have run: "refresh_run [] [(0, ''a''), (5, ''a''), (600, ''a'')] = [True, False, True]" by code_simp
  then show ?thesis using last_seen_spaced[of "[(0, ''a''), (5, ''a''), (600, ''a'')]" 0 2] by simp
qed

end
