(* ===== verification/Audit_Ring.thy ===== *)
theory Audit_Ring
  imports Wire
begin

text \<open>
  The in-process audit ring of the dashboard (\<open>internal/app/dashboard/audit.go\<close>): its slots and
  write ordinal as the code keeps them, the abstraction to the list of retained events (newest
  first), and the keyset pages read from it.
\<close>

section \<open>The ring\<close>

record audit_event =
  Seq :: int64
  At :: int
  Action :: string
  Target :: string
  Reason :: string
  Outcome :: string
  Actor :: string

definition zero_event :: audit_event where
  "zero_event = \<lparr>Seq = 0, At = 0, Action = [], Target = [], Reason = [], Outcome = [], Actor = []\<rparr>"

record audit_ring =
  buf :: "audit_event list"
  next_slot :: nat
  full :: bool
  last_seq :: int64

definition newAuditRing :: "int \<Rightarrow> audit_ring" where
  "newAuditRing capacity =
     (let c = (if capacity \<le> 0 then 512 else capacity)
      in \<lparr>buf = replicate (nat c) zero_event, next_slot = 0, full = False, last_seq = 0\<rparr>)"

definition stamp :: "int \<Rightarrow> audit_ring \<Rightarrow> audit_event \<Rightarrow> audit_event" where
  "stamp now a e = e\<lparr>At := now, Seq := wrap64 (last_seq a + 1)\<rparr>"

definition record_event :: "int \<Rightarrow> audit_event \<Rightarrow> audit_ring \<Rightarrow> audit_ring" where
  "record_event now e a =
     (let n = (next_slot a + 1) mod length (buf a)
      in \<lparr>buf = (buf a)[next_slot a := stamp now a e],
          next_slot = n,
          full = (n = 0 \<or> full a),
          last_seq = wrap64 (last_seq a + 1)\<rparr>)"

definition ring_total :: "audit_ring \<Rightarrow> nat" where
  "ring_total a = (if full a then length (buf a) else next_slot a)"

text \<open>The slot the read loop visits at step \<open>i\<close>: \<open>next - 1 - i\<close>, moved up by the capacity while it is
  negative.\<close>

definition slot :: "audit_ring \<Rightarrow> nat \<Rightarrow> nat" where
  "slot a i = nat ((int (next_slot a) - 1 - int i) mod int (length (buf a)))"

definition ring_view :: "audit_ring \<Rightarrow> audit_event list" where
  "ring_view a = map (\<lambda>i. buf a ! slot a i) [0..<ring_total a]"

fun scan :: "int64 \<Rightarrow> int \<Rightarrow> audit_event list \<Rightarrow> int64 \<Rightarrow> audit_event list \<Rightarrow>
    audit_event list \<times> int64 \<times> bool" where
  "scan before limit out nxt [] = (out, nxt, False)"
| "scan before limit out nxt (ev # evs) =
     (if Seq ev = 0 then scan before limit out nxt evs
      else if before > 0 \<and> Seq ev \<ge> before then scan before limit out nxt evs
      else if int (length out) = limit then (out, nxt, True)
      else scan before limit (out @ [ev]) (Seq ev) evs)"

text \<open>
  \<open>make([]AuditEvent, 0, limit)\<close> panics when the 112-byte elements would not fit the address space
  (\<open>runtime.makeslice\<close>, 2^48 bytes on 64-bit targets); \<open>None\<close> is that panic.
\<close>

definition maxAuditCap :: int where "maxAuditCap = 2 ^ 48 div 112"

definition ring_page :: "int64 \<Rightarrow> int \<Rightarrow> audit_ring \<Rightarrow> (audit_event list \<times> int64 \<times> bool) option" where
  "ring_page before limit a =
     (let l = (if limit \<le> 0 then 50 else limit)
      in if l > maxAuditCap then None else Some (scan before l [] 0 (ring_view a)))"

section \<open>Invariant and refinement\<close>

definition ring_ok :: "audit_ring \<Rightarrow> bool" where
  "ring_ok a \<longleftrightarrow> next_slot a < length (buf a) \<and> 0 \<le> last_seq a \<and> last_seq a \<le> MaxInt64 \<and>
     int (ring_total a) \<le> last_seq a \<and> (\<not> full a \<longrightarrow> last_seq a = int (next_slot a)) \<and>
     (\<forall>i < ring_total a. Seq (ring_view a ! i) = last_seq a - int i)"

lemma ring_view_length [simp]: "length (ring_view a) = ring_total a"
  by (simp add: ring_view_def)

lemma newAuditRing_ok: "ring_ok (newAuditRing c)" "ring_view (newAuditRing c) = []"
  by (auto simp: newAuditRing_def ring_ok_def ring_total_def ring_view_def Let_def)

lemma ring_total_le: "next_slot a < length (buf a) \<Longrightarrow> ring_total a \<le> length (buf a)"
  by (auto simp: ring_total_def)

lemma slot_lt: "next_slot a < length (buf a) \<Longrightarrow> slot a i < length (buf a)"
  by (cases "length (buf a)") (auto simp: slot_def nat_less_iff)

lemma slot_record:
  assumes "next_slot a < length (buf a)"
  shows "slot (record_event now e a) 0 = next_slot a"
    "slot (record_event now e a) (Suc i) = slot a i"
proof -
  let ?n = "int (length (buf a))"
  have nxt: "int (next_slot (record_event now e a)) = (int (next_slot a) + 1) mod ?n"
    by (simp add: record_event_def Let_def zmod_int add.commute)
  have len: "length (buf (record_event now e a)) = length (buf a)"
    by (simp add: record_event_def Let_def)
  have "((int (next_slot a) + 1) mod ?n - 1 - int j) mod ?n = (int (next_slot a) + 1 - 1 - int j) mod ?n" for j
    by (metis (no_types, opaque_lifting) mod_diff_left_eq)
  then have step: "slot (record_event now e a) j = nat ((int (next_slot a) - int j) mod ?n)" for j
    by (simp add: slot_def nxt len)
  show "slot (record_event now e a) 0 = next_slot a"
    using assms by (simp add: step)
  show "slot (record_event now e a) (Suc i) = slot a i"
    unfolding step by (simp only: slot_def of_nat_Suc diff_diff_eq)
qed

lemma slot_other:
  assumes "next_slot a < length (buf a)" "i + 1 < length (buf a)"
  shows "slot a i \<noteq> next_slot a"
proof
  let ?n = "int (length (buf a))"
  assume "slot a i = next_slot a"
  moreover have "0 \<le> (int (next_slot a) - 1 - int i) mod ?n" using assms by (intro pos_mod_sign) auto
  ultimately have "(int (next_slot a) - 1 - int i) mod ?n = int (next_slot a) mod ?n"
    using assms by (simp add: slot_def flip: int_eq_iff)
  then have "?n dvd (int (next_slot a) - 1 - int i) - int (next_slot a)"
    by (simp add: mod_eq_dvd_iff)
  then have "?n dvd - (1 + int i)" by (simp add: algebra_simps)
  then have "?n dvd 1 + int i" by (simp only: dvd_minus_iff)
  then have "?n \<le> 1 + int i" by (rule zdvd_imp_le) simp
  with assms(2) show False by simp
qed

lemma ring_view_record:
  assumes ok: "ring_ok a"
  shows "ring_view (record_event now e a) = take (length (buf a)) (stamp now a e # ring_view a)"
proof -
  let ?a = "record_event now e a"
  have n: "next_slot a < length (buf a)" using ok by (simp add: ring_ok_def)
  have tot: "ring_total ?a = min (length (buf a)) (Suc (ring_total a))"
  proof (cases "next_slot a + 1 = length (buf a)")
    case False
    with n have "(next_slot a + 1) mod length (buf a) = next_slot a + 1" by simp
    with n show ?thesis by (auto simp: ring_total_def record_event_def Let_def)
  qed (use n in \<open>auto simp: ring_total_def record_event_def Let_def\<close>)
  have "ring_view ?a ! i = (stamp now a e # ring_view a) ! i"
    if i: "i < ring_total ?a" for i
  proof (cases i)
    case 0
    with i slot_record(1)[OF n, of now e] n show ?thesis
      by (simp add: ring_view_def) (simp add: record_event_def Let_def)
  next
    case (Suc j)
    with i tot n slot_record(2)[OF n, of now e j] slot_other[OF n, of j]
    show ?thesis by (simp add: ring_view_def) (simp add: record_event_def Let_def)
  qed
  then show ?thesis by (intro nth_equalityI) (simp_all add: tot)
qed

lemma record_event_ok:
  assumes ok: "ring_ok a" and room: "last_seq a < MaxInt64"
  shows "ring_ok (record_event now e a)" "last_seq (record_event now e a) = last_seq a + 1"
    "length (buf (record_event now e a)) = length (buf a)" "Seq (stamp now a e) = last_seq a + 1"
proof -
  let ?a = "record_event now e a"
  note D = ok[unfolded ring_ok_def]
  have w: "wrap64 (last_seq a + 1) = last_seq a + 1"
    using D room by (intro wrap64_id is_int64_nonneg) auto
  show seq: "last_seq ?a = last_seq a + 1" and len: "length (buf ?a) = length (buf a)"
    and st: "Seq (stamp now a e) = last_seq a + 1"
    by (simp_all add: record_event_def Let_def stamp_def w)
  have tot: "ring_total ?a = length (take (length (buf a)) (stamp now a e # ring_view a))"
    using arg_cong[OF ring_view_record[OF ok, of now e], of length] by simp
  have "Seq (ring_view ?a ! i) = last_seq ?a - int i" if "i < ring_total ?a" for i
    using that D by (cases i) (auto simp: ring_view_record[OF ok] seq st tot)
  moreover have "int (ring_total ?a) \<le> last_seq ?a" using D by (auto simp: tot seq)
  moreover have "next_slot ?a < length (buf ?a)"
    using D by (auto simp: record_event_def Let_def intro!: mod_less_divisor)
  moreover have "\<not> full ?a \<longrightarrow> last_seq ?a = int (next_slot ?a)"
  proof
    assume nf: "\<not> full ?a"
    then have "(next_slot a + 1) mod length (buf a) \<noteq> 0" "\<not> full a"
      by (simp_all add: record_event_def Let_def)
    then have "(next_slot a + 1) mod length (buf a) = next_slot a + 1"
      using D by (metis Suc_eq_plus1 Suc_leI le_neq_implies_less mod_less mod_self)
    with \<open>\<not> full a\<close> D show "last_seq ?a = int (next_slot ?a)"
      by (simp add: seq) (simp add: record_event_def Let_def)
  qed
  ultimately show "ring_ok ?a" using D room by (simp add: ring_ok_def seq)
qed

section \<open>Pages\<close>

definition below :: "int64 \<Rightarrow> audit_event \<Rightarrow> bool" where
  "below before ev \<longleftrightarrow> before \<le> 0 \<or> Seq ev < before"

lemma scan_spec:
  assumes "int (length out) \<le> limit" "\<forall>ev \<in> set evs. Seq ev \<noteq> 0"
  shows "scan before limit out nxt evs =
    (let new = take (nat limit - length out) (filter (below before) evs)
     in (out @ new, if new = [] then nxt else Seq (last new),
         length (filter (below before) evs) > nat limit - length out))"
  using assms
proof (induction evs arbitrary: out nxt)
  case (Cons ev evs)
  show ?case
  proof (cases "below before ev")
    case False
    with Cons show ?thesis by (auto simp: below_def)
  next
    case True
    show ?thesis
    proof (cases "int (length out) = limit")
      case eq: True
      with True Cons.prems show ?thesis by (auto simp: below_def)
    next
      case False
      then have lt: "nat limit - length out = Suc (nat limit - length (out @ [ev]))"
        using Cons.prems by auto
      have "scan before limit out nxt (ev # evs) = scan before limit (out @ [ev]) (Seq ev) evs"
        using True False Cons.prems by (auto simp: below_def)
      also have "\<dots> = (let new = take (nat limit - length (out @ [ev])) (filter (below before) evs)
          in ((out @ [ev]) @ new, if new = [] then Seq ev else Seq (last new),
              length (filter (below before) evs) > nat limit - length (out @ [ev])))"
        using False Cons.prems by (intro Cons.IH) auto
      finally show ?thesis using True by (simp add: lt Let_def)
    qed
  qed
qed simp

lemma ring_view_seqs:
  assumes "ring_ok a"
  shows "sorted_wrt (\<lambda>x y. Seq x > Seq y) (ring_view a)" "ev \<in> set (ring_view a) \<Longrightarrow> 0 < Seq ev"
    "ev \<in> set (ring_view a) \<Longrightarrow> Seq ev \<le> last_seq a"
  using assms
  by (auto simp: ring_ok_def sorted_wrt_iff_nth_less in_set_conv_nth)

lemma ring_page_spec:
  assumes "ring_ok a" "0 < limit" "limit \<le> maxAuditCap"
  shows "ring_page before limit a =
    (let evs = filter (below before) (ring_view a); new = take (nat limit) evs
     in Some (new, if new = [] then 0 else Seq (last new), length evs > nat limit))"
proof -
  have "\<forall>ev \<in> set (ring_view a). Seq ev \<noteq> 0" using ring_view_seqs(2)[OF assms(1)] by force
  with assms show ?thesis by (simp add: ring_page_def scan_spec Let_def)
qed

end
