(* ===== verification/Ops.thy ===== *)
theory Ops
  imports Complex_Main Wire
begin

text \<open>
  The two in-process observers behind the dashboard overview: the alerter
  (\<open>internal/pkg/alert/alert.go\<close>), which keeps the firing state of eight conditions, and the
  sliding-window rate sampler (\<open>internal/pkg/ratesample/ratesample.go\<close>). Times are seconds; the rates
  are exact fractions where the code rounds to \<open>float64\<close>.
\<close>

section \<open>The alerter\<close>

record thresholds =
  BudgetWarnFraction :: rat
  ReservationsOpenAt :: int64
  UpstreamErrorBurst :: int64
  InstallBurst :: int64
  TokensThrottledAt :: int64

record signals =
  BudgetUsed :: int64
  BudgetLimit :: int64
  ReservationsOpen :: int64
  BreakerOpen :: bool
  DiskDegraded :: bool
  UpstreamErrors :: int64
  InstallsThisWindow :: int64
  TokensThrottled :: int64

text \<open>\<open>None\<close> is Go's zero time: the condition has never fired.\<close>

record alert_state =
  alert_Reason :: string
  Severity :: string
  Firing :: bool
  alert_Message :: string
  LastFiredAt :: "int option"

datatype condition =
    BudgetExhausted | BudgetHigh | Reservations | BreakerIsOpen | DiskReadOnly | ErrorBurst | InstallsBurst
  | TokenThrottle

definition alert_order :: "condition list" where
  "alert_order = [BudgetExhausted, BudgetHigh, Reservations, BreakerIsOpen, DiskReadOnly, ErrorBurst, InstallsBurst,
     TokenThrottle]"

fun condition_reason :: "condition \<Rightarrow> string" where
  "condition_reason BudgetExhausted = ''budget_exhausted''"
| "condition_reason BudgetHigh = ''budget_high''"
| "condition_reason Reservations = ''reservations_open_backlog''"
| "condition_reason BreakerIsOpen = ''upstream_breaker_open''"
| "condition_reason DiskReadOnly = ''disk_read_only''"
| "condition_reason ErrorBurst = ''upstream_error_burst''"
| "condition_reason InstallsBurst = ''install_burst''"
| "condition_reason TokenThrottle = ''token_throttle''"

definition emdash :: string where "emdash = '' '' @ bytes [226, 128, 148] @ '' ''"

fun condition_severity :: "condition \<Rightarrow> string" where
  "condition_severity BudgetExhausted = ''critical''"
| "condition_severity BreakerIsOpen = ''critical''"
| "condition_severity DiskReadOnly = ''critical''"
| "condition_severity _ = ''warning''"

fun alert_text :: "condition \<Rightarrow> string" where
  "alert_text BudgetExhausted =
     ''daily spend budget EXHAUSTED (spend >= limit)'' @ emdash @ ''new requests shedding BUDGET_EXHAUSTED''"
| "alert_text BudgetHigh =
     ''daily spend budget high (spend >= threshold of limit)'' @ emdash @ ''wallet guardrail approaching''"
| "alert_text Reservations =
     ''open reservations (settled IS NULL) backlog high'' @ emdash @ ''possible missed-settle leak; check reconciler''"
| "alert_text BreakerIsOpen =
     ''upstream circuit breaker OPEN'' @ emdash @ ''upstream unhealthy; requests shedding UPSTREAM_BUSY''"
| "alert_text DiskReadOnly =
     ''data disk low'' @ emdash @ ''read-only degradation active; new requests shedding DISK_LOW; free space or rotate WAL''"
| "alert_text ErrorBurst =
     ''upstream error rate spiking'' @ emdash @ ''errored attempts this window crossed the burst ceiling; check upstream health''"
| "alert_text InstallsBurst =
     ''install issuance rate high this window'' @ emdash @ ''could be organic growth or a registration wave; review install gates if it is sustained''"
| "alert_text TokenThrottle =
     ''installs currently under per-token anomaly auto-throttle'' @ emdash @ ''reversible gentle slow-down active; review the anomaly threshold if it is broad or sustained''"

definition default_thresholds :: "thresholds \<Rightarrow> thresholds" where
  "default_thresholds th =
     \<lparr>BudgetWarnFraction = (if BudgetWarnFraction th \<le> 0 then 8 / 10 else BudgetWarnFraction th),
      ReservationsOpenAt = (if ReservationsOpenAt th \<le> 0 then 100 else ReservationsOpenAt th),
      UpstreamErrorBurst = (if UpstreamErrorBurst th \<le> 0 then 20 else UpstreamErrorBurst th),
      InstallBurst = (if InstallBurst th \<le> 0 then 200 else InstallBurst th),
      TokensThrottledAt = (if TokensThrottledAt th \<le> 0 then 1 else TokensThrottledAt th)\<rparr>"

definition fires :: "thresholds \<Rightarrow> signals \<Rightarrow> condition \<Rightarrow> bool" where
  "fires th s c =
     (let frac = of_int (BudgetUsed s) / (of_int (BudgetLimit s) :: rat) in
      case c of
        BudgetExhausted \<Rightarrow> BudgetLimit s > 0 \<and> frac \<ge> 1
      | BudgetHigh \<Rightarrow> BudgetLimit s > 0 \<and> \<not> frac \<ge> 1 \<and> frac \<ge> BudgetWarnFraction th
      | Reservations \<Rightarrow> ReservationsOpen s \<ge> ReservationsOpenAt th
      | BreakerIsOpen \<Rightarrow> BreakerOpen s
      | DiskReadOnly \<Rightarrow> DiskDegraded s
      | ErrorBurst \<Rightarrow> UpstreamErrors s \<ge> UpstreamErrorBurst th
      | InstallsBurst \<Rightarrow> InstallsThisWindow s \<ge> InstallBurst th
      | TokenThrottle \<Rightarrow> TokensThrottled s \<ge> TokensThrottledAt th)"

type_synonym alerter = "(string, alert_state) table"

definition set_alert :: "int \<Rightarrow> condition \<Rightarrow> bool \<Rightarrow> alerter \<Rightarrow> alerter" where
  "set_alert now c firing a =
     (let old = (case tget a (condition_reason c) of None \<Rightarrow> None | Some st \<Rightarrow> LastFiredAt st)
      in tput (condition_reason c)
           \<lparr>alert_Reason = condition_reason c, Severity = condition_severity c, Firing = firing, alert_Message = alert_text c,
            LastFiredAt = (if firing then Some now else old)\<rparr> a)"

definition Check :: "thresholds \<Rightarrow> int \<Rightarrow> signals \<Rightarrow> alerter \<Rightarrow> alerter" where
  "Check th now s a = fold (\<lambda>c. set_alert now c (fires th s c)) alert_order a"

definition CurrentStatus :: "alerter \<Rightarrow> alert_state list" where
  "CurrentStatus a = List.map_filter (\<lambda>c. tget a (condition_reason c)) alert_order"

text \<open>\<open>encoding/json\<close> on \<open>LastFiredAt time.Time `json:"lastFiredAt,omitempty"`\<close>: \<open>omitempty\<close> never omits a
  struct, so the zero time is written as year one.\<close>

definition lastFiredAt_json :: "(int \<Rightarrow> string) \<Rightarrow> alert_state \<Rightarrow> string" where
  "lastFiredAt_json rfc3339 st =
     (case LastFiredAt st of None \<Rightarrow> ''0001-01-01T00:00:00Z'' | Some t \<Rightarrow> rfc3339 t)"

section \<open>The rate sampler\<close>

record sampler =
  windowSec :: nat
  reqs :: "int64 list"
  errs :: "int64 list"
  lastSec :: int

definition new_sampler :: "int \<Rightarrow> int \<Rightarrow> sampler" where
  "new_sampler w now =
     (let n = nat (if w < 1 then 1 else w)
      in \<lparr>windowSec = n, reqs = replicate n 0, errs = replicate n 0, lastSec = now\<rparr>)"

definition bucket :: "sampler \<Rightarrow> int \<Rightarrow> nat" where
  "bucket s t = nat (t mod int (windowSec s))"

definition advance :: "int \<Rightarrow> sampler \<Rightarrow> sampler" where
  "advance nowSec s =
     (let delta = nowSec - lastSec s;
          now' = (if delta < 0 then lastSec s else nowSec);
          delta' = (if delta < 0 then 0 else delta);
          clear = (\<lambda>xs. if delta' \<ge> int (windowSec s) then map (\<lambda>_. 0) xs
                     else fold (\<lambda>i xs. xs[bucket s (lastSec s + int i) := 0]) [1 ..< Suc (nat delta')] xs)
      in s\<lparr>reqs := clear (reqs s), errs := clear (errs s), lastSec := now'\<rparr>)"

definition Observe :: "int \<Rightarrow> int \<Rightarrow> sampler \<Rightarrow> sampler" where
  "Observe now st s =
     (let s' = advance now s; i = bucket s' (lastSec s')
      in s'\<lparr>reqs := (reqs s')[i := wrap64 (reqs s' ! i + 1)],
            errs := (if st \<ge> 500 then (errs s')[i := wrap64 (errs s' ! i + 1)] else errs s')\<rparr>)"

record rate_snapshot =
  QPS :: rat
  ErrorRate :: rat
  WindowSec :: nat

definition Snapshot :: "int \<Rightarrow> sampler \<Rightarrow> rate_snapshot \<times> sampler" where
  "Snapshot now s =
     (let s' = advance now s
      in (\<lparr>QPS = of_int (wrap64 (sum_list (reqs s'))) / of_nat (windowSec s'),
           ErrorRate = of_int (wrap64 (sum_list (errs s'))) / of_nat (windowSec s'),
           WindowSec = windowSec s'\<rparr>, s'))"

section \<open>What the overview shows of the alerts\<close>

definition check_run :: "thresholds \<Rightarrow> (int \<times> signals) list \<Rightarrow> alerter" where
  "check_run th hist = fold (\<lambda>(now, s). Check th now s) hist []"

text \<open>The time of the last check at which a condition fired.\<close>

definition last_fired :: "thresholds \<Rightarrow> (int \<times> signals) list \<Rightarrow> condition \<Rightarrow> int option" where
  "last_fired th hist c =
     (case filter (\<lambda>(now, s). fires th s c) (rev hist) of [] \<Rightarrow> None | (now, _) # _ \<Rightarrow> Some now)"

definition expected_alert :: "thresholds \<Rightarrow> (int \<times> signals) list \<Rightarrow> condition \<Rightarrow> alert_state" where
  "expected_alert th hist c =
     \<lparr>alert_Reason = condition_reason c, Severity = condition_severity c, Firing = fires th (snd (last hist)) c,
      alert_Message = alert_text c, LastFiredAt = last_fired th hist c\<rparr>"

lemma reason_inj: "condition_reason c = condition_reason d \<longleftrightarrow> c = d"
  by (cases c; cases d) simp_all

lemma tget_set_alert:
  "tget (set_alert now d f a) (condition_reason c) =
     (if c = d then Some \<lparr>alert_Reason = condition_reason c, Severity = condition_severity c, Firing = f, alert_Message = alert_text c,
        LastFiredAt = (if f then Some now
          else case tget a (condition_reason c) of None \<Rightarrow> None | Some st \<Rightarrow> LastFiredAt st)\<rparr>
      else tget a (condition_reason c))"
  by (simp add: set_alert_def reason_inj Let_def)

lemma tget_Check:
  "tget (Check th now s a) (condition_reason c) =
     Some \<lparr>alert_Reason = condition_reason c, Severity = condition_severity c, Firing = fires th s c, alert_Message = alert_text c,
        LastFiredAt = (if fires th s c then Some now
          else case tget a (condition_reason c) of None \<Rightarrow> None | Some st \<Rightarrow> LastFiredAt st)\<rparr>"
  by (cases c) (simp_all add: Check_def alert_order_def tget_set_alert del: condition_reason.simps condition_severity.simps alert_text.simps)

lemma check_run_snoc: "check_run th (hist @ [(now, s)]) = Check th now s (check_run th hist)"
  by (simp add: check_run_def)

lemma tget_check_run:
  "tget (check_run th hist) (condition_reason c) = (if hist = [] then None else Some (expected_alert th hist c))"
proof (induction hist rule: rev_induct)
  case (snoc e hist)
  obtain now s where e: "e = (now, s)" by (cases e)
  show ?case
    by (simp add: e check_run_snoc tget_Check snoc.IH expected_alert_def last_fired_def)
qed (simp add: check_run_def)

text \<open>The alert panel after any history of checks: exactly the eight conditions in their fixed order,
  each with the firing state of the latest check and the time of the last check at which it fired;
  before the first check the panel is empty, and the two budget conditions never fire together.\<close>

theorem alert_panel:
  "CurrentStatus (check_run th hist) = (if hist = [] then [] else map (expected_alert th hist) alert_order) \<and>
   \<not> (fires th s BudgetExhausted \<and> fires th s BudgetHigh)"
  by (auto simp: CurrentStatus_def tget_check_run map_filter_def comp_def fires_def Let_def)

section \<open>What the overview shows of the rates\<close>

text \<open>The ring holds, for every second of the window, the number of observations at that second.\<close>

definition window_holds :: "sampler \<Rightarrow> (int \<Rightarrow> int64) \<Rightarrow> int64 list \<Rightarrow> bool" where
  "window_holds s f xs \<longleftrightarrow> 0 < windowSec s \<and> length xs = windowSec s \<and>
     (\<forall>t. lastSec s - int (windowSec s) < t \<and> t \<le> lastSec s \<longrightarrow> xs ! bucket s t = f t)"

lemma bucket_lt: "0 < windowSec s \<Longrightarrow> bucket s t < windowSec s"
  by (simp add: bucket_def nat_less_iff)

lemma bucket_eq:
  assumes "0 < windowSec s" "bucket s t = bucket s u" "\<bar>t - u\<bar> < int (windowSec s)"
  shows "t = u"
proof -
  have "t mod int (windowSec s) = u mod int (windowSec s)"
    using assms(1,2) by (simp add: bucket_def eq_nat_nat_iff)
  then have "int (windowSec s) dvd t - u" by (simp add: mod_eq_dvd_iff)
  with assms(3) show ?thesis using zdvd_not_zless[of "\<bar>t - u\<bar>" "int (windowSec s)"] by force
qed

lemma fold_clear:
  "length (fold (\<lambda>i xs. xs[b i := 0]) is xs) = length xs"
  "k < length xs \<Longrightarrow> fold (\<lambda>i xs. xs[b i := 0]) is xs ! k = (if k \<in> b ` set is then 0 else xs ! k)"
  for xs :: "int list"
  by (induction "is" arbitrary: xs) (auto simp: nth_list_update)

lemma advance_holds:
  assumes h: "window_holds s f (sel s)" and sel: "sel = reqs \<or> sel = errs"
    and now: "lastSec s \<le> now" and new: "\<And>t. lastSec s < t \<Longrightarrow> f t = 0"
  shows "window_holds (advance now s) f (sel (advance now s))" "lastSec (advance now s) = now"
    "windowSec (advance now s) = windowSec s"
proof -
  note H = h[unfolded window_holds_def]
  show l: "lastSec (advance now s) = now" and w: "windowSec (advance now s) = windowSec s"
    using now by (simp_all add: advance_def Let_def)
  have b: "bucket (advance now s) t = bucket s t" for t by (simp add: bucket_def w)
  let ?clear = "if now - lastSec s \<ge> int (windowSec s) then map (\<lambda>_. 0) (sel s)
      else fold (\<lambda>i xs. xs[bucket s (lastSec s + int i) := 0]) [1 ..< Suc (nat (now - lastSec s))] (sel s)"
  have c: "sel (advance now s) = ?clear" using sel now by (auto simp: advance_def Let_def)
  have "?clear ! bucket s t = f t" if t: "now - int (windowSec s) < t" "t \<le> now" for t
  proof (cases "now - lastSec s \<ge> int (windowSec s)")
    case True
    then have "lastSec s < t" using t by simp
    with new True bucket_lt[of s t] H show ?thesis by simp
  next
    case False
    have k: "bucket s t < length (sel s)" using H bucket_lt by simp
    show ?thesis
    proof (cases "lastSec s < t")
      case True
      then have "bucket s t \<in> (\<lambda>i. bucket s (lastSec s + int i)) ` set [1 ..< Suc (nat (now - lastSec s))]"
        using t by (intro image_eqI[of _ _ "nat (t - lastSec s)"]) auto
      with False k new[OF True] show ?thesis by (simp add: fold_clear(2)[OF k])
    next
      case old: False
      have "bucket s t \<notin> (\<lambda>i. bucket s (lastSec s + int i)) ` set [1 ..< Suc (nat (now - lastSec s))]"
      proof
        assume "bucket s t \<in> (\<lambda>i. bucket s (lastSec s + int i)) ` set [1 ..< Suc (nat (now - lastSec s))]"
        then obtain i where i: "bucket s t = bucket s (lastSec s + int i)" "1 \<le> i" "int i \<le> now - lastSec s"
          using now by (auto simp del: upt_Suc)
        have "t = lastSec s + int i"
          using i t old now by (intro bucket_eq[OF _ i(1)]) (use H in auto)
        with old i show False by simp
      qed
      with old t False have "fold (\<lambda>i xs. xs[bucket s (lastSec s + int i) := 0])
          [1 ..< Suc (nat (now - lastSec s))] (sel s) ! bucket s t = sel s ! bucket s t"
        using fold_clear(2)[OF k] by metis
      with False old t H now show ?thesis by (simp del: upt_Suc)
    qed
  qed
  moreover have "length ?clear = windowSec s" using H by (simp add: fold_clear(1))
  ultimately show "window_holds (advance now s) f (sel (advance now s))"
    unfolding window_holds_def c l w b using H by blast
qed

text \<open>A history of observations, oldest first, as (second, status) pairs.\<close>

definition observe_run :: "nat \<Rightarrow> int \<Rightarrow> (int \<times> int) list \<Rightarrow> sampler" where
  "observe_run w t0 hist = fold (\<lambda>(t, st). Observe t st) hist (new_sampler (int w) t0)"

definition seen_at :: "(int \<times> int) list \<Rightarrow> int \<Rightarrow> int64" where
  "seen_at hist t = int (length (filter (\<lambda>e. fst e = t) hist))"

definition errors_at :: "(int \<times> int) list \<Rightarrow> int \<Rightarrow> int64" where
  "errors_at hist t = int (length (filter (\<lambda>e. fst e = t \<and> snd e \<ge> 500) hist))"

lemma window_bump:
  assumes "window_holds s f xs" "i = bucket s (lastSec s)"
  shows "window_holds s (f(lastSec s := f (lastSec s) + 1)) (xs[i := xs ! i + 1])"
  unfolding window_holds_def
proof (intro conjI allI impI)
  note H = assms(1)[unfolded window_holds_def]
  show "0 < windowSec s" "length (xs[i := xs ! i + 1]) = windowSec s" using H by simp_all
  fix t assume t: "lastSec s - int (windowSec s) < t \<and> t \<le> lastSec s"
  have i: "i < length xs" using H bucket_lt assms(2) by simp
  show "xs[i := xs ! i + 1] ! bucket s t = (f(lastSec s := f (lastSec s) + 1)) t"
  proof (cases "t = lastSec s")
    case True
    with i H assms(2) show ?thesis by simp
  next
    case False
    have "bucket s t \<noteq> i"
      using bucket_eq[of s t "lastSec s"] False t H assms(2) by auto
    with False H t i show ?thesis by (simp add: nth_list_update)
  qed
qed

lemma window_cong:
  "window_holds s f xs \<Longrightarrow> (\<And>t. t \<le> lastSec s \<Longrightarrow> f t = g t) \<Longrightarrow> windowSec s' = windowSec s \<Longrightarrow>
     lastSec s' = lastSec s \<Longrightarrow> window_holds s' g xs"
  by (simp add: window_holds_def bucket_def)

definition run_ok :: "nat \<Rightarrow> (int \<times> int) list \<Rightarrow> sampler \<Rightarrow> bool" where
  "run_ok w hist s \<longleftrightarrow> windowSec s = w \<and> (\<forall>e \<in> set hist. fst e \<le> lastSec s) \<and>
     window_holds s (seen_at hist) (reqs s) \<and> window_holds s (errors_at hist) (errs s)"

lemma counts_after:
  "\<forall>e \<in> set hist. fst e \<le> l \<Longrightarrow> l < t \<Longrightarrow> seen_at hist t = 0 \<and> errors_at hist t = 0"
  by (auto simp: seen_at_def errors_at_def filter_empty_conv)

lemma count_small: "int (length hist) < MaxInt64 \<Longrightarrow> 0 \<le> seen_at hist t \<and> seen_at hist t < MaxInt64 \<and>
    0 \<le> errors_at hist t \<and> errors_at hist t < MaxInt64"
  using length_filter_le[of "\<lambda>e. fst e = t" hist] length_filter_le[of "\<lambda>e. fst e = t \<and> snd e \<ge> 500" hist]
  unfolding seen_at_def errors_at_def by linarith

lemma advance_run_ok:
  assumes "run_ok w hist s" "lastSec s \<le> now"
  shows "run_ok w hist (advance now s)" "lastSec (advance now s) = now"
proof -
  note R = assms(1)[unfolded run_ok_def]
  have z: "lastSec s < t \<Longrightarrow> seen_at hist t = 0 \<and> errors_at hist t = 0" for t
    using R counts_after by blast
  from R z advance_holds[of s "seen_at hist" reqs, OF _ _ assms(2)]
    advance_holds[of s "errors_at hist" errs, OF _ _ assms(2)] assms(2)
  show "run_ok w hist (advance now s)" "lastSec (advance now s) = now"
    unfolding run_ok_def by auto
qed

lemma observe_run_ok:
  assumes ok: "run_ok w hist s" and t: "lastSec s \<le> t" and room: "int (length hist) < MaxInt64"
  shows "run_ok w (hist @ [(t, st)]) (Observe t st s)" "lastSec (Observe t st s) = t"
proof -
  let ?a = "advance t s"
  note A = advance_run_ok[OF ok t]
  note R = A(1)[unfolded run_ok_def]
  let ?i = "bucket ?a (lastSec ?a)"
  have at: "reqs ?a ! ?i = seen_at hist t" "errs ?a ! ?i = errors_at hist t"
    using R A(2) by (auto simp: window_holds_def)
  have w: "wrap64 (seen_at hist t + 1) = seen_at hist t + 1" "wrap64 (errors_at hist t + 1) = errors_at hist t + 1"
    using count_small[OF room, of t] by (simp_all add: is_int64_nonneg)
  have O: "reqs (Observe t st s) = (reqs ?a)[?i := reqs ?a ! ?i + 1]"
    "errs (Observe t st s) = (if st \<ge> 500 then (errs ?a)[?i := errs ?a ! ?i + 1] else errs ?a)"
    "windowSec (Observe t st s) = windowSec ?a" "lastSec (Observe t st s) = lastSec ?a"
    using w at by (simp_all add: Observe_def Let_def)
  have "window_holds ?a (seen_at (hist @ [(t, st)])) (reqs (Observe t st s))"
    unfolding O
    by (rule window_cong[OF window_bump[of ?a "seen_at hist"]]) (use R A(2) in \<open>auto simp: seen_at_def\<close>)
  moreover have "window_holds ?a (errors_at (hist @ [(t, st)])) (errs (Observe t st s))"
  proof (cases "st \<ge> 500")
    case True
    then have e: "errs (Observe t st s) = (errs ?a)[?i := errs ?a ! ?i + 1]" by (simp add: O)
    show ?thesis unfolding e
      by (rule window_cong[OF window_bump[of ?a "errors_at hist"]])
        (use R A(2) True in \<open>auto simp: errors_at_def\<close>)
  next
    case False
    then have e: "errs (Observe t st s) = errs ?a" by (simp add: O)
    show ?thesis unfolding e
      by (rule window_cong[of ?a "errors_at hist"]) (use R False in \<open>auto simp: errors_at_def\<close>)
  qed
  moreover have same: "window_holds (Observe t st s) f xs" if "window_holds ?a f xs" for f xs
    by (rule window_cong[OF that refl]) (simp_all only: O(3,4))
  moreover have "\<forall>e \<in> set (hist @ [(t, st)]). fst e \<le> t" using R A(2) by auto
  ultimately show "run_ok w (hist @ [(t, st)]) (Observe t st s)"
    using R unfolding run_ok_def O(3,4) A(2) by blast
  show "lastSec (Observe t st s) = t" unfolding O(4) by (rule A(2))
qed

lemma window_sum:
  assumes "window_holds s f xs"
  shows "sum_list xs = (\<Sum>t \<in> {lastSec s - int (windowSec s) <.. lastSec s}. f t)"
proof -
  note H = assms[unfolded window_holds_def]
  let ?T = "{lastSec s - int (windowSec s) <.. lastSec s}"
  have inj: "inj_on (bucket s) ?T"
  proof (rule inj_onI)
    fix t u assume "t \<in> ?T" "u \<in> ?T" "bucket s t = bucket s u"
    then show "t = u" using H by (intro bucket_eq) auto
  qed
  have "bucket s ` ?T \<subseteq> {..<windowSec s}" using H bucket_lt by auto
  moreover have "card (bucket s ` ?T) = windowSec s" using card_image[OF inj] by simp
  ultimately have img: "bucket s ` ?T = {..<windowSec s}" by (intro card_subset_eq) auto
  have "sum_list xs = (\<Sum>k < windowSec s. xs ! k)"
    using H by (simp add: sum_list_sum_nth atLeast0LessThan)
  also have "\<dots> = (\<Sum>t \<in> ?T. xs ! bucket s t)"
    unfolding img[symmetric] by (rule sum.reindex[OF inj, unfolded comp_def])
  also have "\<dots> = (\<Sum>t \<in> ?T. f t)" using H by (intro sum.cong) auto
  finally show ?thesis .
qed

lemma observe_run_snoc: "observe_run w t0 (hist @ [(t, st)]) = Observe t st (observe_run w t0 hist)"
  by (simp add: observe_run_def)

lemma observe_run_invariant:
  assumes "0 < w" "sorted (t0 # map fst hist)" "int (length hist) < MaxInt64"
  shows "run_ok w hist (observe_run w t0 hist) \<and> lastSec (observe_run w t0 hist) = last (t0 # map fst hist)"
  using assms
proof (induction hist rule: rev_induct)
  case Nil
  then show ?case
    by (auto simp: observe_run_def run_ok_def new_sampler_def window_holds_def seen_at_def errors_at_def
        bucket_def nat_less_iff Let_def)
next
  case (snoc e hist)
  obtain t st where e: "e = (t, st)" by (cases e)
  have IH: "run_ok w hist (observe_run w t0 hist)" "lastSec (observe_run w t0 hist) = last (t0 # map fst hist)"
    using snoc by (auto simp: sorted_append)
  have "last (t0 # map fst hist) \<in> set (t0 # map fst hist)" by (rule last_in_set) simp
  then have "lastSec (observe_run w t0 hist) \<le> t"
    using snoc.prems(2) IH(2) by (auto simp: e sorted_append simp del: last.simps)
  from observe_run_ok[OF IH(1) this] snoc.prems(3) show ?case
    by (simp add: e observe_run_snoc)
qed

text \<open>The rate sampler reports exactly its window: after any observations in time order, a snapshot
  reports, per second of window, how many observations fell in the last \<open>windowSec\<close> seconds, and how
  many of those were server errors; reading changes nothing that a later reading reports.\<close>

theorem snapshot_is_window_count:
  assumes "0 < w" and "sorted (t0 # map fst hist)" and "int (length hist) < MaxInt64"
    and "last (t0 # map fst hist) \<le> now"
  shows "fst (Snapshot now (observe_run w t0 hist)) =
      \<lparr>QPS = of_nat (length (filter (\<lambda>e. now - int w < fst e \<and> fst e \<le> now) hist)) / of_nat w,
       ErrorRate = of_nat (length (filter (\<lambda>e. (now - int w < fst e \<and> fst e \<le> now) \<and> snd e \<ge> 500) hist)) / of_nat w,
       WindowSec = w\<rparr> \<and>
    fst (Snapshot now (snd (Snapshot now (observe_run w t0 hist)))) = fst (Snapshot now (observe_run w t0 hist))"
proof -
  let ?s = "observe_run w t0 hist"
  let ?a = "advance now ?s"
  let ?T = "{now - int w <.. now}"
  have inv: "run_ok w hist ?s" "lastSec ?s = last (t0 # map fst hist)"
    using observe_run_invariant[OF assms(1-3)] by simp_all
  note A = advance_run_ok[OF inv(1), of now, unfolded inv(2), OF assms(4)]
  note R = A(1)[unfolded run_ok_def]
  have count: "(\<Sum>t \<in> ?T. int (length (filter (\<lambda>e. fst e = t \<and> P e) es))) =
      int (length (filter (\<lambda>e. (now - int w < fst e \<and> fst e \<le> now) \<and> P e) es))" for P and es :: "(int \<times> int) list"
  proof (induction es)
    case (Cons e es)
    have "int (length (filter (\<lambda>x. fst x = t \<and> P x) (e # es))) =
        (if fst e = t \<and> P e then 1 else 0) + int (length (filter (\<lambda>x. fst x = t \<and> P x) es))" for t
      by simp
    then have "(\<Sum>t \<in> ?T. int (length (filter (\<lambda>x. fst x = t \<and> P x) (e # es)))) =
        (\<Sum>t \<in> ?T. if fst e = t \<and> P e then 1 else 0) +
        (\<Sum>t \<in> ?T. int (length (filter (\<lambda>x. fst x = t \<and> P x) es)))"
      by (simp add: sum.distrib)
    moreover have "(\<Sum>t \<in> ?T. if fst e = t \<and> P e then 1 else 0) =
        (if fst e \<in> ?T \<and> P e then 1 else (0 :: int))"
      by (cases "P e") (simp_all add: sum.delta)
    ultimately show ?case using Cons.IH by auto
  qed simp
  have "sum_list (reqs ?a) = int (length (filter (\<lambda>e. now - int w < fst e \<and> fst e \<le> now) hist))"
    using window_sum[of ?a "seen_at hist" "reqs ?a"] R A(2) count[of "\<lambda>_. True" hist]
    by (simp add: seen_at_def)
  moreover have "sum_list (errs ?a) =
      int (length (filter (\<lambda>e. (now - int w < fst e \<and> fst e \<le> now) \<and> snd e \<ge> 500) hist))"
    using window_sum[of ?a "errors_at hist" "errs ?a"] R A(2) count[of "\<lambda>e. snd e \<ge> 500" hist]
    by (simp add: errors_at_def)
  moreover have "wrap64 (int (length (filter P hist))) = int (length (filter P hist))" for P
    using assms(3) length_filter_le[of P hist] by (intro wrap64_id is_int64_nonneg) linarith+
  ultimately have "fst (Snapshot now ?s) =
      \<lparr>QPS = of_nat (length (filter (\<lambda>e. now - int w < fst e \<and> fst e \<le> now) hist)) / of_nat w,
       ErrorRate = of_nat (length (filter (\<lambda>e. (now - int w < fst e \<and> fst e \<le> now) \<and> snd e \<ge> 500) hist)) / of_nat w,
       WindowSec = w\<rparr>"
    using R by (simp add: Snapshot_def Let_def)
  moreover have "advance now ?a = ?a"
    using A(2) R assms(1) by (simp add: advance_def Let_def window_holds_def)
  then have "fst (Snapshot now (snd (Snapshot now ?s))) = fst (Snapshot now ?s)"
    by (simp add: Snapshot_def Let_def)
  ultimately show ?thesis by blast
qed

theorem snapshot_is_window_count_witness:
  "QPS (fst (Snapshot 12 (observe_run 5 0 [(1, 200), (9, 500), (12, 200)]))) = 2 / 5"
  using snapshot_is_window_count[of 5 0 "[(1, 200), (9, 500), (12, 200)]" 12]
  by (simp add: MaxInt64_def)

end
