(* ===== verification/Dashboard.thy ===== *)
theory Dashboard
  imports Audit_Ring Quota_Service Install Ops
begin

text \<open>
  The admin backend: the use cases of \<open>internal/app/dashboard/dashboard.go\<close>, the adapters of
  \<open>internal/bootstrap/dashstore.go\<close> and the HTTP handlers of
  \<open>internal/transport/httpapi/handlers/dashboard/handler.go\<close>. A handler returns the error it renders or the
  entity it writes. The running configuration is a port. The operations here are those of a
  database that answers; Dashboard_Server adds what a handler does when it fails.
\<close>

section \<open>State and ports\<close>

record dump_item =
  key :: string
  item_value :: string
  editable :: bool
  restartRequired :: bool
  min_bound :: "int64 option"
  max_bound :: "int64 option"

text \<open>The live configuration \<open>'c\<close>: its secret-free dump, the validated override and two live values.\<close>

record 'c config_port =
  Dump :: "'c \<Rightarrow> dump_item list"
  ApplyOverrides :: "(string \<times> string) list \<Rightarrow> 'c \<Rightarrow> string + 'c"
  InstallGlobalCap :: "'c \<Rightarrow> int64"
  SpendLimit :: "'c \<Rightarrow> int64"

record 'c dash =
  audit :: audit_ring
  accounts :: install_db
  ledger :: db
  conf :: 'c
  alerts :: alerter
  rates :: sampler
  inflight :: int64

section \<open>Store adapters\<close>

record InstallRow =
  row_ID :: string
  row_Status :: string
  CreatedAt :: int
  LastSeenAt :: int
  TodaySpendMicroUSD :: int64

text \<open>\<open>ORDER BY created_at DESC, id DESC\<close>.\<close>

definition newer :: "install_row \<Rightarrow> install_row \<Rightarrow> bool" where
  "newer x y \<longleftrightarrow> install_created_at x > install_created_at y \<or>
     (install_created_at x = install_created_at y \<and> str_less (ins_id y) (ins_id x))"

fun insert_row :: "install_row \<Rightarrow> install_row list \<Rightarrow> install_row list" where
  "insert_row x [] = [x]"
| "insert_row x (y # ys) = (if newer y x then y # insert_row x ys else x # y # ys)"

definition newest_first :: "install_row list \<Rightarrow> install_row list" where
  "newest_first xs = foldr insert_row xs []"

definition list_row :: "string \<Rightarrow> db \<Rightarrow> install_row \<Rightarrow> InstallRow" where
  "list_row day q x =
     \<lparr>row_ID = ins_id x, row_Status = ins_status x, CreatedAt = install_created_at x,
      LastSeenAt = last_seen_at x,
      TodaySpendMicroUSD = go_div (spend_at (install_spend_daily q) (ins_id x, day)) PicoUSDPerMicroUSD\<rparr>"

definition ListInstalls :: "string \<Rightarrow> int \<Rightarrow> int \<Rightarrow> 'c dash \<Rightarrow> InstallRow list" where
  "ListInstalls day cursor limit d =
     map (list_row day (ledger d)) (take (nat limit) (drop (nat cursor) (newest_first (installs (accounts d)))))"

definition GlobalBudget :: "string \<Rightarrow> int64 \<Rightarrow> db \<Rightarrow> string \<times> int64 \<times> int64" where
  "GlobalBudget month limit q =
     (month, go_div limit PicoUSDPerMicroUSD,
      go_div (spend_at (global_spend_monthly q) month) PicoUSDPerMicroUSD)"

section \<open>Use cases\<close>

definition MaxReasonChars :: nat where "MaxReasonChars = 256"

record provider_status =
  Configured :: bool
  provider_BreakerOpen :: bool

definition providerStatus :: "(bool \<times> bool) option \<Rightarrow> provider_status" where
  "providerStatus p =
     (case p of
        Some (True, brk) \<Rightarrow> \<lparr>Configured = True, provider_BreakerOpen = brk\<rparr>
      | _ \<Rightarrow> \<lparr>Configured = False, provider_BreakerOpen = False\<rparr>)"

record overview =
  budget_Day :: string
  UsedMicroUSD :: int64
  LimitMicroUSD :: int64
  RemainingMicroUSD :: int64
  InflightConcurrency :: int64
  ov_OpenReservations :: int64
  Qwen :: provider_status
  UpstreamBreakerOpen :: bool
  ov_DiskDegraded :: bool
  Alerts :: "alert_state list"
  Recent :: rate_snapshot
  InstallsToday :: int64
  ov_InstallGlobalCap :: int64

text \<open>The overview of a fully wired process in which every read succeeds: \<open>provider\<close> is the provider
  port's answer (available, breaker open).\<close>

definition Overview ::
    "'c config_port \<Rightarrow> (bool \<times> bool) option \<Rightarrow> bool \<Rightarrow> location \<Rightarrow> int \<Rightarrow> 'c dash \<Rightarrow> overview \<times> 'c dash" where
  "Overview port provider diskDegraded loc now d =
     (let (day, limit, used) = GlobalBudget (FormatMonth loc now) (SpendLimit port (conf d)) (ledger d);
          remaining = wrap64 (limit - used);
          q = providerStatus provider;
          (snap, rates') = Snapshot now (rates d)
      in (\<lparr>budget_Day = day, UsedMicroUSD = used, LimitMicroUSD = limit,
           RemainingMicroUSD = (if remaining < 0 then 0 else remaining),
           InflightConcurrency = inflight d, ov_OpenReservations = int (OpenReservations (ledger d)),
           Qwen = q, UpstreamBreakerOpen = provider_BreakerOpen q, ov_DiskDegraded = diskDegraded,
           Alerts = CurrentStatus (alerts d), Recent = snap,
           InstallsToday = store_InstallsToday (FormatDay loc now) (accounts d),
           ov_InstallGlobalCap = InstallGlobalCap port (conf d)\<rparr>,
          d\<lparr>rates := rates'\<rparr>))"

definition audit_entry :: "string \<Rightarrow> string \<Rightarrow> string \<Rightarrow> string \<Rightarrow> string \<Rightarrow> audit_event" where
  "audit_entry action target reason outcome actor =
     zero_event\<lparr>Action := action, Target := target, Reason := reason, Outcome := outcome, Actor := actor\<rparr>"

definition RecordAudit :: "int \<Rightarrow> audit_event \<Rightarrow> 'c dash \<Rightarrow> 'c dash" where
  "RecordAudit now e d = d\<lparr>audit := record_event now e (audit d)\<rparr>"

fun sorted_insert :: "string \<Rightarrow> string list \<Rightarrow> string list" where
  "sorted_insert x [] = [x]"
| "sorted_insert x (y # ys) = (if str_less y x then y # sorted_insert x ys else x # y # ys)"

definition keysOf :: "(string \<times> string) list \<Rightarrow> string" where
  "keysOf m = join '','' (foldr sorted_insert (map fst m) [])"

definition ConfigApply ::
    "'c config_port \<Rightarrow> int \<Rightarrow> string \<Rightarrow> (string \<times> string) list \<Rightarrow> 'c dash \<Rightarrow>
      (string + dump_item list) \<times> 'c dash" where
  "ConfigApply port now actor overrides d =
     (case ApplyOverrides port overrides (conf d) of
        Inl why \<Rightarrow> (Inl why, d)
      | Inr c \<Rightarrow>
          (Inr (Dump port c),
           RecordAudit now (audit_entry ''config_update'' (keysOf overrides) [] ''ok'' actor) (d\<lparr>conf := c\<rparr>)))"

definition clampPagination :: "int \<Rightarrow> int \<Rightarrow> int \<times> int" where
  "clampPagination cursor limit =
     (if cursor < 0 then 0 else cursor, if limit < 1 then 1 else if limit > 200 then 200 else limit)"

definition InstallsList :: "string \<Rightarrow> int \<Rightarrow> int \<Rightarrow> 'c dash \<Rightarrow> InstallRow list \<times> int \<times> bool" where
  "InstallsList day cursor limit d =
     (let (c, l) = clampPagination cursor limit;
          rows = ListInstalls day c (l + 1) d
      in if int (length rows) > l then (take (nat l) rows, wrap64 (c + l), True) else (rows, 0, False))"

text \<open>\<open>None\<close> is success, \<open>Some id\<close> the not-found error.\<close>

definition mutate ::
    "int \<Rightarrow> string \<Rightarrow> string \<Rightarrow> string \<Rightarrow> string \<Rightarrow> string \<Rightarrow> 'c dash \<Rightarrow> string option \<times> 'c dash" where
  "mutate now action actor i reason st d =
     (let reason' = take MaxReasonChars reason;
          (found, a) = SetStatus i st (accounts d);
          d' = d\<lparr>accounts := a\<rparr>
      in if \<not> found
         then (Some i, RecordAudit now (audit_entry action i reason' ''not_found'' actor) d')
         else (None, RecordAudit now (audit_entry action i reason' ''ok'' actor) d'))"

definition Ban_use :: "int \<Rightarrow> string \<Rightarrow> string \<Rightarrow> string \<Rightarrow> 'c dash \<Rightarrow> string option \<times> 'c dash" where
  "Ban_use now actor i reason = mutate now ''ban'' actor i reason StatusBanned"

definition Unban_use :: "int \<Rightarrow> string \<Rightarrow> string \<Rightarrow> 'c dash \<Rightarrow> string option \<times> 'c dash" where
  "Unban_use now actor i = mutate now ''unban'' actor i [] StatusActive"

definition ResetAllMonthlyQuota_use ::
    "location \<Rightarrow> int \<Rightarrow> string \<Rightarrow> string \<Rightarrow> 'c dash \<Rightarrow> (go_error + string \<times> nat) \<times> 'c dash" where
  "ResetAllMonthlyQuota_use loc now actor reason d =
     (let reason' = take MaxReasonChars reason; p = SnapshotPeriod now loc
      in case ResetMonthlyRequests p (ledger d) of
           Inl e \<Rightarrow>
             (Inl (if e = ErrMonthlyResetBlocked then Api (sentinel_error ErrQuotaResetBusy)
                   else OtherError ''quota''), d)
         | Inr (q, n) \<Rightarrow>
             (Inr (Month p, n),
              RecordAudit now (audit_entry ''quota_reset'' (Month p) reason' ''ok'' actor) (d\<lparr>ledger := q\<rparr>)))"

definition Audit_use :: "int64 \<Rightarrow> int \<Rightarrow> 'c dash \<Rightarrow> (audit_event list \<times> int64) option" where
  "Audit_use beforeSeq limit d =
     map_option (\<lambda>(events, nxt, more). (events, if more then nxt else 0)) (ring_page beforeSeq limit (audit d))"

end
