(* ===== verification/Dashboard_Http.thy ===== *)
theory Dashboard_Http
  imports Dashboard
begin

text \<open>
  The HTTP handlers of the admin backend
  (\<open>internal/transport/httpapi/handlers/dashboard/handler.go\<close>). A handler takes the parsed query or the
  request body, cut off at the size its \<open>MaxBytesReader\<close> allows, and returns the error it renders or the
  entity it writes, with the new state.
\<close>

section \<open>Request bodies\<close>

text \<open>\<open>encoding/json\<close> matches object keys to struct fields after simple case folding, which beside ASCII
  identifies U+017F with s and U+212A with k.\<close>

definition lower_char :: "char \<Rightarrow> char" where
  "lower_char c = (let n = of_char c :: nat in if 65 \<le> n \<and> n \<le> 90 then char_of (n + 32) else c)"

fun fold_name :: "string \<Rightarrow> string" where
  "fold_name (a # b # c # s) =
     (if [a, b] = bytes [197, 191] then CHR ''s'' # fold_name (c # s)
      else if [a, b, c] = bytes [226, 132, 170] then CHR ''k'' # fold_name s
      else lower_char a # fold_name (b # c # s))"
| "fold_name [a, b] = (if [a, b] = bytes [197, 191] then ''s'' else [lower_char a, lower_char b])"
| "fold_name [a] = [lower_char a]"
| "fold_name [] = []"

text \<open>Decoding an object into string fields: the last value of a field wins, \<open>null\<close> leaves it, any other
  type is an error; unknown keys are ignored.\<close>

fun decode_fields :: "string list \<Rightarrow> (string \<times> json) list \<Rightarrow> (string, string) table \<Rightarrow>
    (string, string) table option" where
  "decode_fields names [] acc = Some acc"
| "decode_fields names ((k, v) # fs) acc =
     (case find (\<lambda>n. fold_name n = fold_name k) names of
        None \<Rightarrow> decode_fields names fs acc
      | Some n \<Rightarrow>
          (case v of
             JStr s \<Rightarrow> decode_fields names fs (tput n s acc)
           | JNull \<Rightarrow> decode_fields names fs acc
           | _ \<Rightarrow> None))"

definition decode_struct :: "string list \<Rightarrow> body \<Rightarrow> (string, string) table option" where
  "decode_struct names b =
     (case b of
        Json (JObj fs) \<Rightarrow> decode_fields names fs []
      | Json JNull \<Rightarrow> Some []
      | _ \<Rightarrow> None)"

definition field :: "string \<Rightarrow> (string, string) table \<Rightarrow> string" where
  "field n t = (case tget t n of None \<Rightarrow> [] | Some v \<Rightarrow> v)"

fun decode_map :: "(string \<times> json) list \<Rightarrow> (string, string) table \<Rightarrow> (string, string) table option" where
  "decode_map [] acc = Some acc"
| "decode_map ((k, v) # fs) acc =
     (case v of
        JStr s \<Rightarrow> decode_map fs (tput k s acc)
      | JNull \<Rightarrow> decode_map fs (tput k [] acc)
      | _ \<Rightarrow> None)"

definition decode_overrides :: "body \<Rightarrow> (string, string) table option" where
  "decode_overrides b =
     (case b of Json (JObj fs) \<Rightarrow> decode_map fs [] | Json JNull \<Rightarrow> Some [] | _ \<Rightarrow> None)"

section \<open>Query parameters\<close>

definition atoiDefault :: "string \<Rightarrow> int \<Rightarrow> int" where
  "atoiDefault s def = (if s = [] then def else case parse_int s of None \<Rightarrow> def | Some n \<Rightarrow> n)"

definition parsePagination :: "(string \<times> string) list \<Rightarrow> int \<times> int" where
  "parsePagination q = (atoiDefault (query_get ''cursor'' q) 0, atoiDefault (query_get ''limit'' q) 50)"

definition parseAuditCursor :: "(string \<times> string) list \<Rightarrow> int64 \<times> int" where
  "parseAuditCursor q =
     (let c = query_get ''cursor'' q
      in (if c = [] then 0 else case parse_int c of None \<Rightarrow> 0 | Some n \<Rightarrow> if n > 0 then n else 0,
          snd (parsePagination q)))"

section \<open>Handlers\<close>

definition actor :: string where "actor = ''external-iap''"

definition bad_request :: "string \<Rightarrow> api_error" where
  "bad_request = NewError 400 ''BAD_REQUEST''"

definition internal :: "string \<Rightarrow> api_error" where
  "internal = NewError 500 ''INTERNAL''"

definition PostConfig ::
    "'c config_port \<Rightarrow> int \<Rightarrow> body \<Rightarrow> 'c dash \<Rightarrow> (api_error + dump_item list) \<times> 'c dash" where
  "PostConfig port now b d =
     (case decode_overrides b of
        None \<Rightarrow> (Inl (bad_request ''invalid config body''), d)
      | Some overrides \<Rightarrow>
          if overrides = [] then (Inl (bad_request ''no overrides provided''), d)
          else (case ConfigApply port now actor overrides d of
                  (Inl why, d') \<Rightarrow> (Inl (NewError 400 ''CONFIG_REJECTED'' why), d')
                | (Inr items, d') \<Rightarrow> (Inr items, d')))"

definition GetConfig :: "'c config_port \<Rightarrow> 'c dash \<Rightarrow> dump_item list" where
  "GetConfig port d = Dump port (conf d)"

definition Installs :: "string \<Rightarrow> (string \<times> string) list \<Rightarrow> 'c dash \<Rightarrow> InstallRow list \<times> string" where
  "Installs day q d =
     (let (cursor, limit) = parsePagination q;
          (rows, nxt, more) = InstallsList day cursor limit d
      in (rows, if more then itoa nxt else []))"

definition writeMutateErr :: "string option \<Rightarrow> api_error" where
  "writeMutateErr e =
     (case e of
        Some _ \<Rightarrow> NewError 404 ''INSTALL_NOT_FOUND'' ''no install with that id''
      | None \<Rightarrow> internal ''status update failed'')"

definition Ban :: "int \<Rightarrow> body \<Rightarrow> 'c dash \<Rightarrow> (api_error + string \<times> string) \<times> 'c dash" where
  "Ban now b d =
     (case decode_struct [''install_id'', ''reason''] b of
        None \<Rightarrow> (Inl (bad_request ''invalid ban body''), d)
      | Some req \<Rightarrow>
          let i = TrimSpace (field ''install_id'' req); why = TrimSpace (field ''reason'' req)
          in if i = [] then (Inl (bad_request ''install_id is required''), d)
             else if why = [] then (Inl (bad_request ''reason is required (audited)''), d)
             else (case Ban_use now actor i why d of
                     (Some e, d') \<Rightarrow> (Inl (writeMutateErr (Some e)), d')
                   | (None, d') \<Rightarrow> (Inr (i, ''banned''), d')))"

definition Unban :: "int \<Rightarrow> body \<Rightarrow> 'c dash \<Rightarrow> (api_error + string \<times> string) \<times> 'c dash" where
  "Unban now b d =
     (case decode_struct [''install_id''] b of
        None \<Rightarrow> (Inl (bad_request ''invalid unban body''), d)
      | Some req \<Rightarrow>
          let i = TrimSpace (field ''install_id'' req)
          in if i = [] then (Inl (bad_request ''install_id is required''), d)
             else (case Unban_use now actor i d of
                     (Some e, d') \<Rightarrow> (Inl (writeMutateErr (Some e)), d')
                   | (None, d') \<Rightarrow> (Inr (i, ''active''), d')))"

definition ResetAllMonthlyQuota ::
    "location \<Rightarrow> int \<Rightarrow> body \<Rightarrow> 'c dash \<Rightarrow> (api_error + string \<times> nat) \<times> 'c dash" where
  "ResetAllMonthlyQuota loc now b d =
     (case decode_struct [''reason''] b of
        None \<Rightarrow> (Inl (bad_request ''invalid quota reset body''), d)
      | Some req \<Rightarrow>
          let why = TrimSpace (field ''reason'' req)
          in if why = [] then (Inl (bad_request ''reason is required (audited)''), d)
             else (case ResetAllMonthlyQuota_use loc now actor why d of
                     (Inl e, d') \<Rightarrow>
                       (Inl (if e = Api (sentinel_error ErrQuotaResetBusy) then sentinel_error ErrQuotaResetBusy
                             else internal ''quota reset failed''), d')
                   | (Inr res, d') \<Rightarrow> (Inr res, d')))"

text \<open>\<open>None\<close> is the panic of an allocation the page size asks for; the server drops the connection.\<close>

definition Audit :: "(string \<times> string) list \<Rightarrow> 'c dash \<Rightarrow> (audit_event list \<times> string) option" where
  "Audit q d =
     (let (beforeSeq, limit) = parseAuditCursor q
      in map_option (\<lambda>(events, nxt). (events, if nxt > 0 then itoa nxt else [])) (Audit_use beforeSeq limit d))"

text \<open>The export: \<open>snap\<close> is the snapshot's size, or its failure; \<open>opened\<close> whether the file opens; \<open>copied\<close>
  whether the client took the whole stream. A completed answer carries the file name.\<close>

definition export_filename :: "int \<Rightarrow> string" where
  "export_filename now =
     (let (y, m, d) = civil_at utc now; s = now mod 86400
      in ''anselm-gateway-'' @ pad 4 (itoa y) @ pad 2 (itoa m) @ pad 2 (itoa d) @ ''-'' @
         pad 2 (itoa (s div 3600)) @ pad 2 (itoa (s mod 3600 div 60)) @ pad 2 (itoa (s mod 60)) @ ''.db'')"

definition Export ::
    "int \<Rightarrow> int64 option \<Rightarrow> bool \<Rightarrow> bool \<Rightarrow> 'c dash \<Rightarrow> (api_error + string) \<times> 'c dash" where
  "Export now snap opened copied d =
     (case snap of
        None \<Rightarrow> (Inl (internal ''export snapshot failed''), d)
      | Some sz \<Rightarrow>
          if \<not> opened then (Inl (internal ''export snapshot failed''), d)
          else if sz = 0 then (Inl (internal ''export produced an empty snapshot''), d)
          else let f = export_filename now in
            (Inr f, RecordAudit now
               (audit_entry ''export'' f [] (if copied then ''ok'' else ''interrupted'') actor) d))"

end
