(* ===== verification/Dashboard_Props.thy ===== *)
theory Dashboard_Props
  imports Dashboard_Http Install_Props
begin

text \<open>
  Properties of the admin backend: paging through the audit view and the install list, the administrative
  actions with their audit trail, and the gaps the model exposes.
\<close>

section \<open>Paging through the audit view\<close>

text \<open>What the SPA sends for a page, and the page the server answers.\<close>

definition page_query :: "string \<Rightarrow> (string \<times> string) list" where
  "page_query cursor = (if cursor = [] then [] else [(''cursor'', cursor)]) @ [(''limit'', itoa 50)]"

definition fetch_audit :: "string \<Rightarrow> 'c dash \<Rightarrow> (audit_event list \<times> string) option" where
  "fetch_audit cursor d = Audit (parse_query (query_string (page_query cursor))) d"

lemma page_query_parsed: "parse_query (query_string (page_query cursor)) = page_query cursor"
  by (rule parse_query_string) (simp add: page_query_def)

definition cursor_of :: "int64 \<Rightarrow> string" where
  "cursor_of n = (if n > 0 then itoa n else [])"

lemma audit_cursor_roundtrip:
  assumes "is_int64 n"
  shows "parseAuditCursor (page_query (cursor_of n)) = (if n > 0 then n else 0, 50)"
  using assms
  by (simp add: parseAuditCursor_def parsePagination_def page_query_def cursor_of_def query_get_def
      atoiDefault_def is_int64_def MaxInt64_def MinInt64_def Let_def)

lemma fetch_audit_spec:
  assumes ok: "ring_ok (audit d)" and n: "is_int64 n"
  shows "fetch_audit (cursor_of n) d =
    (let evs = filter (below n) (ring_view (audit d)); new = take 50 evs
     in Some (new, if length evs > 50 then itoa (Seq (last new)) else []))"
proof -
  let ?evs = "filter (below n) (ring_view (audit d))"
  have b: "below (if n > 0 then n else 0) = below n" by (auto simp: below_def fun_eq_iff)
  have lim: "(50 :: int) \<le> maxAuditCap" by (simp add: maxAuditCap_def)
  have pos: "length ?evs > 50 \<Longrightarrow> 0 < Seq (last (take 50 ?evs))"
  proof -
    assume l: "length ?evs > 50"
    then have "last (take 50 ?evs) \<in> set (take 50 ?evs)" by (intro last_in_set) auto
    then have "last (take 50 ?evs) \<in> set (ring_view (audit d))" by (auto dest: in_set_takeD)
    then show ?thesis by (rule ring_view_seqs(2)[OF ok])
  qed
  show ?thesis
    using pos lim
    by (auto simp: fetch_audit_def page_query_parsed Audit_def audit_cursor_roundtrip[OF n] Audit_use_def
        ring_page_spec[OF ok, of 50] b Let_def)
qed

text \<open>
  A walk to the older end: the first page from \<open>cursor\<close>, then the events written meanwhile, then the next
  page, for as many rounds as there are batches. The result is what the operator has seen, whether the
  end was reached, and the final ring.
\<close>

fun record_all :: "(int \<times> audit_event) list \<Rightarrow> 'c dash \<Rightarrow> 'c dash" where
  "record_all [] d = d"
| "record_all ((now, e) # es) d = record_all es (RecordAudit now e d)"

fun audit_walk :: "string \<Rightarrow> (int \<times> audit_event) list list \<Rightarrow> 'c dash \<Rightarrow>
    audit_event list \<times> bool \<times> 'c dash" where
  "audit_walk cursor batches d =
     (case fetch_audit cursor d of
        None \<Rightarrow> ([], False, d)
      | Some (events, nxt) \<Rightarrow>
          if nxt = [] then (events, True, d)
          else (case batches of
                  [] \<Rightarrow> (events, False, d)
                | es # rest \<Rightarrow>
                    (let (more, fin, d') = audit_walk nxt rest (record_all es d) in (events @ more, fin, d'))))"

declare audit_walk.simps [simp del]

definition room_for :: "nat \<Rightarrow> 'c dash \<Rightarrow> bool" where
  "room_for k d \<longleftrightarrow> ring_ok (audit d) \<and> last_seq (audit d) + int k \<le> MaxInt64"

lemma record_all_run:
  "room_for (length es + k) d \<Longrightarrow>
     room_for k (record_all es d) \<and> last_seq (audit d) \<le> last_seq (audit (record_all es d)) \<and>
     (\<forall>ev \<in> set (ring_view (audit (record_all es d))). Seq ev \<le> last_seq (audit d) \<longrightarrow>
       ev \<in> set (ring_view (audit d)))"
proof (induction es arbitrary: d)
  case (Cons e es)
  obtain now x where e: "e = (now, x)" by (cases e)
  let ?d = "RecordAudit now x d"
  have ok: "ring_ok (audit d)" and lt: "last_seq (audit d) < MaxInt64"
    using Cons.prems by (auto simp: room_for_def)
  have a: "audit ?d = record_event now x (audit d)" by (simp add: RecordAudit_def)
  note R = record_event_ok[OF ok lt, of now x]
  have room: "room_for (length es + k) ?d" using Cons.prems R by (auto simp: room_for_def a)
  have older: "ev \<in> set (ring_view (audit d))"
    if "ev \<in> set (ring_view (audit ?d))" "Seq ev \<le> last_seq (audit d)" for ev
    using that R(4) by (auto simp: a ring_view_record[OF ok] dest!: in_set_takeD)
  have seq: "last_seq (audit d) \<le> last_seq (audit ?d)" using R(2) by (simp add: a)
  have step: "record_all (e # es) d = record_all es ?d" by (simp add: e)
  note IH = Cons.IH[OF room]
  show ?case unfolding step using IH older seq by (meson order_trans)
qed (simp add: room_for_def)

lemmas record_all_ok = record_all_run[THEN conjunct1] record_all_run[THEN conjunct2, THEN conjunct1]
  record_all_run[THEN conjunct2, THEN conjunct2, rule_format]

lemma last_least:
  "sorted_wrt (\<lambda>x y. Seq x > Seq y) xs \<Longrightarrow> x \<in> set xs \<Longrightarrow> Seq (last xs) \<le> Seq x"
proof (induction xs)
  case (Cons y ys)
  then show ?case by (cases ys) (auto intro: less_imp_le dest!: bspec[OF _ last_in_set])
qed simp

lemma sorted_take_rest:
  assumes "sorted_wrt (\<lambda>x y. Seq x > Seq y) evs" "length evs > 50" "x \<in> set evs"
    and "\<not> Seq x < Seq (last (take 50 evs))"
  shows "x \<in> set (take 50 evs)"
proof (rule ccontr)
  assume "x \<notin> set (take 50 evs)"
  then have x: "x \<in> set (drop 50 evs)" using assms(3) by (metis Un_iff append_take_drop_id set_append)
  have "sorted_wrt (\<lambda>x y. Seq x > Seq y) (take 50 evs @ drop 50 evs)" using assms(1) by simp
  moreover have "last (take 50 evs) \<in> set (take 50 evs)" using assms(2) by (intro last_in_set) auto
  ultimately show False using x assms(4) by (auto simp del: append_take_drop_id simp: sorted_wrt_append)
qed

lemma audit_walk_inv:
  assumes "room_for (length (concat batches)) d" "is_int64 n" "audit_walk (cursor_of n) batches d = (evs, fin, d')"
  shows "sorted_wrt (\<lambda>x y. Seq x > Seq y) evs \<and> (\<forall>x \<in> set evs. below n x) \<and>
    (\<forall>x \<in> set (ring_view (audit d')). Seq x \<le> last_seq (audit d) \<longrightarrow> x \<in> set (ring_view (audit d))) \<and>
    (fin \<longrightarrow> (\<forall>x \<in> set (ring_view (audit d')). Seq x \<le> last_seq (audit d) \<longrightarrow> below n x \<longrightarrow> x \<in> set evs))"
  using assms
proof (induction batches arbitrary: n d evs fin d')
  case Nil
  have ok: "ring_ok (audit d)" using Nil.prems by (simp add: room_for_def)
  let ?evs = "filter (below n) (ring_view (audit d))"
  have s: "sorted_wrt (\<lambda>x y. Seq x > Seq y) ?evs"
    by (rule sorted_wrt_filter[OF ring_view_seqs(1)[OF ok]])
  from Nil.prems(3) have "evs = take 50 ?evs" "fin \<longrightarrow> length ?evs \<le> 50" "d' = d"
    by (auto simp: audit_walk.simps fetch_audit_spec[OF ok Nil.prems(2)] Let_def split: if_splits)
  with s show ?case by (auto simp: sorted_wrt_take dest: in_set_takeD)
next
  case (Cons es rest)
  have ok: "ring_ok (audit d)" using Cons.prems by (simp add: room_for_def)
  let ?evs = "filter (below n) (ring_view (audit d))"
  have s: "sorted_wrt (\<lambda>x y. Seq x > Seq y) ?evs"
    by (rule sorted_wrt_filter[OF ring_view_seqs(1)[OF ok]])
  show ?case
  proof (cases "length ?evs > 50")
    case False
    with Cons.prems(3) s show ?thesis
      by (auto simp: audit_walk.simps fetch_audit_spec[OF ok Cons.prems(2)] Let_def)
  next
    case True
    let ?new = "take 50 ?evs" and ?d1 = "record_all es d"
    let ?m = "Seq (last ?new)"
    have last_in: "last ?new \<in> set ?new" using True by (intro last_in_set) auto
    then have lr: "last ?new \<in> set (ring_view (audit d))" "below n (last ?new)" by (auto dest: in_set_takeD)
    have m: "0 < ?m" "?m \<le> last_seq (audit d)" using ring_view_seqs(2,3)[OF ok lr(1)] by simp_all
    then have mi: "is_int64 ?m" using ok by (intro is_int64_nonneg) (auto simp: ring_ok_def)
    obtain evs' fin' d'' where w: "audit_walk (itoa ?m) rest ?d1 = (evs', fin', d'')"
      by (cases "audit_walk (itoa ?m) rest ?d1")
    have res: "evs = ?new @ evs'" "fin = fin'" "d' = d''"
      using Cons.prems(3) True w
      by (auto simp: audit_walk.simps[of "cursor_of n"] fetch_audit_spec[OF ok Cons.prems(2)] Let_def)
    note A = record_all_ok[of es "length (concat rest)" d]
    have room: "room_for (length (concat rest)) ?d1" using A(1) Cons.prems(1) by simp
    have c: "itoa ?m = cursor_of ?m" using m by (simp add: cursor_of_def)
    from Cons.IH[OF room mi w[unfolded c]]
    have IH: "sorted_wrt (\<lambda>x y. Seq x > Seq y) evs'" "\<forall>x \<in> set evs'. below ?m x"
      "\<forall>x \<in> set (ring_view (audit d'')). Seq x \<le> last_seq (audit ?d1) \<longrightarrow> x \<in> set (ring_view (audit ?d1))"
      "fin' \<longrightarrow> (\<forall>x \<in> set (ring_view (audit d'')). Seq x \<le> last_seq (audit ?d1) \<longrightarrow> below ?m x \<longrightarrow> x \<in> set evs')"
      by blast+
    have new: "x \<in> set ?new \<Longrightarrow> ?m \<le> Seq x" for x
      by (rule last_least[OF sorted_wrt_take[OF s]])
    have "sorted_wrt (\<lambda>x y. Seq x > Seq y) evs"
      unfolding res sorted_wrt_append
      using sorted_wrt_take[OF s] IH(1,2) new m by (fastforce simp: below_def)
    moreover have "\<forall>x \<in> set evs. below n x"
      using IH(2) lr(2) m by (auto simp: res below_def dest: in_set_takeD)
    moreover have older: "x \<in> set (ring_view (audit d))"
      if "x \<in> set (ring_view (audit d'))" "Seq x \<le> last_seq (audit d)" for x
      using IH(3) A(2) A(3)[of x] Cons.prems(1) that res by auto
    moreover have "x \<in> set evs" if "fin" "x \<in> set (ring_view (audit d'))" "Seq x \<le> last_seq (audit d)" "below n x" for x
    proof (cases "below ?m x")
      case True
      with IH(4) that res A(2) Cons.prems(1) show ?thesis by auto
    next
      case False
      have "x \<in> set (ring_view (audit d))" using older that by blast
      then have "x \<in> set ?evs" using that by simp
      from sorted_take_rest[OF s True this] False m show ?thesis by (auto simp: res below_def)
    qed
    ultimately show ?thesis by blast
  qed
qed

text \<open>Paging through the audit view is exact under concurrent writes. Whatever events are recorded
  between the page requests, and through the text of every cursor, a walk from the newest page shows
  each event at most once, newest first, and a walk that reaches the end has shown every event of its
  start that the ring still retains.\<close>

theorem audit_walk_exact:
  assumes "ring_ok (audit d)" and "last_seq (audit d) + int (length (concat batches)) \<le> MaxInt64"
    and "audit_walk [] batches d = (evs, fin, d')"
  shows "sorted_wrt (\<lambda>x y. Seq x > Seq y) evs \<and> distinct (map Seq evs) \<and>
    (fin \<longrightarrow> (\<forall>x \<in> set (ring_view (audit d')). Seq x \<le> last_seq (audit d) \<longrightarrow> x \<in> set evs))"
proof -
  have z: "is_int64 0" "cursor_of 0 = []" by (simp_all add: is_int64_nonneg cursor_of_def)
  have "room_for (length (concat batches)) d" using assms(1,2) by (simp add: room_for_def)
  from audit_walk_inv[OF this z(1), unfolded z(2), OF assms(3)]
  have inv: "sorted_wrt (\<lambda>x y. Seq x > Seq y) evs"
    "fin \<longrightarrow> (\<forall>x \<in> set (ring_view (audit d')). Seq x \<le> last_seq (audit d) \<longrightarrow> x \<in> set evs)"
    by (auto simp: below_def)
  have "distinct (map Seq evs)"
    using inv(1) by (induction evs) force+
  with inv show ?thesis by blast
qed

section \<open>Paging through the install list\<close>

definition fetch_installs :: "string \<Rightarrow> string \<Rightarrow> 'c dash \<Rightarrow> InstallRow list \<times> string" where
  "fetch_installs day cursor d = Installs day (parse_query (query_string (page_query cursor))) d"

text \<open>A walk over the whole list, at most \<open>fuel\<close> pages.\<close>

fun install_walk :: "nat \<Rightarrow> string \<Rightarrow> string \<Rightarrow> 'c dash \<Rightarrow> InstallRow list" where
  "install_walk 0 day cursor d = []"
| "install_walk (Suc fuel) day cursor d =
     (let (rows, nxt) = fetch_installs day cursor d
      in rows @ (if nxt = [] then [] else install_walk fuel day nxt d))"

definition offset_of :: "nat \<Rightarrow> string" where
  "offset_of n = (if n = 0 then [] else itoa (int n))"

lemma fetch_installs_spec:
  assumes "int n + 50 \<le> MaxInt64"
  shows "fetch_installs day (offset_of n) d =
    (let rows = drop n (newest_first (installs (accounts d)))
     in (map (list_row day (ledger d)) (take 50 rows), if length rows > 50 then itoa (int n + 50) else []))"
proof -
  have i: "is_int64 (int n)" "is_int64 (int n + 50)" using assms by (auto intro!: is_int64_nonneg)
  have q: "parsePagination (page_query (offset_of n)) = (int n, 50)"
    using i by (auto simp: parsePagination_def page_query_def offset_of_def query_get_def atoiDefault_def
        is_int64_def MaxInt64_def MinInt64_def)
  show ?thesis
    using i by (auto simp: fetch_installs_def page_query_parsed Installs_def q InstallsList_def
        clampPagination_def ListInstalls_def Let_def take_map min_def)
qed

lemma install_walk_from:
  assumes "length (newest_first (installs (accounts d))) \<le> n + 50 * fuel"
    and "int (length (newest_first (installs (accounts d)))) + 50 \<le> MaxInt64"
    and "n < length (newest_first (installs (accounts d))) \<or> n = 0" "0 < fuel"
  shows "install_walk fuel day (offset_of n) d =
    map (list_row day (ledger d)) (drop n (newest_first (installs (accounts d))))"
  using assms
proof (induction fuel arbitrary: n)
  case (Suc fuel)
  let ?all = "newest_first (installs (accounts d))"
  have "int n + 50 \<le> MaxInt64" using Suc.prems(2,3) by auto
  note spec = fetch_installs_spec[OF this, of day d]
  show ?case
  proof (cases "length (drop n ?all) > 50")
    case True
    have o: "itoa (int n + 50) = offset_of (n + 50)" by (simp add: offset_of_def algebra_simps)
    have "install_walk fuel day (offset_of (n + 50)) d = map (list_row day (ledger d)) (drop (n + 50) ?all)"
      using True Suc.prems by (intro Suc.IH) auto
    moreover have "take 50 (drop n ?all) @ drop (n + 50) ?all = drop n ?all"
      by (metis add.commute append_take_drop_id drop_drop)
    ultimately show ?thesis
      using True spec by (simp add: Let_def o flip: map_append) (simp add: offset_of_def)
  next
    case False
    with spec show ?thesis by (simp add: Let_def)
  qed
qed simp

lemma insert_row_set: "set (insert_row x ys) = insert x (set ys)" "length (insert_row x ys) = Suc (length ys)"
    "distinct (map ins_id (insert_row x ys)) \<longleftrightarrow> ins_id x \<notin> ins_id ` set ys \<and> distinct (map ins_id ys)"
  by (induction ys) auto

lemma newest_first_set:
  "set (newest_first xs) = set xs" "length (newest_first xs) = length xs"
  "distinct (map ins_id xs) \<Longrightarrow> distinct (map ins_id (newest_first xs))"
  by (induction xs) (auto simp: newest_first_def insert_row_set)

text \<open>Paging through the install list shows every install exactly once: the pages that the SPA's
  cursors request, concatenated, are one row per registered install, newest first, for any number of
  installs.\<close>

theorem install_walk_complete:
  assumes "identity_ok (accounts d)" and "int (length (installs (accounts d))) + 50 \<le> MaxInt64"
  shows "install_walk (Suc (length (installs (accounts d)))) day [] d =
      map (list_row day (ledger d)) (newest_first (installs (accounts d))) \<and>
    distinct (map row_ID (install_walk (Suc (length (installs (accounts d)))) day [] d)) \<and>
    set (map row_ID (install_walk (Suc (length (installs (accounts d)))) day [] d)) =
      ins_id ` set (installs (accounts d))"
proof -
  let ?xs = "installs (accounts d)"
  have w: "install_walk (Suc (length ?xs)) day [] d = map (list_row day (ledger d)) (newest_first ?xs)"
    using install_walk_from[of d 0 "Suc (length ?xs)" day] assms(2)
    by (simp add: newest_first_set offset_of_def)
  have r: "map row_ID (map (list_row day (ledger d)) ys) = map ins_id ys" for ys
    by (simp add: list_row_def)
  show ?thesis unfolding w r
    using assms(1) newest_first_set[of ?xs] by (simp add: identity_ok_def)
qed

section \<open>Administrative actions and their trail\<close>

text \<open>The number of events an action adds to the ring.\<close>

definition trail :: "'c dash \<Rightarrow> 'c dash \<Rightarrow> int" where
  "trail d d' = last_seq (audit d') - last_seq (audit d)"

definition newest :: "'c dash \<Rightarrow> audit_event" where
  "newest d = hd (ring_view (audit d))"

lemma RecordAudit_effect:
  assumes "ring_ok (audit d)" "last_seq (audit d) < MaxInt64"
  shows "trail d (RecordAudit now e d) = 1"
    "newest (RecordAudit now e d) = e\<lparr>At := now, Seq := last_seq (audit d) + 1\<rparr>"
proof -
  note R = record_event_ok[OF assms, of now e]
  show "trail d (RecordAudit now e d) = 1" by (simp add: trail_def RecordAudit_def R)
  have "0 < length (buf (audit d))" using assms(1) by (auto simp: ring_ok_def)
  moreover have "wrap64 (last_seq (audit d) + 1) = last_seq (audit d) + 1"
    using R(4) by (simp add: stamp_def)
  ultimately show "newest (RecordAudit now e d) = e\<lparr>At := now, Seq := last_seq (audit d) + 1\<rparr>"
    by (simp add: newest_def RecordAudit_def ring_view_record[OF assms(1)] stamp_def take_Cons')
qed

lemma ban_run:
  assumes "decode_struct [''install_id'', ''reason''] b = Some req"
    and "TrimSpace (field ''install_id'' req) = i" "TrimSpace (field ''reason'' req) = why" "i \<noteq> []" "why \<noteq> []"
  shows "Ban now b d =
    (let d1 = d\<lparr>accounts := snd (SetStatus i StatusBanned (accounts d))\<rparr>; found = (i \<in> ins_id ` set (installs (accounts d)))
     in (if found then Inr (i, ''banned'') else Inl (NewError 404 ''INSTALL_NOT_FOUND'' ''no install with that id''),
         RecordAudit now (audit_entry ''ban'' i (take 256 why) (if found then ''ok'' else ''not_found'') actor) d1))"
proof -
  have f: "fst (SetStatus i StatusBanned (accounts d)) \<longleftrightarrow> i \<in> ins_id ` set (installs (accounts d))"
    by (auto simp: SetStatus_def)
  show ?thesis
    using assms f
    by (simp add: Ban_def Ban_use_def mutate_def Let_def case_prod_beta MaxReasonChars_def writeMutateErr_def)
qed

lemma SetStatus_effect:
  "installs (snd (SetStatus i st a)) = map (\<lambda>x. if ins_id x = i then x\<lparr>ins_status := st\<rparr> else x) (installs a)"
  "i \<in> ins_id ` set (installs a) \<Longrightarrow> Lookup_install i (snd (SetStatus i st a)) = Some st"
proof -
  have "find (\<lambda>x. ins_id x = i) (map (\<lambda>x. if ins_id x = i then x\<lparr>ins_status := st\<rparr> else x) xs) =
      map_option (\<lambda>x. x\<lparr>ins_status := st\<rparr>) (find (\<lambda>x. ins_id x = i) xs)" for xs :: "install_row list"
    by (induction xs) auto
  moreover have "find (\<lambda>x. ins_id x = i) (installs a) \<noteq> None" if "i \<in> ins_id ` set (installs a)"
    using that by (auto simp: find_None_iff)
  ultimately show "i \<in> ins_id ` set (installs a) \<Longrightarrow> Lookup_install i (snd (SetStatus i st a)) = Some st"
    by (auto simp: Lookup_install_def SetStatus_def)
  show "installs (snd (SetStatus i st a)) = map (\<lambda>x. if ins_id x = i then x\<lparr>ins_status := st\<rparr> else x) (installs a)"
    by (simp add: SetStatus_def)
qed

text \<open>A ban request is decided and recorded: with no install id or no reason it is refused with nothing
  changed and nothing recorded; otherwise it answers 200 exactly when the install exists, which is
  then banned and no other install touched, or 404, and either way exactly one audit event carries
  the id, the outcome and the reason cut to 256 bytes.\<close>

theorem ban_effect:
  assumes ok: "ring_ok (audit d)" "last_seq (audit d) < MaxInt64"
    and req: "decode_struct [''install_id'', ''reason''] b = Some req"
  defines "i \<equiv> TrimSpace (field ''install_id'' req)" and "why \<equiv> TrimSpace (field ''reason'' req)"
  shows "case Ban now b d of (ans, d') \<Rightarrow>
    if i = [] \<or> why = [] then d' = d \<and> (\<exists>m. ans = Inl (bad_request m))
    else trail d d' = 1 \<and> Action (newest d') = ''ban'' \<and> Target (newest d') = i \<and>
      Reason (newest d') = take 256 why \<and>
      ledger d' = ledger d \<and>
      installs (accounts d') = map (\<lambda>x. if ins_id x = i then x\<lparr>ins_status := StatusBanned\<rparr> else x) (installs (accounts d)) \<and>
      (if i \<in> ins_id ` set (installs (accounts d))
       then ans = Inr (i, ''banned'') \<and> Outcome (newest d') = ''ok'' \<and>
         Lookup_install i (accounts d') = Some StatusBanned
       else ans = Inl (NewError 404 ''INSTALL_NOT_FOUND'' ''no install with that id'') \<and>
         Outcome (newest d') = ''not_found'')"
proof (cases "i = [] \<or> why = []")
  case True
  with req show ?thesis by (auto simp: Ban_def i_def why_def Let_def)
next
  case False
  let ?d1 = "d\<lparr>accounts := snd (SetStatus i StatusBanned (accounts d))\<rparr>"
  have ok1: "ring_ok (audit ?d1)" "last_seq (audit ?d1) < MaxInt64" using ok by simp_all
  have t: "trail d x = trail ?d1 x" for x by (simp add: trail_def)
  have r: "accounts (RecordAudit now e ?d1) = accounts ?d1" "ledger (RecordAudit now e ?d1) = ledger d" for e
    by (simp_all add: RecordAudit_def)
  have run: "Ban now b d =
    (if i \<in> ins_id ` set (installs (accounts d)) then Inr (i, ''banned'') else Inl (NewError 404 ''INSTALL_NOT_FOUND'' ''no install with that id''),
     RecordAudit now (audit_entry ''ban'' i (take 256 why)
       (if i \<in> ins_id ` set (installs (accounts d)) then ''ok'' else ''not_found'') actor) ?d1)"
    using ban_run[OF req, of i why now d] False by (simp add: i_def why_def Let_def)
  show ?thesis
    unfolding run prod.case t RecordAudit_effect[OF ok1] r
    using False SetStatus_effect[where i = i and st = StatusBanned and a = "accounts d"] by (simp add: audit_entry_def)
qed

text \<open>The quota reset over HTTP: without a reason it is refused; while any reservation is open it answers
  409 QUOTA_RESET_BUSY with nothing changed and nothing recorded; otherwise it zeroes the request
  counters of the current month only, changes no spend balance and no ledger row, and records one
  event naming the month.\<close>

theorem reset_effect:
  assumes ok: "ring_ok (audit d)" "last_seq (audit d) < MaxInt64"
    and req: "decode_struct [''reason''] b = Some req"
  shows "case ResetAllMonthlyQuota loc now b d of (ans, d') \<Rightarrow>
    if TrimSpace (field ''reason'' req) = [] then d' = d \<and> (\<exists>m. ans = Inl (bad_request m))
    else if OpenReservations (ledger d) \<noteq> 0
    then d' = d \<and> ans = Inl (sentinel_error ErrQuotaResetBusy)
    else (\<exists>n. ans = Inr (FormatMonth loc now, n)) \<and> trail d d' = 1 \<and> Action (newest d') = ''quota_reset'' \<and>
      Target (newest d') = FormatMonth loc now \<and> accounts d' = accounts d \<and>
      ledger d' = (ledger d)\<lparr>quota_monthly := quota_monthly (ledger d')\<rparr> \<and>
      (\<forall>i m. m \<noteq> FormatMonth loc now \<longrightarrow>
        count_at (quota_monthly (ledger d')) (i, m) = count_at (quota_monthly (ledger d)) (i, m)) \<and>
      (\<forall>i. count_at (quota_monthly (ledger d')) (i, FormatMonth loc now) \<le> 0)"
proof (cases "TrimSpace (field ''reason'' req) = [] \<or> OpenReservations (ledger d) \<noteq> 0")
  case True
  with req show ?thesis
    by (auto simp: ResetAllMonthlyQuota_def ResetAllMonthlyQuota_use_def ResetMonthlyRequests_def Let_def)
next
  case False
  let ?m = "FormatMonth loc now"
  let ?hit = "\<lambda>e. snd (fst e) = ?m \<and> snd e > (0 :: int64)"
  let ?q = "(ledger d)\<lparr>quota_monthly := map (\<lambda>e. if ?hit e then (fst e, 0) else e) (quota_monthly (ledger d))\<rparr>"
  let ?e = "audit_entry ''quota_reset'' ?m (take 256 (TrimSpace (field ''reason'' req))) ''ok'' actor"
  have c: "count_at (quota_monthly ?q) (i, m) =
      (if m = ?m \<and> count_at (quota_monthly (ledger d)) (i, m) > 0 then 0
       else count_at (quota_monthly (ledger d)) (i, m))" for i m
    by (cases "tget (quota_monthly (ledger d)) (i, m)") (simp_all add: count_at_def tget_map_keys)
  have run: "ResetAllMonthlyQuota loc now b d =
      (Inr (?m, length (filter ?hit (quota_monthly (ledger d)))), RecordAudit now ?e (d\<lparr>ledger := ?q\<rparr>))"
    using req False
    by (simp add: ResetAllMonthlyQuota_def ResetAllMonthlyQuota_use_def ResetMonthlyRequests_def Let_def
        SnapshotPeriod_def MaxReasonChars_def)
  have ok1: "ring_ok (audit (d\<lparr>ledger := ?q\<rparr>))" "last_seq (audit (d\<lparr>ledger := ?q\<rparr>)) < MaxInt64"
    using ok by simp_all
  note E = RecordAudit_effect[OF ok1, of now ?e]
  have t: "trail d x = trail (d\<lparr>ledger := ?q\<rparr>) x" for x by (simp add: trail_def)
  have l: "ledger (RecordAudit now ?e (d\<lparr>ledger := ?q\<rparr>)) = ?q"
      "accounts (RecordAudit now ?e (d\<lparr>ledger := ?q\<rparr>)) = accounts d"
    by (simp_all add: RecordAudit_def)
  have a: "Action (?e\<lparr>At := x, Seq := y\<rparr>) = ''quota_reset''" "Target (?e\<lparr>At := x, Seq := y\<rparr>) = ?m" for x y
    by (simp_all add: audit_entry_def)
  show ?thesis
    unfolding run prod.case l t E(1) E(2) a using False c by (auto simp: not_less)
qed

section \<open>Gaps\<close>

text \<open>An export that fails before its stream leaves no trail. The handler says that every export attempt
  is recorded; an attempt whose snapshot cannot be taken or opened, or is empty, is answered with 500 and
  records nothing, while a stream cut short or completed records exactly one event.\<close>

theorem export_trail:
  assumes "ring_ok (audit d)" and "last_seq (audit d) < MaxInt64"
  shows "trail d (snd (Export now snap opened copied d)) =
    (if opened \<and> (\<exists>n. snap = Some n \<and> n \<noteq> 0) then 1 else 0)"
proof (cases "opened \<and> (\<exists>n. snap = Some n \<and> n \<noteq> 0)")
  case True
  with RecordAudit_effect(1)[OF assms] show ?thesis by (auto simp: Export_def Let_def)
qed (auto simp: Export_def trail_def Let_def split: option.splits)

text \<open>The page size of the audit view is not clamped. The install list answers every query with at most
  200 rows, but the audit handler allocates whatever \<open>limit\<close> asks for: a query with
  \<open>limit=9223372036854775807\<close> panics instead of answering, whatever the ring holds.\<close>

theorem audit_limit_unclamped:
  "length (fst (Installs day q d)) \<le> 200 \<and>
   Audit (parse_query ''limit=9223372036854775807'') d = None"
proof
  show "length (fst (Installs day q d)) \<le> 200"
    by (auto simp: Installs_def InstallsList_def clampPagination_def ListInstalls_def Let_def min_def
        split: prod.splits if_splits)
  have q: "parse_query ''limit=9223372036854775807'' = [(''limit'', ''9223372036854775807'')]"
    by (simp add: parse_query_def List.map_filter_simps parse_pair_def)
  have n: "parse_int ''9223372036854775807'' = Some 9223372036854775807"
    by (simp add: parse_int_def parse_uint_def char_digit_def is_int64_def MaxInt64_def MinInt64_def)
  show "Audit (parse_query ''limit=9223372036854775807'') d = None"
    unfolding q using n
    by (simp add: Audit_def parseAuditCursor_def parsePagination_def query_get_def atoiDefault_def Audit_use_def
        ring_page_def maxAuditCap_def Let_def)
qed

section \<open>Witnesses\<close>

definition demo_account :: install_db where
  "demo_account = empty_install_db\<lparr>installs := [\<lparr>ins_id = ''i1'', public_key = ''pk'', key_thumbprint = ''k'',
     fingerprint = None, client = None, ins_status = StatusActive, install_created_at = 0, last_seen_at = 0\<rparr>]\<rparr>"

definition demo_dash :: "unit dash" where
  "demo_dash = \<lparr>audit = newAuditRing 512, accounts = demo_account, ledger = empty_db, conf = (), alerts = [],
     rates = new_sampler 60 0, inflight = 0\<rparr>"

lemma demo_ring: "ring_ok (audit demo_dash)" "last_seq (audit demo_dash) < MaxInt64"
    "last_seq (audit demo_dash) = 0"
  using newAuditRing_ok by (simp_all add: demo_dash_def) (simp_all add: newAuditRing_def)

theorem audit_walk_exact_witness:
  "\<exists>evs fin d'. audit_walk [] [[(1, zero_event)], [(2, zero_event), (3, zero_event)]] demo_dash = (evs, fin, d') \<and>
     distinct (map Seq evs)"
proof -
  obtain evs fin d' where w: "audit_walk [] [[(1, zero_event)], [(2, zero_event), (3, zero_event)]] demo_dash = (evs, fin, d')"
    by (cases "audit_walk [] [[(1, zero_event)], [(2, zero_event), (3, zero_event)]] demo_dash")
  from audit_walk_exact[OF demo_ring(1) _ w] w show ?thesis by (simp add: demo_ring(3) MaxInt64_def)
qed

theorem install_walk_complete_witness:
  "set (map row_ID (install_walk 2 ''2026-07-01'' [] demo_dash)) = {''i1''}"
proof -
  have l: "Suc (length (installs (accounts demo_dash))) = 2" "ins_id ` set (installs (accounts demo_dash)) = {''i1''}"
    and ok: "identity_ok (accounts demo_dash)" "int (length (installs (accounts demo_dash))) + 50 \<le> MaxInt64"
    by (simp_all add: identity_ok_def demo_dash_def demo_account_def MaxInt64_def)
  show ?thesis using install_walk_complete[OF ok, of "''2026-07-01''", unfolded l] by blast
qed

definition demo_body :: body where
  "demo_body = Json (JObj [(''install_id'', JStr ''i1''), (''reason'', JStr ''abuse'')])"

lemma demo_decoded:
  "decode_struct [''install_id'', ''reason''] demo_body = Some [(''install_id'', ''i1''), (''reason'', ''abuse'')]"
  "decode_struct [''reason''] demo_body = Some [(''reason'', ''abuse'')]"
  by (simp_all add: decode_struct_def demo_body_def tput_def bytes_def lower_char_def)

lemma demo_trimmed: "TrimSpace ''i1'' = ''i1''" "TrimSpace ''abuse'' = ''abuse''"
  by (simp_all add: TrimSpace_graph graph_char_def)

theorem ban_effect_witness:
  "fst (Ban 7 demo_body demo_dash) = Inr (''i1'', ''banned'') \<and>
   Outcome (newest (snd (Ban 7 demo_body demo_dash))) = ''ok''"
  using ban_effect[OF demo_ring(1,2) demo_decoded(1), of 7]
  by (cases "Ban 7 demo_body demo_dash")
    (simp add: field_def tget_def demo_trimmed demo_dash_def demo_account_def split: if_splits)

theorem reset_effect_witness:
  "trail demo_dash (snd (ResetAllMonthlyQuota utc 0 demo_body demo_dash)) = 1"
  using reset_effect[OF demo_ring(1,2) demo_decoded(2), of utc 0]
  by (cases "ResetAllMonthlyQuota utc 0 demo_body demo_dash")
    (simp add: field_def tget_def demo_trimmed OpenReservations_def demo_dash_def empty_db_def split: if_splits)

theorem export_trail_witness:
  "trail demo_dash (snd (Export 5 (Some 0) True True demo_dash)) = 0 \<and>
   trail demo_dash (snd (Export 5 (Some 10) True False demo_dash)) = 1"
  using export_trail[OF demo_ring(1,2), of 5 "Some 0" True True] export_trail[OF demo_ring(1,2), of 5 "Some 10" True False]
  by simp

end
