(* ===== verification/Ui_Api.thy ===== *)
theory Ui_Api
  imports Apierr
begin

text \<open>
  The fetch boundary of the dashboard's single-page application
  (\<open>internal/infra/webassets/ui/src/lib/api.ts\<close>). What \<open>fetch\<close> does with a call is an argument:
  it is unreachable or answers a status and a body. The result of \<open>request\<close> is a resolved value,
  where \<open>None\<close> is \<open>undefined\<close>, or the thrown exception.
\<close>

section \<open>JavaScript values\<close>

text \<open>A parsed JSON value, or \<open>undefined\<close>.\<close>

type_synonym js = "json option"

definition truthy :: "js \<Rightarrow> bool" where
  "truthy v =
     (case v of
        None \<Rightarrow> False
      | Some JNull \<Rightarrow> False
      | Some (JBool b) \<Rightarrow> b
      | Some (JNum n) \<Rightarrow> n \<noteq> 0
      | Some (JReal q) \<Rightarrow> fst q \<noteq> 0
      | Some (JStr s) \<Rightarrow> s \<noteq> []
      | Some (JArr _) \<Rightarrow> True
      | Some (JObj _) \<Rightarrow> True)"

text \<open>A property of a parsed object is its last field of that name; reading a property of \<open>null\<close> throws,
  and of any other value finds nothing, for the names used here.\<close>

definition js_field :: "string \<Rightarrow> json \<Rightarrow> js" where
  "js_field n v = (case v of JObj fs \<Rightarrow> map_of (rev fs) n | _ \<Rightarrow> None)"

definition js_member :: "string \<Rightarrow> json \<Rightarrow> js option" where
  "js_member n v = (if v = JNull then None else Some (js_field n v))"

text \<open>\<open>String(v)\<close>; \<open>show\<close> writes a number that is not an integer.\<close>

fun js_string :: "(int \<times> int \<Rightarrow> string) \<Rightarrow> json \<Rightarrow> string" where
  "js_string shw JNull = ''null''"
| "js_string shw (JBool b) = (if b then ''true'' else ''false'')"
| "js_string shw (JNum n) = itoa n"
| "js_string shw (JReal q) = shw q"
| "js_string shw (JStr s) = s"
| "js_string shw (JArr xs) = join '','' (List.map (\<lambda>x. if x = JNull then [] else js_string shw x) xs)"
| "js_string shw (JObj _) = ''[object Object]''"

section \<open>Errors\<close>

record ApiError =
  err_status :: int
  err_code :: json
  err_message :: string
  err_details :: js

datatype js_error = ApiErr ApiError | OtherErr

definition network_error_text :: string where
  "network_error_text = bytes [231, 189, 145, 231, 187, 156, 232, 175, 183, 230, 177, 130, 229, 164, 177,
     232, 180, 165, 239, 188, 140, 232, 175, 183, 230, 163, 128, 230, 159, 165, 232, 191, 158, 230, 142, 165]"

definition failed_text :: "int \<Rightarrow> string" where
  "failed_text st = bytes [232, 175, 183, 230, 177, 130, 229, 164, 177, 232, 180, 165] @ '' ('' @ itoa st @ '')''"

section \<open>Requests\<close>

record http_call =
  call_path :: string
  call_method :: string
  call_headers :: "(string \<times> string) list"
  call_body :: "json option"

datatype fetched = Unreachable | Answered int body

text \<open>\<open>safeErr\<close>: code, message and details of the failure envelope. A body that does not parse, an
  \<open>error\<close> that is \<open>null\<close> and a body without one give the generic envelope.\<close>

definition safeErr :: "int \<Rightarrow> body \<Rightarrow> js \<times> js \<times> js" where
  "safeErr st b =
     (let generic = (Some (JStr ''ERROR''), Some (JStr (failed_text st)), None)
      in case b of
           Json data \<Rightarrow>
             (case js_field ''error'' data of
                None \<Rightarrow> generic
              | Some e \<Rightarrow>
                  (case (js_member ''code'' e, js_member ''message'' e, js_member ''details'' e) of
                     (Some c, Some m, Some d) \<Rightarrow> (c, m, d)
                   | _ \<Rightarrow> generic))
         | _ \<Rightarrow> generic)"

definition js_or :: "js \<Rightarrow> json \<Rightarrow> json" where
  "js_or v dflt = (if truthy v then the v else dflt)"

definition request ::
    "(int \<times> int \<Rightarrow> string) \<Rightarrow> (http_call \<Rightarrow> fetched) \<Rightarrow> string \<Rightarrow> string \<Rightarrow> json option \<Rightarrow> js_error + js" where
  "request shw fetch path method body =
     (let headers = (if body = None then [] else [(''Content-Type'', ''application/json'')])
      in case fetch \<lparr>call_path = path, call_method = method, call_headers = headers, call_body = body\<rparr> of
           Unreachable \<Rightarrow>
             Inl (ApiErr \<lparr>err_status = 0, err_code = JStr ''NETWORK_ERROR'', err_message = network_error_text,
               err_details = None\<rparr>)
         | Answered st b \<Rightarrow>
             if \<not> (200 \<le> st \<and> st \<le> 299)
             then (let (c, m, d) = safeErr st b
                   in Inl (ApiErr \<lparr>err_status = st, err_code = js_or c (JStr ''ERROR''),
                        err_message = js_string shw (js_or m (JStr (failed_text st))), err_details = d\<rparr>))
             else if st = 204 then Inr None
             else (case b of EmptyBody \<Rightarrow> Inr None | NotJson \<Rightarrow> Inl OtherErr | Json v \<Rightarrow> Inr (Some v)))"

section \<open>Endpoints\<close>

definition page_path :: "string \<Rightarrow> string \<Rightarrow> int \<Rightarrow> string" where
  "page_path base cursor limit =
     base @ ''?'' @ query_string ((if cursor = [] then [] else [(''cursor'', cursor)]) @ [(''limit'', itoa limit)])"

definition getOverview :: "(int \<times> int \<Rightarrow> string) \<Rightarrow> (http_call \<Rightarrow> fetched) \<Rightarrow> js_error + js" where
  "getOverview shw fetch = request shw fetch ''/api/overview'' ''GET'' None"

definition getConfig :: "(int \<times> int \<Rightarrow> string) \<Rightarrow> (http_call \<Rightarrow> fetched) \<Rightarrow> js_error + js" where
  "getConfig shw fetch = request shw fetch ''/api/config'' ''GET'' None"

definition getInstalls :: "(int \<times> int \<Rightarrow> string) \<Rightarrow> (http_call \<Rightarrow> fetched) \<Rightarrow> string \<Rightarrow> int \<Rightarrow> js_error + js" where
  "getInstalls shw fetch cursor limit = request shw fetch (page_path ''/api/installs'' cursor limit) ''GET'' None"

definition getAudit :: "(int \<times> int \<Rightarrow> string) \<Rightarrow> (http_call \<Rightarrow> fetched) \<Rightarrow> string \<Rightarrow> int \<Rightarrow> js_error + js" where
  "getAudit shw fetch cursor limit = request shw fetch (page_path ''/api/audit'' cursor limit) ''GET'' None"

definition postConfig :: "(int \<times> int \<Rightarrow> string) \<Rightarrow> (http_call \<Rightarrow> fetched) \<Rightarrow> (string \<times> string) list \<Rightarrow> js_error + js" where
  "postConfig shw fetch overrides =
     request shw fetch ''/api/config'' ''POST'' (Some (JObj (List.map (\<lambda>(k, v). (k, JStr v)) overrides)))"

definition banInstall :: "(int \<times> int \<Rightarrow> string) \<Rightarrow> (http_call \<Rightarrow> fetched) \<Rightarrow> string \<Rightarrow> string \<Rightarrow> js_error + js" where
  "banInstall shw fetch i why =
     request shw fetch ''/api/installs/ban'' ''POST'' (Some (JObj [(''install_id'', JStr i), (''reason'', JStr why)]))"

definition unbanInstall :: "(int \<times> int \<Rightarrow> string) \<Rightarrow> (http_call \<Rightarrow> fetched) \<Rightarrow> string \<Rightarrow> js_error + js" where
  "unbanInstall shw fetch i =
     request shw fetch ''/api/installs/unban'' ''POST'' (Some (JObj [(''install_id'', JStr i)]))"

definition resetAllMonthlyQuota :: "(int \<times> int \<Rightarrow> string) \<Rightarrow> (http_call \<Rightarrow> fetched) \<Rightarrow> string \<Rightarrow> js_error + js" where
  "resetAllMonthlyQuota shw fetch why =
     request shw fetch ''/api/quota/reset'' ''POST'' (Some (JObj [(''reason'', JStr why)]))"

definition exportUrl :: string where "exportUrl = ''/api/export''"

section \<open>The error contract\<close>

text \<open>A response as \<open>fetch\<close> delivers it, and the error the application then throws.\<close>

definition client_sees :: "response \<Rightarrow> fetched" where
  "client_sees r = Answered (resp_status r) (resp_body r)"

definition thrown :: "api_error \<Rightarrow> js_error" where
  "thrown e = ApiErr \<lparr>err_status = Status e, err_code = JStr (Code e), err_message = Message e,
     err_details = (if Details e = [] then None else Some (JObj (Details e)))\<rparr>"

lemma request_envelope:
  assumes "\<not> (200 \<le> Status e \<and> Status e \<le> 299)" "Code e \<noteq> []" "Message e \<noteq> []"
  shows "request shw (\<lambda>_. client_sees (writeAPIError e)) p m b = Inl (thrown e)"
  using assms
  by (simp add: request_def client_sees_def writeAPIError_def safeErr_def js_field_def js_member_def js_or_def
      truthy_def thrown_def Let_def)

lemma sentinel_texts: "Code (sentinel_error a) \<noteq> []" "Message (sentinel_error a) \<noteq> []"
  by (cases a; simp add: NewError_def)+

lemma request_explicit:
  assumes "\<not> (200 \<le> st \<and> st \<le> 299)"
  shows "request shw (\<lambda>_. client_sees (WriteErrorWith st code msg)) p m b =
    Inl (ApiErr \<lparr>err_status = st, err_code = JStr (if code = [] then ''ERROR'' else code),
      err_message = (if msg = [] then failed_text st else msg), err_details = None\<rparr>)"
  using assms
  by (simp add: WriteErrorWith_def NewError_def request_def client_sees_def writeAPIError_def safeErr_def js_field_def
      js_member_def js_or_def truthy_def Let_def)

lemma request_plain:
  "\<not> (200 \<le> st \<and> st \<le> 299) \<Longrightarrow> request shw (\<lambda>_. Answered st NotJson) p m b =
    Inl (ApiErr \<lparr>err_status = st, err_code = JStr ''ERROR'', err_message = failed_text st, err_details = None\<rparr>)"
  by (simp add: request_def safeErr_def js_or_def truthy_def failed_text_def)

text \<open>C9. Every error the gateway writes reaches the single-page application. Whichever sentinel
  a handler returns, the exception thrown carries its status, its code, its message and no details; an
  upstream rejection and a login lock keep their details; any other Go error arrives as the one generic
  internal error, without its text. A status, code and message written out by a handler arrive as they are, an
  empty code or message being replaced by the application's own; and the plain text of the mux, which is no
  envelope, arrives as the application's own error with the status of the answer.\<close>

theorem error_reaches_ui:
  "request shw (\<lambda>_. client_sees (WriteError (Api (sentinel_error a)))) p m b = Inl (thrown (sentinel_error a)) \<and>
   Details (sentinel_error a) = [] \<and>
   request shw (\<lambda>_. client_sees (WriteError (Api (UpstreamRejected why)))) p m b = Inl (thrown (UpstreamRejected why)) \<and>
   request shw (\<lambda>_. client_sees (WriteError (Api (LoginLocked n)))) p m b = Inl (thrown (LoginLocked n)) \<and>
   request shw (\<lambda>_. client_sees (WriteError (OtherError txt))) p m b =
     Inl (ApiErr \<lparr>err_status = 500, err_code = JStr ''INTERNAL'', err_message = ''internal error'', err_details = None\<rparr>) \<and>
   (if 200 \<le> st \<and> st \<le> 299 then True
    else request shw (\<lambda>_. client_sees (WriteErrorWith st code msg)) p m b =
        Inl (ApiErr \<lparr>err_status = st, err_code = JStr (if code = [] then ''ERROR'' else code),
          err_message = (if msg = [] then failed_text st else msg), err_details = None\<rparr>) \<and>
      request shw (\<lambda>_. Answered st NotJson) p m b =
        Inl (ApiErr \<lparr>err_status = st, err_code = JStr ''ERROR'', err_message = failed_text st, err_details = None\<rparr>))"
proof (intro conjI)
  show "request shw (\<lambda>_. client_sees (WriteError (Api (sentinel_error a)))) p m b = Inl (thrown (sentinel_error a))"
    unfolding WriteError_def go_error.case
    using sentinel_status[of a] sentinel_texts[of a] by (intro request_envelope) auto
  show "Details (sentinel_error a) = []" by (cases a) (simp_all add: NewError_def)
  show "request shw (\<lambda>_. client_sees (WriteError (Api (UpstreamRejected why)))) p m b = Inl (thrown (UpstreamRejected why))"
    unfolding WriteError_def go_error.case
    by (intro request_envelope) (simp_all add: UpstreamRejected_def NewErrorWithDetails_def)
  show "request shw (\<lambda>_. client_sees (WriteError (Api (LoginLocked n)))) p m b = Inl (thrown (LoginLocked n))"
    unfolding WriteError_def go_error.case
    by (intro request_envelope) (simp_all add: LoginLocked_def NewErrorWithDetails_def)
  have "request shw (\<lambda>_. client_sees (writeAPIError InternalError)) p m b = Inl (thrown InternalError)"
    by (intro request_envelope) (simp_all add: InternalError_def NewError_def)
  then show "request shw (\<lambda>_. client_sees (WriteError (OtherError txt))) p m b =
      Inl (ApiErr \<lparr>err_status = 500, err_code = JStr ''INTERNAL'', err_message = ''internal error'', err_details = None\<rparr>)"
    by (simp add: WriteError_def thrown_def InternalError_def NewError_def)
qed (simp add: request_explicit request_plain)

text \<open>The client never lets a failed call look like a success, whatever answers it: an unreachable
  server and a status outside 2xx throw an \<open>ApiError\<close> with a truthy code and the status of the answer,
  also for a body that is empty, is not JSON or has a \<open>null\<close> error; a success resolves to the parsed body
  or \<open>undefined\<close>, and throws only when its body is not JSON.\<close>

theorem request_total:
  "case fetch \<lparr>call_path = p, call_method = m,
      call_headers = (if b = None then [] else [(''Content-Type'', ''application/json'')]), call_body = b\<rparr> of
     Unreachable \<Rightarrow> \<exists>e. request shw fetch p m b = Inl (ApiErr e) \<and> err_status e = 0 \<and> err_code e = JStr ''NETWORK_ERROR''
   | Answered st body \<Rightarrow>
       if \<not> (200 \<le> st \<and> st \<le> 299)
       then \<exists>e. request shw fetch p m b = Inl (ApiErr e) \<and> err_status e = st \<and> truthy (Some (err_code e)) \<and>
         (body = EmptyBody \<or> body = NotJson \<or> (\<exists>fs. body = Json (JObj (fs @ [(''error'', JNull)]))) \<longrightarrow>
           err_code e = JStr ''ERROR'' \<and> err_message e = failed_text st)
       else request shw fetch p m b =
         (if st \<noteq> 204 \<and> body = NotJson then Inl OtherErr
          else Inr (case body of Json v \<Rightarrow> if st = 204 then None else Some v | _ \<Rightarrow> None))"
proof -
  let ?call = "\<lparr>call_path = p, call_method = m,
      call_headers = (if b = None then [] else [(''Content-Type'', ''application/json'')]), call_body = b\<rparr>"
  have t: "truthy (Some (js_or c (JStr ''ERROR'')))" for c
    by (cases c) (auto simp: js_or_def truthy_def)
  have n: "truthy (Some (JStr (failed_text st)))" for st by (simp add: truthy_def failed_text_def)
  have g: "safeErr st body = (Some (JStr ''ERROR''), Some (JStr (failed_text st)), None)"
    if "body = EmptyBody \<or> body = NotJson \<or> (\<exists>fs. body = Json (JObj (fs @ [(''error'', JNull)])))" for st body
    using that by (auto simp: safeErr_def js_field_def js_member_def)
  have e: "js_or (Some (JStr ''ERROR'')) d = JStr ''ERROR''" "js_or (Some (JStr (failed_text st))) d = JStr (failed_text st)"
    for st d using n by (simp_all add: js_or_def truthy_def)
  show ?thesis
  proof (cases "fetch ?call")
    case Unreachable
    then show ?thesis by (simp add: request_def Let_def)
  next
    case (Answered st body)
    obtain c m' d where s: "safeErr st body = (c, m', d)" by (cases "safeErr st body")
    show ?thesis
    proof (cases "200 \<le> st \<and> st \<le> 299")
      case True
      with Answered show ?thesis by (cases body) (simp_all add: request_def Let_def)
    next
      case False
      then have "request shw fetch p m b = Inl (ApiErr \<lparr>err_status = st, err_code = js_or c (JStr ''ERROR''),
          err_message = js_string shw (js_or m' (JStr (failed_text st))), err_details = d\<rparr>)"
        by (simp only: request_def Let_def Answered fetched.case s prod.case if_True not_False_eq_True)
      moreover have "c = Some (JStr ''ERROR'') \<and> m' = Some (JStr (failed_text st))"
        if "body = EmptyBody \<or> body = NotJson \<or> (\<exists>fs. body = Json (JObj (fs @ [(''error'', JNull)])))"
        using g[OF that, of st] s by simp
      ultimately show ?thesis
        unfolding Answered fetched.case using False t[of c] e by auto
    qed
  qed
qed

end
