(* ===== verification/Dashboard_Server.thy ===== *)
theory Dashboard_Server
  imports Dashboard_Props Ui_Api
begin

text \<open>
  The admin listener as its client meets it: the JSON tags of the entities the handlers write
  (\<open>internal/app/dashboard/*.go\<close>, \<open>internal/pkg/alert/alert.go\<close>,
  \<open>internal/pkg/ratesample/ratesample.go\<close>) and the routing of
  \<open>internal/transport/httpapi/router/dashboard.go\<close>. \<open>tm\<close> writes an instant as RFC 3339 text; texts are
  valid UTF-8.
\<close>

section \<open>Entities\<close>

definition frac_json :: "rat \<Rightarrow> json" where
  "frac_json q = (let (n, k) = quotient_of q in if k = 1 then JNum n else JReal (n, k))"

definition audit_event_json :: "(int \<Rightarrow> string) \<Rightarrow> audit_event \<Rightarrow> json" where
  "audit_event_json tm e =
     JObj [(''seq'', JNum (Seq e)), (''at'', JStr (tm (At e))), (''action'', JStr (Action e)),
       (''target'', JStr (Target e)), (''reason'', JStr (Reason e)), (''outcome'', JStr (Outcome e)),
       (''actor'', JStr (Actor e))]"

definition install_row_json :: "(int \<Rightarrow> string) \<Rightarrow> InstallRow \<Rightarrow> json" where
  "install_row_json tm r =
     JObj ([(''id'', JStr (row_ID r)), (''status'', JStr (row_Status r)), (''createdAt'', JStr (tm (CreatedAt r)))] @
       (if tm (LastSeenAt r) = [] then [] else [(''lastSeenAt'', JStr (tm (LastSeenAt r)))]) @
       [(''todaySpendMicroUsd'', JNum (TodaySpendMicroUSD r))])"

definition bound_json :: "string \<Rightarrow> int64 option \<Rightarrow> (string \<times> json) list" where
  "bound_json n v = (case v of None \<Rightarrow> [] | Some x \<Rightarrow> [(n, JNum x)])"

definition dump_item_json :: "dump_item \<Rightarrow> json" where
  "dump_item_json i =
     JObj ([(''key'', JStr (key i)), (''value'', JStr (item_value i)), (''editable'', JBool (editable i)),
       (''restartRequired'', JBool (restartRequired i))] @
       bound_json ''min'' (min_bound i) @ bound_json ''max'' (max_bound i))"

definition alert_json :: "(int \<Rightarrow> string) \<Rightarrow> alert_state \<Rightarrow> json" where
  "alert_json tm a =
     JObj [(''reason'', JStr (alert_Reason a)), (''severity'', JStr (Severity a)), (''firing'', JBool (Firing a)),
       (''message'', JStr (alert_Message a)), (''lastFiredAt'', JStr (lastFiredAt_json tm a))]"

definition provider_json :: "provider_status \<Rightarrow> json" where
  "provider_json p =
     JObj [(''configured'', JBool (Configured p)), (''breakerOpen'', JBool (provider_BreakerOpen p))]"

definition snapshot_json :: "rate_snapshot \<Rightarrow> json" where
  "snapshot_json s =
     JObj [(''qps'', frac_json (QPS s)), (''errorRate'', frac_json (ErrorRate s)),
       (''windowSec'', JNum (int (WindowSec s)))]"

text \<open>A slice that was never appended to is \<open>null\<close>: an empty list of alerts is made, not nil.\<close>

definition overview_json :: "(int \<Rightarrow> string) \<Rightarrow> overview \<Rightarrow> json" where
  "overview_json tm v =
     JObj [(''budget'', JObj [(''day'', JStr (budget_Day v)), (''usedMicroUsd'', JNum (UsedMicroUSD v)),
         (''limitMicroUsd'', JNum (LimitMicroUSD v)), (''remainingMicroUsd'', JNum (RemainingMicroUSD v)),
         (''unit'', JStr ''micro_usd'')]),
       (''inflightConcurrency'', JNum (InflightConcurrency v)), (''openReservations'', JNum (ov_OpenReservations v)),
       (''providers'', JObj [(''qwen'', provider_json (Qwen v))]),
       (''upstreamBreakerOpen'', JBool (UpstreamBreakerOpen v)), (''diskDegraded'', JBool (ov_DiskDegraded v)),
       (''alerts'', JArr (map (alert_json tm) (Alerts v))), (''recent'', snapshot_json (Recent v)),
       (''installsToday'', JNum (InstallsToday v)), (''installGlobalCap'', JNum (ov_InstallGlobalCap v))]"

definition config_body :: "dump_item list \<Rightarrow> json" where
  "config_body is = JObj [(''items'', JArr (map dump_item_json is))]"

definition installs_body :: "(int \<Rightarrow> string) \<Rightarrow> InstallRow list \<times> string \<Rightarrow> json" where
  "installs_body tm res =
     JObj [(''installs'', if fst res = [] then JNull else JArr (map (install_row_json tm) (fst res))),
       (''nextCursor'', JStr (snd res))]"

definition audit_body :: "(int \<Rightarrow> string) \<Rightarrow> audit_event list \<times> string \<Rightarrow> json" where
  "audit_body tm res =
     JObj [(''events'', JArr (map (audit_event_json tm) (fst res))), (''nextCursor'', JStr (snd res))]"

definition status_body :: "string \<times> string \<Rightarrow> json" where
  "status_body res = JObj [(''install_id'', JStr (fst res)), (''status'', JStr (snd res))]"

definition reset_body :: "string \<times> nat \<Rightarrow> json" where
  "reset_body res = JObj [(''period'', JStr (fst res)), (''resetInstalls'', JNum (int (snd res)))]"

section \<open>Routing\<close>

text \<open>What a served request reads beside the state: the wired ports, the clock, and how an export goes: the size of
  its snapshot, whether the file opens, and whether the client takes the whole stream.\<close>

record 'c served =
  srv_config :: "'c config_port"
  srv_provider :: "(bool \<times> bool) option"
  srv_disk :: bool
  srv_loc :: location
  srv_now :: int
  srv_time :: "int \<Rightarrow> string"
  srv_export :: "int64 option \<times> bool \<times> bool"

definition answer_with :: "('a \<Rightarrow> json) \<Rightarrow> (api_error + 'a) \<times> 'd \<Rightarrow> fetched \<times> 'd" where
  "answer_with enc res =
     (client_sees (case fst res of Inl e \<Rightarrow> writeAPIError e | Inr v \<Rightarrow> WriteJSON 200 (enc v)), snd res)"

text \<open>A statement the database fails. A handler that reaches it changes nothing and answers its own 500; one that
  refused the request before answers as ever, with a 400.\<close>

definition unstored :: "string \<Rightarrow> 'd \<Rightarrow> (api_error + 'a) \<times> 'd \<Rightarrow> (api_error + 'a) \<times> 'd" where
  "unstored msg d res =
     (case fst res of
        Inl e \<Rightarrow> (Inl (if Status e = 400 then e else internal msg), d)
      | Inr _ \<Rightarrow> (Inl (internal msg), d))"

text \<open>The overview leaves out what it cannot read.\<close>

definition unread :: "overview \<Rightarrow> overview" where
  "unread v = v\<lparr>budget_Day := [], UsedMicroUSD := 0, LimitMicroUSD := 0, RemainingMicroUSD := 0,
     ov_OpenReservations := 0, InstallsToday := 0\<rparr>"

text \<open>The mux, over clean paths. \<open>stored\<close> says whether the database serves the statements of the request. A
  handler that panics drops the connection; the export is a download, and a page outside the API is the
  application itself: neither is JSON.\<close>

definition get_route ::
    "'c served \<Rightarrow> string \<Rightarrow> (string \<times> string) list \<Rightarrow> bool \<Rightarrow> 'c dash \<Rightarrow> fetched \<times> 'c dash" where
  "get_route v path query stored d =
     (let ok = (\<lambda>j. client_sees (WriteJSON 200 j)); day = FormatDay (srv_loc v) (srv_now v) in
      if path = ''/healthz'' then (ok (JObj [(''status'', JStr ''ok'')]), d)
      else if path = ''/api/overview'' then
        (let (o', d') = Overview (srv_config v) (srv_provider v) (srv_disk v) (srv_loc v) (srv_now v) d
         in (ok (overview_json (srv_time v) (if stored then o' else unread o')), d'))
      else if path = ''/api/config'' then (ok (config_body (GetConfig (srv_config v) d)), d)
      else if path = ''/api/installs'' then
        (if stored then (ok (installs_body (srv_time v) (Installs day query d)), d)
         else (client_sees (writeAPIError (internal ''failed to list installs'')), d))
      else if path = ''/api/audit'' then
        ((case Audit query d of None \<Rightarrow> Unreachable | Some res \<Rightarrow> ok (audit_body (srv_time v) res)), d)
      else if path = ''/api/export'' then
        (let (snap, opened, copied) = srv_export v
         in case Export (srv_now v) snap opened copied d of
              (Inl e, d') \<Rightarrow> (client_sees (writeAPIError e), d')
            | (Inr f, d') \<Rightarrow> (Answered 200 NotJson, d'))
      else if is_prefix ''/api/'' path then (Answered 404 NotJson, d)
      else (Answered 200 NotJson, d))"

definition post_route ::
    "'c served \<Rightarrow> string \<Rightarrow> body \<Rightarrow> bool \<Rightarrow> 'c dash \<Rightarrow> fetched \<times> 'c dash" where
  "post_route v path b stored d =
     (if path = ''/api/config'' then answer_with config_body (PostConfig (srv_config v) (srv_now v) b d)
      else if path = ''/api/installs/ban'' then
        answer_with status_body (let res = Ban (srv_now v) b d in if stored then res else unstored ''status update failed'' d res)
      else if path = ''/api/installs/unban'' then
        answer_with status_body (let res = Unban (srv_now v) b d in if stored then res else unstored ''status update failed'' d res)
      else if path = ''/api/quota/reset'' then
        answer_with reset_body
          (let res = ResetAllMonthlyQuota (srv_loc v) (srv_now v) b d
           in if stored then res else unstored ''quota reset failed'' d res)
      else (Answered 405 NotJson, d))"

definition without_body :: "fetched \<Rightarrow> fetched" where
  "without_body a = (case a of Unreachable \<Rightarrow> Unreachable | Answered st _ \<Rightarrow> Answered st EmptyBody)"

text \<open>Any request: \<open>b\<close> is what the decoder of the handler reads of its body. A body that is malformed, or longer than
  its \<open>MaxBytesReader\<close> allows (64 KiB for the configuration, 8 KiB for the others) and so cut off, is no JSON.\<close>

definition Dispatch :: "'c served \<Rightarrow> http_call \<Rightarrow> body \<Rightarrow> bool \<Rightarrow> 'c dash \<Rightarrow> fetched \<times> 'c dash" where
  "Dispatch v c b stored d =
     (let (path, q) = cut (CHR ''?'') (call_path c); query = parse_query q in
      if call_method c = ''GET'' then get_route v path query stored d
      else if call_method c = ''HEAD'' then
        (let (a, d') = get_route v path query stored d in (without_body a, d'))
      else if call_method c = ''POST'' then post_route v path b stored d
      else (Answered 405 NotJson, d))"

text \<open>A call of the application, over a database that answers: its body is JSON, and within the limit of its route.\<close>

definition posted :: "http_call \<Rightarrow> body" where
  "posted c = (case call_body c of None \<Rightarrow> EmptyBody | Some v \<Rightarrow> Json v)"

definition Serve :: "'c served \<Rightarrow> http_call \<Rightarrow> 'c dash \<Rightarrow> fetched \<times> 'c dash" where
  "Serve v c d = Dispatch v c (posted c) True d"

lemmas serve_defs = Serve_def Dispatch_def get_route_def post_route_def

section \<open>The client's calls, served\<close>

lemma cut_path: "CHR ''?'' \<notin> set p \<Longrightarrow> cut (CHR ''?'') p = (p, [])"
  by (induction p) auto

lemma serve_audit:
  "getAudit shw (\<lambda>c. fst (Serve v c d)) cursor 50 =
     (case fetch_audit cursor d of
        None \<Rightarrow> Inl (ApiErr \<lparr>err_status = 0, err_code = JStr ''NETWORK_ERROR'', err_message = network_error_text,
          err_details = None\<rparr>)
      | Some res \<Rightarrow> Inr (Some (audit_body (srv_time v) res)))"
  by (simp add: getAudit_def request_def serve_defs page_path_def fetch_audit_def page_query_def client_sees_def
      WriteJSON_def Let_def split: option.split)

lemma serve_installs:
  "getInstalls shw (\<lambda>c. fst (Serve v c d)) cursor 50 =
     Inr (Some (installs_body (srv_time v) (fetch_installs (FormatDay (srv_loc v) (srv_now v)) cursor d)))"
  by (simp add: getInstalls_def request_def serve_defs page_path_def fetch_installs_def page_query_def client_sees_def
      WriteJSON_def Let_def)

end
