(* ===== verification/Config_Bounds.thy ===== *)
theory Config_Bounds
  imports Wire
begin

text \<open>
  The bounded integers of a runtime override (\<open>reqInt64\<close>, \<open>reqInt\<close>, \<open>BoundInt64\<close> and \<open>BoundInt\<close> in
  \<open>internal/domain/config/config.go\<close>; Go's \<open>int\<close> is 64 bits wide, so the two widths are one): the error text,
  or the value. The parameter \<open>q\<close> is the format verb \<open>%q\<close>.
\<close>

definition BoundInt64 :: "string \<Rightarrow> int64 \<Rightarrow> int64 \<Rightarrow> int64 \<Rightarrow> string option" where
  "BoundInt64 name v lo hi =
     (if v < lo then Some (name @ '' must be >= '' @ itoa lo)
      else if v > hi then Some (name @ '' must be <= '' @ itoa hi)
      else None)"

definition reqInt64 :: "(string \<Rightarrow> string) \<Rightarrow> string \<Rightarrow> string \<Rightarrow> int64 \<Rightarrow> int64 \<Rightarrow> string + int64" where
  "reqInt64 q name raw lo hi =
     (case parse_int (TrimSpace raw) of
        None \<Rightarrow> Inl (name @ '': invalid int '' @ q raw)
      | Some n \<Rightarrow> (case BoundInt64 name n lo hi of Some err \<Rightarrow> Inl err | None \<Rightarrow> Inr n))"

lemma itoa_graph: "graph_char (hd (itoa n))" "graph_char (last (itoa n))"
proof -
  have d: "graph_char c" if "c \<in> set (dec m)" for c m
    using dec_digits[OF that] by (simp add: graph_char_def)
  have m: "graph_char (CHR ''-'')" by (simp add: graph_char_def)
  show "graph_char (hd (itoa n))" "graph_char (last (itoa n))"
    using m d[OF hd_in_set[OF dec_not_Nil]] d[OF last_in_set[OF dec_not_Nil]] by (simp_all add: itoa_def)
qed

lemma reqInt64_Inr:
  "reqInt64 q name raw lo hi = Inr n \<longleftrightarrow> parse_int (TrimSpace raw) = Some n \<and> lo \<le> n \<and> n \<le> hi"
  by (auto simp: reqInt64_def BoundInt64_def split: option.splits if_splits)

lemma parse_int_itoa_trim: "is_int64 n \<Longrightarrow> parse_int (TrimSpace (itoa n)) = Some n"
  by (simp add: TrimSpace_graph[OF itoa_graph])

lemma reqInt64_itoa:
  "is_int64 n \<Longrightarrow> reqInt64 q name (itoa n) lo hi =
     (if n < lo then Inl (name @ '' must be >= '' @ itoa lo) else if n > hi then Inl (name @ '' must be <= '' @ itoa hi)
      else Inr n)"
  by (simp add: reqInt64_def parse_int_itoa_trim BoundInt64_def)

lemma reqInt64_empty: "reqInt64 q name [] lo hi = Inl (name @ '': invalid int '' @ q [])"
  by (simp add: reqInt64_def TrimSpace_def trim_def parse_int_def parse_uint_def)

end
