(* ===== verification/Js_Number.thy ===== *)
theory Js_Number
  imports Complex_Main Config_Bounds "HOL-Library.Log_Nat"
begin

text \<open>
  \<open>Number(s)\<close> on a string: white space around it is dropped, the empty text is zero, a literal is its exact
  value rounded to the nearest double, ties to even, and anything else is \<open>NaN\<close>.
\<close>

section \<open>Doubles\<close>

datatype number = NaN | Infinite bool | Finite rat

definition round_even :: "rat \<Rightarrow> int" where
  "round_even q =
     (let f = floor q; r = q - of_int f
      in if r < 1 / 2 then f else if r > 1 / 2 then f + 1 else if even f then f else f + 1)"

definition pow2 :: "int \<Rightarrow> rat" where
  "pow2 e = (if e < 0 then 1 / 2 ^ nat (- e) else 2 ^ nat e)"

text \<open>How many binary digits a positive integer has.\<close>

function bit_count :: "int \<Rightarrow> int" where
  "bit_count n = (if n \<le> 0 then 0 else 1 + bit_count (n div 2))"
  by auto
termination by (relation "measure nat") auto

declare bit_count.simps [simp del]

text \<open>The exponent of a positive rational: \<open>pow2 e \<le> q < pow2 (e + 1)\<close>.\<close>

definition exponent :: "rat \<Rightarrow> int" where
  "exponent q =
     (let (n, d) = quotient_of q; k = bit_count n - bit_count d
      in if pow2 k \<le> q then k else k - 1)"

definition to_double :: "rat \<Rightarrow> number" where
  "to_double q =
     (if q = 0 then Finite 0
      else let a = abs q; u = max (- 1074) (exponent a - 52); v = of_int (round_even (a / pow2 u)) * pow2 u
           in if v \<ge> pow2 1024 then Infinite (q < 0) else Finite (if q < 0 then - v else v))"

section \<open>Literals\<close>

definition digit_value :: "nat \<Rightarrow> char \<Rightarrow> nat option" where
  "digit_value base c =
     (let n = of_char c :: nat;
          d = (if 48 \<le> n \<and> n \<le> 57 then n - 48 else if 97 \<le> n \<and> n \<le> 102 then n - 87
               else if 65 \<le> n \<and> n \<le> 70 then n - 55 else base)
      in if d < base then Some d else None)"

fun base_value :: "nat \<Rightarrow> nat \<Rightarrow> string \<Rightarrow> nat option" where
  "base_value base acc [] = Some acc"
| "base_value base acc (c # cs) =
     (case digit_value base c of None \<Rightarrow> None | Some d \<Rightarrow> base_value base (base * acc + d) cs)"

fun span_digits :: "string \<Rightarrow> string \<times> string" where
  "span_digits [] = ([], [])"
| "span_digits (c # cs) =
     (if char_digit c = None then ([], c # cs) else (let (a, b) = span_digits cs in (c # a, b)))"

definition ten_to :: "int \<Rightarrow> rat" where
  "ten_to e = (if e < 0 then 1 / 10 ^ nat (- e) else 10 ^ nat e)"

definition exponent_part :: "string \<Rightarrow> int option" where
  "exponent_part s =
     (case s of
        [] \<Rightarrow> Some 0
      | e # r \<Rightarrow>
          if e \<noteq> CHR ''e'' \<and> e \<noteq> CHR ''E'' then None
          else let (sgn, ds) = (case r of
                      [] \<Rightarrow> (1, [])
                    | c # cs \<Rightarrow> if c = CHR ''-'' then (-1, cs) else if c = CHR ''+'' then (1, cs) else (1, c # cs))
               in map_option (\<lambda>n. sgn * int n) (parse_uint ds))"

definition unsigned_decimal :: "string \<Rightarrow> rat option" where
  "unsigned_decimal s =
     (let (whole, r1) = span_digits s;
          (frac, r2) = (case r1 of c # r \<Rightarrow> if c = CHR ''.'' then span_digits r else ([], r1) | [] \<Rightarrow> ([], []))
      in if whole = [] \<and> frac = [] then None
         else case (dec_value 0 (whole @ frac), exponent_part r2) of
                (Some m, Some e) \<Rightarrow> Some (of_nat m * ten_to (e - int (length frac)))
              | _ \<Rightarrow> None)"

definition radix_prefix :: "string \<Rightarrow> nat option" where
  "radix_prefix s =
     (if take 2 s \<in> {''0x'', ''0X''} then Some 16
      else if take 2 s \<in> {''0o'', ''0O''} then Some 8
      else if take 2 s \<in> {''0b'', ''0B''} then Some 2
      else None)"

definition signed_decimal :: "bool \<Rightarrow> string \<Rightarrow> number" where
  "signed_decimal neg t =
     (if t = ''Infinity'' then Infinite neg
      else case unsigned_decimal t of None \<Rightarrow> NaN | Some q \<Rightarrow> to_double (if neg then - q else q))"

definition js_number :: "string \<Rightarrow> number" where
  "js_number raw =
     (let s = js_trim raw in
      if s = [] then Finite 0
      else case radix_prefix s of
             Some base \<Rightarrow>
               if drop 2 s = [] then NaN
               else (case base_value base 0 (drop 2 s) of None \<Rightarrow> NaN | Some n \<Rightarrow> to_double (of_nat n))
           | None \<Rightarrow>
               if hd s = CHR ''-'' then signed_decimal True (tl s)
               else if hd s = CHR ''+'' then signed_decimal False (tl s)
               else signed_decimal False s)"

section \<open>Integers are read exactly\<close>

lemma round_even_int [simp]: "round_even (of_int z) = z"
  by (simp add: round_even_def)

lemma pow2_pos: "0 < pow2 e"
  by (simp add: pow2_def)

lemma bit_count_floorlog: "bit_count n = int (floorlog 2 (nat n))"
proof (induction n rule: bit_count.induct)
  case (1 n)
  have "floorlog 2 (nat n) = Suc (floorlog 2 (nat (n div 2)))" if "0 < n"
    using that compute_floorlog[of 2 "nat n"] by (simp add: nat_div_distrib)
  with 1 show ?case by (cases "0 < n") (simp_all add: bit_count.simps[of n] floorlog_def)
qed

lemma to_double_int:
  assumes "abs z < 2 ^ 53"
  shows "to_double (of_int z) = Finite (of_int z)"
proof (cases "z = 0")
  case False
  let ?a = "abs z" and ?u = "max (- 1074) (exponent (of_int (abs z)) - 52)"
  have l: "floorlog 2 (nat ?a) \<le> 53" using assms by (intro floorlog_leI) auto
  have one: "floorlog 2 (nat 1) = 1" by (simp add: floorlog_def)
  have Q: "quotient_of (of_int ?a) = (?a, 1)" by (rule quotient_of_rat_of_int)
  have "exponent (of_int ?a) \<le> int (floorlog 2 (nat ?a)) - 1"
    by (simp add: exponent_def bit_count_floorlog Q one[simplified] Let_def del: of_int_abs)
  then have u: "?u \<le> 0" using l by linarith
  have q: "of_int ?a / pow2 ?u = of_int (?a * 2 ^ nat (- ?u))"
  proof -
    have "of_int ?a / pow2 w = of_int (?a * 2 ^ nat (- w))" if "w \<le> 0" for w
      using that by (cases "w = 0") (simp_all add: pow2_def)
    then show ?thesis using u by blast
  qed
  have "of_int (round_even (of_int ?a / pow2 ?u)) * pow2 ?u = (of_int ?a :: rat)"
    unfolding q round_even_int using pow2_pos[of ?u] q by (simp add: field_simps)
  moreover have "(of_int ?a :: rat) < pow2 1024"
  proof -
    have "(of_int ?a :: rat) < of_int (2 ^ 53)" using assms by (simp only: of_int_less_iff)
    also have "\<dots> \<le> pow2 1024" by (simp add: pow2_def)
    finally show ?thesis .
  qed
  ultimately show ?thesis using False by (simp add: to_double_def Let_def abs_if split: if_splits)
qed (simp add: to_double_def)

lemma span_dec: "span_digits (dec n) = (dec n, [])"
proof -
  have "(\<forall>c \<in> set s. char_digit c \<noteq> None) \<Longrightarrow> span_digits s = (s, [])" for s by (induction s) auto
  moreover have "char_digit c \<noteq> None" if "c \<in> set (dec n)" for c
    using dec_digits[OF that] by (simp add: char_digit_def)
  ultimately show ?thesis by blast
qed

lemma unsigned_decimal_dec: "unsigned_decimal (dec n) = Some (of_nat n)"
  by (simp add: unsigned_decimal_def span_dec dec_value_dec exponent_part_def ten_to_def)

lemma itoa_shape: "itoa n = (if n < 0 then ''-'' else []) @ dec (nat (abs n))"
  by (simp add: itoa_def)

lemma digit_not: "c \<in> set (dec n) \<Longrightarrow> c \<noteq> CHR ''x'' \<and> c \<noteq> CHR ''X'' \<and> c \<noteq> CHR ''o'' \<and> c \<noteq> CHR ''O'' \<and>
    c \<noteq> CHR ''b'' \<and> c \<noteq> CHR ''B'' \<and> c \<noteq> CHR ''-'' \<and> c \<noteq> CHR ''+'' \<and> c \<noteq> CHR ''I''"
  using dec_digits[of c n] by auto

lemma js_number_itoa:
  assumes "abs n < 2 ^ 53"
  shows "js_number (itoa n) = Finite (of_int n)"
proof -
  let ?d = "dec (nat (abs n))"
  obtain c cs where d: "?d = c # cs" by (cases ?d) auto
  have in_d: "x \<noteq> CHR ''x'' \<and> x \<noteq> CHR ''X'' \<and> x \<noteq> CHR ''o'' \<and> x \<noteq> CHR ''O'' \<and>
    x \<noteq> CHR ''b'' \<and> x \<noteq> CHR ''B'' \<and> x \<noteq> CHR ''-'' \<and> x \<noteq> CHR ''+'' \<and> x \<noteq> CHR ''I''" if "x \<in> set (c # cs)" for x
    using digit_not[of x "nat (abs n)"] that d by simp
  have t: "js_trim (itoa n) = itoa n" by (rule js_trim_graph[OF itoa_graph])
  have b: "radix_prefix (itoa n) = None"
    using in_d by (cases cs) (auto simp: radix_prefix_def itoa_shape d numeral_2_eq_2)
  have u: "unsigned_decimal ?d = Some (of_int (abs n))" by (simp add: unsigned_decimal_dec)
  have inf: "?d \<noteq> ''Infinity''" using in_d[of c] d by auto
  have "signed_decimal (n < 0) ?d = Finite (of_int n)"
    using to_double_int[OF assms] u inf by (simp add: signed_decimal_def)
  then show ?thesis
    using t b in_d[of c] d by (cases "n < 0") (simp_all add: js_number_def itoa_shape)
qed

lemma js_number_empty: "js_number [] = Finite 0"
  by (simp add: js_number_def js_trim_def trim_def)

section \<open>The nearest double\<close>

lemma pow2_powi: "pow2 e = 2 powi e"
  by (simp add: pow2_def power_int_def inverse_eq_divide power_one_over)

lemma pow2_mono: "a \<le> b \<Longrightarrow> pow2 a \<le> pow2 b"
  by (simp add: pow2_powi power_int_increasing)

lemma pow2_frac: "2 ^ a / 2 ^ b = pow2 (int a - int b)"
  by (simp add: pow2_powi power_int_diff)

lemma exponent_bounds:
  assumes "0 < q"
  shows "pow2 (exponent q) \<le> q" "q < pow2 (exponent q + 1)"
proof -
  obtain n d where nd: "quotient_of q = (n, d)" by fastforce
  have d: "0 < d" using quotient_of_denom_pos[OF nd] .
  have q: "q = of_int n / of_int d" by (rule quotient_of_div[OF nd])
  have n: "0 < n" using assms d by (simp add: q zero_less_divide_iff)
  let ?N = "floorlog 2 (nat n)" and ?D = "floorlog 2 (nat d)"
  have B: "(2::rat) ^ (floorlog 2 (nat m) - 1) \<le> of_int m" "of_int m < (2::rat) ^ floorlog 2 (nat m)"
    "0 < floorlog 2 (nat m)" if "0 < m" for m
  proof -
    have "2 ^ (floorlog 2 (nat m) - 1) \<le> nat m" "nat m < 2 ^ floorlog 2 (nat m)"
      using floorlog_bounds[where b = 2 and x = "nat m"] that by simp_all
    then have "2 ^ (floorlog 2 (nat m) - 1) \<le> m" "m < 2 ^ floorlog 2 (nat m)"
      using that by (simp_all add: le_nat_iff nat_less_iff)
    then have "of_int (2 ^ (floorlog 2 (nat m) - 1)) \<le> (of_int m :: rat)" "(of_int m :: rat) < of_int (2 ^ floorlog 2 (nat m))"
      by (simp_all only: of_int_le_iff of_int_less_iff)
    then show "(2::rat) ^ (floorlog 2 (nat m) - 1) \<le> of_int m" "of_int m < (2::rat) ^ floorlog 2 (nat m)" by simp_all
    show "0 < floorlog 2 (nat m)" using that by (simp add: floorlog_def)
  qed
  let ?k = "int ?N - int ?D"
  have a: "int (?N - 1) - int ?D = ?k - 1" and b: "int ?N - int (?D - 1) = ?k + 1"
    using B(3)[OF n] B(3)[OF d] by simp_all
  have "2 ^ (?N - 1) / 2 ^ ?D \<le> q" unfolding q
    by (rule frac_le[OF _ B(1)[OF n] _ less_imp_le[OF B(2)[OF d]]]) (use n d in simp_all)
  then have lo: "pow2 (?k - 1) \<le> q" by (simp only: pow2_frac a)
  have "q < 2 ^ ?N / 2 ^ (?D - 1)" unfolding q
    by (rule frac_less[OF _ B(2)[OF n] _ B(1)[OF d]]) (use n in simp_all)
  then have hi: "q < pow2 (?k + 1)" by (simp only: pow2_frac b)
  show "pow2 (exponent q) \<le> q" "q < pow2 (exponent q + 1)"
    using lo hi by (simp_all add: exponent_def bit_count_floorlog nd Let_def)
qed

lemma round_even_close: "abs (of_int (round_even q) - q) \<le> 1 / 2"
proof -
  have "of_int (floor q) \<le> q" "q < of_int (floor q) + 1" using floor_correct[of q] by auto
  then show ?thesis by (auto simp: round_even_def Let_def abs_le_iff)
qed

text \<open>The unit in the last place; the nearest double is within half of it.\<close>

definition ulp :: "rat \<Rightarrow> rat" where
  "ulp q = pow2 (max (- 1074) (exponent (abs q) - 52))"

lemma to_double_close:
  assumes "abs q < pow2 1023"
  obtains v where "to_double q = Finite v" "abs (v - q) \<le> ulp q / 2"
proof (cases "q = 0")
  case True
  then show ?thesis using that[of 0] less_imp_le[OF pow2_pos] by (simp add: to_double_def ulp_def)
next
  case False
  let ?a = "abs q" and ?u = "max (- 1074) (exponent (abs q) - 52)"
  define m where "m = pow2 ?u"
  have p: "0 < m" unfolding m_def by (rule pow2_pos)
  let ?v = "of_int (round_even (?a / m)) * m"
  have "?v - ?a = (of_int (round_even (?a / m)) - ?a / m) * m" using p by (simp add: left_diff_distrib)
  then have "abs (?v - ?a) = abs (of_int (round_even (?a / m)) - ?a / m) * m" using p by (simp add: abs_mult)
  also have "\<dots> \<le> 1 / 2 * m" using p by (intro mult_right_mono round_even_close) simp
  finally have c: "abs (?v - ?a) \<le> ulp q / 2" by (simp add: ulp_def m_def)
  have "m \<le> pow2 971" unfolding m_def
  proof (rule pow2_mono)
    have "pow2 (exponent ?a) < pow2 1023" using exponent_bounds(1)[of ?a] assms False by simp
    then have "exponent ?a < 1023" by (meson pow2_mono not_le)
    then show "?u \<le> 971" by simp
  qed
  then have "ulp q / 2 \<le> pow2 1023" by (simp add: ulp_def m_def pow2_powi)
  moreover have "pow2 1024 = 2 * pow2 1023" by (simp add: pow2_powi)
  ultimately have "\<not> pow2 1024 \<le> ?v" using c assms by linarith
  then have "to_double q = Finite (if q < 0 then - ?v else ?v)" using False by (simp add: to_double_def Let_def m_def)
  moreover have "abs ((if q < 0 then - ?v else ?v) - q) \<le> ulp q / 2"
    using c by (cases "q < 0") (simp_all add: abs_if split: if_splits)
  ultimately show ?thesis by (rule that)
qed

lemma to_double_big:
  assumes "2 ^ 53 \<le> abs z"
  shows "to_double (of_int z) = Infinite (z < 0) \<or>
    (\<exists>k. to_double (of_int z) = Finite (of_int k) \<and> (0 < z \<longleftrightarrow> 0 < k) \<and> (z < 0 \<longleftrightarrow> k < 0))"
proof -
  let ?a = "of_int (abs z) :: rat" let ?e = "exponent ?a"
  have pos: "0 < ?a" using assms by simp
  have "of_int (2 ^ 53) \<le> ?a" using assms by (simp only: of_int_le_iff)
  then have "pow2 53 \<le> ?a" by (simp add: pow2_def)
  then have "pow2 53 < pow2 (?e + 1)" using exponent_bounds(2)[OF pos] by linarith
  then have "53 < ?e + 1" by (meson pow2_mono not_le)
  then have u: "max (- 1074) (?e - 52) = ?e - 52" "0 \<le> ?e - 52" by simp_all
  define m :: int where "m = 2 ^ nat (?e - 52)"
  have m: "pow2 (?e - 52) = of_int m" using u(2) by (simp add: pow2_def m_def)
  have mp: "0 < m" by (simp add: m_def)
  have "pow2 (?e - 52) \<le> pow2 ?e" by (rule pow2_mono) simp
  then have "of_int m \<le> ?a" using exponent_bounds(1)[OF pos] m by linarith
  then have "1 \<le> ?a / of_int m" using mp by simp
  then have "0 < (of_int (round_even (?a / of_int m)) :: rat)"
    using round_even_close[of "?a / of_int m"] unfolding abs_le_iff by linarith
  then have r: "0 < round_even (?a / of_int m)" by (simp only: of_int_0_less_iff)
  let ?k = "round_even (?a / of_int m) * m"
  have kp: "0 < ?k" using r mp by simp
  have z: "z \<noteq> 0" using assms by auto
  have "to_double (of_int z) = Infinite (z < 0) \<or> to_double (of_int z) = Finite (of_int (if z < 0 then - ?k else ?k))"
    unfolding to_double_def Let_def of_int_abs[symmetric] u(1) m using z by (simp del: of_int_abs)
  then show ?thesis
  proof
    assume "to_double (of_int z) = Finite (of_int (if z < 0 then - ?k else ?k))"
    moreover have "(0 < z \<longleftrightarrow> 0 < (if z < 0 then - ?k else ?k)) \<and> (z < 0 \<longleftrightarrow> (if z < 0 then - ?k else ?k) < 0)"
      using kp z by auto
    ultimately show ?thesis by blast
  qed simp
qed

section \<open>Numbers of a JSON text\<close>

text \<open>\<open>JSON.parse\<close> reads a number as the nearest double; no number the server writes is out of their range.\<close>

definition js_real :: "rat \<Rightarrow> rat" where
  "js_real q = (case to_double q of Finite v \<Rightarrow> v | _ \<Rightarrow> q)"

definition js_int :: "int \<Rightarrow> int" where
  "js_int n = floor (js_real (of_int n))"

lemma js_int_exact: "abs n < 2 ^ 53 \<Longrightarrow> js_int n = n"
  by (simp add: js_int_def js_real_def to_double_int)

lemma js_int_real: "js_real (of_int n) = of_int (js_int n)"
proof (cases "abs n < 2 ^ 53")
  case False
  then show ?thesis using to_double_big[of n] by (auto simp: js_int_def js_real_def)
qed (simp add: js_int_def js_real_def to_double_int)

lemma js_int_sign: "0 < js_int n \<longleftrightarrow> 0 < n" "js_int n < 0 \<longleftrightarrow> n < 0"
proof -
  have "(0 < js_int n \<longleftrightarrow> 0 < n) \<and> (js_int n < 0 \<longleftrightarrow> n < 0)"
  proof (cases "abs n < 2 ^ 53")
    case False
    then show ?thesis using to_double_big[of n] by (auto simp: js_int_def js_real_def)
  qed (simp add: js_int_exact)
  then show "0 < js_int n \<longleftrightarrow> 0 < n" "js_int n < 0 \<longleftrightarrow> n < 0" by simp_all
qed

lemma to_double_whole: "is_int64 n \<Longrightarrow> \<exists>k. to_double (of_int n) = Finite (of_int k)"
proof (cases "abs n < 2 ^ 53")
  case False
  assume "is_int64 n"
  then have "abs n < 2 ^ 64" by (auto simp: is_int64_def MaxInt64_def MinInt64_def)
  then have "of_int (abs n) < (of_int (2 ^ 64) :: rat)" by (simp only: of_int_less_iff)
  then have "abs (of_int n) < pow2 1023" by (simp add: pow2_def)
  then obtain v where "to_double (of_int n) = Finite v" using to_double_close by blast
  with False show ?thesis using to_double_big[of n] by auto
qed (auto simp: to_double_int)

section \<open>What the server reads as an integer\<close>

lemma dec_value_digits: "dec_value a s = Some m \<Longrightarrow> c \<in> set s \<Longrightarrow> char_digit c \<noteq> None"
  by (induction a s rule: dec_value.induct) (auto split: option.splits)

lemma digit_char_not: "char_digit c \<noteq> None \<Longrightarrow> c \<notin> {CHR ''x'', CHR ''X'', CHR ''o'', CHR ''O'', CHR ''b'', CHR ''B'',
    CHR ''-'', CHR ''+'', CHR ''I''}"
  by (auto simp: char_digit_def)

lemma unsigned_digits: "parse_uint s = Some m \<Longrightarrow> unsigned_decimal s = Some (of_nat m) \<and> s \<noteq> ''Infinity''"
proof -
  assume s: "parse_uint s = Some m"
  then have v: "dec_value 0 s = Some m" "s \<noteq> []" by (simp_all add: parse_uint_def split: if_splits)
  have "\<forall>c \<in> set s. char_digit c \<noteq> None" using dec_value_digits[OF v(1)] by blast
  then have "span_digits s = (s, [])" by (induction s) auto
  then have "unsigned_decimal s = Some (of_nat m)"
    using v by (simp add: unsigned_decimal_def exponent_part_def ten_to_def)
  moreover have "s \<noteq> ''Infinity''" using v by (auto simp: char_digit_def)
  ultimately show ?thesis by simp
qed

text \<open>A text the server reads as an integer the browser reads as the nearest double.\<close>

lemma js_number_parse_int:
  assumes "parse_int t = Some n" "js_trim t = t"
  shows "js_number t = to_double (of_int n)"
proof -
  obtain c cs where t: "t = c # cs" using assms(1) by (cases t) (auto simp: parse_int_def parse_uint_def)
  have other: "js_number t = signed_decimal neg b"
    if "hd t = CHR ''-'' \<and> neg \<and> b = tl t \<or> hd t = CHR ''+'' \<and> \<not> neg \<and> b = tl t \<or>
      hd t \<noteq> CHR ''-'' \<and> hd t \<noteq> CHR ''+'' \<and> \<not> neg \<and> b = t" "parse_uint b = Some m" for neg b m
  proof -
    have d: "char_digit x \<noteq> None" if "x \<in> set b" for x
      using dec_value_digits[of 0 b m x] that \<open>parse_uint b = Some m\<close> by (simp add: parse_uint_def split: if_splits)
    have "radix_prefix t = None"
    proof (cases cs)
      case (Cons x xs)
      then have "x \<in> set b" using that(1) t by auto
      from digit_char_not[OF d[OF this]] show ?thesis by (simp add: radix_prefix_def t Cons numeral_2_eq_2)
    qed (simp add: radix_prefix_def t numeral_2_eq_2)
    then show ?thesis using that(1) t assms(2) by (auto simp: js_number_def Let_def)
  qed
  have sd: "signed_decimal neg b = to_double (if neg then - of_nat m else of_nat m)" if "parse_uint b = Some m" for neg b m
    using unsigned_digits[OF that] by (simp add: signed_decimal_def)
  show ?thesis
  proof (cases "c = CHR ''-''")
    case True
    then obtain m where m: "parse_uint cs = Some m" "n = - int m"
      using assms(1) by (auto simp: parse_int_def t split: option.splits if_splits)
    show ?thesis using other[of True cs m] sd[OF m(1), of True] m True by (simp add: t)
  next
    case False
    let ?b = "if c = CHR ''+'' then cs else t"
    obtain m where m: "parse_uint ?b = Some m" "n = int m"
      using assms(1) False by (auto simp: parse_int_def t split: option.splits if_splits)
    show ?thesis using other[of False ?b m] sd[OF m(1), of False] m False by (auto simp: t)
  qed
qed

end
