(* ===== verification/Ui_Wire.thy ===== *)
theory Ui_Wire
  imports Dashboard_Server Js_Number "HOL-Library.Monad_Syntax"
begin

text \<open>
  The wire types of the single-page application (\<open>internal/infra/webassets/ui/src/lib/types.ts\<close>) and
  how a parsed entity is read at these types: every declared field is present with its declared type, an
  optional one may be absent, and a list declared nullable may be \<open>null\<close>. A number is the double nearest
  to what the server wrote. The theorem of this theory is that the types mirror what the handlers write.
\<close>

section \<open>Types\<close>

record AlertState =
  al_reason :: string
  al_severity :: string
  al_firing :: bool
  al_message :: string
  al_lastFiredAt :: "string option"

record Rates =
  ra_qps :: rat
  ra_errorRate :: rat
  ra_windowSec :: rat

record ProviderStatus =
  pr_configured :: bool
  pr_breakerOpen :: bool

record OverviewResponse =
  bu_day :: string
  bu_usedMicroUsd :: int
  bu_limitMicroUsd :: int
  bu_remainingMicroUsd :: int
  ov_inflightConcurrency :: int
  ov_openReservations :: int
  ov_qwen :: ProviderStatus
  ov_upstreamBreakerOpen :: bool
  ov_diskDegraded :: bool
  ov_alerts :: "AlertState list option"
  ov_recent :: Rates
  ov_installsToday :: int
  ov_installGlobalCap :: int

record DumpItem =
  it_key :: string
  it_value :: string
  it_editable :: bool
  it_restartRequired :: bool
  it_min :: "int option"
  it_max :: "int option"

record InstallRow_ts =
  in_id :: string
  in_status :: string
  in_createdAt :: string
  in_lastSeenAt :: "string option"
  in_todaySpendMicroUsd :: int

record AuditEvent =
  ev_seq :: int
  ev_at :: string
  ev_action :: string
  ev_target :: string
  ev_reason :: string
  ev_outcome :: string
  ev_actor :: string

record StatusResponse =
  sr_install_id :: string
  sr_status :: string

record QuotaResetResponse =
  qr_period :: string
  qr_resetInstalls :: int

section \<open>Readers\<close>

fun as_string :: "json \<Rightarrow> string option" where
  "as_string (JStr s) = Some s"
| "as_string _ = None"

fun as_bool :: "json \<Rightarrow> bool option" where
  "as_bool (JBool b) = Some b"
| "as_bool _ = None"

fun as_int :: "json \<Rightarrow> int option" where
  "as_int (JNum n) = Some (js_int n)"
| "as_int _ = None"

fun as_number :: "json \<Rightarrow> rat option" where
  "as_number (JNum n) = Some (js_real (of_int n))"
| "as_number (JReal q) = Some (js_real (Fract (fst q) (snd q)))"
| "as_number _ = None"

fun as_list :: "(json \<Rightarrow> 'a option) \<Rightarrow> json \<Rightarrow> 'a list option option" where
  "as_list f JNull = Some None"
| "as_list f (JArr xs) = map_option Some (those (map f xs))"
| "as_list f _ = None"

definition rd :: "json \<Rightarrow> string \<Rightarrow> (json \<Rightarrow> 'a option) \<Rightarrow> 'a option" where
  "rd v n f = Option.bind (js_field n v) f"

definition rd_opt :: "json \<Rightarrow> string \<Rightarrow> (json \<Rightarrow> 'a option) \<Rightarrow> 'a option option" where
  "rd_opt v n f = (case js_field n v of None \<Rightarrow> Some None | Some x \<Rightarrow> map_option Some (f x))"

definition read_alert :: "json \<Rightarrow> AlertState option" where
  "read_alert v = do {
     r \<leftarrow> rd v ''reason'' as_string; s \<leftarrow> rd v ''severity'' as_string; f \<leftarrow> rd v ''firing'' as_bool;
     m \<leftarrow> rd v ''message'' as_string; l \<leftarrow> rd_opt v ''lastFiredAt'' as_string;
     Some \<lparr>al_reason = r, al_severity = s, al_firing = f, al_message = m, al_lastFiredAt = l\<rparr> }"

definition read_rates :: "json \<Rightarrow> Rates option" where
  "read_rates v = do {
     q \<leftarrow> rd v ''qps'' as_number; e \<leftarrow> rd v ''errorRate'' as_number; w \<leftarrow> rd v ''windowSec'' as_number;
     Some \<lparr>ra_qps = q, ra_errorRate = e, ra_windowSec = w\<rparr> }"

definition read_provider :: "json \<Rightarrow> ProviderStatus option" where
  "read_provider v = do {
     c \<leftarrow> rd v ''configured'' as_bool; b \<leftarrow> rd v ''breakerOpen'' as_bool;
     Some \<lparr>pr_configured = c, pr_breakerOpen = b\<rparr> }"

definition read_overview :: "json \<Rightarrow> OverviewResponse option" where
  "read_overview v = do {
     b \<leftarrow> rd v ''budget'' Some;
     day \<leftarrow> rd b ''day'' as_string; used \<leftarrow> rd b ''usedMicroUsd'' as_int;
     limit \<leftarrow> rd b ''limitMicroUsd'' as_int; left \<leftarrow> rd b ''remainingMicroUsd'' as_int;
     unit \<leftarrow> rd b ''unit'' (\<lambda>u. if u = JStr ''micro_usd'' then Some () else None);
     inflight \<leftarrow> rd v ''inflightConcurrency'' as_int; open \<leftarrow> rd v ''openReservations'' as_int;
     p \<leftarrow> rd v ''providers'' Some; qwen \<leftarrow> rd p ''qwen'' read_provider;
     brk \<leftarrow> rd v ''upstreamBreakerOpen'' as_bool; disk \<leftarrow> rd v ''diskDegraded'' as_bool;
     al \<leftarrow> rd v ''alerts'' (as_list read_alert); recent \<leftarrow> rd v ''recent'' read_rates;
     today \<leftarrow> rd v ''installsToday'' as_int; cap \<leftarrow> rd v ''installGlobalCap'' as_int;
     Some \<lparr>bu_day = day, bu_usedMicroUsd = used, bu_limitMicroUsd = limit, bu_remainingMicroUsd = left,
       ov_inflightConcurrency = inflight, ov_openReservations = open, ov_qwen = qwen,
       ov_upstreamBreakerOpen = brk, ov_diskDegraded = disk, ov_alerts = al, ov_recent = recent,
       ov_installsToday = today, ov_installGlobalCap = cap\<rparr> }"

definition read_item :: "json \<Rightarrow> DumpItem option" where
  "read_item v = do {
     k \<leftarrow> rd v ''key'' as_string; x \<leftarrow> rd v ''value'' as_string; e \<leftarrow> rd v ''editable'' as_bool;
     r \<leftarrow> rd v ''restartRequired'' as_bool; lo \<leftarrow> rd_opt v ''min'' as_int; hi \<leftarrow> rd_opt v ''max'' as_int;
     Some \<lparr>it_key = k, it_value = x, it_editable = e, it_restartRequired = r, it_min = lo, it_max = hi\<rparr> }"

text \<open>The type of the list is not nullable; \<open>?? []\<close> in the page covers a \<open>null\<close> all the same.\<close>

definition read_config :: "json \<Rightarrow> DumpItem list option option" where
  "read_config v = rd v ''items'' (as_list read_item)"

definition read_install :: "json \<Rightarrow> InstallRow_ts option" where
  "read_install v = do {
     i \<leftarrow> rd v ''id'' as_string; s \<leftarrow> rd v ''status'' as_string; c \<leftarrow> rd v ''createdAt'' as_string;
     l \<leftarrow> rd_opt v ''lastSeenAt'' as_string; t \<leftarrow> rd v ''todaySpendMicroUsd'' as_int;
     Some \<lparr>in_id = i, in_status = s, in_createdAt = c, in_lastSeenAt = l, in_todaySpendMicroUsd = t\<rparr> }"

definition read_installs :: "json \<Rightarrow> (InstallRow_ts list option \<times> string) option" where
  "read_installs v = do {
     rs \<leftarrow> rd v ''installs'' (as_list read_install); n \<leftarrow> rd v ''nextCursor'' as_string; Some (rs, n) }"

definition read_event :: "json \<Rightarrow> AuditEvent option" where
  "read_event v = do {
     s \<leftarrow> rd v ''seq'' as_int; t \<leftarrow> rd v ''at'' as_string; a \<leftarrow> rd v ''action'' as_string;
     g \<leftarrow> rd v ''target'' as_string; r \<leftarrow> rd v ''reason'' as_string; c \<leftarrow> rd v ''outcome'' as_string;
     w \<leftarrow> rd v ''actor'' as_string;
     Some \<lparr>ev_seq = s, ev_at = t, ev_action = a, ev_target = g, ev_reason = r, ev_outcome = c, ev_actor = w\<rparr> }"

definition read_audit :: "json \<Rightarrow> (AuditEvent list option \<times> string) option" where
  "read_audit v = do {
     es \<leftarrow> rd v ''events'' (as_list read_event); n \<leftarrow> rd v ''nextCursor'' as_string; Some (es, n) }"

definition read_status :: "json \<Rightarrow> StatusResponse option" where
  "read_status v = do {
     i \<leftarrow> rd v ''install_id'' as_string; s \<leftarrow> rd v ''status'' as_string;
     Some \<lparr>sr_install_id = i, sr_status = s\<rparr> }"

definition read_reset :: "json \<Rightarrow> QuotaResetResponse option" where
  "read_reset v = do {
     p \<leftarrow> rd v ''period'' as_string; n \<leftarrow> rd v ''resetInstalls'' as_int;
     Some \<lparr>qr_period = p, qr_resetInstalls = n\<rparr> }"

section \<open>The mirror\<close>

text \<open>What each entity of the backend is at its wire type: its texts and flags, and the double nearest to each
  number.\<close>

definition event_view :: "(int \<Rightarrow> string) \<Rightarrow> audit_event \<Rightarrow> AuditEvent" where
  "event_view tm e = \<lparr>ev_seq = js_int (Seq e), ev_at = tm (At e), ev_action = Action e, ev_target = Target e,
     ev_reason = Reason e, ev_outcome = Outcome e, ev_actor = Actor e\<rparr>"

definition install_view :: "(int \<Rightarrow> string) \<Rightarrow> InstallRow \<Rightarrow> InstallRow_ts" where
  "install_view tm r = \<lparr>in_id = row_ID r, in_status = row_Status r, in_createdAt = tm (CreatedAt r),
     in_lastSeenAt = (if tm (LastSeenAt r) = [] then None else Some (tm (LastSeenAt r))),
     in_todaySpendMicroUsd = js_int (TodaySpendMicroUSD r)\<rparr>"

definition item_view :: "dump_item \<Rightarrow> DumpItem" where
  "item_view i = \<lparr>it_key = key i, it_value = item_value i, it_editable = editable i,
     it_restartRequired = restartRequired i, it_min = map_option js_int (min_bound i),
     it_max = map_option js_int (max_bound i)\<rparr>"

definition alert_view :: "(int \<Rightarrow> string) \<Rightarrow> alert_state \<Rightarrow> AlertState" where
  "alert_view tm a = \<lparr>al_reason = alert_Reason a, al_severity = Severity a, al_firing = Firing a,
     al_message = alert_Message a, al_lastFiredAt = Some (lastFiredAt_json tm a)\<rparr>"

definition rates_view :: "rate_snapshot \<Rightarrow> Rates" where
  "rates_view s = \<lparr>ra_qps = js_real (QPS s), ra_errorRate = js_real (ErrorRate s),
     ra_windowSec = js_real (of_nat (WindowSec s))\<rparr>"

definition status_view :: "string \<times> string \<Rightarrow> StatusResponse" where
  "status_view res = \<lparr>sr_install_id = fst res, sr_status = snd res\<rparr>"

definition reset_view :: "string \<times> nat \<Rightarrow> QuotaResetResponse" where
  "reset_view res = \<lparr>qr_period = fst res, qr_resetInstalls = js_int (int (snd res))\<rparr>"

definition overview_view :: "(int \<Rightarrow> string) \<Rightarrow> overview \<Rightarrow> OverviewResponse" where
  "overview_view tm v = \<lparr>bu_day = budget_Day v, bu_usedMicroUsd = js_int (UsedMicroUSD v),
     bu_limitMicroUsd = js_int (LimitMicroUSD v), bu_remainingMicroUsd = js_int (RemainingMicroUSD v),
     ov_inflightConcurrency = js_int (InflightConcurrency v),
     ov_openReservations = js_int (ov_OpenReservations v),
     ov_qwen = \<lparr>pr_configured = Configured (Qwen v), pr_breakerOpen = provider_BreakerOpen (Qwen v)\<rparr>,
     ov_upstreamBreakerOpen = UpstreamBreakerOpen v, ov_diskDegraded = ov_DiskDegraded v,
     ov_alerts = Some (map (alert_view tm) (Alerts v)),
     ov_recent = rates_view (Recent v),
     ov_installsToday = js_int (InstallsToday v), ov_installGlobalCap = js_int (ov_InstallGlobalCap v)\<rparr>"

lemmas read_simps = rd_def rd_opt_def js_field_def

lemma those_map: "(\<And>x. f (g x) = Some (h x)) \<Longrightarrow> those (map (f \<circ> g) xs) = Some (map h xs)"
  by (induction xs) auto

lemma as_number_frac: "as_number (frac_json q) = Some (js_real q)"
proof (cases q)
  case (Fract a b)
  obtain n k where nk: "quotient_of q = (n, k)" by (cases "quotient_of q")
  have "q = Fract n k" using quotient_of_div[OF nk] by (simp add: Fract_of_int_quotient)
  with nk show ?thesis by (auto simp: frac_json_def Let_def Fract_of_int_eq rat_number_collapse)
qed

lemma read_event_json: "read_event (audit_event_json tm e) = Some (event_view tm e)"
  by (simp add: read_event_def audit_event_json_def read_simps event_view_def)

lemma read_install_json: "read_install (install_row_json tm r) = Some (install_view tm r)"
  by (simp add: read_install_def install_row_json_def read_simps install_view_def)

lemma read_item_json: "read_item (dump_item_json i) = Some (item_view i)"
  by (cases "min_bound i"; cases "max_bound i")
    (simp_all add: read_item_def dump_item_json_def bound_json_def read_simps item_view_def)

lemma read_alert_json: "read_alert (alert_json tm a) = Some (alert_view tm a)"
  by (simp add: read_alert_def alert_json_def read_simps alert_view_def)

lemma read_rates_json: "read_rates (snapshot_json s) = Some (rates_view s)"
  by (simp add: read_rates_def snapshot_json_def read_simps as_number_frac rates_view_def)

lemma read_provider_json: "read_provider (provider_json p) =
    Some \<lparr>pr_configured = Configured p, pr_breakerOpen = provider_BreakerOpen p\<rparr>"
  by (simp add: read_provider_def provider_json_def read_simps)

lemmas wire_simps =
  those_map[of read_event "audit_event_json tm" "event_view tm" for tm, OF read_event_json]
  those_map[of read_install "install_row_json tm" "install_view tm" for tm, OF read_install_json]
  those_map[of read_item dump_item_json item_view, OF read_item_json]
  those_map[of read_alert "alert_json tm" "alert_view tm" for tm, OF read_alert_json]
  read_rates_json read_provider_json

lemma read_audit_body: "read_audit (audit_body tm (es, n)) = Some (Some (map (event_view tm) es), n)"
  by (simp add: read_audit_def audit_body_def read_simps wire_simps)

lemma read_installs_body:
  "read_installs (installs_body tm (rs, n)) = Some (if rs = [] then None else Some (map (install_view tm) rs), n)"
  by (simp add: read_installs_def installs_body_def read_simps wire_simps)

lemma read_config_body: "read_config (config_body is) = Some (Some (map item_view is))"
  by (simp add: read_config_def config_body_def read_simps wire_simps)

lemma read_status_body: "read_status (status_body res) = Some (status_view res)"
  by (simp add: read_status_def status_body_def read_simps status_view_def)

lemma read_reset_body: "read_reset (reset_body res) = Some (reset_view res)"
  by (simp add: read_reset_def reset_body_def read_simps reset_view_def)

lemma read_overview_json: "read_overview (overview_json tm v) = Some (overview_view tm v)"
  by (simp add: read_overview_def overview_json_def read_simps wire_simps overview_view_def)

text \<open>C21. The wire types mirror the handlers: every success body the admin backend writes, its texts being valid
  UTF-8, read at the type the application declares for it, is complete, with every optional field and every
  nullable list accounted for. Texts and flags are the backend's; a number is the double nearest to the
  backend's, which for an integer below 2^53 is that integer and never changes its sign.\<close>

theorem wire_types_mirror:
  "read_overview (overview_json tm v) = Some (overview_view tm v) \<and>
   read_config (config_body is) = Some (Some (map item_view is)) \<and>
   read_installs (installs_body tm (rs, n)) = Some (if rs = [] then None else Some (map (install_view tm) rs), n) \<and>
   read_audit (audit_body tm (es, n)) = Some (Some (map (event_view tm) es), n) \<and>
   read_status (status_body st) = Some (status_view st) \<and>
   read_reset (reset_body res) = Some (reset_view res) \<and>
   (js_int k = k \<or> 2 ^ 53 \<le> abs k) \<and> (0 < js_int k) = (0 < k) \<and> (js_int k < 0) = (k < 0)"
  using js_int_exact[of k] js_int_sign[of k]
  by (simp add: read_overview_json read_config_body read_installs_body read_audit_body read_status_body
      read_reset_body linorder_not_less[symmetric]) blast

end
