(* ===== verification/Ui_Pager.thy ===== *)
theory Ui_Pager
  imports Ui_Wire
begin

text \<open>
  The two paged tables of the single-page application share their hook: a page of rows, the stack of
  visited cursors and the cursor of the next page
  (\<open>internal/infra/webassets/ui/src/pages/Audit.tsx\<close> and \<open>Installs.tsx\<close>). The state is what \<open>useState\<close>
  holds, with the cursors of the loads under way, oldest first; an event handler runs on the state of
  the last render, and a load completes as an event of its own, in any order.
\<close>

section \<open>State and handlers\<close>

definition PAGE_SIZE :: int where "PAGE_SIZE = 50"

record 'r pager =
  rows :: "'r list"
  loading :: bool
  error :: "string option"
  stack :: "string list"
  nextCursor :: string
  flying :: "string list"

definition new_pager :: "'r pager" where
  "new_pager = \<lparr>rows = [], loading = False, error = None, stack = [[]], nextCursor = [], flying = []\<rparr>"

text \<open>The result of an awaited page: an exception, \<open>undefined\<close>, or a list that may be \<open>null\<close> and a cursor.\<close>

type_synonym 'r answer = "js_error + ('r list option \<times> string) option"

text \<open>An error is shown unless it is no \<open>ApiError\<close>, or a 401.\<close>

definition surfaced :: "js_error \<Rightarrow> string option" where
  "surfaced e = (case e of ApiErr x \<Rightarrow> if err_status x \<noteq> 401 then Some (err_message x) else None | OtherErr \<Rightarrow> None)"

definition start_load :: "string \<Rightarrow> ('r, 'z) pager_scheme \<Rightarrow> ('r, 'z) pager_scheme" where
  "start_load cursor p = p\<lparr>loading := True, error := None, flying := flying p @ [cursor]\<rparr>"

definition drop_nth :: "nat \<Rightarrow> 'a list \<Rightarrow> 'a list" where
  "drop_nth k xs = take k xs @ drop (Suc k) xs"

text \<open>The rest of \<open>load\<close>, once load \<open>k\<close> is answered. Reading a property of \<open>undefined\<close> throws an exception
  that is no \<open>ApiError\<close>, which the handler drops.\<close>

definition arrive :: "nat \<Rightarrow> 'r answer \<Rightarrow> ('r, 'z) pager_scheme \<Rightarrow> ('r, 'z) pager_scheme" where
  "arrive k res p =
     (let p1 = p\<lparr>flying := drop_nth k (flying p), loading := False\<rparr>
      in case res of
           Inr (Some (rs, nxt)) \<Rightarrow> p1\<lparr>rows := (case rs of None \<Rightarrow> [] | Some xs \<Rightarrow> xs), nextCursor := nxt\<rparr>
         | Inr None \<Rightarrow> p1
         | Inl e \<Rightarrow> (case surfaced e of None \<Rightarrow> p1 | Some m \<Rightarrow> p1\<lparr>error := Some m\<rparr>))"

definition onNext :: "('r, 'z) pager_scheme \<Rightarrow> ('r, 'z) pager_scheme" where
  "onNext p =
     (if nextCursor p = [] then p
      else start_load (nextCursor p) (p\<lparr>stack := stack p @ [nextCursor p]\<rparr>))"

definition onPrev :: "('r, 'z) pager_scheme \<Rightarrow> ('r, 'z) pager_scheme" where
  "onPrev p =
     (if length (stack p) \<le> 1 then p
      else (let s = butlast (stack p) in start_load (last s) (p\<lparr>stack := s\<rparr>)))"

text \<open>The audit page reloads from the newest page, the install page reloads the current one.\<close>

definition audit_reload :: "('r, 'z) pager_scheme \<Rightarrow> ('r, 'z) pager_scheme" where
  "audit_reload p = start_load [] (p\<lparr>stack := [[]]\<rparr>)"

definition installs_reload :: "('r, 'z) pager_scheme \<Rightarrow> ('r, 'z) pager_scheme" where
  "installs_reload p = start_load (last (stack p)) p"

definition prev_disabled :: "('r, 'z) pager_scheme \<Rightarrow> bool" where
  "prev_disabled p \<longleftrightarrow> length (stack p) \<le> 1 \<or> loading p"

definition next_disabled :: "('r, 'z) pager_scheme \<Rightarrow> bool" where
  "next_disabled p \<longleftrightarrow> nextCursor p = [] \<or> loading p"

text \<open>The mount effect loads the newest page.\<close>

definition mounted :: "'r pager" where "mounted = start_load [] new_pager"

section \<open>Runs\<close>

text \<open>
  A source answers every cursor with a page and does not change. In a served run the operator clicks
  what is enabled, reload at any time, and the loads are answered in the order they were sent; a calm run
  is one whose reloads wait for the answer under way.
\<close>

inductive served_run ::
    "('r pager \<Rightarrow> 'r pager) \<Rightarrow> (string \<Rightarrow> 'r answer) \<Rightarrow> bool \<Rightarrow> 'r pager \<Rightarrow> bool"
  for reload answers calm where
  served_mount: "served_run reload answers calm mounted"
| served_reload: "served_run reload answers calm p \<Longrightarrow> calm \<longrightarrow> flying p = [] \<Longrightarrow> served_run reload answers calm (reload p)"
| served_next: "served_run reload answers calm p \<Longrightarrow> \<not> next_disabled p \<Longrightarrow> served_run reload answers calm (onNext p)"
| served_prev: "served_run reload answers calm p \<Longrightarrow> \<not> prev_disabled p \<Longrightarrow> served_run reload answers calm (onPrev p)"
| served_answer: "served_run reload answers calm p \<Longrightarrow> flying p = c # cs \<Longrightarrow>
    served_run reload answers calm (arrive 0 (answers c) p)"

text \<open>The stack of visited cursors is a walk from the newest page.\<close>

definition walk :: "(string \<Rightarrow> 'r list option \<times> string) \<Rightarrow> string list \<Rightarrow> bool" where
  "walk page_of s \<longleftrightarrow> s \<noteq> [] \<and> hd s = [] \<and>
     (\<forall>i. Suc i < length s \<longrightarrow> s ! Suc i = snd (page_of (s ! i)) \<and> s ! Suc i \<noteq> [])"

definition listed :: "'r list option \<Rightarrow> 'r list" where
  "listed rs = (case rs of None \<Rightarrow> [] | Some xs \<Rightarrow> xs)"

definition displays :: "(string \<Rightarrow> 'r list option \<times> string) \<Rightarrow> 'r pager \<Rightarrow> bool" where
  "displays page_of p \<longleftrightarrow> rows p = listed (fst (page_of (last (stack p)))) \<and> nextCursor p = snd (page_of (last (stack p)))"

lemma arrive_page:
  "arrive 0 (Inr (Some pg)) p =
     p\<lparr>flying := tl (flying p), loading := False, rows := listed (fst pg), nextCursor := snd pg\<rparr>"
  by (cases pg) (simp add: arrive_def drop_nth_def listed_def drop_Suc Let_def)

lemma walk_snoc:
  "walk page_of (s @ [c]) \<longleftrightarrow>
     (if s = [] then c = [] else walk page_of s \<and> c = snd (page_of (last s)) \<and> c \<noteq> [])"
proof (cases "s = []")
  case False
  have "(\<forall>i. Suc i < length (s @ [c]) \<longrightarrow> (s @ [c]) ! Suc i = snd (page_of ((s @ [c]) ! i)) \<and> (s @ [c]) ! Suc i \<noteq> []) \<longleftrightarrow>
      (\<forall>i. Suc i < length s \<longrightarrow> s ! Suc i = snd (page_of (s ! i)) \<and> s ! Suc i \<noteq> []) \<and>
      c = snd (page_of (s ! (length s - 1))) \<and> c \<noteq> []" (is "?l \<longleftrightarrow> ?r")
  proof
    assume l: ?l
    have "c = snd (page_of (s ! (length s - 1))) \<and> c \<noteq> []"
      using l[rule_format, of "length s - 1"] False by (auto simp: nth_append)
    moreover have "s ! Suc i = snd (page_of (s ! i))" "s ! Suc i \<noteq> []" if i: "Suc i < length s" for i
    proof -
      have "Suc i < length (s @ [c])" using i by simp
      note step = l[rule_format, OF this]
      have "(s @ [c]) ! Suc i = s ! Suc i" "(s @ [c]) ! i = s ! i" using i by (simp_all add: nth_append)
      with step show "s ! Suc i = snd (page_of (s ! i))" "s ! Suc i \<noteq> []" by metis+
    qed
    ultimately show ?r by blast
  next
    assume r: ?r
    show ?l
    proof (intro allI impI)
      fix i assume "Suc i < length (s @ [c])"
      then consider "Suc i < length s" | "Suc i = length s" by fastforce
      then show "(s @ [c]) ! Suc i = snd (page_of ((s @ [c]) ! i)) \<and> (s @ [c]) ! Suc i \<noteq> []"
        using r False by cases (auto simp: nth_append dest!: sym[of "Suc _"])
    qed
  qed
  then show ?thesis using False by (auto simp: walk_def last_conv_nth)
qed (simp add: walk_def)

lemma walk_next:
  "walk page_of s \<Longrightarrow> snd (page_of (last s)) \<noteq> [] \<Longrightarrow> walk page_of (s @ [snd (page_of (last s))])"
  by (cases "s = []") (simp_all add: walk_snoc, simp add: walk_def)

lemma walk_prev: "walk page_of s \<Longrightarrow> 1 < length s \<Longrightarrow> walk page_of (butlast s)"
  by (cases s rule: rev_cases) (auto simp: walk_snoc)

lemma walk_ne: "walk page_of s \<Longrightarrow> s \<noteq> []"
  by (simp add: walk_def)

section \<open>The interface of a paged view\<close>

text \<open>
  A reload sends one load, for the cursor on top of the stack it leaves, shows nothing new meanwhile and
  keeps the stack a walk; the source answers every cursor with its page.
\<close>

locale paged_view =
  fixes reload :: "'r pager \<Rightarrow> 'r pager"
    and answers :: "string \<Rightarrow> 'r answer"
    and page_of :: "string \<Rightarrow> 'r list option \<times> string"
  assumes reload_load: "stack p \<noteq> [] \<Longrightarrow>
      loading (reload p) \<and> flying (reload p) = flying p @ [last (stack (reload p))] \<and> stack (reload p) \<noteq> []"
    and reload_walk: "walk page_of (stack p) \<Longrightarrow> walk page_of (stack (reload p))"
    and answered: "answers c = Inr (Some (page_of c))"
begin

lemma served_follows:
  assumes "served_run reload answers calm p"
  shows "stack p \<noteq> [] \<and> (if flying p = [] then displays page_of p else last (flying p) = last (stack p))"
  using assms
proof induction
  case served_mount
  show ?case by (simp add: mounted_def new_pager_def start_load_def)
next
  case (served_reload p)
  then show ?case using reload_load[of p] by auto
next
  case (served_next p)
  then show ?case by (auto simp: onNext_def start_load_def)
next
  case (served_prev p)
  then have "butlast (stack p) \<noteq> []" by (cases "stack p" rule: rev_cases) (auto simp: prev_disabled_def)
  with served_prev show ?case by (auto simp: onPrev_def start_load_def Let_def)
next
  case (served_answer p c cs)
  then show ?case by (cases cs) (auto simp: answered arrive_page displays_def)
qed

lemma calm_walks:
  assumes "served_run reload answers True p"
  shows "walk page_of (stack p) \<and>
    (if flying p = [] then \<not> loading p \<and> displays page_of p else loading p \<and> flying p = [last (stack p)])"
  using assms
proof (induction rule: served_run.induct)
  case served_mount
  show ?case by (simp add: mounted_def new_pager_def start_load_def walk_def)
next
  case (served_reload p)
  then show ?case using reload_load[of p] reload_walk[of p] walk_ne[of page_of "stack p"] by simp
next
  case (served_next p)
  then have "flying p = []" "snd (page_of (last (stack p))) = nextCursor p" "nextCursor p \<noteq> []"
    by (auto simp: next_disabled_def displays_def split: if_splits)
  with served_next walk_next[of page_of "stack p"] show ?case
    by (simp add: onNext_def start_load_def)
next
  case (served_prev p)
  then have "flying p = []" "1 < length (stack p)" by (auto simp: prev_disabled_def split: if_splits)
  with served_prev walk_prev[of page_of "stack p"] show ?case
    by (simp add: onPrev_def start_load_def Let_def)
next
  case (served_answer p c cs)
  then show ?case by (auto simp: answered arrive_page displays_def)
qed

end

end
