(* ===== verification/Ui_Audit.thy ===== *)
theory Ui_Audit
  imports Ui_Pager
begin

text \<open>
  The audit page of the single-page application (\<open>pages/Audit.tsx\<close>): its cells and what it renders, and,
  over the admin backend, that page \<open>n\<close> shows the \<open>n\<close>-th slice of the audit ring. The last two theorems
  are about runs in which a load fails or an answer is overtaken.
\<close>

section \<open>Rendering\<close>

datatype cell = Plain string | CodeText string | Faint string | Tag "string option" string

definition dash_text :: string where "dash_text = bytes [226, 128, 148]"

definition outcomeTag :: "string \<Rightarrow> cell" where
  "outcomeTag outcome =
     (if outcome = ''ok'' then Tag (Some ''green'') ''ok''
      else if outcome = ''not_found'' then Tag (Some ''orange'') ''not_found''
      else if outcome = ''interrupted'' then Tag (Some ''gold'') ''interrupted''
      else if outcome = ''error'' then Tag (Some ''red'') ''error''
      else Tag None outcome)"

definition actionTag :: "string \<Rightarrow> cell" where
  "actionTag action =
     Tag (Some (if action = ''ban'' then ''red'' else if action = ''unban'' then ''green''
       else if action = ''config_update'' then ''blue'' else ''purple'')) action"

text \<open>One row of the table; \<open>date\<close> is the browser's \<open>new Date(t).toLocaleString()\<close>.\<close>

definition audit_cells :: "(string \<Rightarrow> string) \<Rightarrow> AuditEvent \<Rightarrow> cell list" where
  "audit_cells date e =
     [Plain (itoa (ev_seq e)), Plain (date (ev_at e)), actionTag (ev_action e),
      if ev_target e = [] then Faint dash_text else CodeText (ev_target e),
      if ev_reason e = [] then Faint dash_text else Plain (ev_reason e),
      outcomeTag (ev_outcome e),
      if ev_actor e = [] then Faint dash_text else Plain (ev_actor e)]"

record page_view =
  view_error :: "string option"
  view_rows :: "cell list list"
  view_spinning :: bool
  view_page :: nat
  view_prev_disabled :: bool
  view_next_disabled :: bool

definition table_view :: "('r \<Rightarrow> cell list) \<Rightarrow> ('r, 'z) pager_scheme \<Rightarrow> page_view" where
  "table_view cells p =
     \<lparr>view_error = (case error p of Some (c # cs) \<Rightarrow> Some (c # cs) | _ \<Rightarrow> None),
      view_rows = map cells (rows p), view_spinning = loading p, view_page = length (stack p),
      view_prev_disabled = prev_disabled p, view_next_disabled = next_disabled p\<rparr>"

definition Audit_view :: "(string \<Rightarrow> string) \<Rightarrow> AuditEvent pager \<Rightarrow> page_view" where
  "Audit_view date p = table_view (audit_cells date) p"

section \<open>The source\<close>

definition audit_answers :: "(int \<times> int \<Rightarrow> string) \<Rightarrow> (http_call \<Rightarrow> fetched) \<Rightarrow> string \<Rightarrow> AuditEvent answer" where
  "audit_answers shw send cursor =
     (case getAudit shw send cursor PAGE_SIZE of
        Inl e \<Rightarrow> Inl e
      | Inr None \<Rightarrow> Inr None
      | Inr (Some v) \<Rightarrow> Inr (read_audit v))"

definition audit_page_of :: "(int \<Rightarrow> string) \<Rightarrow> 'c dash \<Rightarrow> string \<Rightarrow> AuditEvent list option \<times> string" where
  "audit_page_of tm d cursor =
     (case fetch_audit cursor d of
        None \<Rightarrow> (None, [])
      | Some (es, n) \<Rightarrow> (Some (map (event_view tm) es), n))"

lemma fetch_audit_total: "fetch_audit cursor d \<noteq> None"
proof -
  have "snd (parsePagination (page_query cursor)) = 50"
    by (simp add: parsePagination_def page_query_def query_get_def atoiDefault_def is_int64_def MaxInt64_def MinInt64_def)
  then show ?thesis
    by (auto simp: fetch_audit_def page_query_parsed Audit_def parseAuditCursor_def Audit_use_def ring_page_def
        maxAuditCap_def Let_def)
qed

lemma audit_answered:
  "audit_answers shw (\<lambda>c. fst (Serve v c d)) cursor = Inr (Some (audit_page_of (srv_time v) d cursor))"
  using fetch_audit_total[of cursor d] serve_audit[of shw v d cursor]
  by (auto simp: audit_answers_def audit_page_of_def PAGE_SIZE_def read_audit_body split: option.split)

interpretation audit_table: paged_view audit_reload "audit_answers shw (\<lambda>c. fst (Serve v c d))" "audit_page_of (srv_time v) d"
  for shw :: "int \<times> int \<Rightarrow> string" and v :: "'c served" and d :: "'c dash"
  by unfold_locales (simp_all add: audit_reload_def start_load_def walk_def audit_answered)

section \<open>Pages are slices of the ring\<close>

definition ring_cursor :: "audit_ring \<Rightarrow> nat \<Rightarrow> int64" where
  "ring_cursor a k = (if k = 0 then 0 else Seq (ring_view a ! (k - 1)))"

lemma filter_below_ring:
  assumes ok: "ring_ok a" and k: "k \<le> length (ring_view a)"
  shows "filter (below (ring_cursor a k)) (ring_view a) = drop k (ring_view a)"
proof (cases "k = 0")
  case True
  then show ?thesis by (simp add: ring_cursor_def below_def)
next
  case False
  let ?v = "ring_view a"
  note S = ring_view_seqs[OF ok]
  have lt: "Seq (?v ! j) < Seq (?v ! i)" if "i < j" "j < length ?v" for i j
    using S(1) that by (simp add: sorted_wrt_iff_nth_less)
  have pos: "0 < Seq (?v ! (k - 1))" using S(2) k False by (auto simp del: ring_view_length)
  have "filter (below (ring_cursor a k)) (take k ?v @ drop k ?v) = drop k ?v"
  proof -
    have "filter (below (ring_cursor a k)) (take k ?v) = []"
    proof -
      have "\<not> below (ring_cursor a k) (?v ! i)" if "i < k" for i
      proof (cases "i = k - 1")
        case True
        with pos False show ?thesis by (simp add: below_def ring_cursor_def)
      next
        case i: False
        then have "Seq (?v ! (k - 1)) < Seq (?v ! i)" using lt[of i "k - 1"] that k by simp
        with pos False show ?thesis by (simp add: below_def ring_cursor_def)
      qed
      then show ?thesis by (auto simp: filter_empty_conv in_set_conv_nth)
    qed
    moreover have "filter (below (ring_cursor a k)) (drop k ?v) = drop k ?v"
    proof -
      have "below (ring_cursor a k) x" if "x \<in> set (drop k ?v)" for x
      proof -
        from that obtain i where i: "i < length ?v - k" "x = ?v ! (k + i)"
          by (auto simp: in_set_conv_nth)
        with lt[of "k - 1" "k + i"] False show ?thesis by (simp add: below_def ring_cursor_def)
      qed
      then show ?thesis by (simp add: filter_id_conv)
    qed
    ultimately show ?thesis by (simp del: append_take_drop_id)
  qed
  then show ?thesis by simp
qed

lemma ring_cursor_bounds:
  assumes "ring_ok a" "k \<le> length (ring_view a)"
  shows "0 \<le> ring_cursor a k \<and> (0 < k \<longrightarrow> 0 < ring_cursor a k) \<and> is_int64 (ring_cursor a k)"
proof (cases "k = 0")
  case True
  then show ?thesis by (simp add: ring_cursor_def is_int64_nonneg)
next
  case False
  then have "ring_view a ! (k - 1) \<in> set (ring_view a)" using assms(2) by (intro nth_mem) auto
  note S = ring_view_seqs(2,3)[OF assms(1) this]
  with False assms(1) show ?thesis by (auto simp: ring_cursor_def ring_ok_def intro!: is_int64_nonneg)
qed

lemma audit_slice:
  assumes ok: "ring_ok (audit d)" and k: "k \<le> length (ring_view (audit d))"
  shows "audit_page_of tm d (cursor_of (ring_cursor (audit d) k)) =
    (Some (map (event_view tm) (take 50 (drop k (ring_view (audit d))))),
     if length (ring_view (audit d)) > k + 50 then cursor_of (ring_cursor (audit d) (k + 50)) else [])"
proof -
  let ?v = "ring_view (audit d)"
  note B = ring_cursor_bounds[OF ok k]
  have last: "last (take 50 (drop k ?v)) = ?v ! (k + 49)" if "length ?v > k + 50"
    using that by (simp add: last_conv_nth del: ring_view_length)
  have "cursor_of (ring_cursor (audit d) (k + 50)) = itoa (Seq (?v ! (k + 49)))" if "length ?v > k + 50"
    using ring_cursor_bounds[OF ok, of "k + 50"] that
    by (simp add: cursor_of_def ring_cursor_def add.commute del: ring_view_length)
  then show ?thesis
    using fetch_audit_spec[OF ok B[THEN conjunct2, THEN conjunct2]] filter_below_ring[OF ok k] last
    by (simp add: audit_page_of_def Let_def less_diff_conv add.commute del: ring_view_length)
qed

lemma audit_walk_cursors:
  assumes ok: "ring_ok (audit d)" and w: "walk (audit_page_of tm d) s" and i: "i < length s"
  shows "s ! i = cursor_of (ring_cursor (audit d) (50 * i)) \<and> (i = 0 \<or> 50 * i < length (ring_view (audit d)))"
  using i
proof (induction i)
  case 0
  with w show ?case by (cases s) (simp_all add: walk_def ring_cursor_def cursor_of_def)
next
  case (Suc i)
  then have c: "s ! i = cursor_of (ring_cursor (audit d) (50 * i))"
    "50 * i \<le> length (ring_view (audit d))" by auto
  have "s ! Suc i = snd (audit_page_of tm d (s ! i))" "s ! Suc i \<noteq> []" using w Suc.prems by (auto simp: walk_def)
  with audit_slice[OF ok c(2), of tm] c(1) show ?case
    by (auto simp: add.commute[of 50 "50 * i"] simp del: ring_view_length split: if_splits)
qed

text \<open>C1. The audit page, end to end: over the real client, wire and handlers and an audit ring that gets no new event
  meanwhile, in every run of clicks in which loads are answered in the order they were sent and a reload is
  clicked only when the load before it has its answer: whenever nothing is under way, the page that says \<open>n\<close> shows
  exactly the \<open>n\<close>-th fifty of the ring, newest first, and Next is enabled exactly when older events remain.\<close>

theorem audit_page_number:
  assumes "served_run audit_reload (audit_answers shw (\<lambda>c. fst (Serve v c d))) True p"
    and "flying p = []" and "ring_ok (audit d)"
  shows "rows p = map (event_view (srv_time v))
      (take 50 (drop (50 * (view_page (Audit_view date p) - 1)) (ring_view (audit d)))) \<and>
    (view_next_disabled (Audit_view date p) \<longleftrightarrow> length (ring_view (audit d)) \<le> 50 * view_page (Audit_view date p))"
proof -
  let ?pg = "audit_page_of (srv_time v) d" and ?k = "length (stack p) - 1"
  from audit_table.calm_walks[OF assms(1)] assms(2)
  have w: "walk ?pg (stack p)" and l: "\<not> loading p" and s: "displays ?pg p" by simp_all
  have ne: "stack p \<noteq> []" using w by (rule walk_ne)
  from audit_walk_cursors[OF assms(3) w, of ?k] ne
  have c: "last (stack p) = cursor_of (ring_cursor (audit d) (50 * ?k))"
    and b: "50 * ?k \<le> length (ring_view (audit d))" by (auto simp: last_conv_nth)
  note S = audit_slice[OF assms(3) b, of "srv_time v"]
  have v: "view_page (Audit_view date p) = Suc ?k" using ne by (simp add: Audit_view_def table_view_def)
  have n: "cursor_of (ring_cursor (audit d) (50 * ?k + 50)) \<noteq> []" if "length (ring_view (audit d)) > 50 * ?k + 50"
    using ring_cursor_bounds[OF assms(3), of "50 * ?k + 50"] that by (simp add: cursor_of_def del: ring_view_length)
  have d: "view_next_disabled (Audit_view date p) \<longleftrightarrow> nextCursor p = []"
    using l by (simp add: Audit_view_def table_view_def next_disabled_def)
  show ?thesis
    unfolding d using s S c n by (simp add: v displays_def listed_def add.commute del: ring_view_length)
qed

section \<open>Runs that lose the page\<close>

text \<open>A load that fails leaves the page number advanced. After Next from an idle page and a failed answer
  the footer counts one page more over the same rows, and the second Next, which the page enables, pushes
  the same cursor again: once it is answered, the footer is one page ahead of the rows.\<close>

theorem failed_next_miscounts:
  assumes "flying p = []" and "nextCursor p = c" and "c \<noteq> []" and "\<not> loading p"
  shows "let p1 = arrive 0 (Inl e) (onNext p); p2 = arrive 0 (Inr (Some pg)) (onNext p1)
    in stack p1 = stack p @ [c] \<and> rows p1 = rows p \<and> \<not> next_disabled p1 \<and>
      stack p2 = stack p @ [c, c] \<and> rows p2 = listed (fst pg) \<and>
      view_page (Audit_view date p2) = view_page (Audit_view date p) + 2"
  using assms
  by (cases "surfaced e"; cases pg)
    (simp_all add: onNext_def start_load_def Audit_view_def table_view_def next_disabled_def
      Let_def arrive_def drop_nth_def listed_def)

text \<open>An overtaken answer shows an older page as page one. Reload stays enabled while Next is under way;
  when the reload is answered first, the late answer of Next replaces its rows under the reset stack, and
  nothing is under way to correct it.\<close>

theorem overtaken_reload_shows_old_page:
  assumes "flying p = []" and "nextCursor p = c" and "c \<noteq> []"
  shows "let q = arrive 0 (Inr (Some old)) (arrive 1 (Inr (Some new)) (audit_reload (onNext p)))
    in flying (audit_reload (onNext p)) = [c, []] \<and> stack q = [[]] \<and> flying q = [] \<and> \<not> loading q \<and>
      rows q = listed (fst old) \<and> view_page (Audit_view date q) = 1"
  using assms
  by (cases new; cases old) (simp add: onNext_def start_load_def audit_reload_def arrive_page Audit_view_def table_view_def
      Let_def arrive_def drop_nth_def listed_def)

end
