(* ===== verification/Ui_Money.thy ===== *)
theory Ui_Money
  imports Civil Js_Number
begin

text \<open>
  Dollar amounts of the single-page application (\<open>internal/infra/webassets/ui/src/lib/money.ts\<close>): an
  integer of micro-dollars is divided, as a double, by a million, and \<open>Intl.NumberFormat('en-US')\<close> writes
  the quotient: grouped thousands, and two to six decimals of the exact value of the double, a tie away from
  zero. Below 2^33 dollars the double is within half of a micro-dollar of the amount, so the six
  decimals are the amount's own.
\<close>

definition MICRO_USD_PER_USD :: nat where "MICRO_USD_PER_USD = 1000000"

text \<open>Thousands separators, on the reversed digits.\<close>

fun group_rev :: "string \<Rightarrow> string" where
  "group_rev (a # b # c # d # s) = a # b # c # CHR '','' # group_rev (d # s)"
| "group_rev s = s"

definition group_digits :: "string \<Rightarrow> string" where
  "group_digits s = rev (group_rev (rev s))"

text \<open>Trailing zeros go, down to two decimals.\<close>

fun chop_zeros :: "string \<Rightarrow> string" where
  "chop_zeros (z # a # b # s) = (if z = CHR ''0'' then chop_zeros (a # b # s) else z # a # b # s)"
| "chop_zeros s = s"

definition decimals :: "nat \<Rightarrow> string" where
  "decimals m = rev (chop_zeros (rev (pad 6 (dec m))))"

text \<open>A number of millionths, the form of every finite amount.\<close>

definition usd_text :: "bool \<Rightarrow> nat \<Rightarrow> string" where
  "usd_text neg m =
     (if neg then ''-'' else []) @ ''$'' @ group_digits (dec (m div MICRO_USD_PER_USD)) @ ''.'' @
     decimals (m mod MICRO_USD_PER_USD)"

text \<open>\<open>usdFormatter.format\<close>.\<close>

definition usdFormatter :: "number \<Rightarrow> string" where
  "usdFormatter x =
     (case x of
        NaN \<Rightarrow> ''$NaN''
      | Infinite neg \<Rightarrow> (if neg then ''-'' else []) @ ''$'' @ bytes [226, 136, 158]
      | Finite q \<Rightarrow> usd_text (q < 0) (nat (floor (abs q * 1000000 + 1 / 2))))"

definition formatMicroUsd :: "int \<Rightarrow> string" where
  "formatMicroUsd microUsd = usdFormatter (to_double (of_int microUsd / of_nat MICRO_USD_PER_USD))"

text \<open>The quotient is off by at most 2^-21 dollars, less than half of a micro-dollar.\<close>

lemma millionths:
  fixes v q :: rat
  assumes "q = of_int n / 1000000" "abs (v - q) * 1000000 < 1 / 2" "n \<noteq> 0"
  shows "floor (abs v * 1000000 + 1 / 2) = abs n" "v < 0 \<longleftrightarrow> n < 0"
proof -
  have n: "of_int n = q * 1000000" using assms(1) by simp
  have one: "1 \<le> abs (of_int n :: rat)" using assms(3) by (cases "n > 0") (simp_all flip: of_int_abs)
  have d: "v * 1000000 - of_int n < 1 / 2" "of_int n - v * 1000000 < 1 / 2"
    using assms(2) unfolding n by (auto simp: abs_if split: if_splits)
  show s: "v < 0 \<longleftrightarrow> n < 0"
    using d one by (auto simp: abs_if split: if_splits)
  have "abs v * 1000000 - of_int (abs n) < 1 / 2 \<and> of_int (abs n) - abs v * 1000000 < 1 / 2"
    using d s by (cases "n < 0") (auto simp: abs_if)
  then show "floor (abs v * 1000000 + 1 / 2) = abs n" by (intro floor_unique) auto
qed

lemma formatMicroUsd_exact:
  assumes "abs n < 2 ^ 33 * 1000000"
  shows "formatMicroUsd n = usd_text (n < 0) (nat (abs n))"
proof (cases "n = 0")
  case False
  let ?q = "of_int n / 1000000 :: rat"
  have "of_int (abs n) < (of_int (2 ^ 33 * 1000000) :: rat)" using assms by (simp only: of_int_less_iff)
  then have q: "abs ?q < pow2 33" by (simp add: pow2_def abs_divide)
  also have "pow2 33 \<le> pow2 1023" by (rule pow2_mono) simp
  finally obtain v where v: "to_double ?q = Finite v" "abs (v - ?q) \<le> ulp ?q / 2" by (rule to_double_close)
  have "pow2 (exponent (abs ?q)) < pow2 33" using exponent_bounds(1)[of "abs ?q"] q False by simp
  then have "exponent (abs ?q) < 33" by (meson pow2_mono not_le)
  then have "ulp ?q \<le> pow2 (-20)" unfolding ulp_def by (intro pow2_mono) simp
  then have "abs (v - ?q) \<le> 1 / 2 ^ 21" using v(2) by (simp add: pow2_def)
  then have "abs (v - ?q) * 1000000 < 1 / 2" by simp
  note m = millionths[OF refl this False]
  show ?thesis by (simp add: formatMicroUsd_def usdFormatter_def MICRO_USD_PER_USD_def v m)
qed (simp add: formatMicroUsd_def usdFormatter_def to_double_def)

section \<open>Reading an amount back\<close>

definition read_decimals :: "string \<Rightarrow> nat option" where
  "read_decimals s = dec_value 0 (s @ replicate (6 - length s) (CHR ''0''))"

definition read_usd :: "string \<Rightarrow> int option" where
  "read_usd s =
     (let neg = (take 1 s = ''-'');
          (whole, frac) = cut (CHR ''.'') (filter (\<lambda>c. c \<noteq> CHR '','') (drop (if neg then 2 else 1) s))
      in case (dec_value 0 whole, read_decimals frac) of
           (Some w, Some f) \<Rightarrow> Some ((if neg then -1 else 1) * int (w * MICRO_USD_PER_USD + f))
         | _ \<Rightarrow> None)"

lemma filter_group: "CHR '','' \<notin> set s \<Longrightarrow> filter (\<lambda>c. c \<noteq> CHR '','') (group_digits s) = s"
proof -
  have "CHR '','' \<notin> set t \<Longrightarrow> filter (\<lambda>c. c \<noteq> CHR '','') (group_rev t) = t" for t
    by (induction t rule: group_rev.induct) auto
  from this[of "rev s"] show "CHR '','' \<notin> set s \<Longrightarrow> ?thesis" by (simp add: group_digits_def rev_filter[symmetric])
qed

lemma digits_plain: "c \<in> set (dec n) \<Longrightarrow> c \<noteq> CHR '','' \<and> c \<noteq> CHR ''.'' \<and> c \<noteq> CHR ''-'' \<and> c \<noteq> CHR ''$''"
  using dec_digits[of c n] by auto

lemma group_set: "set (group_digits s) \<subseteq> insert (CHR '','') (set s)"
proof -
  have "set (group_rev t) \<subseteq> insert (CHR '','') (set t)" for t
    by (induction t rule: group_rev.induct) auto
  from this[of "rev s"] show ?thesis by (simp add: group_digits_def)
qed

lemma chop_zeros_fill: "length s \<le> k \<Longrightarrow> 2 \<le> length s \<Longrightarrow>
    replicate (k - length (chop_zeros s)) (CHR ''0'') @ chop_zeros s = replicate (k - length s) (CHR ''0'') @ s"
proof (induction s rule: chop_zeros.induct)
  case (1 z a b s)
  show ?case
  proof (cases "z = CHR ''0''")
    case True
    have "replicate (k - length (a # b # s)) (CHR ''0'') = replicate (k - length (z # a # b # s)) (CHR ''0'') @ [CHR ''0'']"
      using "1.prems" by (simp add: replicate_append_same Suc_diff_Suc flip: replicate_Suc)
    with 1 True show ?thesis by simp
  qed simp
qed auto

lemma chop_zeros_length: "2 \<le> length s \<Longrightarrow> 2 \<le> length (chop_zeros s) \<and> length (chop_zeros s) \<le> length s"
  by (induction s rule: chop_zeros.induct) auto

lemma chop_zeros_set: "set (chop_zeros s) \<subseteq> set s"
  by (induction s rule: chop_zeros.induct) auto

lemma dec_length: "m < 10 ^ Suc k \<Longrightarrow> length (dec m) \<le> Suc k"
proof (induction k arbitrary: m)
  case 0
  then show ?case by (subst dec.simps) simp
next
  case (Suc k)
  have "length (dec (m div 10)) \<le> Suc k" using Suc.prems by (intro Suc.IH) (simp add: div_less_iff_less_mult)
  then show ?case by (subst dec.simps) simp
qed

lemma dec_value_zeros: "dec_value 0 (replicate j (CHR ''0'') @ s) = dec_value 0 s"
  by (induction j) (simp_all add: char_digit_def)

lemma pad_dec:
  assumes "m < 10 ^ 6"
  shows "length (pad 6 (dec m)) = 6" "dec_value 0 (pad 6 (dec m)) = Some m"
  using dec_length[of m 5] assms by (auto simp: dec_value_dec dec_value_zeros)

lemma decimals_read:
  assumes "m < 10 ^ 6"
  shows "read_decimals (decimals m) = Some m" "2 \<le> length (decimals m)" "length (decimals m) \<le> 6"
proof -
  let ?p = "pad 6 (dec m)"
  note P = pad_dec[OF assms]
  have "decimals m @ replicate (6 - length (decimals m)) (CHR ''0'') = ?p"
    using arg_cong[OF chop_zeros_fill[of "rev ?p" 6], of rev] P(1)
    by (simp add: decimals_def del: pad.simps)
  with P(2) show "read_decimals (decimals m) = Some m" by (simp add: read_decimals_def del: pad.simps)
  show "2 \<le> length (decimals m)" "length (decimals m) \<le> 6"
    using chop_zeros_length[of "rev ?p"] P(1) by (simp_all add: decimals_def del: pad.simps)
qed

lemma decimals_plain: "c \<in> set (decimals m) \<Longrightarrow> c \<noteq> CHR '','' \<and> c \<noteq> CHR ''.''"
  using chop_zeros_set[of "rev (pad 6 (dec m))"] digits_plain[of c m]
  by (auto simp: decimals_def split: if_splits)

lemma read_usd_parts:
  assumes "filter (\<lambda>c. c \<noteq> CHR '','') t = w @ ''.'' @ f" "CHR ''.'' \<notin> set w"
    and "dec_value 0 w = Some a" "read_decimals f = Some b"
  shows "read_usd ((if neg then ''-'' else []) @ ''$'' @ t) = Some ((if neg then -1 else 1) * int (a * MICRO_USD_PER_USD + b))"
proof -
  have "cut (CHR ''.'') (filter (\<lambda>c. c \<noteq> CHR '','') t) = (w, f)"
    using cut_append[OF assms(2), of f] assms(1) by simp
  with assms(3,4) show ?thesis by (cases neg) (simp_all add: read_usd_def)
qed

lemma usd_text_reads:
  "read_usd (usd_text (n < 0) (nat (abs n))) = Some n \<and>
   (\<exists>w f. usd_text (n < 0) (nat (abs n)) = w @ ''.'' @ f \<and> CHR ''.'' \<notin> set w \<and> 2 \<le> length f \<and> length f \<le> 6)"
proof -
  let ?m = "nat (abs n)"
  let ?w = "dec (?m div MICRO_USD_PER_USD)" and ?f = "decimals (?m mod MICRO_USD_PER_USD)"
  have lt: "?m mod MICRO_USD_PER_USD < 10 ^ 6" by (simp add: MICRO_USD_PER_USD_def)
  note D = decimals_read[OF lt]
  have wp: "CHR '','' \<notin> set ?w" "CHR ''.'' \<notin> set ?w" using digits_plain by blast+
  have g: "filter (\<lambda>c. c \<noteq> CHR '','') (group_digits ?w @ ''.'' @ ?f) = ?w @ ''.'' @ ?f"
    using decimals_plain[of _ "?m mod MICRO_USD_PER_USD"] by (auto simp: filter_group[OF wp(1)] filter_id_conv)
  have form: "usd_text (n < 0) ?m = (if n < 0 then ''-'' else []) @ ''$'' @ (group_digits ?w @ ''.'' @ ?f)"
    by (simp only: usd_text_def)
  have "?m div MICRO_USD_PER_USD * MICRO_USD_PER_USD + ?m mod MICRO_USD_PER_USD = ?m" by simp
  then have "read_usd (usd_text (n < 0) ?m) = Some n"
    unfolding form read_usd_parts[OF g wp(2) dec_value_dec D(1), of "n < 0"] by simp
  moreover have "usd_text (n < 0) ?m = ((if n < 0 then ''-'' else []) @ ''$'' @ group_digits ?w) @ ''.'' @ ?f"
    by (simp add: form)
  moreover have "CHR ''.'' \<notin> set ((if n < 0 then ''-'' else []) @ ''$'' @ group_digits ?w)"
    using group_set[of ?w] wp by auto
  ultimately show ?thesis using D(2,3) by blast
qed

lemma money_reads: "abs n < 2 ^ 33 * 1000000 \<Longrightarrow> read_usd (formatMicroUsd n) = Some n"
  using usd_text_reads[of n] by (simp add: formatMicroUsd_exact)

text \<open>C12. Below 2^33 dollars no view of a cost loses money: what the dashboard prints for a micro-dollar amount,
  divided as a double and formatted with grouped thousands, a sign and two to six decimals, reads back as
  exactly that amount.\<close>

theorem money_exact:
  assumes "abs n < 2 ^ 33 * 1000000"
  shows "read_usd (formatMicroUsd n) = Some n \<and>
    (\<exists>w f. formatMicroUsd n = w @ ''.'' @ f \<and> CHR ''.'' \<notin> set w \<and> 2 \<le> length f \<and> length f \<le> 6)"
  using usd_text_reads[of n] by (simp add: formatMicroUsd_exact[OF assms])

theorem money_exact_witness: "read_usd (formatMicroUsd (- 1234567890)) = Some (- 1234567890)"
  using money_exact[of "- 1234567890"] by simp

text \<open>At 2^33 dollars the doubles are further apart than a micro-dollar, so two amounts print alike.\<close>

theorem large_amounts_print_alike:
  "formatMicroUsd (2 ^ 33 * 1000000 + 1) = formatMicroUsd (2 ^ 33 * 1000000 + 2)"
proof -
  have "to_double (of_int (2 ^ 33 * 1000000 + 1) / 1000000) = to_double (of_int (2 ^ 33 * 1000000 + 2) / 1000000)"
    by code_simp
  then show ?thesis by (simp only: formatMicroUsd_def MICRO_USD_PER_USD_def of_nat_numeral)
qed

end
