(* ===== verification/Ui_Installs.thy ===== *)
theory Ui_Installs
  imports Ui_Audit Ui_Money
begin

text \<open>
  The install page of the single-page application (\<open>pages/Installs.tsx\<close>): the paged table with the ban
  dialog and the unban button. A ban or unban under way remembers the cursor its closure captured when it
  was sent.
\<close>

section \<open>State and handlers\<close>

datatype toast = Warned string | Succeeded string | Failed string

datatype post = BanPost string string string | UnbanPost string string

record installs_page = "InstallRow_ts pager" +
  banTarget :: "InstallRow_ts option"
  banReason :: string
  banSubmitting :: bool
  toasts :: "toast list"
  posts :: "post list"

definition new_installs :: installs_page where
  "new_installs =
     \<lparr>rows = [], loading = False, error = None, stack = [[]], nextCursor = [], flying = [],
      banTarget = None, banReason = [], banSubmitting = False, toasts = [], posts = []\<rparr>"

definition installs_mounted :: installs_page where
  "installs_mounted = start_load [] new_installs"

text \<open>The page has its own paging handlers; they are the audit page's.\<close>

definition installs_onNext :: "installs_page \<Rightarrow> installs_page" where
  "installs_onNext p =
     (if nextCursor p = [] then p
      else let newStack = stack p @ [nextCursor p] in start_load (nextCursor p) (p\<lparr>stack := newStack\<rparr>))"

definition installs_onPrev :: "installs_page \<Rightarrow> installs_page" where
  "installs_onPrev p =
     (if length (stack p) \<le> 1 then p
      else let newStack = take (length (stack p) - 1) (stack p)
        in start_load (newStack ! (length newStack - 1)) (p\<lparr>stack := newStack\<rparr>))"

lemma installs_paging [simp]: "installs_onNext p = onNext p" "installs_onPrev p = onPrev p"
proof -
  show "installs_onNext p = onNext p" by (simp add: installs_onNext_def onNext_def Let_def)
  have b: "take (length (stack p) - 1) (stack p) = butlast (stack p)" by (simp add: butlast_conv_take)
  show "installs_onPrev p = onPrev p"
  proof (cases "length (stack p) \<le> 1")
    case False
    then have "butlast (stack p) \<noteq> []" by (cases "stack p" rule: rev_cases) auto
    note l = last_conv_nth[OF this]
    show ?thesis unfolding installs_onPrev_def onPrev_def b Let_def l by (rule refl)
  qed (simp add: installs_onPrev_def onPrev_def)
qed

lemma installs_mounted_pager: "pager.truncate installs_mounted = mounted"
  by (simp add: installs_mounted_def new_installs_def mounted_def new_pager_def start_load_def pager.defs)

definition reason_needed_text :: string where
  "reason_needed_text = bytes [229, 176, 129, 231, 166, 129, 229, 142, 159, 229, 155, 160, 228, 184, 186, 229, 191,
     133, 229, 161, 171, 239, 188, 136, 229, 176, 134, 232, 174, 176, 229, 133, 165, 229, 174, 161, 232, 174, 161,
     239, 188, 137]"

definition banned_text :: string where "banned_text = bytes [229, 183, 178, 229, 176, 129, 231, 166, 129, 32]"

definition unbanned_text :: string where "unbanned_text = bytes [229, 183, 178, 232, 167, 163, 229, 176, 129, 32]"

text \<open>\<open>maxLength\<close> counts UTF-16 code units: one per UTF-8 sequence, two for a sequence of four bytes.\<close>

definition utf16_length :: "string \<Rightarrow> nat" where
  "utf16_length s =
     sum_list (map (\<lambda>c. let n = of_char c :: nat in if n < 128 then 1 else if n < 192 then 0 else if n < 240 then 1 else 2) s)"

definition openBan :: "InstallRow_ts \<Rightarrow> installs_page \<Rightarrow> installs_page" where
  "openBan r p = p\<lparr>banTarget := Some r, banReason := []\<rparr>"

definition typeReason :: "string \<Rightarrow> installs_page \<Rightarrow> installs_page" where
  "typeReason s p = (if utf16_length s \<le> 256 then p\<lparr>banReason := s\<rparr> else p)"

definition cancelBan :: "installs_page \<Rightarrow> installs_page" where
  "cancelBan p = p\<lparr>banTarget := None\<rparr>"

text \<open>\<open>confirmBan\<close> up to its \<open>await\<close>, and the rest once call \<open>k\<close> is answered.\<close>

definition confirmBan :: "installs_page \<Rightarrow> installs_page" where
  "confirmBan p =
     (case banTarget p of
        None \<Rightarrow> p
      | Some r \<Rightarrow>
          if js_trim (banReason p) = [] then p\<lparr>toasts := toasts p @ [Warned reason_needed_text]\<rparr>
          else p\<lparr>banSubmitting := True,
                posts := posts p @ [BanPost (in_id r) (js_trim (banReason p)) (last (stack p))]\<rparr>)"

definition banDone :: "nat \<Rightarrow> js_error + js \<Rightarrow> installs_page \<Rightarrow> installs_page" where
  "banDone k res p =
     (case posts p ! k of
        UnbanPost _ _ \<Rightarrow> p
      | BanPost i why cursor \<Rightarrow>
          let p1 = p\<lparr>posts := drop_nth k (posts p), banSubmitting := False\<rparr> in
          case res of
            Inr _ \<Rightarrow> start_load cursor
              (p1\<lparr>toasts := toasts p1 @ [Succeeded (banned_text @ i)], banTarget := None, banReason := []\<rparr>)
          | Inl (ApiErr e) \<Rightarrow> p1\<lparr>toasts := toasts p1 @ [Failed (err_message e)]\<rparr>
          | Inl OtherErr \<Rightarrow> p1)"

definition onUnban :: "InstallRow_ts \<Rightarrow> installs_page \<Rightarrow> installs_page" where
  "onUnban r p = p\<lparr>posts := posts p @ [UnbanPost (in_id r) (last (stack p))]\<rparr>"

definition unbanDone :: "nat \<Rightarrow> js_error + js \<Rightarrow> installs_page \<Rightarrow> installs_page" where
  "unbanDone k res p =
     (case posts p ! k of
        BanPost _ _ _ \<Rightarrow> p
      | UnbanPost i cursor \<Rightarrow>
          let p1 = p\<lparr>posts := drop_nth k (posts p)\<rparr> in
          case res of
            Inr _ \<Rightarrow> start_load cursor (p1\<lparr>toasts := toasts p1 @ [Succeeded (unbanned_text @ i)]\<rparr>)
          | Inl (ApiErr e) \<Rightarrow> p1\<lparr>toasts := toasts p1 @ [Failed (err_message e)]\<rparr>
          | Inl OtherErr \<Rightarrow> p1)"

section \<open>Rendering\<close>

definition statusTag :: "string \<Rightarrow> cell" where
  "statusTag st =
     (if st = ''active'' then Tag (Some ''green'') ''active''
      else if st = ''banned'' then Tag (Some ''red'') ''banned''
      else Tag None st)"

definition install_cells :: "(string \<Rightarrow> string) \<Rightarrow> InstallRow_ts \<Rightarrow> cell list" where
  "install_cells date r =
     [CodeText (in_id r), statusTag (in_status r), Plain (formatMicroUsd (in_todaySpendMicroUsd r)),
      Plain (date (in_createdAt r)),
      (case in_lastSeenAt r of Some (c # cs) \<Rightarrow> Plain (date (c # cs)) | _ \<Rightarrow> Faint dash_text)]"

text \<open>The action column: a banned install has the unban button, any other one the ban button.\<close>

datatype row_action = BanButton | UnbanButton

definition row_action_of :: "InstallRow_ts \<Rightarrow> row_action" where
  "row_action_of r = (if in_status r = ''banned'' then UnbanButton else BanButton)"

record installs_view =
  view_table :: page_view
  view_actions :: "row_action list"
  modal_open :: bool
  modal_target :: "string option"
  modal_reason :: string
  modal_ok_loading :: bool

definition Installs_view :: "(string \<Rightarrow> string) \<Rightarrow> installs_page \<Rightarrow> installs_view" where
  "Installs_view date p =
     \<lparr>view_table = table_view (install_cells date) p, view_actions = map row_action_of (rows p),
      modal_open = (banTarget p \<noteq> None), modal_target = map_option in_id (banTarget p),
      modal_reason = banReason p, modal_ok_loading = banSubmitting p\<rparr>"

section \<open>The source\<close>

definition installs_answers :: "(int \<times> int \<Rightarrow> string) \<Rightarrow> (http_call \<Rightarrow> fetched) \<Rightarrow> string \<Rightarrow> InstallRow_ts answer" where
  "installs_answers shw send cursor =
     (case getInstalls shw send cursor PAGE_SIZE of
        Inl e \<Rightarrow> Inl e
      | Inr None \<Rightarrow> Inr None
      | Inr (Some v) \<Rightarrow> Inr (read_installs v))"

definition served_day :: "'c served \<Rightarrow> string" where
  "served_day v = FormatDay (srv_loc v) (srv_now v)"

definition installs_page_of :: "'c served \<Rightarrow> 'c dash \<Rightarrow> string \<Rightarrow> InstallRow_ts list option \<times> string" where
  "installs_page_of v d cursor =
     (let (rs, n) = fetch_installs (served_day v) cursor d
      in (if rs = [] then None else Some (map (install_view (srv_time v)) rs), n))"

lemma installs_answered:
  "installs_answers shw (\<lambda>c. fst (Serve v c d)) cursor = Inr (Some (installs_page_of v d cursor))"
  by (cases "fetch_installs (served_day v) cursor d")
    (simp add: installs_answers_def installs_page_of_def PAGE_SIZE_def serve_installs read_installs_body
      flip: served_day_def)

interpretation installs_table: paged_view installs_reload "installs_answers shw (\<lambda>c. fst (Serve v c d))" "installs_page_of v d"
  for shw :: "int \<times> int \<Rightarrow> string" and v :: "'c served" and d :: "'c dash"
  by unfold_locales (simp_all add: installs_reload_def start_load_def installs_answered)

lemma installs_slice:
  assumes "int (length (installs (accounts d))) + 50 \<le> MaxInt64"
    and "k \<le> length (installs (accounts d))"
  shows "listed (fst (installs_page_of v d (offset_of k))) =
      map (install_view (srv_time v)) (map (list_row (served_day v) (ledger d))
        (take 50 (drop k (newest_first (installs (accounts d))))))"
    "snd (installs_page_of v d (offset_of k)) =
      (if length (installs (accounts d)) > k + 50 then offset_of (k + 50) else [])"
proof -
  have "int k + 50 \<le> MaxInt64" using assms by simp
  note S = fetch_installs_spec[OF this, of "served_day v" d]
  have "itoa (int k + 50) = offset_of (k + 50)" by (simp add: offset_of_def)
  then show "listed (fst (installs_page_of v d (offset_of k))) =
      map (install_view (srv_time v)) (map (list_row (served_day v) (ledger d))
        (take 50 (drop k (newest_first (installs (accounts d))))))"
    "snd (installs_page_of v d (offset_of k)) =
      (if length (installs (accounts d)) > k + 50 then offset_of (k + 50) else [])"
    using S newest_first_set(2)[of "installs (accounts d)"]
    by (auto simp: installs_page_of_def listed_def Let_def less_diff_conv)
qed

lemma installs_walk_cursors:
  assumes "int (length (installs (accounts d))) + 50 \<le> MaxInt64" and w: "walk (installs_page_of v d) s" and "i < length s"
  shows "s ! i = offset_of (50 * i) \<and> (i = 0 \<or> 50 * i < length (installs (accounts d)))"
  using assms(3)
proof (induction i)
  case 0
  with w show ?case by (cases s) (simp_all add: walk_def offset_of_def)
next
  case (Suc i)
  then have c: "s ! i = offset_of (50 * i)" "50 * i \<le> length (installs (accounts d))" by auto
  have "s ! Suc i = snd (installs_page_of v d (s ! i))" "s ! Suc i \<noteq> []" using w Suc.prems by (auto simp: walk_def)
  with installs_slice(2)[OF assms(1) c(2), of v] c(1) show ?case
    by (auto simp: add.commute[of 50 "50 * i"] split: if_splits)
qed

text \<open>C10. The install page, end to end: over the real client, wire and handlers and installs that do not change
  meanwhile, in every run of clicks in which loads are answered in the order they were sent and a reload is
  clicked only when the load before it has its answer: whenever nothing is under way, the page that says \<open>n\<close>, the number
  of its cursors, shows exactly the \<open>n\<close>-th fifty of the installs, newest first, and Next is enabled exactly when older installs
  remain.\<close>

theorem installs_page_number:
  assumes "served_run installs_reload (installs_answers shw (\<lambda>c. fst (Serve v c d))) True p"
    and "flying p = []" and "int (length (installs (accounts d))) + 50 \<le> MaxInt64"
  shows "rows p = map (install_view (srv_time v)) (map (list_row (served_day v) (ledger d))
      (take 50 (drop (50 * (length (stack p) - 1)) (newest_first (installs (accounts d)))))) \<and>
    (next_disabled p \<longleftrightarrow> length (installs (accounts d)) \<le> 50 * length (stack p))"
proof -
  let ?pg = "installs_page_of v d" and ?k = "length (stack p) - 1"
  from installs_table.calm_walks[OF assms(1)] assms(2)
  have w: "walk ?pg (stack p)" and l: "\<not> loading p" and s: "displays ?pg p" by simp_all
  have ne: "stack p \<noteq> []" using w by (rule walk_ne)
  from installs_walk_cursors[OF assms(3) w, of ?k] ne
  have c: "last (stack p) = offset_of (50 * ?k)" and b: "50 * ?k \<le> length (installs (accounts d))"
    by (auto simp: last_conv_nth)
  have n: "offset_of (50 * ?k + 50) \<noteq> []" by (simp add: offset_of_def)
  have len: "length (stack p) = Suc ?k" using ne by simp
  show ?thesis
    using s installs_slice[OF assms(3) b, of v] c n l len
    by (auto simp: displays_def next_disabled_def)
qed

section \<open>The ban dialog, end to end\<close>

definition ban_call :: "string \<Rightarrow> string \<Rightarrow> http_call" where
  "ban_call i why = \<lparr>call_path = ''/api/installs/ban'', call_method = ''POST'',
     call_headers = [(''Content-Type'', ''application/json'')],
     call_body = Some (JObj [(''install_id'', JStr i), (''reason'', JStr why)])\<rparr>"

definition ban_body :: "string \<Rightarrow> string \<Rightarrow> body" where
  "ban_body i why = Json (JObj [(''install_id'', JStr i), (''reason'', JStr why)])"

definition mark :: "string \<Rightarrow> string \<Rightarrow> InstallRow_ts \<Rightarrow> InstallRow_ts" where
  "mark i st r = (if in_id r = i then r\<lparr>in_status := st\<rparr> else r)"

lemma serve_ban_call: "Serve v (ban_call i why) d = answer_with status_body (Ban (srv_now v) (ban_body i why) d)"
  by (simp add: serve_defs ban_call_def posted_def ban_body_def Let_def)

lemma banInstall_served:
  "banInstall shw (\<lambda>c. fst (Serve v c d)) i why =
     (case fst (Serve v (ban_call i why) d) of
        Unreachable \<Rightarrow> Inl (ApiErr \<lparr>err_status = 0, err_code = JStr ''NETWORK_ERROR'', err_message = network_error_text,
          err_details = None\<rparr>)
      | Answered st b \<Rightarrow> request shw (\<lambda>_. Answered st b) ''/api/installs/ban'' ''POST'' None)"
  by (simp add: banInstall_def request_def ban_call_def split: fetched.split)

lemma ban_body_decoded:
  "decode_struct [''install_id'', ''reason''] (ban_body i why) = Some [(''install_id'', i), (''reason'', why)]"
  by (simp add: decode_struct_def ban_body_def tput_def bytes_def lower_char_def)

lemma ban_fields: "field ''install_id'' [(''install_id'', i), (''reason'', why)] = i"
    "field ''reason'' [(''install_id'', i), (''reason'', why)] = why"
  by (simp_all add: field_def tget_def)

lemma newest_first_map:
  assumes "\<And>x. ins_id (f x) = ins_id x \<and> install_created_at (f x) = install_created_at x"
  shows "newest_first (map f xs) = map f (newest_first xs)"
proof -
  have "newer (f x) (f y) = newer x y" for x y using assms by (simp add: newer_def)
  then have i: "insert_row (f x) (map f ys) = map f (insert_row x ys)" for x ys
    by (induction ys) auto
  show ?thesis by (induction xs) (simp_all add: newest_first_def i)
qed

lemma page_of_marked:
  assumes "installs (accounts d') = map (\<lambda>x. if ins_id x = i then x\<lparr>ins_status := st\<rparr> else x) (installs (accounts d))"
    and "ledger d' = ledger d"
  shows "installs_page_of v d' c =
    (map_option (map (mark i st)) (fst (installs_page_of v d c)), snd (installs_page_of v d c))"
proof -
  let ?f = "\<lambda>x. if ins_id x = i then x\<lparr>ins_status := st\<rparr> else x"
  let ?h = "\<lambda>r. if row_ID r = i then r\<lparr>row_Status := st\<rparr> else r"
  have n: "newest_first (map ?f xs) = map ?f (newest_first xs)" for xs
    by (rule newest_first_map) simp
  have "list_row day q (?f x) = ?h (list_row day q x)" for day q x by (simp add: list_row_def)
  then have l: "ListInstalls day k m d' = map ?h (ListInstalls day k m d)" for day k m
    unfolding ListInstalls_def assms n by (simp add: take_map drop_map o_def)
  have fi: "fetch_installs day c d' = (map ?h (fst (fetch_installs day c d)), snd (fetch_installs day c d))" for day
    by (simp add: fetch_installs_def Installs_def InstallsList_def l take_map Let_def split: prod.split)
  have "install_view tm (?h r) = mark i st (install_view tm r)" for tm r by (simp add: install_view_def mark_def)
  then show ?thesis by (simp add: installs_page_of_def fi Let_def o_def split: prod.split)
qed

lemma ban_served:
  assumes ok: "ring_ok (audit d)" "last_seq (audit d) < MaxInt64"
    and i: "i \<in> ins_id ` set (installs (accounts d))" "i \<noteq> []" "TrimSpace i = i" and why: "TrimSpace why \<noteq> []"
  shows "fst (Serve v (ban_call i why) d) = Answered 200 (Json (status_body (i, ''banned'')))" (is ?fst)
    and "trail d (snd (Serve v (ban_call i why) d)) = 1" (is ?trail)
    and "Reason (newest (snd (Serve v (ban_call i why) d))) = take 256 (TrimSpace why)" (is ?why)
    and "ledger (snd (Serve v (ban_call i why) d)) = ledger d" (is ?ledger)
    and "Lookup_install i (accounts (snd (Serve v (ban_call i why) d))) = Some StatusBanned" (is ?look)
    and "installs (accounts (snd (Serve v (ban_call i why) d))) =
      map (\<lambda>x. if ins_id x = i then x\<lparr>ins_status := StatusBanned\<rparr> else x) (installs (accounts d))" (is ?rows)
proof -
  let ?d1 = "d\<lparr>accounts := snd (SetStatus i StatusBanned (accounts d))\<rparr>"
  let ?e = "audit_entry ''ban'' i (take 256 (TrimSpace why)) ''ok'' actor"
  let ?dB = "RecordAudit (srv_now v) ?e ?d1"
  have "Ban (srv_now v) (ban_body i why) d = (Inr (i, ''banned''), ?dB)"
    using ban_run[OF ban_body_decoded[of i why], where now = "srv_now v" and d = d, unfolded ban_fields, OF i(3) refl i(2) why] i(1)
    by (simp add: Let_def)
  then have S: "Serve v (ban_call i why) d = (Answered 200 (Json (status_body (i, ''banned''))), ?dB)"
    by (simp add: serve_ban_call answer_with_def client_sees_def WriteJSON_def)
  have ok1: "ring_ok (audit ?d1)" "last_seq (audit ?d1) < MaxInt64" using ok by simp_all
  show ?fst ?trail ?why ?ledger ?look ?rows
    unfolding S fst_conv snd_conv
    using RecordAudit_effect(2)[OF ok1, of "srv_now v" ?e] RecordAudit_effect(1)[OF ok1, of "srv_now v" ?e]
      SetStatus_effect(2)[OF i(1), of StatusBanned] SetStatus_effect(1)[of i StatusBanned "accounts d"]
    by (simp_all add: RecordAudit_def audit_entry_def trail_def)
qed

text \<open>C5. Banning from the dialog, end to end. With a reason, the dialog's call reaches the backend,
  which bans that install and records the reason, trimmed and cut to 256 bytes, in one audit event; the dialog closes, the page
  reloads in place, and the operator sees the same rows with exactly the status of that install changed
  to banned.\<close>

theorem ban_dialog_bans:
  fixes shw :: "int \<times> int \<Rightarrow> string" and v :: "'c served" and d :: "'c dash" and p :: installs_page
  assumes ok: "ring_ok (audit d)" "last_seq (audit d) < MaxInt64"
    and idle: "flying p = []" "posts p = []"
    and page: "rows p = listed (fst (installs_page_of v d (last (stack p))))"
      "nextCursor p = snd (installs_page_of v d (last (stack p)))"
    and target: "banTarget p = Some r" "in_id r \<in> ins_id ` set (installs (accounts d))"
      "in_id r \<noteq> []" "TrimSpace (in_id r) = in_id r"
    and reason: "js_trim (banReason p) = why" "TrimSpace why \<noteq> []"
  defines "d' \<equiv> snd (Serve v (ban_call (in_id r) why) d)"
  defines "p2 \<equiv> banDone 0 (banInstall shw (\<lambda>c. fst (Serve v c d)) (in_id r) why) (confirmBan p)"
  defines "p3 \<equiv> arrive 0 (installs_answers shw (\<lambda>c. fst (Serve v c d')) (last (stack p))) p2"
  shows "rows p3 = map (mark (in_id r) ''banned'') (rows p) \<and> stack p3 = stack p \<and> nextCursor p3 = nextCursor p \<and>
    flying p3 = [] \<and> posts p3 = [] \<and> banTarget p3 = None \<and> \<not> banSubmitting p3 \<and>
    toasts p3 = toasts p @ [Succeeded (banned_text @ in_id r)] \<and>
    Lookup_install (in_id r) (accounts d') = Some StatusBanned \<and>
    trail d d' = 1 \<and> Reason (newest d') = take 256 (TrimSpace why)"
proof -
  let ?i = "in_id r"
  note R = ban_served[OF ok target(2,3,4) reason(2), of v, folded d'_def]
  have ne: "why \<noteq> []" using reason(2) by (auto simp: TrimSpace_def trim_def)
  have call: "banInstall shw (\<lambda>c. fst (Serve v c d)) ?i why = Inr (Some (status_body (?i, ''banned'')))"
    unfolding banInstall_served ban_served(1)[OF ok target(2,3,4) reason(2)] by (simp add: request_def)
  have p2: "p2 = start_load (last (stack p)) (p\<lparr>posts := [], banSubmitting := False,
      toasts := toasts p @ [Succeeded (banned_text @ ?i)], banTarget := None, banReason := []\<rparr>)"
    using idle target(1) reason(1) ne
    by (simp add: p2_def call confirmBan_def banDone_def drop_nth_def Let_def)
  have mark: "StatusBanned = ''banned''" by (simp add: StatusBanned_def)
  note M = page_of_marked[OF R(6) R(4), of v "last (stack p)", unfolded mark]
  have p3: "p3 = p2\<lparr>flying := tl (flying p2), loading := False,
      rows := map (mark ?i ''banned'') (rows p), nextCursor := nextCursor p\<rparr>"
    unfolding p3_def installs_answered arrive_page M
    using page by (simp add: listed_def split: option.split)
  show ?thesis
    unfolding p3 p2 using R(2,3,5) idle by (simp add: start_load_def)
qed

text \<open>The dialog accepts 256 characters, the backend keeps 256 bytes. A reason the dialog takes in full, of at most
  256 UTF-16 units but more than 256 bytes, is not what the audit trail keeps: the stored reason is its
  first 256 bytes only.\<close>

theorem accepted_reason_is_cut:
  fixes p :: installs_page and v :: "'c served" and d :: "'c dash"
  assumes "ring_ok (audit d)" and "last_seq (audit d) < MaxInt64"
    and "i \<in> ins_id ` set (installs (accounts d))" and "i \<noteq> []" and "TrimSpace i = i"
    and "utf16_length s \<le> 256" and "256 < length (TrimSpace (js_trim s))"
  defines "d' \<equiv> snd (Serve v (ban_call i (js_trim (banReason (typeReason s p)))) d)"
  shows "banReason (typeReason s p) = s \<and> Reason (newest d') = take 256 (TrimSpace (js_trim s)) \<and>
    Reason (newest d') \<noteq> TrimSpace (js_trim s)"
proof -
  have t: "banReason (typeReason s p) = s" using assms(6) by (simp add: typeReason_def)
  have ne: "TrimSpace (js_trim s) \<noteq> []" using assms(7) by auto
  have "Reason (newest d') = take 256 (TrimSpace (js_trim s))"
    unfolding d'_def t by (rule ban_served(3)[OF assms(1-5) ne])
  moreover have "take 256 (TrimSpace (js_trim s)) \<noteq> TrimSpace (js_trim s)"
    using assms(7) by (metis length_take min.absorb4 nat_neq_iff)
  ultimately show ?thesis using t by simp
qed

text \<open>A ban answered after the operator moved on reloads the page it was sent from. The dialog can be
  cancelled while its call is under way; when the answer comes after a Next, the cursor its closure
  captured is loaded, so the table ends with the rows of the earlier page under the number of the later
  one.\<close>

theorem late_ban_reloads_old_page:
  fixes p :: installs_page
  assumes "flying p = []" and "posts p = []" and "nextCursor p = c" and "c \<noteq> []"
    and "banTarget p = Some r" and "js_trim (banReason p) \<noteq> []"
  shows "let q = arrive 0 (Inr (Some later)) (installs_onNext (cancelBan (confirmBan p))); q' = banDone 0 (Inr res) q;
      q'' = arrive 0 (Inr (Some earlier)) q'
    in stack q = stack p @ [c] \<and> rows q = listed (fst later) \<and> flying q' = [last (stack p)] \<and>
      stack q'' = stack p @ [c] \<and> flying q'' = [] \<and> rows q'' = listed (fst earlier)"
  using assms
  by (cases later; cases earlier)
    (simp add: confirmBan_def cancelBan_def onNext_def start_load_def banDone_def arrive_def drop_nth_def
      listed_def Let_def)

end
