(* ===== verification/Dashboard_Safety.thy ===== *)
theory Dashboard_Safety
  imports Dashboard_Server
begin

text \<open>
  What the admin listener as a whole cannot do, whatever it is sent: over every sequence of requests,
  malformed and oversized ones included, at any instants, with any configuration port, and whether or not the
  database answers.
\<close>

section \<open>One call\<close>

text \<open>Nothing but the rate sampler, which forgets old buckets when it is read, has changed.\<close>

definition only_rates :: "'c dash \<Rightarrow> 'c dash \<Rightarrow> bool" where
  "only_rates d d' \<longleftrightarrow> (\<forall>r. d'\<lparr>rates := r\<rparr> = d\<lparr>rates := r\<rparr>)"

text \<open>The books without the request counters, and the installs without their status.\<close>

definition books :: "'c dash \<Rightarrow> db \<times> install_db" where
  "books d =
     ((ledger d)\<lparr>quota_monthly := []\<rparr>,
      (accounts d)\<lparr>installs := map (\<lambda>x. x\<lparr>ins_status := []\<rparr>) (installs (accounts d))\<rparr>)"

text \<open>A change and its event: the event is written last, on the changed state.\<close>

definition noted :: "'c dash \<Rightarrow> 'c dash \<Rightarrow> bool" where
  "noted d d' \<longleftrightarrow> (\<exists>now e x. d' = RecordAudit now e x \<and> audit x = audit d \<and> books x = books d)"

lemma notedI: "audit x = audit d \<Longrightarrow> books x = books d \<Longrightarrow> noted d (RecordAudit now e x)"
  by (auto simp: noted_def)

lemma only_rates_refl [simp]: "only_rates d d"
  by (simp add: only_rates_def)

lemma only_rates_eq: "only_rates d d' \<Longrightarrow> d' = d\<lparr>rates := rates d'\<rparr>"
  by (drule only_rates_def[THEN iffD1], drule spec[of _ "rates d'"]) simp

lemma only_rates_keeps:
  assumes "only_rates d d'"
  shows "books d' = books d" "audit d' = audit d"
  by (subst only_rates_eq[OF assms], simp add: books_def)+

lemma noted_books: "noted d d' \<Longrightarrow> books d' = books d"
  by (auto simp: noted_def RecordAudit_def books_def)

lemma status_books: "books (d\<lparr>accounts := snd (SetStatus i st (accounts d))\<rparr>) = books d"
  by (simp add: books_def SetStatus_def o_def if_distrib cong: if_cong)

lemma mutate_noted: "noted d (snd (mutate now action who i why st d))"
  by (simp add: mutate_def Let_def split_beta notedI status_books)

lemma reset_noted:
  "d' = snd (ResetAllMonthlyQuota_use loc now who why d) \<Longrightarrow> d' = d \<or> noted d d'"
proof (cases "ResetMonthlyRequests (SnapshotPeriod now loc) (ledger d)")
  case (Inr r)
  obtain q n where r: "r = (q, n)" by (cases r)
  have "books (d\<lparr>ledger := q\<rparr>) = books d"
    using Inr r by (auto simp: books_def ResetMonthlyRequests_def Let_def split: if_splits)
  then show "d' = snd (ResetAllMonthlyQuota_use loc now who why d) \<Longrightarrow> ?thesis"
    using Inr r by (simp add: notedI ResetAllMonthlyQuota_use_def Let_def)
qed (simp add: ResetAllMonthlyQuota_use_def Let_def)

lemma config_noted: "d' = snd (ConfigApply port now who ov d) \<Longrightarrow> d' = d \<or> noted d d'"
proof (cases "ApplyOverrides port ov (conf d)")
  case (Inr c)
  have "books (d\<lparr>conf := c\<rparr>) = books d" by (simp add: books_def)
  then show "d' = snd (ConfigApply port now who ov d) \<Longrightarrow> ?thesis"
    using Inr by (simp add: notedI ConfigApply_def)
qed (simp add: ConfigApply_def)

lemma handlers_noted:
  "snd (PostConfig port now b d) = d \<or> noted d (snd (PostConfig port now b d))"
  "snd (Ban now b d) = d \<or> noted d (snd (Ban now b d))"
  "snd (Unban now b d) = d \<or> noted d (snd (Unban now b d))"
  "snd (ResetAllMonthlyQuota loc now b d) = d \<or> noted d (snd (ResetAllMonthlyQuota loc now b d))"
proof -
  have m: "noted d d'" if "mutate now action who i why st d = (r, d')" for action who i why st r d'
    using mutate_noted[of d now action who i why st] that by simp
  have c: "d' = d \<or> noted d d'" if "ConfigApply port now who ov d = (r, d')" for who ov r d'
    using config_noted[of d' port now who ov d] that by simp
  have q: "d' = d \<or> noted d d'" if "ResetAllMonthlyQuota_use loc now who why d = (r, d')" for who why r d'
    using reset_noted[of d' loc now who why d] that by simp
  show "snd (PostConfig port now b d) = d \<or> noted d (snd (PostConfig port now b d))"
    using c by (auto simp: PostConfig_def split: option.splits prod.splits sum.splits)
  show "snd (Ban now b d) = d \<or> noted d (snd (Ban now b d))"
    using m by (auto simp: Ban_def Ban_use_def Let_def split: option.splits prod.splits)
  show "snd (Unban now b d) = d \<or> noted d (snd (Unban now b d))"
    using m by (auto simp: Unban_def Unban_use_def Let_def split: option.splits prod.splits)
  show "snd (ResetAllMonthlyQuota loc now b d) = d \<or> noted d (snd (ResetAllMonthlyQuota loc now b d))"
    using q by (auto simp: ResetAllMonthlyQuota_def Let_def split: option.splits prod.splits sum.splits)
qed

lemma Overview_rates: "only_rates d (snd (Overview port provider disk loc now d))"
  by (simp add: only_rates_def Overview_def Let_def split: prod.split)

lemma Export_noted: "d' = snd (Export now snap opened copied d) \<Longrightarrow> d' = d \<or> (\<exists>e. d' = RecordAudit now e d)"
  by (auto simp: Export_def Let_def split: option.splits if_splits)

text \<open>A download of the database is asked for.\<close>

definition is_export :: "http_call \<Rightarrow> bool" where
  "is_export c \<longleftrightarrow> fst (cut (CHR ''?'') (call_path c)) = ''/api/export'' \<and> (call_method c = ''GET'' \<or> call_method c = ''HEAD'')"

definition exported :: "'c dash \<Rightarrow> 'c dash \<Rightarrow> bool" where
  "exported d d' \<longleftrightarrow> (\<exists>now e. d' = RecordAudit now e d)"

lemma get_effect:
  "only_rates d (snd (get_route v path query stored d)) \<or>
   path = ''/api/export'' \<and> exported d (snd (get_route v path query stored d))"
proof (cases "path = ''/api/export''")
  case True
  obtain snap opened copied where e: "srv_export v = (snap, opened, copied)" by (cases "srv_export v")
  have "snd (get_route v path query stored d) = snd (Export (srv_now v) snap opened copied d)"
    by (simp add: get_route_def True e split: prod.split sum.split)
  with True show ?thesis using Export_noted[of _ "srv_now v" snap opened copied d] by (auto simp: exported_def)
next
  case False
  then show ?thesis using Overview_rates[of d] by (simp add: get_route_def Let_def split: prod.split) (metis snd_conv)
qed

lemma unstored_snd: "snd (unstored msg d res) = d"
  by (simp add: unstored_def split: sum.split)

lemma post_effect: "only_rates d (snd (post_route v path b stored d)) \<or> noted d (snd (post_route v path b stored d))"
proof -
  have keep: "only_rates d x \<or> noted d x" if "x = d \<or> noted d x" for x using that by auto
  show ?thesis
    using handlers_noted[where d = d and now = "srv_now v" and b = b]
    by (cases stored) (simp_all add: post_route_def answer_with_def keep unstored_snd)
qed

lemma dispatch_effect:
  "only_rates d (snd (Dispatch v c b stored d)) \<or>
   call_method c = ''POST'' \<and> noted d (snd (Dispatch v c b stored d)) \<or>
   is_export c \<and> exported d (snd (Dispatch v c b stored d))"
proof -
  obtain path q where cut: "cut (CHR ''?'') (call_path c) = (path, q)" by fastforce
  consider "call_method c = ''POST''" | "call_method c = ''GET'' \<or> call_method c = ''HEAD''"
    | "call_method c \<notin> {''GET'', ''HEAD'', ''POST''}" by auto
  then show ?thesis
  proof cases
    case 1
    then show ?thesis using cut post_effect[of d v path b stored] by (auto simp: Dispatch_def)
  next
    case 2
    then have "snd (Dispatch v c b stored d) = snd (get_route v path (parse_query q) stored d)"
      using cut by (auto simp: Dispatch_def split: prod.split)
    then show ?thesis using 2 cut get_effect[of d v path "parse_query q" stored] by (auto simp: is_export_def)
  next
    case 3
    then show ?thesis using cut by (simp add: Dispatch_def)
  qed
qed

section \<open>Any sequence of requests\<close>

record 'c asked =
  asked_of :: "'c served"
  asked_call :: http_call
  asked_body :: body
  asked_stored :: bool

definition serve_one :: "'c asked \<Rightarrow> 'c dash \<Rightarrow> 'c dash" where
  "serve_one x d = snd (Dispatch (asked_of x) (asked_call x) (asked_body x) (asked_stored x) d)"

definition serve_run :: "'c asked list \<Rightarrow> 'c dash \<Rightarrow> 'c dash" where
  "serve_run cs d = fold serve_one cs d"

lemma serve_run_simps [simp]:
  "serve_run [] d = d" "serve_run (x # cs) d = serve_run cs (serve_one x d)"
  by (simp_all add: serve_run_def)

abbreviation "posts_in cs \<equiv> filter (\<lambda>x. call_method (asked_call x) = ''POST'') cs"

abbreviation "exports_in cs \<equiv> filter (\<lambda>x. is_export (asked_call x)) cs"

lemma serve_one_effect:
  "only_rates d (serve_one x d) \<or> call_method (asked_call x) = ''POST'' \<and> noted d (serve_one x d) \<or>
   is_export (asked_call x) \<and> exported d (serve_one x d)"
  unfolding serve_one_def by (rule dispatch_effect)

lemma export_not_post: "is_export c \<Longrightarrow> call_method c \<noteq> ''POST''"
  by (auto simp: is_export_def)

text \<open>Nothing but the rate sampler and the audit ring has changed.\<close>

definition only_trail :: "'c dash \<Rightarrow> 'c dash \<Rightarrow> bool" where
  "only_trail d d' \<longleftrightarrow> (\<forall>r a. d'\<lparr>rates := r, audit := a\<rparr> = d\<lparr>rates := r, audit := a\<rparr>)"

lemma only_trailI: "only_rates d d' \<or> exported d d' \<Longrightarrow> only_trail d d'"
proof (elim disjE)
  assume "only_rates d d'"
  then have "\<And>r. d'\<lparr>rates := r\<rparr> = d\<lparr>rates := r\<rparr>" by (simp add: only_rates_def)
  then show ?thesis by (simp add: only_trail_def)
qed (auto simp: only_trail_def exported_def RecordAudit_def)

lemma only_trail_eq: "only_trail d d' \<Longrightarrow> d' = d\<lparr>rates := rates d', audit := audit d'\<rparr>"
  by (drule only_trail_def[THEN iffD1], drule spec[of _ "rates d'"], drule spec[of _ "audit d'"]) simp

lemma exported_books: "exported d d' \<Longrightarrow> books d' = books d"
  by (auto simp: exported_def RecordAudit_def books_def)

lemma serve_run_effect:
  "books (serve_run cs d) = books d"
  "posts_in cs = [] \<Longrightarrow> only_trail d (serve_run cs d)"
  "posts_in cs = [] \<Longrightarrow> exports_in cs = [] \<Longrightarrow> only_rates d (serve_run cs d)"
proof -
  show "books (serve_run cs d) = books d"
  proof (induction cs arbitrary: d)
    case (Cons x cs)
    then show ?case
      using serve_one_effect[of d x] only_rates_keeps(1) noted_books exported_books by fastforce
  qed simp
  show "posts_in cs = [] \<Longrightarrow> only_trail d (serve_run cs d)"
  proof (induction cs arbitrary: d)
    case (Cons x cs)
    then have "only_trail d (serve_one x d)"
      using serve_one_effect[of d x] by (auto intro: only_trailI split: if_splits)
    with Cons show ?case by (auto simp: only_trail_def split: if_splits)
  qed (simp add: only_trail_def)
  show "posts_in cs = [] \<Longrightarrow> exports_in cs = [] \<Longrightarrow> only_rates d (serve_run cs d)"
  proof (induction cs arbitrary: d)
    case (Cons x cs)
    then have "only_rates d (serve_one x d)"
      using serve_one_effect[of d x] by (auto split: if_splits)
    with Cons show ?case by (auto simp: only_rates_def split: if_splits)
  qed simp
qed

text \<open>C13. The admin interface cannot touch the books. Whatever requests are sent to it, in any order, no spend balance and
  no ledger row changes, and no install appears, disappears or changes anything but its status; without a
  POST nothing changes but the rate sampler's memory and, when a download of the database is asked for, the audit
  ring.\<close>

theorem admin_spares_books:
  "(ledger (serve_run cs d))\<lparr>quota_monthly := []\<rparr> = (ledger d)\<lparr>quota_monthly := []\<rparr> \<and>
   map (\<lambda>x. x\<lparr>ins_status := []\<rparr>) (installs (accounts (serve_run cs d))) =
     map (\<lambda>x. x\<lparr>ins_status := []\<rparr>) (installs (accounts d)) \<and>
   install_ip_rate (accounts (serve_run cs d)) = install_ip_rate (accounts d) \<and>
   (if posts_in cs \<noteq> [] then True
    else if exports_in cs \<noteq> []
    then serve_run cs d = d\<lparr>rates := rates (serve_run cs d), audit := audit (serve_run cs d)\<rparr>
    else serve_run cs d = d\<lparr>rates := rates (serve_run cs d)\<rparr>)"
proof -
  have "accounts d = accounts d\<lparr>installs := installs (accounts d)\<rparr>" for d :: "'a dash" by simp
  moreover have "books (serve_run cs d) = books d" by (rule serve_run_effect)
  ultimately show ?thesis
    using serve_run_effect(2)[of cs d, THEN only_trail_eq] serve_run_effect(3)[of cs d, THEN only_rates_eq]
    by (auto simp: books_def dest: arg_cong[of _ _ installs] arg_cong[of _ _ install_ip_rate])
qed

lemma record_trail:
  assumes "d' = RecordAudit now e y" "audit y = audit d" "ring_ok (audit d)" "last_seq (audit d) < MaxInt64"
  shows "ring_ok (audit d')" "last_seq (audit d') = last_seq (audit d) + 1"
  using assms record_event_ok(1,2)[of "audit d" now e] by (simp_all add: RecordAudit_def)

lemma run_trail:
  assumes "ring_ok (audit d)" "last_seq (audit d) + int (length cs) \<le> MaxInt64"
  shows "0 \<le> trail d (serve_run cs d) \<and> trail d (serve_run cs d) \<le> int (length (posts_in cs) + length (exports_in cs)) \<and>
    (trail d (serve_run cs d) = 0 \<longrightarrow> only_rates d (serve_run cs d))"
  using assms
proof (induction cs arbitrary: d)
  case (Cons x cs)
  let ?d = "serve_one x d"
  have grow: ?case if "\<exists>now e y. ?d = RecordAudit now e y \<and> audit y = audit d"
    "call_method (asked_call x) = ''POST'' \<or> is_export (asked_call x)"
  proof -
    from that(1) obtain now e y where y: "?d = RecordAudit now e y" "audit y = audit d" by blast
    have lt: "last_seq (audit d) < MaxInt64" using Cons.prems(2) by simp
    note R = record_trail[OF y Cons.prems(1) lt]
    show ?thesis using Cons.IH[of ?d] Cons.prems R that(2) export_not_post by (auto simp: trail_def)
  qed
  from serve_one_effect[of d x] show ?case
  proof (elim disjE)
    assume o: "only_rates d ?d"
    then have "audit ?d = audit d" by (rule only_rates_keeps)
    with o show ?thesis using Cons.IH[of ?d] Cons.prems by (auto simp: trail_def only_rates_def)
  next
    assume p: "call_method (asked_call x) = ''POST'' \<and> noted d ?d"
    then have "\<exists>now e y. ?d = RecordAudit now e y \<and> audit y = audit d" by (auto simp: noted_def)
    with p show ?thesis by (intro grow) simp_all
  next
    assume p: "is_export (asked_call x) \<and> exported d ?d"
    then have "\<exists>now e y. ?d = RecordAudit now e y \<and> audit y = audit d" by (auto simp: exported_def)
    with p show ?thesis by (intro grow) simp_all
  qed
qed (simp add: trail_def)

text \<open>No change without a trace. Over any sequence of requests the trail grows by at most one event per POST and
  per download of the database, and if it has not grown then the configuration, the installs and the ledger
  are exactly as before.\<close>

theorem every_change_recorded:
  assumes "ring_ok (audit d)" "last_seq (audit d) + int (length cs) \<le> MaxInt64"
  shows "0 \<le> trail d (serve_run cs d) \<and>
    trail d (serve_run cs d) \<le> int (length (posts_in cs) + length (exports_in cs)) \<and>
    (if trail d (serve_run cs d) = 0 then serve_run cs d = d\<lparr>rates := rates (serve_run cs d)\<rparr> else True)"
  using run_trail[OF assms] only_rates_eq[of d "serve_run cs d"] by simp

end
