(* ===== verification/Ui_Witness.thy ===== *)
theory Ui_Witness
  imports Ui_Installs Dashboard_Safety
begin

text \<open>
  Witnesses: the properties of the single-page application applied at concrete states and inputs.
\<close>

theorem request_total_witness:
  "\<exists>e. request (\<lambda>_. []) (\<lambda>_. Answered 502 NotJson) ''/api/audit'' ''GET'' None = Inl (ApiErr e) \<and>
     err_status e = 502 \<and> err_message e = failed_text 502"
  using request_total[where fetch = "\<lambda>_. Answered 502 NotJson" and p = "''/api/audit''" and m = "''GET''"
      and b = None and shw = "\<lambda>_. []"] by auto

definition demo_config :: "unit config_port" where
  "demo_config = \<lparr>Dump = (\<lambda>_. []), ApplyOverrides = (\<lambda>_ c. Inr c), InstallGlobalCap = (\<lambda>_. 0), SpendLimit = (\<lambda>_. 0)\<rparr>"

definition demo_served :: "unit served" where
  "demo_served = \<lparr>srv_config = demo_config, srv_provider = None, srv_disk = False, srv_loc = utc, srv_now = 7,
     srv_time = (\<lambda>_. ''t''), srv_export = (Some 1, True, True)\<rparr>"

abbreviation demo_send :: "http_call \<Rightarrow> fetched" where
  "demo_send \<equiv> (\<lambda>c. fst (Serve demo_served c demo_dash))"

lemma demo_first_page:
  "served_run reload answers True (arrive 0 (answers []) mounted)"
  by (rule served_answer[OF served_mount, where cs = "[]"]) (simp add: mounted_def new_pager_def start_load_def)

theorem audit_page_number_witness:
  "let p = arrive 0 (audit_answers (\<lambda>_. []) demo_send []) mounted
   in rows p = map (event_view (srv_time demo_served)) (take 50 (ring_view (audit demo_dash))) \<and>
     view_page (Audit_view (\<lambda>_. []) p) = 1"
proof -
  let ?p = "arrive 0 (audit_answers (\<lambda>_. []) demo_send []) mounted"
  have f: "flying ?p = []" "stack ?p = [[]]"
    by (simp_all add: audit_answered arrive_page mounted_def new_pager_def start_load_def)
  then have "view_page (Audit_view (\<lambda>_. []) ?p) = 1" by (simp add: Audit_view_def table_view_def)
  with audit_page_number[OF demo_first_page f(1) demo_ring(1), where date = "\<lambda>_. []"] show ?thesis
    by (simp add: Let_def)
qed

definition demo_table :: "AuditEvent pager" where
  "demo_table = \<lparr>rows = [], loading = False, error = None, stack = [[]], nextCursor = ''7'', flying = []\<rparr>"

theorem failed_next_miscounts_witness:
  "stack (arrive 0 (Inr (Some (None, []))) (onNext (arrive 0 (Inl OtherErr) (onNext demo_table)))) = [[], ''7'', ''7'']"
  using failed_next_miscounts[of demo_table "''7''" OtherErr "(None, [])"] by (simp add: demo_table_def Let_def)

theorem overtaken_reload_shows_old_page_witness:
  "view_page (Audit_view (\<lambda>_. []) (arrive 0 (Inr (Some (None, ''3''))) (arrive 1 (Inr (Some (None, ''9'')))
     (audit_reload (onNext demo_table))))) = 1"
  using overtaken_reload_shows_old_page[of demo_table "''7''" "(None, ''3'')" "(None, ''9'')" "\<lambda>_. []"]
  by (simp add: demo_table_def Let_def)

theorem installs_page_number_witness:
  "let p = arrive 0 (installs_answers (\<lambda>_. []) demo_send []) mounted
   in map in_id (rows p) = [''i1''] \<and> next_disabled p"
proof -
  let ?p = "arrive 0 (installs_answers (\<lambda>_. []) demo_send []) mounted"
  have f: "flying ?p = []" "stack ?p = [[]]"
    by (simp_all add: installs_answered arrive_page mounted_def new_pager_def start_load_def)
  have l: "int (length (installs (accounts demo_dash))) + 50 \<le> MaxInt64"
    "map ins_id (newest_first (installs (accounts demo_dash))) = [''i1'']" "length (installs (accounts demo_dash)) = 1"
    by (simp_all add: demo_dash_def demo_account_def MaxInt64_def newest_first_def)
  from installs_page_number[OF demo_first_page f(1) l(1)] f(2) l(3)
  have r: "rows ?p = map (install_view (srv_time demo_served)) (map (list_row (served_day demo_served) (ledger demo_dash))
      (take 50 (newest_first (installs (accounts demo_dash)))))" and n: "next_disabled ?p" by simp_all
  have "map in_id (rows ?p) = take 50 (map ins_id (newest_first (installs (accounts demo_dash))))"
    unfolding r by (simp add: install_view_def list_row_def o_def take_map)
  with l(2) n show ?thesis by (simp add: Let_def)
qed

section \<open>The ban dialog\<close>

definition demo_row :: InstallRow_ts where
  "demo_row = \<lparr>in_id = ''i1'', in_status = ''active'', in_createdAt = ''t'', in_lastSeenAt = None,
     in_todaySpendMicroUsd = 0\<rparr>"

definition demo_installs :: installs_page where
  "demo_installs = \<lparr>rows = listed (fst (installs_page_of demo_served demo_dash [])), loading = False, error = None,
     stack = [[]], nextCursor = snd (installs_page_of demo_served demo_dash []), flying = [],
     banTarget = Some demo_row, banReason = ''abuse'', banSubmitting = False, toasts = [], posts = []\<rparr>"

lemma demo_texts: "js_trim ''abuse'' = ''abuse''" "TrimSpace ''abuse'' = ''abuse''" "TrimSpace ''i1'' = ''i1''"
  by (simp_all add: js_trim_graph TrimSpace_graph graph_char_def)

theorem ban_dialog_bans_witness:
  "let d' = snd (Serve demo_served (ban_call ''i1'' ''abuse'') demo_dash)
   in Lookup_install ''i1'' (accounts d') = Some StatusBanned \<and> trail demo_dash d' = 1 \<and> Reason (newest d') = ''abuse''"
proof -
  have i: "in_id demo_row = ''i1''" by (simp add: demo_row_def)
  have p: "flying demo_installs = []" "posts demo_installs = []" "banTarget demo_installs = Some demo_row"
    "rows demo_installs = listed (fst (installs_page_of demo_served demo_dash (last (stack demo_installs))))"
    "nextCursor demo_installs = snd (installs_page_of demo_served demo_dash (last (stack demo_installs)))"
    "js_trim (banReason demo_installs) = ''abuse''"
    by (simp_all add: demo_installs_def demo_texts)
  have m: "in_id demo_row \<in> ins_id ` set (installs (accounts demo_dash))" "in_id demo_row \<noteq> []"
    "TrimSpace (in_id demo_row) = in_id demo_row" "TrimSpace ''abuse'' \<noteq> []"
    by (simp_all add: i demo_texts demo_dash_def demo_account_def)
  show ?thesis
    using ban_dialog_bans[OF demo_ring(1,2) p(1,2,4,5,3) m(1,2,3) p(6) m(4), of "\<lambda>_. []"]
    by (simp add: i demo_texts Let_def)
qed

definition demo_reason :: string where
  "demo_reason = ''a'' @ concat (replicate 100 (bytes [229, 176, 129])) @ ''a''"

lemma utf16_length_append: "utf16_length (s @ t) = utf16_length s + utf16_length t"
  by (simp add: utf16_length_def)

lemma demo_reason_texts: "utf16_length demo_reason = 102" "length demo_reason = 302"
    "js_trim demo_reason = demo_reason" "TrimSpace demo_reason = demo_reason"
proof -
  have u: "utf16_length (concat (replicate k (bytes [229, 176, 129]))) = k" for k
    by (induction k) (simp_all add: utf16_length_append, simp_all add: utf16_length_def bytes_def)
  have l: "length (concat (replicate k (bytes [229, 176, 129]))) = 3 * k" for k
    by (induction k) (simp_all add: bytes_def)
  show "utf16_length demo_reason = 102" unfolding demo_reason_def utf16_length_append u by (simp add: utf16_length_def)
  show "length demo_reason = 302" unfolding demo_reason_def length_append l by simp
  show "js_trim demo_reason = demo_reason" "TrimSpace demo_reason = demo_reason"
    by (simp_all add: js_trim_graph TrimSpace_graph demo_reason_def graph_char_def)
qed

theorem accepted_reason_is_cut_witness:
  "Reason (newest (snd (Serve demo_served (ban_call ''i1'' demo_reason) demo_dash))) \<noteq> demo_reason"
proof -
  have m: "''i1'' \<in> ins_id ` set (installs (accounts demo_dash))" "''i1'' \<noteq> []"
    by (simp_all add: demo_dash_def demo_account_def)
  have u: "utf16_length demo_reason \<le> 256" "256 < length (TrimSpace (js_trim demo_reason))"
    by (simp_all add: demo_reason_texts)
  have t: "banReason (typeReason demo_reason demo_installs) = demo_reason"
    by (simp add: typeReason_def demo_reason_texts)
  show ?thesis
    using accepted_reason_is_cut[OF demo_ring(1,2) m demo_texts(3) u, where v = demo_served and p = demo_installs]
    by (simp add: demo_reason_texts t)
qed

definition demo_paged :: installs_page where
  "demo_paged = demo_installs\<lparr>nextCursor := ''50''\<rparr>"

theorem late_ban_reloads_old_page_witness:
  "stack (arrive 0 (Inr (Some (None, []))) (banDone 0 (Inr None) (arrive 0 (Inr (Some (None, [])))
     (onNext (cancelBan (confirmBan demo_paged)))))) = [[], ''50'']"
  using late_ban_reloads_old_page[of demo_paged "''50''" demo_row "(None, [])" None "(None, [])"]
  by (simp add: demo_paged_def demo_installs_def demo_texts Let_def)

definition demo_asked :: "string \<Rightarrow> unit asked" where
  "demo_asked i = \<lparr>asked_of = demo_served, asked_call = ban_call i ''abuse'', asked_body = ban_body i ''abuse'',
     asked_stored = True\<rparr>"

theorem every_change_recorded_witness:
  "let cs = [demo_asked ''i1'', demo_asked ''gone'']; d' = serve_run cs demo_dash
   in 0 \<le> trail demo_dash d' \<and> trail demo_dash d' \<le> 2 \<and>
     (if trail demo_dash d' = 0 then d' = demo_dash\<lparr>rates := rates d'\<rparr> else True)"
proof -
  have "call_method (asked_call (demo_asked i)) = ''POST''" "\<not> is_export (asked_call (demo_asked i))" for i
    by (simp_all add: demo_asked_def ban_call_def is_export_def)
  then show ?thesis
    using every_change_recorded[OF demo_ring(1), where cs = "[demo_asked ''i1'', demo_asked ''gone'']"]
    by (simp add: demo_ring(3) MaxInt64_def Let_def del: serve_run_simps)
qed

end
