(* ===== verification/Ui_Config.thy ===== *)
theory Ui_Config
  imports Ui_Installs Js_Number
begin

text \<open>
  The configuration page of the single-page application (\<open>pages/Config.tsx\<close>): the live items, a draft
  per item, the pre-check of a bounded number, and a save of one item. A save under way remembers the item
  and the value its closure captured.
\<close>

section \<open>State and handlers\<close>

record config_page =
  cf_items :: "DumpItem list"
  cf_loading :: bool
  cf_error :: "string option"
  cf_drafts :: "(string, string) table"
  cf_rowError :: "(string, string) table"
  cf_savingKey :: "string option"
  cf_toasts :: "toast list"
  cf_loads :: nat
  cf_saves :: "(DumpItem \<times> string) list"

definition isBoundedNumeric :: "DumpItem \<Rightarrow> bool" where
  "isBoundedNumeric it \<longleftrightarrow> it_editable it \<and> it_min it \<noteq> None \<and> it_max it \<noteq> None"

definition live_drafts :: "DumpItem list \<Rightarrow> (string, string) table" where
  "live_drafts xs = fold (\<lambda>it. tput (it_key it) (it_value it)) xs []"

definition config_load :: "config_page \<Rightarrow> config_page" where
  "config_load p = p\<lparr>cf_loading := True, cf_error := None, cf_loads := cf_loads p + 1\<rparr>"

text \<open>The rest of \<open>load\<close>, once a load is answered.\<close>

definition config_loaded :: "js_error + DumpItem list option option \<Rightarrow> config_page \<Rightarrow> config_page" where
  "config_loaded res p =
     (let p1 = p\<lparr>cf_loading := False, cf_loads := cf_loads p - 1\<rparr> in
      case res of
        Inr (Some xs) \<Rightarrow> p1\<lparr>cf_items := listed xs, cf_drafts := live_drafts (listed xs), cf_rowError := []\<rparr>
      | Inr None \<Rightarrow> p1
      | Inl e \<Rightarrow> (case surfaced e of None \<Rightarrow> p1 | Some m \<Rightarrow> p1\<lparr>cf_error := Some m\<rparr>))"

definition not_integer_text :: string where
  "not_integer_text = bytes [229, 191, 133, 233, 161, 187, 228, 184, 186, 230, 149, 180, 230, 149, 176]"

definition out_of_range_text :: "int \<Rightarrow> int \<Rightarrow> string" where
  "out_of_range_text lo hi =
     bytes [232, 182, 133, 229, 135, 186, 232, 140, 131, 229, 155, 180] @ '' ['' @ itoa lo @ '', '' @ itoa hi @ '']''"

definition updated_text :: string where "updated_text = bytes [229, 183, 178, 230, 155, 180, 230, 150, 176, 32]"

text \<open>The client-side pre-check of a bounded number; \<open>None\<close> lets the value through.\<close>

definition precheck :: "DumpItem \<Rightarrow> string \<Rightarrow> string option" where
  "precheck it val =
     (if \<not> isBoundedNumeric it then None
      else case js_number val of
             Finite n \<Rightarrow>
               if of_int (floor n) \<noteq> n then Some not_integer_text
               else if n < of_int (the (it_min it)) \<or> n > of_int (the (it_max it))
               then Some (out_of_range_text (the (it_min it)) (the (it_max it)))
               else None
           | _ \<Rightarrow> Some not_integer_text)"

definition draft_of :: "DumpItem \<Rightarrow> config_page \<Rightarrow> string" where
  "draft_of it p = (case tget (cf_drafts p) (it_key it) of None \<Rightarrow> [] | Some v \<Rightarrow> v)"

definition set_draft :: "string \<Rightarrow> string \<Rightarrow> config_page \<Rightarrow> config_page" where
  "set_draft k s p = p\<lparr>cf_drafts := tput k s (cf_drafts p)\<rparr>"

text \<open>The numeric field hands over the text of the number it parsed, or \<open>null\<close> when it is cleared.\<close>

definition numeric_change :: "DumpItem \<Rightarrow> string option \<Rightarrow> config_page \<Rightarrow> config_page" where
  "numeric_change it v = set_draft (it_key it) (case v of None \<Rightarrow> [] | Some s \<Rightarrow> s)"

definition config_save :: "DumpItem \<Rightarrow> config_page \<Rightarrow> config_page" where
  "config_save it p =
     (let val = draft_of it p in
      case precheck it val of
        Some m \<Rightarrow> p\<lparr>cf_rowError := tput (it_key it) m (cf_rowError p)\<rparr>
      | None \<Rightarrow> p\<lparr>cf_savingKey := Some (it_key it), cf_rowError := tput (it_key it) [] (cf_rowError p),
          cf_saves := cf_saves p @ [(it, val)]\<rparr>)"

definition config_saved :: "nat \<Rightarrow> js_error + DumpItem list option option \<Rightarrow> config_page \<Rightarrow> config_page" where
  "config_saved k res p =
     (let it = fst (cf_saves p ! k); p1 = p\<lparr>cf_savingKey := None, cf_saves := drop_nth k (cf_saves p)\<rparr> in
      case res of
        Inr (Some xs) \<Rightarrow>
          p1\<lparr>cf_items := listed xs, cf_drafts := live_drafts (listed xs),
            cf_toasts := cf_toasts p1 @ [Succeeded (updated_text @ it_key it)]\<rparr>
      | Inr None \<Rightarrow> p1
      | Inl (ApiErr e) \<Rightarrow>
          if err_code e = JStr ''CONFIG_REJECTED''
          then p1\<lparr>cf_rowError := tput (it_key it) (err_message e) (cf_rowError p1)\<rparr>
          else p1\<lparr>cf_toasts := cf_toasts p1 @ [Failed (err_message e)]\<rparr>
      | Inl OtherErr \<Rightarrow> p1)"

section \<open>Rendering\<close>

definition editable_tag :: string where "editable_tag = bytes [229, 143, 175, 231, 188, 150, 232, 190, 145]"
definition readonly_tag :: string where "readonly_tag = bytes [229, 143, 170, 232, 175, 187]"
definition restart_tag :: string where
  "restart_tag = bytes [233, 156, 128, 233, 135, 141, 229, 144, 175, 231, 148, 159, 230, 149, 136]"
definition range_tag :: "int \<Rightarrow> int \<Rightarrow> string" where
  "range_tag lo hi = bytes [232, 140, 131, 229, 155, 180] @ '' ['' @ itoa lo @ '', '' @ itoa hi @ '']''"
definition empty_text :: string where
  "empty_text = bytes [239, 188, 136, 231, 169, 186, 239, 188, 137]"

text \<open>The key column: the key and its badges.\<close>

definition key_cells :: "DumpItem \<Rightarrow> cell list" where
  "key_cells it =
     [Plain (it_key it), if it_editable it then Tag (Some ''blue'') editable_tag else Tag None readonly_tag] @
     (if it_restartRequired it then [Tag (Some ''orange'') restart_tag] else []) @
     (case (it_min it, it_max it) of (Some lo, Some hi) \<Rightarrow> [Tag None (range_tag lo hi)] | _ \<Rightarrow> [])"

text \<open>The value column: text, a numeric field whose value may be absent, or a text field, with the
  rejection under it.\<close>

datatype value_cell =
    ReadOnly string
  | NumberField "number option" int int "string option"
  | TextField string "string option"

definition row_error :: "DumpItem \<Rightarrow> config_page \<Rightarrow> string option" where
  "row_error it p = (case tget (cf_rowError p) (it_key it) of Some (c # cs) \<Rightarrow> Some (c # cs) | _ \<Rightarrow> None)"

definition value_cell_of :: "config_page \<Rightarrow> DumpItem \<Rightarrow> value_cell" where
  "value_cell_of p it =
     (if \<not> it_editable it then ReadOnly (if it_value it = [] then empty_text else it_value it)
      else if isBoundedNumeric it then
        NumberField
          (case tget (cf_drafts p) (it_key it) of
             None \<Rightarrow> Some NaN
           | Some v \<Rightarrow> if v = [] then None else Some (js_number v))
          (the (it_min it)) (the (it_max it)) (row_error it p)
      else TextField (draft_of it p) (row_error it p))"

text \<open>The action column: nothing, or the save button, disabled and spinning.\<close>

definition dirty :: "config_page \<Rightarrow> DumpItem \<Rightarrow> bool" where
  "dirty p it \<longleftrightarrow> draft_of it p \<noteq> it_value it"

definition save_button :: "config_page \<Rightarrow> DumpItem \<Rightarrow> (bool \<times> bool) option" where
  "save_button p it =
     (if \<not> it_editable it then None else Some (\<not> dirty p it, cf_savingKey p = Some (it_key it)))"

record config_view =
  view_banner :: "string option"
  view_items :: "(cell list \<times> value_cell \<times> (bool \<times> bool) option) list"
  view_loading :: bool

definition Config_view :: "config_page \<Rightarrow> config_view" where
  "Config_view p =
     \<lparr>view_banner = (case cf_error p of Some (c # cs) \<Rightarrow> Some (c # cs) | _ \<Rightarrow> None),
      view_items = map (\<lambda>it. (key_cells it, value_cell_of p it, save_button p it)) (cf_items p),
      view_loading = cf_loading p\<rparr>"

section \<open>The pre-check and the server\<close>

lemma reqInt64_whole:
  assumes "reqInt64 verb name t lo hi = Inr m" "TrimSpace t = t" "js_trim t = t"
  shows "\<exists>k. js_number t = Finite (of_int k)"
proof -
  from assms(1,2) have m: "parse_int t = Some m" by (simp add: reqInt64_Inr)
  then have "is_int64 m" by (auto simp: parse_int_def Let_def split: option.splits if_splits list.splits)
  with js_number_parse_int[OF m assms(3)] show ?thesis using to_double_whole[of m] by simp
qed

text \<open>C11. The client's pre-check is the server's: for an item with bounds, the text of an integer below 2^53 put into its
  field is let through exactly when the server's bounded parser accepts it, with that value, and is otherwise what
  the server would answer with the bound crossed; what the page then posts is that text. A text without white
  space around it that is not a whole number for the browser is stopped before it is posted, and the server
  would have rejected it.\<close>

theorem precheck_agrees:
  fixes p :: config_page
  assumes "it_editable it" and "it_min it = Some lo" and "it_max it = Some hi" and "abs n < 2 ^ 53"
    and t: "TrimSpace t = t" "js_trim t = t" "\<forall>k. js_number t \<noteq> Finite (of_int k)"
  defines "q \<equiv> numeric_change it (Some (itoa n)) p"
  shows "reqInt64 verb (it_key it) (itoa n) lo hi =
      (if precheck it (itoa n) = None then Inr n
       else Inl (it_key it @ (if n < lo then '' must be >= '' @ itoa lo else '' must be <= '' @ itoa hi))) \<and>
    cf_saves (config_save it q) = cf_saves p @ (if lo \<le> n \<and> n \<le> hi then [(it, itoa n)] else []) \<and>
    precheck it t = Some not_integer_text \<and> (\<forall>m. reqInt64 verb (it_key it) t lo hi \<noteq> Inr m) \<and>
    cf_saves (config_save it (numeric_change it (Some t) p)) = cf_saves p"
proof -
  have i: "is_int64 n" using assms(4) by (auto simp: is_int64_def MaxInt64_def MinInt64_def)
  have c: "precheck it (itoa n) = (if lo \<le> n \<and> n \<le> hi then None else Some (out_of_range_text lo hi))"
    using assms(1-3) by (auto simp: precheck_def isBoundedNumeric_def js_number_itoa[OF assms(4)])
  have d: "draft_of it (numeric_change it (Some s) p) = s" "cf_saves (numeric_change it (Some s) p) = cf_saves p" for s
    by (simp_all add: numeric_change_def set_draft_def draft_of_def)
  have w: "of_int (floor x) \<noteq> x" if "js_number t = Finite x" for x using t(3) that by metis
  then have p: "precheck it t = Some not_integer_text"
    using assms(1-3) by (auto simp: precheck_def isBoundedNumeric_def split: number.split)
  have r: "reqInt64 verb (it_key it) t lo hi \<noteq> Inr m" for m
    using reqInt64_whole[OF _ t(1,2), of verb "it_key it" lo hi m] t(3) by blast
  show ?thesis using c d p r by (simp add: q_def reqInt64_itoa[OF i] config_save_def Let_def)
qed

text \<open>A cleared numeric field is sent as an empty text. \<open>Number('')\<close> is zero, so when the bounds admit zero
  the pre-check lets the cleared field through and the page posts an empty value, which the server's
  bounded parser rejects.\<close>

theorem cleared_field_is_sent:
  assumes "it_editable it" and "it_min it = Some lo" and "it_max it = Some hi" and "lo \<le> 0" and "0 \<le> hi"
  shows "cf_saves (config_save it (numeric_change it None p)) = cf_saves p @ [(it, [])] \<and>
    reqInt64 verb (it_key it) [] lo hi = Inl (it_key it @ '': invalid int '' @ verb [])"
proof -
  have "precheck it [] = None" using assms by (simp add: precheck_def isBoundedNumeric_def js_number_empty)
  then show ?thesis
    by (simp add: config_save_def numeric_change_def set_draft_def draft_of_def Let_def reqInt64_empty)
qed

section \<open>A save, end to end\<close>

definition config_answers ::
    "(int \<times> int \<Rightarrow> string) \<Rightarrow> (http_call \<Rightarrow> fetched) \<Rightarrow> string \<Rightarrow> string \<Rightarrow> js_error + DumpItem list option option" where
  "config_answers shw send k v =
     (case postConfig shw send [(k, v)] of
        Inl e \<Rightarrow> Inl e
      | Inr None \<Rightarrow> Inr None
      | Inr (Some j) \<Rightarrow> Inr (read_config j))"

definition config_call :: "string \<Rightarrow> string \<Rightarrow> http_call" where
  "config_call k v = \<lparr>call_path = ''/api/config'', call_method = ''POST'',
     call_headers = [(''Content-Type'', ''application/json'')], call_body = Some (JObj [(k, JStr v)])\<rparr>"

lemma config_served:
  "Serve v (config_call k x) d =
     (case ApplyOverrides (srv_config v) [(k, x)] (conf d) of
        Inl why \<Rightarrow> (client_sees (writeAPIError (NewError 400 ''CONFIG_REJECTED'' why)), d)
      | Inr c \<Rightarrow> (client_sees (WriteJSON 200 (config_body (Dump (srv_config v) c))),
          RecordAudit (srv_now v) (audit_entry ''config_update'' k [] ''ok'' actor) (d\<lparr>conf := c\<rparr>)))"
  by (simp add: serve_defs config_call_def answer_with_def PostConfig_def posted_def decode_overrides_def tput_def
      ConfigApply_def keysOf_def Let_def split: sum.split)

lemma config_answered:
  "config_answers shw (\<lambda>c. fst (Serve v c d)) k x =
     (case ApplyOverrides (srv_config v) [(k, x)] (conf d) of
        Inl why \<Rightarrow> Inl (if why = [] then ApiErr \<lparr>err_status = 400, err_code = JStr ''CONFIG_REJECTED'',
            err_message = failed_text 400, err_details = None\<rparr>
          else thrown (NewError 400 ''CONFIG_REJECTED'' why))
      | Inr c \<Rightarrow> Inr (Some (Some (map item_view (Dump (srv_config v) c)))))"
proof -
  have "postConfig shw (\<lambda>c. fst (Serve v c d)) [(k, x)] =
      request shw (\<lambda>_. fst (Serve v (config_call k x) d)) ''/api/config'' ''POST'' None"
    by (simp add: postConfig_def request_def config_call_def Let_def split: fetched.split)
  moreover have "request shw (\<lambda>_. client_sees (writeAPIError (NewError 400 ''CONFIG_REJECTED'' why))) p m None =
      Inl (if why = [] then ApiErr \<lparr>err_status = 400, err_code = JStr ''CONFIG_REJECTED'',
            err_message = failed_text 400, err_details = None\<rparr>
          else thrown (NewError 400 ''CONFIG_REJECTED'' why))" for why p m
    using request_envelope[of "NewError 400 ''CONFIG_REJECTED'' why" shw p m None]
    by (cases "why = []") (simp_all add: NewError_def request_def client_sees_def writeAPIError_def safeErr_def
        js_field_def js_member_def js_or_def truthy_def Let_def)
  ultimately show ?thesis
    by (simp add: config_answers_def config_served read_config_body split: sum.split)
      (simp add: request_def client_sees_def WriteJSON_def read_config_body)
qed

lemma live_drafts_get:
  assumes "distinct (map it_key xs)" "x \<in> set xs"
  shows "tget (live_drafts xs) (it_key x) = Some (it_value x)"
proof -
  have other: "tget (fold (\<lambda>it. tput (it_key it) (it_value it)) ys t) k = tget t k" if "k \<notin> it_key ` set ys" for ys t k
    using that by (induction ys arbitrary: t) (auto simp: tget_tput)
  have "tget (fold (\<lambda>it. tput (it_key it) (it_value it)) xs t) (it_key x) = Some (it_value x)" for t
    using assms
  proof (induction xs arbitrary: t)
    case (Cons y ys)
    then show ?case
    proof (cases "x = y")
      case True
      with Cons.prems(1) show ?thesis by (simp add: other tget_tput)
    qed simp
  qed simp
  then show ?thesis by (simp add: live_drafts_def)
qed

text \<open>A save, end to end. When the backend accepts the value, its configuration is swapped and recorded, and the
  page shows the fresh items with no rejection under the saved one and no row dirty, so also what was typed
  into other rows and not saved is gone; when it rejects the value, nothing changes but the
  reason, which appears under the row.\<close>

theorem config_save_applies:
  fixes v :: "'c served" and d :: "'c dash" and p :: config_page and shw :: "int \<times> int \<Rightarrow> string"
  assumes "cf_saves p = []" and "precheck it (draft_of it p) = None"
  defines "p' \<equiv> config_saved 0 (config_answers shw (\<lambda>c. fst (Serve v c d)) (it_key it) (draft_of it p)) (config_save it p)"
    and "d' \<equiv> snd (Serve v (config_call (it_key it) (draft_of it p)) d)"
  shows "case ApplyOverrides (srv_config v) [(it_key it, draft_of it p)] (conf d) of
      Inr c \<Rightarrow> conf d' = c \<and> cf_items p' = map item_view (Dump (srv_config v) c) \<and> row_error it p' = None \<and>
        cf_savingKey p' = None \<and> (distinct (map key (Dump (srv_config v) c)) \<longrightarrow> (\<forall>x \<in> set (cf_items p'). \<not> dirty p' x))
    | Inl why \<Rightarrow> d' = d \<and> cf_items p' = cf_items p \<and> cf_drafts p' = cf_drafts p \<and> cf_savingKey p' = None \<and>
        row_error it p' = Some (if why = [] then failed_text 400 else why)"
proof -
  let ?r = "ApplyOverrides (srv_config v) [(it_key it, draft_of it p)] (conf d)"
  have save: "config_save it p = p\<lparr>cf_savingKey := Some (it_key it), cf_rowError := tput (it_key it) [] (cf_rowError p),
      cf_saves := [(it, draft_of it p)]\<rparr>"
    using assms(1,2) by (simp add: config_save_def Let_def)
  show ?thesis
  proof (cases ?r)
    case (Inl why)
    have p': "p' = (config_save it p)\<lparr>cf_savingKey := None, cf_saves := [],
        cf_rowError := tput (it_key it) (if why = [] then failed_text 400 else why) (cf_rowError (config_save it p))\<rparr>"
      using Inl by (simp add: p'_def config_answered config_saved_def save drop_nth_def thrown_def NewError_def Let_def)
    have "d' = d" using Inl by (simp add: d'_def config_served)
    moreover have "failed_text 400 \<noteq> []" by (simp add: failed_text_def)
    ultimately show ?thesis
      using Inl by (auto simp: p' save row_error_def tget_tput split: list.split)
  next
    case (Inr c)
    let ?xs = "map item_view (Dump (srv_config v) c)"
    have p': "p' = (config_save it p)\<lparr>cf_savingKey := None, cf_saves := [], cf_items := ?xs, cf_drafts := live_drafts ?xs,
        cf_toasts := cf_toasts p @ [Succeeded (updated_text @ it_key it)]\<rparr>"
      using Inr by (simp add: p'_def config_answered config_saved_def save drop_nth_def listed_def Let_def)
    have keys: "map it_key ?xs = map key (Dump (srv_config v) c)" by (simp add: item_view_def)
    have "\<not> dirty p' x" if "distinct (map key (Dump (srv_config v) c))" "x \<in> set ?xs" for x
      using live_drafts_get[of ?xs x] that unfolding keys
      by (simp add: p' dirty_def draft_of_def)
    moreover have "conf d' = c" using Inr by (simp add: d'_def config_served RecordAudit_def)
    moreover have "row_error it p' = None" by (simp add: p' save row_error_def tget_tput)
    ultimately show ?thesis using Inr by (simp add: p')
  qed
qed

end
