(* ===== verification/Ui_Config_Runs.thy ===== *)
theory Ui_Config_Runs
  imports Ui_Config
begin

text \<open>
  The configuration page of the single-page application under any sequence of events
  (\<open>pages/Config.tsx\<close>): edits, clicks and answers in any order.
\<close>

section \<open>Events\<close>

definition new_config :: config_page where
  "new_config = \<lparr>cf_items = [], cf_loading = False, cf_error = None, cf_drafts = [], cf_rowError = [],
     cf_savingKey = None, cf_toasts = [], cf_loads = 0, cf_saves = []\<rparr>"

datatype config_event =
    ClickLoad | LoadAnswer "js_error + DumpItem list option option" | EditText DumpItem string
  | EditNumber DumpItem "string option" | ClickSave DumpItem | SaveAnswer nat "js_error + DumpItem list option option"

text \<open>A row has one field, numeric or text, when it is editable; a save button that is disabled or loading takes
  no click.\<close>

fun config_step :: "config_event \<Rightarrow> config_page \<Rightarrow> config_page" where
  "config_step ClickLoad p = config_load p"
| "config_step (LoadAnswer res) p = (if cf_loads p > 0 then config_loaded res p else p)"
| "config_step (EditText it s) p =
     (if it \<in> set (cf_items p) \<and> it_editable it \<and> \<not> isBoundedNumeric it then set_draft (it_key it) s p else p)"
| "config_step (EditNumber it v) p =
     (if it \<in> set (cf_items p) \<and> isBoundedNumeric it then numeric_change it v p else p)"
| "config_step (ClickSave it) p =
     (if it \<in> set (cf_items p) \<and> save_button p it = Some (False, False) then config_save it p else p)"
| "config_step (SaveAnswer k res) p = (if k < length (cf_saves p) then config_saved k res p else p)"

definition config_run :: "config_event list \<Rightarrow> config_page" where
  "config_run es = fold config_step es (config_load new_config)"

section \<open>Invariant\<close>

definition save_ok :: "DumpItem \<times> string \<Rightarrow> bool" where
  "save_ok x \<longleftrightarrow> it_editable (fst x) \<and> precheck (fst x) (snd x) = None \<and> snd x \<noteq> it_value (fst x)"

definition config_ok :: "config_page \<Rightarrow> bool" where
  "config_ok p \<longleftrightarrow>
     list_all save_ok (cf_saves p) \<and> (cf_loads p = 0 \<longrightarrow> \<not> cf_loading p) \<and>
     (case cf_savingKey p of None \<Rightarrow> True | Some k \<Rightarrow> k \<in> set (map (it_key \<circ> fst) (cf_saves p)))"

lemma save_ok_click:
  "save_button p it = Some (False, False) \<Longrightarrow> precheck it (draft_of it p) = None \<Longrightarrow> save_ok (it, draft_of it p)"
  by (auto simp: save_ok_def save_button_def dirty_def split: if_splits)

lemma config_saved_frame [simp]:
  "cf_saves (config_saved k res p) = drop_nth k (cf_saves p)" "cf_savingKey (config_saved k res p) = None"
  "cf_loads (config_saved k res p) = cf_loads p" "cf_loading (config_saved k res p) = cf_loading p"
  by (simp_all add: config_saved_def Let_def split: sum.split option.split js_error.split)

lemma config_loaded_frame [simp]:
  "cf_saves (config_loaded res p) = cf_saves p" "cf_savingKey (config_loaded res p) = cf_savingKey p"
  "cf_loading (config_loaded res p) = False"
  by (simp_all add: config_loaded_def Let_def split: sum.split option.split)

lemma config_step_ok: "config_ok p \<Longrightarrow> config_ok (config_step e p)"
proof (cases e)
  case (ClickSave it)
  then show "config_ok p \<Longrightarrow> ?thesis"
    using save_ok_click[of p it]
    by (cases "precheck it (draft_of it p)") (auto simp: config_ok_def config_save_def Let_def split: option.splits)
next
  case (SaveAnswer k res)
  then show "config_ok p \<Longrightarrow> ?thesis"
    by (auto simp: config_ok_def drop_nth_def list_all_iff dest: in_set_takeD in_set_dropD)
qed (auto simp: config_ok_def config_load_def set_draft_def numeric_change_def split: option.splits)

lemma config_run_ok: "config_ok (config_run es)"
proof -
  have "config_ok (config_load new_config)" by (simp add: config_ok_def config_load_def new_config_def)
  then show ?thesis unfolding config_run_def
    by (induction es rule: rev_induct) (simp_all add: config_step_ok)
qed

text \<open>C19. Only checked values are posted. After any events every save under way is of an editable item, to a text that
  differs from the item's value and that the pre-check let through: for a bounded item, one that the browser reads
  as a whole number within the bounds. The text of a cleared field is empty, which the browser reads as zero; it is
  posted when the bounds admit zero. Once everything is answered nothing spins.\<close>

theorem only_checked_values_are_posted:
  "let p = config_run es in
     (\<forall>(it, val) \<in> set (cf_saves p). it_editable it \<and> val \<noteq> it_value it \<and>
        (case (it_min it, it_max it) of
           (Some lo, Some hi) \<Rightarrow> \<exists>n. js_number val = Finite (of_int n) \<and> lo \<le> n \<and> n \<le> hi
         | _ \<Rightarrow> True)) \<and>
     (cf_saves p = [] \<longrightarrow> (\<forall>it. save_button p it \<noteq> Some (b, True))) \<and>
     (cf_loads p = 0 \<longrightarrow> \<not> view_loading (Config_view p))"
proof -
  let ?p = "config_run es"
  have ok: "config_ok ?p" by (rule config_run_ok)
  have range: "\<exists>n. js_number val = Finite (of_int n) \<and> lo \<le> n \<and> n \<le> hi"
    if "save_ok (it, val)" "it_min it = Some lo" "it_max it = Some hi" for it val lo hi
  proof -
    have b: "isBoundedNumeric it" using that by (simp add: save_ok_def isBoundedNumeric_def)
    with that obtain q where q: "js_number val = Finite q" "of_int (floor q) = q" "of_int lo \<le> q" "q \<le> of_int hi"
      by (auto simp: save_ok_def precheck_def split: number.splits if_splits)
    have "lo \<le> floor q" "floor q \<le> hi" using q(3) floor_mono[OF q(4)] by (simp_all add: le_floor_iff)
    with q(1,2) show ?thesis by metis
  qed
  have "it_editable it \<and> val \<noteq> it_value it \<and> (case (it_min it, it_max it) of
      (Some lo, Some hi) \<Rightarrow> \<exists>n. js_number val = Finite (of_int n) \<and> lo \<le> n \<and> n \<le> hi | _ \<Rightarrow> True)"
    if "(it, val) \<in> set (cf_saves ?p)" for it val
  proof -
    have s: "save_ok (it, val)" using ok that by (auto simp: config_ok_def list_all_iff)
    then have "it_editable it" "val \<noteq> it_value it" by (simp_all add: save_ok_def)
    with range[OF s] show ?thesis by (cases "it_min it"; cases "it_max it") simp_all
  qed
  then have "\<forall>(it, val) \<in> set (cf_saves ?p). it_editable it \<and> val \<noteq> it_value it \<and>
      (case (it_min it, it_max it) of
         (Some lo, Some hi) \<Rightarrow> \<exists>n. js_number val = Finite (of_int n) \<and> lo \<le> n \<and> n \<le> hi | _ \<Rightarrow> True)"
    by fast
  moreover have "cf_saves ?p = [] \<longrightarrow> (\<forall>it. save_button ?p it \<noteq> Some (b, True))"
    using ok by (auto simp: config_ok_def save_button_def split: option.splits)
  ultimately show ?thesis using ok by (simp add: config_ok_def Config_view_def Let_def)
qed

text \<open>Two saves at once. While a second save is under way, the answer to the first takes its spinner away and puts
  the value the backend held when the first was applied back into its field.\<close>

theorem overlapping_saves_lose_spinner:
  assumes "cf_saves p = [(a, va), (b, vb)]" and "distinct (map it_key xs)" and "x \<in> set xs" and "it_key x = it_key b"
  shows "let q = config_saved 0 (Inr (Some (Some xs))) p in
    cf_saves q = [(b, vb)] \<and> cf_savingKey q = None \<and> draft_of b q = it_value x \<and> \<not> dirty q x"
  using live_drafts_get[OF assms(2,3)] assms(1,4)
  by (simp add: config_saved_def drop_nth_def listed_def draft_of_def dirty_def Let_def)

end
