(* ===== verification/Ui_Installs_Runs.thy ===== *)
theory Ui_Installs_Runs
  imports Ui_Installs
begin

text \<open>
  The install page of the single-page application under any sequence of events: clicks, typing, and
  answers that succeed or fail and arrive in any order (\<open>pages/Installs.tsx\<close>). A click reaches a handler
  when its button is on the page and takes clicks.
\<close>

section \<open>Events\<close>

datatype installs_event =
    ClickReload | ClickNext | ClickPrev | PageAnswer nat "InstallRow_ts answer"
  | ClickBan InstallRow_ts | EditReason string | CloseDialog | ClickOk | BanAnswer nat "js_error + js"
  | ClickUnban InstallRow_ts | UnbanAnswer nat "js_error + js"

fun is_ban :: "post \<Rightarrow> bool" where
  "is_ban (BanPost _ _ _) = True"
| "is_ban (UnbanPost _ _) = False"

text \<open>The OK button of the dialog takes no click while it is loading.\<close>

fun installs_step :: "installs_event \<Rightarrow> installs_page \<Rightarrow> installs_page" where
  "installs_step ClickReload p = installs_reload p"
| "installs_step ClickNext p = (if next_disabled p then p else installs_onNext p)"
| "installs_step ClickPrev p = (if prev_disabled p then p else installs_onPrev p)"
| "installs_step (PageAnswer k res) p = (if k < length (flying p) then arrive k res p else p)"
| "installs_step (ClickBan r) p = (if r \<in> set (rows p) \<and> row_action_of r = BanButton then openBan r p else p)"
| "installs_step (EditReason s) p = (if banTarget p \<noteq> None then typeReason s p else p)"
| "installs_step CloseDialog p = cancelBan p"
| "installs_step ClickOk p = (if banSubmitting p then p else confirmBan p)"
| "installs_step (BanAnswer k res) p = (if k < length (posts p) then banDone k res p else p)"
| "installs_step (ClickUnban r) p = (if r \<in> set (rows p) \<and> row_action_of r = UnbanButton then onUnban r p else p)"
| "installs_step (UnbanAnswer k res) p = (if k < length (posts p) then unbanDone k res p else p)"

definition installs_run :: "installs_event list \<Rightarrow> installs_page" where
  "installs_run es = fold installs_step es installs_mounted"

section \<open>Trimming keeps the length bound\<close>

lemma utf16_split: "utf16_length (s @ t) = utf16_length s + utf16_length t"
  by (simp add: utf16_length_def)

lemma utf16_rev [simp]: "utf16_length (rev s) = utf16_length s"
  by (induction s) (simp_all add: utf16_length_def)

lemma utf16_trim_left: "utf16_length (trim_left ws s) \<le> utf16_length s"
  using trim_left_suffix[of s ws] utf16_split by (metis le_add2)

lemma utf16_trim: "utf16_length (js_trim s) \<le> utf16_length s"
  unfolding js_trim_def trim_def using utf16_trim_left utf16_rev by (metis order_trans)

section \<open>Invariant\<close>

definition reason_ok :: "post \<Rightarrow> bool" where
  "reason_ok x = (case x of BanPost _ why _ \<Rightarrow> why \<noteq> [] \<and> js_trim why = why \<and> utf16_length why \<le> 256 | UnbanPost _ _ \<Rightarrow> True)"

definition installs_ok :: "installs_page \<Rightarrow> bool" where
  "installs_ok p \<longleftrightarrow>
     (\<exists>cs. stack p = [] # cs \<and> [] \<notin> set cs) \<and> (flying p = [] \<longrightarrow> \<not> loading p) \<and>
     length (filter is_ban (posts p)) = (if banSubmitting p then 1 else 0) \<and>
     list_all reason_ok (posts p) \<and> utf16_length (banReason p) \<le> 256"

lemma drop_nth_filter:
  "k < length xs \<Longrightarrow> length (filter P (drop_nth k xs)) = length (filter P xs) - (if P (xs ! k) then 1 else 0)"
proof -
  assume k: "k < length xs"
  have "filter P xs = filter P (take k xs) @ (if P (xs ! k) then [xs ! k] else []) @ filter P (drop (Suc k) xs)"
    by (subst id_take_nth_drop[OF k]) simp
  then show ?thesis by (simp add: drop_nth_def)
qed

lemma drop_nth_all: "list_all P xs \<Longrightarrow> list_all P (drop_nth k xs)"
  by (auto simp: drop_nth_def list_all_iff dest: in_set_takeD in_set_dropD)

lemma arrive_frame [simp]:
  "stack (arrive k res p) = stack p" "loading (arrive k res p) = False" "flying (arrive k res p) = drop_nth k (flying p)"
  "pager.more (arrive k res p) = pager.more p"
  by (simp_all add: arrive_def Let_def split: sum.split option.split prod.split)

lemma installs_step_ok: "installs_ok p \<Longrightarrow> installs_ok (installs_step e p)"
proof -
  assume ok: "installs_ok p"
  then obtain cs where cs: "stack p = [] # cs" "[] \<notin> set cs" by (auto simp: installs_ok_def)
  show ?thesis
  proof (cases e)
    case ClickPrev
    have "\<exists>bs. butlast (stack p) = [] # bs \<and> [] \<notin> set bs" if "length (stack p) > 1"
      using that cs by (cases cs rule: rev_cases) (auto simp: butlast_append)
    with ok ClickPrev show ?thesis by (auto simp: installs_ok_def onPrev_def start_load_def Let_def)
  next
    case (PageAnswer k res)
    have "banSubmitting (arrive k res p) = banSubmitting p" "posts (arrive k res p) = posts p"
      "banReason (arrive k res p) = banReason p"
      by (simp_all add: arrive_def Let_def split: sum.split option.split prod.split)
    with ok PageAnswer show ?thesis by (auto simp: installs_ok_def)
  next
    case ClickOk
    show ?thesis
      using ok ClickOk utf16_trim[of "banReason p"]
      by (auto simp: installs_ok_def confirmBan_def reason_ok_def split: option.split)
  next
    case (BanAnswer k res)
    then show ?thesis
      using ok drop_nth_filter[of k "posts p" is_ban] drop_nth_all[of reason_ok "posts p" k]
      by (auto simp: installs_ok_def banDone_def start_load_def utf16_length_def Let_def
          split: post.split sum.split js_error.split if_splits)
  next
    case (UnbanAnswer k res)
    then show ?thesis
      using ok drop_nth_filter[of k "posts p" is_ban] drop_nth_all[of reason_ok "posts p" k]
      by (auto simp: installs_ok_def unbanDone_def start_load_def Let_def
          split: post.split sum.split js_error.split)
  qed (use ok in \<open>auto simp: installs_ok_def installs_reload_def onNext_def start_load_def openBan_def typeReason_def
      cancelBan_def onUnban_def reason_ok_def utf16_length_def Let_def\<close>)
qed

lemma installs_run_ok: "installs_ok (installs_run es)"
proof -
  have "installs_ok installs_mounted"
    by (auto simp: installs_ok_def installs_mounted_def new_installs_def start_load_def utf16_length_def)
  then show ?thesis unfolding installs_run_def
    by (induction es rule: rev_induct) (simp_all add: installs_step_ok)
qed

text \<open>C18. One ban at a time, and the table never sticks. After any events, with answers that fail or overtake one
  another, the OK button of the dialog spins exactly while a ban is under way and there is at most one; every
  reason under way is trimmed, not blank and of at most 256 UTF-16 units; the first page stays at the bottom of the
  cursors; and once every load is answered the table is not loading.\<close>

theorem one_ban_at_a_time:
  "let p = installs_run es in
     length (filter is_ban (posts p)) = (if modal_ok_loading (Installs_view date p) then 1 else 0) \<and>
     list_all (\<lambda>x. case x of BanPost _ why _ \<Rightarrow> why \<noteq> [] \<and> js_trim why = why \<and> utf16_length why \<le> 256 | UnbanPost _ _ \<Rightarrow> True) (posts p) \<and>
     hd (stack p) = [] \<and> view_page (view_table (Installs_view date p)) \<ge> 1 \<and>
     (if flying p = [] then \<not> view_spinning (view_table (Installs_view date p)) else True)"
  using installs_run_ok[of es]
  by (auto simp: installs_ok_def reason_ok_def[abs_def] Installs_view_def table_view_def Let_def)

end
