(* ===== verification/Ui_Overview.thy ===== *)
theory Ui_Overview
  imports Ui_Installs
begin

text \<open>
  The overview page of the single-page application (\<open>pages/Overview.tsx\<close>): polling that pauses while
  the tab is hidden, the monthly quota reset dialog, and what the page shows of a snapshot. The state
  holds the ref to the timer beside the intervals the browser runs, so that a leaked one would be seen.
\<close>

section \<open>State and events\<close>

text \<open>A reset under way is posting, or waiting for the refresh that follows.\<close>

datatype reset_phase = NoReset | Posting string | Refreshing

record overview_page =
  op_data :: "OverviewResponse option"
  op_loading :: bool
  op_error :: "string option"
  op_resetting :: bool
  op_timer :: "nat option"
  op_intervals :: "nat list"
  op_fresh :: nat
  op_hidden :: bool
  op_listening :: bool
  op_stopped :: bool
  op_flights :: nat
  op_toasts :: "toast list"
  op_dialog :: "string option"
  op_reset :: reset_phase

definition new_overview :: "bool \<Rightarrow> overview_page" where
  "new_overview hid =
     \<lparr>op_data = None, op_loading = True, op_error = None, op_resetting = False, op_timer = None, op_intervals = [],
      op_fresh = 0, op_hidden = hid, op_listening = False, op_stopped = True, op_flights = 0, op_toasts = [],
      op_dialog = None, op_reset = NoReset\<rparr>"

definition refresh :: "overview_page \<Rightarrow> overview_page" where
  "refresh p = p\<lparr>op_flights := op_flights p + 1\<rparr>"

text \<open>The rest of \<open>refresh\<close>, once a request is answered.\<close>

definition refreshed :: "js_error + OverviewResponse option \<Rightarrow> overview_page \<Rightarrow> overview_page" where
  "refreshed res p =
     (let p1 = p\<lparr>op_flights := op_flights p - 1, op_loading := False\<rparr> in
      case res of
        Inr v \<Rightarrow> p1\<lparr>op_data := v, op_error := None\<rparr>
      | Inl e \<Rightarrow> (case surfaced e of None \<Rightarrow> p1 | Some m \<Rightarrow> p1\<lparr>op_error := Some m\<rparr>))"

definition start_timer :: "overview_page \<Rightarrow> overview_page" where
  "start_timer p =
     (if op_timer p \<noteq> None then p
      else p\<lparr>op_timer := Some (op_fresh p), op_intervals := op_intervals p @ [op_fresh p], op_fresh := op_fresh p + 1\<rparr>)"

definition stop_timer :: "overview_page \<Rightarrow> overview_page" where
  "stop_timer p =
     (case op_timer p of
        None \<Rightarrow> p
      | Some i \<Rightarrow> p\<lparr>op_intervals := removeAll i (op_intervals p), op_timer := None\<rparr>)"

definition onVisibility :: "overview_page \<Rightarrow> overview_page" where
  "onVisibility p = (if op_hidden p then stop_timer p else start_timer (refresh p))"

definition mount_effect :: "overview_page \<Rightarrow> overview_page" where
  "mount_effect p =
     (let p1 = refresh (p\<lparr>op_stopped := False\<rparr>); p2 = (if op_hidden p1 then p1 else start_timer p1)
      in p2\<lparr>op_listening := True\<rparr>)"

definition unmount_effect :: "overview_page \<Rightarrow> overview_page" where
  "unmount_effect p = (stop_timer (p\<lparr>op_stopped := True\<rparr>))\<lparr>op_listening := False\<rparr>"

definition tick :: "nat \<Rightarrow> overview_page \<Rightarrow> overview_page" where
  "tick i p = (if i \<in> set (op_intervals p) \<and> \<not> op_stopped p then refresh p else p)"

section \<open>The reset dialog\<close>

definition fmtInt :: "int \<Rightarrow> string" where
  "fmtInt n = (if n < 0 then ''-'' else []) @ group_digits (dec (nat (abs n)))"

definition reason_wanted_text :: string where
  "reason_wanted_text = bytes [232, 175, 183, 229, 161, 171, 229, 134, 153, 233, 135, 141, 231, 189, 174, 229, 142, 159,
     229, 155, 160]"

definition reset_failed_text :: string where
  "reset_failed_text = bytes [233, 135, 141, 231, 189, 174, 233, 162, 157, 229, 186, 166, 229, 164, 177, 232, 180, 165]"

definition reset_done_text :: "QuotaResetResponse \<Rightarrow> string" where
  "reset_done_text r =
     bytes [229, 183, 178, 233, 135, 141, 231, 189, 174] @ '' '' @ qr_period r @ '' '' @
     bytes [230, 156, 136, 233, 162, 157, 229, 186, 166, 239, 188, 136] @ fmtInt (qr_resetInstalls r) @ '' '' @
     bytes [228, 184, 170] @ '' install '' @
     bytes [230, 156, 137, 229, 183, 178, 231, 148, 168, 230, 172, 161, 230, 149, 176, 239, 188, 137]"

text \<open>The button is on the page once there is data; it is disabled while a reservation is open and takes no click
  while it is loading.\<close>

definition open_reset :: "overview_page \<Rightarrow> overview_page" where
  "open_reset p =
     (case op_data p of
        None \<Rightarrow> p
      | Some v \<Rightarrow> if ov_openReservations v > 0 \<or> op_resetting p then p else p\<lparr>op_dialog := Some []\<rparr>)"

definition type_reset_reason :: "string \<Rightarrow> overview_page \<Rightarrow> overview_page" where
  "type_reset_reason s p = (if op_dialog p \<noteq> None \<and> utf16_length s \<le> 256 then p\<lparr>op_dialog := Some s\<rparr> else p)"

definition cancel_reset :: "overview_page \<Rightarrow> overview_page" where
  "cancel_reset p = p\<lparr>op_dialog := None\<rparr>"

text \<open>\<open>onOk\<close>: a rejected promise leaves the dialog open, and its button takes no click while the promise is
  pending.\<close>

definition confirm_reset :: "overview_page \<Rightarrow> overview_page" where
  "confirm_reset p =
     (case op_dialog p of
        None \<Rightarrow> p
      | Some reason \<Rightarrow>
          if op_reset p \<noteq> NoReset then p
          else if js_trim reason = [] then p\<lparr>op_toasts := op_toasts p @ [Warned reason_wanted_text]\<rparr>
          else p\<lparr>op_resetting := True, op_reset := Posting (js_trim reason)\<rparr>)"

text \<open>The post is answered: a success waits for a refresh, a failure is shown and ends the reset; reading a
  field of \<open>undefined\<close> is a failure of its own.\<close>

definition reset_answered :: "js_error + QuotaResetResponse option \<Rightarrow> overview_page \<Rightarrow> overview_page" where
  "reset_answered res p =
     (case res of
        Inr (Some r) \<Rightarrow> refresh (p\<lparr>op_toasts := op_toasts p @ [Succeeded (reset_done_text r)], op_reset := Refreshing\<rparr>)
      | Inl (ApiErr e) \<Rightarrow> p\<lparr>op_toasts := op_toasts p @ [Failed (err_message e)], op_resetting := False, op_reset := NoReset\<rparr>
      | _ \<Rightarrow> p\<lparr>op_toasts := op_toasts p @ [Failed reset_failed_text], op_resetting := False, op_reset := NoReset\<rparr>)"

text \<open>The refresh that follows a reset never throws, so its answer closes the dialog.\<close>

definition reset_refreshed :: "js_error + OverviewResponse option \<Rightarrow> overview_page \<Rightarrow> overview_page" where
  "reset_refreshed res p =
     (if op_reset p = Refreshing
      then (refreshed res p)\<lparr>op_resetting := False, op_reset := NoReset, op_dialog := None\<rparr> else p)"

section \<open>Runs\<close>

datatype overview_event =
    Mount | Unmount | Visibility bool | Tick nat | ClickRefresh | Refreshed "js_error + OverviewResponse option"
  | OpenReset | TypeReason string | CancelReset | ConfirmReset | ResetAnswered "js_error + QuotaResetResponse option"
  | ResetRefreshed "js_error + OverviewResponse option"

text \<open>The page is a new instance each time it is mounted: every hook starts over, and an answer to a request of an
  earlier instance finds nothing to change. The intervals the browser still runs are not the instance's, nor are
  their numbers.\<close>

definition fresh_instance :: "overview_page \<Rightarrow> overview_page" where
  "fresh_instance p = (new_overview (op_hidden p))\<lparr>op_intervals := op_intervals p, op_fresh := op_fresh p\<rparr>"

text \<open>React mounts a mounted page again only after its cleanup; the listener sees a change of visibility; an answer
  is one to a request under way, and the refresh that ends a reset has an answer of its own.\<close>

fun overview_step :: "overview_event \<Rightarrow> overview_page \<Rightarrow> overview_page" where
  "overview_step Mount p = (if op_listening p then p else mount_effect (fresh_instance p))"
| "overview_step Unmount p = (if op_listening p then unmount_effect p else p)"
| "overview_step (Visibility hid) p =
     (if hid = op_hidden p then p
      else let p1 = p\<lparr>op_hidden := hid\<rparr> in if op_listening p then onVisibility p1 else p1)"
| "overview_step (Tick i) p = tick i p"
| "overview_step ClickRefresh p = refresh p"
| "overview_step (Refreshed res) p =
     (if op_flights p > (if op_reset p = Refreshing then 1 else 0) then refreshed res p else p)"
| "overview_step OpenReset p = open_reset p"
| "overview_step (TypeReason s) p = type_reset_reason s p"
| "overview_step CancelReset p = cancel_reset p"
| "overview_step ConfirmReset p = confirm_reset p"
| "overview_step (ResetAnswered res) p = (case op_reset p of Posting _ \<Rightarrow> reset_answered res p | _ \<Rightarrow> p)"
| "overview_step (ResetRefreshed res) p = reset_refreshed res p"

definition overview_run :: "bool \<Rightarrow> overview_event list \<Rightarrow> overview_page" where
  "overview_run hid es = fold overview_step es (new_overview hid)"

text \<open>One interval runs, the one the ref names, while the page is mounted and visible; none otherwise.\<close>

definition polling_ok :: "overview_page \<Rightarrow> bool" where
  "polling_ok p \<longleftrightarrow>
     op_intervals p = (case op_timer p of None \<Rightarrow> [] | Some i \<Rightarrow> [i]) \<and>
     (op_timer p \<noteq> None \<longleftrightarrow> op_listening p \<and> \<not> op_hidden p) \<and> op_stopped p = (\<not> op_listening p)"

lemmas timer_defs = refresh_def start_timer_def stop_timer_def onVisibility_def mount_effect_def unmount_effect_def
  tick_def

lemma polling_frame:
  "polling_ok (refreshed res p) = polling_ok p" "polling_ok (open_reset p) = polling_ok p"
  "polling_ok (type_reset_reason s p) = polling_ok p" "polling_ok (confirm_reset p) = polling_ok p"
  "polling_ok (cancel_reset p) = polling_ok p"
  "polling_ok (reset_answered r p) = polling_ok p" "polling_ok (reset_refreshed res p) = polling_ok p"
  by (auto simp: polling_ok_def refreshed_def open_reset_def type_reset_reason_def confirm_reset_def
      cancel_reset_def reset_answered_def reset_refreshed_def refresh_def Let_def split: option.split sum.split js_error.split)

lemma polling_step: "polling_ok p \<Longrightarrow> polling_ok (overview_step e p)"
proof (cases e)
  case (Visibility hid)
  then show "polling_ok p \<Longrightarrow> ?thesis"
    by (cases "op_timer p") (auto simp: polling_ok_def timer_defs Let_def)
next
  case Mount
  then show "polling_ok p \<Longrightarrow> ?thesis"
    by (cases "op_timer p") (auto simp: polling_ok_def timer_defs fresh_instance_def new_overview_def Let_def)
next
  case Unmount
  then show "polling_ok p \<Longrightarrow> ?thesis"
    by (cases "op_timer p") (auto simp: polling_ok_def timer_defs Let_def)
next
  case (Tick i)
  then show "polling_ok p \<Longrightarrow> ?thesis" by (auto simp: polling_ok_def timer_defs)
next
  case ClickRefresh
  then show "polling_ok p \<Longrightarrow> ?thesis" by (auto simp: polling_ok_def timer_defs)
qed (simp_all add: polling_frame split: reset_phase.split)

lemma polling_run: "polling_ok (overview_run hid es)"
proof -
  have "polling_ok (new_overview hid)" by (simp add: polling_ok_def new_overview_def)
  then show ?thesis unfolding overview_run_def
    by (induction es rule: rev_induct) (simp_all add: polling_step)
qed

text \<open>Polling pauses with the tab and never leaks a timer. After any events, in any order, exactly one interval runs
  while the page is mounted and visible and none otherwise; so a hidden or unmounted page sends nothing on
  its own, and a mounted page that becomes visible sends a request at once.\<close>

theorem polling_follows_visibility:
  "let p = overview_run hid es in
     length (op_intervals p) = (if op_listening p \<and> \<not> op_hidden p then 1 else 0) \<and>
     op_flights (overview_step (Tick i) p) =
       op_flights p + (if op_listening p \<and> \<not> op_hidden p \<and> op_timer p = Some i then 1 else 0) \<and>
     op_flights (overview_step (Visibility h) p) =
       op_flights p + (if op_listening p \<and> op_hidden p \<and> \<not> h then 1 else 0)"
proof -
  let ?p = "overview_run hid es"
  have "polling_ok ?p" by (rule polling_run)
  then show ?thesis
    by (cases "op_timer ?p") (auto simp: polling_ok_def timer_defs Let_def)
qed

section \<open>The reset under way\<close>

definition reset_ok :: "overview_page \<Rightarrow> bool" where
  "reset_ok p \<longleftrightarrow>
     op_resetting p = (op_reset p \<noteq> NoReset) \<and>
     (case op_reset p of NoReset \<Rightarrow> True | Posting why \<Rightarrow> why \<noteq> [] \<and> js_trim why = why | Refreshing \<Rightarrow> op_flights p > 0)"

lemma reset_step: "reset_ok p \<Longrightarrow> reset_ok (overview_step e p)"
proof (cases e)
  case (Refreshed res)
  then show "reset_ok p \<Longrightarrow> ?thesis"
    by (auto simp: reset_ok_def refreshed_def Let_def split: reset_phase.splits sum.splits option.splits)
next
  case (ResetAnswered res)
  then show "reset_ok p \<Longrightarrow> ?thesis"
    by (auto simp: reset_ok_def reset_answered_def refresh_def split: reset_phase.splits sum.splits option.splits js_error.splits)
next
  case (ResetRefreshed res)
  then show "reset_ok p \<Longrightarrow> ?thesis" by (auto simp: reset_ok_def reset_refreshed_def)
qed (auto simp: reset_ok_def open_reset_def type_reset_reason_def confirm_reset_def cancel_reset_def timer_defs
    fresh_instance_def new_overview_def Let_def
    split: option.splits reset_phase.splits)

lemma reset_run: "reset_ok (overview_run hid es)"
proof -
  have "reset_ok (new_overview hid)" by (simp add: reset_ok_def new_overview_def)
  then show ?thesis unfolding overview_run_def
    by (induction es rule: rev_induct) (simp_all add: reset_step)
qed

text \<open>C20. A reset always ends, and an instance of the page has one at a time. After any events, of the instance on
  screen: the reset button spins exactly while a reset is under way; what is posted is a reason, trimmed and not
  empty; no second reset can be opened or confirmed meanwhile; and the answer to the post and, if it succeeded,
  the answer to the refresh that follows end it, whatever they are.\<close>

theorem reset_always_ends:
  "let p = overview_run hid es in
     op_resetting p = (op_reset p \<noteq> NoReset) \<and>
     (case op_reset p of NoReset \<Rightarrow> True | Posting why \<Rightarrow> why \<noteq> [] \<and> js_trim why = why | Refreshing \<Rightarrow> op_flights p > 0) \<and>
     (if op_resetting p then overview_step OpenReset p = p \<and> overview_step ConfirmReset p = p else True) \<and>
     op_reset (overview_step (ResetRefreshed res) (overview_step (ResetAnswered ans) p)) = NoReset \<and>
     \<not> op_resetting (overview_step (ResetRefreshed res) (overview_step (ResetAnswered ans) p))"
proof -
  let ?p = "overview_run hid es"
  have ok: "reset_ok ?p" by (rule reset_run)
  let ?q = "overview_step (ResetAnswered ans) ?p"
  have "op_reset ?q = NoReset \<or> op_reset ?q = Refreshing"
    by (cases "op_reset ?p") (auto simp: reset_answered_def refresh_def split: sum.split option.split js_error.split)
  then have n: "op_reset (overview_step (ResetRefreshed res) ?q) = NoReset" by (auto simp: reset_refreshed_def)
  have "reset_ok (overview_step (ResetRefreshed res) ?q)" by (intro reset_step ok)
  with n have "\<not> op_resetting (overview_step (ResetRefreshed res) ?q)" by (simp add: reset_ok_def del: overview_step.simps)
  moreover have "op_resetting ?p \<Longrightarrow> overview_step OpenReset ?p = ?p \<and> overview_step ConfirmReset ?p = ?p"
    using ok by (auto simp: reset_ok_def open_reset_def confirm_reset_def split: option.split)
  ultimately show ?thesis using ok n by (simp add: reset_ok_def Let_def del: overview_step.simps)
qed

section \<open>Rendering\<close>

definition REFRESH_MS :: int where "REFRESH_MS = 10000"

definition severityColor :: "string \<Rightarrow> string" where
  "severityColor sev = (if sev = ''critical'' then ''red'' else if sev = ''warning'' then ''orange'' else ''blue'')"

text \<open>\<open>x.toFixed(k)\<close> of a number that is not negative: the nearest multiple, the larger of two.\<close>

definition toFixed :: "nat \<Rightarrow> rat \<Rightarrow> string" where
  "toFixed k x =
     (let n = nat (floor (x * 10 ^ k + 1 / 2))
      in dec (n div 10 ^ k) @ (if k = 0 then [] else ''.'' @ pad k (dec (n mod 10 ^ k))))"

definition configured_tag :: string where "configured_tag = bytes [229, 183, 178, 233, 133, 141, 231, 189, 174]"
definition not_configured_tag :: string where "not_configured_tag = bytes [230, 156, 170, 233, 133, 141, 231, 189, 174]"
definition degraded_tag :: string where
  "degraded_tag = ''DEGRADED'' @ bytes [239, 188, 136, 229, 143, 170, 232, 175, 187, 233, 153, 141, 231, 186, 167, 239, 188, 137]"
definition firing_tag :: string where "firing_tag = bytes [232, 167, 166, 229, 143, 145, 228, 184, 173]"
definition calm_tag :: string where "calm_tag = bytes [230, 173, 163, 229, 184, 184]"
definition last_fired_label :: string where
  "last_fired_label = bytes [230, 156, 128, 232, 191, 145, 232, 167, 166, 229, 143, 145] @ '' ''"
definition no_cap_text :: string where "no_cap_text = ''/ '' @ bytes [230, 151, 160, 228, 184, 138, 233, 153, 144]"

definition ProviderCard :: "ProviderStatus \<Rightarrow> cell list" where
  "ProviderCard st =
     [if pr_configured st then Tag (Some ''green'') configured_tag else Tag None not_configured_tag,
      if \<not> pr_configured st then Tag None ''BREAKER N/A''
      else if pr_breakerOpen st then Tag (Some ''red'') ''BREAKER OPEN''
      else Tag (Some ''green'') ''BREAKER CLOSED'']"

definition budgetPct :: "OverviewResponse \<Rightarrow> rat" where
  "budgetPct v =
     (if bu_limitMicroUsd v > 0 then min 100 (of_int (bu_usedMicroUsd v) / of_int (bu_limitMicroUsd v) * 100) else 0)"

datatype bar_status = BarException | BarActive | BarNormal

definition budget_bar :: "OverviewResponse \<Rightarrow> bar_status" where
  "budget_bar v = (if budgetPct v \<ge> 95 then BarException else if budgetPct v \<ge> 80 then BarActive else BarNormal)"

text \<open>One line of the alert card: its tag, reason, message, and the time it last fired when there is one.\<close>

record alert_row =
  ar_tag :: cell
  ar_reason :: string
  ar_message :: string
  ar_last :: "string option"

definition alert_row_of :: "(string \<Rightarrow> string) \<Rightarrow> AlertState \<Rightarrow> alert_row" where
  "alert_row_of date a =
     \<lparr>ar_tag = (if al_firing a then Tag (Some (severityColor (al_severity a))) firing_tag else Tag None calm_tag),
      ar_reason = al_reason a, ar_message = al_message a,
      ar_last = (case al_lastFiredAt a of Some (c # cs) \<Rightarrow> Some (last_fired_label @ date (c # cs)) | _ \<Rightarrow> None)\<rparr>"

record overview_body =
  vb_day :: string
  vb_used :: string
  vb_remaining :: string
  vb_limit :: string
  vb_percent :: rat
  vb_bar :: bar_status
  vb_reset_loading :: bool
  vb_reset_disabled :: bool
  vb_waiting :: "string option"
  vb_inflight :: int
  vb_open :: int
  vb_installs :: "int \<times> string"
  vb_qps :: "string \<times> string"
  vb_provider :: "cell list"
  vb_disk :: cell
  vb_alert_counts :: "nat \<times> nat"
  vb_alerts :: "alert_row list"

definition body_of :: "(string \<Rightarrow> string) \<Rightarrow> bool \<Rightarrow> OverviewResponse \<Rightarrow> overview_body" where
  "body_of date resetting v =
     (let alerts = listed (ov_alerts v); firing = filter al_firing alerts in
      \<lparr>vb_day = bu_day v, vb_used = formatMicroUsd (bu_usedMicroUsd v),
       vb_remaining = formatMicroUsd (bu_remainingMicroUsd v), vb_limit = formatMicroUsd (bu_limitMicroUsd v),
       vb_percent = of_int (floor (budgetPct v * 10 + 1 / 2)) / 10, vb_bar = budget_bar v,
       vb_reset_loading = resetting, vb_reset_disabled = (ov_openReservations v > 0),
       vb_waiting = (if ov_openReservations v > 0 then Some (fmtInt (ov_openReservations v)) else None),
       vb_inflight = ov_inflightConcurrency v, vb_open = ov_openReservations v,
       vb_installs = (ov_installsToday v,
         if ov_installGlobalCap v > 0 then ''/ '' @ fmtInt (ov_installGlobalCap v) else no_cap_text),
       vb_qps = (toFixed 2 (ra_qps (ov_recent v)),
         if ra_windowSec (ov_recent v) > 0 then ''('' @ toFixed 0 (ra_windowSec (ov_recent v)) @ ''s)'' else []),
       vb_provider = ProviderCard (ov_qwen v),
       vb_disk = (if ov_diskDegraded v then Tag (Some ''red'') degraded_tag else Tag (Some ''green'') ''OK''),
       vb_alert_counts = (length firing, length alerts), vb_alerts = map (alert_row_of date) alerts\<rparr>)"

text \<open>A spinner until the first answer; then the error banner and, when there is data, the body.\<close>

datatype overview_view = Spinner | Page "string option" "overview_body option"

definition Overview_view :: "(string \<Rightarrow> string) \<Rightarrow> overview_page \<Rightarrow> overview_view" where
  "Overview_view date p =
     (if op_loading p \<and> op_data p = None then Spinner
      else Page (case op_error p of Some (c # cs) \<Rightarrow> Some (c # cs) | _ \<Rightarrow> None)
        (map_option (body_of date (op_resetting p)) (op_data p)))"

section \<open>The overview, end to end\<close>

definition overview_answers :: "(int \<times> int \<Rightarrow> string) \<Rightarrow> (http_call \<Rightarrow> fetched) \<Rightarrow> js_error + OverviewResponse option" where
  "overview_answers shw send =
     (case getOverview shw send of Inl e \<Rightarrow> Inl e | Inr None \<Rightarrow> Inr None | Inr (Some j) \<Rightarrow> Inr (read_overview j))"

definition backend_overview :: "'c served \<Rightarrow> 'c dash \<Rightarrow> overview" where
  "backend_overview v d =
     fst (Overview (srv_config v) (srv_provider v) (srv_disk v) (srv_loc v) (srv_now v) d)"

lemma overview_answered:
  "overview_answers shw (\<lambda>c. fst (Serve v c d)) = Inr (Some (overview_view (srv_time v) (backend_overview v d)))"
  by (simp add: overview_answers_def getOverview_def request_def serve_defs cut_path client_sees_def WriteJSON_def
      read_overview_json backend_overview_def Let_def split: prod.split)

lemma backend_overview_facts:
  "UsedMicroUSD (backend_overview v d) =
     go_div (spend_at (global_spend_monthly (ledger d)) (FormatMonth (srv_loc v) (srv_now v))) PicoUSDPerMicroUSD"
  "LimitMicroUSD (backend_overview v d) = go_div (SpendLimit (srv_config v) (conf d)) PicoUSDPerMicroUSD"
  "RemainingMicroUSD (backend_overview v d) = max 0 (wrap64 (LimitMicroUSD (backend_overview v d) - UsedMicroUSD (backend_overview v d)))"
  "ov_OpenReservations (backend_overview v d) = int (OpenReservations (ledger d))"
  "Alerts (backend_overview v d) = CurrentStatus (alerts d)"
  by (simp_all add: backend_overview_def Overview_def GlobalBudget_def max_def Let_def split_beta)

lemma body_of_facts:
  "vb_used (body_of date r (overview_view tm b)) = formatMicroUsd (js_int (UsedMicroUSD b))"
  "vb_limit (body_of date r (overview_view tm b)) = formatMicroUsd (js_int (LimitMicroUSD b))"
  "vb_remaining (body_of date r (overview_view tm b)) = formatMicroUsd (js_int (RemainingMicroUSD b))"
  "vb_reset_disabled (body_of date r (overview_view tm b)) = (ov_OpenReservations b > 0)"
  "map ar_reason (vb_alerts (body_of date r (overview_view tm b))) = map alert_Reason (Alerts b)"
  by (simp_all add: body_of_def overview_view_def listed_def alert_row_of_def alert_view_def js_int_sign Let_def)

lemma percent_bound: "vb_percent (body_of date r w) \<le> 100"
proof -
  have "budgetPct w \<le> 100" by (simp add: budgetPct_def)
  then have "floor (budgetPct w * 10 + 1 / 2) \<le> 1000" by (simp add: floor_le_iff)
  then have "(of_int (floor (budgetPct w * 10 + 1 / 2)) :: rat) \<le> of_int 1000" by (simp only: of_int_le_iff)
  then show ?thesis by (simp add: body_of_def Let_def)
qed

text \<open>Any 64-bit amount of pico-dollars is, in micro-dollars, in the range of exact doubles and of exact printing.\<close>

lemma micro_small: "is_int64 n \<Longrightarrow> abs (go_div n PicoUSDPerMicroUSD) \<le> 2 ^ 44"
proof -
  assume "is_int64 n"
  then have "abs n \<le> 2 ^ 63" by (auto simp: is_int64_def MaxInt64_def MinInt64_def)
  then have "abs n div 1000000 \<le> 2 ^ 44" by (simp add: zdiv_mono1[of "abs n" "2 ^ 63" 1000000, simplified])
  then show ?thesis by (auto simp: go_div_def PicoUSDPerMicroUSD_def abs_mult sgn_if)
qed

lemma shown_amount:
  assumes "abs n \<le> 2 ^ 45"
  shows "read_usd (formatMicroUsd (js_int n)) = Some n"
  using assms by (simp add: js_int_exact money_reads)

text \<open>C7. What the overview page says is what the backend holds. After an answered refresh the page shows, in exact dollars,
  the monthly spend of the ledger, its limit, both 64-bit amounts, and what remains, never below zero; the bar is at most at
  100 percent; the reset button is disabled exactly while a reservation is open; and the alert card has the
  backend's alerts in their order.\<close>

theorem overview_shows_backend:
  assumes "is_int64 (spend_at (global_spend_monthly (ledger d)) (FormatMonth (srv_loc v) (srv_now v)))"
    and "is_int64 (SpendLimit (srv_config v) (conf d))"
  shows "\<exists>b. Overview_view date (refreshed (overview_answers shw (\<lambda>c. fst (Serve v c d))) p) = Page None (Some b) \<and>
    read_usd (vb_used b) = Some (go_div (spend_at (global_spend_monthly (ledger d)) (FormatMonth (srv_loc v) (srv_now v))) PicoUSDPerMicroUSD) \<and>
    read_usd (vb_limit b) = Some (go_div (SpendLimit (srv_config v) (conf d)) PicoUSDPerMicroUSD) \<and>
    read_usd (vb_remaining b) = Some (max 0 (go_div (SpendLimit (srv_config v) (conf d)) PicoUSDPerMicroUSD -
      go_div (spend_at (global_spend_monthly (ledger d)) (FormatMonth (srv_loc v) (srv_now v))) PicoUSDPerMicroUSD)) \<and>
    vb_percent b \<le> 100 \<and>
    vb_reset_disabled b = (OpenReservations (ledger d) > 0) \<and>
    map ar_reason (vb_alerts b) = map alert_Reason (CurrentStatus (alerts d))"
proof -
  let ?o = "backend_overview v d"
  let ?b = "body_of date (op_resetting p) (overview_view (srv_time v) ?o)"
  have page: "Overview_view date (refreshed (overview_answers shw (\<lambda>c. fst (Serve v c d))) p) = Page None (Some ?b)"
    by (simp add: overview_answered refreshed_def Overview_view_def Let_def)
  have u: "abs (UsedMicroUSD ?o) \<le> 2 ^ 44" and l: "abs (LimitMicroUSD ?o) \<le> 2 ^ 44"
    using micro_small[OF assms(1)] micro_small[OF assms(2)] by (simp_all add: backend_overview_facts)
  then have "is_int64 (LimitMicroUSD ?o - UsedMicroUSD ?o)" and lu: "abs (LimitMicroUSD ?o - UsedMicroUSD ?o) \<le> 2 ^ 45"
    by (auto simp: is_int64_def MaxInt64_def MinInt64_def)
  then have "RemainingMicroUSD ?o = max 0 (LimitMicroUSD ?o - UsedMicroUSD ?o)"
    by (simp only: backend_overview_facts(3) wrap64_id)
  moreover from this have "abs (RemainingMicroUSD ?o) \<le> 2 ^ 45" using lu by auto
  ultimately have "read_usd (vb_used ?b) = Some (UsedMicroUSD ?o)" "read_usd (vb_limit ?b) = Some (LimitMicroUSD ?o)"
    "read_usd (vb_remaining ?b) = Some (max 0 (LimitMicroUSD ?o - UsedMicroUSD ?o))"
    using u l by (simp_all add: body_of_facts shown_amount)
  with page show ?thesis
    by (intro exI[of _ ?b]) (simp add: body_of_facts(4,5) backend_overview_facts percent_bound)
qed

text \<open>The bar and the alerts agree. With the default warning fraction and a limit of whole micro-dollars, a bar that leaves its normal
  state has a budget alert firing on the exact amounts.\<close>

theorem budget_bar_agrees:
  assumes "BudgetWarnFraction th = 8 / 10" and "0 \<le> BudgetUsed s"
    and "BudgetLimit s = limit_micro * PicoUSDPerMicroUSD" and "0 \<le> limit_micro"
    and "bu_usedMicroUsd v = go_div (BudgetUsed s) PicoUSDPerMicroUSD" and "bu_limitMicroUsd v = go_div (BudgetLimit s) PicoUSDPerMicroUSD"
  shows "budget_bar v \<noteq> BarNormal \<longrightarrow> fires th s BudgetHigh \<or> fires th s BudgetExhausted"
proof
  assume "budget_bar v \<noteq> BarNormal"
  then have pct: "budgetPct v \<ge> 80" by (auto simp: budget_bar_def split: if_splits)
  then have l: "bu_limitMicroUsd v > 0" and "of_int (bu_usedMicroUsd v) / of_int (bu_limitMicroUsd v) * 100 \<ge> (80 :: rat)"
    by (auto simp: budgetPct_def split: if_splits)
  then have u: "of_int (bu_usedMicroUsd v) \<ge> (8 / 10 :: rat) * of_int (bu_limitMicroUsd v)" by (simp add: field_simps)
  have lm: "bu_limitMicroUsd v = limit_micro" using assms(3,4,6) by (simp add: go_div_def PicoUSDPerMicroUSD_def)
  have "bu_usedMicroUsd v * PicoUSDPerMicroUSD \<le> BudgetUsed s"
    using assms(2,5) by (simp add: go_div_def PicoUSDPerMicroUSD_def)
  then have "of_int (bu_usedMicroUsd v * PicoUSDPerMicroUSD) \<le> (of_int (BudgetUsed s) :: rat)" by (simp only: of_int_le_iff)
  then have "(8 / 10 :: rat) * of_int (BudgetLimit s) \<le> of_int (BudgetUsed s)"
    using u assms(3) lm by (simp add: PicoUSDPerMicroUSD_def)
  moreover have "BudgetLimit s > 0" using l lm assms(3) by (simp add: PicoUSDPerMicroUSD_def)
  ultimately have "8 / 10 \<le> of_int (BudgetUsed s) / (of_int (BudgetLimit s) :: rat)" and "BudgetLimit s > 0"
    by (simp_all add: le_divide_eq)
  then show "fires th s BudgetHigh \<or> fires th s BudgetExhausted"
    unfolding fires_def Let_def assms(1) by auto
qed

text \<open>A condition that never fired is shown with a time. The zero time is written as year one and not omitted, so the line of such an
  alert ends with the date of that instant as the time it last fired.\<close>

theorem never_fired_shows_time:
  "ar_last (alert_row_of date (alert_view tm (a\<lparr>LastFiredAt := None\<rparr>))) = Some (last_fired_label @ date ''0001-01-01T00:00:00Z'')"
  by (simp add: alert_row_of_def alert_view_def lastFiredAt_json_def)

section \<open>The reset dialog, end to end\<close>

definition reset_answers :: "(int \<times> int \<Rightarrow> string) \<Rightarrow> (http_call \<Rightarrow> fetched) \<Rightarrow> string \<Rightarrow> js_error + QuotaResetResponse option" where
  "reset_answers shw send why =
     (case resetAllMonthlyQuota shw send why of Inl e \<Rightarrow> Inl e | Inr None \<Rightarrow> Inr None | Inr (Some j) \<Rightarrow> Inr (read_reset j))"

definition reset_call :: "string \<Rightarrow> http_call" where
  "reset_call why = \<lparr>call_path = ''/api/quota/reset'', call_method = ''POST'',
     call_headers = [(''Content-Type'', ''application/json'')], call_body = Some (JObj [(''reason'', JStr why)])\<rparr>"

lemma reset_served:
  assumes "TrimSpace why \<noteq> []"
  shows "Serve v (reset_call why) d =
    (if OpenReservations (ledger d) \<noteq> 0 then (client_sees (WriteError (Api (sentinel_error ErrQuotaResetBusy))), d)
     else let m = FormatMonth (srv_loc v) (srv_now v);
              hit = (\<lambda>e. snd (fst e) = m \<and> snd e > (0 :: int64));
              q = (ledger d)\<lparr>quota_monthly := map (\<lambda>e. if hit e then (fst e, 0) else e) (quota_monthly (ledger d))\<rparr>
          in (client_sees (WriteJSON 200 (reset_body (m, length (filter hit (quota_monthly (ledger d)))))),
              RecordAudit (srv_now v) (audit_entry ''quota_reset'' m (take 256 (TrimSpace why)) ''ok'' actor) (d\<lparr>ledger := q\<rparr>)))"
proof -
  have dec: "decode_struct [''reason''] (Json (JObj [(''reason'', JStr why)])) = Some [(''reason'', why)]"
    by (simp add: decode_struct_def tput_def bytes_def lower_char_def)
  have f: "field ''reason'' [(''reason'', why)] = why" by (simp add: field_def tget_def)
  show ?thesis
    using assms by (simp add: serve_defs reset_call_def posted_def answer_with_def ResetAllMonthlyQuota_def dec f
        ResetAllMonthlyQuota_use_def ResetMonthlyRequests_def SnapshotPeriod_def MaxReasonChars_def WriteError_def Let_def)
qed

lemma reset_answered_by:
  "reset_answers shw (\<lambda>c. fst (Serve v c d)) why =
     (case fst (Serve v (reset_call why) d) of
        Unreachable \<Rightarrow> Inl (ApiErr \<lparr>err_status = 0, err_code = JStr ''NETWORK_ERROR'', err_message = network_error_text,
          err_details = None\<rparr>)
      | Answered st b \<Rightarrow>
          (case request shw (\<lambda>_. Answered st b) ''/api/quota/reset'' ''POST'' None of
             Inl e \<Rightarrow> Inl e | Inr None \<Rightarrow> Inr None | Inr (Some j) \<Rightarrow> Inr (read_reset j)))"
  by (simp add: reset_answers_def resetAllMonthlyQuota_def request_def reset_call_def split: fetched.split)

text \<open>C2. The quota reset, end to end. With a reason in the dialog and no reset under way: while a reservation is open the backend changes nothing and the dialog stays
  open with the backend's message; otherwise the request counters of the current month are zeroed
  and nothing else of the ledger changes, the page reports the month and how many installs had a count,
  refreshes, and closes the dialog once the refresh is answered.\<close>

theorem reset_dialog_resets:
  fixes v :: "'c served" and d :: "'c dash" and p :: overview_page and shw :: "int \<times> int \<Rightarrow> string"
  assumes "op_dialog p = Some s" and "TrimSpace (js_trim s) \<noteq> []" and "op_reset p = NoReset"
  defines "d' \<equiv> snd (Serve v (reset_call (js_trim s)) d)"
    and "q \<equiv> reset_answered (reset_answers shw (\<lambda>c. fst (Serve v c d)) (js_trim s)) (confirm_reset p)"
    and "m \<equiv> FormatMonth (srv_loc v) (srv_now v)"
  shows "if OpenReservations (ledger d) \<noteq> 0
    then d' = d \<and> op_dialog q = Some s \<and> \<not> op_resetting q \<and>
      op_toasts q = op_toasts p @ [Failed (Message (sentinel_error ErrQuotaResetBusy))]
    else ledger d' = (ledger d)\<lparr>quota_monthly := quota_monthly (ledger d')\<rparr> \<and>
      (\<forall>i k. count_at (quota_monthly (ledger d')) (i, k) =
        (if k = m then min 0 (count_at (quota_monthly (ledger d)) (i, k)) else count_at (quota_monthly (ledger d)) (i, k))) \<and>
      op_toasts q = op_toasts p @ [Succeeded (reset_done_text \<lparr>qr_period = m, qr_resetInstalls =
        js_int (int (length (filter (\<lambda>e. snd (fst e) = m \<and> snd e > 0) (quota_monthly (ledger d)))))\<rparr>)] \<and>
      op_flights q = op_flights p + 1 \<and> op_resetting q \<and>
      op_dialog (reset_refreshed res q) = None \<and> \<not> op_resetting (reset_refreshed res q)"
proof -
  let ?hit = "\<lambda>e. snd (fst e) = m \<and> snd e > (0 :: int64)"
  have ne: "js_trim s \<noteq> []" using assms(2) by (auto simp: TrimSpace_def trim_def)
  have c: "confirm_reset p = p\<lparr>op_resetting := True, op_reset := Posting (js_trim s)\<rparr>"
    using assms(1,3) ne by (simp add: confirm_reset_def)
  show ?thesis
  proof (cases "OpenReservations (ledger d) = 0")
    case False
    have "request shw (\<lambda>_. client_sees (WriteError (Api (sentinel_error ErrQuotaResetBusy)))) u h None =
        Inl (thrown (sentinel_error ErrQuotaResetBusy))" for u h
      unfolding WriteError_def go_error.case
      using sentinel_status[of ErrQuotaResetBusy] sentinel_texts[of ErrQuotaResetBusy] by (intro request_envelope) auto
    then have "reset_answers shw (\<lambda>c. fst (Serve v c d)) (js_trim s) = Inl (thrown (sentinel_error ErrQuotaResetBusy))"
      using False by (simp add: reset_answered_by reset_served[OF assms(2)] client_sees_def)
    then have "q = p\<lparr>op_toasts := op_toasts p @ [Failed (Message (sentinel_error ErrQuotaResetBusy))],
        op_resetting := False, op_reset := NoReset\<rparr>"
      by (simp add: q_def c reset_answered_def thrown_def)
    with False assms(1) show ?thesis by (simp add: d'_def reset_served[OF assms(2)])
  next
    case True
    let ?n = "length (filter ?hit (quota_monthly (ledger d)))"
    have S: "Serve v (reset_call (js_trim s)) d =
       (Answered 200 (Json (reset_body (m, ?n))),
        RecordAudit (srv_now v) (audit_entry ''quota_reset'' m (take 256 (TrimSpace (js_trim s))) ''ok'' actor)
         (d\<lparr>ledger := (ledger d)\<lparr>quota_monthly := map (\<lambda>e. if ?hit e then (fst e, 0) else e) (quota_monthly (ledger d))\<rparr>\<rparr>))"
      using True by (simp add: reset_served[OF assms(2)] m_def client_sees_def WriteJSON_def Let_def)
    have "reset_answers shw (\<lambda>c. fst (Serve v c d)) (js_trim s) = Inr (Some \<lparr>qr_period = m, qr_resetInstalls = js_int (int ?n)\<rparr>)"
      by (simp add: reset_answered_by S request_def read_reset_body reset_view_def)
    then have q: "q = refresh (p\<lparr>op_resetting := True, op_reset := Refreshing,
        op_toasts := op_toasts p @ [Succeeded (reset_done_text \<lparr>qr_period = m, qr_resetInstalls = js_int (int ?n)\<rparr>)]\<rparr>)"
      by (simp add: q_def c reset_answered_def refresh_def)
    have k: "count_at (map (\<lambda>e. if ?hit e then (fst e, 0) else e) t) (i, k) =
        (if k = m then min 0 (count_at t (i, k)) else count_at t (i, k))" for t i k
      by (cases "k = m"; cases "tget t (i, k)") (simp_all add: count_at_def tget_map_keys min_def)
    show ?thesis
      using True by (simp add: d'_def S q RecordAudit_def refresh_def reset_refreshed_def) (simp add: k)
  qed
qed

end
