(* ===== verification/Ui_Shell.thy ===== *)
theory Ui_Shell
  imports Ui_Overview
begin

text \<open>
  The frame of the single-page application (\<open>App.tsx\<close>): its menu and routes on the browser's history,
  the overview page it mounts and unmounts (\<open>pages/Overview.tsx\<close>), and the export page
  (\<open>pages/Export.tsx\<close>). The router is a library: the route it picks for a location is a parameter.
\<close>

section \<open>Menu and routes\<close>

datatype element = OverviewPage | InstallsPage | ConfigPage | AuditPage | ExportPage | NavigateReplace string

text \<open>Key and label.\<close>

definition NAV :: "(string \<times> string) list" where
  "NAV = [(''/overview'', bytes [230, 128, 187, 232, 167, 136]), (''/installs'', ''Installs''),
     (''/config'', bytes [233, 133, 141, 231, 189, 174]), (''/audit'', bytes [229, 174, 161, 232, 174, 161]),
     (''/export'', bytes [229, 175, 188, 229, 135, 186])]"

definition ROUTES :: "(string \<times> element) list" where
  "ROUTES = [(''/'', NavigateReplace ''/overview''), (''/overview'', OverviewPage), (''/installs'', InstallsPage),
     (''/config'', ConfigPage), (''/audit'', AuditPage), (''/export'', ExportPage),
     (''*'', NavigateReplace ''/overview'')]"

text \<open>The router's choice among the patterns of the routes. A location that is itself a pattern without
  parameters or splat is matched by it, and a splat matches every location.\<close>

type_synonym matcher = "string list \<Rightarrow> string \<Rightarrow> string option"

definition static_path :: "string \<Rightarrow> bool" where
  "static_path p \<longleftrightarrow> CHR ''*'' \<notin> set p \<and> CHR '':'' \<notin> set p \<and> CHR ''?'' \<notin> set p"

definition router_picks :: "matcher \<Rightarrow> bool" where
  "router_picks pick \<longleftrightarrow>
     (\<forall>ps loc. loc \<in> set ps \<and> static_path loc \<longrightarrow> pick ps loc = Some loc) \<and>
     (\<forall>ps loc. ''*'' \<in> set ps \<longrightarrow> (\<exists>p \<in> set ps. pick ps loc = Some p))"

definition element_at :: "matcher \<Rightarrow> string \<Rightarrow> element option" where
  "element_at pick loc = Option.bind (pick (map fst ROUTES) loc) (map_of ROUTES)"

section \<open>The browser's history and the mounted overview\<close>

text \<open>The history around the current location, nearest entries first, and the instance of the overview page
  mounted last; its intervals are the browser's.\<close>

record shell =
  behind :: "string list"
  here :: string
  ahead :: "string list"
  instance_of :: overview_page

definition overview_shown :: "matcher \<Rightarrow> shell \<Rightarrow> bool" where
  "overview_shown pick s \<longleftrightarrow> element_at pick (here s) = Some OverviewPage"

text \<open>A render after a change of location: the effects of an overview that appears or goes.\<close>

definition rendered :: "matcher \<Rightarrow> shell \<Rightarrow> shell" where
  "rendered pick s =
     (let p = instance_of s; on = overview_shown pick s in
      if on \<and> \<not> op_listening p then s\<lparr>instance_of := overview_step Mount p\<rparr>
      else if \<not> on \<and> op_listening p then s\<lparr>instance_of := overview_step Unmount p\<rparr>
      else s)"

text \<open>The location is rendered; a redirect replaces it, and the new one is rendered.\<close>

definition settle :: "matcher \<Rightarrow> shell \<Rightarrow> shell" where
  "settle pick s =
     (let s1 = rendered pick s in
      case element_at pick (here s1) of
        Some (NavigateReplace to) \<Rightarrow> rendered pick (s1\<lparr>here := to\<rparr>)
      | _ \<Rightarrow> s1)"

definition nav :: "string \<Rightarrow> shell \<Rightarrow> shell" where
  "nav to s = s\<lparr>behind := here s # behind s, here := to, ahead := []\<rparr>"

definition go_back :: "shell \<Rightarrow> shell" where
  "go_back s = (case behind s of [] \<Rightarrow> s | b # bs \<Rightarrow> s\<lparr>behind := bs, here := b, ahead := here s # ahead s\<rparr>)"

definition go_forward :: "shell \<Rightarrow> shell" where
  "go_forward s = (case ahead s of [] \<Rightarrow> s | b # bs \<Rightarrow> s\<lparr>behind := here s # behind s, here := b, ahead := bs\<rparr>)"

text \<open>A click on an item of the menu navigates to its key; an address typed after the hash is a new entry of the
  history. An event of the overview reaches a mounted instance only, but for its timers and the visibility
  of the tab.\<close>

datatype shell_event = Click "string \<times> string" | Address string | Back | Forward | PageEvent overview_event

definition page_event :: "overview_event \<Rightarrow> shell \<Rightarrow> shell" where
  "page_event e s =
     (case e of
        Mount \<Rightarrow> s
      | Unmount \<Rightarrow> s
      | _ \<Rightarrow>
         if op_listening (instance_of s) \<or> (case e of Tick _ \<Rightarrow> True | Visibility _ \<Rightarrow> True | _ \<Rightarrow> False)
         then s\<lparr>instance_of := overview_step e (instance_of s)\<rparr> else s)"

fun shell_step :: "matcher \<Rightarrow> shell_event \<Rightarrow> shell \<Rightarrow> shell" where
  "shell_step pick (Click item) s = (if item \<in> set NAV then settle pick (nav (fst item) s) else s)"
| "shell_step pick (Address loc) s = settle pick (nav loc s)"
| "shell_step pick Back s = settle pick (go_back s)"
| "shell_step pick Forward s = settle pick (go_forward s)"
| "shell_step pick (PageEvent e) s = page_event e s"

definition open_shell :: "matcher \<Rightarrow> bool \<Rightarrow> string \<Rightarrow> shell" where
  "open_shell pick hid loc = settle pick \<lparr>behind = [], here = loc, ahead = [], instance_of = new_overview hid\<rparr>"

definition shell_run :: "matcher \<Rightarrow> bool \<Rightarrow> string \<Rightarrow> shell_event list \<Rightarrow> shell" where
  "shell_run pick hid loc es = fold (shell_step pick) es (open_shell pick hid loc)"

text \<open>The menu highlights the item whose key is the location.\<close>

definition selectedKeys :: "shell \<Rightarrow> string list" where
  "selectedKeys s = [here s]"

section \<open>Invariant\<close>

definition page_at :: "matcher \<Rightarrow> string \<Rightarrow> bool" where
  "page_at pick loc \<longleftrightarrow> (case element_at pick loc of None \<Rightarrow> False | Some (NavigateReplace _) \<Rightarrow> False | Some _ \<Rightarrow> True)"

definition shell_ok :: "matcher \<Rightarrow> shell \<Rightarrow> bool" where
  "shell_ok pick s \<longleftrightarrow>
     (\<forall>x \<in> set (behind s) \<union> {here s} \<union> set (ahead s). page_at pick x) \<and>
     polling_ok (instance_of s) \<and> op_listening (instance_of s) = overview_shown pick s"

lemma nav_routes:
  assumes "router_picks pick" and "(k, l) \<in> set NAV"
  shows "element_at pick k = map_of ROUTES k" "page_at pick k"
proof -
  have "k \<in> set (map fst ROUTES) \<and> static_path k"
    using assms(2) by (auto simp: NAV_def ROUTES_def static_path_def)
  then show e: "element_at pick k = map_of ROUTES k"
    using assms(1) by (simp add: element_at_def router_picks_def)
  show "page_at pick k" using assms(2) by (auto simp: page_at_def e NAV_def ROUTES_def)
qed

lemma element_total:
  assumes "router_picks pick"
  obtains e where "element_at pick loc = Some e" "e \<in> set (map snd ROUTES)"
proof -
  have "''*'' \<in> set (map fst ROUTES)" by (simp add: ROUTES_def)
  with assms obtain p where p: "p \<in> set (map fst ROUTES)" "pick (map fst ROUTES) loc = Some p"
    unfolding router_picks_def by blast
  then obtain e where "map_of ROUTES p = Some e" using map_of_eq_None_iff[of ROUTES p] by fastforce
  with p(2) show ?thesis using map_of_SomeD[of ROUTES p e] by (intro that[of e]) (auto simp: element_at_def image_iff intro: bexI[of _ "(p, e)"])
qed

lemma redirect_target: "NavigateReplace to \<in> set (map snd ROUTES) \<Longrightarrow> to = ''/overview''"
  by (simp add: ROUTES_def)

lemma overview_routed: "router_picks pick \<Longrightarrow> element_at pick ''/overview'' = Some OverviewPage"
  using nav_routes(1)[of pick "''/overview''"] by (simp add: NAV_def ROUTES_def)

lemma rendered_frame [simp]:
  "behind (rendered pick s) = behind s" "here (rendered pick s) = here s" "ahead (rendered pick s) = ahead s"
  by (simp_all add: rendered_def Let_def)

lemma listening_step:
  "op_listening (overview_step Mount p)" "\<not> op_listening (overview_step Unmount p)"
  by (simp_all add: mount_effect_def unmount_effect_def Let_def)

lemma rendered_ok:
  assumes "polling_ok (instance_of s)"
  shows "polling_ok (instance_of (rendered pick s))"
    "op_listening (instance_of (rendered pick s)) = overview_shown pick (rendered pick s)"
proof -
  show "polling_ok (instance_of (rendered pick s))"
    using assms by (simp add: rendered_def Let_def polling_step del: overview_step.simps)
  have "overview_shown pick (rendered pick s) = overview_shown pick s" by (simp add: overview_shown_def)
  then show "op_listening (instance_of (rendered pick s)) = overview_shown pick (rendered pick s)"
    by (simp add: rendered_def Let_def listening_step del: overview_step.simps)
qed

text \<open>Where a location settles: at itself, or at the overview.\<close>

lemma settle_spec:
  assumes "router_picks pick" and "polling_ok (instance_of s)"
    and "\<forall>x \<in> set (behind s) \<union> set (ahead s). page_at pick x"
  shows "shell_ok pick (settle pick s)" "behind (settle pick s) = behind s" "ahead (settle pick s) = ahead s"
    "here (settle pick s) = (if page_at pick (here s) then here s else ''/overview'')"
proof -
  obtain e where e: "element_at pick (here s) = Some e" "e \<in> set (map snd ROUTES)"
    by (rule element_total[OF assms(1)])
  let ?t = "if page_at pick (here s) then rendered pick s else rendered pick ((rendered pick s)\<lparr>here := ''/overview''\<rparr>)"
  have t: "settle pick s = ?t"
    using e by (cases e) (auto simp: settle_def page_at_def Let_def simp del: set_map dest: redirect_target)
  have p: "page_at pick ''/overview''" using overview_routed[OF assms(1)] by (simp add: page_at_def)
  have 1: "polling_ok (instance_of (rendered pick s))" by (rule rendered_ok(1)[OF assms(2)])
  then have 2: "polling_ok (instance_of ((rendered pick s)\<lparr>here := ''/overview''\<rparr>))" by simp
  show "shell_ok pick (settle pick s)"
    using assms(3) p rendered_ok[OF assms(2)] rendered_ok[OF 2] unfolding t shell_ok_def by auto
  show "behind (settle pick s) = behind s" "ahead (settle pick s) = ahead s"
    "here (settle pick s) = (if page_at pick (here s) then here s else ''/overview'')"
    by (simp_all add: t)
qed

lemma overview_keeps_listening:
  assumes "e \<noteq> Mount" "e \<noteq> Unmount"
  shows "op_listening (overview_step e p) = op_listening p"
  using assms
  by (cases e) (auto simp: timer_defs refreshed_def open_reset_def type_reset_reason_def confirm_reset_def
      cancel_reset_def reset_answered_def reset_refreshed_def Let_def split: option.split sum.split js_error.split reset_phase.split)

lemma page_event_ok: "shell_ok pick s \<Longrightarrow> shell_ok pick (page_event e s)"
proof -
  assume ok: "shell_ok pick s"
  have "shell_ok pick (s\<lparr>instance_of := overview_step e (instance_of s)\<rparr>)" if "e \<noteq> Mount" "e \<noteq> Unmount"
    using ok overview_keeps_listening[OF that] polling_step[of "instance_of s" e]
    by (auto simp: shell_ok_def overview_shown_def simp del: overview_step.simps)
  with ok show "shell_ok pick (page_event e s)"
    by (cases e) (simp_all add: page_event_def del: overview_step.simps)
qed

lemma shell_step_ok:
  assumes "router_picks pick" "shell_ok pick s"
  shows "shell_ok pick (shell_step pick e s)"
proof -
  have pages: "\<forall>x \<in> set (behind s) \<union> {here s} \<union> set (ahead s). page_at pick x" and poll: "polling_ok (instance_of s)"
    using assms(2) by (auto simp: shell_ok_def)
  show ?thesis
  proof (cases e)
    case Back
    then show ?thesis
      using pages poll by (cases "behind s") (auto simp: go_back_def intro!: settle_spec(1)[OF assms(1)])
  next
    case Forward
    then show ?thesis
      using pages poll by (cases "ahead s") (auto simp: go_forward_def intro!: settle_spec(1)[OF assms(1)])
  qed (use pages poll assms in \<open>auto simp: nav_def page_event_ok intro!: settle_spec(1)\<close>)
qed

lemma shell_run_ok:
  assumes "router_picks pick"
  shows "shell_ok pick (shell_run pick hid loc es)"
proof -
  have "polling_ok (new_overview hid)" by (simp add: polling_ok_def new_overview_def)
  then have "shell_ok pick (open_shell pick hid loc)"
    unfolding open_shell_def by (intro settle_spec(1)[OF assms]) simp_all
  then show ?thesis unfolding shell_run_def
    by (induction es rule: rev_induct) (simp_all add: shell_step_ok[OF assms])
qed

section \<open>Properties\<close>

text \<open>C17. The menu works from everywhere. Wherever the application was opened and whatever happened since, a click on
  an item of the menu shows the page routed under its key and highlights that item, and Back returns to the
  location before the click, so no entry of the history is a redirect.\<close>

theorem menu_reaches_every_page:
  assumes "router_picks pick" and "(k, l) \<in> set NAV"
  shows "let s = shell_run pick hid loc es; t = shell_step pick (Click (k, l)) s; u = shell_step pick Back t in
    element_at pick (here t) = map_of ROUTES k \<and> page_at pick (here t) \<and> selectedKeys t = [k] \<and>
    here u = here s \<and> behind u = behind s \<and> ahead u = [k]"
proof -
  let ?s = "shell_run pick hid loc es"
  have ok: "shell_ok pick ?s" by (rule shell_run_ok[OF assms(1)])
  let ?t = "shell_step pick (Click (k, l)) ?s"
  have t: "behind ?t = here ?s # behind ?s" "here ?t = k" "ahead ?t = []"
    using ok assms(2) nav_routes(2)[OF assms] settle_spec[OF assms(1), of "nav k ?s"]
    by (auto simp: nav_def shell_ok_def)
  have okt: "shell_ok pick ?t" by (rule shell_step_ok[OF assms(1) ok])
  have u: "here (shell_step pick Back ?t) = here ?s" "behind (shell_step pick Back ?t) = behind ?s"
    "ahead (shell_step pick Back ?t) = [k]"
    using ok okt t settle_spec[OF assms(1), of "go_back ?t"]
    by (auto simp: go_back_def shell_ok_def simp del: shell_step.simps(1))
  show ?thesis
    unfolding Let_def using t u nav_routes[OF assms] by (simp add: selectedKeys_def del: shell_step.simps)
qed

text \<open>C4. Only the page on screen polls. Through any navigation, redirects and events of the overview, the browser
  runs one interval while the overview is the page on screen in a visible tab, and none otherwise.\<close>

theorem only_overview_polls:
  assumes "router_picks pick"
  shows "let s = shell_run pick hid loc es in
    page_at pick (here s) \<and>
    length (op_intervals (instance_of s)) = (if overview_shown pick s \<and> \<not> op_hidden (instance_of s) then 1 else 0)"
proof -
  let ?s = "shell_run pick hid loc es"
  have "shell_ok pick ?s" by (rule shell_run_ok[OF assms])
  then show ?thesis
    by (cases "op_timer (instance_of ?s)") (auto simp: shell_ok_def polling_ok_def Let_def)
qed

section \<open>The entry point\<close>

text \<open>\<open>main.tsx\<close> mounts the frame under the hash router: a library, which reads the location from the part of the
  address after the hash. The browser requests the part before it.\<close>

definition hash_router :: "(string \<Rightarrow> string) \<Rightarrow> bool" where
  "hash_router locate \<longleftrightarrow>
     (\<forall>base rest. CHR ''#'' \<notin> set base \<longrightarrow> locate (base @ ''#/'' @ rest) = CHR ''/'' # rest)"

definition main_view :: "(string \<Rightarrow> string) \<Rightarrow> matcher \<Rightarrow> bool \<Rightarrow> string \<Rightarrow> shell" where
  "main_view locate pick hid url = open_shell pick hid (locate url)"

definition page_request :: "string \<Rightarrow> http_call" where
  "page_request url = \<lparr>call_path = fst (cut (CHR ''#'') url), call_method = ''GET'', call_headers = [], call_body = None\<rparr>"

text \<open>Every page can be reloaded and bookmarked. The address of a page under any document path outside the API is
  answered with the application, with nothing changed, and the application opened at that address shows
  that page and highlights its item.\<close>

theorem reload_keeps_page:
  assumes "router_picks pick" and "hash_router locate" and "(k, l) \<in> set NAV"
    and "CHR ''#'' \<notin> set base" and "CHR ''?'' \<notin> set base" and "\<not> is_prefix ''/api/'' base" and "base \<noteq> ''/healthz''"
  shows "Serve v (page_request (base @ ''#'' @ k)) d = (Answered 200 NotJson, d) \<and>
    (let s = main_view locate pick hid (base @ ''#'' @ k) in
       selectedKeys s = [k] \<and> element_at pick (here s) = map_of ROUTES k \<and> page_at pick (here s))"
proof -
  obtain rest where k: "k = CHR ''/'' # rest" using assms(3) by (auto simp: NAV_def)
  then have loc: "locate (base @ ''#'' @ k) = k" using assms(2,4) by (simp add: hash_router_def)
  have "here (main_view locate pick hid (base @ ''#'' @ k)) = k"
    unfolding main_view_def loc open_shell_def
    using nav_routes(2)[OF assms(1,3)]
    by (subst settle_spec(4)[OF assms(1)]) (simp_all add: polling_ok_def new_overview_def)
  moreover have "base \<noteq> ''/api/'' @ t" for t using assms(6) by (auto simp: is_prefix_def)
  then have "base \<noteq> ''/api/overview'' \<and> base \<noteq> ''/api/config'' \<and> base \<noteq> ''/api/installs'' \<and> base \<noteq> ''/api/audit'' \<and>
      base \<noteq> ''/api/export''"
    by (metis append_Cons append_Nil)
  then have "Serve v (page_request (base @ ''#'' @ k)) d = (Answered 200 NotJson, d)"
    using assms(6,7) cut_path[OF assms(5)] cut_append[OF assms(4), of k] by (simp add: serve_defs page_request_def Let_def)
  ultimately show ?thesis using nav_routes[OF assms(1,3)] by (simp add: selectedKeys_def Let_def)
qed

section \<open>The export page\<close>

record export_page =
  ex_clicked :: bool
  ex_body :: "string list"
  ex_requests :: "string list"

definition new_export :: export_page where
  "new_export = \<lparr>ex_clicked = False, ex_body = [], ex_requests = []\<rparr>"

text \<open>An anchor on the export address is attached to the body, clicked and detached: \<open>href\<close> of the
  anchor, or of the anchors, attached now.\<close>

definition onDownload :: "export_page \<Rightarrow> export_page" where
  "onDownload p =
     (let p1 = p\<lparr>ex_body := ex_body p @ [exportUrl]\<rparr>;
          p2 = p1\<lparr>ex_requests := ex_requests p1 @ [last (ex_body p1)]\<rparr>;
          p3 = p2\<lparr>ex_body := butlast (ex_body p2)\<rparr>
      in p3\<lparr>ex_clicked := True\<rparr>)"

definition export_hint :: string where
  "export_hint = bytes [229, 183, 178, 232, 167, 166, 229, 143, 145, 228, 184, 139, 232, 189, 189, 227, 128, 130,
     230, 150, 135, 228, 187, 182, 229, 144, 141, 229, 189, 162, 229, 166, 130] @ '' anselm-gateway-<'' @
     bytes [230, 151, 182, 233, 151, 180, 230, 136, 179] @ ''>.db'' @
     bytes [239, 188, 155, 232, 139, 165, 230, 181, 143, 232, 167, 136, 229, 153, 168, 230, 156, 170, 229, 188, 185,
       229, 135, 186, 228, 191, 157, 229, 173, 152, 230, 161, 134, 239, 188, 140, 232, 175, 183, 230, 163, 128, 230,
       159, 165, 229, 188, 185, 231, 170, 151, 47, 228, 184, 139, 232, 189, 189, 230, 139, 166, 230, 136, 170, 227,
       128, 130]"

definition Export_view :: "export_page \<Rightarrow> string option" where
  "Export_view p = (if ex_clicked p then Some export_hint else None)"

text \<open>What the browser does with the answer to the click: an attachment is saved under the name it suggests and
  the page stays; any other answer, as the anchor has no \<open>download\<close> attribute, replaces the page.\<close>

datatype outcome_of_click = Saved string | PageReplaced "string \<times> string"

definition click_answered :: "api_error + string \<Rightarrow> outcome_of_click" where
  "click_answered a = (case a of Inr f \<Rightarrow> Saved f | Inl e \<Rightarrow> PageReplaced (Code e, Message e))"

text \<open>The export page keeps its promise when the backend streams. Each click sends one request to the export
  route and leaves the document as it was; a streamed answer is saved under a name of the form the page
  announces, \<open>anselm-gateway-...\<close> with the suffix \<open>.db\<close>, and the page then shows its hint; a failed
  snapshot instead replaces the application with the text of the error.\<close>

theorem export_page_saves:
  fixes d :: "'c dash"
  shows "ex_requests ((onDownload ^^ n) new_export) = replicate n ''/api/export'' \<and>
    ex_body ((onDownload ^^ n) new_export) = [] \<and>
    (Export_view ((onDownload ^^ n) new_export) = Some export_hint \<longleftrightarrow> n > 0) \<and>
    (case click_answered (fst (Export now snap opens copied d)) of
       Saved f \<Rightarrow> opens \<and> (\<exists>sz. snap = Some sz \<and> sz \<noteq> 0) \<and> (\<exists>stamp. f = ''anselm-gateway-'' @ stamp @ ''.db'')
     | PageReplaced r \<Rightarrow> \<not> (opens \<and> (\<exists>sz. snap = Some sz \<and> sz \<noteq> 0)) \<and> fst r = ''INTERNAL'')"
proof -
  have runs: "(onDownload ^^ n) new_export =
      \<lparr>ex_clicked = (n > 0), ex_body = [], ex_requests = replicate n ''/api/export''\<rparr>"
    by (induction n) (simp_all add: new_export_def onDownload_def exportUrl_def replicate_append_same)
  have "\<exists>stamp. export_filename now = ''anselm-gateway-'' @ stamp @ ''.db''"
    unfolding export_filename_def Let_def split_beta by (metis append.assoc)
  then have "case click_answered (fst (Export now snap opens copied d)) of
       Saved f \<Rightarrow> opens \<and> (\<exists>sz. snap = Some sz \<and> sz \<noteq> 0) \<and> (\<exists>stamp. f = ''anselm-gateway-'' @ stamp @ ''.db'')
     | PageReplaced r \<Rightarrow> \<not> (opens \<and> (\<exists>sz. snap = Some sz \<and> sz \<noteq> 0)) \<and> fst r = ''INTERNAL''"
    by (simp add: Export_def click_answered_def internal_def NewError_def Let_def split: option.split)
  then show ?thesis by (simp add: runs Export_view_def)
qed

end
