(* ===== verification/Ui_Page_Witness.thy ===== *)
theory Ui_Page_Witness
  imports Ui_Witness Ui_Config_Runs Ui_Installs_Runs Ui_Shell
begin

text \<open>
  Witnesses: the properties of the configuration page, the overview page and the shell applied at concrete
  states and inputs.
\<close>

section \<open>Configuration\<close>

definition demo_item :: DumpItem where
  "demo_item = \<lparr>it_key = ''k'', it_value = ''5'', it_editable = True, it_restartRequired = False,
     it_min = Some 0, it_max = Some 100\<rparr>"

lemma demo_item_bounds: "it_editable demo_item" "it_min demo_item = Some 0" "it_max demo_item = Some 100"
  by (simp_all add: demo_item_def)

lemma demo_item_key: "it_key demo_item = ''k''"
  by (simp add: demo_item_def)

lemma demo_fraction:
  "TrimSpace ''1.5'' = ''1.5''" "js_trim ''1.5'' = ''1.5''" "\<forall>k. js_number ''1.5'' \<noteq> Finite (of_int k)"
proof -
  show "TrimSpace ''1.5'' = ''1.5''" by (rule TrimSpace_graph) (simp_all add: graph_char_def)
  show t: "js_trim ''1.5'' = ''1.5''" by (rule js_trim_graph) (simp_all add: graph_char_def)
  have "signed_decimal False ''1.5'' = Finite (3 / 2)" by code_simp
  moreover have "radix_prefix ''1.5'' = None" by code_simp
  ultimately have n: "js_number ''1.5'' = Finite (3 / 2)" by (simp add: js_number_def t)
  have "(3 / 2 :: rat) \<noteq> of_int k" for k
  proof
    assume "(3 / 2 :: rat) = of_int k"
    then have "(of_int 3 :: rat) = of_int (2 * k)" by simp
    then have "3 = 2 * k" by (simp only: of_int_eq_iff)
    then show False by presburger
  qed
  then show "\<forall>k. js_number ''1.5'' \<noteq> Finite (of_int k)" by (simp add: n)
qed

theorem precheck_agrees_witness:
  "cf_saves (config_save demo_item (numeric_change demo_item (Some (itoa 7)) new_config)) = [(demo_item, itoa 7)] \<and>
   cf_saves (config_save demo_item (numeric_change demo_item (Some (itoa 101)) new_config)) = [] \<and>
   precheck demo_item (itoa 101) \<noteq> None \<and> precheck demo_item ''1.5'' = Some not_integer_text"
proof -
  have "reqInt64 (\<lambda>s. s) ''k'' (itoa 101) 0 100 = Inl (''k'' @ '' must be <= '' @ itoa 100)"
    by (simp add: reqInt64_itoa is_int64_def MaxInt64_def MinInt64_def)
  then show ?thesis
    using precheck_agrees[OF demo_item_bounds _ demo_fraction, where n = 7 and p = new_config and verb = "\<lambda>s. s"]
      precheck_agrees[OF demo_item_bounds _ demo_fraction, where n = 101 and p = new_config and verb = "\<lambda>s. s"]
    by (auto simp: new_config_def demo_item_key split: if_splits)
qed

theorem cleared_field_is_sent_witness:
  "cf_saves (config_save demo_item (numeric_change demo_item None new_config)) = [(demo_item, [])] \<and>
   reqInt64 (\<lambda>s. s) ''k'' [] 0 100 = Inl ''k: invalid int ''"
  using cleared_field_is_sent[OF demo_item_bounds, of new_config "\<lambda>s. s"]
  by (simp add: new_config_def demo_item_def)

definition demo_live :: dump_item where
  "demo_live = \<lparr>key = ''k'', item_value = ''on'', editable = True, restartRequired = False, min_bound = None,
     max_bound = None\<rparr>"

definition choosy :: "unit served" where
  "choosy = demo_served\<lparr>srv_config := demo_config\<lparr>Dump := (\<lambda>_. [demo_live]),
     ApplyOverrides := (\<lambda>m c. if snd (hd m) = ''on'' then Inr c else Inl ''rejected'')\<rparr>\<rparr>"

definition demo_switch :: DumpItem where
  "demo_switch = \<lparr>it_key = ''k'', it_value = ''off'', it_editable = True, it_restartRequired = False, it_min = None,
     it_max = None\<rparr>"

theorem config_save_applies_witness:
  "(let p = set_draft ''k'' ''on'' new_config
    in cf_items (config_saved 0 (config_answers (\<lambda>_. []) (\<lambda>c. fst (Serve choosy c demo_dash)) ''k'' ''on'')
         (config_save demo_switch p)) = [item_view demo_live]) \<and>
   (let p = set_draft ''k'' ''x'' new_config
    in row_error demo_switch (config_saved 0 (config_answers (\<lambda>_. []) (\<lambda>c. fst (Serve choosy c demo_dash)) ''k'' ''x'')
         (config_save demo_switch p)) = Some ''rejected'')"
proof -
  have p: "cf_saves (set_draft ''k'' x new_config) = []" "draft_of demo_switch (set_draft ''k'' x new_config) = x"
    "precheck demo_switch x = None" "it_key demo_switch = ''k''" for x
    by (simp_all add: set_draft_def new_config_def draft_of_def demo_switch_def precheck_def isBoundedNumeric_def)
  have a: "ApplyOverrides (srv_config choosy) [(''k'', ''on'')] c = Inr c"
    "ApplyOverrides (srv_config choosy) [(''k'', ''x'')] c = Inl ''rejected''"
    "Dump (srv_config choosy) c = [demo_live]" for c
    by (simp_all add: choosy_def)
  show ?thesis
    using config_save_applies[where p = "set_draft ''k'' ''on'' new_config" and it = demo_switch and v = choosy
        and shw = "\<lambda>_. []" and d = demo_dash]
      config_save_applies[where p = "set_draft ''k'' ''x'' new_config" and it = demo_switch and v = choosy
        and shw = "\<lambda>_. []" and d = demo_dash]
    by (simp add: p a Let_def)
qed

section \<open>Overview\<close>

definition demo_thresholds :: thresholds where
  "demo_thresholds = \<lparr>BudgetWarnFraction = 8 / 10, ReservationsOpenAt = 10, UpstreamErrorBurst = 10, InstallBurst = 10,
     TokensThrottledAt = 10\<rparr>"

definition demo_signals :: signals where
  "demo_signals = \<lparr>BudgetUsed = 85 * PicoUSDPerMicroUSD, BudgetLimit = 100 * PicoUSDPerMicroUSD, ReservationsOpen = 0,
     BreakerOpen = False, DiskDegraded = False, UpstreamErrors = 0, InstallsThisWindow = 0, TokensThrottled = 0\<rparr>"

definition demo_overview :: OverviewResponse where
  "demo_overview = (overview_view (\<lambda>_. []) (backend_overview demo_served demo_dash))
     \<lparr>bu_usedMicroUsd := 85, bu_limitMicroUsd := 100\<rparr>"

theorem budget_bar_agrees_witness:
  "budget_bar demo_overview = BarActive \<and> fires demo_thresholds demo_signals BudgetHigh"
proof -
  have b: "budget_bar demo_overview = BarActive" by (simp add: budget_bar_def budgetPct_def demo_overview_def)
  moreover have "fires demo_thresholds demo_signals BudgetHigh \<or> fires demo_thresholds demo_signals BudgetExhausted"
    using budget_bar_agrees[of demo_thresholds demo_signals 100 demo_overview] b
    by (simp add: demo_thresholds_def demo_signals_def demo_overview_def go_div_def PicoUSDPerMicroUSD_def)
  moreover have "\<not> fires demo_thresholds demo_signals BudgetExhausted"
    by (simp add: fires_def demo_signals_def PicoUSDPerMicroUSD_def)
  ultimately show ?thesis by blast
qed

theorem overview_shows_backend_witness:
  "\<exists>b. Overview_view (\<lambda>_. []) (refreshed (overview_answers (\<lambda>_. []) (\<lambda>c. fst (Serve demo_served c demo_dash))) (new_overview False)) =
      Page None (Some b) \<and> read_usd (vb_used b) = Some 0"
proof -
  have "spend_at (global_spend_monthly (ledger demo_dash)) m = 0" for m
    by (simp add: demo_dash_def empty_db_def spend_at_def tget_def)
  then show ?thesis
    using overview_shows_backend[of demo_dash demo_served "\<lambda>_. []" "\<lambda>_. []" "new_overview False"]
    by (auto simp: is_int64_def MaxInt64_def MinInt64_def go_div_def demo_served_def demo_config_def)
qed

definition demo_reset :: overview_page where
  "demo_reset = (new_overview False)\<lparr>op_dialog := Some ''abuse''\<rparr>"

theorem reset_dialog_resets_witness:
  "op_dialog (reset_refreshed (Inr None) (reset_answered
     (reset_answers (\<lambda>_. []) (\<lambda>c. fst (Serve demo_served c demo_dash)) ''abuse'') (confirm_reset demo_reset))) = None"
proof -
  have p: "op_dialog demo_reset = Some ''abuse''" "TrimSpace (js_trim ''abuse'') \<noteq> []"
    "op_reset demo_reset = NoReset"
    by (simp_all add: demo_reset_def demo_texts new_overview_def)
  have none: "OpenReservations (ledger demo_dash) = 0"
    by (simp add: demo_dash_def empty_db_def OpenReservations_def)
  show ?thesis
    using reset_dialog_resets[OF p, where d = demo_dash and shw = "\<lambda>_. []" and v = demo_served and res = "Inr None"] none
    by (simp add: demo_texts)
qed

section \<open>Shell\<close>

text \<open>A router that matches exactly, and else by the splat.\<close>

definition exact_router :: matcher where
  "exact_router ps loc =
     (if loc \<in> set ps \<and> static_path loc then Some loc else if ''*'' \<in> set ps then Some ''*'' else None)"

lemma exact_router_picks: "router_picks exact_router"
  by (auto simp: router_picks_def exact_router_def)

theorem menu_reaches_every_page_witness:
  "let s = shell_run exact_router False ''/nowhere'' [Address ''/'', Back]
   in selectedKeys (shell_step exact_router (Click (''/installs'', ''Installs'')) s) = [''/installs''] \<and>
     element_at exact_router (here (shell_step exact_router (Click (''/installs'', ''Installs'')) s)) = Some InstallsPage"
proof -
  have k: "(''/installs'', ''Installs'') \<in> set NAV" by (simp add: NAV_def)
  show ?thesis
    using menu_reaches_every_page[OF exact_router_picks k, of False "''/nowhere''" "[Address ''/'', Back]"]
    by (simp add: Let_def ROUTES_def del: shell_step.simps)
qed

theorem only_overview_polls_witness:
  "page_at exact_router (here (shell_run exact_router False ''/nowhere'' [Click (''/audit'', [])]))"
  using only_overview_polls[OF exact_router_picks, of False "''/nowhere''" "[Click (''/audit'', [])]"]
  by (simp add: Let_def)

text \<open>The location after the hash.\<close>

definition after_hash :: "string \<Rightarrow> string" where
  "after_hash url = snd (cut (CHR ''#'') url)"

lemma after_hash_router: "hash_router after_hash"
  by (simp add: hash_router_def after_hash_def cut_append)

theorem reload_keeps_page_witness:
  "Serve demo_served (page_request ''/#/audit'') demo_dash = (Answered 200 NotJson, demo_dash) \<and>
   element_at exact_router (here (main_view after_hash exact_router False ''/#/audit'')) = Some AuditPage"
proof -
  have k: "(''/audit'', bytes [229, 174, 161, 232, 174, 161]) \<in> set NAV" by (simp add: NAV_def)
  show ?thesis
    using reload_keeps_page[OF exact_router_picks after_hash_router k, of "''/''" demo_served demo_dash False]
    by (simp add: is_prefix_def ROUTES_def Let_def)
qed

section \<open>Runs\<close>

theorem only_checked_values_are_posted_witness:
  "let p = config_run [LoadAnswer (Inr (Some (Some [demo_item]))), EditNumber demo_item (Some ''7''), ClickSave demo_item]
   in cf_saves p = [(demo_item, ''7'')] \<and> (\<exists>n. js_number ''7'' = Finite (of_int n) \<and> 0 \<le> n \<and> n \<le> 100)"
proof -
  let ?p = "config_run [LoadAnswer (Inr (Some (Some [demo_item]))), EditNumber demo_item (Some ''7''), ClickSave demo_item]"
  have i: "itoa 7 = ''7''" by (simp add: itoa_def dec.simps digit_char_def char_of_eq_iff)
  have "precheck demo_item ''7'' = None"
    using js_number_itoa[of 7] by (simp add: i precheck_def demo_item_def isBoundedNumeric_def)
  then have s: "cf_saves ?p = [(demo_item, ''7'')]"
    by (simp add: config_run_def config_loaded_def config_load_def new_config_def listed_def live_drafts_def
        numeric_change_def set_draft_def save_button_def dirty_def draft_of_def config_save_def tget_tput
        isBoundedNumeric_def demo_item_def Let_def)
  with only_checked_values_are_posted[of "[LoadAnswer (Inr (Some (Some [demo_item]))), EditNumber demo_item (Some ''7''),
      ClickSave demo_item]" False]
  show ?thesis by (simp add: Let_def demo_item_bounds)
qed

end
