(* ===== verification/Config.thy ===== *)
theory Config
  imports Config_Bounds Billing Civil "HOL-Library.Sublist"
begin

text \<open>
  The configuration domain \<open>internal/domain/config/config.go\<close> and \<open>capability.go\<close>: the configuration value,
  its ceilings, the two enumerations, the debug mask, the cross-field rules and the memory budget.
  Durations are nanoseconds, byte slices are strings. An \<open>error\<close> is its text, and a function returning only an
  error returns \<open>None\<close> for nil; \<open>q\<close> is the format verb \<open>%q\<close>.
\<close>

section \<open>Ceilings\<close>

definition MaxMonthlyQuota :: int64 where [limit_defs]: "MaxMonthlyQuota = 1000000000"
definition MaxPublicModelIDBytes :: int64 where [limit_defs]: "MaxPublicModelIDBytes = 128"
definition MaxMonthlySpendMicroUSD :: int64 where [limit_defs]: "MaxMonthlySpendMicroUSD = 9000000000000"
definition MaxTokensCap :: int64 where [limit_defs]: "MaxTokensCap = 1000000"
definition MaxInputTokenCap :: int64 where [limit_defs]: "MaxInputTokenCap = 10000000"
definition MaxMessages :: int64 where [limit_defs]: "MaxMessages = 100000"
definition MaxMessageChars :: int64 where [limit_defs]: "MaxMessageChars = 16777216"
definition MaxMediaParts :: int64 where [limit_defs]: "MaxMediaParts = 64"
definition MaxMediaDecodedBytes :: int64 where [limit_defs]: "MaxMediaDecodedBytes = 8388608"
definition MaxBodyBytesCeiling :: int64 where [limit_defs]: "MaxBodyBytesCeiling = 8388608"
definition MinBodyBytes :: int64 where [limit_defs]: "MinBodyBytes = 4096"
definition MaxNGlobalConcurrency :: int64 where [limit_defs]: "MaxNGlobalConcurrency = 100000"
definition MaxRatePerMin :: int64 where [limit_defs]: "MaxRatePerMin = 10000000"
definition MaxDailySublimit :: int64 where [limit_defs]: "MaxDailySublimit = 1000000000"
definition MaxImageDailyLimit :: int64 where [limit_defs]: "MaxImageDailyLimit = 100000"
definition MaxVoiceAccountCeiling :: int64 where [limit_defs]: "MaxVoiceAccountCeiling = 1000000"
definition MaxSpeechDailyLimit :: int64 where [limit_defs]: "MaxSpeechDailyLimit = 100000000"
definition MaxVideoDailyLimit :: int64 where [limit_defs]: "MaxVideoDailyLimit = 10000"
definition MaxVoiceDailyLimit :: int64 where [limit_defs]: "MaxVoiceDailyLimit = 100"
definition MaxInstallPerIPHour :: int64 where [limit_defs]: "MaxInstallPerIPHour = 1000000"
definition MaxInstallGlobalDailyCap :: int64 where [limit_defs]: "MaxInstallGlobalDailyCap = 100000000"
definition MaxInstallPerFPDaily :: int64 where [limit_defs]: "MaxInstallPerFPDaily = 1000000"
definition MaxInstallPerFPCooldownSec :: int64 where [limit_defs]: "MaxInstallPerFPCooldownSec = 86400"
definition MaxInstallPowDifficulty :: int64 where [limit_defs]: "MaxInstallPowDifficulty = 32"
definition MaxTokenAnomalyRPM :: int64 where [limit_defs]: "MaxTokenAnomalyRPM = 10000000"
definition MaxTokenThrottleFactor :: int64 where [limit_defs]: "MaxTokenThrottleFactor = 1000"
definition MaxTokenThrottleCooldownSec :: int64 where [limit_defs]: "MaxTokenThrottleCooldownSec = 86400"
definition MaxQueueWaitMS :: int64 where [limit_defs]: "MaxQueueWaitMS = 60000"
definition MaxUpstreamHeaderTimeoutSec :: int64 where [limit_defs]: "MaxUpstreamHeaderTimeoutSec = 600"
definition MaxDiskMinMB :: int64 where [limit_defs]: "MaxDiskMinMB = 1073741824"
definition MaxMediaUploadBytes :: int64 where [limit_defs]: "MaxMediaUploadBytes = 1073741824"

definition PowModeOff :: string where "PowModeOff = ''off''"
definition PowModeShadow :: string where "PowModeShadow = ''shadow''"
definition PowModeEnforce :: string where "PowModeEnforce = ''enforce''"
definition RuntimeModeDebug :: string where "RuntimeModeDebug = ''debug''"
definition RuntimeModeProduction :: string where "RuntimeModeProduction = ''production''"

section \<open>The configuration\<close>

record config =
  cfg_QwenAPIKeys :: "string list"
  cfg_QwenBaseURL :: string
  cfg_PublicModelID :: string
  cfg_MultimodalUpstreamModel :: string
  cfg_RuntimeMode :: string
  cfg_MonthlyQuota :: int64
  cfg_GlobalMonthlySpendPUSD :: int64
  cfg_MaxTokensCap :: int64
  cfg_InputTokenCap :: int64
  cfg_MaxMessages :: int64
  cfg_MaxMessageChars :: int64
  cfg_MaxMediaParts :: int64
  cfg_MaxMediaDecodedBytes :: int64
  cfg_MaxBodyBytes :: int64
  cfg_NGlobalConcurrency :: int64
  cfg_RatePerMin :: int64
  cfg_DailySublimit :: int64
  cfg_InstallPerIPHour :: int64
  cfg_InstallGlobalDailyCap :: int64
  cfg_InstallPerFPDaily :: int64
  cfg_InstallPerFPCooldownSec :: int64
  cfg_InstallPowMode :: string
  cfg_InstallPowDifficulty :: int64
  cfg_InstallPowSecret :: string
  cfg_InstallPowSecretSource :: string
  cfg_TokenAnomalyRPM :: int64
  cfg_TokenThrottleFactor :: int64
  cfg_TokenThrottleCooldownSec :: int64
  cfg_UpstreamHeaderTimeout :: int64
  cfg_QueueWait :: int64
  cfg_GoMemLimitMiB :: int64
  cfg_SQLiteCacheKiB :: int64
  cfg_SQLiteMmapBytes :: int64
  cfg_SQLiteAutockptPage :: int64
  cfg_ReadPoolMaxConns :: int64
  cfg_MemBudgetMiB :: int64
  cfg_MemSafetyMarginMiB :: int64
  cfg_DiskMinMB :: int64
  cfg_DiskMinPercent :: int64
  cfg_DashScopeNativeBase :: string
  cfg_ImageEnabled :: bool
  cfg_ImageUpstreamModel :: string
  cfg_ImageDailyLimit :: int64
  cfg_SpeechEnabled :: bool
  cfg_TTSUpstreamModel :: string
  cfg_SpeechDailyLimit :: int64
  cfg_TTSDefaultVoice :: string
  cfg_VideoEnabled :: bool
  cfg_VideoUpstreamModel :: string
  cfg_VideoI2VUpstreamModel :: string
  cfg_VideoDailyLimit :: int64
  cfg_VideoHandleKey :: string
  cfg_VoiceDailyLimit :: int64
  cfg_VoiceAccountCeiling :: int64
  cfg_MediaEnabled :: bool
  cfg_MediaStagingRoot :: string
  cfg_MediaSigningSecret :: string
  cfg_MediaSigningSecretSource :: string
  cfg_MediaUploadMaxBytes :: int64
  cfg_MediaChunkMaxBytes :: int64
  cfg_MediaUploadTTL :: int64
  cfg_MediaLeaseTTL :: int64
  cfg_MediaFetchDomain :: string
  cfg_ResetTZ :: string
  cfg_Location :: location
  cfg_ListenAddr :: string
  cfg_AdminAddr :: string
  cfg_DashboardAddr :: string
  cfg_LogLevel :: string
  cfg_DBPath :: string

section \<open>Modes\<close>

definition ValidateRuntimeMode :: "(string \<Rightarrow> string) \<Rightarrow> string \<Rightarrow> string option" where
  "ValidateRuntimeMode q m =
     (if m = RuntimeModeDebug \<or> m = RuntimeModeProduction then None
      else Some (''GATEWAY_MODE '' @ q m @ '' invalid: must be one of debug|production''))"

definition DebugMode :: "config \<Rightarrow> bool" where
  "DebugMode c \<longleftrightarrow> cfg_RuntimeMode c = RuntimeModeDebug"

definition EffectiveLimits :: "config \<Rightarrow> config" where
  "EffectiveLimits c =
     (if \<not> DebugMode c then c
      else c\<lparr>
        cfg_MonthlyQuota := MaxMonthlyQuota,
        cfg_GlobalMonthlySpendPUSD := MaxMonthlySpendMicroUSD * PicoUSDPerMicroUSD,
        cfg_RatePerMin := 0,
        cfg_DailySublimit := 0,
        cfg_TokenAnomalyRPM := 0,
        cfg_ImageDailyLimit := 0,
        cfg_SpeechDailyLimit := 0,
        cfg_VideoDailyLimit := 0,
        cfg_VoiceDailyLimit := 0,
        cfg_InstallPerIPHour := 0,
        cfg_InstallGlobalDailyCap := 0,
        cfg_InstallPerFPDaily := 0,
        cfg_InstallPerFPCooldownSec := 0,
        cfg_InstallPowMode := PowModeOff\<rparr>)"

definition ValidatePowMode :: "(string \<Rightarrow> string) \<Rightarrow> string \<Rightarrow> string option" where
  "ValidatePowMode q m =
     (if m = PowModeOff \<or> m = PowModeShadow \<or> m = PowModeEnforce then None
      else Some (''INSTALL_POW_MODE '' @ q m @ '' invalid: must be one of off|shadow|enforce''))"

definition validatePowSecretPresent :: "string \<Rightarrow> string \<Rightarrow> string option" where
  "validatePowSecretPresent mode sec =
     (if mode \<noteq> PowModeShadow \<and> mode \<noteq> PowModeEnforce then None
      else if sec = [] then
        Some (''CONFIG_POW_SECRET_REQUIRED: INSTALL_POW_MODE '' @ mode @
          '' requires INSTALL_POW_SECRET (env-only); set it and restart before enabling PoW'')
      else None)"

section \<open>Cross-field rules\<close>

definition billing_text :: "billing_error \<Rightarrow> string" where
  "billing_text e =
     (case e of ErrUnknownRateCard \<Rightarrow> ''billing: no rate card for provider/model''
              | ErrCostOverflow \<Rightarrow> ''billing: cost arithmetic overflow'')"

text \<open>A list of rules in source order: the text of the first one that is broken.\<close>

fun first_broken :: "(bool \<times> string) list \<Rightarrow> string option" where
  "first_broken [] = None"
| "first_broken ((broken, err) # rules) = (if broken then Some err else first_broken rules)"

definition unpriced :: "string \<Rightarrow> input_class \<Rightarrow> string \<Rightarrow> bool \<times> string" where
  "unpriced m cls what =
     (case NewUnitPlan ProviderQwen m cls 1 of
        Inl e \<Rightarrow> (True, ''SEC-2 config: '' @ what @ '' has no exact rate card: '' @ billing_text e)
      | Inr _ \<Rightarrow> (False, []))"

definition public_id_char :: "char \<Rightarrow> bool" where
  "public_id_char b \<longleftrightarrow>
     (let n = of_char b :: nat
      in (97 \<le> n \<and> n \<le> 122) \<or> (65 \<le> n \<and> n \<le> 90) \<or> (48 \<le> n \<and> n \<le> 57) \<or> b \<in> set ''._-:/'')"

definition sq :: "char \<Rightarrow> string" where "sq x = [CHR 0x27, x, CHR 0x27]"

definition public_id_marks :: string where
  "public_id_marks = sq CHR ''.'' @ '', '' @ sq CHR ''_'' @ '', '' @ sq CHR ''-'' @ '', '' @ sq CHR '':'' @ '', or '' @
     sq CHR ''/''"

definition validPublicModelID :: "string \<Rightarrow> bool" where
  "validPublicModelID i \<longleftrightarrow>
     \<not> (length i = 0 \<or> int (length i) > MaxPublicModelIDBytes) \<and> list_all public_id_char i"

definition quote_rules :: "config \<Rightarrow> (bool \<times> string) list" where
  "quote_rules c =
     (case NewPlan ProviderQwen (cfg_MultimodalUpstreamModel c) InputStandard Qwen37InputLimit Qwen37OutputLimit of
        Inl e \<Rightarrow> [(True, ''SEC-2 config: MULTIMODAL_UPSTREAM_MODEL has no exact rate card: '' @ billing_text e)]
      | Inr plan \<Rightarrow>
          [(ReservedPUSD plan > cfg_GlobalMonthlySpendPUSD c,
            ''SEC-2 config: worst-case request quote exceeds GLOBAL_MONTHLY_SPEND_MICRO_USD'')])"

definition base_rules :: "config \<Rightarrow> (bool \<times> string) list" where
  "base_rules c =
     [(cfg_GlobalMonthlySpendPUSD c \<le> 0, ''SEC-2 config: GLOBAL_MONTHLY_SPEND_MICRO_USD must be > 0''),
      (\<not> validPublicModelID (cfg_PublicModelID c),
       ''SEC-2 config: PUBLIC_MODEL_ID must be 1..128 ASCII bytes using letters, digits, '' @ public_id_marks)] @
     quote_rules c @
     [(cfg_MaxMediaParts c < 1 \<or> cfg_MaxMediaParts c > MaxMediaParts, ''SEC-2 config: MAX_MEDIA_PARTS out of range''),
      (cfg_MaxMediaDecodedBytes c < 1 \<or> cfg_MaxMediaDecodedBytes c > cfg_MaxBodyBytes c,
       ''SEC-2 config: MAX_MEDIA_DECODED_BYTES must be > 0 and <= MAX_BODY_BYTES'')]"

definition image_rules :: "config \<Rightarrow> (bool \<times> string) list" where
  "image_rules c =
     (if \<not> cfg_ImageEnabled c then []
      else [(cfg_QwenAPIKeys c = [], ''SEC-2 config: IMAGE_ENABLED requires DASHSCOPE_API_KEY''),
            unpriced (cfg_ImageUpstreamModel c) InputImages ''IMAGE_UPSTREAM_MODEL'',
            (TrimSpace (cfg_DashScopeNativeBase c) = [], ''SEC-2 config: IMAGE_ENABLED requires DASHSCOPE_NATIVE_BASE'')])"

definition speech_rules :: "config \<Rightarrow> (bool \<times> string) list" where
  "speech_rules c =
     (if \<not> cfg_SpeechEnabled c then []
      else [(cfg_QwenAPIKeys c = [], ''SEC-2 config: SPEECH_ENABLED requires DASHSCOPE_API_KEY''),
            unpriced (cfg_TTSUpstreamModel c) InputCharacters ''TTS_UPSTREAM_MODEL'',
            (TrimSpace (cfg_DashScopeNativeBase c) = [], ''SEC-2 config: SPEECH_ENABLED requires DASHSCOPE_NATIVE_BASE''),
            (TrimSpace (cfg_TTSDefaultVoice c) = [], ''SEC-2 config: SPEECH_ENABLED requires TTS_DEFAULT_VOICE'')])"

definition domain_rules :: "config \<Rightarrow> (bool \<times> string) list" where
  "domain_rules c =
     (let d = TrimSpace (cfg_MediaFetchDomain c)
      in if d = [] then []
         else [(sublist ''://'' d \<or> list_ex (\<lambda>x. x \<in> set ''/?#'') d,
                ''CONFIG_MEDIA_DOMAIN_INVALID: MEDIA_DOMAIN must be a bare host, not a URL''),
               (prefix ''api.'' d,
                ''CONFIG_MEDIA_DOMAIN_INVALID: MEDIA_DOMAIN must not be an `api.` host '' @ bytes [226, 128, 148] @
                '' the upstream fetcher blacklists that shape at its edge (ADR 0018/0012)'')])"

definition video_rules :: "config \<Rightarrow> (bool \<times> string) list" where
  "video_rules c =
     (if \<not> cfg_VideoEnabled c then []
      else [(cfg_QwenAPIKeys c = [], ''SEC-2 config: VIDEO_ENABLED requires DASHSCOPE_API_KEY''),
            unpriced (cfg_VideoUpstreamModel c) InputVideoSeconds ''VIDEO_UPSTREAM_MODEL'',
            unpriced (cfg_VideoI2VUpstreamModel c) InputVideoSeconds ''VIDEO_I2V_UPSTREAM_MODEL'',
            (TrimSpace (cfg_DashScopeNativeBase c) = [], ''SEC-2 config: VIDEO_ENABLED requires DASHSCOPE_NATIVE_BASE''),
            (cfg_VideoHandleKey c = [],
             ''CONFIG_VIDEO_HANDLE_KEY_REQUIRED: VIDEO_ENABLED requires MEDIA_SIGNING_SECRET (the video handle key is derived from it)'')])"

definition media_rules :: "config \<Rightarrow> (bool \<times> string) list" where
  "media_rules c =
     (if \<not> cfg_MediaEnabled c then []
      else [(TrimSpace (cfg_MediaStagingRoot c) = [], ''SEC-2 config: MEDIA_ENABLED requires MEDIA_STAGING_ROOT''),
            (length (cfg_MediaSigningSecret c) < 32,
             ''CONFIG_MEDIA_SIGNING_SECRET_REQUIRED: MEDIA_ENABLED requires MEDIA_SIGNING_SECRET with at least 32 bytes (env-only)''),
            (cfg_MediaUploadMaxBytes c \<le> 0 \<or> cfg_MediaUploadMaxBytes c > MaxMediaUploadBytes,
             ''SEC-2 config: MEDIA_UPLOAD_MAX_BYTES out of range''),
            (cfg_MediaChunkMaxBytes c \<le> 0 \<or> cfg_MediaChunkMaxBytes c > cfg_MaxBodyBytes c \<or>
               cfg_MediaChunkMaxBytes c > cfg_MediaUploadMaxBytes c,
             ''SEC-2 config: MEDIA_CHUNK_MAX_BYTES must be > 0 and <= both MAX_BODY_BYTES and MEDIA_UPLOAD_MAX_BYTES''),
            (cfg_MediaUploadTTL c \<le> 0 \<or> cfg_MediaLeaseTTL c \<le> 0, ''SEC-2 config: media TTLs must be positive'')])"

definition nil_rule :: "string option \<Rightarrow> bool \<times> string" where
  "nil_rule err = (case err of None \<Rightarrow> (False, []) | Some e \<Rightarrow> (True, e))"

definition mode_rules :: "(string \<Rightarrow> string) \<Rightarrow> config \<Rightarrow> (bool \<times> string) list" where
  "mode_rules q c =
     [nil_rule (validatePowSecretPresent (cfg_InstallPowMode c) (cfg_InstallPowSecret c)),
      nil_rule (if cfg_RuntimeMode c \<noteq> [] then ValidateRuntimeMode q (cfg_RuntimeMode c) else None)]"

definition rules :: "(string \<Rightarrow> string) \<Rightarrow> config \<Rightarrow> (bool \<times> string) list" where
  "rules q c =
     base_rules c @ image_rules c @ speech_rules c @ domain_rules c @ video_rules c @ media_rules c @ mode_rules q c"

definition ValidateSemantics :: "(string \<Rightarrow> string) \<Rightarrow> config \<Rightarrow> string option" where
  "ValidateSemantics q c = first_broken (rules q c)"

section \<open>Memory budget\<close>

definition WorstCaseMemoryMiB :: "config \<Rightarrow> int64" where
  "WorstCaseMemoryMiB c =
     (let cacheMiB = go_div (cfg_SQLiteCacheKiB c) 1024; mmapMiB = go_div (cfg_SQLiteMmapBytes c) (1024 * 1024)
      in wrap64 (cfg_GoMemLimitMiB c + wrap64 (cacheMiB * wrap64 (1 + cfg_ReadPoolMaxConns c)) + mmapMiB))"

record memory_budget_error =
  WorstMiB :: int64
  GoMemLimit :: int64
  CacheMiB :: int64
  ReadPool :: int64
  MmapMiB :: int64
  BudgetMiB :: int64
  SafetyMiB :: int64
  CeilingMiB :: int64

definition ValidateMemoryBudget :: "config \<Rightarrow> bool \<times> memory_budget_error option" where
  "ValidateMemoryBudget c =
     (let worst = WorstCaseMemoryMiB c; ceiling = wrap64 (cfg_MemBudgetMiB c - cfg_MemSafetyMarginMiB c)
      in if worst \<le> ceiling then (False, None)
         else if cfg_GoMemLimitMiB c = 0 then (True, None)
         else (False, Some \<lparr>WorstMiB = worst, GoMemLimit = cfg_GoMemLimitMiB c,
           CacheMiB = go_div (cfg_SQLiteCacheKiB c) 1024, ReadPool = cfg_ReadPoolMaxConns c,
           MmapMiB = go_div (cfg_SQLiteMmapBytes c) (1024 * 1024), BudgetMiB = cfg_MemBudgetMiB c,
           SafetyMiB = cfg_MemSafetyMarginMiB c, CeilingMiB = ceiling\<rparr>))"

section \<open>Capabilities\<close>

definition Credentialed :: "config option \<Rightarrow> bool" where
  "Credentialed c = (case c of None \<Rightarrow> False | Some c \<Rightarrow> cfg_QwenAPIKeys c \<noteq> [])"

definition MultimodalAvailable :: "config \<Rightarrow> bool" where
  "MultimodalAvailable c \<longleftrightarrow> Credentialed (Some c) \<and> cfg_MediaEnabled c"

definition ImageAvailable :: "config \<Rightarrow> bool" where
  "ImageAvailable c \<longleftrightarrow> Credentialed (Some c) \<and> cfg_ImageEnabled c"

definition SpeechAvailable :: "config \<Rightarrow> bool" where
  "SpeechAvailable c \<longleftrightarrow> Credentialed (Some c) \<and> cfg_SpeechEnabled c"

definition VideoAvailable :: "config \<Rightarrow> bool" where
  "VideoAvailable c \<longleftrightarrow> Credentialed (Some c) \<and> cfg_VideoEnabled c \<and> cfg_VideoHandleKey c \<noteq> []"

definition VideoI2VAvailable :: "config \<Rightarrow> bool" where
  "VideoI2VAvailable c \<longleftrightarrow>
     (if \<not> VideoAvailable c then False
      else \<not> isl (NewUnitPlan ProviderQwen (cfg_VideoI2VUpstreamModel c) InputVideoSeconds 1))"

definition VoiceAvailable :: "config \<Rightarrow> bool" where
  "VoiceAvailable c = SpeechAvailable c"

section \<open>Lemmas\<close>

lemma first_broken_None: "first_broken rs = None \<longleftrightarrow> (\<forall>r \<in> set rs. \<not> fst r)"
  by (induction rs rule: first_broken.induct) auto

lemma Effective_frame [simp]:
  "cfg_RuntimeMode (EffectiveLimits c) = cfg_RuntimeMode c"
  "cfg_MultimodalUpstreamModel (EffectiveLimits c) = cfg_MultimodalUpstreamModel c"
  "cfg_PublicModelID (EffectiveLimits c) = cfg_PublicModelID c"
  "cfg_MaxMediaParts (EffectiveLimits c) = cfg_MaxMediaParts c"
  "cfg_MaxMediaDecodedBytes (EffectiveLimits c) = cfg_MaxMediaDecodedBytes c"
  "cfg_MaxBodyBytes (EffectiveLimits c) = cfg_MaxBodyBytes c"
  "image_rules (EffectiveLimits c) = image_rules c" "speech_rules (EffectiveLimits c) = speech_rules c"
  "domain_rules (EffectiveLimits c) = domain_rules c" "video_rules (EffectiveLimits c) = video_rules c"
  "media_rules (EffectiveLimits c) = media_rules c"
  by (simp_all add: EffectiveLimits_def image_rules_def speech_rules_def domain_rules_def video_rules_def media_rules_def)

lemma Effective_memory [simp]:
  "ValidateMemoryBudget (EffectiveLimits c) = ValidateMemoryBudget c"
  "cfg_MaxTokensCap (EffectiveLimits c) = cfg_MaxTokensCap c"
  "cfg_NGlobalConcurrency (EffectiveLimits c) = cfg_NGlobalConcurrency c"
  "cfg_DiskMinMB (EffectiveLimits c) = cfg_DiskMinMB c"
proof -
  have eq: "WorstCaseMemoryMiB (EffectiveLimits c) = WorstCaseMemoryMiB c"
    "cfg_GoMemLimitMiB (EffectiveLimits c) = cfg_GoMemLimitMiB c" "cfg_MemBudgetMiB (EffectiveLimits c) = cfg_MemBudgetMiB c"
    "cfg_MemSafetyMarginMiB (EffectiveLimits c) = cfg_MemSafetyMarginMiB c"
    "cfg_SQLiteCacheKiB (EffectiveLimits c) = cfg_SQLiteCacheKiB c"
    "cfg_ReadPoolMaxConns (EffectiveLimits c) = cfg_ReadPoolMaxConns c"
    "cfg_SQLiteMmapBytes (EffectiveLimits c) = cfg_SQLiteMmapBytes c"
    by (simp_all add: WorstCaseMemoryMiB_def EffectiveLimits_def)
  show "ValidateMemoryBudget (EffectiveLimits c) = ValidateMemoryBudget c"
    unfolding ValidateMemoryBudget_def eq by (rule refl)
qed (simp_all add: EffectiveLimits_def)

lemma Effective_production: "cfg_RuntimeMode c \<noteq> ''debug'' \<Longrightarrow> EffectiveLimits c = c"
  by (simp add: EffectiveLimits_def DebugMode_def RuntimeModeDebug_def)

lemma Effective_debug:
  assumes "DebugMode c"
  shows "cfg_GlobalMonthlySpendPUSD (EffectiveLimits c) = MaxMonthlySpendMicroUSD * PicoUSDPerMicroUSD"
    "cfg_InstallPowMode (EffectiveLimits c) = PowModeOff"
  using assms by (simp_all add: EffectiveLimits_def)

lemma ValidateSemantics_None: "ValidateSemantics q c = None \<longleftrightarrow> (\<forall>r \<in> set (rules q c). \<not> fst r)"
  by (simp add: ValidateSemantics_def first_broken_None)

lemma nil_rule_fst [simp]: "fst (nil_rule e) \<longleftrightarrow> e \<noteq> None"
  by (cases e) (simp_all add: nil_rule_def)

lemma base_rules_ok:
  "(\<forall>r \<in> set (base_rules c). \<not> fst r) \<longleftrightarrow>
     0 < cfg_GlobalMonthlySpendPUSD c \<and> validPublicModelID (cfg_PublicModelID c) \<and>
     (\<exists>plan. NewPlan ProviderQwen (cfg_MultimodalUpstreamModel c) InputStandard Qwen37InputLimit Qwen37OutputLimit = Inr plan \<and>
        ReservedPUSD plan \<le> cfg_GlobalMonthlySpendPUSD c) \<and>
     1 \<le> cfg_MaxMediaParts c \<and> cfg_MaxMediaParts c \<le> MaxMediaParts \<and>
     1 \<le> cfg_MaxMediaDecodedBytes c \<and> cfg_MaxMediaDecodedBytes c \<le> cfg_MaxBodyBytes c"
  by (auto simp: base_rules_def quote_rules_def not_less not_le split: sum.split)

lemma mode_rules_ok:
  "(\<forall>r \<in> set (mode_rules q c). \<not> fst r) \<longleftrightarrow>
     (cfg_InstallPowMode c \<in> {PowModeShadow, PowModeEnforce} \<longrightarrow> cfg_InstallPowSecret c \<noteq> []) \<and>
     cfg_RuntimeMode c \<in> {[], RuntimeModeDebug, RuntimeModeProduction}"
  by (auto simp: mode_rules_def validatePowSecretPresent_def ValidateRuntimeMode_def)

lemma Effective_idem [simp]: "EffectiveLimits (EffectiveLimits c) = EffectiveLimits c"
  by (simp add: EffectiveLimits_def DebugMode_def)

text \<open>The mask opens quotas and nothing else: a configuration that satisfies the cross-field rules still
  does under the mask, keeps every size, concurrency, timeout and memory limit, and
  outside the exact mode \<open>debug\<close> is left alone.
\<close>

theorem mask_is_safe:
  "(if ValidateSemantics q c = None \<and> cfg_GlobalMonthlySpendPUSD c \<le> MaxMonthlySpendMicroUSD * PicoUSDPerMicroUSD
    then ValidateSemantics q (EffectiveLimits c) = None else True) \<and>
   ValidateMemoryBudget (EffectiveLimits c) = ValidateMemoryBudget c \<and>
   cfg_MaxBodyBytes (EffectiveLimits c) = cfg_MaxBodyBytes c \<and>
   cfg_MaxTokensCap (EffectiveLimits c) = cfg_MaxTokensCap c \<and>
   cfg_NGlobalConcurrency (EffectiveLimits c) = cfg_NGlobalConcurrency c \<and>
   cfg_DiskMinMB (EffectiveLimits c) = cfg_DiskMinMB c \<and>
   (if cfg_RuntimeMode c \<noteq> ''debug'' then EffectiveLimits c = c else True)"
proof -
  have "ValidateSemantics q (EffectiveLimits c) = None"
    if v: "ValidateSemantics q c = None" and b: "cfg_GlobalMonthlySpendPUSD c \<le> MaxMonthlySpendMicroUSD * PicoUSDPerMicroUSD"
  proof (cases "DebugMode c")
    case True
    have "PowModeOff \<notin> {PowModeShadow, PowModeEnforce}" "0 < MaxMonthlySpendMicroUSD * PicoUSDPerMicroUSD"
      by (simp_all add: PowModeOff_def PowModeShadow_def PowModeEnforce_def MaxMonthlySpendMicroUSD_def PicoUSDPerMicroUSD_def)
    then show ?thesis
      using v b
      by (auto simp: ValidateSemantics_None rules_def ball_Un base_rules_ok mode_rules_ok Effective_debug[OF True]
          intro: order_trans)
  qed (use v in \<open>simp add: EffectiveLimits_def\<close>)
  then show ?thesis
    by (simp add: Effective_production)
qed

end
