(* ===== verification/Config_Spec.thy ===== *)
theory Config_Spec
  imports Config Dashboard "HOL-Library.Multiset"
begin

text \<open>
  The table of dashboard-surfaced settings, \<open>internal/domain/config/spec.go\<close>, and the batch override
  \<open>ApplyOverrides\<close> of \<open>config.go\<close>. A runtime-editable setting is a \<open>knob\<close>, named after its key; its row carries the
  closure that applies a text and the one that renders the live value. Go's map is a table with distinct
  keys.
\<close>

section \<open>Rows\<close>

datatype Tier = TierRuntimeHot | TierStartupHard

record spec =
  Key :: string
  spec_Tier :: Tier
  spec_RestartRequired :: bool
  Bounded :: bool
  spec_Min :: int64
  spec_Max :: int64
  spec_apply :: "((string \<Rightarrow> string) \<Rightarrow> config \<Rightarrow> string \<Rightarrow> string + config) option"
  spec_get :: "config \<Rightarrow> string"

definition int_spec ::
    "string \<Rightarrow> bool \<Rightarrow> int64 \<Rightarrow> int64 \<Rightarrow> (int64 \<Rightarrow> config \<Rightarrow> config) \<Rightarrow> (config \<Rightarrow> int64) \<Rightarrow> spec" where
  "int_spec k restart lo hi put get =
     \<lparr>Key = k, spec_Tier = TierRuntimeHot, spec_RestartRequired = restart, Bounded = True, spec_Min = lo, spec_Max = hi,
      spec_apply = Some (\<lambda>q c raw. case reqInt64 q k raw lo hi of Inl err \<Rightarrow> Inl err | Inr n \<Rightarrow> Inr (put n c)),
      spec_get = (\<lambda>c. itoa (get c))\<rparr>"

definition text_spec ::
    "string \<Rightarrow> ((string \<Rightarrow> string) \<Rightarrow> config \<Rightarrow> string \<Rightarrow> string + config) \<Rightarrow> (config \<Rightarrow> string) \<Rightarrow> spec" where
  "text_spec k ap get =
     \<lparr>Key = k, spec_Tier = TierRuntimeHot, spec_RestartRequired = False, Bounded = False, spec_Min = 0, spec_Max = 0,
      spec_apply = Some ap, spec_get = get\<rparr>"

definition startup_spec :: "string \<Rightarrow> (config \<Rightarrow> string) \<Rightarrow> spec" where
  "startup_spec k get =
     \<lparr>Key = k, spec_Tier = TierStartupHard, spec_RestartRequired = True, Bounded = False, spec_Min = 0, spec_Max = 0,
      spec_apply = None, spec_get = get\<rparr>"

definition FormatBool :: "bool \<Rightarrow> string" where
  "FormatBool b = (if b then ''true'' else ''false'')"

section \<open>The table\<close>

datatype knob =
    K_GATEWAY_MODE
  | K_PUBLIC_MODEL_ID
  | K_GLOBAL_MONTHLY_SPEND_MICRO_USD
  | K_MONTHLY_QUOTA
  | K_MAX_TOKENS_CAP
  | K_INPUT_TOKEN_CAP
  | K_MAX_MESSAGES
  | K_MAX_MESSAGE_CHARS
  | K_MAX_MEDIA_PARTS
  | K_MAX_MEDIA_DECODED_BYTES
  | K_MAX_BODY_BYTES
  | K_N_GLOBAL_CONCURRENCY
  | K_RATE_PER_MIN
  | K_DAILY_SUBLIMIT
  | K_IMAGE_DAILY_LIMIT
  | K_VOICE_DAILY_LIMIT
  | K_VOICE_ACCOUNT_CEILING
  | K_SPEECH_DAILY_LIMIT
  | K_VIDEO_DAILY_LIMIT
  | K_INSTALL_PER_IP_HOUR
  | K_INSTALL_GLOBAL_DAILY_CAP
  | K_INSTALL_PER_FP_DAILY
  | K_INSTALL_PER_FP_COOLDOWN_SEC
  | K_INSTALL_POW_MODE
  | K_INSTALL_POW_DIFFICULTY
  | K_TOKEN_ANOMALY_RPM
  | K_TOKEN_THROTTLE_FACTOR
  | K_TOKEN_THROTTLE_COOLDOWN_SEC
  | K_QUEUE_WAIT_MS
  | K_UPSTREAM_HEADER_TIMEOUT_SEC
  | K_DISK_MIN_MB
  | K_DISK_MIN_PERCENT

definition all_knobs :: "knob list" where
  "all_knobs =
     [K_GATEWAY_MODE,
      K_PUBLIC_MODEL_ID,
      K_GLOBAL_MONTHLY_SPEND_MICRO_USD,
      K_MONTHLY_QUOTA,
      K_MAX_TOKENS_CAP,
      K_INPUT_TOKEN_CAP,
      K_MAX_MESSAGES,
      K_MAX_MESSAGE_CHARS,
      K_MAX_MEDIA_PARTS,
      K_MAX_MEDIA_DECODED_BYTES,
      K_MAX_BODY_BYTES,
      K_N_GLOBAL_CONCURRENCY,
      K_RATE_PER_MIN,
      K_DAILY_SUBLIMIT,
      K_IMAGE_DAILY_LIMIT,
      K_VOICE_DAILY_LIMIT,
      K_VOICE_ACCOUNT_CEILING,
      K_SPEECH_DAILY_LIMIT,
      K_VIDEO_DAILY_LIMIT,
      K_INSTALL_PER_IP_HOUR,
      K_INSTALL_GLOBAL_DAILY_CAP,
      K_INSTALL_PER_FP_DAILY,
      K_INSTALL_PER_FP_COOLDOWN_SEC,
      K_INSTALL_POW_MODE,
      K_INSTALL_POW_DIFFICULTY,
      K_TOKEN_ANOMALY_RPM,
      K_TOKEN_THROTTLE_FACTOR,
      K_TOKEN_THROTTLE_COOLDOWN_SEC,
      K_QUEUE_WAIT_MS,
      K_UPSTREAM_HEADER_TIMEOUT_SEC,
      K_DISK_MIN_MB,
      K_DISK_MIN_PERCENT]"

fun spec_of :: "knob \<Rightarrow> spec" where
  "spec_of K_GATEWAY_MODE =
     text_spec ''GATEWAY_MODE'' (\<lambda>q c raw.
       let m = TrimSpace raw
       in case ValidateRuntimeMode q m of Some err \<Rightarrow> Inl err | None \<Rightarrow> Inr (c\<lparr>cfg_RuntimeMode := m\<rparr>)) cfg_RuntimeMode"
| "spec_of K_PUBLIC_MODEL_ID =
     text_spec ''PUBLIC_MODEL_ID'' (\<lambda>q c raw.
       let i = TrimSpace raw
       in if i = [] then Inl ''PUBLIC_MODEL_ID must not be empty'' else Inr (c\<lparr>cfg_PublicModelID := i\<rparr>)) cfg_PublicModelID"
| "spec_of K_GLOBAL_MONTHLY_SPEND_MICRO_USD =
     int_spec ''GLOBAL_MONTHLY_SPEND_MICRO_USD'' False 1 MaxMonthlySpendMicroUSD (\<lambda>n c. c\<lparr>cfg_GlobalMonthlySpendPUSD := n * 1000000\<rparr>) (\<lambda>c. go_div (cfg_GlobalMonthlySpendPUSD c) 1000000)"
| "spec_of K_MONTHLY_QUOTA =
     int_spec ''MONTHLY_QUOTA'' False 1 MaxMonthlyQuota (\<lambda>n c. c\<lparr>cfg_MonthlyQuota := n\<rparr>) cfg_MonthlyQuota"
| "spec_of K_MAX_TOKENS_CAP =
     int_spec ''MAX_TOKENS_CAP'' False 1 MaxTokensCap (\<lambda>n c. c\<lparr>cfg_MaxTokensCap := n\<rparr>) cfg_MaxTokensCap"
| "spec_of K_INPUT_TOKEN_CAP =
     int_spec ''INPUT_TOKEN_CAP'' False 0 MaxInputTokenCap (\<lambda>n c. c\<lparr>cfg_InputTokenCap := n\<rparr>) cfg_InputTokenCap"
| "spec_of K_MAX_MESSAGES =
     int_spec ''MAX_MESSAGES'' False 1 MaxMessages (\<lambda>n c. c\<lparr>cfg_MaxMessages := n\<rparr>) cfg_MaxMessages"
| "spec_of K_MAX_MESSAGE_CHARS =
     int_spec ''MAX_MESSAGE_CHARS'' False 1 MaxMessageChars (\<lambda>n c. c\<lparr>cfg_MaxMessageChars := n\<rparr>) cfg_MaxMessageChars"
| "spec_of K_MAX_MEDIA_PARTS =
     int_spec ''MAX_MEDIA_PARTS'' False 1 MaxMediaParts (\<lambda>n c. c\<lparr>cfg_MaxMediaParts := n\<rparr>) cfg_MaxMediaParts"
| "spec_of K_MAX_MEDIA_DECODED_BYTES =
     int_spec ''MAX_MEDIA_DECODED_BYTES'' False 1 MaxMediaDecodedBytes (\<lambda>n c. c\<lparr>cfg_MaxMediaDecodedBytes := n\<rparr>) cfg_MaxMediaDecodedBytes"
| "spec_of K_MAX_BODY_BYTES =
     int_spec ''MAX_BODY_BYTES'' True MinBodyBytes MaxBodyBytesCeiling (\<lambda>n c. c\<lparr>cfg_MaxBodyBytes := n\<rparr>) cfg_MaxBodyBytes"
| "spec_of K_N_GLOBAL_CONCURRENCY =
     int_spec ''N_GLOBAL_CONCURRENCY'' True 1 MaxNGlobalConcurrency (\<lambda>n c. c\<lparr>cfg_NGlobalConcurrency := n\<rparr>) cfg_NGlobalConcurrency"
| "spec_of K_RATE_PER_MIN =
     int_spec ''RATE_PER_MIN'' False 0 MaxRatePerMin (\<lambda>n c. c\<lparr>cfg_RatePerMin := n\<rparr>) cfg_RatePerMin"
| "spec_of K_DAILY_SUBLIMIT =
     int_spec ''DAILY_SUBLIMIT'' False 0 MaxDailySublimit (\<lambda>n c. c\<lparr>cfg_DailySublimit := n\<rparr>) cfg_DailySublimit"
| "spec_of K_IMAGE_DAILY_LIMIT =
     int_spec ''IMAGE_DAILY_LIMIT'' False 0 MaxImageDailyLimit (\<lambda>n c. c\<lparr>cfg_ImageDailyLimit := n\<rparr>) cfg_ImageDailyLimit"
| "spec_of K_VOICE_DAILY_LIMIT =
     int_spec ''VOICE_DAILY_LIMIT'' False 0 MaxVoiceDailyLimit (\<lambda>n c. c\<lparr>cfg_VoiceDailyLimit := n\<rparr>) cfg_VoiceDailyLimit"
| "spec_of K_VOICE_ACCOUNT_CEILING =
     int_spec ''VOICE_ACCOUNT_CEILING'' False 0 MaxVoiceAccountCeiling (\<lambda>n c. c\<lparr>cfg_VoiceAccountCeiling := n\<rparr>) cfg_VoiceAccountCeiling"
| "spec_of K_SPEECH_DAILY_LIMIT =
     int_spec ''SPEECH_DAILY_LIMIT'' False 0 MaxSpeechDailyLimit (\<lambda>n c. c\<lparr>cfg_SpeechDailyLimit := n\<rparr>) cfg_SpeechDailyLimit"
| "spec_of K_VIDEO_DAILY_LIMIT =
     int_spec ''VIDEO_DAILY_LIMIT'' False 0 MaxVideoDailyLimit (\<lambda>n c. c\<lparr>cfg_VideoDailyLimit := n\<rparr>) cfg_VideoDailyLimit"
| "spec_of K_INSTALL_PER_IP_HOUR =
     int_spec ''INSTALL_PER_IP_HOUR'' False 0 MaxInstallPerIPHour (\<lambda>n c. c\<lparr>cfg_InstallPerIPHour := n\<rparr>) cfg_InstallPerIPHour"
| "spec_of K_INSTALL_GLOBAL_DAILY_CAP =
     int_spec ''INSTALL_GLOBAL_DAILY_CAP'' False 0 MaxInstallGlobalDailyCap (\<lambda>n c. c\<lparr>cfg_InstallGlobalDailyCap := n\<rparr>) cfg_InstallGlobalDailyCap"
| "spec_of K_INSTALL_PER_FP_DAILY =
     int_spec ''INSTALL_PER_FP_DAILY'' False 0 MaxInstallPerFPDaily (\<lambda>n c. c\<lparr>cfg_InstallPerFPDaily := n\<rparr>) cfg_InstallPerFPDaily"
| "spec_of K_INSTALL_PER_FP_COOLDOWN_SEC =
     int_spec ''INSTALL_PER_FP_COOLDOWN_SEC'' False 0 MaxInstallPerFPCooldownSec (\<lambda>n c. c\<lparr>cfg_InstallPerFPCooldownSec := n\<rparr>) cfg_InstallPerFPCooldownSec"
| "spec_of K_INSTALL_POW_MODE =
     text_spec ''INSTALL_POW_MODE'' (\<lambda>q c raw.
       let m = TrimSpace raw
       in case ValidatePowMode q m of Some err \<Rightarrow> Inl err
          | None \<Rightarrow> (case validatePowSecretPresent m (cfg_InstallPowSecret c) of Some err \<Rightarrow> Inl err
            | None \<Rightarrow> Inr (c\<lparr>cfg_InstallPowMode := m\<rparr>))) cfg_InstallPowMode"
| "spec_of K_INSTALL_POW_DIFFICULTY =
     int_spec ''INSTALL_POW_DIFFICULTY'' False 1 MaxInstallPowDifficulty (\<lambda>n c. c\<lparr>cfg_InstallPowDifficulty := n\<rparr>) cfg_InstallPowDifficulty"
| "spec_of K_TOKEN_ANOMALY_RPM =
     int_spec ''TOKEN_ANOMALY_RPM'' False 0 MaxTokenAnomalyRPM (\<lambda>n c. c\<lparr>cfg_TokenAnomalyRPM := n\<rparr>) cfg_TokenAnomalyRPM"
| "spec_of K_TOKEN_THROTTLE_FACTOR =
     int_spec ''TOKEN_THROTTLE_FACTOR'' False 1 MaxTokenThrottleFactor (\<lambda>n c. c\<lparr>cfg_TokenThrottleFactor := n\<rparr>) cfg_TokenThrottleFactor"
| "spec_of K_TOKEN_THROTTLE_COOLDOWN_SEC =
     int_spec ''TOKEN_THROTTLE_COOLDOWN_SEC'' False 1 MaxTokenThrottleCooldownSec (\<lambda>n c. c\<lparr>cfg_TokenThrottleCooldownSec := n\<rparr>) cfg_TokenThrottleCooldownSec"
| "spec_of K_QUEUE_WAIT_MS =
     int_spec ''QUEUE_WAIT_MS'' False 0 MaxQueueWaitMS (\<lambda>n c. c\<lparr>cfg_QueueWait := n * 1000000\<rparr>) (\<lambda>c. go_div (cfg_QueueWait c) 1000000)"
| "spec_of K_UPSTREAM_HEADER_TIMEOUT_SEC =
     int_spec ''UPSTREAM_HEADER_TIMEOUT_SEC'' False 1 MaxUpstreamHeaderTimeoutSec (\<lambda>n c. c\<lparr>cfg_UpstreamHeaderTimeout := n * 1000000000\<rparr>) (\<lambda>c. go_div (cfg_UpstreamHeaderTimeout c) 1000000000)"
| "spec_of K_DISK_MIN_MB =
     int_spec ''DISK_MIN_MB'' False 0 MaxDiskMinMB (\<lambda>n c. c\<lparr>cfg_DiskMinMB := n\<rparr>) cfg_DiskMinMB"
| "spec_of K_DISK_MIN_PERCENT =
     int_spec ''DISK_MIN_PERCENT'' False 0 100 (\<lambda>n c. c\<lparr>cfg_DiskMinPercent := n\<rparr>) cfg_DiskMinPercent"

definition startup_specs :: "spec list" where
  "startup_specs =
     [startup_spec ''MULTIMODAL_UPSTREAM_MODEL'' cfg_MultimodalUpstreamModel,
      startup_spec ''IMAGE_ENABLED'' (\<lambda>c. FormatBool (cfg_ImageEnabled c)),
      startup_spec ''IMAGE_UPSTREAM_MODEL'' cfg_ImageUpstreamModel,
      startup_spec ''SPEECH_ENABLED'' (\<lambda>c. FormatBool (cfg_SpeechEnabled c)),
      startup_spec ''TTS_UPSTREAM_MODEL'' cfg_TTSUpstreamModel,
      startup_spec ''MEDIA_DOMAIN'' cfg_MediaFetchDomain,
      startup_spec ''TTS_DEFAULT_VOICE'' cfg_TTSDefaultVoice,
      startup_spec ''VIDEO_ENABLED'' (\<lambda>c. FormatBool (cfg_VideoEnabled c)),
      startup_spec ''VIDEO_UPSTREAM_MODEL'' cfg_VideoUpstreamModel,
      startup_spec ''VIDEO_I2V_UPSTREAM_MODEL'' cfg_VideoI2VUpstreamModel,
      startup_spec ''DASHSCOPE_NATIVE_BASE'' cfg_DashScopeNativeBase,
      startup_spec ''DASHSCOPE_BASE_URL'' cfg_QwenBaseURL,
      startup_spec ''GOMEMLIMIT_MIB'' (\<lambda>c. itoa (cfg_GoMemLimitMiB c)),
      startup_spec ''SQLITE_CACHE_KIB'' (\<lambda>c. itoa (cfg_SQLiteCacheKiB c)),
      startup_spec ''READ_POOL_MAX_CONNS'' (\<lambda>c. itoa (cfg_ReadPoolMaxConns c)),
      startup_spec ''SQLITE_MMAP_MB'' (\<lambda>c. itoa (go_div (cfg_SQLiteMmapBytes c) (1024 * 1024))),
      startup_spec ''ADMIN_ADDR'' cfg_AdminAddr,
      startup_spec ''DASHBOARD_ADDR'' cfg_DashboardAddr,
      startup_spec ''LISTEN_ADDR'' cfg_ListenAddr,
      startup_spec ''RESET_TZ'' cfg_ResetTZ,
      startup_spec ''GATEWAY_DB_PATH'' cfg_DBPath]"

definition Specs :: "spec list" where
  "Specs = map spec_of all_knobs @ startup_specs"

definition specByKey :: "string \<Rightarrow> spec option" where
  "specByKey k = map_of (map (\<lambda>s. (Key s, s)) Specs) k"

definition applyOne :: "(string \<Rightarrow> string) \<Rightarrow> config \<Rightarrow> string \<Rightarrow> string \<Rightarrow> string + config" where
  "applyOne q c k raw =
     (case specByKey k of
        None \<Rightarrow> Inl (k @ '': not a runtime-overridable setting (unknown or secret; secrets are env-only)'')
      | Some s \<Rightarrow>
          (case (spec_Tier s, spec_apply s) of
             (TierRuntimeHot, Some ap) \<Rightarrow> ap q c raw
           | _ \<Rightarrow> Inl (k @ '': startup hard-constraint '' @ bytes [226, 128, 148] @
               '' change requires a restart, not hot-reload'')))"

record spec_item =
  si_Key :: string
  si_Value :: string
  si_Tier :: Tier
  si_Editable :: bool
  si_RestartRequired :: bool
  si_Bounded :: bool
  si_Min :: int64
  si_Max :: int64

definition Config_Dump :: "config \<Rightarrow> spec_item list" where
  "Config_Dump c =
     map (\<lambda>s. \<lparr>si_Key = Key s, si_Value = spec_get s c, si_Tier = spec_Tier s,
               si_Editable = (spec_Tier s = TierRuntimeHot), si_RestartRequired = spec_RestartRequired s,
               si_Bounded = Bounded s, si_Min = spec_Min s, si_Max = spec_Max s\<rparr>) Specs"

text \<open>The batch: the keys in sorted order, each applied to the clone, then the cross-field rules.\<close>

fun apply_keys :: "(string \<Rightarrow> string) \<Rightarrow> (string, string) table \<Rightarrow> string list \<Rightarrow> config \<Rightarrow> string + config" where
  "apply_keys q ov [] c = Inr c"
| "apply_keys q ov (k # ks) c = rbind (applyOne q c k (the (tget ov k))) (apply_keys q ov ks)"

definition sorted_keys :: "(string, string) table \<Rightarrow> string list" where
  "sorted_keys ov = foldr sorted_insert (map fst ov) []"

definition Config_ApplyOverrides :: "(string \<Rightarrow> string) \<Rightarrow> config \<Rightarrow> (string, string) table \<Rightarrow> string + config" where
  "Config_ApplyOverrides q base ov =
     rbind (apply_keys q ov (sorted_keys ov) base)
       (\<lambda>c. case ValidateSemantics q c of Some err \<Rightarrow> Inl err | None \<Rightarrow> Inr c)"

section \<open>Every row writes one field\<close>

text \<open>What an accepted text does, as one of thirty-two writes: the number it denotes, or the trimmed text.\<close>

fun write_field :: "knob \<Rightarrow> int \<Rightarrow> string \<Rightarrow> config \<Rightarrow> config" where
  "write_field K_GATEWAY_MODE n s c = c\<lparr>cfg_RuntimeMode := s\<rparr>"
| "write_field K_PUBLIC_MODEL_ID n s c = c\<lparr>cfg_PublicModelID := s\<rparr>"
| "write_field K_GLOBAL_MONTHLY_SPEND_MICRO_USD n s c = c\<lparr>cfg_GlobalMonthlySpendPUSD := n * 1000000\<rparr>"
| "write_field K_MONTHLY_QUOTA n s c = c\<lparr>cfg_MonthlyQuota := n\<rparr>"
| "write_field K_MAX_TOKENS_CAP n s c = c\<lparr>cfg_MaxTokensCap := n\<rparr>"
| "write_field K_INPUT_TOKEN_CAP n s c = c\<lparr>cfg_InputTokenCap := n\<rparr>"
| "write_field K_MAX_MESSAGES n s c = c\<lparr>cfg_MaxMessages := n\<rparr>"
| "write_field K_MAX_MESSAGE_CHARS n s c = c\<lparr>cfg_MaxMessageChars := n\<rparr>"
| "write_field K_MAX_MEDIA_PARTS n s c = c\<lparr>cfg_MaxMediaParts := n\<rparr>"
| "write_field K_MAX_MEDIA_DECODED_BYTES n s c = c\<lparr>cfg_MaxMediaDecodedBytes := n\<rparr>"
| "write_field K_MAX_BODY_BYTES n s c = c\<lparr>cfg_MaxBodyBytes := n\<rparr>"
| "write_field K_N_GLOBAL_CONCURRENCY n s c = c\<lparr>cfg_NGlobalConcurrency := n\<rparr>"
| "write_field K_RATE_PER_MIN n s c = c\<lparr>cfg_RatePerMin := n\<rparr>"
| "write_field K_DAILY_SUBLIMIT n s c = c\<lparr>cfg_DailySublimit := n\<rparr>"
| "write_field K_IMAGE_DAILY_LIMIT n s c = c\<lparr>cfg_ImageDailyLimit := n\<rparr>"
| "write_field K_VOICE_DAILY_LIMIT n s c = c\<lparr>cfg_VoiceDailyLimit := n\<rparr>"
| "write_field K_VOICE_ACCOUNT_CEILING n s c = c\<lparr>cfg_VoiceAccountCeiling := n\<rparr>"
| "write_field K_SPEECH_DAILY_LIMIT n s c = c\<lparr>cfg_SpeechDailyLimit := n\<rparr>"
| "write_field K_VIDEO_DAILY_LIMIT n s c = c\<lparr>cfg_VideoDailyLimit := n\<rparr>"
| "write_field K_INSTALL_PER_IP_HOUR n s c = c\<lparr>cfg_InstallPerIPHour := n\<rparr>"
| "write_field K_INSTALL_GLOBAL_DAILY_CAP n s c = c\<lparr>cfg_InstallGlobalDailyCap := n\<rparr>"
| "write_field K_INSTALL_PER_FP_DAILY n s c = c\<lparr>cfg_InstallPerFPDaily := n\<rparr>"
| "write_field K_INSTALL_PER_FP_COOLDOWN_SEC n s c = c\<lparr>cfg_InstallPerFPCooldownSec := n\<rparr>"
| "write_field K_INSTALL_POW_MODE n s c = c\<lparr>cfg_InstallPowMode := s\<rparr>"
| "write_field K_INSTALL_POW_DIFFICULTY n s c = c\<lparr>cfg_InstallPowDifficulty := n\<rparr>"
| "write_field K_TOKEN_ANOMALY_RPM n s c = c\<lparr>cfg_TokenAnomalyRPM := n\<rparr>"
| "write_field K_TOKEN_THROTTLE_FACTOR n s c = c\<lparr>cfg_TokenThrottleFactor := n\<rparr>"
| "write_field K_TOKEN_THROTTLE_COOLDOWN_SEC n s c = c\<lparr>cfg_TokenThrottleCooldownSec := n\<rparr>"
| "write_field K_QUEUE_WAIT_MS n s c = c\<lparr>cfg_QueueWait := n * 1000000\<rparr>"
| "write_field K_UPSTREAM_HEADER_TIMEOUT_SEC n s c = c\<lparr>cfg_UpstreamHeaderTimeout := n * 1000000000\<rparr>"
| "write_field K_DISK_MIN_MB n s c = c\<lparr>cfg_DiskMinMB := n\<rparr>"
| "write_field K_DISK_MIN_PERCENT n s c = c\<lparr>cfg_DiskMinPercent := n\<rparr>"
text \<open>The raw content of the field a knob writes, and what a write leaves there.\<close>

fun knob_field :: "knob \<Rightarrow> config \<Rightarrow> int \<times> string" where
  "knob_field K_GATEWAY_MODE c = (0, cfg_RuntimeMode c)"
| "knob_field K_PUBLIC_MODEL_ID c = (0, cfg_PublicModelID c)"
| "knob_field K_GLOBAL_MONTHLY_SPEND_MICRO_USD c = (cfg_GlobalMonthlySpendPUSD c, [])"
| "knob_field K_MONTHLY_QUOTA c = (cfg_MonthlyQuota c, [])"
| "knob_field K_MAX_TOKENS_CAP c = (cfg_MaxTokensCap c, [])"
| "knob_field K_INPUT_TOKEN_CAP c = (cfg_InputTokenCap c, [])"
| "knob_field K_MAX_MESSAGES c = (cfg_MaxMessages c, [])"
| "knob_field K_MAX_MESSAGE_CHARS c = (cfg_MaxMessageChars c, [])"
| "knob_field K_MAX_MEDIA_PARTS c = (cfg_MaxMediaParts c, [])"
| "knob_field K_MAX_MEDIA_DECODED_BYTES c = (cfg_MaxMediaDecodedBytes c, [])"
| "knob_field K_MAX_BODY_BYTES c = (cfg_MaxBodyBytes c, [])"
| "knob_field K_N_GLOBAL_CONCURRENCY c = (cfg_NGlobalConcurrency c, [])"
| "knob_field K_RATE_PER_MIN c = (cfg_RatePerMin c, [])"
| "knob_field K_DAILY_SUBLIMIT c = (cfg_DailySublimit c, [])"
| "knob_field K_IMAGE_DAILY_LIMIT c = (cfg_ImageDailyLimit c, [])"
| "knob_field K_VOICE_DAILY_LIMIT c = (cfg_VoiceDailyLimit c, [])"
| "knob_field K_VOICE_ACCOUNT_CEILING c = (cfg_VoiceAccountCeiling c, [])"
| "knob_field K_SPEECH_DAILY_LIMIT c = (cfg_SpeechDailyLimit c, [])"
| "knob_field K_VIDEO_DAILY_LIMIT c = (cfg_VideoDailyLimit c, [])"
| "knob_field K_INSTALL_PER_IP_HOUR c = (cfg_InstallPerIPHour c, [])"
| "knob_field K_INSTALL_GLOBAL_DAILY_CAP c = (cfg_InstallGlobalDailyCap c, [])"
| "knob_field K_INSTALL_PER_FP_DAILY c = (cfg_InstallPerFPDaily c, [])"
| "knob_field K_INSTALL_PER_FP_COOLDOWN_SEC c = (cfg_InstallPerFPCooldownSec c, [])"
| "knob_field K_INSTALL_POW_MODE c = (0, cfg_InstallPowMode c)"
| "knob_field K_INSTALL_POW_DIFFICULTY c = (cfg_InstallPowDifficulty c, [])"
| "knob_field K_TOKEN_ANOMALY_RPM c = (cfg_TokenAnomalyRPM c, [])"
| "knob_field K_TOKEN_THROTTLE_FACTOR c = (cfg_TokenThrottleFactor c, [])"
| "knob_field K_TOKEN_THROTTLE_COOLDOWN_SEC c = (cfg_TokenThrottleCooldownSec c, [])"
| "knob_field K_QUEUE_WAIT_MS c = (cfg_QueueWait c, [])"
| "knob_field K_UPSTREAM_HEADER_TIMEOUT_SEC c = (cfg_UpstreamHeaderTimeout c, [])"
| "knob_field K_DISK_MIN_MB c = (cfg_DiskMinMB c, [])"
| "knob_field K_DISK_MIN_PERCENT c = (cfg_DiskMinPercent c, [])"

definition knob_key :: "knob \<Rightarrow> string" where
  "knob_key k = Key (spec_of k)"

definition int_knob :: "knob \<Rightarrow> bool" where
  "int_knob k \<longleftrightarrow> k \<notin> {K_GATEWAY_MODE, K_PUBLIC_MODEL_ID, K_INSTALL_POW_MODE}"

text \<open>The value a text stands for: a bounded integer, or a word; \<open>b\<close> says whether the PoW secret is set.\<close>

definition knob_value :: "bool \<Rightarrow> knob \<Rightarrow> string \<Rightarrow> (int \<times> string) option" where
  "knob_value b k raw =
     (let t = TrimSpace raw in
      if int_knob k
      then (case parse_int t of None \<Rightarrow> None
            | Some n \<Rightarrow> if spec_Min (spec_of k) \<le> n \<and> n \<le> spec_Max (spec_of k) then Some (n, []) else None)
      else if k = K_GATEWAY_MODE then (if t \<in> {''debug'', ''production''} then Some (0, t) else None)
      else if k = K_PUBLIC_MODEL_ID then (if t \<noteq> [] then Some (0, t) else None)
      else if t = ''off'' \<or> (t \<in> {''shadow'', ''enforce''} \<and> b) then Some (0, t) else None)"

definition knob_write :: "knob \<Rightarrow> int \<times> string \<Rightarrow> config \<Rightarrow> config" where
  "knob_write k v = write_field k (fst v) (snd v)"

definition knob_stored :: "knob \<Rightarrow> int \<times> string \<Rightarrow> int \<times> string" where
  "knob_stored k v =
     (if int_knob k
      then (fst v * (if k \<in> {K_GLOBAL_MONTHLY_SPEND_MICRO_USD, K_QUEUE_WAIT_MS} then 1000000
             else if k = K_UPSTREAM_HEADER_TIMEOUT_SEC then 1000000000 else 1), [])
      else (0, snd v))"

definition has_secret :: "config \<Rightarrow> bool" where
  "has_secret c \<longleftrightarrow> cfg_InstallPowSecret c \<noteq> []"

lemma all_knobs_complete: "k \<in> set all_knobs"
  by (cases k) (simp_all add: all_knobs_def)

lemma spec_of_hot [simp]: "spec_Tier (spec_of k) = TierRuntimeHot"
  by (cases k) (simp_all add: int_spec_def text_spec_def)

lemma Bounded_spec [simp]: "Bounded (spec_of k) = int_knob k"
  by (cases k) (simp_all add: int_spec_def text_spec_def int_knob_def)

lemma reqInt64_map:
  "(case reqInt64 q k raw lo hi of Inl err \<Rightarrow> Inl err | Inr n \<Rightarrow> Inr (f n)) = Inr c' \<longleftrightarrow>
     (\<exists>n. parse_int (TrimSpace raw) = Some n \<and> lo \<le> n \<and> n \<le> hi \<and> c' = f n)"
proof (cases "reqInt64 q k raw lo hi")
  case (Inl e)
  then show ?thesis using reqInt64_Inr[of q k raw lo hi] by auto
next
  case (Inr m)
  with reqInt64_Inr[of q k raw lo hi m] show ?thesis by auto
qed

lemma knob_apply:
  "the (spec_apply (spec_of k)) q c raw = Inr c' \<longleftrightarrow>
     (\<exists>v. knob_value (has_secret c) k raw = Some v \<and> c' = knob_write k v c)"
proof (cases "int_knob k")
  case True
  then show ?thesis
    by (cases k) (auto simp: int_spec_def text_spec_def int_knob_def knob_value_def knob_write_def Let_def reqInt64_map
        split: option.splits)
next
  case False
  then consider "k = K_GATEWAY_MODE" | "k = K_PUBLIC_MODEL_ID" | "k = K_INSTALL_POW_MODE" by (auto simp: int_knob_def)
  then show ?thesis
    by cases (auto simp: text_spec_def int_knob_def knob_value_def knob_write_def Let_def has_secret_def
        ValidateRuntimeMode_def ValidatePowMode_def validatePowSecretPresent_def
        RuntimeModeDebug_def RuntimeModeProduction_def PowModeOff_def PowModeShadow_def PowModeEnforce_def)
qed

lemma field_write:
  "knob_field k (knob_write k' v c) = (if k = k' then knob_stored k v else knob_field k c)"
  by (cases k; cases k'; simp add: knob_write_def knob_stored_def int_knob_def)

lemma write_absorb: "knob_write k v (knob_write k v' c) = knob_write k v c"
  by (cases k) (simp_all add: knob_write_def)

lemma write_secret [simp]: "has_secret (knob_write k v c) = has_secret c"
  by (cases k) (simp_all add: knob_write_def has_secret_def)

definition unwritten :: "config \<Rightarrow> config" where
  "unwritten c = fold (\<lambda>k. knob_write k (0, [])) all_knobs c"

lemma unwritten_write: "unwritten (knob_write k v c) = unwritten c"
  unfolding unwritten_def all_knobs_def by (cases k) (simp_all add: knob_write_def)

lemma unwritten_cold:
  "cfg_QwenAPIKeys (unwritten c) = cfg_QwenAPIKeys c"
  "cfg_QwenBaseURL (unwritten c) = cfg_QwenBaseURL c"
  "cfg_MultimodalUpstreamModel (unwritten c) = cfg_MultimodalUpstreamModel c"
  "cfg_InstallPowSecret (unwritten c) = cfg_InstallPowSecret c"
  "cfg_InstallPowSecretSource (unwritten c) = cfg_InstallPowSecretSource c"
  "cfg_GoMemLimitMiB (unwritten c) = cfg_GoMemLimitMiB c"
  "cfg_SQLiteCacheKiB (unwritten c) = cfg_SQLiteCacheKiB c"
  "cfg_SQLiteMmapBytes (unwritten c) = cfg_SQLiteMmapBytes c"
  "cfg_SQLiteAutockptPage (unwritten c) = cfg_SQLiteAutockptPage c"
  "cfg_ReadPoolMaxConns (unwritten c) = cfg_ReadPoolMaxConns c"
  "cfg_MemBudgetMiB (unwritten c) = cfg_MemBudgetMiB c"
  "cfg_MemSafetyMarginMiB (unwritten c) = cfg_MemSafetyMarginMiB c"
  "cfg_DashScopeNativeBase (unwritten c) = cfg_DashScopeNativeBase c"
  "cfg_ImageEnabled (unwritten c) = cfg_ImageEnabled c"
  "cfg_ImageUpstreamModel (unwritten c) = cfg_ImageUpstreamModel c"
  "cfg_SpeechEnabled (unwritten c) = cfg_SpeechEnabled c"
  "cfg_TTSUpstreamModel (unwritten c) = cfg_TTSUpstreamModel c"
  "cfg_TTSDefaultVoice (unwritten c) = cfg_TTSDefaultVoice c"
  "cfg_VideoEnabled (unwritten c) = cfg_VideoEnabled c"
  "cfg_VideoUpstreamModel (unwritten c) = cfg_VideoUpstreamModel c"
  "cfg_VideoI2VUpstreamModel (unwritten c) = cfg_VideoI2VUpstreamModel c"
  "cfg_VideoHandleKey (unwritten c) = cfg_VideoHandleKey c"
  "cfg_MediaEnabled (unwritten c) = cfg_MediaEnabled c"
  "cfg_MediaStagingRoot (unwritten c) = cfg_MediaStagingRoot c"
  "cfg_MediaSigningSecret (unwritten c) = cfg_MediaSigningSecret c"
  "cfg_MediaSigningSecretSource (unwritten c) = cfg_MediaSigningSecretSource c"
  "cfg_MediaUploadMaxBytes (unwritten c) = cfg_MediaUploadMaxBytes c"
  "cfg_MediaChunkMaxBytes (unwritten c) = cfg_MediaChunkMaxBytes c"
  "cfg_MediaUploadTTL (unwritten c) = cfg_MediaUploadTTL c"
  "cfg_MediaLeaseTTL (unwritten c) = cfg_MediaLeaseTTL c"
  "cfg_MediaFetchDomain (unwritten c) = cfg_MediaFetchDomain c"
  "cfg_ResetTZ (unwritten c) = cfg_ResetTZ c"
  "cfg_Location (unwritten c) = cfg_Location c"
  "cfg_ListenAddr (unwritten c) = cfg_ListenAddr c"
  "cfg_AdminAddr (unwritten c) = cfg_AdminAddr c"
  "cfg_DashboardAddr (unwritten c) = cfg_DashboardAddr c"
  "cfg_LogLevel (unwritten c) = cfg_LogLevel c"
  "cfg_DBPath (unwritten c) = cfg_DBPath c"
  by (simp_all add: unwritten_def all_knobs_def knob_write_def)

lemma config_ext:
  assumes f: "\<And>k. knob_field k c = knob_field k c'" and u: "unwritten c = unwritten c'"
  shows "c = c'"
proof -
  have "cfg_RuntimeMode c = cfg_RuntimeMode c'" using f[of K_GATEWAY_MODE] by simp
  have "cfg_PublicModelID c = cfg_PublicModelID c'" using f[of K_PUBLIC_MODEL_ID] by simp
  have "cfg_GlobalMonthlySpendPUSD c = cfg_GlobalMonthlySpendPUSD c'" using f[of K_GLOBAL_MONTHLY_SPEND_MICRO_USD] by simp
  have "cfg_MonthlyQuota c = cfg_MonthlyQuota c'" using f[of K_MONTHLY_QUOTA] by simp
  have "cfg_MaxTokensCap c = cfg_MaxTokensCap c'" using f[of K_MAX_TOKENS_CAP] by simp
  have "cfg_InputTokenCap c = cfg_InputTokenCap c'" using f[of K_INPUT_TOKEN_CAP] by simp
  have "cfg_MaxMessages c = cfg_MaxMessages c'" using f[of K_MAX_MESSAGES] by simp
  have "cfg_MaxMessageChars c = cfg_MaxMessageChars c'" using f[of K_MAX_MESSAGE_CHARS] by simp
  have "cfg_MaxMediaParts c = cfg_MaxMediaParts c'" using f[of K_MAX_MEDIA_PARTS] by simp
  have "cfg_MaxMediaDecodedBytes c = cfg_MaxMediaDecodedBytes c'" using f[of K_MAX_MEDIA_DECODED_BYTES] by simp
  have "cfg_MaxBodyBytes c = cfg_MaxBodyBytes c'" using f[of K_MAX_BODY_BYTES] by simp
  have "cfg_NGlobalConcurrency c = cfg_NGlobalConcurrency c'" using f[of K_N_GLOBAL_CONCURRENCY] by simp
  have "cfg_RatePerMin c = cfg_RatePerMin c'" using f[of K_RATE_PER_MIN] by simp
  have "cfg_DailySublimit c = cfg_DailySublimit c'" using f[of K_DAILY_SUBLIMIT] by simp
  have "cfg_ImageDailyLimit c = cfg_ImageDailyLimit c'" using f[of K_IMAGE_DAILY_LIMIT] by simp
  have "cfg_VoiceDailyLimit c = cfg_VoiceDailyLimit c'" using f[of K_VOICE_DAILY_LIMIT] by simp
  have "cfg_VoiceAccountCeiling c = cfg_VoiceAccountCeiling c'" using f[of K_VOICE_ACCOUNT_CEILING] by simp
  have "cfg_SpeechDailyLimit c = cfg_SpeechDailyLimit c'" using f[of K_SPEECH_DAILY_LIMIT] by simp
  have "cfg_VideoDailyLimit c = cfg_VideoDailyLimit c'" using f[of K_VIDEO_DAILY_LIMIT] by simp
  have "cfg_InstallPerIPHour c = cfg_InstallPerIPHour c'" using f[of K_INSTALL_PER_IP_HOUR] by simp
  have "cfg_InstallGlobalDailyCap c = cfg_InstallGlobalDailyCap c'" using f[of K_INSTALL_GLOBAL_DAILY_CAP] by simp
  have "cfg_InstallPerFPDaily c = cfg_InstallPerFPDaily c'" using f[of K_INSTALL_PER_FP_DAILY] by simp
  have "cfg_InstallPerFPCooldownSec c = cfg_InstallPerFPCooldownSec c'" using f[of K_INSTALL_PER_FP_COOLDOWN_SEC] by simp
  have "cfg_InstallPowMode c = cfg_InstallPowMode c'" using f[of K_INSTALL_POW_MODE] by simp
  have "cfg_InstallPowDifficulty c = cfg_InstallPowDifficulty c'" using f[of K_INSTALL_POW_DIFFICULTY] by simp
  have "cfg_TokenAnomalyRPM c = cfg_TokenAnomalyRPM c'" using f[of K_TOKEN_ANOMALY_RPM] by simp
  have "cfg_TokenThrottleFactor c = cfg_TokenThrottleFactor c'" using f[of K_TOKEN_THROTTLE_FACTOR] by simp
  have "cfg_TokenThrottleCooldownSec c = cfg_TokenThrottleCooldownSec c'" using f[of K_TOKEN_THROTTLE_COOLDOWN_SEC] by simp
  have "cfg_QueueWait c = cfg_QueueWait c'" using f[of K_QUEUE_WAIT_MS] by simp
  have "cfg_UpstreamHeaderTimeout c = cfg_UpstreamHeaderTimeout c'" using f[of K_UPSTREAM_HEADER_TIMEOUT_SEC] by simp
  have "cfg_DiskMinMB c = cfg_DiskMinMB c'" using f[of K_DISK_MIN_MB] by simp
  have "cfg_DiskMinPercent c = cfg_DiskMinPercent c'" using f[of K_DISK_MIN_PERCENT] by simp
  have "cfg_QwenAPIKeys c = cfg_QwenAPIKeys c'" using arg_cong[OF u, of cfg_QwenAPIKeys] by (simp only: unwritten_cold)
  have "cfg_QwenBaseURL c = cfg_QwenBaseURL c'" using arg_cong[OF u, of cfg_QwenBaseURL] by (simp only: unwritten_cold)
  have "cfg_MultimodalUpstreamModel c = cfg_MultimodalUpstreamModel c'" using arg_cong[OF u, of cfg_MultimodalUpstreamModel] by (simp only: unwritten_cold)
  have "cfg_InstallPowSecret c = cfg_InstallPowSecret c'" using arg_cong[OF u, of cfg_InstallPowSecret] by (simp only: unwritten_cold)
  have "cfg_InstallPowSecretSource c = cfg_InstallPowSecretSource c'" using arg_cong[OF u, of cfg_InstallPowSecretSource] by (simp only: unwritten_cold)
  have "cfg_GoMemLimitMiB c = cfg_GoMemLimitMiB c'" using arg_cong[OF u, of cfg_GoMemLimitMiB] by (simp only: unwritten_cold)
  have "cfg_SQLiteCacheKiB c = cfg_SQLiteCacheKiB c'" using arg_cong[OF u, of cfg_SQLiteCacheKiB] by (simp only: unwritten_cold)
  have "cfg_SQLiteMmapBytes c = cfg_SQLiteMmapBytes c'" using arg_cong[OF u, of cfg_SQLiteMmapBytes] by (simp only: unwritten_cold)
  have "cfg_SQLiteAutockptPage c = cfg_SQLiteAutockptPage c'" using arg_cong[OF u, of cfg_SQLiteAutockptPage] by (simp only: unwritten_cold)
  have "cfg_ReadPoolMaxConns c = cfg_ReadPoolMaxConns c'" using arg_cong[OF u, of cfg_ReadPoolMaxConns] by (simp only: unwritten_cold)
  have "cfg_MemBudgetMiB c = cfg_MemBudgetMiB c'" using arg_cong[OF u, of cfg_MemBudgetMiB] by (simp only: unwritten_cold)
  have "cfg_MemSafetyMarginMiB c = cfg_MemSafetyMarginMiB c'" using arg_cong[OF u, of cfg_MemSafetyMarginMiB] by (simp only: unwritten_cold)
  have "cfg_DashScopeNativeBase c = cfg_DashScopeNativeBase c'" using arg_cong[OF u, of cfg_DashScopeNativeBase] by (simp only: unwritten_cold)
  have "cfg_ImageEnabled c = cfg_ImageEnabled c'" using arg_cong[OF u, of cfg_ImageEnabled] by (simp only: unwritten_cold)
  have "cfg_ImageUpstreamModel c = cfg_ImageUpstreamModel c'" using arg_cong[OF u, of cfg_ImageUpstreamModel] by (simp only: unwritten_cold)
  have "cfg_SpeechEnabled c = cfg_SpeechEnabled c'" using arg_cong[OF u, of cfg_SpeechEnabled] by (simp only: unwritten_cold)
  have "cfg_TTSUpstreamModel c = cfg_TTSUpstreamModel c'" using arg_cong[OF u, of cfg_TTSUpstreamModel] by (simp only: unwritten_cold)
  have "cfg_TTSDefaultVoice c = cfg_TTSDefaultVoice c'" using arg_cong[OF u, of cfg_TTSDefaultVoice] by (simp only: unwritten_cold)
  have "cfg_VideoEnabled c = cfg_VideoEnabled c'" using arg_cong[OF u, of cfg_VideoEnabled] by (simp only: unwritten_cold)
  have "cfg_VideoUpstreamModel c = cfg_VideoUpstreamModel c'" using arg_cong[OF u, of cfg_VideoUpstreamModel] by (simp only: unwritten_cold)
  have "cfg_VideoI2VUpstreamModel c = cfg_VideoI2VUpstreamModel c'" using arg_cong[OF u, of cfg_VideoI2VUpstreamModel] by (simp only: unwritten_cold)
  have "cfg_VideoHandleKey c = cfg_VideoHandleKey c'" using arg_cong[OF u, of cfg_VideoHandleKey] by (simp only: unwritten_cold)
  have "cfg_MediaEnabled c = cfg_MediaEnabled c'" using arg_cong[OF u, of cfg_MediaEnabled] by (simp only: unwritten_cold)
  have "cfg_MediaStagingRoot c = cfg_MediaStagingRoot c'" using arg_cong[OF u, of cfg_MediaStagingRoot] by (simp only: unwritten_cold)
  have "cfg_MediaSigningSecret c = cfg_MediaSigningSecret c'" using arg_cong[OF u, of cfg_MediaSigningSecret] by (simp only: unwritten_cold)
  have "cfg_MediaSigningSecretSource c = cfg_MediaSigningSecretSource c'" using arg_cong[OF u, of cfg_MediaSigningSecretSource] by (simp only: unwritten_cold)
  have "cfg_MediaUploadMaxBytes c = cfg_MediaUploadMaxBytes c'" using arg_cong[OF u, of cfg_MediaUploadMaxBytes] by (simp only: unwritten_cold)
  have "cfg_MediaChunkMaxBytes c = cfg_MediaChunkMaxBytes c'" using arg_cong[OF u, of cfg_MediaChunkMaxBytes] by (simp only: unwritten_cold)
  have "cfg_MediaUploadTTL c = cfg_MediaUploadTTL c'" using arg_cong[OF u, of cfg_MediaUploadTTL] by (simp only: unwritten_cold)
  have "cfg_MediaLeaseTTL c = cfg_MediaLeaseTTL c'" using arg_cong[OF u, of cfg_MediaLeaseTTL] by (simp only: unwritten_cold)
  have "cfg_MediaFetchDomain c = cfg_MediaFetchDomain c'" using arg_cong[OF u, of cfg_MediaFetchDomain] by (simp only: unwritten_cold)
  have "cfg_ResetTZ c = cfg_ResetTZ c'" using arg_cong[OF u, of cfg_ResetTZ] by (simp only: unwritten_cold)
  have "cfg_Location c = cfg_Location c'" using arg_cong[OF u, of cfg_Location] by (simp only: unwritten_cold)
  have "cfg_ListenAddr c = cfg_ListenAddr c'" using arg_cong[OF u, of cfg_ListenAddr] by (simp only: unwritten_cold)
  have "cfg_AdminAddr c = cfg_AdminAddr c'" using arg_cong[OF u, of cfg_AdminAddr] by (simp only: unwritten_cold)
  have "cfg_DashboardAddr c = cfg_DashboardAddr c'" using arg_cong[OF u, of cfg_DashboardAddr] by (simp only: unwritten_cold)
  have "cfg_LogLevel c = cfg_LogLevel c'" using arg_cong[OF u, of cfg_LogLevel] by (simp only: unwritten_cold)
  have "cfg_DBPath c = cfg_DBPath c'" using arg_cong[OF u, of cfg_DBPath] by (simp only: unwritten_cold)
  show ?thesis by (rule config.equality; (fact | simp))
qed

lemma write_comm: "k \<noteq> k' \<Longrightarrow> knob_write k v (knob_write k' v' c) = knob_write k' v' (knob_write k v c)"
  by (rule config_ext) (auto simp: field_write unwritten_write)

lemma unwritten_frame:
  assumes "unwritten c = unwritten c'"
  shows "cfg_QwenAPIKeys c = cfg_QwenAPIKeys c'" "cfg_InstallPowSecret c = cfg_InstallPowSecret c'"
    "cfg_MediaSigningSecret c = cfg_MediaSigningSecret c'" "cfg_VideoHandleKey c = cfg_VideoHandleKey c'"
    "ValidateMemoryBudget c = ValidateMemoryBudget c'" "has_secret c = has_secret c'"
proof -
  note eq = assms[THEN arg_cong, unfolded unwritten_cold]
  have "g (unwritten c) = g (unwritten c')" for g :: "config \<Rightarrow> 'x" using assms by simp
  show "cfg_QwenAPIKeys c = cfg_QwenAPIKeys c'" "cfg_InstallPowSecret c = cfg_InstallPowSecret c'"
    "cfg_MediaSigningSecret c = cfg_MediaSigningSecret c'" "cfg_VideoHandleKey c = cfg_VideoHandleKey c'"
    using assms by (metis unwritten_cold)+
  then show "has_secret c = has_secret c'" by (simp add: has_secret_def)
  have "cfg_GoMemLimitMiB c = cfg_GoMemLimitMiB c'" "cfg_MemBudgetMiB c = cfg_MemBudgetMiB c'"
    "cfg_MemSafetyMarginMiB c = cfg_MemSafetyMarginMiB c'" "cfg_SQLiteCacheKiB c = cfg_SQLiteCacheKiB c'"
    "cfg_ReadPoolMaxConns c = cfg_ReadPoolMaxConns c'" "cfg_SQLiteMmapBytes c = cfg_SQLiteMmapBytes c'"
    using assms by (metis unwritten_cold)+
  then show "ValidateMemoryBudget c = ValidateMemoryBudget c'"
    unfolding ValidateMemoryBudget_def WorstCaseMemoryMiB_def by (simp only:)
qed

section \<open>Keys\<close>

lemma keys_distinct: "distinct (map Key Specs)"
  by (simp add: Specs_def all_knobs_def startup_specs_def int_spec_def text_spec_def startup_spec_def)

lemma knob_key_inj [simp]: "knob_key k = knob_key k' \<longleftrightarrow> k = k'"
proof -
  have "distinct (map Key (map spec_of all_knobs))" using keys_distinct by (simp add: Specs_def)
  then have "inj_on (\<lambda>k. Key (spec_of k)) (set all_knobs)" by (simp add: distinct_map o_def)
  then show ?thesis by (auto simp: knob_key_def inj_on_def all_knobs_complete)
qed

lemma specByKey_iff: "specByKey k = Some s \<longleftrightarrow> s \<in> set Specs \<and> Key s = k"
proof -
  have "map fst (map (\<lambda>s. (Key s, s)) Specs) = map Key Specs" by (simp add: o_def)
  then have "distinct (map fst (map (\<lambda>s. (Key s, s)) Specs))" using keys_distinct by (simp only:)
  then have "specByKey k = Some s \<longleftrightarrow> (k, s) \<in> set (map (\<lambda>s. (Key s, s)) Specs)"
    unfolding specByKey_def by (rule map_of_eq_Some_iff)
  then show ?thesis by auto
qed

lemma Specs_cases:
  assumes "s \<in> set Specs"
  obtains k where "s = spec_of k" | "s \<in> set startup_specs" "spec_Tier s = TierStartupHard"
proof -
  have "list_all (\<lambda>s. spec_Tier s = TierStartupHard) startup_specs"
    by (simp add: startup_specs_def startup_spec_def)
  then show thesis using assms that by (auto simp: Specs_def list_all_iff)
qed

lemma spec_of_apply: "spec_apply (spec_of k) \<noteq> None"
  by (cases k) (simp_all add: int_spec_def text_spec_def)

lemma applyOne_Inr:
  "applyOne q c ky raw = Inr c' \<longleftrightarrow>
     (\<exists>k v. ky = knob_key k \<and> knob_value (has_secret c) k raw = Some v \<and> c' = knob_write k v c)"
proof
  assume "applyOne q c ky raw = Inr c'"
  then obtain s ap where s: "specByKey ky = Some s" "spec_Tier s = TierRuntimeHot" "spec_apply s = Some ap" "ap q c raw = Inr c'"
    by (auto simp: applyOne_def split: option.splits Tier.splits)
  then obtain k where "s = spec_of k" using Specs_cases[of s] by (auto simp: specByKey_iff)
  with s knob_apply[of k q c raw c'] show "\<exists>k v. ky = knob_key k \<and> knob_value (has_secret c) k raw = Some v \<and> c' = knob_write k v c"
    by (auto simp: specByKey_iff knob_key_def)
next
  assume "\<exists>k v. ky = knob_key k \<and> knob_value (has_secret c) k raw = Some v \<and> c' = knob_write k v c"
  then obtain k v where k: "ky = knob_key k" "knob_value (has_secret c) k raw = Some v" "c' = knob_write k v c" by blast
  have "specByKey ky = Some (spec_of k)"
    using all_knobs_complete[of k] by (simp add: specByKey_iff k(1) knob_key_def Specs_def)
  then show "applyOne q c ky raw = Inr c'"
    using spec_of_apply[of k] knob_apply[of k q c raw c'] k by (auto simp: applyOne_def)
qed

section \<open>Batches\<close>

text \<open>The writes a list of keys stands for.\<close>

definition decoded :: "bool \<Rightarrow> (string, string) table \<Rightarrow> string list \<Rightarrow> (knob \<times> int \<times> string) list \<Rightarrow> bool" where
  "decoded b ov ks ws \<longleftrightarrow>
     list_all2 (\<lambda>ky (k, v). ky = knob_key k \<and> knob_value b k (the (tget ov ky)) = Some v) ks ws"

definition write_all :: "(knob \<times> int \<times> string) list \<Rightarrow> config \<Rightarrow> config" where
  "write_all ws = fold (\<lambda>(k, v). knob_write k v) ws"

lemma write_all_secret [simp]: "has_secret (write_all ws c) = has_secret c"
  by (induction ws arbitrary: c) (simp_all add: write_all_def split_beta)

lemma write_all_unwritten [simp]: "unwritten (write_all ws c) = unwritten c"
  by (induction ws arbitrary: c) (simp_all add: write_all_def split_beta unwritten_write)

lemma write_all_field:
  "distinct (map fst ws) \<Longrightarrow>
   knob_field k (write_all ws c) = (case map_of ws k of None \<Rightarrow> knob_field k c | Some v \<Rightarrow> knob_stored k v)"
proof (induction ws arbitrary: c)
  case (Cons w ws)
  obtain k' v where w: "w = (k', v)" by (cases w)
  have "map_of ws k' = None" using Cons.prems by (simp add: w map_of_eq_None_iff)
  with Cons show ?case by (auto simp: w write_all_def field_write split: option.split)
qed (simp add: write_all_def)

lemma apply_keys_Inr:
  "apply_keys q ov ks c = Inr c' \<longleftrightarrow> (\<exists>ws. decoded (has_secret c) ov ks ws \<and> c' = write_all ws c)"
proof (induction ks arbitrary: c)
  case (Cons ky ks)
  have "apply_keys q ov (ky # ks) c = Inr c' \<longleftrightarrow>
      (\<exists>k v ws. ky = knob_key k \<and> knob_value (has_secret c) k (the (tget ov ky)) = Some v \<and>
         decoded (has_secret c) ov ks ws \<and> c' = write_all ws (knob_write k v c))"
    by (auto simp: rbind_Inr_iff applyOne_Inr Cons)
  also have "\<dots> \<longleftrightarrow> (\<exists>ws. decoded (has_secret c) ov (ky # ks) ws \<and> c' = write_all ws c)"
    unfolding decoded_def list_all2_Cons1 write_all_def by fastforce
  finally show ?case .
qed (auto simp: decoded_def write_all_def)

lemma set_sorted_insert [simp]: "set (sorted_insert x xs) = insert x (set xs)"
  by (induction xs) auto

lemma set_sorted_keys: "set (sorted_keys ov) = fst ` set ov"
proof -
  have "set (foldr sorted_insert ks []) = set ks" for ks by (induction ks) auto
  then show ?thesis by (simp add: sorted_keys_def)
qed

lemma distinct_sorted_keys:
  assumes "distinct (map fst ov)"
  shows "distinct (sorted_keys ov)"
proof -
  have "mset (sorted_insert x xs) = add_mset x (mset xs)" for x xs by (induction xs) (auto simp: add_mset_commute)
  then have "mset (foldr sorted_insert ks []) = mset ks" for ks by (induction ks) auto
  then show ?thesis using assms unfolding sorted_keys_def by (metis mset_eq_imp_distinct_iff)
qed

lemma decoded_facts:
  assumes "decoded b ov ks ws" "distinct ks"
  shows "distinct (map fst ws)" "ks = map (knob_key \<circ> fst) ws"
    "map_of ws k = Some v \<longleftrightarrow> knob_key k \<in> set ks \<and> knob_value b k (the (tget ov (knob_key k))) = Some v"
proof -
  show ks: "ks = map (knob_key \<circ> fst) ws"
    using assms(1) unfolding decoded_def by (induction rule: list_all2_induct) auto
  with assms(2) have "distinct (map knob_key (map fst ws))" by simp
  then show d: "distinct (map fst ws)" by (simp only: distinct_map)
  have val: "knob_value b k (the (tget ov (knob_key k))) = Some v" if "(k, v) \<in> set ws" for k v
    using assms(1) that unfolding decoded_def by (induction rule: list_all2_induct) auto
  show "map_of ws k = Some v \<longleftrightarrow> knob_key k \<in> set ks \<and> knob_value b k (the (tget ov (knob_key k))) = Some v"
    unfolding map_of_eq_Some_iff[OF d]
  proof
    assume "(k, v) \<in> set ws"
    moreover from imageI[OF this, of fst] have "knob_key k \<in> set ks" unfolding ks by (force simp: image_image)
    ultimately show "knob_key k \<in> set ks \<and> knob_value b k (the (tget ov (knob_key k))) = Some v" using val by blast
  next
    assume r: "knob_key k \<in> set ks \<and> knob_value b k (the (tget ov (knob_key k))) = Some v"
    then obtain w where "w \<in> set ws" "fst w = k" unfolding ks by auto
    then have "(k, snd w) \<in> set ws" by (metis prod.collapse)
    with val[OF this] r show "(k, v) \<in> set ws" by simp
  qed
qed

lemma Config_ApplyOverrides_Inr:
  "Config_ApplyOverrides q base ov = Inr c \<longleftrightarrow>
     (\<exists>ws. decoded (has_secret base) ov (sorted_keys ov) ws \<and> c = write_all ws base) \<and> ValidateSemantics q c = None"
  by (auto simp: Config_ApplyOverrides_def rbind_Inr_iff apply_keys_Inr split: option.splits)

section \<open>What a batch changes\<close>

definition knob_unit :: "knob \<Rightarrow> int" where
  "knob_unit k =
     (if k \<in> {K_GLOBAL_MONTHLY_SPEND_MICRO_USD, K_QUEUE_WAIT_MS} then 1000000
      else if k = K_UPSTREAM_HEADER_TIMEOUT_SEC then 1000000000 else 1)"

text \<open>The text a row shows once an override has been accepted: the number written back, or the trimmed text.\<close>

definition canonical :: "knob \<Rightarrow> string \<Rightarrow> string" where
  "canonical k raw = (if int_knob k then itoa (the (parse_int (TrimSpace raw))) else TrimSpace raw)"

lemma go_div_mult [simp]: "0 < u \<Longrightarrow> go_div (n * u) u = n" "go_div n 1 = n"
proof -
  assume u: "0 < u"
  have "- (n * u) div u = - n" using u by (simp add: minus_mult_left del: mult_minus_left)
  then show "go_div (n * u) u = n" using u by (simp add: go_div_def)
qed (simp add: go_div_def)

lemma get_field:
  "spec_get (spec_of k) c = (if int_knob k then itoa (go_div (fst (knob_field k c)) (knob_unit k)) else snd (knob_field k c))"
  by (cases k) (simp_all add: int_spec_def text_spec_def int_knob_def knob_unit_def)

lemma get_write:
  assumes "knob_value b k raw = Some v" "knob_field k c = knob_stored k v"
  shows "spec_get (spec_of k) c = canonical k raw"
proof (cases "int_knob k")
  case True
  then have "parse_int (TrimSpace raw) = Some (fst v)"
    using assms(1) by (auto simp: knob_value_def Let_def split: option.splits if_splits)
  then show ?thesis using True assms(2) by (simp add: get_field canonical_def knob_stored_def knob_unit_def)
next
  case False
  then have "snd v = TrimSpace raw" using assms(1) by (auto simp: knob_value_def Let_def split: if_splits)
  then show ?thesis using False assms(2) by (simp add: get_field canonical_def knob_stored_def)
qed

lemma startup_get:
  assumes "unwritten c = unwritten c'" "s \<in> set startup_specs"
  shows "spec_get s c = spec_get s c'"
proof -
  have eq: "spec_get s (unwritten c) = spec_get s c" for c
  proof -
    have "list_all (\<lambda>s. spec_get s (unwritten c) = spec_get s c) startup_specs"
      by (simp add: startup_specs_def startup_spec_def unwritten_cold)
    with assms(2) show ?thesis by (simp add: list_all_iff)
  qed
  show ?thesis using eq[of c] eq[of c'] assms(1) by simp
qed

lemma batch_fields:
  assumes ok: "Config_ApplyOverrides q base ov = Inr c" and d: "distinct (map fst ov)"
  shows "unwritten c = unwritten base"
    and "tget ov (knob_key k) = Some raw \<Longrightarrow>
      \<exists>v. knob_value (has_secret base) k raw = Some v \<and> knob_field k c = knob_stored k v"
    and "tget ov (knob_key k) = None \<Longrightarrow> knob_field k c = knob_field k base"
    and "ky \<in> fst ` set ov \<Longrightarrow> \<exists>k. ky = knob_key k"
    and "ValidateSemantics q c = None"
proof -
  from ok obtain ws where dec: "decoded (has_secret base) ov (sorted_keys ov) ws" and c: "c = write_all ws base"
    and v: "ValidateSemantics q c = None"
    by (auto simp: Config_ApplyOverrides_Inr)
  note facts = decoded_facts[OF dec distinct_sorted_keys[OF d]]
  show "unwritten c = unwritten base" "ValidateSemantics q c = None" using v by (simp_all add: c)
  show "\<exists>k. ky = knob_key k" if "ky \<in> fst ` set ov"
  proof -
    have "ky \<in> set (map (knob_key \<circ> fst) ws)" using that set_sorted_keys[of ov] facts(2) by simp
    then show ?thesis by auto
  qed
  have in_ov: "knob_key k \<in> set (sorted_keys ov) \<longleftrightarrow> tget ov (knob_key k) \<noteq> None"
    by (simp add: set_sorted_keys tget_def map_of_eq_None_iff)
  show "\<exists>v. knob_value (has_secret base) k raw = Some v \<and> knob_field k c = knob_stored k v"
    if raw: "tget ov (knob_key k) = Some raw"
  proof -
    have "knob_key k \<in> set (map (knob_key \<circ> fst) ws)" using raw in_ov facts(2) by simp
    then have "k \<in> fst ` set ws" by force
    then obtain v where "map_of ws k = Some v" using facts(1) by (auto simp: map_of_eq_Some_iff)
    then show ?thesis using facts(1,3) raw by (auto simp: c write_all_field)
  qed
  show "knob_field k c = knob_field k base" if "tget ov (knob_key k) = None"
  proof -
    have "map_of ws k = None" using that in_ov facts(3) by (cases "map_of ws k") auto
    then show ?thesis using facts(1) by (simp add: c write_all_field)
  qed
qed

text \<open>Two configurations that agree but for the fields of the table differ in those fields only.\<close>

lemma only_knobs:
  assumes "unwritten c = unwritten base"
  shows "c = base\<lparr>
      cfg_RuntimeMode := cfg_RuntimeMode c, cfg_PublicModelID := cfg_PublicModelID c,
      cfg_GlobalMonthlySpendPUSD := cfg_GlobalMonthlySpendPUSD c, cfg_MonthlyQuota := cfg_MonthlyQuota c,
      cfg_MaxTokensCap := cfg_MaxTokensCap c, cfg_InputTokenCap := cfg_InputTokenCap c,
      cfg_MaxMessages := cfg_MaxMessages c, cfg_MaxMessageChars := cfg_MaxMessageChars c,
      cfg_MaxMediaParts := cfg_MaxMediaParts c, cfg_MaxMediaDecodedBytes := cfg_MaxMediaDecodedBytes c,
      cfg_MaxBodyBytes := cfg_MaxBodyBytes c, cfg_NGlobalConcurrency := cfg_NGlobalConcurrency c,
      cfg_RatePerMin := cfg_RatePerMin c, cfg_DailySublimit := cfg_DailySublimit c,
      cfg_ImageDailyLimit := cfg_ImageDailyLimit c, cfg_VoiceDailyLimit := cfg_VoiceDailyLimit c,
      cfg_VoiceAccountCeiling := cfg_VoiceAccountCeiling c, cfg_SpeechDailyLimit := cfg_SpeechDailyLimit c,
      cfg_VideoDailyLimit := cfg_VideoDailyLimit c, cfg_InstallPerIPHour := cfg_InstallPerIPHour c,
      cfg_InstallGlobalDailyCap := cfg_InstallGlobalDailyCap c,
      cfg_InstallPerFPDaily := cfg_InstallPerFPDaily c,
      cfg_InstallPerFPCooldownSec := cfg_InstallPerFPCooldownSec c, cfg_InstallPowMode := cfg_InstallPowMode c,
      cfg_InstallPowDifficulty := cfg_InstallPowDifficulty c, cfg_TokenAnomalyRPM := cfg_TokenAnomalyRPM c,
      cfg_TokenThrottleFactor := cfg_TokenThrottleFactor c,
      cfg_TokenThrottleCooldownSec := cfg_TokenThrottleCooldownSec c, cfg_QueueWait := cfg_QueueWait c,
      cfg_UpstreamHeaderTimeout := cfg_UpstreamHeaderTimeout c, cfg_DiskMinMB := cfg_DiskMinMB c,
      cfg_DiskMinPercent := cfg_DiskMinPercent c\<rparr>"
proof (rule config_ext)
  show "knob_field k c = knob_field k (base\<lparr>
      cfg_RuntimeMode := cfg_RuntimeMode c, cfg_PublicModelID := cfg_PublicModelID c,
      cfg_GlobalMonthlySpendPUSD := cfg_GlobalMonthlySpendPUSD c, cfg_MonthlyQuota := cfg_MonthlyQuota c,
      cfg_MaxTokensCap := cfg_MaxTokensCap c, cfg_InputTokenCap := cfg_InputTokenCap c,
      cfg_MaxMessages := cfg_MaxMessages c, cfg_MaxMessageChars := cfg_MaxMessageChars c,
      cfg_MaxMediaParts := cfg_MaxMediaParts c, cfg_MaxMediaDecodedBytes := cfg_MaxMediaDecodedBytes c,
      cfg_MaxBodyBytes := cfg_MaxBodyBytes c, cfg_NGlobalConcurrency := cfg_NGlobalConcurrency c,
      cfg_RatePerMin := cfg_RatePerMin c, cfg_DailySublimit := cfg_DailySublimit c,
      cfg_ImageDailyLimit := cfg_ImageDailyLimit c, cfg_VoiceDailyLimit := cfg_VoiceDailyLimit c,
      cfg_VoiceAccountCeiling := cfg_VoiceAccountCeiling c, cfg_SpeechDailyLimit := cfg_SpeechDailyLimit c,
      cfg_VideoDailyLimit := cfg_VideoDailyLimit c, cfg_InstallPerIPHour := cfg_InstallPerIPHour c,
      cfg_InstallGlobalDailyCap := cfg_InstallGlobalDailyCap c,
      cfg_InstallPerFPDaily := cfg_InstallPerFPDaily c,
      cfg_InstallPerFPCooldownSec := cfg_InstallPerFPCooldownSec c, cfg_InstallPowMode := cfg_InstallPowMode c,
      cfg_InstallPowDifficulty := cfg_InstallPowDifficulty c, cfg_TokenAnomalyRPM := cfg_TokenAnomalyRPM c,
      cfg_TokenThrottleFactor := cfg_TokenThrottleFactor c,
      cfg_TokenThrottleCooldownSec := cfg_TokenThrottleCooldownSec c, cfg_QueueWait := cfg_QueueWait c,
      cfg_UpstreamHeaderTimeout := cfg_UpstreamHeaderTimeout c, cfg_DiskMinMB := cfg_DiskMinMB c,
      cfg_DiskMinPercent := cfg_DiskMinPercent c\<rparr>)" for k
    by (cases k) simp_all
  show "unwritten c = unwritten (base\<lparr>
      cfg_RuntimeMode := cfg_RuntimeMode c, cfg_PublicModelID := cfg_PublicModelID c,
      cfg_GlobalMonthlySpendPUSD := cfg_GlobalMonthlySpendPUSD c, cfg_MonthlyQuota := cfg_MonthlyQuota c,
      cfg_MaxTokensCap := cfg_MaxTokensCap c, cfg_InputTokenCap := cfg_InputTokenCap c,
      cfg_MaxMessages := cfg_MaxMessages c, cfg_MaxMessageChars := cfg_MaxMessageChars c,
      cfg_MaxMediaParts := cfg_MaxMediaParts c, cfg_MaxMediaDecodedBytes := cfg_MaxMediaDecodedBytes c,
      cfg_MaxBodyBytes := cfg_MaxBodyBytes c, cfg_NGlobalConcurrency := cfg_NGlobalConcurrency c,
      cfg_RatePerMin := cfg_RatePerMin c, cfg_DailySublimit := cfg_DailySublimit c,
      cfg_ImageDailyLimit := cfg_ImageDailyLimit c, cfg_VoiceDailyLimit := cfg_VoiceDailyLimit c,
      cfg_VoiceAccountCeiling := cfg_VoiceAccountCeiling c, cfg_SpeechDailyLimit := cfg_SpeechDailyLimit c,
      cfg_VideoDailyLimit := cfg_VideoDailyLimit c, cfg_InstallPerIPHour := cfg_InstallPerIPHour c,
      cfg_InstallGlobalDailyCap := cfg_InstallGlobalDailyCap c,
      cfg_InstallPerFPDaily := cfg_InstallPerFPDaily c,
      cfg_InstallPerFPCooldownSec := cfg_InstallPerFPCooldownSec c, cfg_InstallPowMode := cfg_InstallPowMode c,
      cfg_InstallPowDifficulty := cfg_InstallPowDifficulty c, cfg_TokenAnomalyRPM := cfg_TokenAnomalyRPM c,
      cfg_TokenThrottleFactor := cfg_TokenThrottleFactor c,
      cfg_TokenThrottleCooldownSec := cfg_TokenThrottleCooldownSec c, cfg_QueueWait := cfg_QueueWait c,
      cfg_UpstreamHeaderTimeout := cfg_UpstreamHeaderTimeout c, cfg_DiskMinMB := cfg_DiskMinMB c,
      cfg_DiskMinPercent := cfg_DiskMinPercent c\<rparr>)"
    unfolding assms by (simp add: unwritten_def all_knobs_def knob_write_def)
qed

text \<open>C36. A batch of overrides does exactly what it says. When it is accepted, every key in it is an editable row
  of the table; each such row's field holds the value sent and shows it, each other row's field is as before; every
  field of the configuration that is not a row of the table, so the keys, the secrets, the media settings, the
  addresses and the log level, is as before, and with them the read-only rows and the memory budget's verdict; and
  the result satisfies the cross-field rules.\<close>

theorem batch_is_exact:
  assumes "distinct (map fst ov)"
  shows "case Config_ApplyOverrides q base ov of
      Inl _ \<Rightarrow> True
    | Inr c \<Rightarrow>
        fst ` set ov \<subseteq> knob_key ` set all_knobs \<and>
        list_all (\<lambda>k. spec_get (spec_of k) c =
          (case tget ov (knob_key k) of None \<Rightarrow> spec_get (spec_of k) base | Some raw \<Rightarrow> canonical k raw)) all_knobs \<and>
        list_all (\<lambda>k. case tget ov (knob_key k) of
            None \<Rightarrow> knob_field k c = knob_field k base
          | Some raw \<Rightarrow> \<exists>v. knob_value (has_secret base) k raw = Some v \<and> knob_field k c = knob_stored k v) all_knobs \<and>
        c = base\<lparr>
      cfg_RuntimeMode := cfg_RuntimeMode c, cfg_PublicModelID := cfg_PublicModelID c,
      cfg_GlobalMonthlySpendPUSD := cfg_GlobalMonthlySpendPUSD c, cfg_MonthlyQuota := cfg_MonthlyQuota c,
      cfg_MaxTokensCap := cfg_MaxTokensCap c, cfg_InputTokenCap := cfg_InputTokenCap c,
      cfg_MaxMessages := cfg_MaxMessages c, cfg_MaxMessageChars := cfg_MaxMessageChars c,
      cfg_MaxMediaParts := cfg_MaxMediaParts c, cfg_MaxMediaDecodedBytes := cfg_MaxMediaDecodedBytes c,
      cfg_MaxBodyBytes := cfg_MaxBodyBytes c, cfg_NGlobalConcurrency := cfg_NGlobalConcurrency c,
      cfg_RatePerMin := cfg_RatePerMin c, cfg_DailySublimit := cfg_DailySublimit c,
      cfg_ImageDailyLimit := cfg_ImageDailyLimit c, cfg_VoiceDailyLimit := cfg_VoiceDailyLimit c,
      cfg_VoiceAccountCeiling := cfg_VoiceAccountCeiling c, cfg_SpeechDailyLimit := cfg_SpeechDailyLimit c,
      cfg_VideoDailyLimit := cfg_VideoDailyLimit c, cfg_InstallPerIPHour := cfg_InstallPerIPHour c,
      cfg_InstallGlobalDailyCap := cfg_InstallGlobalDailyCap c,
      cfg_InstallPerFPDaily := cfg_InstallPerFPDaily c,
      cfg_InstallPerFPCooldownSec := cfg_InstallPerFPCooldownSec c, cfg_InstallPowMode := cfg_InstallPowMode c,
      cfg_InstallPowDifficulty := cfg_InstallPowDifficulty c, cfg_TokenAnomalyRPM := cfg_TokenAnomalyRPM c,
      cfg_TokenThrottleFactor := cfg_TokenThrottleFactor c,
      cfg_TokenThrottleCooldownSec := cfg_TokenThrottleCooldownSec c, cfg_QueueWait := cfg_QueueWait c,
      cfg_UpstreamHeaderTimeout := cfg_UpstreamHeaderTimeout c, cfg_DiskMinMB := cfg_DiskMinMB c,
      cfg_DiskMinPercent := cfg_DiskMinPercent c\<rparr> \<and>
        list_all (\<lambda>s. spec_get s c = spec_get s base) startup_specs \<and>
        cfg_QwenAPIKeys c = cfg_QwenAPIKeys base \<and> cfg_InstallPowSecret c = cfg_InstallPowSecret base \<and>
        cfg_MediaSigningSecret c = cfg_MediaSigningSecret base \<and> cfg_VideoHandleKey c = cfg_VideoHandleKey base \<and>
        ValidateMemoryBudget c = ValidateMemoryBudget base \<and> ValidateSemantics q c = None"
proof (cases "Config_ApplyOverrides q base ov")
  case (Inr c)
  note f = batch_fields[OF Inr assms]
  have rows: "spec_get (spec_of k) c =
      (case tget ov (knob_key k) of None \<Rightarrow> spec_get (spec_of k) base | Some raw \<Rightarrow> canonical k raw)" for k
  proof (cases "tget ov (knob_key k)")
    case None
    then show ?thesis using f(3)[of k] by (simp add: get_field)
  next
    case (Some raw)
    then show ?thesis using f(2)[of k raw] get_write by auto
  qed
  have fields: "case tget ov (knob_key k) of
      None \<Rightarrow> knob_field k c = knob_field k base
    | Some raw \<Rightarrow> \<exists>v. knob_value (has_secret base) k raw = Some v \<and> knob_field k c = knob_stored k v" for k
    using f(2,3)[of k] by (simp split: option.split)
  have "fst ` set ov \<subseteq> knob_key ` set all_knobs" using f(4) all_knobs_complete by blast
  moreover note only_knobs[OF f(1)] startup_get[OF f(1)] unwritten_frame[OF f(1)] f(5)
  ultimately show ?thesis
    unfolding Inr sum.case using rows fields by (intro conjI) (simp_all add: list_all_iff)
qed simp

lemma int_knob_apply:
  "int_knob k \<Longrightarrow> the (spec_apply (spec_of k)) q c raw =
     (case reqInt64 q (knob_key k) raw (spec_Min (spec_of k)) (spec_Max (spec_of k)) of
        Inl err \<Rightarrow> Inl err | Inr n \<Rightarrow> Inr (knob_write k (n, []) c))"
  by (cases k)
    (simp_all add: int_spec_def text_spec_def int_knob_def knob_write_def knob_key_def split: sum.split)

lemma applyOne_knob: "applyOne q c (knob_key k) raw = the (spec_apply (spec_of k)) q c raw"
proof -
  have "specByKey (knob_key k) = Some (spec_of k)"
    using all_knobs_complete[of k] by (simp add: specByKey_iff knob_key_def Specs_def)
  then show ?thesis using spec_of_apply[of k] by (auto simp: applyOne_def)
qed

text \<open>The bounds the table publishes are the bounds it enforces.\<close>

lemma published_bounds_lemma:
  assumes "s \<in> set Specs" "Bounded s" "is_int64 n"
  shows "case applyOne q c (Key s) (itoa n) of
      Inl err \<Rightarrow> \<not> (spec_Min s \<le> n \<and> n \<le> spec_Max s) \<and>
        err = Key s @ (if n < spec_Min s then '' must be >= '' @ itoa (spec_Min s) else '' must be <= '' @ itoa (spec_Max s))
    | Inr c' \<Rightarrow> spec_Min s \<le> n \<and> n \<le> spec_Max s \<and> spec_get s c' = itoa n"
proof -
  have "list_all (\<lambda>s. \<not> Bounded s) startup_specs" by (simp add: startup_specs_def startup_spec_def)
  then obtain k where k: "s = spec_of k" "int_knob k"
    using assms(1,2) by (auto simp: Specs_def list_all_iff)
  then have app: "applyOne q c (Key s) (itoa n) =
      (if n < spec_Min s then Inl (Key s @ '' must be >= '' @ itoa (spec_Min s))
       else if n > spec_Max s then Inl (Key s @ '' must be <= '' @ itoa (spec_Max s))
       else Inr (knob_write k (n, []) c))"
    using applyOne_knob[of q c k "itoa n"]
    by (simp add: int_knob_apply reqInt64_itoa[OF assms(3)] knob_key_def)
  have "spec_get s (knob_write k (n, []) c) = itoa n"
    using k by (simp add: get_field field_write knob_stored_def knob_unit_def)
  then show ?thesis unfolding app by (simp add: not_less)
qed

end
