(* ===== verification/Config_Provider.thy ===== *)
theory Config_Provider
  imports Config_Spec
begin

text \<open>
  The live configuration: \<open>internal/infra/configprovider/provider.go\<close> and \<open>dump.go\<close>, the settings overlay
  \<open>internal/infra/store/settingsstore\<close>, and the adapter \<open>dashCfgSource\<close> of \<open>internal/bootstrap/adapters.go\<close>. The
  atomic snapshot is the pair of configured and effective configuration; the settings table keeps key and
  value. Whether a write of the table fails is an argument.
\<close>

section \<open>State and operations\<close>

record provider_state =
  configured :: config
  effective :: config
  settings :: "(string, string) table"

definition publish :: "config \<Rightarrow> provider_state \<Rightarrow> provider_state" where
  "publish c p = p\<lparr>configured := c, effective := EffectiveLimits c\<rparr>"

definition New_provider :: "config \<Rightarrow> (string, string) table \<Rightarrow> provider_state" where
  "New_provider base t = publish base \<lparr>configured = base, effective = base, settings = t\<rparr>"

definition LoadWithOverlay ::
    "(string \<Rightarrow> string) \<Rightarrow> config \<Rightarrow> string + (string, string) table \<Rightarrow> string + config" where
  "LoadWithOverlay q base loaded =
     (case loaded of
        Inl err \<Rightarrow> Inl (''read settings overlay: '' @ err)
      | Inr overlay \<Rightarrow>
          if overlay = [] then Inr base
          else (case Config_ApplyOverrides q base overlay of
                  Inl err \<Rightarrow> Inl (''apply settings overlay: '' @ err)
                | Inr merged \<Rightarrow> Inr merged))"

text \<open>One transaction of upserts; a failure leaves the table as it was.\<close>

definition PersistAll ::
    "((string, string) table \<Rightarrow> string option) \<Rightarrow> (string, string) table \<Rightarrow> (string, string) table \<Rightarrow>
     string + (string, string) table" where
  "PersistAll fails overlay t =
     (if overlay = [] then Inr t
      else case fails overlay of
        Some err \<Rightarrow> Inl err
      | None \<Rightarrow> Inr (fold (\<lambda>(k, v). tput k v) overlay t))"

definition Provider_ApplyOverrides ::
    "(string \<Rightarrow> string) \<Rightarrow> ((string, string) table \<Rightarrow> string option) \<Rightarrow> (string, string) table \<Rightarrow>
     provider_state \<Rightarrow> string + provider_state" where
  "Provider_ApplyOverrides q fails ov p =
     (if ov = [] then Inr p
      else case Config_ApplyOverrides q (configured p) ov of
        Inl err \<Rightarrow> Inl err
      | Inr next_cfg \<Rightarrow>
          (case PersistAll fails ov (settings p) of
             Inl err \<Rightarrow> Inl (''persist overrides: '' @ err)
           | Inr t \<Rightarrow> Inr (publish next_cfg (p\<lparr>settings := t\<rparr>))))"

definition dump_row :: "spec_item \<Rightarrow> dump_item" where
  "dump_row it =
     \<lparr>key = si_Key it, item_value = si_Value it, editable = si_Editable it, restartRequired = si_RestartRequired it,
      min_bound = (if si_Bounded it \<and> si_Editable it then Some (si_Min it) else None),
      max_bound = (if si_Bounded it \<and> si_Editable it then Some (si_Max it) else None)\<rparr>"

definition Provider_Dump :: "provider_state \<Rightarrow> dump_item list" where
  "Provider_Dump p = map dump_row (Config_Dump (configured p))"

definition dashCfgSource ::
    "(string \<Rightarrow> string) \<Rightarrow> ((string, string) table \<Rightarrow> string option) \<Rightarrow> provider_state config_port" where
  "dashCfgSource q fails =
     \<lparr>Dump = Provider_Dump, ApplyOverrides = Provider_ApplyOverrides q fails,
      InstallGlobalCap = (\<lambda>p. cfg_InstallGlobalDailyCap (effective p)),
      SpendLimit = (\<lambda>p. cfg_GlobalMonthlySpendPUSD (effective p))\<rparr>"

section \<open>Batches, again\<close>

lemma batch_accept:
  assumes d: "distinct (map fst ov)"
    and here: "\<And>ky raw. tget ov ky = Some raw \<Longrightarrow>
      \<exists>k v. ky = knob_key k \<and> knob_value (has_secret base) k raw = Some v \<and> knob_field k c = knob_stored k v"
    and there: "\<And>k. tget ov (knob_key k) = None \<Longrightarrow> knob_field k c = knob_field k base"
    and u: "unwritten c = unwritten base" and v: "ValidateSemantics q c = None"
  shows "Config_ApplyOverrides q base ov = Inr c"
proof -
  have "\<exists>ws. decoded (has_secret base) ov ks ws" if "set ks \<subseteq> fst ` set ov" for ks
    using that
  proof (induction ks)
    case (Cons ky ks)
    then obtain ws where "decoded (has_secret base) ov ks ws" by auto
    moreover obtain raw where "tget ov ky = Some raw"
      using Cons.prems by (cases "tget ov ky") (auto simp: tget_def map_of_eq_None_iff)
    moreover from here[OF this] obtain k v where "ky = knob_key k" "knob_value (has_secret base) k raw = Some v" by blast
    ultimately have "decoded (has_secret base) ov (ky # ks) ((k, v) # ws)" by (simp add: decoded_def)
    then show ?case by blast
  qed (auto simp: decoded_def)
  then obtain ws where ws: "decoded (has_secret base) ov (sorted_keys ov) ws" using set_sorted_keys[of ov] by blast
  note f = decoded_facts[OF ws distinct_sorted_keys[OF d]]
  have "write_all ws base = c"
  proof (rule config_ext)
    fix k
    have in_ov: "knob_key k \<in> set (sorted_keys ov) \<longleftrightarrow> tget ov (knob_key k) \<noteq> None"
      by (simp add: set_sorted_keys tget_def map_of_eq_None_iff)
    show "knob_field k (write_all ws base) = knob_field k c"
    proof (cases "tget ov (knob_key k)")
      case None
      then have "map_of ws k = None" using in_ov f(3) by (cases "map_of ws k") auto
      then show ?thesis using there[OF None] f(1) by (simp add: write_all_field)
    next
      case (Some raw)
      then obtain v where "knob_value (has_secret base) k raw = Some v" "knob_field k c = knob_stored k v"
        using here[OF Some] by auto
      moreover from this Some have "map_of ws k = Some v" using in_ov f(3) by simp
      ultimately show ?thesis using f(1) by (simp add: write_all_field)
    qed
  qed (simp add: u)
  with ws v show ?thesis by (auto simp: Config_ApplyOverrides_Inr)
qed

lemma tget_fold_tput:
  "distinct (map fst ov) \<Longrightarrow>
   tget (fold (\<lambda>(k, v). tput k v) ov t) ky = (case tget ov ky of None \<Rightarrow> tget t ky | Some v \<Rightarrow> Some v)"
proof (induction ov arbitrary: t)
  case (Cons a ov)
  obtain k v where a: "a = (k, v)" by (cases a)
  have "tget ov k = None" using Cons.prems by (simp add: a tget_def map_of_eq_None_iff)
  moreover have "tget ((k, v) # ov) ky = (if ky = k then Some v else tget ov ky)" by (simp add: tget_def)
  ultimately show ?case using Cons by (auto simp: a split: option.split)
qed simp

lemma distinct_fold_tput: "distinct (map fst t) \<Longrightarrow> distinct (map fst (fold (\<lambda>(k, v). tput k v) ov t))"
  by (induction ov arbitrary: t) auto

lemma tget_mem: "tget t ky = Some v \<Longrightarrow> ky \<in> fst ` set t"
  by (force simp: tget_def dest: map_of_SomeD)

section \<open>Restart\<close>

text \<open>A provider that agrees with what a restart over the environment \<open>env\<close> would load.\<close>

definition restartable :: "(string \<Rightarrow> string) \<Rightarrow> config \<Rightarrow> provider_state \<Rightarrow> bool" where
  "restartable q env p \<longleftrightarrow>
     LoadWithOverlay q env (Inr (settings p)) = Inr (configured p) \<and> effective p = EffectiveLimits (configured p) \<and>
     distinct (map fst (settings p))"

lemma restartable_fields:
  assumes "restartable q env p"
  shows "unwritten (configured p) = unwritten env"
    and "tget (settings p) (knob_key k) = Some raw \<Longrightarrow>
      \<exists>v. knob_value (has_secret env) k raw = Some v \<and> knob_field k (configured p) = knob_stored k v"
    and "tget (settings p) (knob_key k) = None \<Longrightarrow> knob_field k (configured p) = knob_field k env"
    and "ky \<in> fst ` set (settings p) \<Longrightarrow> \<exists>k. ky = knob_key k"
proof -
  have d: "distinct (map fst (settings p))" using assms by (simp add: restartable_def)
  have "unwritten (configured p) = unwritten env \<and>
      (\<forall>k raw. tget (settings p) (knob_key k) = Some raw \<longrightarrow>
        (\<exists>v. knob_value (has_secret env) k raw = Some v \<and> knob_field k (configured p) = knob_stored k v)) \<and>
      (\<forall>k. tget (settings p) (knob_key k) = None \<longrightarrow> knob_field k (configured p) = knob_field k env) \<and>
      (\<forall>ky \<in> fst ` set (settings p). \<exists>k. ky = knob_key k)"
  proof (cases "settings p = []")
    case True
    then show ?thesis using assms by (simp add: restartable_def LoadWithOverlay_def)
  next
    case False
    then have "Config_ApplyOverrides q env (settings p) = Inr (configured p)"
      using assms by (auto simp: restartable_def LoadWithOverlay_def split: sum.splits)
    note f = batch_fields[OF this d]
    show ?thesis using f(1,2,3) f(4) by blast
  qed
  then show "unwritten (configured p) = unwritten env"
    and "tget (settings p) (knob_key k) = Some raw \<Longrightarrow>
      \<exists>v. knob_value (has_secret env) k raw = Some v \<and> knob_field k (configured p) = knob_stored k v"
    and "tget (settings p) (knob_key k) = None \<Longrightarrow> knob_field k (configured p) = knob_field k env"
    and "ky \<in> fst ` set (settings p) \<Longrightarrow> \<exists>k. ky = knob_key k"
    by blast+
qed

lemma apply_restartable:
  assumes r: "restartable q env p" and ok: "Provider_ApplyOverrides q fails ov p = Inr p'" and d: "distinct (map fst ov)"
  shows "restartable q env p'"
proof (cases "ov = []")
  case False
  let ?t = "fold (\<lambda>(k, v). tput k v) ov (settings p)"
  from ok False obtain c where c: "Config_ApplyOverrides q (configured p) ov = Inr c"
    and p': "p' = publish c (p\<lparr>settings := ?t\<rparr>)"
    by (auto simp: Provider_ApplyOverrides_def PersistAll_def split: sum.splits option.splits)
  note f = batch_fields[OF c d] and g = restartable_fields[OF r]
  have sec: "has_secret (configured p) = has_secret env" using unwritten_frame(6)[OF g(1)] .
  have dt: "distinct (map fst ?t)" using r by (intro distinct_fold_tput) (simp add: restartable_def)
  have "Config_ApplyOverrides q env ?t = Inr c"
  proof (rule batch_accept[OF dt])
    fix ky raw
    assume t: "tget ?t ky = Some raw"
    show "\<exists>k v. ky = knob_key k \<and> knob_value (has_secret env) k raw = Some v \<and> knob_field k c = knob_stored k v"
    proof (cases "tget ov ky")
      case None
      then have s: "tget (settings p) ky = Some raw" using t by (simp add: tget_fold_tput[OF d])
      then have "ky \<in> fst ` set (settings p)" by (rule tget_mem)
      with g(4) obtain k where "ky = knob_key k" by blast
      with s None g(2)[of k raw] f(3)[of k] show ?thesis by auto
    next
      case (Some raw')
      then have "raw' = raw" using t by (simp add: tget_fold_tput[OF d])
      have "ky \<in> fst ` set ov" using Some by (rule tget_mem)
      with f(4) obtain k where "ky = knob_key k" by blast
      with Some f(2)[of k raw] \<open>raw' = raw\<close> sec show ?thesis by auto
    qed
  next
    fix k
    assume "tget ?t (knob_key k) = None"
    then have "tget ov (knob_key k) = None" "tget (settings p) (knob_key k) = None"
      by (auto simp: tget_fold_tput[OF d] split: option.splits)
    then show "knob_field k c = knob_field k env" using f(3) g(3) by simp
  next
    show "unwritten c = unwritten env" using f(1) g(1) by simp
    show "ValidateSemantics q c = None" by (rule f(5))
  qed
  moreover have "?t \<noteq> []"
  proof -
    obtain k v ov' where "ov = (k, v) # ov'" using False by (cases ov) auto
    then have "tget ?t k \<noteq> None" using tget_fold_tput[OF d, of "settings p" k] by (auto simp: tget_def)
    then show ?thesis by auto
  qed
  ultimately show ?thesis using dt by (simp add: restartable_def p' publish_def LoadWithOverlay_def)
qed (use r ok in \<open>simp add: Provider_ApplyOverrides_def\<close>)

text \<open>A run of batches: each is applied, or answered with an error and no change.\<close>

definition apply_batches ::
    "(string \<Rightarrow> string) \<Rightarrow> ((string, string) table \<Rightarrow> string option) \<Rightarrow> (string, string) table list \<Rightarrow>
     provider_state \<Rightarrow> provider_state" where
  "apply_batches q fails =
     fold (\<lambda>ov p. case Provider_ApplyOverrides q fails ov p of Inl _ \<Rightarrow> p | Inr p' \<Rightarrow> p')"

text \<open>C8. A restart brings back exactly the configuration that was live. From a provider booted over any stored
  overlay, after any batches of overrides, accepted, refused or failing to persist, loading the stored
  overlay over the same environment yields the configured value, field for field, and hence the same
  effective one.
\<close>

theorem restart_restores:
  fixes fails :: "(string, string) table \<Rightarrow> string option" and q :: "string \<Rightarrow> string"
  assumes "LoadWithOverlay q env (Inr t) = Inr c" "distinct (map fst t)" "list_all (\<lambda>ov. distinct (map fst ov)) batches"
  defines "p \<equiv> apply_batches q fails batches (New_provider c t)"
  shows "LoadWithOverlay q env (Inr (settings p)) = Inr (configured p) \<and>
         effective p = EffectiveLimits (configured p)"
proof -
  have "restartable q env (New_provider c t)"
    using assms(1,2) by (simp add: restartable_def New_provider_def publish_def)
  then have "restartable q env (apply_batches q fails batches (New_provider c t))"
    using assms(3)
  proof (induction batches arbitrary: c t rule: rev_induct)
    case (snoc ov batches)
    then have "restartable q env (apply_batches q fails batches (New_provider c t))" by simp
    then show ?case
      using snoc.prems(2) apply_restartable
      by (auto simp: apply_batches_def list_all_iff split: sum.split)
  qed (simp add: apply_batches_def)
  then show ?thesis by (simp add: restartable_def p_def)
qed

section \<open>Single overrides\<close>

lemma single_override:
  "Config_ApplyOverrides q c [(knob_key k, raw)] =
     rbind (the (spec_apply (spec_of k)) q c raw)
       (\<lambda>c. case ValidateSemantics q c of Some err \<Rightarrow> Inl err | None \<Rightarrow> Inr c)"
  by (simp add: Config_ApplyOverrides_def sorted_keys_def tget_def applyOne_knob)
    (cases "the (spec_apply (spec_of k)) q c raw"; simp)

text \<open>Debug mode is a detour. From a provider in production with a valid configuration, switching
  to debug and back through the dashboard, with the store working, succeeds both times; in between every
  quota is open while the configured numbers stay as they were, and afterwards configured and
  effective configuration are what they were before.
\<close>

theorem debug_roundtrip:
  assumes "ValidateSemantics q (configured p) = None" "effective p = EffectiveLimits (configured p)"
    and "cfg_RuntimeMode (configured p) = ''production''"
  shows "case Provider_ApplyOverrides q (\<lambda>_. None) [(''GATEWAY_MODE'', ''debug'')] p of
      Inl _ \<Rightarrow> False
    | Inr p1 \<Rightarrow>
        configured p1 = (configured p)\<lparr>cfg_RuntimeMode := ''debug''\<rparr> \<and>
        cfg_RatePerMin (effective p1) = 0 \<and> cfg_MonthlyQuota (effective p1) = MaxMonthlyQuota \<and>
        cfg_InstallPowMode (effective p1) = ''off'' \<and>
        (case Provider_ApplyOverrides q (\<lambda>_. None) [(''GATEWAY_MODE'', ''production'')] p1 of
           Inl _ \<Rightarrow> False
         | Inr p2 \<Rightarrow> configured p2 = configured p \<and> effective p2 = effective p)"
proof -
  have key: "''GATEWAY_MODE'' = knob_key K_GATEWAY_MODE" by (simp add: knob_key_def text_spec_def)
  have trim: "TrimSpace ''debug'' = ''debug''" "TrimSpace ''production'' = ''production''"
    by (simp_all add: TrimSpace_graph graph_char_def)
  have app: "the (spec_apply (spec_of K_GATEWAY_MODE)) q c m = Inr (c\<lparr>cfg_RuntimeMode := m\<rparr>)"
    if "m = ''debug'' \<or> m = ''production''" for c m
    using that by (auto simp: text_spec_def trim ValidateRuntimeMode_def RuntimeModeDebug_def RuntimeModeProduction_def)
  have sem: "ValidateSemantics q (c\<lparr>cfg_RuntimeMode := m\<rparr>) = None"
    if "ValidateSemantics q c = None" "m = ''debug'' \<or> m = ''production''" for c m
  proof -
    have "image_rules (c\<lparr>cfg_RuntimeMode := m\<rparr>) = image_rules c" "speech_rules (c\<lparr>cfg_RuntimeMode := m\<rparr>) = speech_rules c"
      "domain_rules (c\<lparr>cfg_RuntimeMode := m\<rparr>) = domain_rules c" "video_rules (c\<lparr>cfg_RuntimeMode := m\<rparr>) = video_rules c"
      "media_rules (c\<lparr>cfg_RuntimeMode := m\<rparr>) = media_rules c" "base_rules (c\<lparr>cfg_RuntimeMode := m\<rparr>) = base_rules c"
      by (simp_all add: image_rules_def speech_rules_def domain_rules_def video_rules_def media_rules_def base_rules_def quote_rules_def
          split: sum.split)
    then show ?thesis
      using that by (auto simp: ValidateSemantics_None rules_def ball_Un mode_rules_ok RuntimeModeDebug_def RuntimeModeProduction_def)
  qed
  let ?c = "configured p" and ?d = "(configured p)\<lparr>cfg_RuntimeMode := ''debug''\<rparr>"
  have d: "Config_ApplyOverrides q ?c [(''GATEWAY_MODE'', ''debug'')] = Inr ?d"
    unfolding key single_override using app[of "''debug''"] sem[OF assms(1), of "''debug''"] by simp
  have undo: "?d\<lparr>cfg_RuntimeMode := ''production''\<rparr> = ?c"
    using assms(3) by (intro config.equality) simp_all
  have e: "Config_ApplyOverrides q ?d [(''GATEWAY_MODE'', ''production'')] = Inr ?c"
    unfolding key single_override using app[of "''production''" ?d] assms(1) undo by simp
  have "DebugMode ?d" by (simp add: DebugMode_def RuntimeModeDebug_def)
  then have "cfg_RatePerMin (EffectiveLimits ?d) = 0" "cfg_MonthlyQuota (EffectiveLimits ?d) = MaxMonthlyQuota"
    "cfg_InstallPowMode (EffectiveLimits ?d) = ''off''"
    by (simp_all add: EffectiveLimits_def PowModeOff_def)
  then show ?thesis
    using assms(2) by (simp add: Provider_ApplyOverrides_def PersistAll_def publish_def d e)
qed

lemma route_quote:
  assumes "NewPlan ProviderQwen m InputStandard Qwen37InputLimit Qwen37OutputLimit = Inr plan"
  shows "ReservedPUSD plan = 5114572800000"
proof -
  from assms obtain c where c: "Lookup ProviderQwen m = Inr c"
    "class_admits c ProviderQwen m InputStandard Qwen37InputLimit Qwen37OutputLimit"
    by (auto elim!: NewPlanE)
  have "(m, c) \<in> set qwenCards" using c(1) by (auto simp: Lookup_def split: option.splits dest: map_of_SomeD)
  moreover have "OutputLimit c \<noteq> 0" using c(2) by (simp add: class_admits_def)
  moreover have "list_all (\<lambda>(m, c). OutputLimit c \<noteq> 0 \<longrightarrow> m = Qwen37Plus) qwenCards" by (simp add: qwenCards_def)
  ultimately have "m = Qwen37Plus" by (auto simp: list_all_iff)
  moreover have "NewPlan ProviderQwen Qwen37Plus InputStandard Qwen37InputLimit Qwen37OutputLimit = Inr plan \<Longrightarrow> ?thesis"
    by (auto simp: plan_eval)
  ultimately show ?thesis using assms by simp
qed

lemma budget_override:
  assumes valid: "ValidateSemantics q c = None" and n: "1 \<le> n" "n \<le> MaxMonthlySpendMicroUSD"
  shows "Config_ApplyOverrides q c [(''GLOBAL_MONTHLY_SPEND_MICRO_USD'', itoa n)] =
    (if n < 5114573 then Inl ''SEC-2 config: worst-case request quote exceeds GLOBAL_MONTHLY_SPEND_MICRO_USD''
     else Inr (c\<lparr>cfg_GlobalMonthlySpendPUSD := n * 1000000\<rparr>))"
proof -
  let ?k = "K_GLOBAL_MONTHLY_SPEND_MICRO_USD" and ?c = "c\<lparr>cfg_GlobalMonthlySpendPUSD := n * 1000000\<rparr>"
  have key: "''GLOBAL_MONTHLY_SPEND_MICRO_USD'' = knob_key ?k" by (simp add: knob_key_def int_spec_def)
  have i: "is_int64 n" using n by (simp add: is_int64_def MinInt64_def MaxInt64_def MaxMonthlySpendMicroUSD_def)
  have app: "the (spec_apply (spec_of ?k)) q c (itoa n) = Inr ?c"
    using n by (simp add: int_spec_def reqInt64_itoa[OF i])
  have same: "image_rules ?c = image_rules c" "speech_rules ?c = speech_rules c" "domain_rules ?c = domain_rules c"
    "video_rules ?c = video_rules c" "media_rules ?c = media_rules c" "mode_rules q ?c = mode_rules q c"
    by (simp_all add: image_rules_def speech_rules_def domain_rules_def video_rules_def media_rules_def mode_rules_def)
  from valid obtain plan where
    plan: "NewPlan ProviderQwen (cfg_MultimodalUpstreamModel c) InputStandard Qwen37InputLimit Qwen37OutputLimit = Inr plan"
    and ok: "validPublicModelID (cfg_PublicModelID c)"
    by (auto simp: ValidateSemantics_None rules_def ball_Un base_rules_ok)
  have "ValidateSemantics q ?c = (if n < 5114573
      then Some ''SEC-2 config: worst-case request quote exceeds GLOBAL_MONTHLY_SPEND_MICRO_USD'' else None)"
  proof (cases "n < 5114573")
    case True
    then show ?thesis
      using n(1) ok by (simp add: ValidateSemantics_def rules_def base_rules_def quote_rules_def plan route_quote[OF plan])
  next
    case False
    then have "5114572800000 \<le> n * 1000000" by simp
    then have "ValidateSemantics q ?c = None"
      using valid n(1) by (auto simp: ValidateSemantics_None rules_def ball_Un base_rules_ok same plan route_quote[OF plan])
    with False show ?thesis by simp
  qed
  then show ?thesis unfolding key single_override using app by simp
qed

text \<open>A published bound the server does not honour. For any valid configuration the wallet row is published
  with the lower bound 1, but every amount from 1 to 5114572 micro-dollars, although within the published
  bounds, is refused by the cross-field rules; from 5114573 on it is applied.
\<close>

theorem wallet_floor_is_hidden:
  assumes "ValidateSemantics q (configured p) = None" "1 \<le> n" "n \<le> MaxMonthlySpendMicroUSD"
  shows "list_ex (\<lambda>it. key it = ''GLOBAL_MONTHLY_SPEND_MICRO_USD'' \<and> editable it \<and> min_bound it = Some 1 \<and>
           max_bound it = Some MaxMonthlySpendMicroUSD) (Provider_Dump p) \<and>
    (case Provider_ApplyOverrides q (\<lambda>_. None) [(''GLOBAL_MONTHLY_SPEND_MICRO_USD'', itoa n)] p of
       Inl err \<Rightarrow> n < 5114573 \<and> err = ''SEC-2 config: worst-case request quote exceeds GLOBAL_MONTHLY_SPEND_MICRO_USD''
     | Inr p' \<Rightarrow> 5114573 \<le> n \<and> cfg_GlobalMonthlySpendPUSD (configured p') = n * 1000000)"
proof -
  let ?s = "spec_of K_GLOBAL_MONTHLY_SPEND_MICRO_USD"
  let ?it = "\<lparr>key = ''GLOBAL_MONTHLY_SPEND_MICRO_USD'', item_value = spec_get ?s (configured p), editable = True,
      restartRequired = False, min_bound = Some 1, max_bound = Some MaxMonthlySpendMicroUSD\<rparr>"
  have "?s \<in> set Specs" using all_knobs_complete unfolding Specs_def by (simp del: spec_of.simps)
  then have "?it \<in> set (Provider_Dump p)"
    unfolding Provider_Dump_def Config_Dump_def set_map image_image
    by (rule rev_image_eqI) (simp add: dump_row_def int_spec_def)
  then have row: "list_ex (\<lambda>it. key it = ''GLOBAL_MONTHLY_SPEND_MICRO_USD'' \<and> editable it \<and> min_bound it = Some 1 \<and>
           max_bound it = Some MaxMonthlySpendMicroUSD) (Provider_Dump p)"
    unfolding list_ex_iff by (rule rev_bexI) simp
  show ?thesis
    by (intro conjI[OF row])
      (use budget_override[OF assms] in \<open>simp add: Provider_ApplyOverrides_def PersistAll_def publish_def\<close>)
qed

end
