(* ===== verification/Ui_Config_Live.thy ===== *)
theory Ui_Config_Live
  imports Ui_Config Config_Provider
begin

text \<open>
  The configuration page over the live configuration. The locale \<open>config_source\<close> is what the page relies on: a
  table of rows with distinct keys, of which an accepted override of one key changes the value and nothing
  else. It is interpreted with the adapter of the provider.
\<close>

section \<open>The contract\<close>

locale config_source =
  fixes port :: "'c config_port" and canon :: "string \<Rightarrow> string \<Rightarrow> string"
  assumes keys: "distinct (map key (Dump port c))"
    and exact: "ApplyOverrides port [(k, raw)] c = Inr c' \<Longrightarrow>
      Dump port c' = map (\<lambda>r. if key r = k then r\<lparr>item_value := canon k raw\<rparr> else r) (Dump port c)"
    and known: "ApplyOverrides port [(k, raw)] c = Inr c' \<Longrightarrow> \<exists>r \<in> set (Dump port c). key r = k \<and> editable r"
begin

lemma saved_rows:
  fixes shw :: "int \<times> int \<Rightarrow> string"
  assumes sync: "cf_items p = map item_view (Dump port (conf d))" and v: "srv_config v = port"
    and ok: "ApplyOverrides port [(it_key it, draft_of it p)] (conf d) = Inr c"
    and page: "cf_saves p = []" "precheck it (draft_of it p) = None"
  defines "p' \<equiv> config_saved 0 (config_answers shw (\<lambda>c. fst (Serve v c d)) (it_key it) (draft_of it p)) (config_save it p)"
  shows "cf_items p' = map (\<lambda>x. if it_key x = it_key it then x\<lparr>it_value := canon (it_key it) (draft_of it p)\<rparr> else x) (cf_items p)"
    and "\<forall>x \<in> set (cf_items p'). \<not> dirty p' x" and "row_error it p' = None"
proof -
  have r: "cf_items p' = map item_view (Dump port c) \<and> row_error it p' = None \<and>
      (distinct (map key (Dump port c)) \<longrightarrow> (\<forall>x \<in> set (cf_items p'). \<not> dirty p' x))"
    using config_save_applies[OF page, of v d shw] ok unfolding p'_def v by simp
  have "item_view (r\<lparr>item_value := w\<rparr>) = (item_view r)\<lparr>it_value := w\<rparr>" "it_key (item_view r) = key r" for r w
    by (simp_all add: item_view_def)
  then show "cf_items p' = map (\<lambda>x. if it_key x = it_key it then x\<lparr>it_value := canon (it_key it) (draft_of it p)\<rparr> else x) (cf_items p)"
    using r exact[OF ok] by (simp add: sync)
  show "\<forall>x \<in> set (cf_items p'). \<not> dirty p' x" "row_error it p' = None" using r keys by auto
qed

end

section \<open>The provider meets it\<close>

definition canon_text :: "string \<Rightarrow> string \<Rightarrow> string" where
  "canon_text k raw = (case find (\<lambda>i. knob_key i = k) all_knobs of None \<Rightarrow> raw | Some i \<Rightarrow> canonical i raw)"

lemma find_knob: "find (\<lambda>i. knob_key i = knob_key k) all_knobs = Some k"
proof -
  have "find (\<lambda>i. knob_key i = knob_key k) all_knobs \<noteq> None"
    using all_knobs_complete[of k] by (auto simp: find_None_iff)
  then show ?thesis by (auto simp: find_Some_iff)
qed

lemma canon_knob: "canon_text (knob_key k) raw = canonical k raw"
  unfolding canon_text_def find_knob by simp

definition spec_row :: "config \<Rightarrow> spec \<Rightarrow> dump_item" where
  "spec_row c s = \<lparr>key = Key s, item_value = spec_get s c, editable = (spec_Tier s = TierRuntimeHot),
     restartRequired = spec_RestartRequired s,
     min_bound = (if Bounded s \<and> spec_Tier s = TierRuntimeHot then Some (spec_Min s) else None),
     max_bound = (if Bounded s \<and> spec_Tier s = TierRuntimeHot then Some (spec_Max s) else None)\<rparr>"

lemma Provider_Dump_rows: "Provider_Dump p = map (spec_row (configured p)) Specs"
  by (simp add: Provider_Dump_def Config_Dump_def dump_row_def spec_row_def)

lemma Provider_single:
  assumes "Provider_ApplyOverrides q fails [(k, raw)] p = Inr p'"
  shows "Config_ApplyOverrides q (configured p) [(k, raw)] = Inr (configured p')"
    and "settings p' = tput k raw (settings p)" and "effective p' = EffectiveLimits (configured p')"
  using assms by (auto simp: Provider_ApplyOverrides_def PersistAll_def publish_def split: sum.splits option.splits)

lemma single_rows:
  assumes "Config_ApplyOverrides q c [(k, raw)] = Inr c'"
  shows "map (spec_row c') Specs =
      map (\<lambda>r. if key r = k then r\<lparr>item_value := canon_text k raw\<rparr> else r) (map (spec_row c) Specs)"
    and "\<exists>i. k = knob_key i"
proof -
  have d: "distinct (map fst [(k, raw)])" by simp
  note f = batch_fields[OF assms d]
  from f(4)[of k] obtain i where i: "k = knob_key i" by auto
  then show "\<exists>i. k = knob_key i" by blast
  have "spec_row c' s = (if Key s = k then (spec_row c s)\<lparr>item_value := canon_text k raw\<rparr> else spec_row c s)"
    if s: "s \<in> set Specs" for s
    using s
  proof (cases rule: Specs_cases)
    case (1 j)
    show ?thesis
    proof (cases "j = i")
      case True
      obtain v where "knob_value (has_secret c) i raw = Some v" "knob_field i c' = knob_stored i v"
        using f(2)[of i raw] by (auto simp: i tget_def)
      then have "spec_get (spec_of i) c' = canonical i raw" by (rule get_write)
      then show ?thesis
        using 1 True canon_knob[of i raw] by (simp add: spec_row_def i) (simp add: knob_key_def)
    next
      case False
      then have "knob_field j c' = knob_field j c" using f(3)[of j] by (simp add: i tget_def)
      moreover have "Key s \<noteq> k" using False 1 knob_key_inj[of j i] by (simp add: i knob_key_def)
      ultimately show ?thesis using 1 by (simp add: spec_row_def get_field)
    qed
  next
    case 2
    have "Key s \<noteq> k"
    proof
      assume "Key s = k"
      then have "specByKey k = Some s" "specByKey k = Some (spec_of i)"
        using s all_knobs_complete[of i] by (simp_all add: specByKey_iff i knob_key_def Specs_def)
      then have "s = spec_of i" by simp
      then have "spec_Tier s = TierRuntimeHot" by (simp only: spec_of_hot)
      with 2 show False by simp
    qed
    then show ?thesis using startup_get[OF f(1) 2(1)] by (simp add: spec_row_def)
  qed
  then show "map (spec_row c') Specs =
      map (\<lambda>r. if key r = k then r\<lparr>item_value := canon_text k raw\<rparr> else r) (map (spec_row c) Specs)"
    by (auto simp: spec_row_def)
qed

interpretation live: config_source "dashCfgSource q fails" canon_text for q fails
proof
  fix p p' :: provider_state and k raw
  show "distinct (map key (Dump (dashCfgSource q fails) p))"
    using keys_distinct by (simp add: dashCfgSource_def Provider_Dump_rows spec_row_def o_def)
  assume "ApplyOverrides (dashCfgSource q fails) [(k, raw)] p = Inr p'"
  then have "Provider_ApplyOverrides q fails [(k, raw)] p = Inr p'" by (simp add: dashCfgSource_def)
  note rows = single_rows[OF Provider_single(1)[OF this]]
  show "Dump (dashCfgSource q fails) p' =
      map (\<lambda>r. if key r = k then r\<lparr>item_value := canon_text k raw\<rparr> else r) (Dump (dashCfgSource q fails) p)"
    using rows(1) by (simp add: dashCfgSource_def Provider_Dump_rows)
  from rows(2) obtain i where i: "k = knob_key i" by blast
  have "spec_of i \<in> set Specs" by (simp add: Specs_def all_knobs_complete)
  then show "\<exists>r \<in> set (Dump (dashCfgSource q fails) p). key r = k \<and> editable r"
    unfolding dashCfgSource_def Provider_Dump_rows
    by (auto simp: i spec_row_def knob_key_def intro!: bexI[of _ "spec_of i"])
qed

section \<open>A number saved on the live page\<close>

text \<open>Every published bound is small enough for the browser to hold exactly.\<close>

lemma bounds_exact:
  assumes "s \<in> set Specs"
  shows "js_int (spec_Min s) = spec_Min s" "js_int (spec_Max s) = spec_Max s"
proof -
  have startup: "list_all (\<lambda>s. spec_Min s = 0 \<and> spec_Max s = 0) startup_specs"
    by (simp add: startup_specs_def startup_spec_def)
  from assms have "abs (spec_Min s) < 2 ^ 53 \<and> abs (spec_Max s) < 2 ^ 53"
  proof (cases rule: Specs_cases)
    case (1 k)
    then show ?thesis by (cases k) (simp_all add: limit_defs int_spec_def text_spec_def)
  qed (use startup in \<open>auto simp: list_all_iff\<close>)
  then show "js_int (spec_Min s) = spec_Min s" "js_int (spec_Max s) = spec_Max s" by (simp_all add: js_int_exact)
qed

text \<open>C3. The configuration page, end to end, over the live configuration. A whole number typed into a bounded row
  that passes the page's check and is saved is either applied or refused. Applied, the live configuration is the
  one the override makes of the old one, the mask's limits are those in effect, the settings table holds the
  number for the next start, the audit trail has one new event that names the key, nothing else of the backend
  has changed, and the page shows the same table with that number in that row and nothing left to save. Refused,
  nothing has changed and the row shows the reason, which is a cross-field rule or a failure to store the
  number, never a bound or a malformed number.\<close>

theorem live_save:
  fixes v :: "provider_state served" and d :: "provider_state dash" and p :: config_page
    and shw :: "int \<times> int \<Rightarrow> string" and fails :: "(string, string) table \<Rightarrow> string option" and q :: "string \<Rightarrow> string"
  assumes v: "srv_config v = dashCfgSource q fails"
    and sync: "cf_items p = map item_view (Provider_Dump (conf d))" and it: "it \<in> set (cf_items p)"
    and typed: "isBoundedNumeric it" "draft_of it p = itoa n" "abs n < 2 ^ 53"
    and page: "cf_saves p = []" "precheck it (itoa n) = None"
  defines "p' \<equiv> config_saved 0 (config_answers shw (\<lambda>c. fst (Serve v c d)) (it_key it) (itoa n)) (config_save it p)"
    and "d' \<equiv> snd (Serve v (config_call (it_key it) (itoa n)) d)"
  shows "case Provider_ApplyOverrides q fails [(it_key it, itoa n)] (conf d) of
      Inr c \<Rightarrow> d' = RecordAudit (srv_now v) (audit_entry ''config_update'' (it_key it) [] ''ok'' actor) (d\<lparr>conf := c\<rparr>) \<and>
        Config_ApplyOverrides q (configured (conf d)) [(it_key it, itoa n)] = Inr (configured c) \<and>
        effective c = EffectiveLimits (configured c) \<and> settings c = tput (it_key it) (itoa n) (settings (conf d)) \<and>
        cf_items p' = map (\<lambda>x. if it_key x = it_key it then x\<lparr>it_value := itoa n\<rparr> else x) (cf_items p) \<and>
        list_all (\<lambda>x. \<not> dirty p' x) (cf_items p')
    | Inl why \<Rightarrow> d' = d \<and> cf_items p' = cf_items p \<and> row_error it p' = Some (if why = [] then failed_text 400 else why) \<and>
        (case applyOne q (configured (conf d)) (it_key it) (itoa n) of
           Inl _ \<Rightarrow> False
         | Inr c \<Rightarrow> ValidateSemantics q c = Some why \<or>
             (\<exists>err. fails [(it_key it, itoa n)] = Some err \<and> why = ''persist overrides: '' @ err))"
proof -
  let ?k = "it_key it" and ?c = "configured (conf d)"
  have i64: "is_int64 n" using typed(3) by (auto simp: is_int64_def MaxInt64_def MinInt64_def)
  obtain s where s: "s \<in> set Specs" "it = item_view (spec_row ?c s)"
    using it by (auto simp: sync Provider_Dump_rows)
  then have row: "Bounded s" "spec_Tier s = TierRuntimeHot" "?k = Key s" "it_min it = Some (spec_Min s)" "it_max it = Some (spec_Max s)"
    using typed(1) by (auto simp: isBoundedNumeric_def item_view_def spec_row_def bounds_exact[OF s(1)] split: if_splits)
  have bounds: "spec_Min s \<le> n \<and> n \<le> spec_Max s"
  proof (rule ccontr)
    assume "\<not> ?thesis"
    then have "precheck it (itoa n) \<noteq> None"
      using typed(1) row by (auto simp: precheck_def js_number_itoa[OF typed(3)])
    with page(2) show False by simp
  qed
  have one: "\<exists>c. applyOne q ?c ?k (itoa n) = Inr c"
    using published_bounds_lemma[OF s(1) row(1) i64, of q ?c] bounds row(3) by (auto split: sum.splits)
  have page': "precheck it (draft_of it p) = None" using page(2) typed(2) by simp
  note saved = config_save_applies[OF page(1) page', of v d shw]
  show ?thesis
  proof (cases "Provider_ApplyOverrides q fails [(?k, itoa n)] (conf d)")
    case (Inl why)
    obtain c where c: "applyOne q ?c ?k (itoa n) = Inr c" using one by blast
    have "ValidateSemantics q c = Some why \<or> (\<exists>err. fails [(?k, itoa n)] = Some err \<and> why = ''persist overrides: '' @ err)"
      using Inl c
      by (auto simp: Provider_ApplyOverrides_def PersistAll_def Config_ApplyOverrides_def sorted_keys_def tget_def
          split: sum.splits option.splits)
    then show ?thesis
      using Inl c saved unfolding p'_def d'_def v typed(2) by (simp add: dashCfgSource_def)
  next
    case (Inr c)
    have ok: "ApplyOverrides (dashCfgSource q fails) [(?k, draft_of it p)] (conf d) = Inr c"
      using Inr by (simp add: dashCfgSource_def typed(2))
    have sync': "cf_items p = map item_view (Dump (dashCfgSource q fails) (conf d))" using sync by (simp add: dashCfgSource_def)
    note rows = live.saved_rows[OF sync' v ok page(1) page', of shw]
    from Specs_cases[OF s(1)] row(2) obtain j where j: "s = spec_of j" by (metis Tier.distinct(1))
    have "int_knob j" using row(1) by (simp add: j)
    then have "canon_text ?k (itoa n) = itoa n"
      using canon_knob[of j "itoa n"] by (simp add: row(3) j knob_key_def canonical_def parse_int_itoa_trim[OF i64])
    then have "cf_items p' = map (\<lambda>x. if it_key x = ?k then x\<lparr>it_value := itoa n\<rparr> else x) (cf_items p)"
      "list_all (\<lambda>x. \<not> dirty p' x) (cf_items p')"
      using rows(1,2) unfolding p'_def typed(2) by (simp_all add: list_all_iff)
    moreover have "d' = RecordAudit (srv_now v) (audit_entry ''config_update'' ?k [] ''ok'' actor) (d\<lparr>conf := c\<rparr>)"
      using Inr unfolding d'_def by (simp add: config_served v dashCfgSource_def)
    ultimately show ?thesis using Inr Provider_single[OF Inr] by simp
  qed
qed

end
