(* ===== verification/Config_Witness.thy ===== *)
theory Config_Witness
  imports Ui_Config_Live Ui_Page_Witness
begin

text \<open>
  A concrete configuration, and each property of the configuration components applied at it.
\<close>

definition demo_cfg :: config where
  "demo_cfg = \<lparr>cfg_QwenAPIKeys = [''key''],
     cfg_QwenBaseURL = ''https://x'',
     cfg_PublicModelID = ''anselm-auto'',
     cfg_MultimodalUpstreamModel = Qwen37Plus,
     cfg_RuntimeMode = ''production'',
     cfg_MonthlyQuota = 100,
     cfg_GlobalMonthlySpendPUSD = 50000000000000,
     cfg_MaxTokensCap = 8192,
     cfg_InputTokenCap = 0,
     cfg_MaxMessages = 200,
     cfg_MaxMessageChars = 200000,
     cfg_MaxMediaParts = 8,
     cfg_MaxMediaDecodedBytes = 1048576,
     cfg_MaxBodyBytes = 4194304,
     cfg_NGlobalConcurrency = 64,
     cfg_RatePerMin = 20,
     cfg_DailySublimit = 0,
     cfg_InstallPerIPHour = 0,
     cfg_InstallGlobalDailyCap = 0,
     cfg_InstallPerFPDaily = 0,
     cfg_InstallPerFPCooldownSec = 0,
     cfg_InstallPowMode = ''off'',
     cfg_InstallPowDifficulty = 20,
     cfg_InstallPowSecret = [],
     cfg_InstallPowSecretSource = [],
     cfg_TokenAnomalyRPM = 0,
     cfg_TokenThrottleFactor = 4,
     cfg_TokenThrottleCooldownSec = 60,
     cfg_UpstreamHeaderTimeout = 30000000000,
     cfg_QueueWait = 500000000,
     cfg_GoMemLimitMiB = 512,
     cfg_SQLiteCacheKiB = 8192,
     cfg_SQLiteMmapBytes = 0,
     cfg_SQLiteAutockptPage = 0,
     cfg_ReadPoolMaxConns = 4,
     cfg_MemBudgetMiB = 2048,
     cfg_MemSafetyMarginMiB = 256,
     cfg_DiskMinMB = 0,
     cfg_DiskMinPercent = 0,
     cfg_DashScopeNativeBase = [],
     cfg_ImageEnabled = False,
     cfg_ImageUpstreamModel = [],
     cfg_ImageDailyLimit = 0,
     cfg_SpeechEnabled = False,
     cfg_TTSUpstreamModel = [],
     cfg_SpeechDailyLimit = 0,
     cfg_TTSDefaultVoice = [],
     cfg_VideoEnabled = False,
     cfg_VideoUpstreamModel = [],
     cfg_VideoI2VUpstreamModel = [],
     cfg_VideoDailyLimit = 0,
     cfg_VideoHandleKey = [],
     cfg_VoiceDailyLimit = 0,
     cfg_VoiceAccountCeiling = 0,
     cfg_MediaEnabled = False,
     cfg_MediaStagingRoot = [],
     cfg_MediaSigningSecret = [],
     cfg_MediaSigningSecretSource = [],
     cfg_MediaUploadMaxBytes = 0,
     cfg_MediaChunkMaxBytes = 0,
     cfg_MediaUploadTTL = 0,
     cfg_MediaLeaseTTL = 0,
     cfg_MediaFetchDomain = [],
     cfg_ResetTZ = ''UTC'',
     cfg_Location = utc,
     cfg_ListenAddr = [],
     cfg_AdminAddr = [],
     cfg_DashboardAddr = [],
     cfg_LogLevel = [],
     cfg_DBPath = []\<rparr>"

lemma demo_valid: "ValidateSemantics q demo_cfg = None"
proof -
  obtain plan where plan: "NewPlan ProviderQwen Qwen37Plus InputStandard Qwen37InputLimit Qwen37OutputLimit = Inr plan"
    by (simp add: plan_eval)
  have "cfg_GlobalMonthlySpendPUSD demo_cfg = 50000000000000" "cfg_PublicModelID demo_cfg = ''anselm-auto''"
    "cfg_MultimodalUpstreamModel demo_cfg = Qwen37Plus" "cfg_MaxMediaParts demo_cfg = 8"
    "cfg_MaxMediaDecodedBytes demo_cfg = 1048576" "cfg_MaxBodyBytes demo_cfg = 4194304"
    "cfg_InstallPowMode demo_cfg = ''off''" "cfg_RuntimeMode demo_cfg = ''production''"
    by (simp_all add: demo_cfg_def)
  moreover have "image_rules demo_cfg = []" "speech_rules demo_cfg = []" "domain_rules demo_cfg = []"
    "video_rules demo_cfg = []" "media_rules demo_cfg = []"
    by (simp_all add: image_rules_def speech_rules_def domain_rules_def video_rules_def media_rules_def demo_cfg_def
        TrimSpace_def trim_def)
  moreover have "validPublicModelID ''anselm-auto''"
    by (simp add: validPublicModelID_def MaxPublicModelIDBytes_def public_id_char_def)
  ultimately show ?thesis
    by (simp add: ValidateSemantics_None rules_def ball_Un base_rules_ok mode_rules_ok plan route_quote[OF plan]
        PowModeShadow_def PowModeEnforce_def RuntimeModeProduction_def MaxMediaParts_def)
qed

definition demo_provider :: provider_state where
  "demo_provider = New_provider demo_cfg []"

lemma demo_provider_fields:
  "configured demo_provider = demo_cfg" "effective demo_provider = EffectiveLimits demo_cfg" "settings demo_provider = []"
  by (simp_all add: demo_provider_def New_provider_def publish_def)

lemma demo_mode: "cfg_RuntimeMode demo_cfg = ''production''"
  by (simp add: demo_cfg_def)

theorem debug_roundtrip_witness:
  "case Provider_ApplyOverrides (\<lambda>s. s) (\<lambda>_. None) [(''GATEWAY_MODE'', ''debug'')] demo_provider of
     Inl _ \<Rightarrow> False
   | Inr p1 \<Rightarrow> cfg_RatePerMin (effective p1) = 0"
  using debug_roundtrip[of "\<lambda>s. s" demo_provider] demo_valid demo_mode demo_provider_fields
  by (simp split: sum.splits)

theorem wallet_floor_is_hidden_witness:
  "Provider_ApplyOverrides (\<lambda>s. s) (\<lambda>_. None) [(''GLOBAL_MONTHLY_SPEND_MICRO_USD'', itoa 5000000)] demo_provider =
     Inl ''SEC-2 config: worst-case request quote exceeds GLOBAL_MONTHLY_SPEND_MICRO_USD''"
  using wallet_floor_is_hidden[of "\<lambda>s. s" demo_provider 5000000] demo_valid demo_provider_fields
  by (simp add: MaxMonthlySpendMicroUSD_def split: sum.splits)

theorem restart_restores_witness:
  "LoadWithOverlay (\<lambda>s. s) demo_cfg (Inr (settings (apply_batches (\<lambda>s. s) (\<lambda>_. None)
       [[(''RATE_PER_MIN'', ''7''), (''MONTHLY_QUOTA'', ''50'')], [(''RATE_PER_MIN'', ''9'')], [(''NOPE'', ''1'')]] demo_provider))) =
   Inr (configured (apply_batches (\<lambda>s. s) (\<lambda>_. None)
       [[(''RATE_PER_MIN'', ''7''), (''MONTHLY_QUOTA'', ''50'')], [(''RATE_PER_MIN'', ''9'')], [(''NOPE'', ''1'')]] demo_provider))"
proof -
  have "LoadWithOverlay (\<lambda>s. s) demo_cfg (Inr []) = Inr demo_cfg" by (simp add: LoadWithOverlay_def)
  then show ?thesis
    unfolding demo_provider_def by (rule restart_restores[THEN conjunct1]) simp_all
qed

lemma demo_wallet:
  "Config_ApplyOverrides q demo_cfg [(''GLOBAL_MONTHLY_SPEND_MICRO_USD'', itoa 6000000)] =
     Inr (demo_cfg\<lparr>cfg_GlobalMonthlySpendPUSD := 6000000000000\<rparr>)"
  "Config_ApplyOverrides q demo_cfg [(''GLOBAL_MONTHLY_SPEND_MICRO_USD'', itoa 5000000)] =
     Inl ''SEC-2 config: worst-case request quote exceeds GLOBAL_MONTHLY_SPEND_MICRO_USD''"
  using budget_override[OF demo_valid, of 6000000 q] budget_override[OF demo_valid, of 5000000 q]
  by (simp_all add: MaxMonthlySpendMicroUSD_def)

theorem batch_is_exact_witness:
  "list_all (\<lambda>k. spec_get (spec_of k) (demo_cfg\<lparr>cfg_GlobalMonthlySpendPUSD := 6000000000000\<rparr>) =
     (case tget [(''GLOBAL_MONTHLY_SPEND_MICRO_USD'', itoa 6000000)] (knob_key k) of
        None \<Rightarrow> spec_get (spec_of k) demo_cfg | Some raw \<Rightarrow> canonical k raw)) all_knobs"
proof -
  have "distinct (map fst [(''GLOBAL_MONTHLY_SPEND_MICRO_USD'', itoa 6000000)])" by simp
  from batch_is_exact[OF this, where q = "\<lambda>s. s" and base = demo_cfg] show ?thesis unfolding demo_wallet sum.case by blast
qed

definition live_served :: "provider_state served" where
  "live_served = \<lparr>srv_config = dashCfgSource (\<lambda>s. s) (\<lambda>_. None), srv_provider = None, srv_disk = False, srv_loc = utc,
     srv_now = 7, srv_time = (\<lambda>_. ''t''), srv_export = (Some 1, True, True)\<rparr>"

definition live_dash :: "provider_state dash" where
  "live_dash = \<lparr>audit = newAuditRing 512, accounts = accounts demo_dash, ledger = ledger demo_dash, conf = demo_provider,
     alerts = alerts demo_dash, rates = rates demo_dash, inflight = 0\<rparr>"

definition live_page :: "string \<Rightarrow> config_page" where
  "live_page x = set_draft ''GLOBAL_MONTHLY_SPEND_MICRO_USD'' x
     (new_config\<lparr>cf_items := map item_view (Provider_Dump demo_provider)\<rparr>)"

definition live_item :: DumpItem where
  "live_item = item_view (spec_row demo_cfg (spec_of K_GLOBAL_MONTHLY_SPEND_MICRO_USD))"

lemma live_item_fields:
  "it_key live_item = ''GLOBAL_MONTHLY_SPEND_MICRO_USD''" "it_editable live_item" "it_min live_item = Some 1"
  "it_max live_item = Some MaxMonthlySpendMicroUSD"
  by (simp_all add: live_item_def item_view_def spec_row_def int_spec_def js_int_exact MaxMonthlySpendMicroUSD_def)

theorem live_save_witness:
  "(let p' = config_saved 0 (config_answers (\<lambda>_. []) (\<lambda>c. fst (Serve live_served c live_dash)) (it_key live_item) (itoa 6000000))
       (config_save live_item (live_page (itoa 6000000)))
    in cf_items p' = map (\<lambda>x. if it_key x = it_key live_item then x\<lparr>it_value := itoa 6000000\<rparr> else x)
         (map item_view (Provider_Dump demo_provider))) \<and>
   (let p' = config_saved 0 (config_answers (\<lambda>_. []) (\<lambda>c. fst (Serve live_served c live_dash)) (it_key live_item) (itoa 5000000))
       (config_save live_item (live_page (itoa 5000000)))
    in row_error live_item p' =
         Some ''SEC-2 config: worst-case request quote exceeds GLOBAL_MONTHLY_SPEND_MICRO_USD'')"
proof -
  have v: "srv_config live_served = dashCfgSource (\<lambda>s. s) (\<lambda>_. None)" by (simp add: live_served_def)
  have conf: "conf live_dash = demo_provider" by (simp add: live_dash_def)
  have items: "cf_items (live_page x) = map item_view (Provider_Dump demo_provider)" for x
    by (simp add: live_page_def set_draft_def)
  have "spec_of K_GLOBAL_MONTHLY_SPEND_MICRO_USD \<in> set Specs"
    using all_knobs_complete unfolding Specs_def by (simp del: spec_of.simps)
  then have mem: "live_item \<in> set (cf_items (live_page x))" for x
    unfolding items Provider_Dump_rows demo_provider_fields live_item_def set_map by blast
  have bn: "isBoundedNumeric live_item" by (simp add: isBoundedNumeric_def live_item_fields)
  have draft: "draft_of live_item (live_page x) = x" "cf_saves (live_page x) = []" for x
    by (simp_all add: live_page_def set_draft_def draft_of_def live_item_fields new_config_def)
  have pre: "precheck live_item (itoa n) = None" if "1 \<le> n" "n \<le> 6000000" for n :: int
    using that js_number_itoa[of n]
    by (simp add: precheck_def isBoundedNumeric_def live_item_fields MaxMonthlySpendMicroUSD_def)
  have sync: "cf_items (live_page x) = map item_view (Provider_Dump (conf live_dash))" for x by (simp add: items conf)
  note save = live_save[OF v sync mem bn draft(1) _ draft(2) pre, where shw = "\<lambda>_. []"]
  let ?m = "\<lambda>n. [(''GLOBAL_MONTHLY_SPEND_MICRO_USD'', itoa n)]"
  obtain c where ok: "Provider_ApplyOverrides (\<lambda>s. s) (\<lambda>_. None) (?m 6000000) demo_provider = Inr c"
    by (simp add: Provider_ApplyOverrides_def demo_provider_fields demo_wallet PersistAll_def)
  have bad: "Provider_ApplyOverrides (\<lambda>s. s) (\<lambda>_. None) (?m 5000000) demo_provider =
      Inl ''SEC-2 config: worst-case request quote exceeds GLOBAL_MONTHLY_SPEND_MICRO_USD''"
    by (simp add: Provider_ApplyOverrides_def demo_provider_fields demo_wallet)
  show ?thesis
    using save[of 6000000] save[of 5000000] unfolding conf items live_item_fields(1) ok bad sum.case Let_def by simp
qed

end
