(* ===== verification/Nonce_Cache.thy ===== *)
theory Nonce_Cache
  imports Prelude "HOL-Library.Multiset"
begin

text \<open>
  The bounded replay-once set of \<open>internal/pkg/noncecache/noncecache.go\<close>. The recency list and the map of
  the source point at the same nodes; here they are one list of entries, newest first, looked up by
  name. Instants and durations are in nanoseconds.
\<close>

section \<open>State and operations\<close>

record nonce_cache =
  ll :: "(string \<times> int) list"
  cache_max :: nat
  cache_ttl :: int
  failClosed :: bool

definition DefaultMax :: int where "DefaultMax = 65536"

definition NewWithMax :: "int \<Rightarrow> int \<Rightarrow> nonce_cache" where
  "NewWithMax ttl mx =
     \<lparr>ll = [], cache_max = nat (if mx \<le> 0 then DefaultMax else mx), cache_ttl = ttl, failClosed = False\<rparr>"

definition NewFailClosed :: "int \<Rightarrow> int \<Rightarrow> nonce_cache" where
  "NewFailClosed ttl mx = (NewWithMax ttl mx)\<lparr>failClosed := True\<rparr>"

definition unexpired :: "int \<Rightarrow> string \<times> int \<Rightarrow> bool" where
  "unexpired now e \<longleftrightarrow> now < snd e"

definition without :: "string \<Rightarrow> (string \<times> int) list \<Rightarrow> (string \<times> int) list" where
  "without x xs = filter (\<lambda>e. fst e \<noteq> x) xs"

text \<open>The sweeps: from the tail up to the first live entry; of every expired entry; of the tail beyond the
  bound.\<close>

definition evictExpired :: "int \<Rightarrow> (string \<times> int) list \<Rightarrow> (string \<times> int) list" where
  "evictExpired now xs = rev (dropWhile (\<lambda>e. \<not> unexpired now e) (rev xs))"

definition evictAllExpired :: "int \<Rightarrow> (string \<times> int) list \<Rightarrow> (string \<times> int) list" where
  "evictAllExpired now xs = filter (unexpired now) xs"

definition evictOverflow :: "nat \<Rightarrow> (string \<times> int) list \<Rightarrow> (string \<times> int) list" where
  "evictOverflow mx xs = take mx xs"

definition UseOnce :: "int \<Rightarrow> string \<Rightarrow> nonce_cache \<Rightarrow> bool \<times> nonce_cache" where
  "UseOnce now x c =
     (case tget (ll c) x of
        Some e \<Rightarrow>
          if now < e then (False, c\<lparr>ll := (x, e) # without x (ll c)\<rparr>)
          else (True, c\<lparr>ll := (x, now + cache_ttl c) # without x (ll c)\<rparr>)
      | None \<Rightarrow>
          let xs = evictExpired now (ll c);
              ys = (if failClosed c \<and> length xs \<ge> cache_max c then evictAllExpired now xs else xs)
          in if failClosed c \<and> length ys \<ge> cache_max c then (False, c\<lparr>ll := ys\<rparr>)
             else let zs = (x, now + cache_ttl c) # ys
               in (True, c\<lparr>ll := if failClosed c then zs else evictOverflow (cache_max c) zs\<rparr>))"

text \<open>A run of uses, with what each was answered.\<close>

fun use_run :: "(int \<times> string) list \<Rightarrow> nonce_cache \<Rightarrow> bool list \<times> nonce_cache" where
  "use_run [] c = ([], c)"
| "use_run ((t, x) # ops) c =
     (let (b, c1) = UseOnce t x c; (bs, c2) = use_run ops c1 in (b # bs, c2))"

section \<open>Lemmas on the list\<close>

lemma tget_in: "tget xs x = Some e \<Longrightarrow> (x, e) \<in> set xs"
  by (induction xs) (auto simp: tget_def split: if_splits)

lemma tget_iff: "distinct (map fst xs) \<Longrightarrow> tget xs x = Some e \<longleftrightarrow> (x, e) \<in> set xs"
  by (induction xs) (force simp: tget_def split: if_splits)+

lemma tget_None_iff: "tget xs x = None \<longleftrightarrow> x \<notin> fst ` set xs"
  by (induction xs) (auto simp: tget_def)

lemma evictExpired_prefix: "\<exists>dead. xs = evictExpired now xs @ dead \<and> (\<forall>e \<in> set dead. \<not> unexpired now e)"
proof -
  let ?d = "rev (takeWhile (\<lambda>e. \<not> unexpired now e) (rev xs))"
  have "xs = rev (takeWhile (\<lambda>e. \<not> unexpired now e) (rev xs) @ dropWhile (\<lambda>e. \<not> unexpired now e) (rev xs))" by simp
  then have "xs = evictExpired now xs @ ?d" unfolding evictExpired_def rev_append .
  moreover have "\<forall>e \<in> set ?d. \<not> unexpired now e" by (auto dest: set_takeWhileD)
  ultimately show ?thesis by blast
qed

lemma evictExpired_facts:
  "filter (unexpired now) (evictExpired now xs) = filter (unexpired now) xs" "length (evictExpired now xs) \<le> length xs"
  "distinct (map fst xs) \<Longrightarrow> distinct (map fst (evictExpired now xs))"
  "set (evictExpired now xs) \<subseteq> set xs"
proof -
  obtain dead where d: "xs = evictExpired now xs @ dead" "\<forall>e \<in> set dead. \<not> unexpired now e"
    using evictExpired_prefix by blast
  have "filter (unexpired now) xs = filter (unexpired now) (evictExpired now xs) @ filter (unexpired now) dead"
    by (subst d(1)) simp
  with d(2) show "filter (unexpired now) (evictExpired now xs) = filter (unexpired now) xs" by simp
  show "length (evictExpired now xs) \<le> length xs" by (subst (2) d(1)) simp
  show "distinct (map fst (evictExpired now xs))" if "distinct (map fst xs)"
    using that by (subst (asm) d(1)) simp
  show "set (evictExpired now xs) \<subseteq> set xs" by (subst (2) d(1)) simp
qed

lemma without_length: "distinct (map fst xs) \<Longrightarrow> (x, e) \<in> set xs \<Longrightarrow> Suc (length (without x xs)) = length xs"
proof (induction xs)
  case (Cons a xs)
  then show ?case
  proof (cases "fst a = x")
    case True
    then have "x \<notin> fst ` set xs" using Cons.prems(1) by simp
    then have "without x xs = xs" by (force simp: without_def filter_id_conv)
    with True show ?thesis by (simp add: without_def)
  qed (auto simp: without_def)
qed simp

lemma without_distinct: "distinct (map fst xs) \<Longrightarrow> distinct (map fst (without x xs)) \<and> x \<notin> fst ` set (without x xs)"
  by (induction xs) (auto simp: without_def)

section \<open>Boundedness\<close>

definition cache_ok :: "nonce_cache \<Rightarrow> bool" where
  "cache_ok c \<longleftrightarrow> distinct (map fst (ll c)) \<and> length (ll c) \<le> cache_max c \<and> 0 < cache_max c"

lemma UseOnce_frame [simp]:
  "cache_max (snd (UseOnce now x c)) = cache_max c" "cache_ttl (snd (UseOnce now x c)) = cache_ttl c"
  "failClosed (snd (UseOnce now x c)) = failClosed c"
  by (simp_all add: UseOnce_def Let_def split: option.split)

lemma UseOnce_ok:
  assumes ok: "cache_ok c"
  shows "cache_ok (snd (UseOnce now x c))"
proof (cases "tget (ll c) x")
  case None
  let ?xs = "evictExpired now (ll c)"
  let ?ys = "if failClosed c \<and> length ?xs \<ge> cache_max c then evictAllExpired now ?xs else ?xs"
  have ys: "set ?ys \<subseteq> set (ll c)" "distinct (map fst ?ys)" "length ?ys \<le> cache_max c"
    using ok evictExpired_facts[where now = now and xs = "ll c"] length_filter_le[of "unexpired now" ?xs]
    by (auto simp: cache_ok_def evictAllExpired_def intro: distinct_map_filter le_trans)
  moreover have "x \<notin> fst ` set ?ys" using None ys(1) by (auto simp: tget_None_iff)
  moreover have "distinct (map fst (take n xs))" if "distinct (map fst xs)" for n and xs :: "(string \<times> int) list"
    using that by (simp add: take_map[symmetric])
  ultimately show ?thesis
    using ok None by (auto simp: UseOnce_def cache_ok_def evictOverflow_def Let_def not_le)
next
  case (Some e)
  then show ?thesis
    using ok without_distinct[of "ll c" x] without_length[of "ll c" x e] tget_in[OF Some]
    by (auto simp: UseOnce_def cache_ok_def)
qed

lemma New_ok: "cache_ok (NewWithMax ttl mx)" "cache_ok (NewFailClosed ttl mx)"
  by (simp_all add: cache_ok_def NewWithMax_def NewFailClosed_def DefaultMax_def)

lemma use_run_ok: "cache_ok c \<Longrightarrow> cache_ok (snd (use_run ops c))"
proof (induction ops arbitrary: c)
  case (Cons a ops)
  obtain t x where a: "a = (t, x)" by (cases a)
  from Cons.IH[OF UseOnce_ok[OF Cons.prems, of t x]] show ?case
    by (simp add: a case_prod_beta Let_def)
qed simp

lemma use_run_frame [simp]:
  "cache_max (snd (use_run ops c)) = cache_max c" "cache_ttl (snd (use_run ops c)) = cache_ttl c"
  "failClosed (snd (use_run ops c)) = failClosed c"
proof -
  have "cache_max (snd (use_run ops c)) = cache_max c \<and> cache_ttl (snd (use_run ops c)) = cache_ttl c \<and>
        failClosed (snd (use_run ops c)) = failClosed c"
  proof (induction ops arbitrary: c)
    case (Cons a ops)
    obtain t x where a: "a = (t, x)" by (cases a)
    from Cons.IH[of "snd (UseOnce t x c)"] show ?case by (simp add: a case_prod_beta Let_def)
  qed simp
  then show "cache_max (snd (use_run ops c)) = cache_max c" "cache_ttl (snd (use_run ops c)) = cache_ttl c"
    "failClosed (snd (use_run ops c)) = failClosed c" by blast+
qed

section \<open>The fail-closed cache against an unbounded history\<close>

text \<open>
  The contract a fail-closed caller relies on, stated without lists to sweep or recency: a history of
  every use that was ever admitted, nothing forgotten. A name is admitted unless an admitted use of it is
  still inside its window, or the bound on the uses inside their windows is reached.
\<close>

definition spec_use :: "nat \<Rightarrow> int \<Rightarrow> int \<Rightarrow> string \<Rightarrow> (string \<times> int) list \<Rightarrow> bool \<times> (string \<times> int) list" where
  "spec_use mx ttl now x h =
     (if x \<in> fst ` set (filter (unexpired now) h) \<or> mx \<le> length (filter (unexpired now) h) then (False, h)
      else (True, (x, now + ttl) # h))"

fun spec_run :: "nat \<Rightarrow> int \<Rightarrow> (int \<times> string) list \<Rightarrow> (string \<times> int) list \<Rightarrow> bool list" where
  "spec_run mx ttl [] h = []"
| "spec_run mx ttl ((t, x) # ops) h =
     (case spec_use mx ttl t x h of (b, h1) \<Rightarrow> b # spec_run mx ttl ops h1)"

lemma filter_live_without:
  assumes "distinct (map fst xs)" "(x, e) \<in> set xs" "\<not> now < e"
  shows "filter (unexpired now) (without x xs) = filter (unexpired now) xs"
proof -
  have "fst y \<noteq> x" if "y \<in> set xs" "unexpired now y" for y
    using that assms eq_key_imp_eq_value[of xs x "snd y" e] by (cases y) (auto simp: unexpired_def)
  then show ?thesis unfolding without_def filter_filter by (auto intro!: filter_cong)
qed

lemma mset_without:
  "distinct (map fst xs) \<Longrightarrow> (x, e) \<in> set xs \<Longrightarrow> mset ((x, e) # without x xs) = mset xs"
proof (induction xs)
  case (Cons a xs)
  show ?case
  proof (cases "fst a = x")
    case True
    then have "x \<notin> fst ` set xs" "a = (x, e)" using Cons.prems by (auto simp: rev_image_eqI)
    moreover from this(1) have "without x xs = xs" by (force simp: without_def filter_id_conv)
    ultimately show ?thesis by (simp add: without_def)
  next
    case False
    then have "mset ((x, e) # without x xs) = mset xs" using Cons by auto
    with False show ?thesis by (simp add: without_def add_mset_commute)
  qed
qed simp

lemma fail_closed_step:
  fixes c :: nonce_cache and now :: int and x :: string
  assumes ok: "cache_ok c" and fc: "failClosed c"
  defines "L \<equiv> filter (unexpired now) (ll c)"
  shows "fst (UseOnce now x c) \<longleftrightarrow> x \<notin> fst ` set L \<and> length L < cache_max c"
    and "mset (filter (unexpired now) (ll (snd (UseOnce now x c)))) =
         mset (filter (unexpired now) (if fst (UseOnce now x c) then (x, now + cache_ttl c) # ll c else ll c))"
proof -
  have d: "distinct (map fst (ll c))" "length (ll c) \<le> cache_max c" "0 < cache_max c"
    using ok by (auto simp: cache_ok_def)
  have "(fst (UseOnce now x c) \<longleftrightarrow> x \<notin> fst ` set L \<and> length L < cache_max c) \<and>
        mset (filter (unexpired now) (ll (snd (UseOnce now x c)))) =
        mset (filter (unexpired now) (if fst (UseOnce now x c) then (x, now + cache_ttl c) # ll c else ll c))"
  proof (cases "tget (ll c) x")
    case (Some e)
    then have mem: "(x, e) \<in> set (ll c)" by (rule tget_in)
    show ?thesis
    proof (cases "now < e")
      case True
      then have "x \<in> fst ` set L" using mem by (force simp: L_def unexpired_def)
      moreover have "mset (filter (unexpired now) ((x, e) # without x (ll c))) = mset (filter (unexpired now) (ll c))"
        using mset_without[OF d(1) mem] by (metis mset_filter)
      ultimately show ?thesis using Some True by (simp add: UseOnce_def)
    next
      case False
      have eq: "filter (unexpired now) (without x (ll c)) = L"
        using filter_live_without[OF d(1) mem False] by (simp add: L_def)
      have "x \<notin> fst ` set L" unfolding eq[symmetric] by (auto simp: without_def)
      moreover have "length L \<le> length (without x (ll c))" by (simp flip: eq)
      ultimately show ?thesis
        using Some False without_length[OF d(1) mem] d(2) eq by (simp add: UseOnce_def L_def)
    qed
  next
    case None
    let ?xs = "evictExpired now (ll c)"
    have xs: "filter (unexpired now) ?xs = L" by (simp add: L_def evictExpired_facts(1))
    have "length L \<le> length ?xs" by (simp flip: xs)
    moreover have "x \<notin> fst ` set L" using None by (auto simp: L_def tget_None_iff)
    ultimately show ?thesis
      using None fc xs by (simp add: UseOnce_def Let_def evictAllExpired_def L_def del: mset_filter)
  qed
  then show "fst (UseOnce now x c) \<longleftrightarrow> x \<notin> fst ` set L \<and> length L < cache_max c"
    and "mset (filter (unexpired now) (ll (snd (UseOnce now x c)))) =
         mset (filter (unexpired now) (if fst (UseOnce now x c) then (x, now + cache_ttl c) # ll c else ll c))"
    by blast+
qed

text \<open>Cache and history agree on the uses inside their windows, at this instant and so at any later one.\<close>

definition same_live :: "int \<Rightarrow> nonce_cache \<Rightarrow> (string \<times> int) list \<Rightarrow> bool" where
  "same_live now c h \<longleftrightarrow> mset (filter (unexpired now) (ll c)) = mset (filter (unexpired now) h)"

lemma same_live_later:
  assumes "same_live t c h" "t \<le> now"
  shows "same_live now c h"
proof -
  have "filter (unexpired now) (filter (unexpired t) xs) = filter (unexpired now) xs" for xs
    unfolding filter_filter using assms(2) by (auto simp: unexpired_def intro!: filter_cong)
  then show ?thesis using assms(1) unfolding same_live_def by (metis mset_filter)
qed

lemma fail_closed_sim:
  assumes "cache_ok c" "failClosed c" "same_live now c h"
  shows "fst (UseOnce now x c) = fst (spec_use (cache_max c) (cache_ttl c) now x h)"
    and "same_live now (snd (UseOnce now x c)) (snd (spec_use (cache_max c) (cache_ttl c) now x h))"
proof -
  note m = assms(3)[unfolded same_live_def]
  have "set (filter (unexpired now) (ll c)) = set (filter (unexpired now) h)"
    "length (filter (unexpired now) (ll c)) = length (filter (unexpired now) h)"
    using m by (metis set_mset_mset, metis size_mset)
  then show b: "fst (UseOnce now x c) = fst (spec_use (cache_max c) (cache_ttl c) now x h)"
    using fail_closed_step(1)[OF assms(1,2), of now x] by (auto simp: spec_use_def)
  show "same_live now (snd (UseOnce now x c)) (snd (spec_use (cache_max c) (cache_ttl c) now x h))"
    using fail_closed_step(2)[OF assms(1,2), of now x] b m
    by (auto simp: same_live_def spec_use_def split: if_splits)
qed

lemma fail_closed_run:
  assumes "cache_ok c" "failClosed c" "same_live t c h" "sorted (t # map fst ops)"
  shows "fst (use_run ops c) = spec_run (cache_max c) (cache_ttl c) ops h"
  using assms
proof (induction ops arbitrary: c h t)
  case (Cons a ops)
  obtain now x where a: "a = (now, x)" by (cases a)
  have live: "same_live now c h" using Cons.prems(3,4) by (auto simp: a intro: same_live_later)
  note sim = fail_closed_sim[OF Cons.prems(1,2) live, of x]
  from Cons.IH[OF UseOnce_ok[OF Cons.prems(1), of now x] _ sim(2)] Cons.prems sim(1)
  show ?case by (simp add: a case_prod_beta Let_def)
qed simp

text \<open>C14. A fail-closed cache decides every use exactly as the unbounded history does, however many
  uses there are, whatever the bound, as long as its clock does not run backwards: neither the tail sweep, the
  full sweep nor the reordering of replays can be noticed from outside.
\<close>

theorem fail_closed_is_history:
  assumes "sorted (map fst ops)"
  shows "fst (use_run ops (NewFailClosed ttl mx)) =
         spec_run (nat (if mx \<le> 0 then DefaultMax else mx)) ttl ops []"
proof -
  let ?c = "NewFailClosed ttl mx" and ?t = "case ops of [] \<Rightarrow> 0 | a # _ \<Rightarrow> fst a"
  have "fst (use_run ops ?c) = spec_run (cache_max ?c) (cache_ttl ?c) ops []"
  proof (rule fail_closed_run)
    show "cache_ok ?c" by (rule New_ok)
    show "failClosed ?c" by (simp add: NewFailClosed_def)
    show "same_live ?t ?c []" by (simp add: same_live_def NewFailClosed_def NewWithMax_def)
    show "sorted (?t # map fst ops)" using assms by (cases ops) auto
  qed
  then show ?thesis by (simp add: NewFailClosed_def NewWithMax_def)
qed

theorem fail_closed_is_history_witness:
  "fst (use_run [(0, ''a''), (1, ''b''), (2, ''c''), (3, ''a''), (10, ''b''), (10, ''a''), (11, ''c''), (12, ''c'')]
     (NewFailClosed 10 2)) = [True, True, False, False, False, True, True, False]"
proof -
  have "sorted (map fst [(0 :: int, ''a''), (1, ''b''), (2, ''c''), (3, ''a''), (10, ''b''), (10, ''a''), (11, ''c''), (12, ''c'')])"
    by simp
  from fail_closed_is_history[OF this, of 10 2] show ?thesis by (rule trans) code_simp
qed

text \<open>The cache is bounded whatever is submitted, in either mode: after any run of uses it holds at most its
  maximum of entries, no name twice.
\<close>

theorem cache_bounded:
  "distinct (map fst (ll (snd (use_run ops (NewWithMax ttl mx))))) \<and>
   int (length (ll (snd (use_run ops (NewWithMax ttl mx))))) \<le> (if mx \<le> 0 then DefaultMax else mx) \<and>
   distinct (map fst (ll (snd (use_run ops (NewFailClosed ttl mx))))) \<and>
   int (length (ll (snd (use_run ops (NewFailClosed ttl mx))))) \<le> (if mx \<le> 0 then DefaultMax else mx)"
  using use_run_ok[OF New_ok(1)[of ttl mx], of ops] use_run_ok[OF New_ok(2)[of ttl mx], of ops]
  by (auto simp: cache_ok_def NewFailClosed_def NewWithMax_def DefaultMax_def split: if_splits)

section \<open>The recency cache forgets only under load\<close>

text \<open>\<open>within c x e k\<close>: the entry of \<open>x\<close> is in the list with at most \<open>k\<close> entries ahead of it.\<close>

definition within :: "nonce_cache \<Rightarrow> string \<Rightarrow> int \<Rightarrow> nat \<Rightarrow> bool" where
  "within c x e k \<longleftrightarrow> (\<exists>pre post. ll c = pre @ (x, e) # post \<and> length pre \<le> k)"

lemma evictExpired_keeps:
  assumes "now < e"
  shows "\<exists>post'. evictExpired now (pre @ (x, e) # post) = pre @ (x, e) # post'"
proof (cases "\<exists>y \<in> set (rev post). unexpired now y")
  case True
  then obtain y where "y \<in> set (rev post)" "\<not> \<not> unexpired now y" by blast
  then have "dropWhile (\<lambda>y. \<not> unexpired now y) (rev post @ (x, e) # rev pre) =
      dropWhile (\<lambda>y. \<not> unexpired now y) (rev post) @ (x, e) # rev pre"
    by (rule dropWhile_append1)
  then show ?thesis by (simp add: evictExpired_def)
next
  case False
  then have "dropWhile (\<lambda>y. \<not> unexpired now y) (rev post @ (x, e) # rev pre) = (x, e) # rev pre"
    using assms by (subst dropWhile_append2) (auto simp: unexpired_def)
  then show ?thesis by (simp add: evictExpired_def)
qed

lemma within_refused: "cache_ok c \<Longrightarrow> within c x e k \<Longrightarrow> now < e \<Longrightarrow> \<not> fst (UseOnce now x c)"
  using tget_iff[of "ll c" x e] by (auto simp: within_def cache_ok_def UseOnce_def)

lemma within_step:
  assumes ok: "cache_ok c" and w: "within c x e k" and now: "now < e" and room: "Suc k < cache_max c"
  shows "within (snd (UseOnce now y c)) x e (Suc k)"
proof -
  obtain pre post where ll: "ll c = pre @ (x, e) # post" and k: "length pre \<le> k" using w by (auto simp: within_def)
  have moved: "within (c\<lparr>ll := (y, e') # without y (ll c)\<rparr>) x e (Suc k)" if "y \<noteq> x" for e'
  proof -
    have "(y, e') # without y (ll c) = ((y, e') # without y pre) @ (x, e) # without y post"
      using that by (simp add: ll without_def)
    moreover have "length (without y pre) \<le> k"
      using k length_filter_le[of "\<lambda>z. fst z \<noteq> y" pre] unfolding without_def by (rule le_trans[rotated])
    ultimately have "\<exists>p q. (y, e') # without y (ll c) = p @ (x, e) # q \<and> length p \<le> Suc k"
      by (intro exI[of _ "(y, e') # without y pre"] exI[of _ "without y post"]) simp
    then show ?thesis by (simp add: within_def)
  qed
  have same: "tget (ll c) x = Some e" using ok ll tget_iff[of "ll c" x e] by (simp add: cache_ok_def)
  show ?thesis
  proof (cases "tget (ll c) y")
    case (Some e')
    show ?thesis
    proof (cases "y = x")
      case True
      with Some same now have "ll (snd (UseOnce now y c)) = [] @ (x, e) # without x (ll c)" by (simp add: UseOnce_def)
      then show ?thesis unfolding within_def by (intro exI[of _ "[]"] exI[of _ "without x (ll c)"]) simp
    qed (use Some moved in \<open>simp add: UseOnce_def\<close>)
  next
    case None
    obtain post' where ev: "evictExpired now (ll c) = pre @ (x, e) # post'" using evictExpired_keeps[OF now] ll by metis
    have all: "evictAllExpired now (pre @ (x, e) # post') = filter (unexpired now) pre @ (x, e) # filter (unexpired now) post'"
      using now by (simp add: evictAllExpired_def unexpired_def)
    have pre: "length (filter (unexpired now) pre) \<le> k" using k length_filter_le[of _ pre] by (rule le_trans[rotated])
    have put: "within (c\<lparr>ll := p @ (x, e) # q\<rparr>) x e (Suc k)" if "length p \<le> Suc k" for p q
      using that by (auto simp: within_def)
    have "within (c\<lparr>ll := pre @ (x, e) # post'\<rparr>) x e (Suc k)"
      "within (c\<lparr>ll := filter (unexpired now) pre @ (x, e) # filter (unexpired now) post'\<rparr>) x e (Suc k)"
      using put k pre by simp_all
    moreover have "within (c\<lparr>ll := z # pre @ (x, e) # post'\<rparr>) x e (Suc k)"
      "within (c\<lparr>ll := z # filter (unexpired now) pre @ (x, e) # filter (unexpired now) post'\<rparr>) x e (Suc k)" for z
      using put[of "z # pre"] put[of "z # filter (unexpired now) pre"] k pre by simp_all
    moreover have "within (c\<lparr>ll := evictOverflow (cache_max c) (z # pre @ (x, e) # post')\<rparr>) x e (Suc k)" for z
    proof -
      have "evictOverflow (cache_max c) (z # pre @ (x, e) # post') =
          (z # pre) @ (x, e) # take (cache_max c - Suc (Suc (length pre))) post'"
        using k room by (simp add: evictOverflow_def take_Cons' Suc_diff_le)
      then show ?thesis using put[of "z # pre"] k by simp
    qed
    ultimately show ?thesis using None by (simp add: UseOnce_def Let_def ev all)
  qed
qed

lemma within_more: "within c x e k \<Longrightarrow> k \<le> k' \<Longrightarrow> within c x e k'"
  by (auto simp: within_def)

lemma within_admitted:
  assumes "fst (UseOnce now x c)" "cache_ok c"
  shows "within (snd (UseOnce now x c)) x (now + cache_ttl c) 0"
proof -
  have "\<exists>q. ll (snd (UseOnce now x c)) = [] @ (x, now + cache_ttl c) # q"
    using assms
    by (auto simp: UseOnce_def Let_def cache_ok_def evictOverflow_def take_Cons' split: option.splits if_splits)
  then show ?thesis unfolding within_def by auto
qed

end
