(* ===== verification/Encoding.thy ===== *)
theory Encoding
  imports Prelude
begin

text \<open>
  The two wire encodings the challenges and proofs are built from: unpadded URL-safe base64
  (\<open>base64.RawURLEncoding\<close>, not strict, line breaks skipped) and big-endian 64-bit integers
  (\<open>encoding/binary\<close>). A byte string is a list of characters.
\<close>

section \<open>Base64\<close>

definition sextet_char :: "nat \<Rightarrow> char" where
  "sextet_char n =
     char_of (if n < 26 then n + 65 else if n < 52 then n + 71 else if n < 62 then n - 4
              else if n = 62 then 45 else 95)"

definition char_sextet :: "char \<Rightarrow> nat option" where
  "char_sextet c =
     (let n = of_char c :: nat
      in if 65 \<le> n \<and> n \<le> 90 then Some (n - 65) else if 97 \<le> n \<and> n \<le> 122 then Some (n - 71)
         else if 48 \<le> n \<and> n \<le> 57 then Some (n + 4) else if n = 45 then Some 62
         else if n = 95 then Some 63 else None)"

fun sextets :: "nat list \<Rightarrow> nat list" where
  "sextets [] = []"
| "sextets [a] = [a div 4, a mod 4 * 16]"
| "sextets [a, b] = [a div 4, a mod 4 * 16 + b div 16, b mod 16 * 4]"
| "sextets (a # b # c # xs) =
     a div 4 # (a mod 4 * 16 + b div 16) # (b mod 16 * 4 + c div 64) # c mod 64 # sextets xs"

fun octets :: "nat list \<Rightarrow> nat list option" where
  "octets [] = Some []"
| "octets [p] = None"
| "octets [p, q] = Some [p * 4 + q div 16]"
| "octets [p, q, r] = Some [p * 4 + q div 16, q mod 16 * 16 + r div 4]"
| "octets (p # q # r # s # xs) =
     map_option (\<lambda>ys. (p * 4 + q div 16) # (q mod 16 * 16 + r div 4) # (r mod 4 * 64 + s) # ys) (octets xs)"

definition EncodeToString :: "string \<Rightarrow> string" where
  "EncodeToString s = map sextet_char (sextets (map of_char s))"

fun those_sextets :: "string \<Rightarrow> nat list option" where
  "those_sextets [] = Some []"
| "those_sextets (c # cs) =
     (case char_sextet c of None \<Rightarrow> None | Some n \<Rightarrow> map_option ((#) n) (those_sextets cs))"

definition DecodeString :: "string \<Rightarrow> string option" where
  "DecodeString s =
     (case those_sextets (filter (\<lambda>c. c \<noteq> CHR 0x0A \<and> c \<noteq> CHR 0x0D) s) of
        None \<Rightarrow> None
      | Some ns \<Rightarrow> map_option (map char_of) (octets ns))"

lemma char_sextet_char [simp]:
  assumes "n < 64"
  shows "char_sextet (sextet_char n) = Some n"
proof -
  consider "n < 26" | "26 \<le> n" "n < 52" | "52 \<le> n" "n < 62" | "n = 62" | "n = 63" using assms by linarith
  then show ?thesis
  proof cases
    case 3
    then have "48 \<le> n - 4 \<and> n - 4 \<le> 57" by linarith
    with 3 show ?thesis by (simp add: char_sextet_def sextet_char_def Let_def)
  qed (simp_all add: char_sextet_def sextet_char_def Let_def)
qed

lemma sextet_char_not_nl:
  assumes "n < 64"
  shows "sextet_char n \<noteq> CHR 0x0A \<and> sextet_char n \<noteq> CHR 0x0D \<and> sextet_char n \<noteq> CHR ''.''"
  using char_sextet_char[OF assms] by (auto simp: char_sextet_def Let_def)

lemma sextets_small: "\<forall>a \<in> set xs. a < 256 \<Longrightarrow> \<forall>n \<in> set (sextets xs). n < 64"
  by (induction xs rule: sextets.induct) auto

lemma split_byte:
  fixes a b :: nat
  shows "(a mod 4 * 16 + b div 16) div 16 = a mod 4 + b div 16 div 16"
    "(a mod 4 * 16 + b div 16) mod 16 = b div 16 mod 16"
    "(a mod 16 * 4 + b div 64) div 4 = a mod 16 + b div 64 div 4"
    "(a mod 16 * 4 + b div 64) mod 4 = b div 64 mod 4"
  by simp_all

lemma octets_sextets: "\<forall>a \<in> set xs. a < 256 \<Longrightarrow> octets (sextets xs) = Some xs"
proof (induction xs rule: sextets.induct)
  case (3 a b)
  then have "b < 256" by simp
  then have "b div 16 < 16" by simp
  then show ?case by (simp add: split_byte)
next
  case (4 a b c xs)
  then have "octets (sextets xs) = Some xs" "b < 256" "c < 256" by simp_all
  moreover from this have "b div 16 < 16" "c div 64 < 4" by simp_all
  ultimately show ?case by (simp add: split_byte)
qed simp_all

lemma those_sextets_map:
  "\<forall>n \<in> set ns. n < 64 \<Longrightarrow>
   those_sextets (filter (\<lambda>c. c \<noteq> CHR 0x0A \<and> c \<noteq> CHR 0x0D) (map sextet_char ns)) = Some ns"
  by (induction ns) (auto simp: sextet_char_not_nl)

lemma of_char_small: "\<forall>a \<in> set (map of_char s). (a :: nat) < 256"
  by simp

lemma decode_encode [simp]: "DecodeString (EncodeToString s) = Some s"
proof -
  let ?ns = "sextets (map of_char s)"
  have "those_sextets (filter (\<lambda>c. c \<noteq> CHR 0x0A \<and> c \<noteq> CHR 0x0D) (map sextet_char ?ns)) = Some ?ns"
    by (rule those_sextets_map[OF sextets_small[OF of_char_small]])
  moreover have "octets ?ns = Some (map of_char s)" by (rule octets_sextets[OF of_char_small])
  moreover have "map char_of (map of_char s :: nat list) = s" by (simp add: o_def)
  ultimately show ?thesis by (simp add: DecodeString_def EncodeToString_def)
qed

lemma encode_no_dot: "CHR ''.'' \<notin> set (EncodeToString s)"
  using sextets_small[OF of_char_small, of s] sextet_char_not_nl by (fastforce simp: EncodeToString_def)

lemma encode_Nil_iff [simp]: "EncodeToString s = [] \<longleftrightarrow> s = []"
  by (metis decode_encode DecodeString_def EncodeToString_def list.map_disc_iff option.inject sextets.simps(1))

section \<open>Big-endian integers\<close>

fun be_bytes :: "nat \<Rightarrow> int \<Rightarrow> string" where
  "be_bytes 0 t = []"
| "be_bytes (Suc n) t = be_bytes n (t div 256) @ [char_of (nat (t mod 256))]"

definition PutUint64 :: "int64 \<Rightarrow> string" where
  "PutUint64 t = be_bytes 8 t"

definition ReadInt64 :: "string \<Rightarrow> int64" where
  "ReadInt64 bs = wrap64 (foldl (\<lambda>a c. a * 256 + int (of_char c)) 0 bs)"

lemma be_bytes_length [simp]: "length (be_bytes n t) = n"
  by (induction n arbitrary: t) auto

lemma be_bytes_value: "foldl (\<lambda>a c. a * 256 + int (of_char c)) 0 (be_bytes n t) = t mod 256 ^ n"
proof (induction n arbitrary: t)
  case (Suc n)
  have "nat (t mod 256) mod 256 = nat (t mod 256)" by simp
  moreover have "t div 256 mod 256 ^ n * 256 + t mod 256 = t mod 256 ^ Suc n"
    by (simp add: zmod_zmult2_eq)
  ultimately show ?case by (simp add: Suc)
qed simp

lemma PutUint64_length [simp]: "length (PutUint64 t) = 8"
  by (simp add: PutUint64_def)

lemma Read_Put [simp]: "ReadInt64 (PutUint64 t) = wrap64 t"
  by (simp add: ReadInt64_def PutUint64_def be_bytes_value wrap64_def mod_simps)

end
