(* ===== verification/Device_Proof.thy ===== *)
theory Device_Proof
  imports Nonce_Cache Encoding Apierr
begin

text \<open>
  Device-bound request authentication: \<open>internal/app/deviceproof/service.go\<close> and its HTTP adapter
  \<open>internal/transport/httpapi/handlers/business/proof/handler.go\<close>. SHA-256, HMAC, Ed25519 and the
  JSON decoding of the payload are a parameter, the record \<open>prims\<close>; so are the random bytes. Instants
  are nanoseconds since the epoch, each of the service's readings of the clock an argument.
\<close>

section \<open>State and types\<close>

record payload =
  Version :: int
  KeyID :: string
  Issued :: int64
  ID :: string
  Nonce :: string
  Method :: string
  Target :: string
  Body :: string

record prims =
  sha256 :: "string \<Rightarrow> string"
  hmac :: "string \<Rightarrow> string \<Rightarrow> string"
  ed25519_Verify :: "string \<Rightarrow> string \<Rightarrow> string \<Rightarrow> bool"
  Unmarshal :: "string \<Rightarrow> payload option"

record proof_request =
  rq_Method :: string
  rq_Target :: string
  rq_Body :: string

record registration =
  PublicKey :: string
  Thumb :: string

record challenge =
  ch_Nonce :: string
  ExpiresAt :: int

text \<open>The service: the replay guard, which may be missing, and the process-local secret. The key resolver,
  a read of the install table, is given to each call: \<open>None\<close> when none is wired.\<close>

record 'g proof_service =
  replay :: "'g option"
  secret :: string

type_synonym key_resolver = "string \<Rightarrow> go_error + (string \<times> bool)"

definition ns :: int where "ns = 1000000000"
definition nonceTTL :: int where "nonceTTL = 300 * ns"
definition proofSkew :: int where "proofSkew = 90 * ns"
definition maxProofBytes :: nat where "maxProofBytes = 4096"
definition maxInstallID :: nat where "maxInstallID = 128"
definition maxPublicKeyB64 :: nat where "maxPublicKeyB64 = 128"
definition PublicKeySize :: nat where "PublicKeySize = 32"

section \<open>Operations\<close>

definition IssueChallenge :: "prims \<Rightarrow> int \<Rightarrow> string \<Rightarrow> 'g proof_service \<Rightarrow> challenge" where
  "IssueChallenge P now rnd s =
     (let raw = PutUint64 (now div ns) @ rnd
      in \<lparr>ch_Nonce = EncodeToString (raw @ hmac P (secret s) raw), ExpiresAt = now + nonceTTL\<rparr>)"

definition validNonce :: "prims \<Rightarrow> string \<Rightarrow> string \<Rightarrow> int \<Rightarrow> bool" where
  "validNonce P sec encoded now =
     (case DecodeString encoded of
        None \<Rightarrow> False
      | Some raw \<Rightarrow>
          if length raw \<noteq> 8 + 16 + 32 then False
          else if drop 24 raw \<noteq> hmac P sec (take 24 raw) then False
          else let issued = ReadInt64 (take 8 raw) * ns
            in \<not> issued > now + proofSkew \<and> now < issued + nonceTTL)"

definition Thumbprint :: "prims \<Rightarrow> string \<Rightarrow> string" where
  "Thumbprint P key = EncodeToString (sha256 P key)"

fun Split_dot :: "string \<Rightarrow> string list" where
  "Split_dot [] = [[]]"
| "Split_dot (c # cs) =
     (case Split_dot cs of
        part # parts \<Rightarrow> if c = CHR ''.'' then [] # part # parts else (c # part) # parts
      | [] \<Rightarrow> [])"

definition dErr :: "sentinel \<Rightarrow> api_error option" where
  "dErr e = Some (sentinel_error e)"

text \<open>The binding checks of \<open>verify\<close> on a decoded payload: the one long condition of the source,
  negated.\<close>

definition bound_to :: "prims \<Rightarrow> proof_request \<Rightarrow> string \<Rightarrow> int \<Rightarrow> payload \<Rightarrow> bool" where
  "bound_to P req expectedID now p \<longleftrightarrow>
     \<not> (Version p \<noteq> 1 \<or> KeyID p \<noteq> expectedID \<or> ID p = [] \<or> length (ID p) > 128 \<or>
        Method p \<noteq> rq_Method req \<or> Target p \<noteq> rq_Target req \<or>
        Body p \<noteq> EncodeToString (sha256 P (rq_Body req)) \<or>
        Issued p * ns < now - proofSkew \<or> Issued p * ns > now + proofSkew)"

definition replay_key :: "string \<Rightarrow> payload \<Rightarrow> string" where
  "replay_key expectedID p = expectedID @ '':'' @ ID p"

text \<open>\<open>use\<close> is the guard's \<open>UseOnce\<close> at the instant it reads its own clock.\<close>

definition verify ::
    "prims \<Rightarrow> (string \<Rightarrow> 'g \<Rightarrow> bool \<times> 'g) \<Rightarrow> int \<Rightarrow> proof_request \<Rightarrow> string \<Rightarrow> string \<Rightarrow> string \<Rightarrow>
     'g proof_service \<Rightarrow> api_error option \<times> 'g proof_service" where
  "verify P use now req expectedID key compact s =
     (if length compact > maxProofBytes then (dErr ErrDeviceProofInvalid, s)
      else case Split_dot compact of
        [p0, p1] \<Rightarrow>
          if p0 = [] \<or> p1 = [] then (dErr ErrDeviceProofInvalid, s)
          else (case DecodeString p0 of
            None \<Rightarrow> (dErr ErrDeviceProofInvalid, s)
          | Some rawPayload \<Rightarrow> (case Unmarshal P rawPayload of
              None \<Rightarrow> (dErr ErrDeviceProofInvalid, s)
            | Some p \<Rightarrow> (case DecodeString p1 of
                None \<Rightarrow> (dErr ErrDeviceProofInvalid, s)
              | Some sig \<Rightarrow>
                  if \<not> ed25519_Verify P key p0 sig then (dErr ErrDeviceProofInvalid, s)
                  else if \<not> bound_to P req expectedID now p then (dErr ErrDeviceProofInvalid, s)
                  else if \<not> validNonce P (secret s) (Nonce p) now then (dErr ErrDeviceProofNonceInvalid, s)
                  else (case replay s of
                    None \<Rightarrow> (dErr ErrDeviceProofReplayed, s)
                  | Some g \<Rightarrow> (case use (replay_key expectedID p) g of
                      (admitted, g') \<Rightarrow>
                        (if admitted then None else dErr ErrDeviceProofReplayed, s\<lparr>replay := Some g'\<rparr>))))))
      | _ \<Rightarrow> (dErr ErrDeviceProofInvalid, s))"

definition VerifyRegistration ::
    "prims \<Rightarrow> (string \<Rightarrow> 'g \<Rightarrow> bool \<times> 'g) \<Rightarrow> int \<Rightarrow> proof_request \<Rightarrow> string \<Rightarrow> string \<Rightarrow>
     'g proof_service \<Rightarrow> (api_error + registration) \<times> 'g proof_service" where
  "VerifyRegistration P use now req encodedKey compact s =
     (if encodedKey = [] \<or> length encodedKey > maxPublicKeyB64
      then (Inl (sentinel_error ErrDeviceProofInvalid), s)
      else case DecodeString encodedKey of
        None \<Rightarrow> (Inl (sentinel_error ErrDeviceProofInvalid), s)
      | Some key \<Rightarrow>
          if length key \<noteq> PublicKeySize then (Inl (sentinel_error ErrDeviceProofInvalid), s)
          else let thumb = Thumbprint P key
            in case verify P use now req thumb key compact s of
                 (Some ae, s') \<Rightarrow> (Inl ae, s')
               | (None, s') \<Rightarrow> (Inr \<lparr>PublicKey = key, Thumb = thumb\<rparr>, s'))"

definition VerifyInstall ::
    "prims \<Rightarrow> (string \<Rightarrow> 'g \<Rightarrow> bool \<times> 'g) \<Rightarrow> key_resolver option \<Rightarrow> int \<Rightarrow> proof_request \<Rightarrow> string \<Rightarrow>
     string \<Rightarrow> 'g proof_service \<Rightarrow> api_error option \<times> 'g proof_service" where
  "VerifyInstall P use keys now req installID compact s =
     (if installID = [] \<or> compact = [] then (dErr ErrDeviceProofRequired, s)
      else if length installID > maxInstallID then (dErr ErrInvalidInstall, s)
      else case keys of
        None \<Rightarrow> (Some InternalError, s)
      | Some k \<Rightarrow> (case k installID of
            Inl err \<Rightarrow> (Some InternalError, s)
          | Inr (key, found) \<Rightarrow>
              if \<not> found \<or> length key \<noteq> PublicKeySize then (dErr ErrInvalidInstall, s)
              else verify P use now req installID key compact s))"

section \<open>The HTTP adapter\<close>

record proof_http =
  h_InstallID :: string
  h_Proof :: string
  h_PublicKey :: string
  h_Method :: string
  h_Host :: string
  h_EscapedPath :: string
  h_RawQuery :: string

definition to_lower :: "char \<Rightarrow> char" where
  "to_lower c = (let n = of_char c :: nat in if 65 \<le> n \<and> n \<le> 90 then char_of (n + 32) else c)"

definition target :: "proof_http \<Rightarrow> string" where
  "target r = map to_lower (h_Host r) @ h_EscapedPath r @
     (if h_RawQuery r \<noteq> [] then ''?'' @ h_RawQuery r else [])"

datatype body_read = TooLarge | ReadFailed | ReadAll string

text \<open>\<open>Protect\<close> writes an error, or calls the next handler with the body restored.\<close>

datatype protected = Written response | Next string

definition Protect ::
    "prims \<Rightarrow> (string \<Rightarrow> 'g \<Rightarrow> bool \<times> 'g) \<Rightarrow> key_resolver option \<Rightarrow> int \<Rightarrow> proof_http \<Rightarrow> body_read \<Rightarrow>
     'g proof_service \<Rightarrow> protected \<times> 'g proof_service" where
  "Protect P use keys now r b s =
     (if h_InstallID r = [] \<or> h_Proof r = []
      then (Written (WriteError (Api (sentinel_error ErrDeviceProofRequired))), s)
      else case b of
        TooLarge \<Rightarrow> (Written (WriteError (Api (sentinel_error ErrRequestBodyTooLarge))), s)
      | ReadFailed \<Rightarrow> (Written (WriteErrorWith 400 ''BAD_REQUEST'' ''invalid request body''), s)
      | ReadAll body \<Rightarrow>
          (case VerifyInstall P use keys now
                  \<lparr>rq_Method = h_Method r, rq_Target = target r, rq_Body = body\<rparr>
                  (h_InstallID r) (h_Proof r) s of
             (Some ae, s') \<Rightarrow> (Written (WriteError (Api ae)), s')
           | (None, s') \<Rightarrow> (Next body, s')))"

definition Registration ::
    "prims \<Rightarrow> (string \<Rightarrow> 'g \<Rightarrow> bool \<times> 'g) \<Rightarrow> int \<Rightarrow> proof_http \<Rightarrow> string \<Rightarrow>
     'g proof_service \<Rightarrow> (api_error + registration) \<times> 'g proof_service" where
  "Registration P use now r body s =
     VerifyRegistration P use now \<lparr>rq_Method = h_Method r, rq_Target = target r, rq_Body = body\<rparr>
       (h_PublicKey r) (h_Proof r) s"

text \<open>The challenge endpoint; the expiry goes out in whole seconds (RFC 3339), here the second itself.\<close>

definition ServeChallenge :: "prims \<Rightarrow> int \<Rightarrow> string \<Rightarrow> string \<Rightarrow> 'g proof_service \<Rightarrow> response + (string \<times> int)" where
  "ServeChallenge P now rnd meth s =
     (if meth \<noteq> ''GET'' then Inl (WriteErrorWith 405 ''BAD_REQUEST'' ''method not allowed'')
      else let c = IssueChallenge P now rnd s in Inr (ch_Nonce c, ExpiresAt c div ns))"

end
