(* ===== verification/Device_Proof_Props.thy ===== *)
theory Device_Proof_Props
  imports Device_Proof
begin

text \<open>
  What an accepted device proof means: the request it covers, the life of a challenge, and how often one
  signed payload can be accepted. The replay argument is made once over any guard (locale
  \<open>replay_guard\<close>) and instantiated with the fail-closed nonce cache.
\<close>

section \<open>Reading a proof\<close>

definition read_proof :: "prims \<Rightarrow> string \<Rightarrow> (string \<times> payload \<times> string) option" where
  "read_proof P compact =
     (if length compact > maxProofBytes then None
      else case Split_dot compact of
        [p0, p1] \<Rightarrow>
          if p0 = [] \<or> p1 = [] then None
          else (case DecodeString p0 of None \<Rightarrow> None
            | Some raw \<Rightarrow> (case Unmarshal P raw of None \<Rightarrow> None
              | Some p \<Rightarrow> map_option (\<lambda>sig. (p0, p, sig)) (DecodeString p1)))
      | _ \<Rightarrow> None)"

lemma verify_eq:
  "verify P use now req eid key compact s =
     (case read_proof P compact of
        None \<Rightarrow> (dErr ErrDeviceProofInvalid, s)
      | Some (p0, p, sig) \<Rightarrow>
          if \<not> ed25519_Verify P key p0 sig \<or> \<not> bound_to P req eid now p then (dErr ErrDeviceProofInvalid, s)
          else if \<not> validNonce P (secret s) (Nonce p) now then (dErr ErrDeviceProofNonceInvalid, s)
          else (case replay s of
             None \<Rightarrow> (dErr ErrDeviceProofReplayed, s)
           | Some g \<Rightarrow>
               (if fst (use (replay_key eid p) g) then None else dErr ErrDeviceProofReplayed,
                s\<lparr>replay := Some (snd (use (replay_key eid p) g))\<rparr>)))"
  by (simp add: verify_def read_proof_def case_prod_beta split: list.split option.split)

lemma verify_accepts:
  "fst (verify P use now req eid key compact s) = None \<longleftrightarrow>
     (\<exists>p0 p sig g. read_proof P compact = Some (p0, p, sig) \<and> ed25519_Verify P key p0 sig \<and>
        bound_to P req eid now p \<and> validNonce P (secret s) (Nonce p) now \<and> replay s = Some g \<and>
        fst (use (replay_key eid p) g))"
  by (auto simp: verify_eq dErr_def split: option.splits)

lemma verify_state:
  "snd (verify P use now req eid key compact s) = s \<and> fst (verify P use now req eid key compact s) \<noteq> None \<or>
   (\<exists>p0 p sig g. read_proof P compact = Some (p0, p, sig) \<and> replay s = Some g \<and>
      snd (verify P use now req eid key compact s) = s\<lparr>replay := Some (snd (use (replay_key eid p) g))\<rparr> \<and>
      (fst (verify P use now req eid key compact s) = None \<longleftrightarrow> fst (use (replay_key eid p) g)))"
  by (auto simp: verify_eq dErr_def split: option.splits)

section \<open>Runs of the service\<close>

text \<open>One verification: the instant the service reads, the instant its guard reads, and the call.\<close>

datatype proof_op =
    Register (op_now: int) (op_use: int) (op_req: proof_request) (op_id: string) (op_compact: string)
  | Call (op_now: int) (op_use: int) (op_req: proof_request) (op_keys: "key_resolver option")
      (op_id: string) (op_compact: string)

fun proof_step :: "prims \<Rightarrow> (int \<Rightarrow> string \<Rightarrow> 'g \<Rightarrow> bool \<times> 'g) \<Rightarrow> proof_op \<Rightarrow> 'g proof_service \<Rightarrow>
    bool \<times> 'g proof_service" where
  "proof_step P use (Register now u req key compact) s =
     (case VerifyRegistration P (use u) now req key compact s of (r, s') \<Rightarrow> (\<not> isl r, s'))"
| "proof_step P use (Call now u req keys i compact) s =
     (case VerifyInstall P (use u) keys now req i compact s of (r, s') \<Rightarrow> (r = None, s'))"

fun proof_run :: "prims \<Rightarrow> (int \<Rightarrow> string \<Rightarrow> 'g \<Rightarrow> bool \<times> 'g) \<Rightarrow> proof_op list \<Rightarrow> 'g proof_service \<Rightarrow> bool list" where
  "proof_run P use [] s = []"
| "proof_run P use (a # ops) s =
     (case proof_step P use a s of (b, s') \<Rightarrow> b # proof_run P use ops s')"

text \<open>The identity a payload was checked against: the install id, or the thumbprint of the key.\<close>

definition op_kid :: "prims \<Rightarrow> proof_op \<Rightarrow> string" where
  "op_kid P a =
     (case a of Register now u req key c \<Rightarrow> Thumbprint P (the (DecodeString key)) | Call now u req k i c \<Rightarrow> i)"

definition op_payload :: "prims \<Rightarrow> proof_op \<Rightarrow> payload option" where
  "op_payload P a = map_option (fst \<circ> snd) (read_proof P (op_compact a))"

lemma proof_step_verify:
  "proof_step P use a s = (False, s) \<or>
   (\<exists>key. proof_step P use a s =
      (fst (verify P (use (op_use a)) (op_now a) (op_req a) (op_kid P a) key (op_compact a) s) = None,
       snd (verify P (use (op_use a)) (op_now a) (op_req a) (op_kid P a) key (op_compact a) s)))"
proof (cases a)
  case (Register now u req ek c)
  show ?thesis
  proof (cases "ek = [] \<or> length ek > maxPublicKeyB64 \<or> DecodeString ek = None \<or>
      length (the (DecodeString ek)) \<noteq> PublicKeySize")
    case True
    then show ?thesis by (auto simp: Register VerifyRegistration_def split: option.split)
  next
    case False
    then obtain key where "DecodeString ek = Some key" by auto
    then show ?thesis
      using False
      by (auto simp: Register VerifyRegistration_def op_kid_def Let_def case_prod_beta split: prod.split option.split)
  qed
next
  case (Call now u req k i c)
  then show ?thesis
    by (auto simp: VerifyInstall_def op_kid_def dErr_def case_prod_beta split: option.split sum.split)
qed

text \<open>Every step either leaves the guard alone and accepts nothing new, or is one use of the replay key.\<close>

lemma proof_step_cases:
  obtains (same) "snd (proof_step P use a s) = s" "\<not> fst (proof_step P use a s)"
  | (used) p g where "op_payload P a = Some p" "replay s = Some g"
      "snd (proof_step P use a s) = s\<lparr>replay := Some (snd (use (op_use a) (replay_key (op_kid P a) p) g))\<rparr>"
      "fst (proof_step P use a s) \<longleftrightarrow> fst (use (op_use a) (replay_key (op_kid P a) p) g)"
proof -
  consider "proof_step P use a s = (False, s)"
    | key where "proof_step P use a s =
      (fst (verify P (use (op_use a)) (op_now a) (op_req a) (op_kid P a) key (op_compact a) s) = None,
       snd (verify P (use (op_use a)) (op_now a) (op_req a) (op_kid P a) key (op_compact a) s))"
    using proof_step_verify by blast
  then show thesis
  proof cases
    case 1
    then show thesis by (intro same) auto
  next
    case 2
    with verify_state[of P "use (op_use a)" "op_now a" "op_req a" "op_kid P a" key "op_compact a" s]
    show thesis by (auto simp: op_payload_def intro: same used)
  qed
qed

section \<open>At most once, over any guard\<close>

text \<open>
  What the service needs of its replay guard: a use within the deadline of an admitted one is refused, an
  admitted use is remembered with a deadline \<open>ttl\<close> later, and nothing is forgotten before its deadline.
\<close>

locale replay_guard =
  fixes use :: "int \<Rightarrow> string \<Rightarrow> 'g \<Rightarrow> bool \<times> 'g" and ok :: "'g \<Rightarrow> bool"
    and used :: "'g \<Rightarrow> string \<Rightarrow> int \<Rightarrow> bool" and ttl :: int
  assumes ok_use: "ok g \<Longrightarrow> ok (snd (use t x g))"
    and refuse: "ok g \<Longrightarrow> used g x e \<Longrightarrow> t < e \<Longrightarrow> \<not> fst (use t x g)"
    and store: "ok g \<Longrightarrow> fst (use t x g) \<Longrightarrow> used (snd (use t x g)) x (t + ttl)"
    and keep: "ok g \<Longrightarrow> used g y e \<Longrightarrow> t < e \<Longrightarrow> used (snd (use t x g)) y e"
begin

definition svc_ok :: "'g proof_service \<Rightarrow> bool" where
  "svc_ok s \<longleftrightarrow> (\<forall>g. replay s = Some g \<longrightarrow> ok g)"

definition remembers :: "'g proof_service \<Rightarrow> string \<Rightarrow> int \<Rightarrow> bool" where
  "remembers s x e \<longleftrightarrow> (\<exists>g. replay s = Some g \<and> used g x e)"

lemma step_ok: "svc_ok s \<Longrightarrow> svc_ok (snd (proof_step P use a s))"
  by (cases rule: proof_step_cases[of P use a s]) (auto simp: svc_ok_def intro: ok_use)

lemma step_keep:
  "svc_ok s \<Longrightarrow> remembers s x e \<Longrightarrow> op_use a < e \<Longrightarrow> remembers (snd (proof_step P use a s)) x e"
  by (cases rule: proof_step_cases[of P use a s]) (auto simp: svc_ok_def remembers_def intro: keep)

lemma step_refuse:
  assumes "svc_ok s" "remembers s (replay_key (op_kid P a) p) e" "op_payload P a = Some p" "op_use a < e"
  shows "\<not> fst (proof_step P use a s)"
  using assms by (cases rule: proof_step_cases[of P use a s]) (auto simp: svc_ok_def remembers_def refuse)

lemma step_store:
  assumes "svc_ok s" "fst (proof_step P use a s)" "op_payload P a = Some p"
  shows "remembers (snd (proof_step P use a s)) (replay_key (op_kid P a) p) (op_use a + ttl)"
  using assms by (cases rule: proof_step_cases[of P use a s]) (auto simp: svc_ok_def remembers_def store)

lemma remembered_refused:
  assumes "svc_ok s" "remembers s (replay_key (op_kid P (ops ! j)) p) e" "j < length ops"
    "\<And>k. k \<le> j \<Longrightarrow> op_use (ops ! k) < e" "op_payload P (ops ! j) = Some p"
  shows "\<not> proof_run P use ops s ! j"
  using assms
proof (induction ops arbitrary: s j)
  case (Cons a ops)
  show ?case
  proof (cases j)
    case 0
    then show ?thesis using Cons.prems step_refuse[of s P a p e] by (auto simp: case_prod_beta)
  next
    case (Suc i)
    have "op_use a < e" using Cons.prems(4)[of 0] by simp
    moreover have "op_use (ops ! k) < e" if "k \<le> i" for k using Cons.prems(4)[of "Suc k"] that Suc by simp
    ultimately show ?thesis
      using Cons.prems Suc Cons.IH[OF step_ok step_keep] by (auto simp: case_prod_beta)
  qed
qed simp

lemma accepted_twice:
  assumes "svc_ok s" "i < j" "j < length ops" "proof_run P use ops s ! i" "proof_run P use ops s ! j"
    "op_payload P (ops ! i) = Some p" "op_payload P (ops ! j) = Some p" "op_kid P (ops ! i) = op_kid P (ops ! j)"
    "sorted (map op_use ops)"
  shows "op_use (ops ! i) + ttl \<le> op_use (ops ! j)"
  using assms
proof (induction ops arbitrary: s i j)
  case (Cons a ops)
  from Cons.prems(2) obtain j' where j: "j = Suc j'" by (cases j) auto
  show ?case
  proof (cases i)
    case 0
    show ?thesis
    proof (rule ccontr)
      assume "\<not> ?thesis"
      then have late: "op_use (ops ! j') < op_use a + ttl" by (simp add: 0 j)
      have le: "op_use (ops ! k) < op_use a + ttl" if "k \<le> j'" for k
      proof -
        have "sorted (map op_use ops)" using Cons.prems(9) by simp
        then have "op_use (ops ! k) \<le> op_use (ops ! j')"
          using that Cons.prems(3) sorted_nth_mono[of "map op_use ops" k j'] by (simp add: j)
        with late show ?thesis by linarith
      qed
      have "remembers (snd (proof_step P use a s)) (replay_key (op_kid P (ops ! j')) p) (op_use a + ttl)"
        using step_store[of s P a p] Cons.prems by (simp add: 0 j case_prod_beta)
      from remembered_refused[OF step_ok[OF Cons.prems(1)] this _ le] Cons.prems
      show False by (simp add: j case_prod_beta)
    qed
  next
    case (Suc i')
    then show ?thesis
      using Cons.IH[OF step_ok[OF Cons.prems(1)], of i' j'] Cons.prems by (simp add: j case_prod_beta)
  qed
qed simp

end

text \<open>The clock window of an accepted call.\<close>

lemma accepted_window:
  assumes "fst (proof_step P use a s)" "op_payload P a = Some p"
  shows "op_now a - proofSkew \<le> Issued p * ns" "Issued p * ns \<le> op_now a + proofSkew" "KeyID p = op_kid P a"
proof -
  obtain key where "fst (verify P (use (op_use a)) (op_now a) (op_req a) (op_kid P a) key (op_compact a) s) = None"
    using proof_step_verify[of P use a s] assms(1) by auto
  then have "bound_to P (op_req a) (op_kid P a) (op_now a) p"
    using assms(2) by (auto simp: verify_accepts op_payload_def)
  then show "op_now a - proofSkew \<le> Issued p * ns" "Issued p * ns \<le> op_now a + proofSkew" "KeyID p = op_kid P a"
    by (auto simp: bound_to_def)
qed

lemma accepted_step:
  "j < length ops \<Longrightarrow> proof_run P use ops s ! j \<Longrightarrow> \<exists>s'. fst (proof_step P use (ops ! j) s')"
proof (induction ops arbitrary: s j)
  case (Cons a ops)
  then show ?case by (cases j) (auto simp: case_prod_beta)
qed simp

section \<open>The nonce cache as the guard\<close>

definition fail_closed_ok :: "int \<Rightarrow> nonce_cache \<Rightarrow> bool" where
  "fail_closed_ok ttl c \<longleftrightarrow> cache_ok c \<and> failClosed c \<and> cache_ttl c = ttl"

definition remembered_until :: "nonce_cache \<Rightarrow> string \<Rightarrow> int \<Rightarrow> bool" where
  "remembered_until c x e \<longleftrightarrow> (x, e) \<in> set (ll c)"

lemma UseOnce_refuse:
  assumes "cache_ok c" "(x, e) \<in> set (ll c)" "t < e"
  shows "\<not> fst (UseOnce t x c)"
proof -
  have "tget (ll c) x = Some e"
    using assms(1,2) tget_iff[of "ll c" x e] by (simp add: cache_ok_def)
  then show ?thesis using assms(3) by (simp add: UseOnce_def)
qed

lemma UseOnce_store_keep:
  assumes "cache_ok c" "failClosed c"
  shows "fst (UseOnce t x c) \<Longrightarrow> (x, t + cache_ttl c) \<in> set (ll (snd (UseOnce t x c)))"
    and "(y, e) \<in> set (ll c) \<Longrightarrow> t < e \<Longrightarrow> (y, e) \<in> set (ll (snd (UseOnce t x c)))"
proof -
  show "(x, t + cache_ttl c) \<in> set (ll (snd (UseOnce t x c)))" if "fst (UseOnce t x c)"
    using that assms by (auto simp: UseOnce_def Let_def split: option.splits if_splits)
  assume y: "(y, e) \<in> set (ll c)" "t < e"
  then have "(y, e) \<in># mset (filter (unexpired t) (ll c))" by (simp add: unexpired_def)
  then have "(y, e) \<in># mset (filter (unexpired t) (ll (snd (UseOnce t x c))))"
    unfolding fail_closed_step(2)[OF assms] by (simp split: if_split)
  then show "(y, e) \<in> set (ll (snd (UseOnce t x c)))" by simp
qed

interpretation fc: replay_guard UseOnce "fail_closed_ok ttl" remembered_until ttl for ttl
proof
  fix c t x e y
  assume ok: "fail_closed_ok ttl c"
  then have c: "cache_ok c" "failClosed c" "cache_ttl c = ttl" by (auto simp: fail_closed_ok_def)
  show "fail_closed_ok ttl (snd (UseOnce t x c))" using c UseOnce_ok by (simp add: fail_closed_ok_def)
  show "remembered_until c x e \<Longrightarrow> t < e \<Longrightarrow> \<not> fst (UseOnce t x c)"
    using UseOnce_refuse[OF c(1)] by (simp add: remembered_until_def)
  show "fst (UseOnce t x c) \<Longrightarrow> remembered_until (snd (UseOnce t x c)) x (t + ttl)"
    using UseOnce_store_keep(1)[OF c(1,2)] c(3) by (simp add: remembered_until_def)
  show "remembered_until c y e \<Longrightarrow> t < e \<Longrightarrow> remembered_until (snd (UseOnce t x c)) y e"
    using UseOnce_store_keep(2)[OF c(1,2)] by (simp add: remembered_until_def)
qed

section \<open>Properties\<close>

text \<open>The service as the process starts it: \<open>internal/bootstrap/build.go\<close> gives it a fail-closed cache.\<close>

definition fresh_service :: "int \<Rightarrow> string \<Rightarrow> nonce_cache proof_service" where
  "fresh_service ttl sec = \<lparr>replay = Some (NewFailClosed ttl DefaultMax), secret = sec\<rparr>"

definition bootTTL :: int where "bootTTL = 120 * ns"

lemma fresh_service_ok: "fc.svc_ok ttl (fresh_service ttl sec)"
  using New_ok(2) by (simp add: fc.svc_ok_def fresh_service_def fail_closed_ok_def)
    (simp add: NewFailClosed_def NewWithMax_def)

text \<open>Replays of one signed payload. Over any run of registrations and protected calls, in
  the order their uses reach the guard, a payload accepted twice for one identity was accepted at least two
  minutes apart, while the clock readings that admitted it are at most three minutes apart: replay is
  possible in the third minute only, and only for a payload dated in the future of the first acceptance.
\<close>

theorem replay_gap:
  assumes "sorted (map op_use ops)" "i < j" "j < length ops"
    and "proof_run P UseOnce ops (fresh_service bootTTL sec) ! i"
    and "proof_run P UseOnce ops (fresh_service bootTTL sec) ! j"
    and p: "op_payload P (ops ! i) = Some p" "op_payload P (ops ! j) = Some p"
  shows "op_use (ops ! i) + 120 * ns \<le> op_use (ops ! j) \<and>
         op_now (ops ! j) \<le> op_now (ops ! i) + 180 * ns \<and> op_now (ops ! j) - 90 * ns \<le> Issued p * ns"
proof -
  obtain s1 s2 where "fst (proof_step P UseOnce (ops ! i) s1)" "fst (proof_step P UseOnce (ops ! j) s2)"
    using accepted_step assms(2-5) by (metis less_trans)
  note w = accepted_window[OF this(1) p(1)] accepted_window[OF this(2) p(2)]
  have "op_now (ops ! j) \<le> op_now (ops ! i) + 180 * ns" "op_now (ops ! j) - 90 * ns \<le> Issued p * ns"
    using w by (simp_all add: proofSkew_def)
  moreover have "op_use (ops ! i) + bootTTL \<le> op_use (ops ! j)"
    using fc.accepted_twice[OF fresh_service_ok assms(2,3,4,5) p _ assms(1)] w by simp
  ultimately show ?thesis by (simp add: bootTTL_def)
qed

text \<open>A guard that remembers for longer than twice the clock skew would make every payload single use:
  with a lifetime above three minutes, and the guard reading the same clock as the service, no payload is
  accepted twice.
\<close>

theorem single_use_if_covered:
  assumes "180 * ns < ttl" "sorted (map op_use ops)" "list_all (\<lambda>a. op_now a = op_use a) ops" "i < j" "j < length ops"
    and p: "op_payload P (ops ! i) = Some p" "op_payload P (ops ! j) = Some p"
  shows "\<not> (proof_run P UseOnce ops (fresh_service ttl sec) ! i \<and> proof_run P UseOnce ops (fresh_service ttl sec) ! j)"
proof
  assume *: "proof_run P UseOnce ops (fresh_service ttl sec) ! i \<and> proof_run P UseOnce ops (fresh_service ttl sec) ! j"
  then obtain s1 s2 where "fst (proof_step P UseOnce (ops ! i) s1)" "fst (proof_step P UseOnce (ops ! j) s2)"
    using accepted_step assms(4,5) by (metis less_trans)
  note w = accepted_window[OF this(1) p(1)] accepted_window[OF this(2) p(2)]
  have "op_use (ops ! i) + ttl \<le> op_use (ops ! j)"
    using fc.accepted_twice[OF fresh_service_ok[of ttl sec] assms(4,5) _ _ p _ assms(2)] w * by simp
  moreover have "op_now (ops ! i) = op_use (ops ! i)" "op_now (ops ! j) = op_use (ops ! j)"
    using assms(3-5) by (auto simp: list_all_length)
  ultimately show False using w assms(1) by (simp add: proofSkew_def)
qed

text \<open>C38. The two-minute cache does not cover the window: whatever the cryptography, on a service that has seen no other
  call before or between, a call that was accepted with a payload dated at least thirty seconds ahead is
  accepted once more, byte for byte, at any instant from two minutes later until ninety seconds after the
  payload's date at which the challenge it answers is still valid.
\<close>

theorem early_proof_replays:
  assumes first: "fst (VerifyInstall P (UseOnce t) keys t req i compact (fresh_service bootTTL sec)) = None"
    and p: "read_proof P compact = Some (p0, p, sig)"
    and late: "t + 120 * ns \<le> t'" "t' - 90 * ns \<le> Issued p * ns"
    and nonce: "validNonce P sec (Nonce p) t'"
  shows "fst (VerifyInstall P (UseOnce t') keys t' req i compact
           (snd (VerifyInstall P (UseOnce t) keys t req i compact (fresh_service bootTTL sec)))) = None"
proof -
  let ?s = "fresh_service bootTTL sec" and ?k = "replay_key i p"
  obtain k key where k: "i \<noteq> []" "compact \<noteq> []" "length i \<le> maxInstallID" "keys = Some k" "k i = Inr (key, True)"
    "length key = PublicKeySize" "fst (verify P (UseOnce t) t req i key compact ?s) = None"
    using first by (auto simp: VerifyInstall_def dErr_def split: if_splits option.splits sum.splits)
  then have V: "VerifyInstall P (UseOnce u) keys u req i compact s = verify P (UseOnce u) u req i key compact s" for u s
    by (simp add: VerifyInstall_def)
  from k(7) p have ok: "ed25519_Verify P key p0 sig" "bound_to P req i t p" by (auto simp: verify_accepts)
  have sk: "0 < ns" by (simp add: ns_def)
  have b: "bound_to P req i t' p"
    using ok(2) late sk by (simp add: bound_to_def proofSkew_def)
  obtain g where g: "replay (snd (verify P (UseOnce t) t req i key compact ?s)) = Some g"
      "tget (ll g) ?k = Some (t + bootTTL)" "secret (snd (verify P (UseOnce t) t req i key compact ?s)) = sec"
    using k(7) p ok
    by (auto simp: verify_eq dErr_def fresh_service_def UseOnce_def NewFailClosed_def NewWithMax_def DefaultMax_def
        Let_def tget_def evictExpired_def split: option.splits if_splits)
  have "fst (UseOnce t' ?k g)" using g(2) late by (simp add: UseOnce_def bootTTL_def)
  then show ?thesis unfolding V using p ok(1) b nonce g by (simp add: verify_accepts)
qed

text \<open>The life of a challenge. The nonce the challenge endpoint hands out is accepted exactly as long as the
  endpoint says: until the advertised second begins, and no earlier than the clock skew before the second it
  was minted in, provided the random part has its sixteen bytes and the authentication code its thirty-two.
\<close>

theorem challenge_lifetime:
  assumes "length rnd = 16" "\<And>k m. length (hmac P k m) = 32" "is_int64 (now div ns)"
  shows "case ServeChallenge P now rnd ''GET'' s of
           Inl _ \<Rightarrow> False
         | Inr (n, expires) \<Rightarrow>
             validNonce P (secret s) n t \<longleftrightarrow> t div ns < expires \<and> (now div ns) * ns \<le> t + proofSkew"
proof -
  let ?raw = "PutUint64 (now div ns) @ rnd"
  have len: "length ?raw = 24" using assms(1) by simp
  have take8: "take 8 (?raw @ hmac P (secret s) ?raw) = PutUint64 (now div ns)" by simp
  have "(now + nonceTTL) div ns = now div ns + 300" by (simp add: nonceTTL_def ns_def)
  moreover have "t < (now div ns) * ns + nonceTTL \<longleftrightarrow> t div ns < now div ns + 300"
    for t unfolding nonceTTL_def ns_def by linarith
  ultimately show ?thesis
    using assms len take8
    by (auto simp: ServeChallenge_def IssueChallenge_def Let_def validNonce_def)
qed

text \<open>C15. What reaches a protected handler: nothing but the exact body that was read, of a request whose method,
  authority, path, query and body hash are in a payload signed by the key registered for the install id it
  names, dated within ninety seconds of the clock, over a nonce of this process that is still alive, and whose
  id the replay guard admitted just now.
\<close>

theorem protected_handler_sees:
  "case Protect P use keys now r b s of
     (Written _, _) \<Rightarrow> True
   | (Next body, s') \<Rightarrow>
       b = ReadAll body \<and>
       (\<exists>k key p0 p sig g. keys = Some k \<and> k (h_InstallID r) = Inr (key, True) \<and> length key = 32 \<and>
          read_proof P (h_Proof r) = Some (p0, p, sig) \<and> ed25519_Verify P key p0 sig \<and>
          Version p = 1 \<and> KeyID p = h_InstallID r \<and> Method p = h_Method r \<and> Target p = target r \<and>
          Body p = EncodeToString (sha256 P body) \<and> abs (Issued p * ns - now) \<le> 90 * ns \<and>
          validNonce P (secret s) (Nonce p) now \<and> ID p \<noteq> [] \<and> replay s = Some g \<and>
          fst (use (h_InstallID r @ '':'' @ ID p) g) \<and>
          s' = s\<lparr>replay := Some (snd (use (h_InstallID r @ '':'' @ ID p) g))\<rparr>)"
proof -
  let ?req = "\<lambda>body. \<lparr>rq_Method = h_Method r, rq_Target = target r, rq_Body = body\<rparr>"
  have v: "\<exists>p0 p sig g. read_proof P c = Some (p0, p, sig) \<and> ed25519_Verify P key p0 sig \<and>
      Version p = 1 \<and> KeyID p = i \<and> Method p = h_Method r \<and> Target p = target r \<and>
      Body p = EncodeToString (sha256 P body) \<and> abs (Issued p * ns - now) \<le> 90 * ns \<and>
      validNonce P (secret s) (Nonce p) now \<and> ID p \<noteq> [] \<and> replay s = Some g \<and>
      fst (use (i @ '':'' @ ID p) g) \<and> s' = s\<lparr>replay := Some (snd (use (i @ '':'' @ ID p) g))\<rparr>"
    if "verify P use now (?req body) i key c s = (None, s')" for i key c body s'
    using that
    by (auto simp: verify_eq dErr_def bound_to_def proofSkew_def replay_key_def abs_le_iff split: option.splits if_splits)
  show ?thesis
  proof (cases "Protect P use keys now r b s")
    case (Pair out s')
    show ?thesis
    proof (cases out)
      case (Next body)
      then obtain k key where "b = ReadAll body" "keys = Some k" "k (h_InstallID r) = Inr (key, True)" "length key = 32"
        "verify P use now (?req body) (h_InstallID r) key (h_Proof r) s = (None, s')"
        using Pair
        by (auto simp: Protect_def VerifyInstall_def dErr_def PublicKeySize_def
            split: if_splits body_read.splits option.splits sum.splits prod.splits)
      with v[OF this(5)] Pair Next show ?thesis by simp
    qed (simp add: Pair)
  qed
qed

section \<open>Witnesses\<close>

text \<open>A device whose payload is dated ninety seconds ahead, with constant functions for the cryptography.\<close>

definition demo_nonce :: string where
  "demo_nonce = EncodeToString ((PutUint64 1000 @ replicate 16 CHR ''r'') @ replicate 32 CHR ''m'')"

definition demo_payload :: payload where
  "demo_payload = \<lparr>Version = 1, KeyID = ''i1'', Issued = 1090, ID = ''j1'', Nonce = demo_nonce,
     Method = ''POST'', Target = ''h/v1'', Body = EncodeToString ''x''\<rparr>"

definition demo_prims :: prims where
  "demo_prims = \<lparr>sha256 = (\<lambda>_. ''x''), hmac = (\<lambda>_ _. replicate 32 CHR ''m''), ed25519_Verify = (\<lambda>_ _ _. True),
     Unmarshal = (\<lambda>_. Some demo_payload)\<rparr>"

definition demo_req :: proof_request where
  "demo_req = \<lparr>rq_Method = ''POST'', rq_Target = ''h/v1'', rq_Body = []\<rparr>"

definition demo_keys :: "key_resolver option" where
  "demo_keys = Some (\<lambda>_. Inr (replicate 32 CHR ''k'', True))"

definition demo_op :: "int \<Rightarrow> proof_op" where
  "demo_op t = Call (t * ns) (t * ns) demo_req demo_keys ''i1'' ''AA.AA''"

lemma demo_read: "\<exists>sig. read_proof demo_prims ''AA.AA'' = Some (''AA'', demo_payload, sig)"
  by (simp add: read_proof_def maxProofBytes_def DecodeString_def char_sextet_def demo_prims_def)

lemma demo_nonce_valid:
  assumes "1000 * ns \<le> t" "t < 1300 * ns"
  shows "validNonce demo_prims sec (Nonce demo_payload) t"
  using assms
  by (simp add: validNonce_def demo_payload_def demo_nonce_def demo_prims_def is_int64_def MinInt64_def MaxInt64_def
      proofSkew_def nonceTTL_def ns_def)

lemma demo_verify:
  assumes "1000 * ns \<le> t" "t \<le> 1180 * ns"
  shows "VerifyInstall demo_prims use demo_keys t demo_req ''i1'' ''AA.AA'' s =
    (case replay s of
       None \<Rightarrow> (dErr ErrDeviceProofReplayed, s)
     | Some g \<Rightarrow> (if fst (use ''i1:j1'' g) then None else dErr ErrDeviceProofReplayed,
                  s\<lparr>replay := Some (snd (use ''i1:j1'' g))\<rparr>))"
proof -
  obtain sig where r: "read_proof demo_prims ''AA.AA'' = Some (''AA'', demo_payload, sig)" using demo_read by blast
  have "bound_to demo_prims demo_req ''i1'' t demo_payload"
    using assms by (simp add: bound_to_def demo_payload_def demo_req_def demo_prims_def proofSkew_def ns_def)
  moreover have "ed25519_Verify demo_prims k p0 sig" for k p0 by (simp add: demo_prims_def)
  moreover have "replay_key ''i1'' demo_payload = ''i1:j1''" by (simp add: replay_key_def demo_payload_def)
  ultimately show ?thesis
    using assms
    by (cases "replay s")
      (simp_all add: VerifyInstall_def demo_keys_def maxInstallID_def PublicKeySize_def verify_eq r demo_nonce_valid ns_def)
qed

lemmas demo_cache_simps = fresh_service_def UseOnce_def NewFailClosed_def NewWithMax_def DefaultMax_def tget_def
  evictExpired_def without_def ns_def bootTTL_def dErr_def

lemma demo_run:
  "proof_run demo_prims UseOnce [demo_op 1000, demo_op 1100, demo_op 1150] (fresh_service bootTTL ''s'') =
   [True, False, True]"
  by (simp add: demo_op_def demo_verify demo_cache_simps)

theorem early_proof_replays_witness:
  "fst (VerifyInstall demo_prims (UseOnce (1150 * ns)) demo_keys (1150 * ns) demo_req ''i1'' ''AA.AA''
     (snd (VerifyInstall demo_prims (UseOnce (1000 * ns)) demo_keys (1000 * ns) demo_req ''i1'' ''AA.AA''
       (fresh_service bootTTL ''s'')))) = None"
proof -
  obtain sig where "read_proof demo_prims ''AA.AA'' = Some (''AA'', demo_payload, sig)" using demo_read by blast
  moreover have "fst (VerifyInstall demo_prims (UseOnce (1000 * ns)) demo_keys (1000 * ns) demo_req ''i1'' ''AA.AA''
      (fresh_service bootTTL ''s'')) = None"
    by (simp add: demo_verify demo_cache_simps)
  ultimately show ?thesis
    using demo_nonce_valid[of "1150 * ns" "''s''"] by (auto intro!: early_proof_replays simp: ns_def demo_payload_def)
qed

theorem replay_gap_witness:
  "op_use (demo_op 1000) + 120 * ns \<le> op_use (demo_op 1150) \<and>
   op_now (demo_op 1150) \<le> op_now (demo_op 1000) + 180 * ns \<and> op_now (demo_op 1150) - 90 * ns \<le> Issued demo_payload * ns"
proof -
  let ?ops = "[demo_op 1000, demo_op 1100, demo_op 1150]"
  have "sorted (map op_use ?ops)" by (simp add: demo_op_def ns_def)
  moreover have "op_payload demo_prims (?ops ! 0) = Some demo_payload" "op_payload demo_prims (?ops ! 2) = Some demo_payload"
    using demo_read by (auto simp: op_payload_def demo_op_def)
  ultimately show ?thesis
    using replay_gap[where ops = ?ops and i = 0 and j = 2 and P = demo_prims and sec = "''s''" and p = demo_payload]
    by (simp add: demo_run del: proof_run.simps)
qed

theorem single_use_if_covered_witness:
  "\<not> (proof_run demo_prims UseOnce [demo_op 1000, demo_op 1100, demo_op 1150] (fresh_service (181 * ns) ''s'') ! 0 \<and>
      proof_run demo_prims UseOnce [demo_op 1000, demo_op 1100, demo_op 1150] (fresh_service (181 * ns) ''s'') ! 2)"
  using demo_read
  by (intro single_use_if_covered[where p = demo_payload]) (auto simp: ns_def demo_op_def op_payload_def)

theorem challenge_lifetime_witness:
  "case ServeChallenge demo_prims (1000 * ns + 7) (replicate 16 CHR ''r'') ''GET'' (fresh_service bootTTL ''s'') of
     Inl _ \<Rightarrow> False
   | Inr (n, expires) \<Rightarrow>
       validNonce demo_prims (secret (fresh_service bootTTL ''s'')) n (1299 * ns) \<longleftrightarrow>
         (1299 * ns) div ns < expires \<and> ((1000 * ns + 7) div ns) * ns \<le> 1299 * ns + proofSkew"
  by (rule challenge_lifetime) (simp_all add: demo_prims_def ns_def is_int64_def MinInt64_def MaxInt64_def)

end
