(* ===== verification/Pow.thy ===== *)
theory Pow
  imports Nonce_Cache Encoding Apierr Config "HOL-Library.Word"
begin

text \<open>
  The proof-of-work challenge of \<open>POST /v1/install\<close>: \<open>internal/pkg/pow/pow.go\<close> and the gate of
  \<open>internal/app/install/powgate.go\<close>. SHA-256 and HMAC-SHA256 are arguments, and so are the random bytes,
  \<open>None\<close> when the random source fails. Instants are nanoseconds.
\<close>

unbundle bit_operations_syntax

section \<open>Challenges\<close>

definition sec_ns :: int where "sec_ns = 1000000000"
definition ChallengeTTL :: int where "ChallengeTTL = 120 * sec_ns"
definition randLen :: nat where "randLen = 16"
definition tsLen :: nat where "tsLen = 8"
definition macLen :: nat where "macLen = 16"
definition rawLen :: nat where "rawLen = randLen + tsLen + macLen"
definition MinDifficulty :: int where "MinDifficulty = 1"
definition MaxDifficulty :: int where "MaxDifficulty = 32"

datatype pow_error =
    ErrBadDifficulty | ErrMalformed | ErrForged | ErrExpired | ErrInsufficient | ErrReplayed | RandFailed

definition Mint :: "(string \<Rightarrow> string \<Rightarrow> string) \<Rightarrow> string option \<Rightarrow> string \<Rightarrow> int \<Rightarrow> int \<Rightarrow> pow_error + string" where
  "Mint mac rnd secret difficulty now =
     (if difficulty < MinDifficulty \<or> difficulty > MaxDifficulty then Inl ErrBadDifficulty
      else case rnd of
        None \<Rightarrow> Inl RandFailed
      | Some r \<Rightarrow>
          let signed = r @ PutUint64 (now div sec_ns); tag = mac secret signed
          in Inr (EncodeToString (signed @ take macLen tag)))"

text \<open>The inner loop over one byte: the mask moves down from the top bit until it meets a set bit.\<close>

fun zero_bits :: "8 word \<Rightarrow> 8 word list \<Rightarrow> int" where
  "zero_bits b [] = 0"
| "zero_bits b (m # ms) = (if b AND m \<noteq> 0 then 0 else 1 + zero_bits b ms)"

definition bit_masks :: "8 word list" where
  "bit_masks = [0x80, 0x40, 0x20, 0x10, 8, 4, 2, 1]"

fun leadingZeroBits :: "8 word list \<Rightarrow> int" where
  "leadingZeroBits [] = 0"
| "leadingZeroBits (b # bs) = (if b = 0 then 8 + leadingZeroBits bs else zero_bits b bit_masks)"

definition bytes_of :: "string \<Rightarrow> 8 word list" where
  "bytes_of s = map (\<lambda>c. word_of_nat (of_char c)) s"

definition meetsDifficulty :: "(string \<Rightarrow> string) \<Rightarrow> string \<Rightarrow> string \<Rightarrow> int \<Rightarrow> bool" where
  "meetsDifficulty sha challenge nonce difficulty \<longleftrightarrow>
     leadingZeroBits (bytes_of (sha (challenge @ ''.'' @ nonce))) \<ge> difficulty"

text \<open>\<open>use\<close> is \<open>nonces.UseOnce\<close>. The result is the error, \<open>None\<close> for nil, and the guard's next state.\<close>

definition Verify ::
    "(string \<Rightarrow> string) \<Rightarrow> (string \<Rightarrow> string \<Rightarrow> string) \<Rightarrow> (string \<Rightarrow> 'g \<Rightarrow> bool \<times> 'g) \<Rightarrow>
     string \<Rightarrow> string \<Rightarrow> string \<Rightarrow> int \<Rightarrow> int \<Rightarrow> 'g \<Rightarrow> pow_error option \<times> 'g" where
  "Verify sha mac use secret challenge nonce difficulty now g =
     (if difficulty < MinDifficulty \<or> difficulty > MaxDifficulty then (Some ErrBadDifficulty, g)
      else case DecodeString challenge of
        None \<Rightarrow> (Some ErrMalformed, g)
      | Some raw \<Rightarrow>
          if length raw \<noteq> rawLen then (Some ErrMalformed, g)
          else let signed = take (randLen + tsLen) raw; gotTag = drop (randLen + tsLen) raw
            in if gotTag \<noteq> take macLen (mac secret signed) then (Some ErrForged, g)
               else let issued = ReadInt64 (take tsLen (drop randLen raw)) * sec_ns
                 in if now - issued > ChallengeTTL \<or> issued - now > ChallengeTTL then (Some ErrExpired, g)
                    else if \<not> meetsDifficulty sha challenge nonce difficulty then (Some ErrInsufficient, g)
                    else (case use challenge g of
                      (first, g') \<Rightarrow> (if \<not> first then Some ErrReplayed else None, g')))"

text \<open>The header is split at its first dot; an empty side is refused.\<close>

definition ParseHeader :: "string \<Rightarrow> (string \<times> string) option" where
  "ParseHeader h =
     (let t = TrimSpace h
      in if t = [] then None
         else let i = length (takeWhile (\<lambda>c. c \<noteq> CHR ''.'') t)
           in if i = length t \<or> i = 0 \<or> i = length t - 1 then None
              else Some (take i t, drop (i + 1) t))"

section \<open>The gate\<close>

definition verifyPoW ::
    "(string \<Rightarrow> string) \<Rightarrow> (string \<Rightarrow> string \<Rightarrow> string) \<Rightarrow> (string \<Rightarrow> 'g \<Rightarrow> bool \<times> 'g) \<Rightarrow> config \<Rightarrow>
     string \<Rightarrow> int \<Rightarrow> 'g \<Rightarrow> bool \<times> 'g" where
  "verifyPoW sha mac use cfg hdr now g =
     (case ParseHeader hdr of
        None \<Rightarrow> (False, g)
      | Some (challenge, nonce) \<Rightarrow>
          (case Verify sha mac use (cfg_InstallPowSecret cfg) challenge nonce (cfg_InstallPowDifficulty cfg) now g of
             (err, g') \<Rightarrow> (err = None, g')))"

text \<open>The gate, over the configuration in force, returns the refusal, \<open>None\<close> to admit, the metric labels it counted and the guard.\<close>

definition PoWGate ::
    "(string \<Rightarrow> string) \<Rightarrow> (string \<Rightarrow> string \<Rightarrow> string) \<Rightarrow> (string \<Rightarrow> 'g \<Rightarrow> bool \<times> 'g) \<Rightarrow> config \<Rightarrow>
     string \<Rightarrow> int \<Rightarrow> 'g \<Rightarrow> sentinel option \<times> string list \<times> 'g" where
  "PoWGate sha mac use cfg powHeader now g =
     (let mode = cfg_InstallPowMode cfg
      in if mode \<noteq> PowModeShadow \<and> mode \<noteq> PowModeEnforce then (None, [], g)
         else let hdr = TrimSpace powHeader
           in if hdr = [] then
                (if mode = PowModeEnforce then (Some ErrInstallPoWRequired, [''missing''], g)
                 else (None, [''shadow_missing''], g))
              else (case verifyPoW sha mac use cfg hdr now g of
                (ok, g') \<Rightarrow>
                  if ok then (None, [''verified''], g')
                  else if mode = PowModeEnforce then (Some ErrInstallPoWInvalid, [''failed''], g')
                  else (None, [''shadow_invalid''], g')))"

definition powDifficulty :: "config \<Rightarrow> int" where
  "powDifficulty cfg =
     (let d = cfg_InstallPowDifficulty cfg
      in if d < MinDifficulty then MinDifficulty else if d > MaxDifficulty then MaxDifficulty else d)"

definition powSecret :: "config \<Rightarrow> string" where
  "powSecret cfg = (if length (cfg_InstallPowSecret cfg) > 0 then cfg_InstallPowSecret cfg else ''anselm-pow-dormant'')"

definition MintChallenge ::
    "(string \<Rightarrow> string \<Rightarrow> string) \<Rightarrow> string option \<Rightarrow> config \<Rightarrow> int \<Rightarrow> pow_error + (string \<times> int \<times> bool)" where
  "MintChallenge mac rnd cfg now =
     rbind (Mint mac rnd (powSecret cfg) (powDifficulty cfg) now)
       (\<lambda>ch. Inr (ch, powDifficulty cfg, cfg_InstallPowMode cfg = PowModeEnforce))"

section \<open>Leading zero bits\<close>

text \<open>The value of a digest read as one big-endian number.\<close>

definition be_value :: "8 word list \<Rightarrow> nat" where
  "be_value bs = foldl (\<lambda>a b. a * 256 + unat b) 0 bs"

lemma foldl_be: "foldl (\<lambda>a b. a * 256 + unat (b :: 8 word)) a bs = a * 256 ^ length bs + be_value bs"
proof (induction bs arbitrary: a rule: rev_induct)
  case (snoc b bs)
  have "be_value (bs @ [b]) = be_value bs * 256 + unat b" by (simp add: be_value_def)
  then show ?case by (simp add: snoc distrib_right)
qed (simp add: be_value_def)

lemma be_value_Cons: "be_value (b # bs) = unat b * 256 ^ length bs + be_value bs"
  using foldl_be[of "unat b" bs] by (simp add: be_value_def)

lemma be_value_less: "be_value bs < 256 ^ length bs"
proof (induction bs)
  case (Cons b bs)
  have "unat b < 256" using unsigned_less[of b, where 'a = nat] by simp
  then have "unat b \<le> 255" by simp
  then have "unat b * 256 ^ length bs \<le> 255 * 256 ^ length bs" by (rule mult_le_mono1)
  moreover have "(256 :: nat) ^ length (b # bs) = 255 * 256 ^ length bs + 256 ^ length bs" by simp
  ultimately show ?case using Cons unfolding be_value_Cons by linarith
qed (simp add: be_value_def)

definition zero_bits_ok :: "nat \<Rightarrow> bool" where
  "zero_bits_ok v \<longleftrightarrow>
     (let z = zero_bits (word_of_nat v) bit_masks
      in 0 \<le> z \<and> z < 8 \<and> v < 2 ^ (8 - nat z) \<and> \<not> v < 2 ^ (7 - nat z))"

lemma zero_bits_table: "list_all zero_bits_ok [1..<256]"
  by code_simp

lemma zero_bits_bound:
  assumes "b \<noteq> 0"
  obtains z where "zero_bits b bit_masks = int z" "z < 8" "unat b < 2 ^ (8 - z)" "2 ^ (7 - z) \<le> unat b"
proof -
  have "unat b < 256" using unsigned_less[of b, where 'a = nat] by simp
  moreover have "0 < unat b" using assms by (simp add: unat_gt_0)
  ultimately have "zero_bits_ok (unat b)" using zero_bits_table by (simp add: list_all_iff)
  then show thesis
    by (intro that[of "nat (zero_bits b bit_masks)"]) (auto simp: zero_bits_ok_def Let_def)
qed

text \<open>Difficulty is a threshold on the digest read as a number: a digest has at least \<open>d\<close> leading zero bits,
  as the byte-and-mask loop counts them, exactly when its big-endian value is below \<open>2 ^ (bits - d)\<close>. The
  loop never runs past the digest.
\<close>

theorem difficulty_is_threshold:
  "0 \<le> leadingZeroBits bs \<and> leadingZeroBits bs \<le> 8 * int (length bs) \<and>
   (if d \<le> 8 * length bs then int d \<le> leadingZeroBits bs \<longleftrightarrow> be_value bs < 2 ^ (8 * length bs - d) else True)"
proof (induction bs arbitrary: d)
  case (Cons b bs)
  have p8: "(256 :: nat) ^ n = 2 ^ (8 * n)" for n by (simp add: power_mult)
  show ?case
  proof (cases "b = 0")
    case True
    show ?thesis
    proof (cases "d \<le> 8")
      case True
      have "be_value (b # bs) < 256 ^ length bs" using be_value_less[of bs] \<open>b = 0\<close> by (simp add: be_value_Cons)
      also have "(256 :: nat) ^ length bs \<le> 2 ^ (8 * length (b # bs) - d)"
        unfolding p8 using True by (intro power_increasing) auto
      finally show ?thesis using \<open>b = 0\<close> True Cons[of 0] by auto
    next
      case False
      then obtain e where "d = 8 + e" using le_Suc_ex[of 8 d] by auto
      then show ?thesis using \<open>b = 0\<close> Cons[of e] by (auto simp: be_value_Cons)
    qed
  next
    case False
    then obtain z where z: "zero_bits b bit_masks = int z" "z < 8" "unat b < 2 ^ (8 - z)" "2 ^ (7 - z) \<le> unat b"
      by (rule zero_bits_bound)
    have up: "be_value (b # bs) < 2 ^ (8 * length (b # bs) - z)"
    proof -
      have "be_value (b # bs) < (unat b + 1) * 256 ^ length bs" using be_value_less[of bs] by (simp add: be_value_Cons)
      also have "\<dots> \<le> 2 ^ (8 - z) * 256 ^ length bs" using z(3) by (intro mult_le_mono1) simp
      also have "\<dots> = 2 ^ (8 * length (b # bs) - z)" unfolding p8 using z(2) by (simp flip: power_add)
      finally show ?thesis .
    qed
    have low: "2 ^ (8 * length (b # bs) - Suc z) \<le> be_value (b # bs)"
    proof -
      have "(2 :: nat) ^ (8 * length (b # bs) - Suc z) = 2 ^ (7 - z) * 256 ^ length bs"
        unfolding p8 using z(2) by (simp flip: power_add)
      also have "\<dots> \<le> be_value (b # bs)" using z(4) by (simp add: be_value_Cons trans_le_add1)
      finally show ?thesis .
    qed
    have "be_value (b # bs) < 2 ^ (8 * length (b # bs) - d) \<longleftrightarrow> d \<le> z" if "d \<le> 8 * length (b # bs)"
    proof (cases "d \<le> z")
      case True
      have "(2 :: nat) ^ (8 * length (b # bs) - z) \<le> 2 ^ (8 * length (b # bs) - d)"
        using True by (intro power_increasing) auto
      with up True show ?thesis by linarith
    next
      case False
      have "(2 :: nat) ^ (8 * length (b # bs) - d) \<le> 2 ^ (8 * length (b # bs) - Suc z)"
        using False by (intro power_increasing) auto
      with low False show ?thesis by linarith
    qed
    with z False show ?thesis by simp
  qed
qed (simp add: be_value_def)

section \<open>Minting and the gate\<close>

text \<open>A minted challenge, presented with a nonce that solves it at the minted difficulty, passes every check
  before the replay guard exactly while the clock is within two minutes of the second it was minted in, and
  the verdict is then the guard's; outside that window it is expired whatever the nonce.
\<close>

theorem minted_challenge_verifies:
  assumes "Mint mac (Some rnd) secret difficulty now = Inr ch" "length rnd = 16" "\<And>k m. 16 \<le> length (mac k m)"
    and "is_int64 (now div sec_ns)"
  shows "Verify sha mac use secret ch nonce difficulty t g =
    (if abs (t - (now div sec_ns) * sec_ns) > 120 * sec_ns then (Some ErrExpired, g)
     else if \<not> meetsDifficulty sha ch nonce difficulty then (Some ErrInsufficient, g)
     else case use ch g of (first, g') \<Rightarrow> (if first then None else Some ErrReplayed, g'))"
proof -
  have d: "\<not> (difficulty < MinDifficulty \<or> difficulty > MaxDifficulty)"
    and ch: "ch = EncodeToString ((rnd @ PutUint64 (now div sec_ns)) @
                    take macLen (mac secret (rnd @ PutUint64 (now div sec_ns))))"
    using assms(1) by (auto simp: Mint_def Let_def split: if_splits)
  have "length (take macLen (mac k m)) = 16" for k m using assms(3) by (simp add: macLen_def min_absorb2)
  moreover have "t - i > 120 * sec_ns \<or> i - t > 120 * sec_ns \<longleftrightarrow> abs (t - i) > 120 * sec_ns" for i by linarith
  ultimately show ?thesis
    using d assms(2,4)
    by (simp add: Verify_def ch Let_def rawLen_def randLen_def tsLen_def ChallengeTTL_def macLen_def case_prod_beta)
qed

text \<open>The three modes of the gate: dormant in any mode but the two, it reads nothing and counts nothing;
  shadow never refuses; in either active mode exactly one of the five labels is counted per request, and the
  guard changes only when the solution was presented.
\<close>

theorem gate_modes:
  "case PoWGate sha mac use cfg hdr now g of (err, labels, g') \<Rightarrow>
     if cfg_InstallPowMode cfg \<noteq> PowModeShadow \<and> cfg_InstallPowMode cfg \<noteq> PowModeEnforce
     then err = None \<and> labels = [] \<and> g' = g
     else length labels = 1 \<and> (err = None \<longleftrightarrow> cfg_InstallPowMode cfg = PowModeShadow \<or> labels = [''verified'']) \<and>
          (if TrimSpace hdr = [] then g' = g else True)"
  by (simp add: PoWGate_def PowModeShadow_def PowModeEnforce_def Let_def split: prod.split)

section \<open>A solved challenge is single use\<close>

text \<open>One verification: the key, the challenge, the solution, the difficulty in force, and the instants the
  service and the replay cache read.\<close>

datatype pow_op =
  Solve (po_secret: string) (po_challenge: string) (po_nonce: string) (po_difficulty: int) (po_now: int) (po_use: int)

definition pow_step ::
    "(string \<Rightarrow> string) \<Rightarrow> (string \<Rightarrow> string \<Rightarrow> string) \<Rightarrow> pow_op \<Rightarrow> nonce_cache \<Rightarrow> bool \<times> nonce_cache" where
  "pow_step sha mac a c =
     (case Verify sha mac (UseOnce (po_use a)) (po_secret a) (po_challenge a) (po_nonce a) (po_difficulty a) (po_now a) c
      of (err, c') \<Rightarrow> (err = None, c'))"

fun pow_run :: "(string \<Rightarrow> string) \<Rightarrow> (string \<Rightarrow> string \<Rightarrow> string) \<Rightarrow> pow_op list \<Rightarrow> nonce_cache \<Rightarrow> bool list" where
  "pow_run sha mac [] c = []"
| "pow_run sha mac (a # ops) c = (case pow_step sha mac a c of (b, c') \<Rightarrow> b # pow_run sha mac ops c')"

text \<open>The instant a challenge says it was minted.\<close>

definition issued_at :: "string \<Rightarrow> int" where
  "issued_at ch = ReadInt64 (take tsLen (drop randLen (the (DecodeString ch)))) * sec_ns"

lemma pow_step_cases:
  obtains (same) "pow_step sha mac a c = (False, c)"
  | (used) "pow_step sha mac a c = UseOnce (po_use a) (po_challenge a) c"
      "abs (po_now a - issued_at (po_challenge a)) \<le> ChallengeTTL"
proof -
  have "pow_step sha mac a c = (False, c) \<or>
      pow_step sha mac a c = UseOnce (po_use a) (po_challenge a) c \<and>
      abs (po_now a - issued_at (po_challenge a)) \<le> ChallengeTTL"
    by (cases "UseOnce (po_use a) (po_challenge a) c")
      (auto simp: pow_step_def Verify_def issued_at_def Let_def abs_le_iff split: option.split)
  then show thesis using same used by blast
qed

lemma pow_step_frame:
  assumes "cache_ok c"
  shows "cache_ok (snd (pow_step sha mac a c))" "cache_max (snd (pow_step sha mac a c)) = cache_max c"
    "cache_ttl (snd (pow_step sha mac a c)) = cache_ttl c"
  using assms UseOnce_ok[OF assms] by (cases rule: pow_step_cases[of sha mac a c]; simp)+

lemma pow_held:
  assumes "cache_ok c" "within c (po_challenge (ops ! j)) e k" "j < length ops"
    "\<And>n. n \<le> j \<Longrightarrow> po_use (ops ! n) < e" "k + j < cache_max c"
  shows "\<not> pow_run sha mac ops c ! j"
  using assms
proof (induction ops arbitrary: c j k)
  case (Cons a ops)
  have now: "po_use a < e" using Cons.prems(4)[of 0] by simp
  show ?case
  proof (cases j)
    case 0
    show ?thesis
      using within_refused[OF Cons.prems(1) _ now] Cons.prems(2) 0
      by (cases rule: pow_step_cases[of sha mac a c]) (auto simp: case_prod_beta)
  next
    case (Suc i)
    have "within (snd (pow_step sha mac a c)) (po_challenge (ops ! i)) e (Suc k)"
      using Cons.prems(2,5) Suc now within_step[OF Cons.prems(1)]
      by (cases rule: pow_step_cases[of sha mac a c]) (auto intro: within_more)
    moreover have "po_use (ops ! n) < e" if "n \<le> i" for n using Cons.prems(4)[of "Suc n"] that Suc by simp
    ultimately show ?thesis
      using Cons.IH[OF pow_step_frame(1)[OF Cons.prems(1)]] Cons.prems(3,5) Suc
      by (simp add: case_prod_beta pow_step_frame[OF Cons.prems(1)])
  qed
qed simp

lemma pow_twice:
  assumes "cache_ok c" "i < j" "j < length ops" "pow_run sha mac ops c ! i" "po_challenge (ops ! i) = po_challenge (ops ! j)"
    "sorted (map po_use ops)" "po_use (ops ! j) < po_use (ops ! i) + cache_ttl c" "j - i \<le> cache_max c"
  shows "\<not> pow_run sha mac ops c ! j"
  using assms
proof (induction ops arbitrary: c i j)
  case (Cons a ops)
  from Cons.prems(2) obtain j' where j: "j = Suc j'" by (cases j) auto
  note fr = pow_step_frame[OF Cons.prems(1), of sha mac a]
  show ?case
  proof (cases i)
    case 0
    have used: "pow_step sha mac a c = UseOnce (po_use a) (po_challenge a) c" "fst (pow_step sha mac a c)"
      using Cons.prems(4) 0 by (cases rule: pow_step_cases[of sha mac a c]; simp add: case_prod_beta)+
    have w: "within (snd (pow_step sha mac a c)) (po_challenge (ops ! j')) (po_use a + cache_ttl c) 0"
      using within_admitted[of "po_use a" "po_challenge a" c] used Cons.prems(1,5) by (simp add: 0 j)
    have le: "po_use (ops ! n) < po_use a + cache_ttl c" if "n \<le> j'" for n
    proof -
      have "po_use (ops ! n) \<le> po_use (ops ! j')"
        using that Cons.prems(3,6) sorted_nth_mono[of "map po_use ops" n j'] by (simp add: j)
      then show ?thesis using Cons.prems(7) by (simp add: 0 j)
    qed
    have "\<not> pow_run sha mac ops (snd (pow_step sha mac a c)) ! j'"
      by (rule pow_held[OF fr(1) w _ le]) (use Cons.prems(3,8) fr(2) 0 j in auto)
    then show ?thesis by (simp add: j case_prod_beta)
  next
    case (Suc i')
    then show ?thesis
      using Cons.IH[OF fr(1), of i' j'] Cons.prems fr by (simp add: j case_prod_beta)
  qed
qed simp

lemma pow_accepted_window:
  "j < length ops \<Longrightarrow> pow_run sha mac ops c ! j \<Longrightarrow> abs (po_now (ops ! j) - issued_at (po_challenge (ops ! j))) \<le> ChallengeTTL"
proof (induction ops arbitrary: c j)
  case (Cons a ops)
  show ?case
  proof (cases j)
    case 0
    then show ?thesis using Cons.prems by (cases rule: pow_step_cases[of sha mac a c]) (auto simp: case_prod_beta)
  next
    case (Suc i)
    then show ?thesis using Cons.IH[of i] Cons.prems by (simp add: case_prod_beta)
  qed
qed simp

text \<open>C37. A solved challenge is worth one install. Over any run of verifications on the cache
  the process builds (ten minutes, 65536 entries), each reaching the cache within sixty seconds of the service's
  clock reading, and in the order of those instants, the same challenge is not accepted twice unless 65536 or
  more other verifications lie between.
\<close>

theorem pow_single_use:
  assumes "sorted (map po_use ops)" "list_all (\<lambda>a. po_now a \<le> po_use a \<and> po_use a \<le> po_now a + 60 * sec_ns) ops"
    and "i < j" "j < length ops" "po_challenge (ops ! i) = po_challenge (ops ! j)" "j - i \<le> 65536"
  shows "\<not> (pow_run sha mac ops (NewWithMax (600 * sec_ns) DefaultMax) ! i \<and>
            pow_run sha mac ops (NewWithMax (600 * sec_ns) DefaultMax) ! j)"
proof
  let ?c = "NewWithMax (600 * sec_ns) DefaultMax"
  assume both: "pow_run sha mac ops ?c ! i \<and> pow_run sha mac ops ?c ! j"
  have "0 < sec_ns" by (simp add: sec_ns_def)
  moreover have "abs (po_now (ops ! i) - issued_at (po_challenge (ops ! j))) \<le> ChallengeTTL"
    "abs (po_now (ops ! j) - issued_at (po_challenge (ops ! j))) \<le> ChallengeTTL"
    using both pow_accepted_window[of i ops sha mac ?c] pow_accepted_window[of j ops sha mac ?c] assms(3-5) by auto
  moreover have "po_now (ops ! i) \<le> po_use (ops ! i)" "po_use (ops ! j) \<le> po_now (ops ! j) + 60 * sec_ns"
    using assms(2-4) by (auto simp: list_all_length)
  ultimately have "po_use (ops ! j) < po_use (ops ! i) + 600 * sec_ns"
    unfolding ChallengeTTL_def by linarith
  then have "\<not> pow_run sha mac ops ?c ! j"
    using both assms by (intro pow_twice[OF New_ok(1)]) (auto simp: NewWithMax_def DefaultMax_def)
  with both show False by simp
qed

section \<open>Witnesses\<close>

definition demo_mac :: "string \<Rightarrow> string \<Rightarrow> string" where "demo_mac k m = replicate 32 CHR ''m''"
definition demo_sha :: "string \<Rightarrow> string" where "demo_sha m = [CHR 0x00, CHR 0x7F]"
definition demo_ch :: string where
  "demo_ch = EncodeToString ((replicate 16 CHR ''r'' @ PutUint64 1000) @ replicate 16 CHR ''m'')"

lemma demo_mint: "Mint demo_mac (Some (replicate 16 CHR ''r'')) ''s'' 8 (1000 * sec_ns) = Inr demo_ch"
  by (simp add: Mint_def MinDifficulty_def MaxDifficulty_def demo_ch_def demo_mac_def sec_ns_def macLen_def)

lemma demo_solves: "meetsDifficulty demo_sha ch nn 8" "\<not> meetsDifficulty demo_sha ch nn 10"
  by (simp_all add: meetsDifficulty_def demo_sha_def bytes_of_def bit_masks_def)

theorem minted_challenge_verifies_witness:
  "Verify demo_sha demo_mac (UseOnce (1100 * sec_ns)) ''s'' demo_ch ''n'' 8 (1100 * sec_ns)
     (NewWithMax (600 * sec_ns) DefaultMax) =
   (None, snd (UseOnce (1100 * sec_ns) demo_ch (NewWithMax (600 * sec_ns) DefaultMax)))"
proof -
  have "Verify demo_sha demo_mac (UseOnce (1100 * sec_ns)) ''s'' demo_ch ''n'' 8 (1100 * sec_ns)
     (NewWithMax (600 * sec_ns) DefaultMax) =
    (if abs (1100 * sec_ns - (1000 * sec_ns div sec_ns) * sec_ns) > 120 * sec_ns
     then (Some ErrExpired, NewWithMax (600 * sec_ns) DefaultMax)
     else if \<not> meetsDifficulty demo_sha demo_ch ''n'' 8 then (Some ErrInsufficient, NewWithMax (600 * sec_ns) DefaultMax)
     else case UseOnce (1100 * sec_ns) demo_ch (NewWithMax (600 * sec_ns) DefaultMax) of
       (first, g') \<Rightarrow> (if first then None else Some ErrReplayed, g'))"
    by (rule minted_challenge_verifies[OF demo_mint])
      (simp_all add: demo_mac_def sec_ns_def is_int64_def MinInt64_def MaxInt64_def)
  then show ?thesis
    by (simp add: demo_solves sec_ns_def UseOnce_def NewWithMax_def tget_def Let_def)
qed

theorem pow_single_use_witness:
  "\<not> (pow_run demo_sha demo_mac
        [Solve ''s'' demo_ch ''n'' 8 (1100 * sec_ns) (1100 * sec_ns), Solve ''s'' demo_ch ''n'' 8 (1101 * sec_ns) (1102 * sec_ns)]
        (NewWithMax (600 * sec_ns) DefaultMax) ! 0 \<and>
      pow_run demo_sha demo_mac
        [Solve ''s'' demo_ch ''n'' 8 (1100 * sec_ns) (1100 * sec_ns), Solve ''s'' demo_ch ''n'' 8 (1101 * sec_ns) (1102 * sec_ns)]
        (NewWithMax (600 * sec_ns) DefaultMax) ! 1)"
  by (rule pow_single_use) (simp_all add: sec_ns_def)

end
