(* ===== verification/Rate_Limit.thy ===== *)
theory Rate_Limit
  imports Complex_Main Config
begin

text \<open>
  The minute token bucket \<open>internal/infra/ratelimit/ratelimit.go\<close> and the anomaly throttle that tightens it
  (\<open>tokenThrottle\<close> in \<open>internal/bootstrap/loops.go\<close>). The recency list and the map point at the same entries;
  here they are one list, most recent first. Tokens are rationals where the source has float64;
  instants are nanoseconds. The eviction hook is a trace of the evicted keys.
\<close>

section \<open>The limiter\<close>

record rl_entry =
  tokens :: rat
  last_at :: int
  ovrLimit :: int
  ovrUntil :: "int option"

record limiter =
  rl_ll :: "(string \<times> rl_entry) list"
  rl_max :: nat
  perMin :: int
  evicted :: "string list"

definition rl_defaultMax :: int where "rl_defaultMax = 16384"

definition rl_NewWithMax :: "int \<Rightarrow> int \<Rightarrow> limiter" where
  "rl_NewWithMax per mx =
     \<lparr>rl_ll = [], rl_max = nat (if mx \<le> 0 then rl_defaultMax else mx), perMin = per, evicted = []\<rparr>"

text \<open>\<open>ovrUntil\<close> is \<open>None\<close> for the zero time, which no instant precedes.\<close>

definition effLimit :: "rl_entry \<Rightarrow> int \<Rightarrow> int \<Rightarrow> int" where
  "effLimit e per now =
     (if ovrLimit e > 0 \<and> (case ovrUntil e of None \<Rightarrow> False | Some u \<Rightarrow> now < u) \<and> ovrLimit e < per
      then ovrLimit e else per)"

definition evictLocked :: "limiter \<Rightarrow> limiter" where
  "evictLocked rl =
     rl\<lparr>rl_ll := take (rl_max rl) (rl_ll rl),
        evicted := evicted rl @ map fst (rev (drop (rl_max rl) (rl_ll rl)))\<rparr>"

definition dropped :: "string \<Rightarrow> (string \<times> rl_entry) list \<Rightarrow> (string \<times> rl_entry) list" where
  "dropped k xs = filter (\<lambda>x. fst x \<noteq> k) xs"

definition touchLocked :: "string \<Rightarrow> int \<Rightarrow> limiter \<Rightarrow> rl_entry \<times> limiter" where
  "touchLocked k now rl =
     (case tget (rl_ll rl) k of
        Some e \<Rightarrow> (e, rl\<lparr>rl_ll := (k, e) # dropped k (rl_ll rl)\<rparr>)
      | None \<Rightarrow>
          let e = \<lparr>tokens = of_int (perMin rl), last_at = now, ovrLimit = 0, ovrUntil = None\<rparr>
          in (e, evictLocked (rl\<lparr>rl_ll := (k, e) # rl_ll rl\<rparr>)))"

definition minute_ns :: int where "minute_ns = 60 * 1000000000"

definition refill :: "rl_entry \<Rightarrow> int \<Rightarrow> int \<Rightarrow> rat" where
  "refill e limit now =
     (let t = tokens e + of_int (now - last_at e) * of_int limit / of_int minute_ns
      in if t > of_int limit then of_int limit else t)"

definition Allow :: "int \<Rightarrow> string \<Rightarrow> limiter \<Rightarrow> bool \<times> limiter" where
  "Allow now k rl =
     (if perMin rl \<le> 0 then (True, rl)
      else
        let (e, rl1) = touchLocked k now rl;
            t = refill e (effLimit e (perMin rl) now) now;
            ok = \<not> t < 1;
            e1 = e\<lparr>tokens := (if ok then t - 1 else t), last_at := now\<rparr>
        in (ok, rl1\<lparr>rl_ll := tput k e1 (rl_ll rl1)\<rparr>))"

definition SetKeyLimit :: "int \<Rightarrow> string \<Rightarrow> int \<Rightarrow> int \<Rightarrow> limiter \<Rightarrow> limiter" where
  "SetKeyLimit now k limit until rl =
     (if perMin rl \<le> 0 then rl
      else case tget (rl_ll rl) k of
        None \<Rightarrow>
          let start = (if limit > perMin rl then of_int (perMin rl) else of_int limit);
              e = \<lparr>tokens = start, last_at = now, ovrLimit = limit, ovrUntil = Some until\<rparr>
          in evictLocked (rl\<lparr>rl_ll := (k, e) # rl_ll rl\<rparr>)
      | Some e \<Rightarrow>
          let e1 = e\<lparr>ovrLimit := limit, ovrUntil := Some until,
                tokens := (if limit > 0 \<and> limit < perMin rl \<and> tokens e > of_int limit then of_int limit else tokens e)\<rparr>
          in rl\<lparr>rl_ll := (k, e1) # dropped k (rl_ll rl)\<rparr>)"

definition SetRate :: "int \<Rightarrow> limiter \<Rightarrow> limiter" where
  "SetRate per rl = rl\<lparr>perMin := per\<rparr>"

section \<open>The anomaly throttle\<close>

record rpm_window =
  w_minute :: int
  w_n :: int
  w_until :: "int option"

definition pruneLocked :: "int \<Rightarrow> (string, rpm_window) table \<Rightarrow> (string, rpm_window) table" where
  "pruneLocked now counts =
     (if length counts < 8192 then counts
      else let cutoff = now div minute_ns - 5
        in filter (\<lambda>(k, w). \<not> (w_minute w < cutoff \<and> (case w_until w of None \<Rightarrow> True | Some u \<Rightarrow> now > u))) counts)"

text \<open>\<open>now\<close> is the throttle's reading of the clock, \<open>now'\<close> the limiter's, a moment later. The window found
  or made before the sweep stays in hand even if the sweep drops it, but a window just made is of the
  current minute and is never dropped.\<close>

definition throttle_Observe ::
    "config \<Rightarrow> int \<Rightarrow> int \<Rightarrow> string \<Rightarrow> (string, rpm_window) table \<times> limiter \<Rightarrow>
     bool \<times> (string, rpm_window) table \<times> limiter" where
  "throttle_Observe cfg now now' i st =
     (let rpm = cfg_TokenAnomalyRPM cfg in
      if rpm \<le> 0 then (False, st)
      else
        let (counts, rl) = st;
            minute = now div minute_ns;
            counts1 = (case tget counts i of
              None \<Rightarrow> pruneLocked now (tput i \<lparr>w_minute = minute, w_n = 0, w_until = None\<rparr> counts)
            | Some _ \<Rightarrow> counts);
            w0 = the (tget counts1 i);
            w1 = (if w_minute w0 \<noteq> minute then w0\<lparr>w_minute := minute, w_n := 0\<rparr> else w0);
            w2 = w1\<lparr>w_n := w_n w1 + 1\<rparr>
        in if w_n w2 < rpm then (False, tput i w2 counts1, rl)
           else
             let factor = (if cfg_TokenThrottleFactor cfg < 1 then 1 else cfg_TokenThrottleFactor cfg);
                 tightened0 = go_div (cfg_RatePerMin cfg) factor;
                 tightened = (if tightened0 < 1 then 1 else tightened0);
                 until = now + cfg_TokenThrottleCooldownSec cfg * 1000000000
             in (True, tput i (w2\<lparr>w_until := Some until\<rparr>) counts1, SetKeyLimit now' i tightened until rl))"

definition TokensThrottledNow :: "int \<Rightarrow> (string, rpm_window) table \<Rightarrow> nat" where
  "TokensThrottledNow now counts =
     length (filter (\<lambda>(k, w). case w_until w of None \<Rightarrow> False | Some u \<Rightarrow> now < u) counts)"

section \<open>Runs\<close>

datatype rl_op = OpAllow int string | OpKey int string int int | OpRate int int

fun op_time :: "rl_op \<Rightarrow> int" where
  "op_time (OpAllow t k) = t" | "op_time (OpKey t k l u) = t" | "op_time (OpRate t r) = t"

fun rl_step :: "rl_op \<Rightarrow> limiter \<Rightarrow> bool \<times> limiter" where
  "rl_step (OpAllow t k) rl = Allow t k rl"
| "rl_step (OpKey t k l u) rl = (False, SetKeyLimit t k l u rl)"
| "rl_step (OpRate t r) rl = (False, SetRate r rl)"

text \<open>How many of the requests of one key a run admits, and the state it ends in.\<close>

fun admitted :: "string \<Rightarrow> rl_op list \<Rightarrow> limiter \<Rightarrow> nat" where
  "admitted k [] rl = 0"
| "admitted k (a # ops) rl =
     (if fst (rl_step a rl) \<and> (case a of OpAllow t k' \<Rightarrow> k' = k | _ \<Rightarrow> False) then 1 else 0) +
     admitted k ops (snd (rl_step a rl))"

definition rl_run :: "rl_op list \<Rightarrow> limiter \<Rightarrow> limiter" where
  "rl_run = fold (\<lambda>a rl. snd (rl_step a rl))"

section \<open>Lookup through the operations\<close>

lemma tget_dropped: "tget (dropped k xs) k' = (if k' = k then None else tget xs k')"
proof -
  have "map_of (filter (\<lambda>x. fst x \<noteq> k) xs) k' = (if k' = k then None else map_of xs k')"
    by (induction xs) auto
  then show ?thesis by (simp add: dropped_def tget_def)
qed

lemma tget_front: "tget ((k, e) # xs) k' = (if k' = k then Some e else tget xs k')"
  by (simp add: tget_def)

lemma evicted_mono: "\<exists>ks. evicted (snd (rl_step a rl)) = evicted rl @ ks"
  by (cases a)
    (auto simp: Allow_def touchLocked_def SetKeyLimit_def SetRate_def evictLocked_def Let_def case_prod_beta split: option.split)

text \<open>What the cap lets go of is in the trace; the rest is found as before.\<close>

lemma tget_evict:
  assumes "k \<notin> set (map fst (drop (rl_max rl) (rl_ll rl)))"
  shows "tget (rl_ll (evictLocked rl)) k = tget (rl_ll rl) k"
proof -
  have "map_of (rl_ll rl) k = map_of (take (rl_max rl) (rl_ll rl) @ drop (rl_max rl) (rl_ll rl)) k" by simp
  moreover have "map_of (drop (rl_max rl) (rl_ll rl)) k = None" using assms by (simp add: map_of_eq_None_iff)
  ultimately show ?thesis
    unfolding map_of_append by (simp add: tget_def evictLocked_def map_add_def split: option.split)
qed

text \<open>The keys one operation, and a run of them, evict.\<close>

definition lost :: "rl_op \<Rightarrow> limiter \<Rightarrow> string list" where
  "lost a rl = drop (length (evicted rl)) (evicted (snd (rl_step a rl)))"

fun lost_run :: "rl_op list \<Rightarrow> limiter \<Rightarrow> string list" where
  "lost_run [] rl = []"
| "lost_run (a # ops) rl = lost a rl @ lost_run ops (snd (rl_step a rl))"

definition rl_ok :: "limiter \<Rightarrow> bool" where
  "rl_ok rl \<longleftrightarrow> distinct (map fst (rl_ll rl)) \<and> length (rl_ll rl) \<le> rl_max rl \<and> 0 < rl_max rl"

lemma dropped_facts:
  "distinct (map fst xs) \<Longrightarrow> distinct (map fst (dropped k xs))" "k \<notin> fst ` set (dropped k xs)"
  "distinct (map fst xs) \<Longrightarrow> tget xs k = Some e \<Longrightarrow> Suc (length (dropped k xs)) = length xs"
proof -
  show "distinct (map fst xs) \<Longrightarrow> distinct (map fst (dropped k xs))" "k \<notin> fst ` set (dropped k xs)"
    by (auto simp: dropped_def intro: distinct_map_filter)
  show "Suc (length (dropped k xs)) = length xs" if "distinct (map fst xs)" "tget xs k = Some e"
    using that
  proof (induction xs)
    case (Cons a xs)
    show ?case
    proof (cases "fst a = k")
      case True
      then have "k \<notin> fst ` set xs" using Cons.prems(1) by simp
      then have "dropped k xs = xs" by (force simp: dropped_def filter_id_conv)
      with True show ?thesis by (simp add: dropped_def)
    next
      case False
      then show ?thesis using Cons by (cases a) (auto simp: dropped_def tget_def)
    qed
  qed (simp add: tget_def)
qed

lemma evict_ok:
  assumes "distinct (map fst (rl_ll rl))" "0 < rl_max rl"
  shows "rl_ok (evictLocked rl)"
  using assms by (simp add: rl_ok_def evictLocked_def take_map[symmetric])

lemma length_tput: "tget xs k = Some e \<Longrightarrow> length (tput k e' xs) = length xs"
  unfolding tget_def tput_def by (induction xs) auto

lemma touch_ok:
  assumes "rl_ok rl"
  shows "rl_ok (snd (touchLocked k now rl))"
    and "tget (rl_ll (snd (touchLocked k now rl))) k = Some (fst (touchLocked k now rl))"
proof -
  have "rl_ok (snd (touchLocked k now rl)) \<and>
      tget (rl_ll (snd (touchLocked k now rl))) k = Some (fst (touchLocked k now rl))"
  proof (cases "tget (rl_ll rl) k")
    case (Some e)
    then show ?thesis
      using assms dropped_facts[where xs = "rl_ll rl" and k = k]
      by (auto simp: rl_ok_def touchLocked_def tget_front)
  next
    case None
    let ?e = "\<lparr>tokens = of_int (perMin rl), last_at = now, ovrLimit = 0, ovrUntil = None\<rparr>"
    let ?r = "rl\<lparr>rl_ll := (k, ?e) # rl_ll rl\<rparr>"
    have k: "k \<notin> fst ` set (rl_ll rl)" using None by (simp add: tget_def map_of_eq_None_iff)
    then have "rl_ok (evictLocked ?r)" using assms by (intro evict_ok) (simp_all add: rl_ok_def)
    moreover have "tget (rl_ll (evictLocked ?r)) k = Some ?e"
    proof -
      have "k \<notin> set (map fst (drop (rl_max ?r) (rl_ll ?r)))"
        using k assms by (cases "rl_max rl") (auto simp: rl_ok_def dest: in_set_dropD)
      then show ?thesis by (simp add: tget_evict tget_front)
    qed
    ultimately show ?thesis using None by (simp add: touchLocked_def Let_def)
  qed
  then show "rl_ok (snd (touchLocked k now rl))"
    and "tget (rl_ll (snd (touchLocked k now rl))) k = Some (fst (touchLocked k now rl))" by blast+
qed

lemma tput_ok:
  assumes "rl_ok rl" "tget (rl_ll rl) k = Some e"
  shows "rl_ok (rl\<lparr>rl_ll := tput k e' (rl_ll rl)\<rparr>)"
proof -
  have "length (tput k e' (rl_ll rl)) = length (rl_ll rl)" by (rule length_tput[OF assms(2)])
  moreover have "distinct (map fst (tput k e' (rl_ll rl)))"
    using assms(1) by (simp add: rl_ok_def tput_def distinct_update)
  ultimately show ?thesis using assms(1) by (simp add: rl_ok_def)
qed

lemma SetKeyLimit_ok:
  assumes "rl_ok rl"
  shows "rl_ok (SetKeyLimit now k l u rl)"
proof (cases "tget (rl_ll rl) k")
  case (Some e)
  then show ?thesis
    using assms dropped_facts[where xs = "rl_ll rl" and k = k]
    by (auto simp: rl_ok_def SetKeyLimit_def Let_def)
next
  case None
  then have "k \<notin> fst ` set (rl_ll rl)" by (simp add: tget_def map_of_eq_None_iff)
  then show ?thesis using None assms by (auto simp: SetKeyLimit_def Let_def rl_ok_def intro!: evict_ok[unfolded rl_ok_def])
qed

lemma rl_step_ok:
  assumes "rl_ok rl"
  shows "rl_ok (snd (rl_step a rl))"
proof (cases a)
  case (OpAllow t k)
  then show ?thesis using assms touch_ok[OF assms, of k t]
    by (simp add: Allow_def Let_def case_prod_beta tput_ok)
next
  case (OpRate t r)
  then show ?thesis using assms by (simp add: SetRate_def rl_ok_def)
qed (simp add: SetKeyLimit_ok[OF assms])

text \<open>The entry of one key, through an operation on another.\<close>

fun op_key :: "rl_op \<Rightarrow> string option" where
  "op_key (OpAllow t k) = Some k" | "op_key (OpKey t k l u) = Some k" | "op_key (OpRate t r) = None"

lemma insert_other:
  assumes "k \<noteq> k'" "evicted rl' = evicted rl @ es" "k \<notin> set es"
    and "rl' = evictLocked (rl\<lparr>rl_ll := (k', e) # rl_ll rl\<rparr>)"
  shows "tget (rl_ll rl') k = tget (rl_ll rl) k"
proof -
  let ?r = "rl\<lparr>rl_ll := (k', e) # rl_ll rl\<rparr>"
  have "es = map fst (rev (drop (rl_max ?r) (rl_ll ?r)))" using assms(2,4) by (simp add: evictLocked_def)
  then have "k \<notin> set (map fst (drop (rl_max ?r) (rl_ll ?r)))" using assms(3) by simp
  then show ?thesis using assms(1,4) by (simp add: tget_evict tget_front)
qed

lemma touch_other:
  assumes "k \<noteq> k'" "evicted (snd (touchLocked k' now rl)) = evicted rl @ es" "k \<notin> set es"
  shows "tget (rl_ll (snd (touchLocked k' now rl))) k = tget (rl_ll rl) k"
proof (cases "tget (rl_ll rl) k'")
  case None
  then show ?thesis using insert_other[OF assms] by (simp add: touchLocked_def Let_def)
next
  case (Some e)
  then show ?thesis using assms(1) by (simp add: touchLocked_def tget_front tget_dropped)
qed

lemma step_other:
  assumes "op_key a \<noteq> Some k" "k \<notin> set (lost a rl)"
  shows "tget (rl_ll (snd (rl_step a rl))) k = tget (rl_ll rl) k"
proof -
  obtain es where es: "evicted (snd (rl_step a rl)) = evicted rl @ es" using evicted_mono by blast
  then have k: "k \<notin> set es" using assms(2) by (simp add: lost_def)
  show ?thesis
  proof (cases a)
    case (OpAllow t k')
    then have "k \<noteq> k'" using assms(1) by simp
    then show ?thesis using es k touch_other[of k k' t rl es] OpAllow
      by (auto simp: Allow_def Let_def case_prod_beta tget_tput)
  next
    case (OpKey t k' l u)
    then have n: "k \<noteq> k'" using assms(1) by simp
    show ?thesis
    proof (cases "tget (rl_ll rl) k'")
      case None
      then show ?thesis using insert_other[OF n es k] OpKey by (simp add: SetKeyLimit_def Let_def)
    qed (use OpKey n in \<open>simp add: SetKeyLimit_def Let_def tget_front tget_dropped\<close>)
  qed (simp add: SetRate_def)
qed

section \<open>What a bucket can give\<close>

text \<open>The most tokens key \<open>k\<close> could spend at instant \<open>t\<close>, when the cap in force is at most \<open>L\<close>: a key with no
  entry starts with a full bucket.\<close>

definition room :: "string \<Rightarrow> int \<Rightarrow> int \<Rightarrow> limiter \<Rightarrow> rat" where
  "room k L t rl =
     (case tget (rl_ll rl) k of
        None \<Rightarrow> of_int L
      | Some e \<Rightarrow> min (of_int L) (tokens e + of_int (t - last_at e) * of_int L / of_int minute_ns))"

definition sane :: "string \<Rightarrow> int \<Rightarrow> limiter \<Rightarrow> bool" where
  "sane k t rl = (case tget (rl_ll rl) k of None \<Rightarrow> True | Some e \<Rightarrow> 0 \<le> tokens e \<and> last_at e \<le> t)"

abbreviation gain :: "int \<Rightarrow> int \<Rightarrow> rat" where
  "gain L d \<equiv> of_int d * of_int L / of_int minute_ns"

lemma gain_add: "gain L (a + b) = gain L a + gain L b"
  by (simp add: add_divide_distrib distrib_right)

lemma gain_mono: "0 \<le> d \<Longrightarrow> l \<le> L \<Longrightarrow> gain l d \<le> gain L d"
  by (simp add: minute_ns_def divide_right_mono mult_left_mono)

lemma gain_nonneg: "0 \<le> d \<Longrightarrow> 0 \<le> L \<Longrightarrow> 0 \<le> gain L d"
  by (simp add: minute_ns_def)

lemma room_idle:
  assumes "tget (rl_ll rl') k = tget (rl_ll rl) k" "t \<le> t'" "0 \<le> L"
  shows "room k L t' rl' \<le> room k L t rl + gain L (t' - t)"
proof (cases "tget (rl_ll rl) k")
  case None
  then show ?thesis using assms gain_nonneg[of "t' - t" L] by (simp add: room_def)
next
  case (Some e)
  have "gain L (t' - last_at e) = gain L (t - last_at e) + gain L (t' - t)"
    using gain_add[where L = L and a = "t - last_at e" and b = "t' - t"] by simp
  then show ?thesis using Some assms gain_nonneg[of "t' - t" L] by (simp add: room_def min_def)
qed

lemma refill_room:
  assumes "l \<le> L" "last_at e \<le> t" "tget (rl_ll rl) k = Some e"
  shows "refill e l t \<le> room k L t rl"
  using assms gain_mono[of "t - last_at e" l L] by (simp add: refill_def room_def Let_def min_def)

lemma refill_nonneg: "0 \<le> tokens e \<Longrightarrow> last_at e \<le> t \<Longrightarrow> 0 \<le> l \<Longrightarrow> 0 \<le> refill e l t"
  using gain_nonneg[of "t - last_at e" l] by (simp add: refill_def Let_def)

text \<open>One request for the key: what it takes comes out of the room, whatever the cap in force, as long as
  that cap is at most \<open>L\<close>.\<close>

lemma allow_room:
  assumes ok: "rl_ok rl" and per: "1 \<le> perMin rl" and s: "sane k t rl" and t: "t \<le> now" and L: "1 \<le> L"
    and eff: "effLimit (fst (touchLocked k now rl)) (perMin rl) now \<le> L"
    and pos: "0 \<le> effLimit (fst (touchLocked k now rl)) (perMin rl) now"
  shows "(if fst (Allow now k rl) then 1 else 0) + room k L now (snd (Allow now k rl)) \<le> room k L t rl + gain L (now - t)"
    and "sane k now (snd (Allow now k rl))"
proof -
  define e where "e = fst (touchLocked k now rl)"
  define v where "v = refill e (effLimit e (perMin rl) now) now"
  define w where "w = (if v < 1 then v else v - 1)"
  have tk: "tget (rl_ll (snd (touchLocked k now rl))) k = Some e" using touch_ok(2)[OF ok] by (simp add: e_def)
  have A: "fst (Allow now k rl) = (\<not> v < 1)"
      "tget (rl_ll (snd (Allow now k rl))) k = Some (e\<lparr>tokens := w, last_at := now\<rparr>)"
    using per by (simp_all add: Allow_def Let_def case_prod_beta e_def v_def w_def tget_tput)
  have vL: "v \<le> of_int L" using eff by (simp add: v_def refill_def e_def Let_def min_def)
  have "v \<le> room k L now rl \<and> 0 \<le> v"
  proof (cases "tget (rl_ll rl) k")
    case None
    then have "tokens e = of_int (perMin rl)" "last_at e = now" by (simp_all add: e_def touchLocked_def Let_def)
    then show ?thesis using None vL per refill_nonneg[of e now] pos by (simp add: room_def v_def e_def)
  next
    case (Some e')
    then have e': "e' = e" by (simp add: e_def touchLocked_def)
    with Some s t have "0 \<le> tokens e" "last_at e \<le> now" by (simp_all add: sane_def)
    then show ?thesis
      using Some e' eff pos refill_room[of _ L e now rl k] refill_nonneg[of e now] by (simp add: v_def e_def)
  qed
  moreover have "room k L now rl \<le> room k L t rl + gain L (now - t)" using t L by (intro room_idle) simp_all
  moreover have "room k L now (snd (Allow now k rl)) = w" using A(2) vL by (simp add: room_def w_def min_def)
  ultimately show "(if fst (Allow now k rl) then 1 else 0) + room k L now (snd (Allow now k rl)) \<le> room k L t rl + gain L (now - t)"
    using A(1) by (simp add: w_def)
  show "sane k now (snd (Allow now k rl))"
    using A(2) \<open>v \<le> room k L now rl \<and> 0 \<le> v\<close> by (simp add: sane_def w_def)
qed

lemma key_limit_room:
  assumes ok: "rl_ok rl" and per: "1 \<le> perMin rl" and s: "sane k t rl" and t: "t \<le> now" and L: "1 \<le> L" and l: "1 \<le> l"
  shows "room k L now (SetKeyLimit now k l u rl) \<le> room k L t rl + gain L (now - t)"
    and "sane k now (SetKeyLimit now k l u rl)"
proof -
  have "room k L now (SetKeyLimit now k l u rl) \<le> room k L now rl \<and> sane k now (SetKeyLimit now k l u rl)"
  proof (cases "tget (rl_ll rl) k")
    case (Some e)
    then show ?thesis using per s t l
      by (simp add: SetKeyLimit_def Let_def room_def sane_def tget_front min_def)
  next
    case None
    define e where "e = \<lparr>tokens = (if l > perMin rl then of_int (perMin rl) else of_int l), last_at = now, ovrLimit = l, ovrUntil = Some u\<rparr>"
    let ?r = "rl\<lparr>rl_ll := (k, e) # rl_ll rl\<rparr>"
    have "k \<notin> fst ` set (rl_ll rl)" using None by (simp add: tget_def map_of_eq_None_iff)
    then have "k \<notin> set (map fst (drop (rl_max ?r) (rl_ll ?r)))"
      using ok by (cases "rl_max rl") (auto simp: rl_ok_def dest: in_set_dropD)
    then have "tget (rl_ll (evictLocked ?r)) k = Some e" by (simp add: tget_evict tget_front)
    then have "tget (rl_ll (SetKeyLimit now k l u rl)) k = Some e"
      using None per by (simp add: SetKeyLimit_def e_def Let_def)
    moreover have "0 \<le> tokens e" using per l by (simp add: e_def)
    moreover have "last_at e = now" by (simp add: e_def)
    ultimately show ?thesis using None by (simp add: room_def sane_def)
  qed
  moreover have "room k L now rl \<le> room k L t rl + gain L (now - t)" using t L by (intro room_idle) simp_all
  ultimately show "room k L now (SetKeyLimit now k l u rl) \<le> room k L t rl + gain L (now - t)"
    and "sane k now (SetKeyLimit now k l u rl)" by auto
qed

fun op_fine :: "rl_op \<Rightarrow> bool" where
  "op_fine (OpAllow t k) = True" | "op_fine (OpKey t k l u) = (1 \<le> l)" | "op_fine (OpRate t r) = (1 \<le> r)"

definition hit :: "string \<Rightarrow> rl_op \<Rightarrow> limiter \<Rightarrow> rat" where
  "hit k a rl = (if fst (rl_step a rl) \<and> (case a of OpAllow t k' \<Rightarrow> k' = k | _ \<Rightarrow> False) then 1 else 0)"

lemma step_perMin: "op_fine a \<Longrightarrow> 1 \<le> perMin rl \<Longrightarrow> 1 \<le> perMin (snd (rl_step a rl))"
  by (cases a)
    (auto simp: Allow_def touchLocked_def SetKeyLimit_def SetRate_def evictLocked_def Let_def case_prod_beta split: option.split)

lemma effLimit_pos: "1 \<le> per \<Longrightarrow> 1 \<le> effLimit e per now" and effLimit_le: "effLimit e per now \<le> per"
  by (auto simp: effLimit_def split: option.split)

lemma step_room:
  assumes ok: "rl_ok rl" and per: "1 \<le> perMin rl" and s: "sane k t rl" and t: "t \<le> op_time a" and L: "1 \<le> L"
    and fine: "op_fine a" and lost: "k \<notin> set (lost a rl)"
    and eff: "\<And>now. a = OpAllow now k \<Longrightarrow> effLimit (fst (touchLocked k now rl)) (perMin rl) now \<le> L"
  shows "hit k a rl + room k L (op_time a) (snd (rl_step a rl)) \<le> room k L t rl + gain L (op_time a - t)
    \<and> sane k (op_time a) (snd (rl_step a rl))"
proof (cases "op_key a = Some k")
  case False
  have same: "tget (rl_ll (snd (rl_step a rl))) k = tget (rl_ll rl) k" by (rule step_other[OF False lost])
  have "hit k a rl = 0" using False by (cases a) (auto simp: hit_def)
  moreover have "sane k (op_time a) (snd (rl_step a rl))"
    using s t same by (auto simp: sane_def split: option.splits)
  moreover have "room k L (op_time a) (snd (rl_step a rl)) \<le> room k L t rl + gain L (op_time a - t)"
    using room_idle[OF same t] L by simp
  ultimately show ?thesis by simp
next
  case True
  then show ?thesis
  proof (cases a)
    case (OpAllow now k')
    with True have a: "a = OpAllow now k" by simp
    have "0 \<le> effLimit (fst (touchLocked k now rl)) (perMin rl) now"
      using effLimit_pos[OF per, of "fst (touchLocked k now rl)" now] by simp
    then show ?thesis using allow_room[OF ok per s _ L eff[OF a]] t a by (simp add: hit_def)
  next
    case (OpKey now k' l u)
    with True have a: "a = OpKey now k l u" by simp
    then show ?thesis using key_limit_room[OF ok per s _ L, of now l u] t fine by (simp add: hit_def)
  qed simp
qed

lemma admitted_hit: "rat_of_nat (admitted k (a # ops) rl) = hit k a rl + rat_of_nat (admitted k ops (snd (rl_step a rl)))"
  by (simp add: hit_def)

lemma room_nonneg:
  assumes "sane k t rl" "0 \<le> L"
  shows "0 \<le> room k L t rl"
proof (cases "tget (rl_ll rl) k")
  case None
  then show ?thesis using assms by (simp add: room_def)
next
  case (Some e)
  then have "0 \<le> gain L (t - last_at e)" using assms by (intro gain_nonneg) (simp_all add: sane_def)
  then show ?thesis using Some assms by (simp add: room_def sane_def)
qed

text \<open>Whatever keeps the cap in force on the key at most \<open>L\<close> bounds what the key is given.\<close>

lemma run_room:
  assumes keep: "\<And>rl a. P rl \<Longrightarrow> Q a \<Longrightarrow> rl_ok rl \<Longrightarrow> 1 \<le> perMin rl \<Longrightarrow> k \<notin> set (lost a rl) \<Longrightarrow> P (snd (rl_step a rl))"
    and eff: "\<And>rl now. P rl \<Longrightarrow> 1 \<le> perMin rl \<Longrightarrow> now \<le> T \<Longrightarrow>
      effLimit (fst (touchLocked k now rl)) (perMin rl) now \<le> L"
    and L: "1 \<le> L"
  shows "P rl \<Longrightarrow> rl_ok rl \<Longrightarrow> 1 \<le> perMin rl \<Longrightarrow> sane k t rl \<Longrightarrow> sorted (t # map op_time ops @ [T]) \<Longrightarrow>
    list_all (\<lambda>a. Q a \<and> op_fine a) ops \<Longrightarrow> k \<notin> set (lost_run ops rl) \<Longrightarrow>
    rat_of_nat (admitted k ops rl) \<le> room k L t rl + gain L (T - t)"
proof (induction ops arbitrary: rl t)
  case Nil
  then have "0 \<le> room k L t rl" using L by (intro room_nonneg) simp_all
  moreover have "0 \<le> gain L (T - t)" using Nil(5) L by (intro gain_nonneg) simp_all
  ultimately show ?case by simp
next
  case (Cons a ops)
  let ?rl = "snd (rl_step a rl)"
  have ta: "t \<le> op_time a" "op_time a \<le> T" using Cons.prems(5) by simp_all
  have fine: "op_fine a" "Q a" and lost: "k \<notin> set (lost a rl)" using Cons.prems(6,7) by simp_all
  have ef: "effLimit (fst (touchLocked k now rl)) (perMin rl) now \<le> L" if "a = OpAllow now k" for now
    using eff[OF Cons.prems(1,3)] ta(2) that by simp
  have st: "hit k a rl + room k L (op_time a) ?rl \<le> room k L t rl + gain L (op_time a - t)" "sane k (op_time a) ?rl"
    using step_room[OF Cons.prems(2,3,4) ta(1) L fine(1) lost ef] by auto
  have "rat_of_nat (admitted k ops ?rl) \<le> room k L (op_time a) ?rl + gain L (T - op_time a)"
    using Cons.prems st(2) fine lost
    by (intro Cons.IH keep rl_step_ok step_perMin) simp_all
  moreover have "gain L (T - t) = gain L (op_time a - t) + gain L (T - op_time a)"
    using gain_add[where L = L and a = "op_time a - t" and b = "T - op_time a"] by simp
  ultimately show ?case using st(1) unfolding admitted_hit by simp
qed

section \<open>A limiter in use\<close>

definition all_sane :: "int \<Rightarrow> limiter \<Rightarrow> bool" where
  "all_sane t rl \<longleftrightarrow> (\<forall>(k, e) \<in> set (rl_ll rl). 0 \<le> tokens e \<and> last_at e \<le> t)"

lemma all_sane_key: "all_sane t rl \<Longrightarrow> sane k t rl"
  by (force simp: all_sane_def sane_def tget_def split: option.splits dest: map_of_SomeD)

lemma all_sane_subset: "all_sane t rl \<Longrightarrow> set (rl_ll rl') \<subseteq> set (rl_ll rl) \<Longrightarrow> all_sane t rl'"
  by (auto simp: all_sane_def)

lemma all_sane_insert:
  "all_sane t rl \<Longrightarrow> t \<le> t' \<Longrightarrow> set (rl_ll rl') \<subseteq> insert (k, e) (set (rl_ll rl)) \<Longrightarrow> 0 \<le> tokens e \<Longrightarrow> last_at e \<le> t' \<Longrightarrow>
    all_sane t' rl'"
  by (fastforce simp: all_sane_def)

lemma set_tput: "set (tput k v xs) \<subseteq> insert (k, v) (set xs)"
  unfolding tput_def by (induction xs) auto

lemma set_dropped: "set (dropped k xs) \<subseteq> set xs"
  by (auto simp: dropped_def)

lemma set_evict: "set (rl_ll (evictLocked rl)) \<subseteq> set (rl_ll rl)"
  by (auto simp: evictLocked_def dest: in_set_takeD)

lemma touch_all_sane:
  assumes "all_sane t rl" "t \<le> now" "1 \<le> perMin rl"
  shows "all_sane now (snd (touchLocked k now rl))" "0 \<le> tokens (fst (touchLocked k now rl))"
    "last_at (fst (touchLocked k now rl)) \<le> now"
proof -
  let ?e = "fst (touchLocked k now rl)"
  have e: "0 \<le> tokens ?e \<and> last_at ?e \<le> now"
    using assms by (fastforce simp: touchLocked_def Let_def all_sane_def tget_def split: option.splits dest: map_of_SomeD)
  then show "0 \<le> tokens ?e" "last_at ?e \<le> now" by simp_all
  have "set (rl_ll (snd (touchLocked k now rl))) \<subseteq> insert (k, ?e) (set (rl_ll rl))"
    using set_evict by (fastforce simp: touchLocked_def Let_def dropped_def split: option.splits)
  then show "all_sane now (snd (touchLocked k now rl))" using assms e by (auto intro: all_sane_insert)
qed

lemma step_all_sane:
  assumes s: "all_sane t rl" and t: "t \<le> op_time a" and per: "1 \<le> perMin rl" and fine: "op_fine a"
  shows "all_sane (op_time a) (snd (rl_step a rl))"
proof (cases a)
  case (OpAllow now k)
  then have tn: "t \<le> now" using t by simp
  note ts = touch_all_sane[OF s tn per, of k]
  let ?e = "fst (touchLocked k now rl)" and ?rl = "snd (touchLocked k now rl)"
  define v where "v = refill ?e (effLimit ?e (perMin rl) now) now"
  define e' where "e' = ?e\<lparr>tokens := (if v < 1 then v else v - 1), last_at := now\<rparr>"
  have "0 \<le> v" using effLimit_pos[OF per, of ?e now] ts by (auto simp: v_def intro!: refill_nonneg)
  then have "0 \<le> tokens e'" "last_at e' \<le> now" by (simp_all add: e'_def)
  then have "all_sane now (?rl\<lparr>rl_ll := tput k e' (rl_ll ?rl)\<rparr>)"
    using set_tput[of k e' "rl_ll ?rl"] by (intro all_sane_insert[OF ts(1) order_refl]) simp_all
  moreover have "snd (Allow now k rl) = ?rl\<lparr>rl_ll := tput k e' (rl_ll ?rl)\<rparr>"
    using per by (auto simp: Allow_def Let_def case_prod_beta v_def e'_def)
  ultimately show ?thesis using OpAllow by simp
next
  case (OpKey now k l u)
  then have tn: "t \<le> now" and l: "1 \<le> l" using t fine by simp_all
  show ?thesis
  proof (cases "tget (rl_ll rl) k")
    case None
    let ?e = "\<lparr>tokens = (if l > perMin rl then of_int (perMin rl) else of_int l), last_at = now, ovrLimit = l, ovrUntil = Some u\<rparr>"
    have "all_sane now (evictLocked (rl\<lparr>rl_ll := (k, ?e) # rl_ll rl\<rparr>))"
      using s tn l per set_evict[of "rl\<lparr>rl_ll := (k, ?e) # rl_ll rl\<rparr>"] by (intro all_sane_insert[of t rl now _ k ?e]) simp_all
    then show ?thesis using None OpKey per by (simp add: SetKeyLimit_def Let_def)
  next
    case (Some e)
    let ?e = "e\<lparr>ovrLimit := l, ovrUntil := Some u,
      tokens := (if l > 0 \<and> l < perMin rl \<and> tokens e > of_int l then of_int l else tokens e)\<rparr>"
    have "0 \<le> tokens e \<and> last_at e \<le> t" using all_sane_key[OF s, of k] Some by (simp add: sane_def)
    then have "all_sane now (rl\<lparr>rl_ll := (k, ?e) # dropped k (rl_ll rl)\<rparr>)"
      using s tn l set_dropped[of k "rl_ll rl"] by (intro all_sane_insert[of t rl now _ k ?e]) auto
    then show ?thesis using Some OpKey per by (simp add: SetKeyLimit_def Let_def)
  qed
next
  case (OpRate now r)
  then show ?thesis using s t by (fastforce simp: SetRate_def all_sane_def)
qed

lemma run_invariants:
  "rl_ok rl \<Longrightarrow> all_sane t rl \<Longrightarrow> 1 \<le> perMin rl \<Longrightarrow> sorted (t # map op_time ops @ [T]) \<Longrightarrow> list_all op_fine ops \<Longrightarrow>
    rl_ok (rl_run ops rl) \<and> all_sane T (rl_run ops rl) \<and> 1 \<le> perMin (rl_run ops rl)"
proof (induction ops arbitrary: rl t)
  case Nil
  then show ?case by (fastforce simp: rl_run_def all_sane_def)
next
  case (Cons a ops)
  have "rl_ok (rl_run ops (snd (rl_step a rl))) \<and> all_sane T (rl_run ops (snd (rl_step a rl)))
      \<and> 1 \<le> perMin (rl_run ops (snd (rl_step a rl)))"
    using Cons.prems step_all_sane[OF Cons.prems(2) _ Cons.prems(3), of a] by (intro Cons.IH[of _ "op_time a"] rl_step_ok step_perMin) simp_all
  then show ?case by (simp add: rl_run_def)
qed


fun op_holds :: "string \<Rightarrow> int \<Rightarrow> int \<Rightarrow> rl_op \<Rightarrow> bool" where
  "op_holds k L T (OpKey t k' l u) = (k' = k \<longrightarrow> 1 \<le> l \<and> l \<le> L \<and> T < u)" | "op_holds k L T a = True"

definition held :: "string \<Rightarrow> int \<Rightarrow> int \<Rightarrow> limiter \<Rightarrow> bool" where
  "held k L T rl =
     (case tget (rl_ll rl) k of
        None \<Rightarrow> False
      | Some e \<Rightarrow> 1 \<le> ovrLimit e \<and> ovrLimit e \<le> L \<and> (case ovrUntil e of None \<Rightarrow> False | Some u \<Rightarrow> T < u))"


lemma step_held:
  assumes h: "held k L T rl" and a: "op_holds k L T a" and lost: "k \<notin> set (lost a rl)" and per: "1 \<le> perMin rl"
  shows "held k L T (snd (rl_step a rl))"
proof (cases "op_key a = Some k")
  case False
  then show ?thesis using h step_other[OF False lost] by (simp add: held_def)
next
  case True
  from h obtain e where e: "tget (rl_ll rl) k = Some e" by (auto simp: held_def split: option.splits)
  show ?thesis
  proof (cases a)
    case (OpAllow now k')
    then show ?thesis using True h e per
      by (simp add: held_def Allow_def touchLocked_def Let_def tget_tput tget_front)
  next
    case (OpKey now k' l u)
    then show ?thesis using True a e per by (simp add: held_def SetKeyLimit_def Let_def tget_front)
  qed (use True in simp)
qed

text \<open>The entry an override leaves, whether the key had one before or not.\<close>

lemma set_key_entry:
  assumes "rl_ok rl" "1 \<le> perMin rl"
  obtains e where "tget (rl_ll (SetKeyLimit now k l u rl)) k = Some e" "ovrLimit e = l" "ovrUntil e = Some u"
proof (cases "tget (rl_ll rl) k")
  case None
  let ?e = "\<lparr>tokens = (if l > perMin rl then of_int (perMin rl) else of_int l), last_at = now, ovrLimit = l, ovrUntil = Some u\<rparr>"
  let ?r = "rl\<lparr>rl_ll := (k, ?e) # rl_ll rl\<rparr>"
  have "k \<notin> fst ` set (rl_ll rl)" using None by (simp add: tget_def map_of_eq_None_iff)
  then have "k \<notin> set (map fst (drop (rl_max ?r) (rl_ll ?r)))"
    using assms(1) by (cases "rl_max rl") (auto simp: rl_ok_def dest: in_set_dropD)
  then show ?thesis using None assms(2)
    by (intro that[of ?e]) (simp_all add: SetKeyLimit_def Let_def tget_evict tget_front)
next
  case (Some e)
  let ?e = "e\<lparr>ovrLimit := l, ovrUntil := Some u,
    tokens := (if l > 0 \<and> l < perMin rl \<and> tokens e > of_int l then of_int l else tokens e)\<rparr>"
  show ?thesis using Some assms(2) by (intro that[of ?e]) (simp_all add: SetKeyLimit_def Let_def tget_front)
qed

lemma set_held:
  assumes "rl_ok rl" "1 \<le> perMin rl" "1 \<le> l" "T < u"
  shows "held k l T (SetKeyLimit now k l u rl)"
proof -
  obtain e where "tget (rl_ll (SetKeyLimit now k l u rl)) k = Some e" "ovrLimit e = l" "ovrUntil e = Some u"
    by (rule set_key_entry[OF assms(1,2)])
  then show ?thesis using assms(3,4) by (simp add: held_def)
qed

lemma held_eff:
  assumes "held k L T rl" "now \<le> T"
  shows "effLimit (fst (touchLocked k now rl)) (perMin rl) now \<le> L"
proof -
  from assms(1) obtain e u where e: "tget (rl_ll rl) k = Some e" "1 \<le> ovrLimit e" "ovrLimit e \<le> L" "ovrUntil e = Some u" "T < u"
    by (auto simp: held_def split: option.splits)
  then show ?thesis using assms(2) by (simp add: touchLocked_def effLimit_def)
qed


lemma rl_fresh_ok:
  assumes "1 \<le> r"
  shows "rl_ok (rl_NewWithMax r mx)" "all_sane t (rl_NewWithMax r mx)" "1 \<le> perMin (rl_NewWithMax r mx)"
  using assms by (auto simp: rl_ok_def rl_NewWithMax_def rl_defaultMax_def all_sane_def)

lemma room_bound:
  assumes "rat_of_nat n \<le> x + gain L d" "x \<le> of_int L"
  shows "minute_ns * int n \<le> L * (minute_ns + d)"
proof -
  have "rat_of_nat n \<le> of_int L + gain L d" using assms by simp
  also have "\<dots> = of_int (L * (minute_ns + d)) / of_int minute_ns"
    by (simp add: minute_ns_def field_simps)
  finally have "rat_of_int (minute_ns * int n) \<le> of_int (L * (minute_ns + d))"
    by (simp add: minute_ns_def field_simps)
  then show ?thesis unfolding of_int_le_iff .
qed

lemma room_le: "room k L t rl \<le> of_int L"
  by (simp add: room_def split: option.split)


lemma throttle_bound:
  assumes "1 \<le> r" "sorted (t00 # map op_time before @ [t0])" "sorted (t0 # map op_time ops @ [t1])" "t1 < u" "1 \<le> l"
    and "list_all op_fine before" "list_all (\<lambda>a. op_holds k l t1 a \<and> op_fine a) ops"
    and "k \<notin> set (lost_run ops (SetKeyLimit t0 k l u (rl_run before (rl_NewWithMax r mx))))"
  shows "minute_ns * int (admitted k ops (SetKeyLimit t0 k l u (rl_run before (rl_NewWithMax r mx)))) \<le> l * (minute_ns + (t1 - t0))"
proof -
  let ?pre = "rl_run before (rl_NewWithMax r mx)"
  let ?rl = "SetKeyLimit t0 k l u ?pre"
  have st: "rl_ok ?pre \<and> all_sane t0 ?pre \<and> 1 \<le> perMin ?pre"
    by (rule run_invariants[OF rl_fresh_ok(1,2,3)[OF assms(1)] assms(2) assms(6)])
  then have s: "sane k t0 ?rl" "rl_ok ?rl" "1 \<le> perMin ?rl"
    using key_limit_room(2)[of ?pre k t0 t0 1 l u] SetKeyLimit_ok[of ?pre] step_perMin[of "OpKey t0 k l u" ?pre] assms(5) all_sane_key
    by auto
  have "held k l t1 ?rl" by (rule set_held) (use st assms in auto)
  then have "rat_of_nat (admitted k ops ?rl) \<le> room k l t0 ?rl + gain l (t1 - t0)"
    by (intro run_room[where P = "held k l t1" and Q = "op_holds k l t1"] step_held held_eff)
      (use s assms in simp_all)
  then show ?thesis by (rule room_bound) (rule room_le)
qed

section \<open>The anomaly monitor\<close>

definition tightened_rate :: "config \<Rightarrow> int" where
  "tightened_rate cfg = max 1 (go_div (cfg_RatePerMin cfg) (max 1 (cfg_TokenThrottleFactor cfg)))"

lemma throttled_by:
  assumes "fst (throttle_Observe cfg now now' i (counts, rl))"
  shows "snd (snd (throttle_Observe cfg now now' i (counts, rl))) =
    SetKeyLimit now' i (tightened_rate cfg) (now + cfg_TokenThrottleCooldownSec cfg * 1000000000) rl"
  using assms by (simp add: throttle_Observe_def Let_def tightened_rate_def max_def split: if_splits)

lemma tightened_pos: "1 \<le> tightened_rate cfg"
  by (simp add: tightened_rate_def)

text \<open>The throttle bites. Once the anomaly monitor flags an install, then for the whole cooldown, and as
  long as no later override relaxes it, the install is admitted at most the tightened rate's worth of
  requests (\<open>RATE_PER_MIN\<close> divided by the factor, at least one) plus that many per minute: whatever it had
  saved up before, whatever rate is set meanwhile, and even if the cap on keys had just pushed it out.\<close>

theorem anomaly_throttles:
  fixes cfg :: config and now now' r mx t00 t1 :: int and i :: string and counts :: "(string, rpm_window) table"
    and before ops :: "rl_op list"
  defines "st \<equiv> throttle_Observe cfg now now' i (counts, rl_run before (rl_NewWithMax r mx))"
  assumes "fst st" "1 \<le> r" "sorted (t00 # map op_time before @ [now'])" "sorted (now' # map op_time ops @ [t1])"
    and "t1 < now + cfg_TokenThrottleCooldownSec cfg * 1000000000"
    and "list_all op_fine before" "list_all (\<lambda>a. op_holds i (tightened_rate cfg) t1 a \<and> op_fine a) ops"
    and "i \<notin> set (lost_run ops (snd (snd st)))"
  shows "minute_ns * int (admitted i ops (snd (snd st))) \<le> tightened_rate cfg * (minute_ns + (t1 - now'))"
proof -
  have eq: "snd (snd st) = SetKeyLimit now' i (tightened_rate cfg) (now + cfg_TokenThrottleCooldownSec cfg * 1000000000)
      (rl_run before (rl_NewWithMax r mx))"
    using assms(2) unfolding st_def by (rule throttled_by)
  show ?thesis
    using throttle_bound[OF assms(3,4,5,6) tightened_pos assms(7,8)] assms(9) unfolding eq .
qed

text \<open>A window kept or just made survives the sweep it may cause.\<close>

lemma prune_keeps:
  assumes "tget counts i = Some w" "now div minute_ns - 5 \<le> w_minute w"
  shows "tget (pruneLocked now counts) i = Some w"
proof -
  have "tget (filter (\<lambda>(k, w). \<not> (w_minute w < now div minute_ns - 5 \<and> (case w_until w of None \<Rightarrow> True | Some u \<Rightarrow> now > u))) counts) i = Some w"
    using assms(1)
  proof (induction counts)
    case (Cons x xs)
    then show ?case using assms(2) by (cases x) (auto simp: tget_def split: if_splits)
  qed (simp add: tget_def)
  then show ?thesis using assms(1) by (simp add: pruneLocked_def Let_def)
qed

definition win_count :: "int \<Rightarrow> string \<Rightarrow> (string, rpm_window) table \<Rightarrow> int" where
  "win_count m i counts = (case tget counts i of None \<Rightarrow> 0 | Some w \<Rightarrow> if w_minute w = m then w_n w else 0)"

lemma window_counts:
  assumes "0 < cfg_TokenAnomalyRPM cfg"
  shows "win_count (now div minute_ns) i (fst (snd (throttle_Observe cfg now now' i (counts, rl)))) =
      win_count (now div minute_ns) i counts + 1"
    and "fst (throttle_Observe cfg now now' i (counts, rl)) \<longleftrightarrow>
      cfg_TokenAnomalyRPM cfg \<le> win_count (now div minute_ns) i counts + 1"
proof -
  define m where "m = now div minute_ns"
  define c1 where "c1 = (case tget counts i of
      None \<Rightarrow> pruneLocked now (tput i \<lparr>w_minute = m, w_n = 0, w_until = None\<rparr> counts) | Some _ \<Rightarrow> counts)"
  obtain w where w: "tget c1 i = Some w" and n: "win_count m i counts = (if w_minute w = m then w_n w else 0)"
  proof (cases "tget counts i")
    case None
    then have "tget c1 i = Some \<lparr>w_minute = m, w_n = 0, w_until = None\<rparr>"
      by (simp add: c1_def) (rule prune_keeps, simp_all add: tget_tput m_def)
    then show ?thesis using None
      by (intro that[of "\<lparr>w_minute = m, w_n = 0, w_until = None\<rparr>"]) (simp_all add: win_count_def)
  next
    case (Some w)
    then show ?thesis by (intro that[of w]) (simp_all add: c1_def win_count_def)
  qed
  have O: "fst (throttle_Observe cfg now now' i (counts, rl)) = (cfg_TokenAnomalyRPM cfg \<le> win_count m i counts + 1) \<and>
      (\<exists>w'. tget (fst (snd (throttle_Observe cfg now now' i (counts, rl)))) i = Some w' \<and> w_minute w' = m \<and>
        w_n w' = win_count m i counts + 1)"
    using assms w n by (auto simp: throttle_Observe_def Let_def m_def[symmetric] c1_def[symmetric] tget_tput)
  then show "fst (throttle_Observe cfg now now' i (counts, rl)) \<longleftrightarrow>
      cfg_TokenAnomalyRPM cfg \<le> win_count (now div minute_ns) i counts + 1"
    by (simp add: m_def)
  show "win_count (now div minute_ns) i (fst (snd (throttle_Observe cfg now now' i (counts, rl)))) =
      win_count (now div minute_ns) i counts + 1"
    using O by (auto simp: win_count_def m_def)
qed

text \<open>The flags a sequence of observations of one install gives.\<close>

fun throttle_run :: "config \<Rightarrow> (int \<times> int) list \<Rightarrow> string \<Rightarrow> (string, rpm_window) table \<times> limiter \<Rightarrow> bool list" where
  "throttle_run cfg [] i st = []"
| "throttle_run cfg (t # ts) i st =
     (let o1 = throttle_Observe cfg (fst t) (snd t) i st in fst o1 # throttle_run cfg ts i (snd o1))"

lemma throttle_run_count:
  "0 < cfg_TokenAnomalyRPM cfg \<Longrightarrow> list_all (\<lambda>t. fst t div minute_ns = m) ts \<Longrightarrow>
    throttle_run cfg ts i st =
      map (\<lambda>j. cfg_TokenAnomalyRPM cfg \<le> win_count m i (fst st) + int j + 1) [0..<length ts]"
proof (induction ts arbitrary: st)
  case (Cons t ts)
  obtain counts rl where st: "st = (counts, rl)" by (cases st)
  have m: "fst t div minute_ns = m" using Cons.prems(2) by simp
  note O = window_counts[OF Cons.prems(1), where now = "fst t" and now' = "snd t" and i = i and counts = counts and rl = rl,
    unfolded m]
  have IH: "throttle_run cfg ts i (snd (throttle_Observe cfg (fst t) (snd t) i st)) =
      map (\<lambda>j. cfg_TokenAnomalyRPM cfg \<le> win_count m i counts + int (Suc j) + 1) [0..<length ts]"
    using Cons.IH[of "snd (throttle_Observe cfg (fst t) (snd t) i st)"] Cons.prems O(1) by (simp add: st algebra_simps)
  have "map f [0..<length (t # ts)] = f 0 # map (\<lambda>j. f (Suc j)) [0..<length ts]" for f :: "nat \<Rightarrow> bool"
    by (simp add: upt_conv_Cons map_Suc_upt[symmetric] comp_def del: upt_Suc map_Suc_upt)
  then show ?case using IH O(2) by (simp add: st Let_def del: upt_Suc)
qed simp

text \<open>The monitor is on time. Over the requests of one install in one clock minute, when its window is of an
  earlier minute or absent, exactly the requests from number \<open>TOKEN_ANOMALY_RPM\<close> on are flagged: none before,
  and none is missed, whatever the sweep of idle windows removes.\<close>

theorem anomaly_at_rpm:
  assumes "0 < cfg_TokenAnomalyRPM cfg" "list_all (\<lambda>t. fst t div minute_ns = m) ts" "win_count m i (fst st) = 0"
  shows "throttle_run cfg ts i st = map (\<lambda>j. cfg_TokenAnomalyRPM cfg \<le> int j + 1) [0..<length ts]"
  using throttle_run_count[OF assms(1,2), of i st] assms(3) by simp

text \<open>A raised rate is credited backwards. The comment on \<open>SetRate\<close> says buckets refill at the new rate
  from the change on; the refill prices the whole idle stretch at the rate in force when it ends. A bucket
  emptied under one request a minute, with the rate raised to six half a minute later, gives three requests
  at that very instant.\<close>

theorem rate_raise_is_retroactive:
  "let idle = rl_run [OpAllow 0 ''k''] (rl_NewWithMax 1 4);
       burst = replicate 4 (OpAllow (30 * 1000000000) ''k'')
   in admitted ''k'' (OpRate (30 * 1000000000) 6 # burst) idle = 3 \<and>
      admitted ''k'' burst idle = 0"
  by code_simp

end
