(* ===== verification/Rate_Witness.thy ===== *)
theory Rate_Witness
  imports Rate_Limit Config_Witness
begin

text \<open>
  The properties of the limiter and the anomaly monitor, each applied at a concrete run.
\<close>

definition busy :: "rl_op list" where
  "busy = [OpAllow 0 ''a'', OpAllow 0 ''k'', OpKey 1 ''a'' 1 90, OpAllow 2 ''b'', OpRate 3 5]"

definition knocks :: "rl_op list" where
  "knocks = [OpAllow 10 ''k'', OpAllow 10 ''k'', OpRate 11 3, OpAllow 12 ''k'', OpAllow (60 * 1000000000) ''k'']"


definition alert_cfg :: config where
  "alert_cfg = demo_cfg\<lparr>cfg_TokenAnomalyRPM := 3, cfg_TokenThrottleFactor := 4, cfg_TokenThrottleCooldownSec := 60\<rparr>"

definition two_seen :: "(string, rpm_window) table" where
  "two_seen = [(''k'', \<lparr>w_minute = 0, w_n = 2, w_until = None\<rparr>)]"

lemma alert_cfg_fields:
  "cfg_TokenAnomalyRPM alert_cfg = 3" "cfg_TokenThrottleCooldownSec alert_cfg = 60" "tightened_rate alert_cfg = 5"
  by (simp_all add: alert_cfg_def demo_cfg_def tightened_rate_def go_div_def)

lemma flagged:
  "fst (throttle_Observe alert_cfg 9 10 ''k'' (two_seen, rl))"
  using window_counts(2)[of alert_cfg 9 10 "''k''" two_seen rl]
  by (simp add: alert_cfg_fields two_seen_def win_count_def tget_def minute_ns_def)

lemma anomaly_throttles_witness:
  "minute_ns * int (admitted ''k'' knocks (snd (snd (throttle_Observe alert_cfg 9 10 ''k'' (two_seen, rl_run busy (rl_NewWithMax 8 2))))))
    \<le> 5 * (minute_ns + (60 * 1000000000 - 10))"
proof -
  have "''k'' \<notin> set (lost_run knocks (SetKeyLimit 10 ''k'' 5 (9 + 60 * 1000000000) (rl_run busy (rl_NewWithMax 8 2))))"
    by code_simp
  then have kept: "''k'' \<notin> set (lost_run knocks (snd (snd (throttle_Observe alert_cfg 9 10 ''k'' (two_seen, rl_run busy (rl_NewWithMax 8 2))))))"
    unfolding throttled_by[OF flagged] alert_cfg_fields .
  show ?thesis
    using anomaly_throttles[OF flagged _ _ _ _ _ _ kept, of 0 "60 * 1000000000"]
    by (simp add: alert_cfg_fields busy_def knocks_def)
qed

lemma anomaly_at_rpm_witness:
  "throttle_run alert_cfg [(0, 1), (2, 3), (4, 5), (5, 6)] ''k'' ([], rl_NewWithMax 20 0) = [False, False, True, True]"
  using anomaly_at_rpm[where cfg = alert_cfg and m = 0 and i = "''k''" and st = "([], rl_NewWithMax 20 0)"
      and ts = "[(0, 1), (2, 3), (4, 5), (5, 6)]"]
  by (simp add: alert_cfg_fields win_count_def minute_ns_def upt_rec)

end
