(* ===== verification/Ui_Frame.thy ===== *)
theory Ui_Frame
  imports Ui_Shell
begin

text \<open>
  What the frame (\<open>App.tsx\<close>), the export page (\<open>pages/Export.tsx\<close>) and the reset dialog (\<open>pages/Overview.tsx\<close>) put on the
  screen, as the element trees their code returns: the components with their properties and children in source
  order. A property is a value, a style, a handler or data of the component; \<open>'e\<close> is what a handler does.
\<close>

section \<open>Element trees\<close>

datatype scalar = Str string | Num int

datatype 'e attr =
    Val scalar
  | Flag
  | Style "(string \<times> scalar) list"
  | Calls 'e
  | Items "(string \<times> string \<times> string) list"
  | Selected "string list"
  | Shows element

datatype 'e node = Txt string | El string "(string \<times> 'e attr) list" "'e node list"

abbreviation sv :: "string \<Rightarrow> 'e attr" where "sv s \<equiv> Val (Str s)"

text \<open>The texts of a tree, its handlers, and its elements of one component, in document order.\<close>

fun texts :: "'e node \<Rightarrow> string" where
  "texts (Txt s) = s"
| "texts (El tag ps cs) = concat (map texts cs)"

fun attr_handlers :: "(string \<times> 'e attr) list \<Rightarrow> 'e list" where
  "attr_handlers [] = []"
| "attr_handlers ((k, p) # ps) = (case p of Calls e \<Rightarrow> [e] | _ \<Rightarrow> []) @ attr_handlers ps"

fun handlers :: "'e node \<Rightarrow> 'e list" where
  "handlers (Txt s) = []"
| "handlers (El tag ps cs) = attr_handlers ps @ concat (map handlers cs)"

fun elements :: "string \<Rightarrow> 'e node \<Rightarrow> (string \<times> 'e attr) list list" where
  "elements c (Txt s) = []"
| "elements c (El tag ps cs) = (if tag = c then [ps] else []) @ concat (map (elements c) cs)"

section \<open>Texts\<close>

definition export_title_text :: string where
  "export_title_text =
     bytes [229, 175, 188, 229, 135, 186]"

definition export_button_text :: string where
  "export_button_text =
     bytes [228, 184, 139, 232, 189, 189, 230, 149, 176, 230, 141, 174, 229, 186, 147, 229, 191, 171, 231, 133,
     167]"

definition snapshot_text :: string where
  "snapshot_text =
     bytes [228, 184, 128, 232, 135, 180, 229, 191, 171, 231, 133, 167]"

definition no_secret_text :: string where
  "no_secret_text =
     bytes [231, 187, 157, 228, 184, 141, 229, 144, 171, 228, 187, 187, 228, 189, 149, 229, 134, 133, 229, 173,
     152, 230, 156, 186, 229, 175, 134]"

definition para1 :: string where
  "para1 =
     bytes [229, 175, 188, 229, 135, 186, 229, 189, 147, 229, 137, 141, 230, 149, 176, 230, 141, 174, 229, 186,
     147, 231, 154, 132]"

definition para2 :: string where
  "para2 =
     bytes [239, 188, 136] @ ''SQLite ''"

definition para3 :: string where
  "para3 =
     bytes [239, 188, 140, 229, 144, 171] @ '' WAL '' @ bytes [229, 183, 178, 230, 143, 144, 228, 186, 164,
     231, 138, 182, 230, 128, 129, 239, 188, 137, 227, 128, 130, 229, 191, 171, 231, 133, 167, 229, 140, 133,
     229, 144, 171] @ '' installs / quota_monthly / global_spend_monthly / global_spend_daily / '' @
     ''install_spend_daily / provider_spend_daily / spend_ledger / settings '' @ bytes [231, 173, 137, 230, 140,
     129, 228, 185, 133, 229, 140, 150, 232, 161, 168, 227, 128, 130, 229, 133, 182, 228, 184, 173, 230, 136,
     144, 230, 156, 172, 229, 136, 151]"

definition para4 :: string where
  "para4 =
     '' '' @ bytes [228, 187, 165, 230, 149, 180, 230, 149, 176] @ '' pUSD '' @ bytes [229, 173, 152, 229, 130,
     168, 239, 188, 136] @ ''1 pUSD = 10'' @ bytes [226, 129, 187, 194, 185, 194, 178] @ '' USD'' @ bytes [239,
     188, 137, 239, 188, 140, 228, 184, 141, 228, 189, 191, 231, 148, 168, 230, 181, 174, 231, 130, 185, 231,
     190, 142, 229, 133, 131, 232, 174, 176, 232, 180, 166, 227, 128, 130]"

definition para5 :: string where
  "para5 =
     bytes [239, 188, 136, 228, 184, 138, 230, 184, 184] @ '' API key / '' @ bytes [229, 144, 142, 229, 143,
     176, 229, 143, 163, 228, 187, 164, 229, 156, 168] @ '' env + '' @ bytes [232, 191, 155, 231, 168, 139,
     229, 134, 133, 229, 173, 152, 239, 188, 140, 228, 187, 142, 228, 184, 141, 229, 133, 165, 229, 186, 147,
     239, 188, 137, 227, 128, 130]"

definition admin_text :: string where
  "admin_text =
     bytes [231, 174, 161, 231, 144, 134, 229, 144, 142, 229, 143, 176]"

definition reset_title_text :: string where
  "reset_title_text =
     bytes [233, 135, 141, 231, 189, 174, 229, 133, 168, 229, 145, 152, 230, 156, 172, 230, 156, 136, 232, 175,
     183, 230, 177, 130, 233, 162, 157, 229, 186, 166, 239, 188, 159]"

definition reset_warning_text :: string where
  "reset_warning_text =
     bytes [230, 173, 164, 230, 147, 141, 228, 189, 156, 228, 188, 154, 230, 184, 133, 233, 155, 182, 229, 189,
     147, 229, 137, 141, 230, 156, 136, 230, 137, 128, 230, 156, 137] @ '' install '' @ bytes [231, 154, 132,
     229, 183, 178, 231, 148, 168, 232, 175, 183, 230, 177, 130, 230, 172, 161, 230, 149, 176, 239, 188, 140,
     232, 174, 169, 230, 175, 143, 228, 184, 170, 228, 186, 186, 233, 135, 141, 230, 150, 176, 232, 142, 183,
     229, 190, 151, 229, 133, 182, 233, 133, 141, 231, 189, 174, 231, 154, 132, 230, 156, 136, 233, 162, 157,
     229, 186, 166, 227, 128, 130, 229, 133, 168, 229, 177, 128, 230, 148, 175, 229, 135, 186, 233, 162, 132,
     231, 174, 151, 229, 146, 140, 230, 136, 144, 230, 156, 172, 232, 180, 166, 230, 156, 172, 228, 184, 141,
     228, 188, 154, 230, 148, 185, 229, 143, 152, 227, 128, 130]"

definition reset_placeholder_text :: string where
  "reset_placeholder_text =
     bytes [233, 135, 141, 231, 189, 174, 229, 142, 159, 229, 155, 160, 239, 188, 136, 229, 176, 134, 232, 174,
     176, 229, 189, 149, 229, 136, 176, 229, 174, 161, 232, 174, 161, 239, 188, 137]"

definition reset_ok_text :: string where
  "reset_ok_text =
     bytes [231, 161, 174, 232, 174, 164, 233, 135, 141, 231, 189, 174]"

definition cancel_text :: string where
  "cancel_text =
     bytes [229, 143, 150, 230, 182, 136]"

section \<open>The frame\<close>

text \<open>\<open>token\<close> is the theme's; \<open>loc\<close> the location's path. A menu item is its key, its icon and its label.\<close>

definition nav_icons :: "string list" where
  "nav_icons = [''DashboardOutlined'', ''TeamOutlined'', ''SettingOutlined'', ''FileTextOutlined'', ''DownloadOutlined'']"

definition nav_items :: "(string \<times> string \<times> string) list" where
  "nav_items = map2 (\<lambda>(k, l) i. (k, i, l)) NAV nav_icons"

definition App_tree :: "(string \<Rightarrow> string) \<Rightarrow> string \<Rightarrow> (string \<Rightarrow> shell \<Rightarrow> shell) node" where
  "App_tree token loc =
     El ''Layout'' [(''style'', Style [(''minHeight'', Str ''100vh'')])]
       [El ''Sider''
          [(''theme'', sv ''light''), (''breakpoint'', sv ''lg''), (''collapsedWidth'', Val (Num 0)),
           (''style'', Style [(''borderRight'', Str (''1px solid '' @ token ''colorBorderSecondary''))])]
          [El ''div''
             [(''style'', Style
                [(''height'', Num 56), (''display'', Str ''flex''), (''alignItems'', Str ''center''),
                 (''paddingLeft'', Num 20), (''fontWeight'', Num 600), (''fontSize'', Num 15),
                 (''color'', Str (token ''colorPrimary''))])]
             [Txt ''Anselm Gateway''],
           El ''Menu''
             [(''mode'', sv ''inline''), (''selectedKeys'', Selected [loc]), (''items'', Items nav_items),
              (''onClick'', Calls nav), (''style'', Style [(''borderInlineEnd'', Num 0)])] []],
        El ''Layout'' []
          [El ''Header''
             [(''style'', Style
                [(''background'', Str (token ''colorBgContainer'')), (''paddingInline'', Num 24),
                 (''borderBottom'', Str (''1px solid '' @ token ''colorBorderSecondary'')),
                 (''display'', Str ''flex''), (''alignItems'', Str ''center''),
                 (''justifyContent'', Str ''space-between'')])]
             [El ''Text'' [(''strong'', Flag)] [Txt admin_text]],
           El ''Content''
             [(''style'', Style
                [(''margin'', Num 24), (''padding'', Num 24), (''background'', Str (token ''colorBgContainer'')),
                 (''borderRadius'', Str (token ''borderRadiusLG''))])]
             [El ''Routes'' []
                (map (\<lambda>(path, e). El ''Route'' [(''path'', sv path), (''element'', Shows e)] []) ROUTES)]]]"

section \<open>The export page\<close>

definition Export_tree :: "export_page \<Rightarrow> (export_page \<Rightarrow> export_page) node" where
  "Export_tree p =
     El ''div'' []
       [El ''Title'' [(''level'', Val (Num 3)), (''style'', Style [(''marginTop'', Num 0)])] [Txt export_title_text],
        El ''Card'' [(''style'', Style [(''maxWidth'', Num 640)])]
          [El ''Space''
             [(''direction'', sv ''vertical''), (''size'', sv ''middle''), (''style'', Style [(''width'', Str ''100%'')])]
             ([El ''Paragraph'' []
                 [Txt para1, El ''Text'' [(''strong'', Flag)] [Txt snapshot_text],
                  Txt para2, El ''Text'' [(''code'', Flag)] [Txt ''VACUUM INTO''],
                  Txt para3, El ''Text'' [(''code'', Flag)] [Txt ''*_pusd''],
                  Txt para4, El ''Text'' [(''strong'', Flag)] [Txt no_secret_text], Txt para5],
               El ''Button''
                 [(''type'', sv ''primary''), (''size'', sv ''large''), (''icon'', sv ''DownloadOutlined''),
                  (''onClick'', Calls onDownload)]
                 [Txt export_button_text]] @
              (if ex_clicked p
               then [El ''Alert'' [(''type'', sv ''info''), (''showIcon'', Flag), (''message'', sv export_hint)] []]
               else []))]]"

section \<open>The reset dialog\<close>

record 'e dialog =
  dlg_title :: string
  dlg_content :: "(string \<Rightarrow> 'e) node"
  dlg_okText :: string
  dlg_cancelText :: string
  dlg_danger :: bool
  dlg_onOk :: 'e

definition reset_dialog :: "overview_event dialog" where
  "reset_dialog =
     \<lparr>dlg_title = reset_title_text,
      dlg_content =
        El ''Space''
          [(''direction'', sv ''vertical''), (''size'', Val (Num 12)),
           (''style'', Style [(''width'', Str ''100%''), (''marginTop'', Num 8)])]
          [El ''Text'' [] [Txt reset_warning_text],
           El ''TextArea''
             [(''autoFocus'', Flag), (''maxLength'', Val (Num 256)), (''rows'', Val (Num 3)),
              (''placeholder'', sv reset_placeholder_text), (''showCount'', Flag), (''onChange'', Calls TypeReason)]
             []],
      dlg_okText = reset_ok_text, dlg_cancelText = cancel_text, dlg_danger = True, dlg_onOk = ConfirmReset\<rparr>"

section \<open>What the trees offer\<close>

lemma frame_parts:
  "handlers (App_tree token x) = [nav]"
  "elements ''Route'' (App_tree token x) = map (\<lambda>(path, e). [(''path'', sv path), (''element'', Shows e)]) ROUTES"
  "elements ''Menu'' (App_tree token x) =
     [[(''mode'', sv ''inline''), (''selectedKeys'', Selected [x]), (''items'', Items nav_items), (''onClick'', Calls nav),
       (''style'', Style [(''borderInlineEnd'', Num 0)])]]"
  by (simp_all add: App_tree_def ROUTES_def)

text \<open>The frame's one handler, on any item its menu shows, is the menu click of the runs: it leads to the page
  routed under the item's key in the very same tree, and the next render selects that item.\<close>

theorem frame_offers_the_clicks:
  assumes "router_picks pick" and "(k, i, l) \<in> set nav_items"
  shows "\<exists>f. handlers (App_tree token (here s)) = [f] \<and>
    settle pick (f k s) = shell_step pick (Click (k, l)) s \<and>
    (\<exists>e. [(''path'', sv k), (''element'', Shows e)] \<in> set (elements ''Route'' (App_tree token (here s))) \<and>
       element_at pick k = Some e) \<and>
    (''selectedKeys'', Selected [k]) \<in> set (concat (elements ''Menu'' (App_tree token k)))"
proof -
  have "map (\<lambda>(k, i, l). (k, l)) nav_items = NAV" by (simp add: nav_items_def nav_icons_def NAV_def)
  then have m: "(k, l) \<in> set NAV" using assms(2) by (metis (no_types, lifting) case_prod_conv image_eqI set_map)
  have "set (map fst NAV) \<subseteq> set (map fst ROUTES)" by (simp add: NAV_def ROUTES_def)
  moreover have "k \<in> set (map fst NAV)" using imageI[OF m, of fst] by simp
  ultimately have "k \<in> set (map fst ROUTES)" by (rule subsetD)
  then obtain e where e': "map_of ROUTES k = Some e" using map_of_eq_None_iff[of ROUTES k] by fastforce
  then have e: "(k, e) \<in> set ROUTES" "map_of ROUTES k = Some e" by (simp_all add: map_of_SomeD)
  have r: "[(''path'', sv k), (''element'', Shows e)] \<in> set (elements ''Route'' (App_tree token (here s)))"
    unfolding frame_parts set_map by (rule image_eqI[OF _ e(1)]) simp
  have g: "settle pick (nav k s) = shell_step pick (Click (k, l)) s" using m by simp
  have h: "(''selectedKeys'', Selected [k]) \<in> set (concat (elements ''Menu'' (App_tree token k)))"
    unfolding frame_parts by simp
  have t: "element_at pick k = Some e" using nav_routes(1)[OF assms(1) m] e(2) by simp
  show ?thesis
    by (intro exI[of _ nav] conjI frame_parts(1) g exI[of _ e] r t h)
qed

text \<open>The export page offers one action, and tells of it from the first click on.\<close>

theorem export_offers_download:
  "handlers (Export_tree p) = [onDownload] \<and>
   elements ''Alert'' (Export_tree ((onDownload ^^ n) new_export)) =
     (if n = 0 then [] else [[(''type'', sv ''info''), (''showIcon'', Flag), (''message'', sv export_hint)]]) \<and>
   (case Export_view p of None \<Rightarrow> elements ''Alert'' (Export_tree p) = []
    | Some m \<Rightarrow> elements ''Alert'' (Export_tree p) = [[(''type'', sv ''info''), (''showIcon'', Flag), (''message'', sv m)]])"
proof -
  have "ex_clicked ((onDownload ^^ n) new_export) = (n > 0)"
    by (cases n) (simp_all add: new_export_def onDownload_def)
  then show ?thesis by (simp add: Export_tree_def Export_view_def)
qed

text \<open>The dialog's actions are the ones of the runs, and its input takes exactly the texts its own limit allows.\<close>

theorem reset_dialog_offers:
  "handlers (dlg_content reset_dialog) = [TypeReason] \<and> dlg_onOk reset_dialog = ConfirmReset \<and>
   (\<exists>lim ps. elements ''TextArea'' (dlg_content reset_dialog) = [ps] \<and> (''maxLength'', Val (Num lim)) \<in> set ps \<and>
      (op_dialog p = Some r \<longrightarrow>
        op_dialog (overview_step (TypeReason s) p) = Some (if int (utf16_length s) \<le> lim then s else r)))"
  by (auto simp: reset_dialog_def type_reset_reason_def intro!: exI[of _ 256])

end
