(* ===== verification/Disk_Guard.thy ===== *)
theory Disk_Guard
  imports "HOL-Library.Word" Config_Provider Rate_Limit
begin

text \<open>
  The low-disk guard \<open>internal/infra/diskguard/diskguard.go\<close>, and the part of the process that feeds the live
  configuration to what was built from it: the construction in \<open>internal/bootstrap/build.go\<close> and the loops of
  \<open>internal/bootstrap/lifecycle.go\<close>. The answer of the \<open>statfs\<close> system call is an argument. Multiplications wrap as the
  machine's do.
\<close>

section \<open>The guard\<close>

record disk_guard =
  minBytes :: int64
  minPercent :: int64
  degraded :: bool

definition floor_bytes :: "int64 \<Rightarrow> int64" where
  "floor_bytes mb = wrap64 (wrap64 (mb * 1024) * 1024)"

definition New_guard :: "int64 \<Rightarrow> int64 \<Rightarrow> disk_guard" where
  "New_guard mb percent = \<lparr>minBytes = floor_bytes mb, minPercent = percent, degraded = False\<rparr>"

definition SetFloors :: "int64 \<Rightarrow> int64 \<Rightarrow> disk_guard \<Rightarrow> disk_guard" where
  "SetFloors mb percent g = g\<lparr>minBytes := floor_bytes mb, minPercent := percent\<rparr>"

definition Check_disk :: "string + int64 \<times> int64 \<Rightarrow> disk_guard \<Rightarrow> disk_guard" where
  "Check_disk probe g =
     (case probe of
        Inl err \<Rightarrow> g
      | Inr (free, whole) \<Rightarrow>
          let low = (minBytes g > 0 \<and> free < minBytes g);
              low' = (if minPercent g > 0 \<and> whole > 0
                      then (if go_div (wrap64 (free * 100)) whole < minPercent g then True else low)
                      else low)
          in g\<lparr>degraded := low'\<rparr>)"

text \<open>The probe of a real file system, whose counts are unsigned.\<close>

record statfs_t =
  Bsize :: "64 word"
  Blocks :: "64 word"
  Bavail :: "64 word"

definition satInt64 :: "64 word \<Rightarrow> int64" where
  "satInt64 v = (if uint v > MaxInt64 then MaxInt64 else uint v)"

definition statfsReal :: "string + statfs_t \<Rightarrow> string + int64 \<times> int64" where
  "statfsReal answer =
     (case answer of
        Inl err \<Rightarrow> Inl err
      | Inr s \<Rightarrow> Inr (satInt64 (Bavail s * Bsize s), satInt64 (Blocks s * Bsize s)))"

section \<open>The process\<close>

text \<open>The limiter and the guard are built from the effective configuration of the start.\<close>

record process =
  proc_cfg :: provider_state
  proc_rl :: limiter
  proc_counts :: "(string, rpm_window) table"
  proc_disk :: disk_guard

definition Build_process ::
    "(string \<Rightarrow> string) \<Rightarrow> config \<Rightarrow> string + (string, string) table \<Rightarrow> (string, string) table \<Rightarrow> string + process" where
  "Build_process q base overlay t =
     (case LoadWithOverlay q base overlay of
        Inl err \<Rightarrow> Inl (''load overlay: '' @ err)
      | Inr c \<Rightarrow>
          let cfgP = New_provider c t; eff = effective cfgP
          in Inr \<lparr>proc_cfg = cfgP, proc_rl = rl_NewWithMax (cfg_RatePerMin eff) rl_defaultMax, proc_counts = [],
                  proc_disk = New_guard (cfg_DiskMinMB eff) (cfg_DiskMinPercent eff)\<rparr>)"

definition metricsRefresh :: "process \<Rightarrow> process" where
  "metricsRefresh p = p\<lparr>proc_rl := SetRate (cfg_RatePerMin (effective (proc_cfg p))) (proc_rl p)\<rparr>"

text \<open>An edit from the dashboard, a tick of the refresh loop, a tick of the disk loop, and a request at the
  two gates that keep state: it is observed, then admitted or not.\<close>

datatype proc_event =
    Edit "(string, string) table" "string option"
  | RefreshTick
  | DiskTick "string + int64 \<times> int64"
  | Gate int int int string

fun proc_step :: "(string \<Rightarrow> string) \<Rightarrow> proc_event \<Rightarrow> process \<Rightarrow> process" where
  "proc_step q (Edit ov failure) p =
     (case Provider_ApplyOverrides q (\<lambda>_. failure) ov (proc_cfg p) of
        Inl err \<Rightarrow> p
      | Inr c \<Rightarrow> p\<lparr>proc_cfg := c\<rparr>)"
| "proc_step q RefreshTick p = metricsRefresh p"
| "proc_step q (DiskTick probe) p = p\<lparr>proc_disk := Check_disk probe (proc_disk p)\<rparr>"
| "proc_step q (Gate now now' now'' i) p =
     (let (_, counts, rl) = throttle_Observe (effective (proc_cfg p)) now now' i (proc_counts p, proc_rl p)
      in p\<lparr>proc_counts := counts, proc_rl := snd (Allow now'' i rl)\<rparr>)"

definition proc_run :: "(string \<Rightarrow> string) \<Rightarrow> proc_event list \<Rightarrow> process \<Rightarrow> process" where
  "proc_run q = fold (proc_step q)"

section \<open>What a reading decides\<close>

text \<open>The floors as the documentation states them, in unbounded arithmetic.\<close>

definition low_disk :: "int \<Rightarrow> int \<Rightarrow> int \<times> int \<Rightarrow> bool" where
  "low_disk mb percent r =
     ((mb > 0 \<and> fst r < mb * 2 ^ 20) \<or> (percent > 0 \<and> snd r > 0 \<and> fst r * 100 < percent * snd r))"

definition last_reading :: "(string + int64 \<times> int64) list \<Rightarrow> (int64 \<times> int64) option" where
  "last_reading ps = (case [r. Inr r \<leftarrow> rev ps] of [] \<Rightarrow> None | r # _ \<Rightarrow> Some r)"

text \<open>A disk whose free bytes leave room for the percentage: less than 92 petabytes.\<close>

fun plain_reading :: "string + int64 \<times> int64 \<Rightarrow> bool" where
  "plain_reading (Inl err) = True"
| "plain_reading (Inr (free, whole)) = (0 \<le> free \<and> free * 100 \<le> MaxInt64 \<and> whole \<le> MaxInt64)"

lemma floor_bytes_exact:
  assumes "0 \<le> mb" "mb \<le> MaxDiskMinMB"
  shows "floor_bytes mb = mb * 2 ^ 20"
proof -
  have "is_int64 (mb * 1024)" "is_int64 (mb * 1024 * 1024)"
    using assms by (auto simp: MaxDiskMinMB_def MaxInt64_def)
  then show ?thesis by (simp add: floor_bytes_def)
qed

lemma le_div_pos:
  fixes a b t :: int
  assumes "0 < t"
  shows "b \<le> a div t \<longleftrightarrow> b * t \<le> a"
proof
  assume "b \<le> a div t"
  then have "b * t \<le> a div t * t" using assms by (intro mult_right_mono) simp_all
  also have "\<dots> \<le> a" using assms div_mult_mod_eq[of a t] pos_mod_sign[OF assms, of a] by linarith
  finally show "b * t \<le> a" .
next
  assume "b * t \<le> a"
  then have "b * t div t \<le> a div t" using assms by (rule zdiv_mono1)
  then show "b \<le> a div t" using assms by simp
qed

lemma percent_exact:
  assumes "0 \<le> free" "free * 100 \<le> MaxInt64" "0 < whole"
  shows "go_div (wrap64 (free * 100)) whole < percent \<longleftrightarrow> free * 100 < percent * whole"
proof -
  have "is_int64 (free * 100)" using assms by auto
  then have "go_div (wrap64 (free * 100)) whole = free * 100 div whole" using assms(1) by (simp add: go_div_def)
  then show ?thesis using le_div_pos[OF assms(3), of percent "free * 100"] by auto
qed

lemma Check_floors [simp]:
  "minBytes (Check_disk r g) = minBytes g" "minPercent (Check_disk r g) = minPercent g"
  by (simp_all add: Check_disk_def Let_def split: sum.split prod.split)

lemma Check_failed [simp]: "Check_disk (Inl e) g = g"
  by (simp add: Check_disk_def)

lemma Check_low:
  assumes "minBytes g = floor_bytes mb" "minPercent g = percent" "0 \<le> mb" "mb \<le> MaxDiskMinMB" "plain_reading (Inr r)"
  shows "degraded (Check_disk (Inr r) g) = low_disk mb percent r"
  using assms floor_bytes_exact[OF assms(3,4)] percent_exact[of "fst r" "snd r" percent]
  by (cases r) (auto simp: Check_disk_def low_disk_def Let_def)

text \<open>The guard follows the disk. Under floors the configuration accepts, after any probes, failed or not, of a
  disk with less than 92 petabytes free, the process is degraded exactly when the last reading that
  succeeded is below one of the floors, in exact arithmetic; before the first one it is not.
\<close>

theorem guard_follows_disk:
  assumes "0 \<le> mb" "mb \<le> MaxDiskMinMB" "list_all plain_reading probes"
  shows "degraded (fold Check_disk probes (New_guard mb percent)) =
    (case last_reading probes of None \<Rightarrow> False | Some r \<Rightarrow> low_disk mb percent r)"
proof -
  let ?g = "\<lambda>ps. fold Check_disk ps (New_guard mb percent)"
  have "minBytes (?g probes) = floor_bytes mb \<and> minPercent (?g probes) = percent \<and>
    degraded (?g probes) = (case last_reading probes of None \<Rightarrow> False | Some r \<Rightarrow> low_disk mb percent r)"
    using assms(3)
  proof (induction probes rule: rev_induct)
    case Nil
    then show ?case by (simp add: New_guard_def last_reading_def)
  next
    case (snoc x ps)
    then have ih: "minBytes (?g ps) = floor_bytes mb" "minPercent (?g ps) = percent"
      "degraded (?g ps) = (case last_reading ps of None \<Rightarrow> False | Some r \<Rightarrow> low_disk mb percent r)" by simp_all
    show ?case
    proof (cases x)
      case (Inl e)
      then show ?thesis using ih by (simp add: last_reading_def)
    next
      case (Inr r)
      then show ?thesis using ih Check_low[OF ih(1,2) assms(1,2), of r] snoc.prems by (simp add: last_reading_def)
    qed
  qed
  then show ?thesis by simp
qed

text \<open>The other end of the scale. A file system with \<open>2\<^sup>6\<^sup>3\<close> bytes free or more is reported low at once under any
  positive percentage, however empty it is: the saturated count overflows in the percentage.
\<close>

theorem huge_disk_is_shed:
  assumes "2 ^ 63 \<le> uint (Bavail s) * uint (Bsize s)" "uint (Blocks s) * uint (Bsize s) < 2 ^ 64"
    and "Bavail s \<le> Blocks s" "0 < minPercent g"
  shows "degraded (Check_disk (statfsReal (Inr s)) g)"
proof -
  have le: "uint (Bavail s) * uint (Bsize s) \<le> uint (Blocks s) * uint (Bsize s)"
    using assms(3) by (intro mult_right_mono) (simp_all add: word_le_def)
  then have "uint (Bavail s * Bsize s) = uint (Bavail s) * uint (Bsize s)"
    "uint (Blocks s * Bsize s) = uint (Blocks s) * uint (Bsize s)"
    using assms(2) by (simp_all add: uint_word_ariths)
  then have "satInt64 (Bavail s * Bsize s) = MaxInt64" "satInt64 (Blocks s * Bsize s) = MaxInt64"
    using assms(1) le by (simp_all add: satInt64_def MaxInt64_def)
  then show ?thesis
    using assms(4) by (simp add: Check_disk_def statfsReal_def go_div_def wrap64_def MaxInt64_def Let_def)
qed

section \<open>What a run of the process keeps\<close>

lemma proc_step_disk:
  "minBytes (proc_disk (proc_step q e p)) = minBytes (proc_disk p)"
  "minPercent (proc_disk (proc_step q e p)) = minPercent (proc_disk p)"
  by (cases e; simp add: metricsRefresh_def Let_def split: sum.split prod.split)+

lemma proc_step_valid:
  "ValidateSemantics q (configured (proc_cfg p)) = None \<Longrightarrow> ValidateSemantics q (configured (proc_cfg (proc_step q e p))) = None"
  by (cases e)
    (auto simp: metricsRefresh_def Let_def Provider_ApplyOverrides_def publish_def PersistAll_def Config_ApplyOverrides_def
      rbind_Inr_iff split: sum.split prod.split if_splits option.splits)

lemma proc_step_effective:
  "effective (proc_cfg p) = EffectiveLimits (configured (proc_cfg p)) \<Longrightarrow>
   effective (proc_cfg (proc_step q e p)) = EffectiveLimits (configured (proc_cfg (proc_step q e p)))"
  by (cases e)
    (auto simp: metricsRefresh_def Let_def Provider_ApplyOverrides_def publish_def split: sum.split prod.split if_splits)

lemma proc_run_keeps:
  assumes "\<And>e p. P p \<Longrightarrow> P (proc_step q e p)" "P p"
  shows "P (proc_run q es p)"
  unfolding proc_run_def using assms(2) by (induction es arbitrary: p) (simp_all add: assms(1))

lemma proc_run_disk:
  "minBytes (proc_disk (proc_run q es p)) = minBytes (proc_disk p)"
  "minPercent (proc_disk (proc_run q es p)) = minPercent (proc_disk p)"
  by (rule proc_run_keeps[where P = "\<lambda>p'. minBytes (proc_disk p') = minBytes (proc_disk p)"]; simp add: proc_step_disk)
    (rule proc_run_keeps[where P = "\<lambda>p'. minPercent (proc_disk p') = minPercent (proc_disk p)"]; simp add: proc_step_disk)

lemma disk_knob: "''DISK_MIN_MB'' = knob_key K_DISK_MIN_MB"
  by (simp add: knob_key_def int_spec_def)

lemma disk_override:
  assumes valid: "ValidateSemantics q c = None" and n: "0 \<le> n" "n \<le> MaxDiskMinMB"
  shows "Config_ApplyOverrides q c [(''DISK_MIN_MB'', itoa n)] = Inr (c\<lparr>cfg_DiskMinMB := n\<rparr>)"
proof -
  let ?c = "c\<lparr>cfg_DiskMinMB := n\<rparr>"
  have i: "is_int64 n" using n by (simp add: is_int64_def MinInt64_def MaxInt64_def MaxDiskMinMB_def)
  have app: "the (spec_apply (spec_of K_DISK_MIN_MB)) q c (itoa n) = Inr ?c"
    using n by (simp add: int_spec_def reqInt64_itoa[OF i])
  have "base_rules ?c = base_rules c" "quote_rules ?c = quote_rules c"
    "image_rules ?c = image_rules c" "speech_rules ?c = speech_rules c" "domain_rules ?c = domain_rules c"
    "video_rules ?c = video_rules c" "media_rules ?c = media_rules c" "mode_rules q ?c = mode_rules q c"
    by (simp_all add: base_rules_def quote_rules_def image_rules_def speech_rules_def domain_rules_def video_rules_def
        media_rules_def mode_rules_def cong: sum.case_cong)
  then have "ValidateSemantics q ?c = None" using valid by (simp add: ValidateSemantics_def rules_def)
  then show ?thesis unfolding disk_knob single_override using app by simp
qed

lemma disk_row:
  "\<exists>it \<in> set (Provider_Dump p). key it = ''DISK_MIN_MB'' \<and> editable it \<and> \<not> restartRequired it \<and>
     item_value it = itoa (cfg_DiskMinMB (configured p))"
proof -
  let ?s = "spec_of K_DISK_MIN_MB"
  let ?it = "\<lparr>key = ''DISK_MIN_MB'', item_value = itoa (cfg_DiskMinMB (configured p)), editable = True,
      restartRequired = False, min_bound = Some 0, max_bound = Some MaxDiskMinMB\<rparr>"
  have "?s \<in> set Specs" using all_knobs_complete unfolding Specs_def by (simp del: spec_of.simps)
  then have "?it \<in> set (Provider_Dump p)"
    unfolding Provider_Dump_def Config_Dump_def set_map image_image
    by (rule rev_image_eqI) (simp add: dump_row_def int_spec_def)
  then show ?thesis by (rule rev_bexI) simp
qed

text \<open>C40. An edited disk floor never reaches the guard. In a process built over a valid configuration, after any events,
  a floor within the published bounds that is saved on the dashboard is accepted, becomes the live value
  and is shown with no restart required, exactly as the minute rate, which the next refresh does hand to
  its limiter; but whatever happens afterwards, the guard decides by the floors of the last start.
\<close>

theorem disk_floor_edit_is_lost:
  fixes q :: "string \<Rightarrow> string" and n :: int and p0 :: process and before :: "proc_event list"
  assumes "Build_process q base overlay t = Inr p0" "LoadWithOverlay q base overlay = Inr c0" "ValidateSemantics q c0 = None"
    and n: "0 \<le> n" "n \<le> MaxDiskMinMB"
  defines "p \<equiv> proc_step q (Edit [(''DISK_MIN_MB'', itoa n)] None) (proc_run q before p0)"
  shows "cfg_DiskMinMB (effective (proc_cfg p)) = n \<and>
    list_ex (\<lambda>it. key it = ''DISK_MIN_MB'' \<and> editable it \<and> \<not> restartRequired it \<and> item_value it = itoa n)
      (Provider_Dump (proc_cfg p)) \<and>
    perMin (proc_rl (proc_step q RefreshTick p)) = cfg_RatePerMin (effective (proc_cfg p)) \<and>
    minBytes (proc_disk (proc_run q after p)) = floor_bytes (cfg_DiskMinMB c0) \<and>
    minPercent (proc_disk (proc_run q after p)) = minPercent (proc_disk p0)"
proof -
  let ?p1 = "proc_run q before p0"
  have p0: "configured (proc_cfg p0) = c0" "minBytes (proc_disk p0) = floor_bytes (cfg_DiskMinMB c0)"
    using assms(1,2) by (auto simp: Build_process_def New_provider_def publish_def New_guard_def Let_def)
  have "ValidateSemantics q (configured (proc_cfg ?p1)) = None"
    by (rule proc_run_keeps[where P = "\<lambda>p. ValidateSemantics q (configured (proc_cfg p)) = None"])
      (simp_all add: proc_step_valid p0 assms(3))
  note ov = disk_override[OF this n]
  have c: "configured (proc_cfg p) = (configured (proc_cfg ?p1))\<lparr>cfg_DiskMinMB := n\<rparr>"
    "effective (proc_cfg p) = EffectiveLimits (configured (proc_cfg p))"
    unfolding p_def by (simp_all add: Provider_ApplyOverrides_def ov PersistAll_def publish_def)
  have "minBytes (proc_disk p) = minBytes (proc_disk p0)" "minPercent (proc_disk p) = minPercent (proc_disk p0)"
    unfolding p_def proc_step_disk by (simp_all add: proc_run_disk)
  then show ?thesis
    using disk_row[of "proc_cfg p"] p0(2) by (auto simp: c list_ex_iff proc_run_disk metricsRefresh_def SetRate_def)
qed

end
