(* ===== verification/Disk_Witness.thy ===== *)
theory Disk_Witness
  imports Disk_Guard Config_Witness
begin

text \<open>
  The properties of the disk guard applied: a disk that fails a probe, fills up and recovers; a file system of
  eight exabytes; and a floor raised on the dashboard of a running process.
\<close>

theorem guard_follows_disk_witness:
  "degraded (fold Check_disk
     [Inr (900 * 2 ^ 20, 4000 * 2 ^ 20), Inr (300 * 2 ^ 20, 4000 * 2 ^ 20), Inl ''io''] (New_guard 500 5)) \<and>
   \<not> degraded (fold Check_disk
     [Inr (300 * 2 ^ 20, 4000 * 2 ^ 20), Inl ''io'', Inr (900 * 2 ^ 20, 4000 * 2 ^ 20)] (New_guard 500 5))"
  using guard_follows_disk[of 500 "[Inr (900 * 2 ^ 20, 4000 * 2 ^ 20), Inr (300 * 2 ^ 20, 4000 * 2 ^ 20), Inl ''io'']" 5]
    guard_follows_disk[of 500 "[Inr (300 * 2 ^ 20, 4000 * 2 ^ 20), Inl ''io'', Inr (900 * 2 ^ 20, 4000 * 2 ^ 20)]" 5]
  by (simp add: MaxDiskMinMB_def MaxInt64_def last_reading_def low_disk_def)

theorem huge_disk_is_shed_witness:
  "degraded (Check_disk (statfsReal (Inr \<lparr>Bsize = 4096, Blocks = 2251799813685248, Bavail = 2251799813685248\<rparr>))
     (New_guard 500 5))"
  using huge_disk_is_shed[of "\<lparr>Bsize = 4096, Blocks = 2251799813685248, Bavail = 2251799813685248\<rparr>" "New_guard 500 5"]
  by (simp add: New_guard_def)

definition demo_process :: process where
  "demo_process = \<lparr>proc_cfg = New_provider demo_cfg [], proc_rl = rl_NewWithMax 20 rl_defaultMax, proc_counts = [],
     proc_disk = New_guard 0 0\<rparr>"

lemma demo_built: "Build_process (\<lambda>s. s) demo_cfg (Inr []) [] = Inr demo_process"
proof -
  have "cfg_RatePerMin (EffectiveLimits demo_cfg) = 20" "cfg_DiskMinMB (EffectiveLimits demo_cfg) = 0"
    "cfg_DiskMinPercent (EffectiveLimits demo_cfg) = 0"
    by (simp_all add: EffectiveLimits_def DebugMode_def RuntimeModeDebug_def demo_mode) (simp_all add: demo_cfg_def)
  then show ?thesis
    by (simp add: Build_process_def LoadWithOverlay_def demo_process_def New_provider_def publish_def)
qed

text \<open>The floor is raised from nothing to 2000 MiB; a probe that finds 1000 MiB free does not degrade the process.\<close>

theorem disk_floor_edit_is_lost_witness:
  "let p = proc_step (\<lambda>s. s) (Edit [(''DISK_MIN_MB'', itoa 2000)] None) demo_process;
       p' = proc_step (\<lambda>s. s) (DiskTick (Inr (1000 * 2 ^ 20, 4000 * 2 ^ 20))) p
   in cfg_DiskMinMB (effective (proc_cfg p)) = 2000 \<and> \<not> degraded (proc_disk p') \<and>
      low_disk 2000 0 (1000 * 2 ^ 20, 4000 * 2 ^ 20)"
proof -
  have l: "LoadWithOverlay (\<lambda>s. s) demo_cfg (Inr []) = Inr demo_cfg" by (simp add: LoadWithOverlay_def)
  have d: "minPercent (proc_disk demo_process) = 0" "floor_bytes (cfg_DiskMinMB demo_cfg) = 0"
    by (simp_all add: demo_process_def New_guard_def floor_bytes_def demo_cfg_def wrap64_def)
  note w = disk_floor_edit_is_lost[OF demo_built l demo_valid, of 2000 "[]" "[]"]
  have lim: "(2000 :: int) \<le> MaxDiskMinMB" by (simp add: MaxDiskMinMB_def)
  have "proc_run q [] x = x" for q x by (simp add: proc_run_def)
  with w lim d show ?thesis by (simp add: Check_disk_def low_disk_def Let_def)
qed

end
