(* ===== verification/Upstream.thy ===== *)
theory Upstream
  imports "HOL-Library.Word" Billing Apierr
begin

text \<open>
  The client of the model provider, \<open>internal/infra/upstream\<close>: the classification of every outcome
  (\<open>faultclass.go\<close>), the retry window (\<open>retry.go\<close>), the pool of keys (\<open>transport.go\<close>) and a call
  (\<open>client.go\<close>). What is outside is a parameter over a world \<open>'w\<close>: the clock, the provider behind the base
  transport, the first-byte timer, the context of the caller, random numbers and waiting; and the circuit breaker
  library, whose breakers may look at the world. Logs and metric hooks are left out.
\<close>

section \<open>Classes and outcomes\<close>

datatype faultClass =
    classOK
  | classClientCancel
  | classBusy
  | classKeyAuth
  | classKeyOpen
  | classTimeout
  | classUpstream
  | classUpstreamFinal
  | classUpstreamRefused
  | classUpstreamRejected

record outcome =
  oc_class :: faultClass
  oc_apiErr :: "api_error option"
  retryable :: bool
  breakerFlt :: bool
  exposure :: charge_exposure

definition RejectedContextLength :: string where "RejectedContextLength = ''context_length''"
definition RejectedMaxTokens :: string where "RejectedMaxTokens = ''max_tokens''"
definition RejectedInvalid :: string where "RejectedInvalid = ''invalid_request''"

definition resolveRejected :: "string \<Rightarrow> outcome" where
  "resolveRejected reason =
     \<lparr>oc_class = classUpstreamRejected, oc_apiErr = Some (UpstreamRejected reason), retryable = False,
      breakerFlt = False, exposure = DefinitelyUnbilled\<rparr>"

fun resolve :: "faultClass \<Rightarrow> outcome" where
  "resolve classClientCancel =
     \<lparr>oc_class = classClientCancel,
      oc_apiErr = Some (NewError 499 ''CLIENT_CANCELED'' ''client canceled the request''),
      retryable = False, breakerFlt = False, exposure = ChargePossible\<rparr>"
| "resolve classBusy =
     \<lparr>oc_class = classBusy, oc_apiErr = Some (sentinel_error ErrUpstreamBusy), retryable = False,
      breakerFlt = False, exposure = DefinitelyUnbilled\<rparr>"
| "resolve classKeyAuth =
     \<lparr>oc_class = classKeyAuth, oc_apiErr = Some (sentinel_error ErrUpstreamError), retryable = True,
      breakerFlt = False, exposure = DefinitelyUnbilled\<rparr>"
| "resolve classKeyOpen =
     \<lparr>oc_class = classKeyOpen, oc_apiErr = Some (sentinel_error ErrUpstreamBusy), retryable = True,
      breakerFlt = False, exposure = DefinitelyUnbilled\<rparr>"
| "resolve classTimeout =
     \<lparr>oc_class = classTimeout, oc_apiErr = Some (sentinel_error ErrUpstreamTimeout), retryable = False,
      breakerFlt = True, exposure = ChargePossible\<rparr>"
| "resolve classUpstream =
     \<lparr>oc_class = classUpstream, oc_apiErr = Some (sentinel_error ErrUpstreamError), retryable = False,
      breakerFlt = True, exposure = ChargePossible\<rparr>"
| "resolve classUpstreamFinal =
     \<lparr>oc_class = classUpstreamFinal, oc_apiErr = Some (sentinel_error ErrUpstreamError), retryable = False,
      breakerFlt = True, exposure = ChargePossible\<rparr>"
| "resolve classUpstreamRefused =
     \<lparr>oc_class = classUpstreamRefused, oc_apiErr = Some (sentinel_error ErrUpstreamError), retryable = False,
      breakerFlt = True, exposure = DefinitelyUnbilled\<rparr>"
| "resolve classUpstreamRejected = resolveRejected RejectedInvalid"
| "resolve classOK =
     \<lparr>oc_class = classOK, oc_apiErr = None, retryable = False, breakerFlt = False, exposure = ChargePossible\<rparr>"

text \<open>What \<open>errors.Is\<close> and \<open>errors.As\<close> tell of an error of the network, and the errors of the transport.\<close>

record net_err =
  is_canceled :: bool
  is_deadline :: bool
  is_net_timeout :: bool

datatype rt_error = errAllKeysGated | errNoUsableAPIKey | errKeyOpen | NetError net_err

definition classifyPeekErr :: "net_err \<Rightarrow> bool \<Rightarrow> bool \<Rightarrow> faultClass" where
  "classifyPeekErr err parent_done timedOut =
     (if \<not> timedOut \<and> parent_done \<and> is_canceled err then classClientCancel
      else if timedOut \<or> is_deadline err \<or> is_net_timeout err then classTimeout
      else classUpstream)"

fun classifyConnectErr :: "rt_error \<Rightarrow> bool \<Rightarrow> bool \<Rightarrow> faultClass" where
  "classifyConnectErr errAllKeysGated parent_done timedOut = classBusy"
| "classifyConnectErr errNoUsableAPIKey parent_done timedOut = classBusy"
| "classifyConnectErr errKeyOpen parent_done timedOut = classKeyOpen"
| "classifyConnectErr (NetError err) parent_done timedOut =
     (if \<not> timedOut \<and> parent_done \<and> is_canceled err then classClientCancel
      else if timedOut \<or> is_deadline err \<or> is_net_timeout err then classTimeout
      else classUpstream)"

definition classifyStatus :: "int \<Rightarrow> faultClass" where
  "classifyStatus code =
     (if code = 429 then classBusy
      else if code = 401 \<or> code = 403 then classKeyAuth
      else if code = 400 \<or> code = 413 \<or> code = 422 then classUpstreamRejected
      else if code = 504 then classTimeout
      else if code = 502 \<or> code = 503 then classUpstream
      else if code \<ge> 300 \<and> code < 500 then classUpstreamRefused
      else classUpstreamFinal)"

section \<open>The outside\<close>

record http_post =
  post_url :: string
  post_accept :: string
  post_auth :: string
  post_body :: string

record up_response =
  up_status :: int
  up_retry_after :: string
  up_body :: string

text \<open>The race for the first-byte timer when a path disarms it: won, lost, or lost with the timed-out flag not
  yet set.\<close>

datatype race = Disarmed | Fired | Firing

record 'w net =
  net_now :: "'w \<Rightarrow> int \<times> 'w"
  net_send :: "http_post \<Rightarrow> 'w \<Rightarrow> (net_err + up_response) \<times> 'w"
  net_timer :: "int \<Rightarrow> 'w \<Rightarrow> race"
  net_canceled :: "'w \<Rightarrow> bool"
  net_peek :: "up_response \<Rightarrow> 'w \<Rightarrow> net_err option \<times> 'w"
  net_rand :: "int \<Rightarrow> 'w \<Rightarrow> int \<times> 'w"
  net_wait :: "int \<Rightarrow> 'w \<Rightarrow> bool \<times> 'w"
  net_bad_request :: "string \<Rightarrow> bool"
  http_date :: "string \<Rightarrow> int option"
  error_object :: "string \<Rightarrow> bool \<times> string"
  error_array :: "string \<Rightarrow> bool \<times> string list"

datatype breaker_state = BreakerClosed | BreakerHalfOpen | BreakerOpen
datatype breaker_refusal = ErrOpenState | ErrTooManyRequests

record breaker_counts =
  Requests :: nat
  TotalFailures :: nat
  ConsecutiveFailures :: nat

record breaker_settings =
  MaxRequests :: nat
  Interval :: int
  Timeout :: int
  ReadyToTrip :: "breaker_counts \<Rightarrow> bool"

record ('b, 'w) breaker_lib =
  brk_new :: "breaker_settings \<Rightarrow> 'b"
  brk_state :: "'b \<Rightarrow> 'w \<Rightarrow> breaker_state \<times> 'b"
  brk_admit :: "'b \<Rightarrow> 'w \<Rightarrow> (breaker_refusal + int) \<times> 'b"
  brk_done :: "int \<Rightarrow> bool \<Rightarrow> 'b \<Rightarrow> 'w \<Rightarrow> 'b"

section \<open>Retry\<close>

definition millisecond :: int where "millisecond = 1000000"
definition second :: int where "second = 1000000000"
definition maxAttempts :: nat where "maxAttempts = 3"
definition retry_base :: int where "retry_base = 200 * millisecond"
definition retry_cap :: int where "retry_cap = 3 * second"

definition backoff :: "'w net \<Rightarrow> nat \<Rightarrow> 'w \<Rightarrow> int \<times> 'w" where
  "backoff N n w =
     (let d = wrap64 (retry_base * 2 ^ (n - 1));
          d' = (if d > retry_cap \<or> d \<le> 0 then retry_cap else d)
      in net_rand N (d' + 1) w)"

definition parseRetryAfter :: "'w net \<Rightarrow> string \<Rightarrow> int \<Rightarrow> int" where
  "parseRetryAfter N v now =
     (if v = [] then 0
      else case parse_int v of
        Some secs \<Rightarrow> if secs < 0 then 0 else wrap64 (secs * second)
      | None \<Rightarrow>
          (case http_date N v of
             Some t \<Rightarrow> if t - now > 0 then t - now else 0
           | None \<Rightarrow> 0))"

definition ready_to_trip :: "breaker_counts \<Rightarrow> bool" where
  "ready_to_trip c =
     (if ConsecutiveFailures c \<ge> 5 then True
      else Requests c \<ge> 10 \<and> 2 * TotalFailures c > Requests c)"

definition newProcessBreaker :: "('b, 'w) breaker_lib \<Rightarrow> 'b" where
  "newProcessBreaker L = brk_new L \<lparr>MaxRequests = 1, Interval = 30 * second, Timeout = 10 * second, ReadyToTrip = ready_to_trip\<rparr>"

definition newKeyBreaker :: "('b, 'w) breaker_lib \<Rightarrow> 'b" where
  "newKeyBreaker L = brk_new L \<lparr>MaxRequests = 1, Interval = 30 * second, Timeout = 20 * second, ReadyToTrip = ready_to_trip\<rparr>"

section \<open>The pool of keys\<close>

text \<open>\<open>cooldownUntil\<close> is \<open>None\<close> for the zero time.\<close>

record 'b key_state =
  ks_id :: nat
  apiKey :: string
  cb :: 'b
  cooldownUntil :: "int option"

record 'b transport =
  pool :: "'b key_state list"
  rr :: "64 word"

definition onCooldown :: "int \<Rightarrow> 'b key_state \<Rightarrow> bool" where
  "onCooldown now k = (case cooldownUntil k of None \<Rightarrow> False | Some u \<Rightarrow> now < u)"

definition setCooldown :: "int \<Rightarrow> 'b key_state \<Rightarrow> 'b key_state" where
  "setCooldown until k =
     (if (case cooldownUntil k of None \<Rightarrow> True | Some u \<Rightarrow> until > u) then k\<lparr>cooldownUntil := Some until\<rparr> else k)"

definition newRedactingTransport :: "('b, 'w) breaker_lib \<Rightarrow> string list \<Rightarrow> 'b transport" where
  "newRedactingTransport L apiKeys =
     \<lparr>pool = [\<lparr>ks_id = i, apiKey = TrimSpace raw, cb = newKeyBreaker L, cooldownUntil = None\<rparr>.
               (i, raw) \<leftarrow> enumerate 0 apiKeys, TrimSpace raw \<noteq> []],
      rr = 0\<rparr>"

fun scan_keys :: "('b, 'w) breaker_lib \<Rightarrow> int \<Rightarrow> 'w \<Rightarrow> nat list \<Rightarrow> 'b transport \<Rightarrow> nat option \<times> 'b transport" where
  "scan_keys L now w [] t = (None, t)"
| "scan_keys L now w (i # is) t =
     (if onCooldown now (pool t ! i) then scan_keys L now w is t
      else
        let (st, b) = brk_state L (cb (pool t ! i)) w;
            t' = t\<lparr>pool := (pool t)[i := (pool t ! i)\<lparr>cb := b\<rparr>]\<rparr>
        in if st = BreakerOpen then scan_keys L now w is t' else (Some i, t'))"

definition scan_order :: "64 word \<Rightarrow> nat \<Rightarrow> nat list" where
  "scan_order start n = map (\<lambda>i. unat ((start + of_nat i) mod of_nat n)) [0..<n]"

definition pickKey :: "('b, 'w) breaker_lib \<Rightarrow> int \<Rightarrow> 'w \<Rightarrow> 'b transport \<Rightarrow> nat option \<times> 'b transport" where
  "pickKey L now w t =
     (let n = length (pool t) in
      if n = 0 then (None, t) else scan_keys L now w (scan_order (rr t) n) (t\<lparr>rr := rr t + 1\<rparr>))"

definition accountLevelFault :: "'w net \<Rightarrow> up_response \<Rightarrow> int \<Rightarrow> 'b key_state \<Rightarrow> bool \<times> 'b key_state" where
  "accountLevelFault N r now k =
     (if up_status r = 401 \<or> up_status r = 403 then (True, setCooldown (now + 600 * second) k)
      else if up_status r = 429
      then (False, let d = parseRetryAfter N (up_retry_after r) now
                   in if d > 5 * second then setCooldown (now + d) k else k)
      else if up_status r \<ge> 500 then (True, k)
      else (False, k))"

definition RoundTrip ::
    "'w net \<Rightarrow> ('b, 'w) breaker_lib \<Rightarrow> http_post \<Rightarrow> 'b transport \<Rightarrow> 'w \<Rightarrow> (rt_error + up_response) \<times> 'b transport \<times> 'w" where
  "RoundTrip N L req t w =
     (let (now, w1) = net_now N w in
      if pool t = [] then (Inl errNoUsableAPIKey, t, w1)
      else case pickKey L now w1 t of
        (None, t1) \<Rightarrow> (Inl errAllKeysGated, t1, w1)
      | (Some i, t1) \<Rightarrow>
          (let k = pool t1 ! i in
           case brk_admit L (cb k) w1 of
             (Inl refusal, b) \<Rightarrow> (Inl errKeyOpen, t1\<lparr>pool := (pool t1)[i := k\<lparr>cb := b\<rparr>]\<rparr>, w1)
           | (Inr gen, b) \<Rightarrow>
               (case net_send N (req\<lparr>post_auth := ''Bearer '' @ apiKey k\<rparr>) w1 of
                  (Inl e, w2) \<Rightarrow>
                    (Inl (NetError e),
                     t1\<lparr>pool := (pool t1)[i := k\<lparr>cb := brk_done L gen (is_canceled e) b w2\<rparr>]\<rparr>, w2)
                | (Inr r, w2) \<Rightarrow>
                    (let (fault, k1) = accountLevelFault N r now k
                     in (Inr r, t1\<lparr>pool := (pool t1)[i := k1\<lparr>cb := brk_done L gen (\<not> fault) b w2\<rparr>]\<rparr>, w2)))))"

section \<open>Why a request was rejected\<close>

definition ascii_lower :: "char \<Rightarrow> char" where
  "ascii_lower c = (let n = of_char c :: nat in if 65 \<le> n \<and> n \<le> 90 then char_of (n + 32) else c)"

text \<open>\<open>strings.ToLower\<close> as far as ASCII texts searched for in the result are concerned: beside the capital letters,
  the Kelvin sign becomes \<open>k\<close> and the dotted capital I becomes \<open>i\<close>; every other character outside ASCII
  stays outside it.\<close>

fun ToLower :: "string \<Rightarrow> string" where
  "ToLower [] = []"
| "ToLower [a] = [ascii_lower a]"
| "ToLower [a, b] = (if [a, b] = bytes [196, 176] then ''i'' else [ascii_lower a, ascii_lower b])"
| "ToLower (a # b # c # s) =
     (if [a, b, c] = bytes [226, 132, 170] then CHR ''k'' # ToLower s
      else if [a, b] = bytes [196, 176] then CHR ''i'' # ToLower (c # s)
      else ascii_lower a # ToLower (b # c # s))"

fun Contains :: "string \<Rightarrow> string \<Rightarrow> bool" where
  "Contains [] sub = (sub = [])"
| "Contains (c # s) sub = (is_prefix sub (c # s) \<or> Contains s sub)"

definition rejectionReason :: "'w net \<Rightarrow> string \<Rightarrow> string \<times> string" where
  "rejectionReason N body =
     (let raw = take 4096 body;
          (failed, message) = error_object N raw;
          message' = (if failed \<or> message = []
                      then (case error_array N raw of (False, m # _) \<Rightarrow> m | _ \<Rightarrow> message)
                      else message);
          msg = ToLower message'
      in (if Contains msg ''context length'' \<or> Contains msg ''context window'' \<or> Contains msg ''input too large'' \<or>
             Contains msg ''too many input tokens'' \<or> Contains msg ''maximum input''
          then RejectedContextLength
          else if Contains msg ''max_tokens'' then RejectedMaxTokens
          else RejectedInvalid,
          take 300 message'))"

section \<open>One attempt\<close>

text \<open>A \<open>Stream\<close> is the answer whose first byte has been seen.\<close>

definition tryOnce ::
    "'w net \<Rightarrow> ('b, 'w) breaker_lib \<Rightarrow> string \<Rightarrow> bool \<Rightarrow> int \<Rightarrow> string \<Rightarrow> 'b transport \<Rightarrow> 'w \<Rightarrow>
     up_response option \<times> outcome \<times> int \<times> 'b transport \<times> 'w" where
  "tryOnce N L payload stream firstByteTimeout endpoint t w =
     (let limit = (if firstByteTimeout \<le> 0 then 60 * second else firstByteTimeout);
          req = \<lparr>post_url = endpoint,
                 post_accept = (if stream then ''text/event-stream'' else ''application/json''),
                 post_auth = [], post_body = payload\<rparr>
      in if net_bad_request N endpoint then (None, resolve classUpstream, 0, t, w)
         else case RoundTrip N L req t w of
           (Inl err, t1, w1) \<Rightarrow>
             (None, resolve (classifyConnectErr err (net_canceled N w1) (net_timer N limit w1 = Fired)), 0, t1, w1)
         | (Inr resp, t1, w1) \<Rightarrow>
             if up_status resp < 200 \<or> up_status resp \<ge> 300
             then
               let (now, w2) = net_now N w1;
                   ra = parseRetryAfter N (up_retry_after resp) now;
                   cls = classifyStatus (up_status resp)
               in if cls = classUpstreamRejected
                  then (None, resolveRejected (fst (rejectionReason N (up_body resp))), ra, t1, w2)
                  else (None, resolve cls, ra, t1, w2)
             else
               (case net_peek N resp w1 of
                  (Some peekErr, w2) \<Rightarrow>
                    (None, resolve (classifyPeekErr peekErr (net_canceled N w2) (net_timer N limit w2 = Fired)), 0, t1, w2)
                | (None, w2) \<Rightarrow>
                    if net_timer N limit w2 \<noteq> Disarmed then (None, resolve classTimeout, 0, t1, w2)
                    else (Some resp, resolve classOK, 0, t1, w2)))"

section \<open>A call\<close>

text \<open>The loop over the attempts; \<open>k\<close> attempts are left, the next one is number \<open>n\<close>.\<close>

fun attempts ::
    "'w net \<Rightarrow> ('b, 'w) breaker_lib \<Rightarrow> string \<Rightarrow> bool \<Rightarrow> int \<Rightarrow> string \<Rightarrow> nat \<Rightarrow> nat \<Rightarrow> outcome \<Rightarrow> 'b transport \<Rightarrow> 'w \<Rightarrow>
     up_response option \<times> outcome \<times> 'b transport \<times> 'w" where
  "attempts N L payload stream limit endpoint 0 n last_outcome t w = (None, last_outcome, t, w)"
| "attempts N L payload stream limit endpoint (Suc k) n last_outcome t w =
     (case tryOnce N L payload stream limit endpoint t w of
        (s, oc, retryAfter, t1, w1) \<Rightarrow>
          if oc_class oc = classOK then (s, oc, t1, w1)
          else if \<not> retryable oc \<or> n = maxAttempts then (None, oc, t1, w1)
          else
            let (drawn, w2) = backoff N n w1;
                wait1 = (if retryAfter > drawn then retryAfter else drawn);
                wait2 = (if wait1 > retry_cap then retry_cap else wait1);
                (gave_up, w3) = net_wait N wait2 w2
            in if gave_up then (None, (resolve classClientCancel)\<lparr>exposure := DefinitelyUnbilled\<rparr>, t1, w3)
               else attempts N L payload stream limit endpoint k (n + 1) oc t1 w3)"

definition attempt ::
    "'w net \<Rightarrow> ('b, 'w) breaker_lib \<Rightarrow> string \<Rightarrow> bool \<Rightarrow> int \<Rightarrow> string \<Rightarrow> 'b transport \<Rightarrow> 'w \<Rightarrow>
     up_response option \<times> outcome \<times> 'b transport \<times> 'w" where
  "attempt N L payload stream limit endpoint t w =
     attempts N L payload stream limit endpoint maxAttempts 1 (resolve classOK) t w"

record call_failure =
  APIError :: api_error
  Exposure :: charge_exposure

definition callFailure :: "api_error option \<Rightarrow> charge_exposure \<Rightarrow> call_failure" where
  "callFailure ae ex =
     \<lparr>APIError = (case ae of None \<Rightarrow> sentinel_error ErrUpstreamError | Some e \<Rightarrow> e), Exposure = ex\<rparr>"

record 'b up_client =
  cl_endpoint :: string
  cl_timeout :: int
  cl_transport :: "'b transport"
  cl_breaker :: 'b

text \<open>\<open>credential_url\<close> is the answer of \<open>url.Parse\<close> and the policy on addresses that may carry a key.\<close>

definition normalizeEndpoint :: "(string \<Rightarrow> bool) \<Rightarrow> string \<Rightarrow> string" where
  "normalizeEndpoint credential_url raw =
     (let endpoint = TrimSpace raw in
      if endpoint = [] then [] else if \<not> credential_url endpoint then [] else endpoint)"

definition newClient ::
    "(string \<Rightarrow> bool) \<Rightarrow> ('b, 'w) breaker_lib \<Rightarrow> string \<Rightarrow> string list \<Rightarrow> int \<Rightarrow> 'b up_client" where
  "newClient credential_url L url apiKeys headerTimeout =
     \<lparr>cl_endpoint = normalizeEndpoint credential_url url, cl_timeout = headerTimeout,
      cl_transport = newRedactingTransport L apiKeys, cl_breaker = newProcessBreaker L\<rparr>"

text \<open>The end of a call whose attempt has been admitted by the process breaker.\<close>

definition call_result :: "up_response option \<Rightarrow> outcome \<Rightarrow> call_failure + up_response" where
  "call_result s oc =
     (if oc_class oc = classOK
      then (case s of Some st \<Rightarrow> Inr st
            | None \<Rightarrow> Inl (callFailure (Some (sentinel_error ErrUpstreamError)) ChargePossible))
      else Inl (callFailure (oc_apiErr oc) (exposure oc)))"

definition do_call ::
    "'w net \<Rightarrow> ('b, 'w) breaker_lib \<Rightarrow> string \<Rightarrow> bool \<Rightarrow> int \<Rightarrow> 'b up_client \<Rightarrow> 'w \<Rightarrow>
     (call_failure + up_response) \<times> 'b up_client \<times> 'w" where
  "do_call N L payload stream limit c w =
     (if cl_endpoint c = [] \<or> pool (cl_transport c) = []
      then (Inl (callFailure (Some (sentinel_error ErrUpstreamError)) DefinitelyUnbilled), c, w)
      else
        let busy = Inl (callFailure (Some (sentinel_error ErrUpstreamBusy)) DefinitelyUnbilled);
            (st, b) = brk_state L (cl_breaker c) w
        in if st = BreakerOpen then (busy, c\<lparr>cl_breaker := b\<rparr>, w)
           else case brk_admit L b w of
             (Inl refusal, b1) \<Rightarrow> (busy, c\<lparr>cl_breaker := b1\<rparr>, w)
           | (Inr gen, b1) \<Rightarrow>
               (case attempt N L payload stream limit (cl_endpoint c) (cl_transport c) w of
                  (s, oc, t, w1) \<Rightarrow>
                    (call_result s oc,
                     c\<lparr>cl_transport := t, cl_breaker := brk_done L gen (oc_class oc = classOK \<or> \<not> breakerFlt oc) b1 w1\<rparr>,
                     w1)))"

definition DoCall ::
    "'w net \<Rightarrow> ('b, 'w) breaker_lib \<Rightarrow> string \<Rightarrow> bool \<Rightarrow> int \<Rightarrow> 'b up_client \<Rightarrow> 'w \<Rightarrow>
     (call_failure + up_response) \<times> 'b up_client \<times> 'w" where
  "DoCall N L payload stream firstByteTimeout c w =
     do_call N L payload stream (if firstByteTimeout \<le> 0 then cl_timeout c else firstByteTimeout) c w"

definition ClientBreakerOpen :: "('b, 'w) breaker_lib \<Rightarrow> 'b up_client \<Rightarrow> 'w \<Rightarrow> bool \<times> 'b up_client" where
  "ClientBreakerOpen L c w = (case brk_state L (cl_breaker c) w of (st, b) \<Rightarrow> (st = BreakerOpen, c\<lparr>cl_breaker := b\<rparr>))"

end
