(* ===== verification/Upstream_Props.thy ===== *)
theory Upstream_Props
  imports Upstream
begin

text \<open>
  What a call of the model provider can cost, what it can do to the circuit breaker, and which keys it uses.
\<close>

section \<open>What is charged\<close>

text \<open>The billing terms the client relies on, as a counter of the calls the provider charges: sending a request
  charges at most one, an explicit redirect or refusal (a status from 300 to 499) charges nothing, and nothing else
  the client does reaches the provider.\<close>

definition provider_contract :: "'w net \<Rightarrow> ('w \<Rightarrow> nat) \<Rightarrow> bool" where
  "provider_contract N bill \<longleftrightarrow>
     (\<forall>q w. case net_send N q w of (r, w') \<Rightarrow> bill w \<le> bill w' \<and> bill w' \<le> bill w + 1 \<and>
        (case r of Inl e \<Rightarrow> True | Inr a \<Rightarrow> 300 \<le> up_status a \<and> up_status a < 500 \<longrightarrow> bill w' = bill w)) \<and>
     (\<forall>w. bill (snd (net_now N w)) = bill w) \<and> (\<forall>a w. bill (snd (net_peek N a w)) = bill w) \<and>
     (\<forall>n w. bill (snd (net_rand N n w)) = bill w) \<and> (\<forall>d w. bill (snd (net_wait N d w)) = bill w)"

lemma contract_quiet:
  assumes "provider_contract N bill"
  shows "net_now N w = (x, w') \<Longrightarrow> bill w' = bill w" "net_peek N a w = (y, w') \<Longrightarrow> bill w' = bill w"
    "net_rand N n w = (x, w') \<Longrightarrow> bill w' = bill w" "net_wait N d w = (z, w') \<Longrightarrow> bill w' = bill w"
  using assms unfolding provider_contract_def by (metis snd_conv)+

lemma contract_send:
  assumes "provider_contract N bill" "net_send N q w = (r, w')"
  shows "bill w \<le> bill w'" "bill w' \<le> bill w + 1"
    "r = Inr a \<Longrightarrow> 300 \<le> up_status a \<Longrightarrow> up_status a < 500 \<Longrightarrow> bill w' = bill w"
proof -
  have "case net_send N q w of (r, w') \<Rightarrow> bill w \<le> bill w' \<and> bill w' \<le> bill w + 1 \<and>
        (case r of Inl e \<Rightarrow> True | Inr a \<Rightarrow> 300 \<le> up_status a \<and> up_status a < 500 \<longrightarrow> bill w' = bill w)"
    using assms(1) unfolding provider_contract_def by (elim conjE) (drule spec, drule spec, assumption)
  with assms(2) show "bill w \<le> bill w'" "bill w' \<le> bill w + 1"
    "r = Inr a \<Longrightarrow> 300 \<le> up_status a \<Longrightarrow> up_status a < 500 \<Longrightarrow> bill w' = bill w" by auto
qed

text \<open>Every way a round trip can go.\<close>

lemma RoundTrip_cases:
  assumes "RoundTrip N L q t w = (res, t', w')"
  obtains (local) now e where "net_now N w = (now, w')" "res = Inl e" "\<forall>x. e \<noteq> NetError x"
  | (failed) now w1 i t1 gen b e where "net_now N w = (now, w1)" "pickKey L now w1 t = (Some i, t1)"
      "brk_admit L (cb (pool t1 ! i)) w1 = (Inr gen, b)"
      "net_send N (q\<lparr>post_auth := ''Bearer '' @ apiKey (pool t1 ! i)\<rparr>) w1 = (Inl e, w')" "res = Inl (NetError e)"
      "t' = t1\<lparr>pool := (pool t1)[i := (pool t1 ! i)\<lparr>cb := brk_done L gen (is_canceled e) b w'\<rparr>]\<rparr>"
  | (answered) now w1 i t1 gen b r where "net_now N w = (now, w1)" "pickKey L now w1 t = (Some i, t1)"
      "brk_admit L (cb (pool t1 ! i)) w1 = (Inr gen, b)"
      "net_send N (q\<lparr>post_auth := ''Bearer '' @ apiKey (pool t1 ! i)\<rparr>) w1 = (Inr r, w')" "res = Inr r"
      "t' = t1\<lparr>pool := (pool t1)[i := (snd (accountLevelFault N r now (pool t1 ! i)))\<lparr>cb :=
         brk_done L gen (\<not> fst (accountLevelFault N r now (pool t1 ! i))) b w'\<rparr>]\<rparr>"
proof -
  obtain now w1 where n: "net_now N w = (now, w1)" by fastforce
  show ?thesis
  proof (cases "pool t = []")
    case True
    with assms n that(1) show ?thesis by (auto simp: RoundTrip_def)
  next
    case ne: False
    obtain pick t1 where p: "pickKey L now w1 t = (pick, t1)" by fastforce
    show ?thesis
    proof (cases pick)
      case None
      with assms n p ne that(1) show ?thesis by (auto simp: RoundTrip_def)
    next
      case i: (Some i)
      obtain ad b where a: "brk_admit L (cb (pool t1 ! i)) w1 = (ad, b)" by fastforce
      show ?thesis
      proof (cases ad)
        case (Inl x)
        with assms n p ne i a that(1) show ?thesis by (auto simp: RoundTrip_def)
      next
        case g: (Inr gen)
        obtain r w2 where s: "net_send N (q\<lparr>post_auth := ''Bearer '' @ apiKey (pool t1 ! i)\<rparr>) w1 = (r, w2)" by fastforce
        show ?thesis
        proof (cases r)
          case (Inl e)
          have "res = Inl (NetError e)" "w' = w2"
            "t' = t1\<lparr>pool := (pool t1)[i := (pool t1 ! i)\<lparr>cb := brk_done L gen (is_canceled e) b w2\<rparr>]\<rparr>"
            using assms n p ne i a g s Inl by (auto simp: RoundTrip_def Let_def)
          with n p i a g s Inl that(2) show ?thesis by blast
        next
          case (Inr r')
          have "res = Inr r'" "w' = w2"
            "t' = t1\<lparr>pool := (pool t1)[i := (snd (accountLevelFault N r' now (pool t1 ! i)))\<lparr>cb :=
              brk_done L gen (\<not> fst (accountLevelFault N r' now (pool t1 ! i))) b w2\<rparr>]\<rparr>"
            using assms n p ne i a g s Inr by (auto simp: RoundTrip_def Let_def split: prod.splits)
          with n p i a g s Inr that(3) show ?thesis by blast
        qed
      qed
    qed
  qed
qed

text \<open>Every way one attempt can end, by what its round trip gave.\<close>

lemma tryOnce_cases:
  assumes "tryOnce N L payload stream limit endpoint t w = (s, oc, ra, t', w')"
  obtains (unsent) "oc = resolve classUpstream" "s = None" "t' = t" "w' = w" "net_bad_request N endpoint"
  | (error) q err where "RoundTrip N L q t w = (Inl err, t', w')" "s = None"
      "oc = resolve (classifyConnectErr err (net_canceled N w')
         (net_timer N (if limit \<le> 0 then 60 * second else limit) w' = Fired))"
  | (status) q r w1 now where "RoundTrip N L q t w = (Inr r, t', w1)" "net_now N w1 = (now, w')"
      "up_status r < 200 \<or> 300 \<le> up_status r" "s = None"
      "oc = (if classifyStatus (up_status r) = classUpstreamRejected then resolveRejected (fst (rejectionReason N (up_body r)))
             else resolve (classifyStatus (up_status r)))"
  | (body) q r w1 pe where "RoundTrip N L q t w = (Inr r, t', w1)" "200 \<le> up_status r" "up_status r < 300"
      "net_peek N r w1 = (pe, w')"
      "s = (if pe = None \<and> oc = resolve classOK then Some r else None)"
      "oc = (case pe of
          Some e \<Rightarrow> resolve (classifyPeekErr e (net_canceled N w')
             (net_timer N (if limit \<le> 0 then 60 * second else limit) w' = Fired))
        | None \<Rightarrow> if net_timer N (if limit \<le> 0 then 60 * second else limit) w' \<noteq> Disarmed then resolve classTimeout
                  else resolve classOK)"
proof -
  define q where "q = \<lparr>post_url = endpoint,
      post_accept = (if stream then ''text/event-stream'' else ''application/json''), post_auth = [], post_body = payload\<rparr>"
  obtain res t1 w1 where r: "RoundTrip N L q t w = (res, t1, w1)" by (cases "RoundTrip N L q t w") auto
  note eq = assms[unfolded tryOnce_def Let_def, folded q_def]
  show ?thesis
  proof (cases "net_bad_request N endpoint")
    case True
    with eq show ?thesis by (intro that(1)) auto
  next
    case False
    show ?thesis
    proof (cases res)
      case (Inl err)
      with eq r False show ?thesis by (intro that(2)[of q err]) auto
    next
      case (Inr a)
      show ?thesis
      proof (cases "up_status a < 200 \<or> 300 \<le> up_status a")
        case True
        obtain now w2 where n: "net_now N w1 = (now, w2)" by fastforce
        from eq r False Inr True n show ?thesis
          by (intro that(3)[of q a w1 now]) (auto split: if_splits)
      next
        case st: False
        obtain pe w2 where p: "net_peek N a w1 = (pe, w2)" by fastforce
        from eq r False Inr st p show ?thesis
          by (intro that(4)[of q a w1 pe]) (auto split: option.splits if_splits)
      qed
    qed
  qed
qed

lemma status_exposure:
  assumes "st < 200 \<or> 300 \<le> st"
  shows "exposure (resolve (classifyStatus st)) = DefinitelyUnbilled \<longleftrightarrow> 300 \<le> st \<and> st < 500"
    and "retryable (resolve (classifyStatus st)) \<longleftrightarrow> st = 401 \<or> st = 403"
    and "classifyStatus st = classUpstreamRejected \<longleftrightarrow> st = 400 \<or> st = 413 \<or> st = 422"
    and "classifyStatus st \<noteq> classOK"
  using assms by (auto simp: classifyStatus_def resolveRejected_def)

lemma error_exposure:
  "exposure (resolve (classifyPeekErr e p f)) = ChargePossible" "\<not> retryable (resolve (classifyPeekErr e p f))"
  "exposure (resolve (classifyConnectErr (NetError e) p f)) = ChargePossible"
  "\<not> retryable (resolve (classifyConnectErr (NetError e) p f))"
  "classifyConnectErr err p f \<noteq> classOK" "classifyPeekErr e p f \<noteq> classOK"
  by (auto simp: classifyPeekErr_def) (cases err; auto split: if_splits)

lemma resolve_class [simp]: "oc_class (resolve c) = c"
  by (cases c) (simp_all add: resolveRejected_def)

lemma resolve_OK [simp]: "resolve c = resolve classOK \<longleftrightarrow> c = classOK"
  by (metis resolve_class)

lemma rejected_fields [simp]:
  "exposure (resolveRejected m) = DefinitelyUnbilled" "\<not> retryable (resolveRejected m)" "\<not> breakerFlt (resolveRejected m)"
  "oc_class (resolveRejected m) = classUpstreamRejected"
  by (simp_all add: resolveRejected_def)

lemma RoundTrip_bill:
  assumes c: "provider_contract N bill" and r: "RoundTrip N L q t w = (res, t', w')"
  shows "bill w \<le> bill w' \<and> bill w' \<le> bill w + 1 \<and>
    (case res of Inl (NetError e) \<Rightarrow> True | Inl _ \<Rightarrow> bill w' = bill w
     | Inr a \<Rightarrow> (300 \<le> up_status a \<and> up_status a < 500 \<longrightarrow> bill w' = bill w))"
  using r
proof (cases rule: RoundTrip_cases)
  case (local now e)
  then show ?thesis using contract_quiet(1)[OF c local(1)] by (auto split: rt_error.split)
next
  case (failed now w1 i t1 gen b e)
  then show ?thesis using contract_quiet(1)[OF c failed(1)] contract_send[OF c failed(4)] by auto
next
  case (answered now w1 i t1 gen b a)
  then show ?thesis using contract_quiet(1)[OF c answered(1)] contract_send[OF c answered(4)] by auto
qed

lemma tryOnce_bill:
  assumes c: "provider_contract N bill" and t: "tryOnce N L payload stream limit endpoint t w = (s, oc, ra, t', w')"
  shows "bill w \<le> bill w' \<and> bill w' \<le> bill w + 1 \<and> (exposure oc = DefinitelyUnbilled \<longrightarrow> bill w' = bill w) \<and>
    (retryable oc \<longrightarrow> exposure oc = DefinitelyUnbilled)"
  using t
proof (cases rule: tryOnce_cases)
  case unsent
  then show ?thesis by simp
next
  case (error q err)
  note b = RoundTrip_bill[OF c error(1)]
  show ?thesis
  proof (cases err)
    case (NetError e)
    then show ?thesis using b error_exposure(3,4) unfolding error(3) by simp
  qed (use b error(3) in auto)
next
  case (status q r w1 now)
  note b = RoundTrip_bill[OF c status(1)] contract_quiet(1)[OF c status(2)] status_exposure[OF status(3)]
  show ?thesis
  proof (cases "classifyStatus (up_status r) = classUpstreamRejected")
    case True
    then show ?thesis using b status(5) by auto
  next
    case False
    then show ?thesis using b status(5) by auto
  qed
next
  case (body q r w1 pe)
  note b = RoundTrip_bill[OF c body(1)] contract_quiet(2)[OF c body(4)]
  then show ?thesis using body(6) error_exposure(1,2) by (cases pe) auto
qed

lemma attempts_bill:
  assumes c: "provider_contract N bill"
  shows "attempts N L payload stream limit endpoint k n lo t w = (s, oc, t', w') \<Longrightarrow>
    bill w \<le> bill w' \<and> bill w' \<le> bill w + 1 \<and> (0 < k \<longrightarrow> exposure oc = DefinitelyUnbilled \<longrightarrow> bill w' = bill w)"
proof (induction k arbitrary: n lo t w)
  case (Suc k)
  obtain s1 o1 ra t1 w1 where t: "tryOnce N L payload stream limit endpoint t w = (s1, o1, ra, t1, w1)"
    by (cases "tryOnce N L payload stream limit endpoint t w") auto
  note b = tryOnce_bill[OF c t]
  show ?case
  proof (cases "oc_class o1 = classOK \<or> \<not> retryable o1 \<or> n = maxAttempts")
    case True
    then show ?thesis using Suc.prems t b by (auto split: if_splits)
  next
    case False
    obtain d w2 where w2: "backoff N n w1 = (d, w2)" by fastforce
    then have b2: "bill w2 = bill w1" using contract_quiet(3)[OF c] by (auto simp: backoff_def Let_def)
    define d' where "d' = (if (if ra > d then ra else d) > retry_cap then retry_cap else (if ra > d then ra else d))"
    obtain gone w3 where w3: "net_wait N d' w2 = (gone, w3)" by fastforce
    have same: "bill w3 = bill w" using b b2 contract_quiet(4)[OF c w3] False by auto
    show ?thesis
    proof (cases gone)
      case True
      then show ?thesis using Suc.prems t w2 w3 False same by (auto simp: Let_def d'_def)
    next
      case gn: False
      have "attempts N L payload stream limit endpoint k (n + 1) o1 t1 w3 = (s, oc, t', w')"
        using Suc.prems t w2 w3 False gn by (auto simp: Let_def d'_def)
      from Suc.IH[OF this] show ?thesis using same by (cases k) (use \<open>attempts N L payload stream limit endpoint k (n + 1) o1 t1 w3 = (s, oc, t', w')\<close> in auto)
    qed
  qed
qed simp

lemma do_call_cases:
  assumes "DoCall N L payload stream limit c w = (res, c', w')"
  obtains (refused) ae where "w' = w" "res = Inl (callFailure (Some ae) DefinitelyUnbilled)"
      "cl_breaker c' = cl_breaker c \<or> cl_breaker c' = snd (brk_state L (cl_breaker c) w) \<or>
         (\<exists>b. b = snd (brk_state L (cl_breaker c) w) \<and> cl_breaker c' = snd (brk_admit L b w))"
      "cl_transport c' = cl_transport c"
  | (tried) lim b b1 gen s oc where "b = snd (brk_state L (cl_breaker c) w)" "brk_admit L b w = (Inr gen, b1)"
      "attempts N L payload stream lim (cl_endpoint c) maxAttempts 1 (resolve classOK) (cl_transport c) w = (s, oc, cl_transport c', w')"
      "res = call_result s oc"
      "cl_breaker c' = brk_done L gen (oc_class oc = classOK \<or> \<not> breakerFlt oc) b1 w'"
proof -
  define lim where "lim = (if limit \<le> 0 then cl_timeout c else limit)"
  note eq = assms[unfolded DoCall_def, folded lim_def, unfolded do_call_def]
  obtain st b where st: "brk_state L (cl_breaker c) w = (st, b)" by fastforce
  obtain ad b1 where ad: "brk_admit L b w = (ad, b1)" by fastforce
  obtain s oc t w1 where a: "attempt N L payload stream lim (cl_endpoint c) (cl_transport c) w = (s, oc, t, w1)"
    by (cases "attempt N L payload stream lim (cl_endpoint c) (cl_transport c) w") auto
  show ?thesis
  proof (cases "cl_endpoint c = [] \<or> pool (cl_transport c) = []")
    case True
    with eq show ?thesis by (intro that(1)) auto
  next
    case ok: False
    show ?thesis
    proof (cases "st = BreakerOpen")
      case True
      with eq ok st show ?thesis by (intro that(1)) auto
    next
      case open_: False
      show ?thesis
      proof (cases ad)
        case (Inl x)
        with eq ok st ad open_ show ?thesis by (intro that(1)) auto
      next
        case (Inr gen)
        with eq ok st ad open_ a show ?thesis by (intro that(2)[of b gen b1 lim s oc]) (auto simp: attempt_def)
      qed
    qed
  qed
qed

text \<open>C28. A call costs at most one charge, and what it reports as definitely unbilled has cost none, under the
  provider's billing terms. This holds over all attempts of the call, whichever keys, retries, timeouts,
  cancellations and breakers are involved.
\<close>

theorem one_charge_per_call:
  assumes "provider_contract N bill" and "DoCall N L payload stream limit c w = (res, c', w')"
  shows "bill w \<le> bill w' \<and> bill w' \<le> bill w + 1 \<and>
    (case res of Inl f \<Rightarrow> MayHaveCharged (Exposure f) \<or> bill w' = bill w | Inr st \<Rightarrow> True)"
  using assms(2)
proof (cases rule: do_call_cases)
  case (refused ae)
  then show ?thesis by simp
next
  case (tried lim b b1 gen s oc)
  note b = attempts_bill[OF assms(1) tried(3)]
  then show ?thesis
    by (auto simp: tried(4) call_result_def callFailure_def MayHaveCharged_def maxAttempts_def split: option.split)
qed

section \<open>How long a call can take\<close>

text \<open>Two more counters of the outside: the requests sent and the time spent between attempts. Random numbers stay
  below their bound.\<close>

definition metered :: "'w net \<Rightarrow> ('w \<Rightarrow> nat) \<Rightarrow> ('w \<Rightarrow> int) \<Rightarrow> bool" where
  "metered N sent slept \<longleftrightarrow>
     (\<forall>q w. sent (snd (net_send N q w)) = sent w + 1 \<and> slept (snd (net_send N q w)) = slept w) \<and>
     (\<forall>w. sent (snd (net_now N w)) = sent w \<and> slept (snd (net_now N w)) = slept w) \<and>
     (\<forall>a w. sent (snd (net_peek N a w)) = sent w \<and> slept (snd (net_peek N a w)) = slept w) \<and>
     (\<forall>n w. sent (snd (net_rand N n w)) = sent w \<and> slept (snd (net_rand N n w)) = slept w \<and>
        (0 < n \<longrightarrow> 0 \<le> fst (net_rand N n w) \<and> fst (net_rand N n w) < n)) \<and>
     (\<forall>d w. sent (snd (net_wait N d w)) = sent w \<and> slept (snd (net_wait N d w)) = slept w + d)"

lemma metered_simps:
  assumes "metered N sent slept"
  shows "net_now N w = (x, w') \<Longrightarrow> sent w' = sent w \<and> slept w' = slept w"
    "net_peek N a w = (y, w') \<Longrightarrow> sent w' = sent w \<and> slept w' = slept w"
    "net_send N q w = (z, w') \<Longrightarrow> sent w' = sent w + 1 \<and> slept w' = slept w"
    "net_wait N d w = (u, w') \<Longrightarrow> sent w' = sent w \<and> slept w' = slept w + d"
    "net_rand N n w = (x, w') \<Longrightarrow> sent w' = sent w \<and> slept w' = slept w \<and> (0 < n \<longrightarrow> 0 \<le> x \<and> x < n)"
  using assms unfolding metered_def by (metis fst_conv snd_conv)+

lemma RoundTrip_metered:
  assumes m: "metered N sent slept" and r: "RoundTrip N L q t w = (res, t', w')"
  shows "sent w' \<le> sent w + 1 \<and> slept w' = slept w"
  using r
proof (cases rule: RoundTrip_cases)
  case (local now e)
  then show ?thesis using metered_simps(1)[OF m local(1)] by simp
next
  case (failed now w1 i t1 gen b e)
  then show ?thesis using metered_simps(1)[OF m failed(1)] metered_simps(3)[OF m failed(4)] by simp
next
  case (answered now w1 i t1 gen b a)
  then show ?thesis using metered_simps(1)[OF m answered(1)] metered_simps(3)[OF m answered(4)] by simp
qed

lemma tryOnce_metered:
  assumes m: "metered N sent slept" and t: "tryOnce N L payload stream limit endpoint t w = (s, oc, ra, t', w')"
  shows "sent w' \<le> sent w + 1 \<and> slept w' = slept w"
  using t
proof (cases rule: tryOnce_cases)
  case (error q err)
  then show ?thesis using RoundTrip_metered[OF m error(1)] by simp
next
  case (status q r w1 now)
  then show ?thesis using RoundTrip_metered[OF m status(1)] metered_simps(1)[OF m status(2)] by simp
next
  case (body q r w1 pe)
  then show ?thesis using RoundTrip_metered[OF m body(1)] metered_simps(2)[OF m body(4)] by simp
qed simp

lemma backoff_bounds:
  assumes "metered N sent slept" "backoff N n w = (d, w')"
  shows "0 \<le> d \<and> d \<le> retry_cap \<and> sent w' = sent w \<and> slept w' = slept w"
proof -
  define d0 where "d0 = (let d = wrap64 (retry_base * 2 ^ (n - 1)) in if d > retry_cap \<or> d \<le> 0 then retry_cap else d)"
  have "0 < d0 + 1" "d0 \<le> retry_cap" by (auto simp: d0_def Let_def retry_cap_def second_def)
  moreover have "net_rand N (d0 + 1) w = (d, w')" using assms(2) by (simp add: backoff_def d0_def Let_def)
  ultimately show ?thesis using metered_simps(5)[OF assms(1)] by force
qed

lemma attempts_metered:
  assumes m: "metered N sent slept"
  shows "attempts N L payload stream limit endpoint k n lo t w = (s, oc, t', w') \<Longrightarrow>
    sent w' \<le> sent w + k \<and> slept w \<le> slept w' \<and> (1 \<le> n \<longrightarrow> n \<le> maxAttempts \<longrightarrow> slept w' \<le> slept w + int (maxAttempts - n) * retry_cap)"
proof (induction k arbitrary: n lo t w)
  case (Suc k)
  obtain s1 o1 ra t1 w1 where t: "tryOnce N L payload stream limit endpoint t w = (s1, o1, ra, t1, w1)"
    by (cases "tryOnce N L payload stream limit endpoint t w") auto
  note b = tryOnce_metered[OF m t]
  have cap: "0 \<le> retry_cap" by (simp add: retry_cap_def second_def)
  show ?case
  proof (cases "oc_class o1 = classOK \<or> \<not> retryable o1 \<or> n = maxAttempts")
    case True
    then show ?thesis using Suc.prems t b cap by (auto split: if_splits)
  next
    case False
    obtain d w2 where w2: "backoff N n w1 = (d, w2)" by fastforce
    note bo = backoff_bounds[OF m w2]
    define d' where "d' = (if (if ra > d then ra else d) > retry_cap then retry_cap else (if ra > d then ra else d))"
    have d': "0 \<le> d'" "d' \<le> retry_cap" using bo cap by (auto simp: d'_def)
    obtain gone w3 where w3: "net_wait N d' w2 = (gone, w3)" by fastforce
    note wt = metered_simps(4)[OF m w3]
    show ?thesis
    proof (cases gone)
      case True
      have e: "w' = w3" using Suc.prems t w2 w3 False True by (auto simp: Let_def d'_def)
      have "retry_cap \<le> int (maxAttempts - n) * retry_cap" if "n < maxAttempts"
        using that cap mult_right_mono[of 1 "int (maxAttempts - n)" retry_cap] by simp
      then show ?thesis using b bo wt d' e False cap by (cases "n < maxAttempts") auto
    next
      case gn: False
      have "attempts N L payload stream limit endpoint k (n + 1) o1 t1 w3 = (s, oc, t', w')"
        using Suc.prems t w2 w3 False gn by (auto simp: Let_def d'_def)
      note ih = Suc.IH[OF this]
      have "retry_cap + int (maxAttempts - (n + 1)) * retry_cap = int (maxAttempts - n) * retry_cap" if "n < maxAttempts"
        using that by (simp add: algebra_simps of_nat_diff)
      then show ?thesis using ih b bo wt d' False by (cases "n < maxAttempts") auto
    qed
  qed
qed (auto simp: retry_cap_def second_def)

text \<open>C31. A call sends at most three requests and waits at most six seconds between them, whatever the provider asks
  for in \<open>Retry-After\<close>.
\<close>

theorem call_is_bounded:
  assumes "metered N sent slept" and "DoCall N L payload stream limit c w = (res, c', w')"
  shows "sent w' \<le> sent w + 3 \<and> slept w \<le> slept w' \<and> slept w' \<le> slept w + 6 * second"
  using assms(2)
proof (cases rule: do_call_cases)
  case (refused ae)
  then show ?thesis by (simp add: second_def)
next
  case (tried lim b b1 gen s oc)
  then show ?thesis using attempts_metered[OF assms(1) tried(3)] by (simp add: maxAttempts_def retry_cap_def)
qed

section \<open>The process breaker\<close>

text \<open>An upstream in good order: it answers with a success or with a status that blames the request, the key or the
  load; every error it gives is the caller's own cancellation; and the timer does not fire.\<close>

definition in_good_order :: "'w net \<Rightarrow> bool" where
  "in_good_order N \<longleftrightarrow>
     (\<forall>q w. case net_send N q w of
        (Inl e, w') \<Rightarrow> is_canceled e \<and> net_canceled N w' \<and> (\<forall>d. net_timer N d w' \<noteq> Fired)
      | (Inr r, w') \<Rightarrow> 200 \<le> up_status r \<and> up_status r < 300 \<or> up_status r \<in> {400, 401, 403, 413, 422, 429}) \<and>
     (\<forall>r w. case net_peek N r w of
        (Some e, w') \<Rightarrow> is_canceled e \<and> net_canceled N w' \<and> (\<forall>d. net_timer N d w' \<noteq> Fired)
      | (None, w') \<Rightarrow> (\<forall>d. net_timer N d w' = Disarmed)) \<and>
     (\<forall>u. \<not> net_bad_request N u)"

lemma good_order:
  assumes "in_good_order N"
  shows "net_send N q w = (Inl e, w') \<Longrightarrow> is_canceled e \<and> net_canceled N w' \<and> net_timer N d w' \<noteq> Fired"
    and "net_send N q w = (Inr r, w') \<Longrightarrow>
      200 \<le> up_status r \<and> up_status r < 300 \<or> up_status r \<in> {400, 401, 403, 413, 422, 429}"
    and "net_peek N r w = (Some e, w') \<Longrightarrow> is_canceled e \<and> net_canceled N w' \<and> net_timer N d w' \<noteq> Fired"
    and "net_peek N r w = (None, w') \<Longrightarrow> net_timer N d w' = Disarmed"
proof -
  have s: "case net_send N q w of
        (Inl e, w') \<Rightarrow> is_canceled e \<and> net_canceled N w' \<and> (\<forall>d. net_timer N d w' \<noteq> Fired)
      | (Inr r, w') \<Rightarrow> 200 \<le> up_status r \<and> up_status r < 300 \<or> up_status r \<in> {400, 401, 403, 413, 422, 429}"
    and p: "case net_peek N r w of
        (Some e, w') \<Rightarrow> is_canceled e \<and> net_canceled N w' \<and> (\<forall>d. net_timer N d w' \<noteq> Fired)
      | (None, w') \<Rightarrow> (\<forall>d. net_timer N d w' = Disarmed)"
    using assms unfolding in_good_order_def by - (elim conjE, drule spec, drule spec, assumption)+
  from s show "net_send N q w = (Inl e, w') \<Longrightarrow> is_canceled e \<and> net_canceled N w' \<and> net_timer N d w' \<noteq> Fired"
    "net_send N q w = (Inr r, w') \<Longrightarrow>
      200 \<le> up_status r \<and> up_status r < 300 \<or> up_status r \<in> {400, 401, 403, 413, 422, 429}" by auto
  from p show "net_peek N r w = (Some e, w') \<Longrightarrow> is_canceled e \<and> net_canceled N w' \<and> net_timer N d w' \<noteq> Fired"
    "net_peek N r w = (None, w') \<Longrightarrow> net_timer N d w' = Disarmed" by auto
qed

lemma RoundTrip_good:
  assumes g: "in_good_order N" and r: "RoundTrip N L q t w = (res, t', w')"
  shows "case res of
      Inl (NetError e) \<Rightarrow> is_canceled e \<and> net_canceled N w' \<and> net_timer N d w' \<noteq> Fired
    | Inl _ \<Rightarrow> True
    | Inr r \<Rightarrow> 200 \<le> up_status r \<and> up_status r < 300 \<or> up_status r \<in> {400, 401, 403, 413, 422, 429}"
  using r
proof (cases rule: RoundTrip_cases)
  case (local now e)
  then show ?thesis by (auto split: rt_error.split)
next
  case (failed now w1 i t1 gen b e)
  then show ?thesis using good_order(1)[OF g failed(4)] by simp
next
  case (answered now w1 i t1 gen b a)
  then show ?thesis using good_order(2)[OF g answered(4)] by simp
qed

lemma tryOnce_good:
  assumes g: "in_good_order N" and t: "tryOnce N L payload stream limit endpoint t w = (s, oc, ra, t', w')"
  shows "\<not> breakerFlt oc"
  using t
proof (cases rule: tryOnce_cases)
  case unsent
  then show ?thesis using g by (auto simp: in_good_order_def)
next
  case (error q err)
  show ?thesis
  proof (cases err)
    case (NetError e)
    then show ?thesis
      using RoundTrip_good[OF g error(1), of "if limit \<le> 0 then 60 * second else limit"] error(3) by simp
  qed (use error(3) in auto)
next
  case (status q r w1 now)
  then show ?thesis using RoundTrip_good[OF g status(1)] by (auto simp: classifyStatus_def)
next
  case (body q r w1 pe)
  show ?thesis
  proof (cases pe)
    case None
    then show ?thesis using good_order(4)[OF g] body(4,6) by auto
  next
    case (Some e)
    then have "is_canceled e \<and> net_canceled N w' \<and> net_timer N (if limit \<le> 0 then 60 * second else limit) w' \<noteq> Fired"
      using good_order(3)[OF g] body(4) by blast
    then show ?thesis using body(6) Some by (simp add: classifyPeekErr_def)
  qed
qed

lemma attempts_good:
  assumes g: "in_good_order N"
  shows "attempts N L payload stream limit endpoint k n lo t w = (s, oc, t', w') \<Longrightarrow> \<not> breakerFlt lo \<Longrightarrow> \<not> breakerFlt oc"
proof (induction k arbitrary: n lo t w)
  case (Suc k)
  obtain s1 o1 ra t1 w1 where t: "tryOnce N L payload stream limit endpoint t w = (s1, o1, ra, t1, w1)"
    by (cases "tryOnce N L payload stream limit endpoint t w") auto
  note ok = tryOnce_good[OF g t]
  from Suc.prems(1) t ok show ?case
    by (auto simp: Let_def split: if_splits prod.splits dest: Suc.IH)
qed simp

text \<open>Calls one after another, each with its own payload and mode.\<close>

definition call_run ::
    "'w net \<Rightarrow> ('b, 'w) breaker_lib \<Rightarrow> (string \<times> bool \<times> int) list \<Rightarrow> 'b up_client \<times> 'w \<Rightarrow> 'b up_client \<times> 'w" where
  "call_run N L = fold (\<lambda>(payload, stream, limit) (c, w). snd (DoCall N L payload stream limit c w))"

text \<open>C29. No client can trip the breaker. While the upstream is in good order, no sequence of calls, however many are
  rejected for their size, rate limited, refused for their key or cancelled by their caller, takes the
  process breaker out of any set of states that asking it and successes keep it in.
\<close>

theorem client_cannot_trip:
  assumes "in_good_order N" and "P (cl_breaker c)"
    and keeps: "\<And>b w. P b \<Longrightarrow> P (snd (brk_state L b w))" "\<And>b w. P b \<Longrightarrow> P (snd (brk_admit L b w))"
      "\<And>b w g. P b \<Longrightarrow> P (brk_done L g True b w)"
  shows "P (cl_breaker (fst (call_run N L calls (c, w))))"
  using assms(2)
proof (induction calls arbitrary: c w)
  case (Cons x calls)
  obtain payload stream limit where x: "x = (payload, stream, limit)" by (cases x)
  obtain res c1 w1 where d: "DoCall N L payload stream limit c w = (res, c1, w1)"
    by (cases "DoCall N L payload stream limit c w") auto
  from d have "P (cl_breaker c1)"
  proof (cases rule: do_call_cases)
    case (refused ae)
    then show ?thesis using Cons.prems keeps(1,2) by auto
  next
    case (tried lim b b1 gen s oc)
    have "\<not> breakerFlt oc" by (rule attempts_good[OF assms(1) tried(3)]) simp
    moreover have "P b1" using keeps(2)[OF keeps(1)[OF Cons.prems], of w w] tried(1,2) by simp
    ultimately show ?thesis using tried(5) keeps(3) by simp
  qed
  then show ?case using Cons.IH by (simp add: call_run_def x d)
qed (simp add: call_run_def)

section \<open>The keys\<close>

lemma scan_frame:
  "scan_keys L now w is t = (pick, t') \<Longrightarrow> \<forall>i \<in> set is. i < length (pool t) \<Longrightarrow>
   length (pool t') = length (pool t) \<and> rr t' = rr t \<and>
   (\<forall>j < length (pool t). cooldownUntil (pool t' ! j) = cooldownUntil (pool t ! j) \<and> apiKey (pool t' ! j) = apiKey (pool t ! j)) \<and>
   (\<forall>i. pick = Some i \<longrightarrow> i < length (pool t) \<and> \<not> onCooldown now (pool t ! i))"
proof (induction L now w "is" t rule: scan_keys.induct)
  case (2 L now w i "is" t)
  obtain st b where s: "brk_state L (cb (pool t ! i)) w = (st, b)" by fastforce
  define t1 where "t1 = t\<lparr>pool := (pool t)[i := (pool t ! i)\<lparr>cb := b\<rparr>]\<rparr>"
  have i: "i < length (pool t)" using 2(4) by simp
  have t1: "length (pool t1) = length (pool t)" "rr t1 = rr t"
    "\<And>j. j < length (pool t) \<Longrightarrow> cooldownUntil (pool t1 ! j) = cooldownUntil (pool t ! j) \<and> apiKey (pool t1 ! j) = apiKey (pool t ! j)"
    using i by (simp_all add: t1_def nth_list_update)
  have cool: "onCooldown now (pool t1 ! j) = onCooldown now (pool t ! j)" if "j < length (pool t)" for j
    using t1(3) that by (simp add: onCooldown_def)
  show ?case
  proof (cases "onCooldown now (pool t ! i)")
    case True
    then show ?thesis using 2(1,3,4) by simp
  next
    case False
    show ?thesis
    proof (cases "st = BreakerOpen")
      case True
      then show ?thesis using False 2(2)[OF False s[symmetric] refl refl] 2(3,4) s t1 cool by (auto simp: t1_def[symmetric])
    next
      case closed: False
      then have "pick = Some i" "t' = t1" using 2(3) False s by (auto simp: t1_def)
      then show ?thesis using t1 i False by simp
    qed
  qed
qed simp

lemma scan_order_bound: "0 < n \<Longrightarrow> n < 2 ^ 64 \<Longrightarrow> i \<in> set (scan_order start n) \<Longrightarrow> i < n"
  by (auto simp: scan_order_def unat_mod unat_of_nat take_bit_nat_eq_self)

text \<open>A key that is on cooldown at an instant is never picked then, and picking leaves the cooldowns alone.\<close>

lemma pickKey_facts:
  assumes "pickKey L now w t = (pick, t')" "length (pool t) < 2 ^ 64"
  shows "length (pool t') = length (pool t)"
    "j < length (pool t) \<Longrightarrow> cooldownUntil (pool t' ! j) = cooldownUntil (pool t ! j)"
    "j < length (pool t) \<Longrightarrow> apiKey (pool t' ! j) = apiKey (pool t ! j)"
    "pick = Some i \<Longrightarrow> i < length (pool t)" "pick = Some i \<Longrightarrow> \<not> onCooldown now (pool t ! i)"
proof -
  have "length (pool t') = length (pool t) \<and>
     (\<forall>j < length (pool t). cooldownUntil (pool t' ! j) = cooldownUntil (pool t ! j) \<and> apiKey (pool t' ! j) = apiKey (pool t ! j)) \<and>
     (\<forall>i. pick = Some i \<longrightarrow> i < length (pool t) \<and> \<not> onCooldown now (pool t ! i))"
  proof (cases "pool t = []")
    case False
    then have "scan_keys L now w (scan_order (rr t) (length (pool t))) (t\<lparr>rr := rr t + 1\<rparr>) = (pick, t')"
      using assms(1) by (simp add: pickKey_def Let_def)
    from scan_frame[OF this] show ?thesis using False scan_order_bound[OF _ assms(2)] by simp
  qed (use assms(1) in \<open>auto simp: pickKey_def\<close>)
  then show "length (pool t') = length (pool t)"
    "j < length (pool t) \<Longrightarrow> cooldownUntil (pool t' ! j) = cooldownUntil (pool t ! j)"
    "j < length (pool t) \<Longrightarrow> apiKey (pool t' ! j) = apiKey (pool t ! j)"
    "pick = Some i \<Longrightarrow> i < length (pool t)" "pick = Some i \<Longrightarrow> \<not> onCooldown now (pool t ! i)" by blast+
qed

text \<open>What any number of round trips, of any requests at any times, can do to the pool.\<close>

inductive pool_later :: "'w net \<Rightarrow> ('b, 'w) breaker_lib \<Rightarrow> 'b transport \<Rightarrow> 'b transport \<Rightarrow> bool"
  for N :: "'w net" and L :: "('b, 'w) breaker_lib" and t :: "'b transport" where
  start: "pool_later N L t t"
| trip: "pool_later N L t t1 \<Longrightarrow> RoundTrip N L q t1 w = (res, t2, w') \<Longrightarrow> pool_later N L t t2"

definition rested :: "int \<Rightarrow> nat \<Rightarrow> 'b transport \<Rightarrow> bool" where
  "rested u i t = (i < length (pool t) \<and> (case cooldownUntil (pool t ! i) of None \<Rightarrow> False | Some v \<Rightarrow> u \<le> v))"

lemma account_cool:
  "(case cooldownUntil k of None \<Rightarrow> False | Some v \<Rightarrow> u \<le> v) \<Longrightarrow>
   (case cooldownUntil (snd (accountLevelFault N r now k)) of None \<Rightarrow> False | Some v \<Rightarrow> u \<le> v)"
  by (auto simp: accountLevelFault_def setCooldown_def Let_def split: option.splits)

lemma RoundTrip_rested:
  assumes r: "RoundTrip N L q t w = (res, t', w')" and n: "length (pool t) < 2 ^ 64"
  shows "length (pool t') = length (pool t) \<and> (rested u i t \<longrightarrow> rested u i t')"
  using r
proof (cases rule: RoundTrip_cases)
  case (local now e)
  obtain now' w1 pick t1 where p: "net_now N w = (now', w1)" "pickKey L now' w1 t = (pick, t1)" by fastforce
  note f = pickKey_facts[OF p(2) n]
  have r1: "rested u i t \<longrightarrow> rested u i t1" using f(1,2) by (simp add: rested_def)
  consider "t' = t" | "t' = t1" | j b where "t' = t1\<lparr>pool := (pool t1)[j := (pool t1 ! j)\<lparr>cb := b\<rparr>]\<rparr>" "j < length (pool t)"
    using r p f(4) local(2,3) by (auto simp: RoundTrip_def Let_def split: if_splits option.splits prod.splits sum.splits)
  then show ?thesis
  proof cases
    case 3
    then show ?thesis using r1 f(1) by (auto simp: rested_def nth_list_update)
  qed (use r1 f(1) in auto)
next
  case (failed now w1 j t1 gen b e)
  note f = pickKey_facts[OF failed(2) n]
  have r1: "rested u i t \<longrightarrow> rested u i t1" using f(1,2) by (simp add: rested_def)
  then show ?thesis using f(1,4) unfolding failed(6) by (auto simp: rested_def nth_list_update)
next
  case (answered now w1 j t1 gen b a)
  note f = pickKey_facts[OF answered(2) n]
  have r1: "rested u i t \<longrightarrow> rested u i t1" using f(1,2) by (simp add: rested_def)
  then show ?thesis
    using f(1,4) account_cool[where k = "pool t1 ! j" and u = u and N = N and r = a and now = now] unfolding answered(6) by (auto simp: rested_def nth_list_update)
qed

text \<open>C30. A refused key rests. When the provider answers 401 or 403, the request carried the key the pool picked, and for
  ten minutes from the moment of that request no further request uses that key, whatever is sent meanwhile,
  by whom, and however it is answered.
\<close>

theorem refused_key_rests:
  assumes "RoundTrip N L q t w = (Inr r, t1, w1)" "up_status r = 401 \<or> up_status r = 403" "length (pool t) < 2 ^ 64"
    and "pool_later N L t1 t2" "net_now N w = (now, w0)" "now' < now + 600 * second"
  shows "\<exists>i < length (pool t). fst (pickKey L now w0 t) = Some i \<and>
    fst (net_send N (q\<lparr>post_auth := ''Bearer '' @ apiKey (pool t ! i)\<rparr>) w0) = Inr r \<and>
    fst (pickKey L now' w' t2) \<noteq> Some i"
  using assms(1)
proof (cases rule: RoundTrip_cases)
  case (answered now1 w2 i t0 gen b a)
  have n: "now1 = now" "w2 = w0" "a = r" using answered(1,5) assms(5) by simp_all
  note f = pickKey_facts[OF answered(2) assms(3)]
  have i: "i < length (pool t0)" "i < length (pool t)" "apiKey (pool t0 ! i) = apiKey (pool t ! i)" using f by auto
  have "rested (now + 600 * second) i t1"
    using i assms(2) unfolding answered(6) n by (auto simp: rested_def accountLevelFault_def setCooldown_def split: option.splits)
  moreover have len: "length (pool t1) < 2 ^ 64" using RoundTrip_rested[OF assms(1,3)] assms(3) by simp
  have later: "rested u i t1 \<longrightarrow> rested u i t2 \<and> length (pool t2) < 2 ^ 64" for u
    using assms(4)
  proof induction
    case (trip t1 q w res t2 w')
    then show ?case using RoundTrip_rested[OF trip(2)] by auto
  qed (use len in simp)
  ultimately have "rested (now + 600 * second) i t2" "length (pool t2) < 2 ^ 64" by blast+
  moreover obtain pick t3 where p: "pickKey L now' w' t2 = (pick, t3)" by fastforce
  ultimately have "fst (pickKey L now' w' t2) \<noteq> Some i"
    using pickKey_facts(5)[OF p] assms(6) by (auto simp: rested_def onCooldown_def split: option.splits)
  then show ?thesis using answered(2,4) i n by (intro exI[of _ i]) simp
qed simp_all

text \<open>A free key is found, wherever the cursor stands, as long as the cursor does not wrap during the scan.\<close>

lemma scan_finds:
  "scan_keys L now w is t = (None, t') \<Longrightarrow> \<forall>i \<in> set is. i < length (pool t) \<Longrightarrow> distinct is \<Longrightarrow>
   \<forall>i \<in> set is. onCooldown now (pool t ! i) \<or> fst (brk_state L (cb (pool t ! i)) w) = BreakerOpen"
proof (induction L now w "is" t rule: scan_keys.induct)
  case (2 L now w i "is" t)
  obtain st b where s: "brk_state L (cb (pool t ! i)) w = (st, b)" by fastforce
  show ?case
  proof (cases "onCooldown now (pool t ! i)")
    case True
    then show ?thesis using 2(1,3,4,5) by auto
  next
    case False
    then have o: "st = BreakerOpen" using 2(3) s by (auto simp: Let_def split: if_splits)
    have "scan_keys L now w is (t\<lparr>pool := (pool t)[i := (pool t ! i)\<lparr>cb := b\<rparr>]\<rparr>) = (None, t')" using 2(3) False s o by simp
    note ih = 2(2)[OF False s[symmetric] refl refl o this]
    have "onCooldown now (pool t ! j) \<or> fst (brk_state L (cb (pool t ! j)) w) = BreakerOpen" if "j \<in> set is" for j
    proof -
      have "i \<noteq> j" using 2(5) that by auto
      then show ?thesis using ih 2(4,5) that by (auto dest: bspec[where x = j])
    qed
    then show ?thesis using s o by auto
  qed
qed simp

lemma scan_order_all:
  assumes "unat start + n \<le> 2 ^ 64" "0 < n" "n < 2 ^ 64"
  shows "distinct (scan_order start n)" "set (scan_order start n) = {..<n}"
proof -
  have e: "unat ((start + of_nat i) mod of_nat n) = (unat start + i) mod n" if "i < n" for i
  proof -
    have "unat (start + of_nat i :: 64 word) = unat start + i"
      using that assms by (simp add: unat_word_ariths unat_of_nat take_bit_nat_eq_self)
    then show ?thesis using assms(3) by (simp add: unat_mod unat_of_nat take_bit_nat_eq_self)
  qed
  have inj: "i = j" if "i < n" "j < n" "(unat start + i) mod n = (unat start + j) mod n" for i j
  proof -
    have le: "y \<le> x" if m: "(unat start + x) mod n = (unat start + y) mod n" and "y < n" for x y
    proof (rule ccontr)
      assume lt: "\<not> y \<le> x"
      then have "n dvd (y - x)" using m mod_eq_dvd_iff_nat[of "unat start + x" "unat start + y" n] by simp
      then have "n \<le> y - x" using lt dvd_imp_le[of n "y - x"] by simp
      then show False using lt that(2) by simp
    qed
    show ?thesis using le[OF that(3,2)] le[OF that(3)[symmetric] that(1)] by simp
  qed
  show d: "distinct (scan_order start n)"
    unfolding scan_order_def distinct_map
  proof (intro conjI inj_onI)
    fix i j assume "i \<in> set [0..<n]" "j \<in> set [0..<n]"
      and eq: "unat ((start + of_nat i) mod of_nat n) = unat ((start + of_nat j) mod of_nat n)"
    then have l: "i < n" "j < n" by simp_all
    show "i = j" using eq unfolding e[OF l(1)] e[OF l(2)] by (rule inj[OF l])
  qed simp
  have "set (scan_order start n) \<subseteq> {..<n}" using scan_order_bound[OF assms(2,3)] by auto
  moreover have "Finite_Set.card (set (scan_order start n)) = n"
    using distinct_card[OF d] by (simp add: scan_order_def)
  ultimately show "set (scan_order start n) = {..<n}" by (intro card_subset_eq) simp_all
qed

theorem free_key_is_found:
  assumes "unat (rr t) + length (pool t) \<le> 2 ^ 64" "length (pool t) < 2 ^ 64"
    and "i < length (pool t)" "\<not> onCooldown now (pool t ! i)" "fst (brk_state L (cb (pool t ! i)) w) \<noteq> BreakerOpen"
  shows "fst (pickKey L now w t) \<noteq> None"
proof
  assume none: "fst (pickKey L now w t) = None"
  let ?n = "length (pool t)"
  have n: "0 < ?n" using assms(3) by linarith
  obtain t' where "scan_keys L now w (scan_order (rr t) ?n) (t\<lparr>rr := rr t + 1\<rparr>) = (None, t')"
    using none n by (cases "scan_keys L now w (scan_order (rr t) ?n) (t\<lparr>rr := rr t + 1\<rparr>)") (auto simp: pickKey_def Let_def)
  from scan_finds[OF this] show False using scan_order_all[OF assms(1) n assms(2)] assms(3-5) by auto
qed

text \<open>A \<open>Retry-After\<close> of 292 years and more comes out negative, so the key that sent it is not paused.\<close>

theorem retry_after_wraps:
  "parseRetryAfter N ''9223372037'' now < 0 \<and>
   snd (accountLevelFault N \<lparr>up_status = 429, up_retry_after = ''9223372037'', up_body = []\<rparr> now k) = k"
  by (simp add: parseRetryAfter_def accountLevelFault_def parse_int_def parse_uint_def char_digit_def is_int64_def
      MinInt64_def MaxInt64_def second_def wrap64_def Let_def)

end
