(* ===== verification/Upstream_Witness.thy ===== *)
theory Upstream_Witness
  imports Upstream_Props
begin

text \<open>
  A scripted provider and a breaker that counts failures, and each property of the upstream client applied to calls
  through them.
\<close>

record script =
  sc_time :: int
  sc_replies :: "up_response list"
  sc_bill :: nat
  sc_sent :: nat
  sc_slept :: int

definition reply :: "int \<Rightarrow> up_response" where
  "reply st = \<lparr>up_status = st, up_retry_after = [], up_body = []\<rparr>"

text \<open>The provider answers from its script, then times out; it charges whatever is not an explicit refusal.\<close>

definition script_net :: "script net" where
  "script_net =
     \<lparr>net_now = (\<lambda>w. (sc_time w, w\<lparr>sc_time := sc_time w + 1\<rparr>)),
      net_send = (\<lambda>q w. case sc_replies w of
          [] \<Rightarrow> (Inl \<lparr>is_canceled = False, is_deadline = False, is_net_timeout = True\<rparr>,
                 w\<lparr>sc_bill := sc_bill w + 1, sc_sent := sc_sent w + 1\<rparr>)
        | r # rs \<Rightarrow> (Inr r, w\<lparr>sc_replies := rs, sc_sent := sc_sent w + 1,
                 sc_bill := sc_bill w + (if 300 \<le> up_status r \<and> up_status r < 500 then 0 else 1)\<rparr>)),
      net_timer = (\<lambda>d w. Disarmed), net_canceled = (\<lambda>w. False), net_peek = (\<lambda>r w. (None, w)),
      net_rand = (\<lambda>n w. (0, w)), net_wait = (\<lambda>d w. (False, w\<lparr>sc_slept := sc_slept w + d\<rparr>)),
      net_bad_request = (\<lambda>u. False), http_date = (\<lambda>s. None), error_object = (\<lambda>s. (True, [])), error_array = (\<lambda>s. (True, []))\<rparr>"

definition count_lib :: "(nat, 'w) breaker_lib" where
  "count_lib =
     \<lparr>brk_new = (\<lambda>s. 0), brk_state = (\<lambda>b w. (BreakerClosed, b)), brk_admit = (\<lambda>b w. (Inr 0, b)),
      brk_done = (\<lambda>g ok b w. if ok then b else b + 1)\<rparr>"

definition two_keys :: "nat up_client" where
  "two_keys = \<lparr>cl_endpoint = ''https://p'', cl_timeout = 0,
     cl_transport = \<lparr>pool = [\<lparr>ks_id = 0, apiKey = ''a'', cb = 0, cooldownUntil = None\<rparr>,
                              \<lparr>ks_id = 1, apiKey = ''b'', cb = 0, cooldownUntil = None\<rparr>], rr = 0\<rparr>,
     cl_breaker = 0\<rparr>"

definition script_of :: "up_response list \<Rightarrow> script" where
  "script_of rs = \<lparr>sc_time = 0, sc_replies = rs, sc_bill = 0, sc_sent = 0, sc_slept = 0\<rparr>"

lemma script_contract: "provider_contract script_net sc_bill"
  by (auto simp: provider_contract_def script_net_def split: list.split)

lemma script_metered: "metered script_net sc_sent sc_slept"
  by (auto simp: metered_def script_net_def split: list.split)

lemma order_two: "scan_order 0 (Suc (Suc 0)) = [0, 1]" "scan_order 1 (Suc (Suc 0)) = [1, 0]"
  by (simp_all add: scan_order_def)

lemma three_attempts: "maxAttempts = Suc (Suc (Suc 0))"
  by (simp add: maxAttempts_def)

lemmas call_eval =
  DoCall_def do_call_def attempt_def three_attempts tryOnce_def RoundTrip_def pickKey_def order_two Let_def
  onCooldown_def setCooldown_def accountLevelFault_def classifyStatus_def parseRetryAfter_def backoff_def second_def
  millisecond_def retry_base_def retry_cap_def call_result_def callFailure_def

text \<open>The first key is refused, the second answers: one charge for two requests.\<close>

lemma failover:
  "\<exists>c' w'. DoCall script_net count_lib ''{}'' False 0 two_keys (script_of [reply 401, reply 200]) = (Inr (reply 200), c', w') \<and>
     sc_bill w' = 1 \<and> sc_sent w' = 2"
  by (simp add: call_eval script_net_def count_lib_def two_keys_def script_of_def reply_def wrap64_def)

theorem one_charge_per_call_witness:
  "case DoCall script_net count_lib ''{}'' False 0 two_keys (script_of [reply 401, reply 200]) of
     (res, c', w') \<Rightarrow> sc_bill w' \<le> 1 \<and> sc_sent w' = 2"
proof -
  from failover obtain c' w' where
    d: "DoCall script_net count_lib ''{}'' False 0 two_keys (script_of [reply 401, reply 200]) = (Inr (reply 200), c', w')"
    and "sc_sent w' = 2" by blast
  with one_charge_per_call[OF script_contract d] show ?thesis by (simp add: script_of_def)
qed

theorem call_is_bounded_witness:
  "case DoCall script_net count_lib ''{}'' False 0 two_keys (script_of [reply 401, reply 200]) of
     (res, c', w') \<Rightarrow> sc_slept w' \<le> 6000000000"
proof -
  from failover obtain c' w' where
    d: "DoCall script_net count_lib ''{}'' False 0 two_keys (script_of [reply 401, reply 200]) = (Inr (reply 200), c', w')"
    by blast
  with call_is_bounded[OF script_metered d] show ?thesis by (simp add: script_of_def second_def)
qed

text \<open>A provider that rejects every other request as too long, and limits the rest.\<close>

definition grumpy_net :: "nat net" where
  "grumpy_net =
     \<lparr>net_now = (\<lambda>w. (0, w)), net_send = (\<lambda>q w. (Inr (reply (if even w then 400 else 429)), w + 1)),
      net_timer = (\<lambda>d w. Disarmed), net_canceled = (\<lambda>w. False), net_peek = (\<lambda>r w. (None, w)),
      net_rand = (\<lambda>n w. (0, w)), net_wait = (\<lambda>d w. (False, w)), net_bad_request = (\<lambda>u. False),
      http_date = (\<lambda>s. None), error_object = (\<lambda>s. (True, [])), error_array = (\<lambda>s. (True, []))\<rparr>"

theorem client_cannot_trip_witness:
  "cl_breaker (fst (call_run grumpy_net count_lib (replicate 50 (''{}'', True, 0)) (two_keys, 0))) = 0"
proof -
  have "in_good_order grumpy_net" by (simp add: in_good_order_def grumpy_net_def reply_def)
  moreover have "cl_breaker two_keys = 0" by (simp add: two_keys_def)
  ultimately show ?thesis
    by (rule client_cannot_trip[where P = "\<lambda>b. b = 0"]) (simp_all add: count_lib_def)
qed

text \<open>The key that was refused is not the one the pool picks nine minutes later; the other one is.\<close>

theorem refused_key_rests_witness:
  "\<exists>t1 w1. RoundTrip script_net count_lib \<lparr>post_url = [], post_accept = [], post_auth = [], post_body = []\<rparr>
       (cl_transport two_keys) (script_of [reply 403]) = (Inr (reply 403), t1, w1) \<and>
     fst (pickKey count_lib (540 * second) w1 t1) \<noteq> Some 0 \<and> fst (pickKey count_lib (540 * second) w1 t1) \<noteq> None"
proof -
  let ?q = "\<lparr>post_url = [], post_accept = [], post_auth = [], post_body = []\<rparr>"
  obtain t1 w1 where r: "RoundTrip script_net count_lib ?q (cl_transport two_keys) (script_of [reply 403]) = (Inr (reply 403), t1, w1)"
    and o: "fst (pickKey count_lib (540 * second) w1 t1) \<noteq> None"
    by (simp add: call_eval script_net_def count_lib_def two_keys_def script_of_def reply_def)
  have n: "net_now script_net (script_of [reply 403]) = (0, (script_of [reply 403])\<lparr>sc_time := 1\<rparr>)"
    by (simp add: script_net_def script_of_def)
  have p: "fst (pickKey count_lib 0 ((script_of [reply 403])\<lparr>sc_time := 1\<rparr>) (cl_transport two_keys)) = Some 0"
    by (simp add: call_eval count_lib_def two_keys_def)
  have "fst (pickKey count_lib (540 * second) w1 t1) \<noteq> Some 0"
    using refused_key_rests[OF r _ _ pool_later.start n, of "540 * second" w1] p
    by (auto simp: reply_def two_keys_def second_def)
  with r o show ?thesis by blast
qed

theorem free_key_is_found_witness:
  "fst (pickKey count_lib 0 () (cl_transport two_keys)) \<noteq> None"
  by (rule free_key_is_found[where i = 1]) (simp_all add: two_keys_def onCooldown_def count_lib_def)

end
