(* ===== verification/Json_Text.thy ===== *)
theory Json_Text
  imports Wire
begin

text \<open>
  JSON text as \<open>encoding/json\<close> reads it: the scanner, the tree it decodes to, in which every value keeps its own
  text (a \<open>RawMessage\<close>), and the token walk over one object (\<open>Decoder.Token\<close>, \<open>More\<close>, \<open>Decode\<close>). Texts are valid
  UTF-8, as the callers check.
\<close>

section \<open>Trees\<close>

datatype jraw = Jv (jv_text: string) (jv_node: jnode)
  and jnode = NNull | NBool bool | NNum | NStr string | NArr "jraw list" | NObj "(string \<times> jraw) list"

definition maxNestingDepth :: int where "maxNestingDepth = 10000"

fun jdepth :: "jraw \<Rightarrow> nat" where
  "jdepth (Jv t (NArr vs)) = Suc (foldr (\<lambda>v. max (jdepth v)) vs 0)"
| "jdepth (Jv t (NObj ms)) = Suc (foldr (\<lambda>m. max (jdepth (snd m))) ms 0)"
| "jdepth (Jv t _) = 0"

section \<open>Scanners\<close>

text \<open>A scanner returns a value and the rest of the text, or fails.\<close>

type_synonym 'a scanner = "string \<Rightarrow> ('a \<times> string) option"

definition scan_then :: "'a scanner \<Rightarrow> ('a \<Rightarrow> 'b scanner) \<Rightarrow> 'b scanner" where
  "scan_then f g s = (case f s of None \<Rightarrow> None | Some (v, r) \<Rightarrow> g v r)"

definition scan_return :: "'a \<Rightarrow> 'a scanner" where
  "scan_return v s = Some (v, s)"

definition scan_fail :: "'a scanner" where
  "scan_fail s = None"

definition scan_map :: "('a \<Rightarrow> 'b) \<Rightarrow> 'a scanner \<Rightarrow> 'b scanner" where
  "scan_map h f = scan_then f (\<lambda>v. scan_return (h v))"

definition peek :: "(char \<Rightarrow> 'a scanner) \<Rightarrow> 'a scanner" where
  "peek f s = (case s of [] \<Rightarrow> None | c # _ \<Rightarrow> f c s)"

definition eat :: "'a \<Rightarrow> 'a scanner" where
  "eat v s = (case s of [] \<Rightarrow> None | _ # r \<Rightarrow> Some (v, r))"

definition is_ws :: "char \<Rightarrow> bool" where
  "is_ws c \<longleftrightarrow> c \<in> {CHR '' '', CHR 0x09, CHR 0x0D, CHR 0x0A}"

definition skip_ws :: "string \<Rightarrow> string" where
  "skip_ws = dropWhile is_ws"

definition spaces :: "unit scanner" where
  "spaces s = Some ((), skip_ws s)"

definition with_text :: "'a scanner \<Rightarrow> (string \<times> 'a) scanner" where
  "with_text f s = (case f s of None \<Rightarrow> None | Some (v, r) \<Rightarrow> Some ((take (length s - length r) s, v), r))"

section \<open>Literals\<close>

definition hex_value :: "char \<Rightarrow> nat option" where
  "hex_value c =
     (let n = of_char c :: nat in
      if 48 \<le> n \<and> n \<le> 57 then Some (n - 48) else if 97 \<le> n \<and> n \<le> 102 then Some (n - 87)
      else if 65 \<le> n \<and> n \<le> 70 then Some (n - 55) else None)"

definition getu4 :: "nat scanner" where
  "getu4 s =
     (case s of
        a # b # c # d # r \<Rightarrow>
          (case (hex_value a, hex_value b, hex_value c, hex_value d) of
             (Some w, Some x, Some y, Some z) \<Rightarrow> Some (((w * 16 + x) * 16 + y) * 16 + z, r)
           | _ \<Rightarrow> None)
      | _ \<Rightarrow> None)"

definition simple_escapes :: "(char \<times> char) list" where
  "simple_escapes =
     [(CHR 0x22, CHR 0x22), (CHR 0x5C, CHR 0x5C), (CHR ''/'', CHR ''/''), (CHR ''b'', CHR 0x08), (CHR ''f'', CHR 0x0C),
      (CHR ''n'', CHR 0x0A), (CHR ''r'', CHR 0x0D), (CHR ''t'', CHR 0x09)]"

text \<open>A string literal after its opening quote: plain bytes and the code units of its \<open>\u\<close> escapes.\<close>

fun scan_units :: "(char + nat) list scanner" where
  "scan_units [] = None"
| "scan_units (c # s) =
     (if c = CHR 0x22 then Some ([], s)
      else if c = CHR 0x5C then
        (case s of
           [] \<Rightarrow> None
         | e # s' \<Rightarrow>
             if e = CHR ''u'' then
               (case getu4 s' of
                  None \<Rightarrow> None
                | Some (n, r) \<Rightarrow> map_option (\<lambda>(us, r). (Inr n # us, r)) (scan_units (drop 4 s')))
             else (case map_of simple_escapes e of
                     None \<Rightarrow> None
                   | Some b \<Rightarrow> map_option (\<lambda>(us, r). (Inl b # us, r)) (scan_units s')))
      else if of_char c < (32 :: nat) then None
      else map_option (\<lambda>(us, r). (Inl c # us, r)) (scan_units s))"

definition utf8_bytes :: "nat \<Rightarrow> string" where
  "utf8_bytes n =
     map char_of
       (if n < 128 then [n]
        else if n < 2048 then [192 + n div 64, 128 + n mod 64]
        else if n < 65536 then [224 + n div 4096, 128 + n div 64 mod 64, 128 + n mod 64]
        else [240 + n div 262144, 128 + n div 4096 mod 64, 128 + n div 64 mod 64, 128 + n mod 64])"

text \<open>Two halves of a surrogate pair join; half a pair becomes U+FFFD.\<close>

fun join_units :: "(char + nat) list \<Rightarrow> string" where
  "join_units [] = []"
| "join_units (Inl c # us) = c # join_units us"
| "join_units (Inr n # us) =
     (if n < 55296 \<or> 57343 < n then utf8_bytes n @ join_units us
      else case us of
          Inr m # us' \<Rightarrow>
            if n < 56320 \<and> 56320 \<le> m \<and> m \<le> 57343
            then utf8_bytes ((n - 55296) * 1024 + (m - 56320) + 65536) @ join_units us'
            else utf8_bytes 65533 @ join_units us
        | _ \<Rightarrow> utf8_bytes 65533 @ join_units us)"

definition string_literal :: "string scanner" where
  "string_literal = peek (\<lambda>c. if c = CHR 0x22 then scan_then (eat ()) (\<lambda>_. scan_map join_units scan_units) else scan_fail)"

definition is_digit :: "char \<Rightarrow> bool" where
  "is_digit c \<longleftrightarrow> char_digit c \<noteq> None"

definition digits :: "unit scanner" where
  "digits = peek (\<lambda>c. if is_digit c then (\<lambda>s. Some ((), dropWhile is_digit s)) else scan_fail)"

text \<open>An optional part: taken when the next character starts it.\<close>

definition option_part :: "(char \<Rightarrow> bool) \<Rightarrow> unit scanner \<Rightarrow> unit scanner" where
  "option_part P f s = (case s of [] \<Rightarrow> Some ((), s) | c # _ \<Rightarrow> if P c then f s else Some ((), s))"

definition number_tail :: "unit scanner" where
  "number_tail =
     scan_then (option_part (\<lambda>c. c = CHR ''.'') (scan_then (eat ()) (\<lambda>_. digits))) (\<lambda>_.
     option_part (\<lambda>c. c = CHR ''e'' \<or> c = CHR ''E'')
       (scan_then (eat ()) (\<lambda>_.
        scan_then (option_part (\<lambda>c. c = CHR ''+'' \<or> c = CHR ''-'') (eat ())) (\<lambda>_. digits))))"

definition number :: "unit scanner" where
  "number =
     scan_then (option_part (\<lambda>c. c = CHR ''-'') (eat ())) (\<lambda>_.
     scan_then (peek (\<lambda>c. if c = CHR ''0'' then eat () else digits)) (\<lambda>_. number_tail))"

definition word_literal :: "string \<Rightarrow> unit scanner" where
  "word_literal w s = (if is_prefix w s then Some ((), drop (length w) s) else None)"

section \<open>Values\<close>

definition object_scan :: "(string \<times> jraw) list scanner \<Rightarrow> jnode scanner" where
  "object_scan M =
     scan_then (eat ()) (\<lambda>_. scan_then spaces (\<lambda>_. peek (\<lambda>d.
       if d = CHR ''}'' then eat (NObj []) else scan_map NObj M)))"

definition array_scan :: "jraw list scanner \<Rightarrow> jnode scanner" where
  "array_scan E =
     scan_then (eat ()) (\<lambda>_. scan_then spaces (\<lambda>_. peek (\<lambda>d.
       if d = CHR '']'' then eat (NArr []) else scan_map NArr E)))"

definition node_scan :: "(string \<times> jraw) list scanner \<Rightarrow> jraw list scanner \<Rightarrow> char \<Rightarrow> jnode scanner" where
  "node_scan M E c =
     (if c = CHR 0x22 then scan_map NStr string_literal
      else if c = CHR ''{'' then object_scan M
      else if c = CHR ''['' then array_scan E
      else if c = CHR ''t'' then scan_map (\<lambda>_. NBool True) (word_literal ''true'')
      else if c = CHR ''f'' then scan_map (\<lambda>_. NBool False) (word_literal ''false'')
      else if c = CHR ''n'' then scan_map (\<lambda>_. NNull) (word_literal ''null'')
      else scan_map (\<lambda>_. NNum) number)"

text \<open>The scanner recurses at most once per byte: the length of the text is enough fuel (\<open>scan_value_fuel\<close>).\<close>

fun scan_value :: "nat \<Rightarrow> jraw scanner"
and scan_elems :: "nat \<Rightarrow> jraw list scanner"
and scan_members :: "nat \<Rightarrow> (string \<times> jraw) list scanner" where
  "scan_value 0 s = None"
| "scan_value (Suc n) s =
     scan_map (\<lambda>(t, nd). Jv t nd)
       (with_text (peek (node_scan (\<lambda>r. scan_members n r) (\<lambda>r. scan_elems n r)))) s"
| "scan_elems 0 s = None"
| "scan_elems (Suc n) s =
     scan_then (\<lambda>r. scan_value n r) (\<lambda>v. scan_then spaces (\<lambda>_. peek (\<lambda>c.
       if c = CHR '']'' then eat [v]
       else if c = CHR '','' then
         scan_then (eat ()) (\<lambda>_. scan_then spaces (\<lambda>_. scan_map ((#) v) (\<lambda>r. scan_elems n r)))
       else scan_fail))) s"
| "scan_members 0 s = None"
| "scan_members (Suc n) s =
     scan_then string_literal (\<lambda>k. scan_then spaces (\<lambda>_. peek (\<lambda>c.
       if c \<noteq> CHR '':'' then scan_fail
       else scan_then (eat ()) (\<lambda>_. scan_then spaces (\<lambda>_. scan_then (\<lambda>r. scan_value n r) (\<lambda>v.
         scan_then spaces (\<lambda>_. peek (\<lambda>d.
           if d = CHR ''}'' then eat [(k, v)]
           else if d = CHR '','' then
             scan_then (eat ()) (\<lambda>_. scan_then spaces (\<lambda>_. scan_map ((#) (k, v)) (\<lambda>r. scan_members n r)))
           else scan_fail)))))))) s"

text \<open>One value at the front of a text (\<open>Decoder.Decode\<close>), and a text that is one value (\<open>json.Unmarshal\<close>).\<close>

definition decode_value :: "jraw scanner" where
  "decode_value s =
     (case scan_value (length s) (skip_ws s) of
        None \<Rightarrow> None
      | Some (v, r) \<Rightarrow> if int (jdepth v) \<le> maxNestingDepth then Some (v, r) else None)"

definition decode_text :: "string \<Rightarrow> jraw option" where
  "decode_text s = (case decode_value s of None \<Rightarrow> None | Some (v, r) \<Rightarrow> if skip_ws r = [] then Some v else None)"

section \<open>Locality\<close>

text \<open>A scanner is local when its result depends on the text it consumes and on the one character after it.\<close>

definition same_head :: "string \<Rightarrow> string \<Rightarrow> bool" where
  "same_head r r' \<longleftrightarrow> (case r of [] \<Rightarrow> r' = [] | c # _ \<Rightarrow> (case r' of [] \<Rightarrow> False | d # _ \<Rightarrow> d = c))"

lemma same_head_append: "same_head r r' \<Longrightarrow> same_head (t @ r) (t @ r')"
  by (cases t) (auto simp: same_head_def)

lemma same_head_Cons: "same_head (c # s) r' \<Longrightarrow> \<exists>s'. r' = c # s'"
  by (auto simp: same_head_def split: list.splits)

lemma same_head_Nil [simp]: "same_head [] r \<longleftrightarrow> r = []"
  by (simp add: same_head_def)

lemma same_head_refl [simp]: "same_head r r"
  by (simp add: same_head_def split: list.split)

definition local_scan :: "'a scanner \<Rightarrow> bool" where
  "local_scan f \<longleftrightarrow> (\<forall>s v r. f s = Some (v, r) \<longrightarrow>
     (\<exists>t. s = t @ r \<and> (\<forall>r'. same_head r r' \<longrightarrow> f (t @ r') = Some (v, r'))))"

lemma local_scanI:
  "(\<And>s v r. f s = Some (v, r) \<Longrightarrow> \<exists>t. s = t @ r \<and> (\<forall>r'. same_head r r' \<longrightarrow> f (t @ r') = Some (v, r'))) \<Longrightarrow>
   local_scan f"
  by (auto simp: local_scan_def)

lemma local_scanD:
  "local_scan f \<Longrightarrow> f s = Some (v, r) \<Longrightarrow>
   \<exists>t. s = t @ r \<and> (\<forall>r'. same_head r r' \<longrightarrow> f (t @ r') = Some (v, r'))"
  unfolding local_scan_def by blast

lemma local_then [intro]:
  assumes f: "local_scan f" and g: "\<And>v. local_scan (g v)"
  shows "local_scan (scan_then f g)"
proof (rule local_scanI)
  fix s w r assume "scan_then f g s = Some (w, r)"
  then obtain v m where fs: "f s = Some (v, m)" and gm: "g v m = Some (w, r)"
    by (auto simp: scan_then_def split: option.splits)
  from local_scanD[OF f fs] obtain t where t: "s = t @ m" "\<And>m'. same_head m m' \<Longrightarrow> f (t @ m') = Some (v, m')"
    by auto
  from local_scanD[OF g gm] obtain u where u: "m = u @ r" "\<And>r'. same_head r r' \<Longrightarrow> g v (u @ r') = Some (w, r')"
    by auto
  have "scan_then f g ((t @ u) @ r') = Some (w, r')" if "same_head r r'" for r'
    using t(2)[of "u @ r'"] same_head_append[OF that, of u] u(2)[OF that] by (simp add: scan_then_def u(1))
  with t u show "\<exists>t. s = t @ r \<and> (\<forall>r'. same_head r r' \<longrightarrow> scan_then f g (t @ r') = Some (w, r'))"
    by (intro exI[of _ "t @ u"]) auto
qed

lemma local_if [intro]: "local_scan f \<Longrightarrow> local_scan g \<Longrightarrow> local_scan (if b then f else g)"
  by simp

lemma local_return [intro]: "local_scan (scan_return v)"
  by (rule local_scanI) (auto simp: scan_return_def)

lemma local_fail [intro]: "local_scan scan_fail"
  by (rule local_scanI) (simp add: scan_fail_def)

lemma local_map [intro]: "local_scan f \<Longrightarrow> local_scan (scan_map h f)"
  unfolding scan_map_def by auto

lemma local_eat [intro]: "local_scan (eat v)"
proof (rule local_scanI)
  fix s w r assume "eat v s = Some (w, r)"
  then obtain c where "s = [c] @ r" "w = v" by (auto simp: eat_def split: list.splits)
  then show "\<exists>t. s = t @ r \<and> (\<forall>r'. same_head r r' \<longrightarrow> eat v (t @ r') = Some (w, r'))"
    by (intro exI[of _ "[c]"]) (simp add: eat_def)
qed

lemma local_peek [intro]:
  assumes "\<And>c. local_scan (f c)"
  shows "local_scan (peek f)"
proof (rule local_scanI)
  fix s v r assume p: "peek f s = Some (v, r)"
  then obtain c s' where s: "s = c # s'" and fc: "f c s = Some (v, r)" by (auto simp: peek_def split: list.splits)
  from local_scanD[OF assms fc] obtain t where t: "s = t @ r" "\<And>r'. same_head r r' \<Longrightarrow> f c (t @ r') = Some (v, r')"
    by auto
  have "peek f (t @ r') = f c (t @ r')" if "same_head r r'" for r'
    using same_head_append[OF that, of t] s t(1) by (auto simp: peek_def dest!: same_head_Cons)
  with t show "\<exists>t. s = t @ r \<and> (\<forall>r'. same_head r r' \<longrightarrow> peek f (t @ r') = Some (v, r'))" by auto
qed

lemma local_option [intro]:
  assumes "local_scan f"
  shows "local_scan (option_part P f)"
proof (rule local_scanI)
  fix s v r assume o: "option_part P f s = Some (v, r)"
  show "\<exists>t. s = t @ r \<and> (\<forall>r'. same_head r r' \<longrightarrow> option_part P f (t @ r') = Some (v, r'))"
  proof (cases "\<exists>c s'. s = c # s' \<and> P c")
    case True
    then obtain c s' where s: "s = c # s'" "P c" by blast
    with o have "f s = Some (v, r)" by (simp add: option_part_def)
    from local_scanD[OF assms this] obtain t where t: "s = t @ r" "\<And>r'. same_head r r' \<Longrightarrow> f (t @ r') = Some (v, r')"
      by auto
    have "option_part P f (t @ r') = f (t @ r')" if "same_head r r'" for r'
      using same_head_append[OF that, of t] s t(1) by (auto simp: option_part_def dest!: same_head_Cons)
    with t show ?thesis by auto
  next
    case False
    with o have "r = s" by (auto simp: option_part_def split: list.splits if_splits)
    moreover have "option_part P f r' = Some (v, r')" if "same_head s r'" for r'
      using that False by (cases s) (auto simp: option_part_def dest!: same_head_Cons)
    ultimately show ?thesis by (intro exI[of _ "[]"]) simp
  qed
qed

lemma local_dropWhile:
  "\<exists>t. s = t @ dropWhile P s \<and> (\<forall>r'. same_head (dropWhile P s) r' \<longrightarrow> dropWhile P (t @ r') = r')"
proof (intro exI conjI allI impI)
  show "s = takeWhile P s @ dropWhile P s" by simp
  fix r' assume t: "same_head (dropWhile P s) r'"
  have "dropWhile P r' = r'"
    using t hd_dropWhile[of P s] by (cases "dropWhile P s") (auto dest!: same_head_Cons)
  then show "dropWhile P (takeWhile P s @ r') = r'"
    by (subst dropWhile_append2) (auto dest: set_takeWhileD)
qed

lemma local_spaces [intro]: "local_scan spaces"
  using local_dropWhile[of _ is_ws] by (intro local_scanI) (fastforce simp: spaces_def skip_ws_def)

lemma local_digits [intro]: "local_scan digits"
  unfolding digits_def
  using local_dropWhile[of _ is_digit] by (intro local_peek) (auto intro!: local_scanI simp: scan_fail_def)

lemma local_word [intro]: "local_scan (word_literal w)"
proof (rule local_scanI)
  fix s v r assume "word_literal w s = Some (v, r)"
  then have "s = w @ r" by (auto simp: word_literal_def is_prefix_def split: if_splits) (metis append_take_drop_id)
  then show "\<exists>t. s = t @ r \<and> (\<forall>r'. same_head r r' \<longrightarrow> word_literal w (t @ r') = Some (v, r'))"
    by (intro exI[of _ w]) (simp add: word_literal_def is_prefix_def)
qed

lemma local_text [intro]:
  assumes "local_scan f"
  shows "local_scan (with_text f)"
proof (rule local_scanI)
  fix s v r assume "with_text f s = Some (v, r)"
  then obtain w where w: "f s = Some (w, r)" "v = (take (length s - length r) s, w)"
    by (auto simp: with_text_def split: option.splits)
  from local_scanD[OF assms w(1)] obtain t where t: "s = t @ r" "\<And>r'. same_head r r' \<Longrightarrow> f (t @ r') = Some (w, r')"
    by auto
  with w show "\<exists>t. s = t @ r \<and> (\<forall>r'. same_head r r' \<longrightarrow> with_text f (t @ r') = Some (v, r'))"
    by (intro exI[of _ t]) (auto simp: with_text_def)
qed

lemma getu4_Some: "getu4 s = Some (n, r) \<Longrightarrow> r = drop 4 s \<and> s = take 4 s @ r \<and> (\<forall>x. getu4 (take 4 s @ x) = Some (n, x))"
  by (auto simp: getu4_def split: list.splits option.splits)

text \<open>A string ends at its closing quote, whatever follows.\<close>

lemma scan_units_elim:
  assumes "scan_units (c # s) = Some (us, r)"
  shows "(c = CHR 0x22 \<and> us = [] \<and> r = s) \<or>
    (\<exists>s' n us'. c = CHR 0x5C \<and> s = CHR ''u'' # s' \<and> getu4 s' = Some (n, drop 4 s') \<and>
       scan_units (drop 4 s') = Some (us', r) \<and> us = Inr n # us') \<or>
    (\<exists>e s' b us'. c = CHR 0x5C \<and> s = e # s' \<and> e \<noteq> CHR ''u'' \<and> map_of simple_escapes e = Some b \<and>
       scan_units s' = Some (us', r) \<and> us = Inl b # us') \<or>
    (\<exists>us'. c \<noteq> CHR 0x22 \<and> c \<noteq> CHR 0x5C \<and> \<not> of_char c < (32 :: nat) \<and> scan_units s = Some (us', r) \<and> us = Inl c # us')"
  using assms by (auto split: if_splits list.splits option.splits dest: getu4_Some)

lemma scan_units_append:
  "scan_units s = Some (us, r) \<Longrightarrow> \<exists>t. s = t @ r \<and> t \<noteq> [] \<and> (\<forall>x. scan_units (t @ x) = Some (us, x))"
proof (induction "length s" arbitrary: s us rule: less_induct)
  case less
  then obtain c s0 where s: "s = c # s0" by (cases s) auto
  from scan_units_elim[OF less.prems[unfolded s]] show ?case
  proof (elim disjE exE conjE)
    assume "c = CHR 0x22" "us = []" "r = s0"
    then show ?thesis by (intro exI[of _ "[c]"]) (simp add: s)
  next
    fix s' n us' assume a: "c = CHR 0x5C" "s0 = CHR ''u'' # s'" "getu4 s' = Some (n, drop 4 s')"
      "scan_units (drop 4 s') = Some (us', r)" "us = Inr n # us'"
    have "length (drop 4 s') < length s" by (simp add: s a(2))
    from less.hyps[OF this a(4)] obtain t where
      t: "drop 4 s' = t @ r" "\<And>x. scan_units (t @ x) = Some (us', x)" by (auto simp: s)
    from getu4_Some[OF a(3)] have g: "s' = take 4 s' @ t @ r" "\<And>x. getu4 (take 4 s' @ x) = Some (n, x)"
      using t(1) by auto
    have "length (take 4 s') = 4" using a(3) by (auto simp: getu4_def split: list.splits option.splits)
    then have d: "drop 4 (take 4 s' @ t @ x) = t @ x" for x by simp
    show ?thesis
      by (intro exI[of _ "c # CHR ''u'' # take 4 s' @ t"]) (use a(1,2,5) g d t(2) in \<open>auto simp: s\<close>)
  next
    fix e s' b us' assume a: "c = CHR 0x5C" "s0 = e # s'" "e \<noteq> CHR ''u''" "map_of simple_escapes e = Some b"
      "scan_units s' = Some (us', r)" "us = Inl b # us'"
    from less.hyps[OF _ a(5)] a(2) obtain t where "s' = t @ r" "\<And>x. scan_units (t @ x) = Some (us', x)" by (auto simp: s)
    then show ?thesis by (intro exI[of _ "c # e # t"]) (use a in \<open>auto simp: s\<close>)
  next
    fix us' assume a: "c \<noteq> CHR 0x22" "c \<noteq> CHR 0x5C" "\<not> of_char c < (32 :: nat)" "scan_units s0 = Some (us', r)"
      "us = Inl c # us'"
    from less.hyps[OF _ a(4)] obtain t where "s0 = t @ r" "\<And>x. scan_units (t @ x) = Some (us', x)" by (auto simp: s)
    then show ?thesis by (intro exI[of _ "c # t"]) (use a in \<open>auto simp: s\<close>)
  qed
qed

lemma local_units [intro]: "local_scan scan_units"
  using scan_units_append by (intro local_scanI) blast

lemma local_string [intro]: "local_scan string_literal"
  unfolding string_literal_def by (intro local_peek local_if local_then local_eat local_map local_units local_fail)

lemma local_tail [intro]: "local_scan number_tail"
  unfolding number_tail_def by (intro local_then local_option local_eat local_digits)

lemma local_number [intro]: "local_scan number"
  unfolding number_def by (intro local_then local_option local_peek local_if local_eat local_digits local_tail)

lemma local_values:
  "local_scan (\<lambda>s. scan_value n s) \<and> local_scan (\<lambda>s. scan_elems n s) \<and> local_scan (\<lambda>s. scan_members n s)"
proof (induction n)
  case 0
  show ?case by (auto simp: local_scan_def)
next
  case (Suc n)
  then have v: "local_scan (\<lambda>s. scan_value n s)" and e: "local_scan (\<lambda>s. scan_elems n s)"
    and m: "local_scan (\<lambda>s. scan_members n s)" by blast+
  have nd: "local_scan (node_scan (\<lambda>s. scan_members n s) (\<lambda>s. scan_elems n s) c)" for c
    unfolding node_scan_def object_scan_def array_scan_def
    by (intro local_then local_map local_peek local_if local_eat local_spaces local_string local_word local_number v e m)
  show ?case unfolding scan_value.simps(2) scan_elems.simps(2) scan_members.simps(2)
    by (intro conjI local_then local_map local_text local_peek local_if local_eat local_spaces local_string
        local_fail v e m nd)
qed

section \<open>Fuel\<close>

lemma local_shorter: "local_scan f \<Longrightarrow> f s = Some (v, r) \<Longrightarrow> length r \<le> length s"
  using local_scanD by fastforce

lemma then_Some: "scan_then f g s = Some (w, r) \<longleftrightarrow> (\<exists>v m. f s = Some (v, m) \<and> g v m = Some (w, r))"
  by (auto simp: scan_then_def split: option.splits)

lemma map_Some: "scan_map h f s = Some (w, r) \<longleftrightarrow> (\<exists>v. f s = Some (v, r) \<and> w = h v)"
  by (auto simp: scan_map_def then_Some scan_return_def)

lemma peek_Some: "peek f s = Some (w, r) \<longleftrightarrow> (\<exists>c s'. s = c # s' \<and> f c s = Some (w, r))"
  by (cases s) (auto simp: peek_def)

lemma eat_Some: "eat v s = Some (w, r) \<longleftrightarrow> w = v \<and> (\<exists>c. s = c # r)"
  by (cases s) (auto simp: eat_def)

lemma spaces_Some: "spaces s = Some (w, r) \<longleftrightarrow> r = skip_ws s"
  by (auto simp: spaces_def)

lemma text_Some: "with_text f s = Some (w, r) \<longleftrightarrow> (\<exists>v. f s = Some (v, r) \<and> w = (take (length s - length r) s, v))"
  by (auto simp: with_text_def split: option.splits)

lemma fail_Some [simp]: "scan_fail s \<noteq> Some x"
  by (simp add: scan_fail_def)

lemma if_scan: "(if b then f else g) s = (if b then f s else g s)"
  by simp

lemmas scan_Some = then_Some map_Some peek_Some eat_Some spaces_Some text_Some if_scan

lemma skip_ws_le: "length (skip_ws s) \<le> length s"
  unfolding skip_ws_def by (rule length_dropWhile_le)

lemma string_shorter: "string_literal s = Some (d, r) \<Longrightarrow> length r < length s"
  using local_shorter[OF local_units] by (fastforce simp: string_literal_def scan_Some split: if_splits)

lemma digits_shorter: "digits s = Some (d, r) \<Longrightarrow> length r < length s"
  using length_dropWhile_le[of is_digit] by (fastforce simp: digits_def scan_Some split: if_splits dest: le_imp_less_Suc)

lemma number_shorter:
  assumes "number s = Some (d, r)"
  shows "length r < length s"
proof -
  from iffD1[OF then_Some assms[unfolded number_def]] obtain u s1 where
    a: "option_part (\<lambda>c. c = CHR ''-'') (eat ()) s = Some (u, s1)"
    and a': "scan_then (peek (\<lambda>c. if c = CHR ''0'' then eat () else digits)) (\<lambda>_. number_tail) s1 = Some (d, r)"
    by blast
  from iffD1[OF then_Some a'] obtain u s2 where
    b: "peek (\<lambda>c. if c = CHR ''0'' then eat () else digits) s1 = Some (u, s2)" and c: "number_tail s2 = Some (d, r)"
    by blast
  have "length s1 \<le> length s" by (rule local_shorter[OF local_option[OF local_eat] a])
  moreover from b obtain c0 s1' where s1: "s1 = c0 # s1'" "(if c0 = CHR ''0'' then eat () else digits) s1 = Some (u, s2)"
    unfolding peek_Some by blast
  then have "length s2 < length s1" using digits_shorter[of s1] by (cases "c0 = CHR ''0''") (auto simp: eat_def)
  moreover have "length r \<le> length s2" by (rule local_shorter[OF local_tail c])
  ultimately show ?thesis by linarith
qed

lemma word_shorter:
  assumes "word_literal w s = Some (d, r)" "w \<noteq> []"
  shows "length r < length s"
proof -
  have p: "take (length w) s = w" and r: "r = drop (length w) s"
    using assms(1) by (simp_all add: word_literal_def is_prefix_def split: if_splits)
  have "0 < length w" using assms(2) by simp
  moreover have "length w \<le> length s" using arg_cong[OF p, of length] by simp
  ultimately show ?thesis unfolding r length_drop by linarith
qed

lemmas scan_eval = scan_then_def scan_map_def scan_return_def peek_def eat_def spaces_def scan_fail_def

lemma object_Some:
  "object_scan M s = Some (nd, r) \<longleftrightarrow>
     (\<exists>c s1. s = c # s1 \<and>
       (skip_ws s1 = CHR ''}'' # r \<and> nd = NObj [] \<or>
        (\<exists>d s2 ms. skip_ws s1 = d # s2 \<and> d \<noteq> CHR ''}'' \<and> M (d # s2) = Some (ms, r) \<and> nd = NObj ms)))"
proof (cases s)
  case (Cons c s1)
  show ?thesis
  proof (cases "skip_ws s1")
    case (Cons d s2)
    then show ?thesis
      by (cases "M (d # s2)") (auto simp: \<open>s = c # s1\<close> object_scan_def scan_eval split: if_splits)
  qed (simp add: Cons object_scan_def scan_eval)
qed (simp add: object_scan_def scan_eval)

lemma array_Some:
  "array_scan E s = Some (nd, r) \<longleftrightarrow>
     (\<exists>c s1. s = c # s1 \<and>
       (skip_ws s1 = CHR '']'' # r \<and> nd = NArr [] \<or>
        (\<exists>d s2 vs. skip_ws s1 = d # s2 \<and> d \<noteq> CHR '']'' \<and> E (d # s2) = Some (vs, r) \<and> nd = NArr vs)))"
proof (cases s)
  case (Cons c s1)
  show ?thesis
  proof (cases "skip_ws s1")
    case (Cons d s2)
    then show ?thesis
      by (cases "E (d # s2)") (auto simp: \<open>s = c # s1\<close> array_scan_def scan_eval split: if_splits)
  qed (simp add: Cons array_scan_def scan_eval)
qed (simp add: array_scan_def scan_eval)

lemma value_Some:
  "scan_value (Suc n) s = Some (v, r) \<longleftrightarrow>
     (\<exists>c s' nd. s = c # s' \<and> node_scan (\<lambda>r. scan_members n r) (\<lambda>r. scan_elems n r) c s = Some (nd, r) \<and>
       v = Jv (take (length s - length r) s) nd)"
  unfolding scan_value.simps map_Some text_Some peek_Some by auto

lemma elems_Some:
  "scan_elems (Suc n) s = Some (vs, r) \<longleftrightarrow>
     (\<exists>v m. scan_value n s = Some (v, m) \<and>
       (skip_ws m = CHR '']'' # r \<and> vs = [v] \<or>
        (\<exists>m' vs'. skip_ws m = CHR '','' # m' \<and> scan_elems n (skip_ws m') = Some (vs', r) \<and> vs = v # vs')))"
proof (cases "scan_value n s")
  case (Some p)
  obtain v m where p: "p = (v, m)" by (cases p)
  show ?thesis
  proof (cases "skip_ws m")
    case (Cons c m')
    then show ?thesis
      by (cases "scan_elems n (skip_ws m')") (auto simp: Some p scan_eval split: if_splits)
  qed (simp add: Some p scan_eval)
qed (simp add: scan_eval)

lemma members_Some:
  "scan_members (Suc n) s = Some (ms, r) \<longleftrightarrow>
     (\<exists>k m m1 v m2. string_literal s = Some (k, m) \<and> skip_ws m = CHR '':'' # m1 \<and>
       scan_value n (skip_ws m1) = Some (v, m2) \<and>
       (skip_ws m2 = CHR ''}'' # r \<and> ms = [(k, v)] \<or>
        (\<exists>m3 ms'. skip_ws m2 = CHR '','' # m3 \<and> scan_members n (skip_ws m3) = Some (ms', r) \<and> ms = (k, v) # ms')))"
proof (cases "\<exists>k m m1 v m2 c m3. string_literal s = Some (k, m) \<and> skip_ws m = CHR '':'' # m1 \<and>
    scan_value n (skip_ws m1) = Some (v, m2) \<and> skip_ws m2 = c # m3")
  case True
  then obtain k m m1 v m2 c m3 where "string_literal s = Some (k, m)" "skip_ws m = CHR '':'' # m1"
    "scan_value n (skip_ws m1) = Some (v, m2)" "skip_ws m2 = c # m3" by blast
  then show ?thesis by (cases "scan_members n (skip_ws m3)") (auto simp: scan_eval split: if_splits)
next
  case False
  then have "scan_members (Suc n) s = None"
    by (auto simp: scan_eval split: option.split list.split)
  with False show ?thesis by auto
qed

declare scan_value.simps(2) [simp del] scan_elems.simps(2) [simp del] scan_members.simps(2) [simp del]

lemma elems_le: "scan_elems n s = Some (vs, r) \<Longrightarrow> length r \<le> length s"
  and members_le: "scan_members n s = Some (ms, r) \<Longrightarrow> length r \<le> length s"
  by (rule local_shorter[OF conjunct1[OF conjunct2[OF local_values]]], assumption)
    (rule local_shorter[OF conjunct2[OF conjunct2[OF local_values]]])

lemma skip_ws_Cons: "skip_ws s = c # m \<Longrightarrow> length m < length s"
  using skip_ws_le[of s] by simp

lemma object_shorter:
  assumes "object_scan M s = Some (nd, r)" and "\<And>s' x. M s' = Some (x, r) \<Longrightarrow> length r \<le> length s'"
  shows "length r < length s"
proof -
  from assms(1) obtain c s1 where s: "s = c # s1" and
    b: "skip_ws s1 = CHR ''}'' # r \<or> (\<exists>s2 x. skip_ws s1 = s2 \<and> M s2 = Some (x, r))"
    unfolding object_Some by auto
  from b have "length r \<le> length (skip_ws s1)" using assms(2) by (elim disjE exE conjE) auto
  with s skip_ws_le[of s1] show ?thesis by simp
qed

lemma array_shorter:
  assumes "array_scan E s = Some (nd, r)" and "\<And>s' x. E s' = Some (x, r) \<Longrightarrow> length r \<le> length s'"
  shows "length r < length s"
proof -
  from assms(1) obtain c s1 where s: "s = c # s1" and
    b: "skip_ws s1 = CHR '']'' # r \<or> (\<exists>s2 x. skip_ws s1 = s2 \<and> E s2 = Some (x, r))"
    unfolding array_Some by auto
  from b have "length r \<le> length (skip_ws s1)" using assms(2) by (elim disjE exE conjE) auto
  with s skip_ws_le[of s1] show ?thesis by simp
qed

lemma node_shorter:
  assumes n: "node_scan M E c s = Some (nd, r)"
    and M: "\<And>s' ms. M s' = Some (ms, r) \<Longrightarrow> length r \<le> length s'"
    and E: "\<And>s' vs. E s' = Some (vs, r) \<Longrightarrow> length r \<le> length s'"
  shows "length r < length s"
proof -
  from n consider d where "string_literal s = Some (d, r)" | "object_scan M s = Some (nd, r)"
    | "array_scan E s = Some (nd, r)" | w u where "word_literal w s = Some (u, r)" "w \<noteq> []" | u where "number s = Some (u, r)"
    unfolding node_scan_def map_Some if_scan by (auto simp: map_Some split: if_splits)
  then show ?thesis
  proof cases
    case 2
    then show ?thesis using object_shorter M by blast
  next
    case 3
    then show ?thesis using array_shorter E by blast
  next
    case 1
    then show ?thesis by (rule string_shorter)
  next
    case 4
    then show ?thesis by (rule word_shorter)
  next
    case 5
    then show ?thesis by (rule number_shorter)
  qed
qed

lemma value_shorter: "scan_value n s = Some (v, r) \<Longrightarrow> length r < length s"
proof (cases n)
  case (Suc k)
  assume "scan_value n s = Some (v, r)"
  then show ?thesis using node_shorter members_le elems_le unfolding Suc value_Some by blast
qed simp

lemma node_mono:
  assumes n: "node_scan M E c s = Some (nd, r)"
    and M: "\<And>s' ms. length s' < length s \<Longrightarrow> M s' = Some (ms, r) \<Longrightarrow> M' s' = Some (ms, r)"
    and E: "\<And>s' vs. length s' < length s \<Longrightarrow> E s' = Some (vs, r) \<Longrightarrow> E' s' = Some (vs, r)"
  shows "node_scan M' E' c s = Some (nd, r)"
proof -
  have obj: "object_scan M' s = Some (nd, r)" if "object_scan M s = Some (nd, r)"
  proof -
    from that obtain x s1 where s: "s = x # s1" and
      b: "skip_ws s1 = CHR ''}'' # r \<and> nd = NObj [] \<or>
        (\<exists>d s2 ms. skip_ws s1 = d # s2 \<and> d \<noteq> CHR ''}'' \<and> M (d # s2) = Some (ms, r) \<and> nd = NObj ms)"
      unfolding object_Some by blast
    have "length (skip_ws s1) < length s" using skip_ws_le[of s1] s by simp
    with b M have "skip_ws s1 = CHR ''}'' # r \<and> nd = NObj [] \<or>
        (\<exists>d s2 ms. skip_ws s1 = d # s2 \<and> d \<noteq> CHR ''}'' \<and> M' (d # s2) = Some (ms, r) \<and> nd = NObj ms)" by metis
    with s show ?thesis unfolding object_Some by blast
  qed
  have arr: "array_scan E' s = Some (nd, r)" if "array_scan E s = Some (nd, r)"
  proof -
    from that obtain x s1 where s: "s = x # s1" and
      b: "skip_ws s1 = CHR '']'' # r \<and> nd = NArr [] \<or>
        (\<exists>d s2 vs. skip_ws s1 = d # s2 \<and> d \<noteq> CHR '']'' \<and> E (d # s2) = Some (vs, r) \<and> nd = NArr vs)"
      unfolding array_Some by blast
    have "length (skip_ws s1) < length s" using skip_ws_le[of s1] s by simp
    with b E have "skip_ws s1 = CHR '']'' # r \<and> nd = NArr [] \<or>
        (\<exists>d s2 vs. skip_ws s1 = d # s2 \<and> d \<noteq> CHR '']'' \<and> E' (d # s2) = Some (vs, r) \<and> nd = NArr vs)" by metis
    with s show ?thesis unfolding array_Some by blast
  qed
  show ?thesis using n obj arr by (simp add: node_scan_def split: if_splits)
qed

text \<open>The fuel a scan needs is the number of bytes it consumes.\<close>

lemma scan_fuel:
  "(\<forall>s v r m. scan_value n s = Some (v, r) \<longrightarrow> length s \<le> length r + m \<longrightarrow> scan_value m s = Some (v, r)) \<and>
   (\<forall>s v r m. scan_elems n s = Some (v, r) \<longrightarrow> length s \<le> length r + m \<longrightarrow> scan_elems m s = Some (v, r)) \<and>
   (\<forall>s v r m. scan_members n s = Some (v, r) \<longrightarrow> length s \<le> length r + m \<longrightarrow> scan_members m s = Some (v, r))"
proof (induction n)
  case (Suc n)
  then have V: "\<And>s v r m. scan_value n s = Some (v, r) \<Longrightarrow> length s \<le> length r + m \<Longrightarrow> scan_value m s = Some (v, r)"
    and E: "\<And>s v r m. scan_elems n s = Some (v, r) \<Longrightarrow> length s \<le> length r + m \<Longrightarrow> scan_elems m s = Some (v, r)"
    and M: "\<And>s v r m. scan_members n s = Some (v, r) \<Longrightarrow> length s \<le> length r + m \<Longrightarrow> scan_members m s = Some (v, r)"
    by blast+
  have vals: "scan_value m s = Some (v, r)" if a: "scan_value (Suc n) s = Some (v, r)" and l: "length s \<le> length r + m" for s v r m
  proof -
    obtain k where m: "m = Suc k" using value_shorter[OF a] l by (cases m) auto
    from a obtain c s' nd where s: "s = c # s'" "v = Jv (take (length s - length r) s) nd"
      and nd: "node_scan (\<lambda>r. scan_members n r) (\<lambda>r. scan_elems n r) c s = Some (nd, r)" unfolding value_Some by blast
    have "node_scan (\<lambda>r. scan_members k r) (\<lambda>r. scan_elems k r) c s = Some (nd, r)"
      by (rule node_mono[OF nd]) (use l m in \<open>auto intro: M E\<close>)
    with s show ?thesis unfolding m value_Some by blast
  qed
  have elems: "scan_elems m s = Some (vs, r)" if a: "scan_elems (Suc n) s = Some (vs, r)" and l: "length s \<le> length r + m" for s vs r m
  proof -
    from a obtain v m0 where v: "scan_value n s = Some (v, m0)" and
      b: "skip_ws m0 = CHR '']'' # r \<and> vs = [v] \<or>
        (\<exists>m' vs'. skip_ws m0 = CHR '','' # m' \<and> scan_elems n (skip_ws m') = Some (vs', r) \<and> vs = v # vs')"
      unfolding elems_Some by blast
    have 1: "length m0 < length s" by (rule value_shorter[OF v])
    have 2: "length r < length m0" using b skip_ws_Cons elems_le skip_ws_le by (metis le_trans not_le)
    obtain k where m: "m = Suc k" using 1 2 l by (cases m) auto
    have "scan_value k s = Some (v, m0)" by (rule V[OF v]) (use 1 2 l m in linarith)
    moreover have "scan_elems k (skip_ws m') = Some (vs', r)"
      if "skip_ws m0 = CHR '','' # m'" "scan_elems n (skip_ws m') = Some (vs', r)" for m' vs'
      by (rule E[OF that(2)]) (use 1 l m skip_ws_Cons[OF that(1)] skip_ws_le[of m'] in linarith)
    ultimately show ?thesis using b unfolding m elems_Some by blast
  qed
  have members: "scan_members m s = Some (ms, r)" if a: "scan_members (Suc n) s = Some (ms, r)" and l: "length s \<le> length r + m" for s ms r m
  proof -
    from a obtain k0 m0 m1 v m2 where k0: "string_literal s = Some (k0, m0)" "skip_ws m0 = CHR '':'' # m1" and
      v: "scan_value n (skip_ws m1) = Some (v, m2)" and
      b: "skip_ws m2 = CHR ''}'' # r \<and> ms = [(k0, v)] \<or>
        (\<exists>m3 ms'. skip_ws m2 = CHR '','' # m3 \<and> scan_members n (skip_ws m3) = Some (ms', r) \<and> ms = (k0, v) # ms')"
      unfolding members_Some by blast
    have 1: "length (skip_ws m1) < length s" "length m2 < length (skip_ws m1)"
      using string_shorter[OF k0(1)] skip_ws_Cons[OF k0(2)] skip_ws_le[of m1] value_shorter[OF v] by linarith+
    have 2: "length r < length m2" using b skip_ws_Cons members_le skip_ws_le by (metis le_trans not_le)
    obtain k where m: "m = Suc k" using 1 2 l by (cases m) auto
    have "scan_value k (skip_ws m1) = Some (v, m2)" by (rule V[OF v]) (use 1 2 l m in linarith)
    moreover have "scan_members k (skip_ws m3) = Some (ms', r)"
      if "skip_ws m2 = CHR '','' # m3" "scan_members n (skip_ws m3) = Some (ms', r)" for m3 ms'
      by (rule M[OF that(2)]) (use 1 l m skip_ws_Cons[OF that(1)] skip_ws_le[of m3] in linarith)
    ultimately show ?thesis using b k0 unfolding m members_Some by blast
  qed
  show ?case using vals elems members by blast
qed simp

text \<open>A value scans the same with any fuel that covers it, and whatever follows, up to the next character.\<close>

lemmas scan_value_used = scan_fuel[THEN conjunct1, rule_format]
  and scan_elems_used = scan_fuel[THEN conjunct2, THEN conjunct1, rule_format]
  and scan_members_used = scan_fuel[THEN conjunct2, THEN conjunct2, rule_format]

lemma scan_value_fuel: "scan_value n s = Some (v, r) \<Longrightarrow> length s \<le> m \<Longrightarrow> scan_value m s = Some (v, r)"
  by (rule scan_value_used) simp_all

lemma scan_value_local:
  assumes "scan_value n s = Some (v, r)"
  obtains t where "s = t @ r" "t \<noteq> []" "jv_text v = t"
    "\<And>r' m. same_head r r' \<Longrightarrow> length t \<le> m \<Longrightarrow> scan_value m (t @ r') = Some (v, r')"
proof -
  from local_scanD[OF conjunct1[OF local_values] assms] obtain t where
    t0: "s = t @ r \<and> (\<forall>r'. same_head r r' \<longrightarrow> scan_value n (t @ r') = Some (v, r'))" by (rule exE)
  note t = conjunct1[OF t0] spec[OF conjunct2[OF t0], THEN mp]
  have "t \<noteq> []" using value_shorter[OF assms] t(1) by auto
  moreover have "jv_text v = t"
    using assms t(1) by (cases n) (auto simp: value_Some)
  moreover have "scan_value m (t @ r') = Some (v, r')" if "same_head r r'" "length t \<le> m" for r' m
    by (rule scan_value_used[OF t(2)[OF that(1)]]) (simp add: that(2))
  ultimately show thesis using t(1) by (intro that)
qed

end
