(* ===== verification/Chat_Domain.thy ===== *)
theory Chat_Domain
  imports Complex_Main Apierr Encoding Json_Text
begin

text \<open>
  The chat request, \<open>internal/domain/chat\<close>: the closed content union and its checks (\<open>content.go\<close>), the
  references to uploaded media (\<open>medialease.go\<close>), and the estimate, the token bound and the sanitized body
  (\<open>chat.go\<close>). The parsing of URLs and of real numbers are parameters. Texts are UTF-8, as a decoded JSON string is.
\<close>

section \<open>The request\<close>

record image_url =
  Img_URL :: string
  Img_Detail :: string

record input_audio =
  Aud_Data :: string
  Aud_Format :: string

record content_part =
  Part_Type :: string
  Part_Text :: string
  Part_ImageURL :: "image_url option"
  Part_VideoURL :: "string option"
  Part_InputAudio :: "input_audio option"

datatype content = MissingContent | NullContent | StringContent string | PartsContent "content_part list"

text \<open>Raw JSON is its text; an absent field is the empty text.\<close>

record message =
  Role :: string
  Content :: content
  Name :: string
  ToolCalls :: string
  ToolCallID :: string
  ReasoningContent :: string

record inbound_request =
  In_Model :: string
  Messages :: "message list"
  In_Stream :: bool
  Temperature :: "rat option"
  MaxTokens :: "int64 option"
  In_N :: "int64 option"
  Tools :: string
  ToolChoice :: string

record completion_request =
  Out_Messages :: "message list"
  Out_Stream :: bool
  Out_Temperature :: "rat option"
  Out_MaxTokens :: "int64 option"
  Out_Tools :: string
  Out_ToolChoice :: string
  IncludeUsage :: "bool option"

definition PartTypeText :: string where "PartTypeText = ''text''"
definition PartTypeImageURL :: string where "PartTypeImageURL = ''image_url''"
definition PartTypeVideoURL :: string where "PartTypeVideoURL = ''video_url''"
definition PartTypeInputAudio :: string where "PartTypeInputAudio = ''input_audio''"

datatype modality = ModalityText | ModalityMultimodal | ModalityAudio

record media_limits =
  MaxParts :: int
  MaxDecodedBytes :: int64

text \<open>\<open>url.Parse\<close>: scheme, host, opaque part, whether there is a user, path and raw query; \<open>strconv.ParseFloat\<close> of a
  JSON number.\<close>

record url_parts =
  Url_Scheme :: string
  Url_Host :: string
  Url_Opaque :: string
  Url_User :: bool
  Url_Path :: string
  Url_RawQuery :: string

record codec =
  url_parse :: "string \<Rightarrow> url_parts option"
  parse_float :: "string \<Rightarrow> rat option"

definition contentError :: "string \<Rightarrow> api_error" where
  "contentError m = NewError 400 ''BAD_REQUEST'' m"

section \<open>Media\<close>

definition std_sextet :: "char \<Rightarrow> nat option" where
  "std_sextet c =
     (if c = CHR ''+'' then Some 62 else if c = CHR ''/'' then Some 63
      else if c = CHR ''-'' \<or> c = CHR ''_'' then None else char_sextet c)"

fun std_sextets :: "string \<Rightarrow> nat list option" where
  "std_sextets [] = Some []"
| "std_sextets (c # cs) =
     (case std_sextet c of None \<Rightarrow> None | Some n \<Rightarrow> map_option ((#) n) (std_sextets cs))"

text \<open>\<open>base64.StdEncoding.Strict().Decode\<close>: padded, line breaks skipped, unused bits zero.\<close>

definition StdDecode :: "string \<Rightarrow> string option" where
  "StdDecode s =
     (let cs = filter (\<lambda>c. c \<noteq> CHR 0x0A \<and> c \<noteq> CHR 0x0D) s;
          data = takeWhile (\<lambda>c. c \<noteq> CHR ''='') cs;
          pad = drop (length data) cs
      in if length cs mod 4 \<noteq> 0 \<or> pad \<notin> {[], ''='', ''==''} then None
         else case std_sextets data of
           None \<Rightarrow> None
         | Some ns \<Rightarrow>
             (case octets ns of
                None \<Rightarrow> None
              | Some ys \<Rightarrow> if sextets ys = ns then Some (map char_of ys) else None))"

definition strictBase64DecodedLen :: "string \<Rightarrow> int64 option" where
  "strictBase64DecodedLen encoded =
     (let n = length encoded in
      if n = 0 \<or> n mod 4 \<noteq> 0 then None
      else
        let padding = (if encoded ! (n - 1) = CHR ''='' then (if n \<ge> 2 \<and> encoded ! (n - 2) = CHR ''='' then 2 else 1) else 0)
        in if CHR ''='' \<in> set (take (n - padding) encoded) then None
           else Some (int (n div 4 * 3) - int padding))"

definition decodeBase64 :: "string \<Rightarrow> int64 \<Rightarrow> string + string" where
  "decodeBase64 encoded maxDecoded =
     (if encoded = [] then Inl ''media base64 data is empty''
      else case strictBase64DecodedLen encoded of
        None \<Rightarrow> Inl ''invalid media base64 data''
      | Some decodedLen \<Rightarrow>
          if maxDecoded \<le> 0 \<or> decodedLen > maxDecoded then Inl ''media data exceeds the decoded-byte limit''
          else case StdDecode encoded of
            None \<Rightarrow> Inl ''invalid media base64 data''
          | Some data \<Rightarrow>
              if int (length data) \<noteq> decodedLen then Inl ''invalid media base64 data'' else Inr data)"

definition isJPEG :: "string \<Rightarrow> bool" where
  "isJPEG d = (length d \<ge> 3 \<and> take 3 d = bytes [255, 216, 255])"

definition isPNG :: "string \<Rightarrow> bool" where
  "isPNG d = (length d \<ge> 8 \<and> take 8 d = bytes [137, 80, 78, 71, 13, 10, 26, 10])"

definition isWebP :: "string \<Rightarrow> bool" where
  "isWebP d = (length d \<ge> 12 \<and> take 4 d = ''RIFF'' \<and> take 4 (drop 8 d) = ''WEBP'')"

definition isWAV :: "string \<Rightarrow> bool" where
  "isWAV d = (length d \<ge> 12 \<and> take 4 d = ''RIFF'' \<and> take 4 (drop 8 d) = ''WAVE'')"

definition isMP3 :: "string \<Rightarrow> bool" where
  "isMP3 d =
     (length d \<ge> 3 \<and> take 3 d = ''ID3'' \<or>
      length d \<ge> 2 \<and> d ! 0 = CHR 0xFF \<and> (of_char (d ! 1) :: nat) div 32 = 7)"

definition isMP4 :: "string \<Rightarrow> bool" where
  "isMP4 d = (length d \<ge> 12 \<and> take 4 (drop 4 d) = ''ftyp'')"

section \<open>Leases\<close>

definition leasePathPrefix :: string where "leasePathPrefix = ''/v1/media/leases/''"
definition leasePathSuffix :: string where "leasePathSuffix = ''/content''"

record media_lease_ref =
  LeaseID :: string
  Ref_Token :: string
  Ref_Raw :: string

definition is_suffix :: "string \<Rightarrow> string \<Rightarrow> bool" where
  "is_suffix p s = is_prefix (rev p) (rev s)"

definition trim_suffix :: "string \<Rightarrow> string \<Rightarrow> string" where
  "trim_suffix p s = (if is_suffix p s then take (length s - length p) s else s)"

definition parseMediaLeaseRef :: "codec \<Rightarrow> string \<Rightarrow> media_lease_ref option" where
  "parseMediaLeaseRef C raw =
     (if \<not> is_prefix leasePathPrefix raw then None
      else case url_parse C raw of
        None \<Rightarrow> None
      | Some u \<Rightarrow>
          if Url_Scheme u \<noteq> [] \<or> Url_Host u \<noteq> [] \<or> Url_Opaque u \<noteq> [] \<or> Url_User u then None
          else if \<not> is_prefix leasePathPrefix (Url_Path u) \<or> \<not> is_suffix leasePathSuffix (Url_Path u) then None
          else
            let id = trim_suffix leasePathSuffix (drop (length leasePathPrefix) (Url_Path u));
                token = query_get ''token'' (parse_query (Url_RawQuery u))
            in if id = [] \<or> CHR ''/'' \<in> set id \<or> CHR 0x5C \<in> set id then None
               else if token = [] then None
               else Some \<lparr>LeaseID = id, Ref_Token = token, Ref_Raw = raw\<rparr>)"

definition part_url :: "content_part \<Rightarrow> string option" where
  "part_url p =
     (if Part_Type p = PartTypeImageURL \<and> Part_ImageURL p \<noteq> None then map_option Img_URL (Part_ImageURL p)
      else if Part_Type p = PartTypeVideoURL \<and> Part_VideoURL p \<noteq> None then Part_VideoURL p
      else None)"

definition MediaLeaseRefs :: "codec \<Rightarrow> inbound_request \<Rightarrow> media_lease_ref list" where
  "MediaLeaseRefs C req =
     [r. m \<leftarrow> Messages req, p \<leftarrow> (case Content m of PartsContent ps \<Rightarrow> ps | _ \<Rightarrow> []),
         r \<leftarrow> (case part_url p of None \<Rightarrow> [] | Some raw \<Rightarrow> (case parseMediaLeaseRef C raw of None \<Rightarrow> [] | Some r \<Rightarrow> [r]))]"

record inlined_lease =
  Inl_MIMEType :: string
  Inl_Base64 :: string

definition data_uri :: "inlined_lease \<Rightarrow> string" where
  "data_uri d = ''data:'' @ Inl_MIMEType d @ '';base64,'' @ Inl_Base64 d"

definition inline_part :: "(string, inlined_lease) table \<Rightarrow> content_part \<Rightarrow> content_part" where
  "inline_part t p =
     (if Part_Type p = PartTypeImageURL \<and> Part_ImageURL p \<noteq> None
      then (case tget t (Img_URL (the (Part_ImageURL p))) of
              None \<Rightarrow> p
            | Some d \<Rightarrow> p\<lparr>Part_ImageURL := Some ((the (Part_ImageURL p))\<lparr>Img_URL := data_uri d\<rparr>)\<rparr>)
      else if Part_Type p = PartTypeVideoURL \<and> Part_VideoURL p \<noteq> None
      then (case tget t (the (Part_VideoURL p)) of None \<Rightarrow> p | Some d \<Rightarrow> p\<lparr>Part_VideoURL := Some (data_uri d)\<rparr>)
      else p)"

definition WithInlinedMediaLeases :: "(string, inlined_lease) table \<Rightarrow> inbound_request \<Rightarrow> inbound_request" where
  "WithInlinedMediaLeases t req =
     (if t = [] then req
      else req\<lparr>Messages := map (\<lambda>m. case Content m of
                PartsContent ps \<Rightarrow> m\<lparr>Content := PartsContent (map (inline_part t) ps)\<rparr>
              | _ \<Rightarrow> m) (Messages req)\<rparr>)"

section \<open>Validation\<close>

definition validateImage :: "codec \<Rightarrow> image_url option \<Rightarrow> int64 \<Rightarrow> string + int64" where
  "validateImage C img maxDecoded =
     (case img of
        None \<Rightarrow> Inl ''image_url payload is required''
      | Some i \<Rightarrow>
          let url = Img_URL i; comma = length (takeWhile (\<lambda>c. c \<noteq> CHR '','') url) in
          if parseMediaLeaseRef C url \<noteq> None then Inr 0
          else if \<not> is_prefix ''data:'' url
          then Inl ''image_url must be a base64 data URI or a gateway-issued media lease path''
          else if comma = length url then Inl ''image_url must be a base64 data URI''
          else
            let meta = drop 5 (take comma url); encoded = drop (comma + 1) url;
                magic = (if meta = ''image/jpeg;base64'' then Some isJPEG
                         else if meta = ''image/png;base64'' then Some isPNG
                         else if meta = ''image/webp;base64'' then Some isWebP else None)
            in case magic of
                 None \<Rightarrow> Inl ''image_url must use image/jpeg, image/png, or image/webp''
               | Some test \<Rightarrow>
                   rbind (decodeBase64 encoded maxDecoded)
                     (\<lambda>decoded. if \<not> test decoded then Inl ''image MIME type does not match its data''
                                else Inr (int (length decoded))))"

definition validateVideo :: "codec \<Rightarrow> string option \<Rightarrow> int64 \<Rightarrow> string + int64" where
  "validateVideo C video maxDecoded =
     (case video of
        None \<Rightarrow> Inl ''video_url payload is required''
      | Some url \<Rightarrow>
          if parseMediaLeaseRef C url \<noteq> None then Inr 0
          else if \<not> is_prefix ''data:video/mp4;base64,'' url
          then Inl ''video_url must use an inline video/mp4 base64 data URI or a gateway-issued media lease path''
          else
            rbind (decodeBase64 (drop (length ''data:video/mp4;base64,'') url) maxDecoded)
              (\<lambda>decoded. if \<not> isMP4 decoded then Inl ''video MIME type does not match its data''
                         else Inr (int (length decoded))))"

definition validateAudio :: "input_audio option \<Rightarrow> int64 \<Rightarrow> string + int64" where
  "validateAudio audio maxDecoded =
     (case audio of
        None \<Rightarrow> Inl ''input_audio payload is required''
      | Some a \<Rightarrow>
          (case (if Aud_Format a = ''wav'' then Some isWAV else if Aud_Format a = ''mp3'' then Some isMP3 else None) of
             None \<Rightarrow> Inl ''input_audio format must be wav or mp3''
           | Some test \<Rightarrow>
               rbind (decodeBase64 (Aud_Data a) maxDecoded)
                 (\<lambda>decoded. if \<not> test decoded then Inl ''input_audio format does not match its data''
                            else Inr (int (length decoded)))))"

text \<open>The state of the walk over the history: modality, media parts and decoded bytes so far.\<close>

type_synonym media_walk = "modality \<times> int \<times> int64"

definition media_part :: "media_limits \<Rightarrow> string \<Rightarrow> (int64 \<Rightarrow> string + int64) \<Rightarrow> bool \<Rightarrow> media_walk \<Rightarrow> api_error + media_walk" where
  "media_part lims role validate audio st =
     (let (modality, mediaParts, decodedBytes) = st in
      if role \<noteq> ''user'' then Inl (contentError ''media content is only allowed in user messages'')
      else if MaxParts lims \<le> 0 \<or> mediaParts + 1 > MaxParts lims then Inl (contentError ''too many media parts'')
      else
        let left = wrap64 (MaxDecodedBytes lims - decodedBytes);
            remaining = (if left < 0 then 0 else left)
        in case validate remaining of
             Inl m \<Rightarrow> Inl (contentError m)
           | Inr n \<Rightarrow>
               Inr (if audio \<or> modality = ModalityAudio then ModalityAudio else ModalityMultimodal,
                    mediaParts + 1, wrap64 (decodedBytes + n)))"

definition classify_part :: "codec \<Rightarrow> media_limits \<Rightarrow> string \<Rightarrow> content_part \<Rightarrow> media_walk \<Rightarrow> api_error + media_walk" where
  "classify_part C lims role p st =
     (if Part_Type p = PartTypeText then Inr st
      else if Part_Type p = PartTypeImageURL then media_part lims role (validateImage C (Part_ImageURL p)) False st
      else if Part_Type p = PartTypeVideoURL then media_part lims role (validateVideo C (Part_VideoURL p)) False st
      else if Part_Type p = PartTypeInputAudio then media_part lims role (validateAudio (Part_InputAudio p)) True st
      else Inl (contentError ''unsupported content part type''))"

fun classify_parts :: "codec \<Rightarrow> media_limits \<Rightarrow> string \<Rightarrow> content_part list \<Rightarrow> media_walk \<Rightarrow> api_error + media_walk" where
  "classify_parts C lims role [] st = Inr st"
| "classify_parts C lims role (p # ps) st = rbind (classify_part C lims role p st) (classify_parts C lims role ps)"

definition hasToolCalls :: "string \<Rightarrow> bool" where
  "hasToolCalls raw =
     (case decode_text raw of
        Some v \<Rightarrow> (case jv_node v of NArr calls \<Rightarrow> calls \<noteq> [] | _ \<Rightarrow> False)
      | None \<Rightarrow> False)"

definition classify_message :: "codec \<Rightarrow> media_limits \<Rightarrow> message \<Rightarrow> media_walk \<Rightarrow> api_error + media_walk" where
  "classify_message C lims m st =
     (if Role m \<notin> {''system'', ''user'', ''assistant'', ''tool''}
      then Inl (contentError ''message role must be system, user, assistant, or tool'')
      else if Role m = ''tool'' \<and> TrimSpace (ToolCallID m) = []
      then Inl (contentError ''tool message requires tool_call_id'')
      else case Content m of
        PartsContent ps \<Rightarrow> classify_parts C lims (Role m) ps st
      | StringContent t \<Rightarrow> Inr st
      | _ \<Rightarrow>
          if Role m \<noteq> ''assistant'' \<or> \<not> hasToolCalls (ToolCalls m)
          then Inl (contentError ''content is required unless this is an assistant tool-call turn'')
          else Inr st)"

fun classify_messages :: "codec \<Rightarrow> media_limits \<Rightarrow> message list \<Rightarrow> media_walk \<Rightarrow> api_error + media_walk" where
  "classify_messages C lims [] st = Inr st"
| "classify_messages C lims (m # ms) st = rbind (classify_message C lims m st) (classify_messages C lims ms)"

definition ValidateAndClassify :: "codec \<Rightarrow> media_limits \<Rightarrow> inbound_request \<Rightarrow> api_error + modality" where
  "ValidateAndClassify C lims req =
     (case classify_messages C lims (Messages req) (ModalityText, 0, 0) of
        Inl e \<Rightarrow> Inl e
      | Inr (modality, _, _) \<Rightarrow> Inr modality)"

section \<open>Shape, estimate and body\<close>

text \<open>\<open>utf8.RuneCountInString\<close> of valid UTF-8: the bytes that start a character.\<close>

definition RuneCount :: "string \<Rightarrow> nat" where
  "RuneCount s = length (filter (\<lambda>c. let n = of_char c :: nat in n < 128 \<or> 192 \<le> n) s)"

definition textRunes :: "content \<Rightarrow> int" where
  "textRunes c =
     (case c of
        StringContent t \<Rightarrow> int (RuneCount t)
      | PartsContent ps \<Rightarrow> sum_list (map (\<lambda>p. if Part_Type p = PartTypeText then int (RuneCount (Part_Text p)) else 0) ps)
      | _ \<Rightarrow> 0)"

definition CheckMessageShape :: "message list \<Rightarrow> int \<Rightarrow> int \<Rightarrow> string" where
  "CheckMessageShape msgs maxMessages maxChars =
     (if int (length msgs) > maxMessages then ''too many messages''
      else if \<exists>m \<in> set msgs. textRunes (Content m) > maxChars then ''message content too large''
      else [])"

definition cut_payload :: "bool \<Rightarrow> string \<Rightarrow> string" where
  "cut_payload includeMediaPayload url = (if includeMediaPayload then url else takeWhile (\<lambda>c. c \<noteq> CHR '','') url)"

definition part_bytes :: "bool \<Rightarrow> content_part \<Rightarrow> int" where
  "part_bytes inc p =
     int (length (Part_Type p)) +
     (if Part_Type p = PartTypeText then int (length (Part_Text p))
      else if Part_Type p = PartTypeImageURL
      then (case Part_ImageURL p of None \<Rightarrow> 0
            | Some i \<Rightarrow> int (length (cut_payload inc (Img_URL i))) + int (length (Img_Detail i)))
      else if Part_Type p = PartTypeVideoURL
      then (case Part_VideoURL p of None \<Rightarrow> 0 | Some u \<Rightarrow> int (length (cut_payload inc u)))
      else if Part_Type p = PartTypeInputAudio
      then (case Part_InputAudio p of None \<Rightarrow> 0
            | Some a \<Rightarrow> (if inc then int (length (Aud_Data a)) else 0) + int (length (Aud_Format a)))
      else 0) + 16"

definition estimateBytes :: "bool \<Rightarrow> content \<Rightarrow> int" where
  "estimateBytes inc c =
     (case c of
        StringContent t \<Rightarrow> int (length t)
      | PartsContent ps \<Rightarrow> sum_list (map (part_bytes inc) ps)
      | _ \<Rightarrow> 0)"

definition estimatePromptTokens :: "bool \<Rightarrow> message list \<Rightarrow> int" where
  "estimatePromptTokens inc msgs =
     64 + sum_list (map (\<lambda>m. int (length (Role m)) + estimateBytes inc (Content m) + int (length (Name m)) +
       int (length (ToolCalls m)) + int (length (ToolCallID m)) + int (length (ReasoningContent m)) + 64) msgs)"

definition PromptEstimate :: "inbound_request \<Rightarrow> int" where
  "PromptEstimate req = estimatePromptTokens True (Messages req) + int (length (Tools req)) + int (length (ToolChoice req))"

definition TextPromptEstimate :: "inbound_request \<Rightarrow> int" where
  "TextPromptEstimate req = estimatePromptTokens False (Messages req) + int (length (Tools req)) + int (length (ToolChoice req))"

definition BoundMaxTokens :: "int64 option \<Rightarrow> int64 \<Rightarrow> int64 \<times> int64" where
  "BoundMaxTokens asked capTok =
     (case asked of
        Some v \<Rightarrow> if v > 0 then (let b = (if v > capTok then capTok else v) in (b, b)) else (capTok, capTok)
      | None \<Rightarrow> (capTok, capTok))"

definition canonical_content :: "content \<Rightarrow> content" where
  "canonical_content c =
     (case c of
        PartsContent ps \<Rightarrow>
          if list_all (\<lambda>p. Part_Type p = PartTypeText) ps then StringContent (concat (map Part_Text ps)) else c
      | _ \<Rightarrow> c)"

definition canonicalMessages :: "message list \<Rightarrow> message list" where
  "canonicalMessages ms = map (\<lambda>m. m\<lparr>Content := canonical_content (Content m)\<rparr>) ms"

definition Sanitize :: "inbound_request \<Rightarrow> int64 \<Rightarrow> completion_request" where
  "Sanitize req maxTok =
     \<lparr>Out_Messages = canonicalMessages (Messages req), Out_Stream = In_Stream req, Out_Temperature = Temperature req,
      Out_MaxTokens = Some maxTok, Out_Tools = Tools req, Out_ToolChoice = ToolChoice req,
      IncludeUsage = (if In_Stream req then Some True else None)\<rparr>"

text \<open>What the registry (\<open>infra/chatprovider/registry.go\<close>) puts on the wire for the provider, before it is marshalled:
  the model, the body without earlier reasoning, and the thinking flag. An unknown provider has no encoding.\<close>

record upstream_request =
  Up_Model :: string
  Up_Request :: completion_request
  EnableThinking :: bool

definition encode_request :: "string \<Rightarrow> string \<Rightarrow> completion_request \<Rightarrow> upstream_request option" where
  "encode_request provider model req =
     (if provider \<noteq> ''qwen'' then None
      else Some \<lparr>Up_Model = model,
        Up_Request = req\<lparr>Out_Messages := map (\<lambda>m. m\<lparr>ReasoningContent := []\<rparr>) (Out_Messages req)\<rparr>,
        EnableThinking = True\<rparr>)"

end
