(* ===== verification/Chat_Domain_Props.thy ===== *)
theory Chat_Domain_Props
  imports Chat_Domain
begin

text \<open>
  What a validated chat request contains, and what of it can reach the provider.
\<close>

section \<open>Media parts\<close>

definition inline_image :: "string \<Rightarrow> bool" where
  "inline_image url \<longleftrightarrow>
     (\<exists>meta encoded d. url = ''data:'' @ meta @ '','' @ encoded \<and> StdDecode encoded = Some d \<and>
        (meta = ''image/jpeg;base64'' \<and> isJPEG d \<or> meta = ''image/png;base64'' \<and> isPNG d \<or>
         meta = ''image/webp;base64'' \<and> isWebP d))"

definition inline_video :: "string \<Rightarrow> bool" where
  "inline_video url \<longleftrightarrow> (\<exists>encoded d. url = ''data:video/mp4;base64,'' @ encoded \<and> StdDecode encoded = Some d \<and> isMP4 d)"

definition inline_audio :: "input_audio \<Rightarrow> bool" where
  "inline_audio a \<longleftrightarrow>
     (\<exists>d. StdDecode (Aud_Data a) = Some d \<and> (Aud_Format a = ''wav'' \<and> isWAV d \<or> Aud_Format a = ''mp3'' \<and> isMP3 d))"

text \<open>A media part is an upload of ours, or inline data of the type it says.\<close>

definition safe_media :: "codec \<Rightarrow> content_part \<Rightarrow> bool" where
  "safe_media C p \<longleftrightarrow>
     Part_Type p = PartTypeImageURL \<and>
       (\<exists>i. Part_ImageURL p = Some i \<and> (parseMediaLeaseRef C (Img_URL i) \<noteq> None \<or> inline_image (Img_URL i))) \<or>
     Part_Type p = PartTypeVideoURL \<and>
       (\<exists>u. Part_VideoURL p = Some u \<and> (parseMediaLeaseRef C u \<noteq> None \<or> inline_video u)) \<or>
     Part_Type p = PartTypeInputAudio \<and> (\<exists>a. Part_InputAudio p = Some a \<and> inline_audio a)"

text \<open>The bytes a part's own data decodes to; an upload counts nothing.\<close>

definition decoded_size :: "codec \<Rightarrow> content_part \<Rightarrow> int" where
  "decoded_size C p =
     (if Part_Type p = PartTypeImageURL
      then (case Part_ImageURL p of None \<Rightarrow> 0
            | Some i \<Rightarrow> if parseMediaLeaseRef C (Img_URL i) \<noteq> None then 0
                        else int (length (the (StdDecode (drop 1 (dropWhile (\<lambda>c. c \<noteq> CHR '','') (Img_URL i)))))))
      else if Part_Type p = PartTypeVideoURL
      then (case Part_VideoURL p of None \<Rightarrow> 0
            | Some u \<Rightarrow> if parseMediaLeaseRef C u \<noteq> None then 0
                        else int (length (the (StdDecode (drop (length ''data:video/mp4;base64,'') u)))))
      else if Part_Type p = PartTypeInputAudio
      then (case Part_InputAudio p of None \<Rightarrow> 0 | Some a \<Rightarrow> int (length (the (StdDecode (Aud_Data a)))))
      else 0)"

lemma part_types [simp]:
  "PartTypeText \<noteq> PartTypeImageURL" "PartTypeText \<noteq> PartTypeVideoURL" "PartTypeText \<noteq> PartTypeInputAudio"
  "PartTypeImageURL \<noteq> PartTypeText" "PartTypeVideoURL \<noteq> PartTypeText" "PartTypeInputAudio \<noteq> PartTypeText"
  "PartTypeImageURL \<noteq> PartTypeVideoURL" "PartTypeVideoURL \<noteq> PartTypeImageURL"
  "PartTypeImageURL \<noteq> PartTypeInputAudio" "PartTypeInputAudio \<noteq> PartTypeImageURL"
  "PartTypeVideoURL \<noteq> PartTypeInputAudio" "PartTypeInputAudio \<noteq> PartTypeVideoURL"
  by (simp_all add: PartTypeText_def PartTypeImageURL_def PartTypeVideoURL_def PartTypeInputAudio_def)

lemma decodeBase64_Inr:
  assumes "decodeBase64 s mx = Inr d"
  shows "StdDecode s = Some d \<and> int (length d) \<le> mx"
  using assms by (auto simp: decodeBase64_def split: if_splits option.splits)

lemma is_prefix_split: "is_prefix p s \<Longrightarrow> s = p @ drop (length p) s"
  unfolding is_prefix_def by (metis append_take_drop_id)

lemma comma_split:
  assumes "length (takeWhile (\<lambda>c. c \<noteq> CHR '','') url) \<noteq> length url"
  defines "n \<equiv> length (takeWhile (\<lambda>c. c \<noteq> CHR '','') url)"
  shows "url = take n url @ '','' @ drop (n + 1) url" and "drop (n + 1) url = drop 1 (dropWhile (\<lambda>c. c \<noteq> CHR '','') url)"
proof -
  let ?P = "\<lambda>c. c \<noteq> CHR '',''"
  have lt: "n < length url" using assms(1) length_takeWhile_le[of ?P url] by (simp add: n_def)
  then have "\<not> ?P (url ! n)" unfolding n_def by (rule nth_length_takeWhile)
  then have "drop n url = CHR '','' # drop (n + 1) url" using lt by (simp add: Cons_nth_drop_Suc[symmetric])
  then show "url = take n url @ '','' @ drop (n + 1) url" by (metis append_Cons append_Nil append_take_drop_id)
  show "drop (n + 1) url = drop 1 (dropWhile ?P url)" by (simp add: n_def dropWhile_eq_drop)
qed

lemma validateImage_Inr:
  assumes "validateImage C (Some i) mx = Inr n" "0 \<le> mx"
  shows "(parseMediaLeaseRef C (Img_URL i) \<noteq> None \<and> n = 0 \<or>
     inline_image (Img_URL i) \<and> parseMediaLeaseRef C (Img_URL i) = None \<and>
     n = int (length (the (StdDecode (drop 1 (dropWhile (\<lambda>c. c \<noteq> CHR '','') (Img_URL i))))))) \<and> 0 \<le> n \<and> n \<le> mx"
proof (cases "parseMediaLeaseRef C (Img_URL i) = None")
  case True
  let ?url = "Img_URL i"
  define k where "k = length (takeWhile (\<lambda>c. c \<noteq> CHR '','') ?url)"
  note v = assms(1)[unfolded validateImage_def option.case Let_def, folded k_def]
  from v True have p: "is_prefix ''data:'' ?url" and k: "k \<noteq> length ?url" by (auto split: if_splits)
  define meta where "meta = drop 5 (take k ?url)"
  define encoded where "encoded = drop (k + 1) ?url"
  have u: "?url = take k ?url @ '','' @ encoded" and e: "encoded = drop 1 (dropWhile (\<lambda>c. c \<noteq> CHR '','') ?url)"
    using comma_split[of ?url] k by (simp_all add: k_def encoded_def)
  from is_prefix_split[OF p] obtain r where r: "?url = ''data:'' @ r" by blast
  then have "take 5 ?url = ''data:''" by simp
  moreover have "5 \<le> k" unfolding k_def r by simp
  ultimately have "take k ?url = ''data:'' @ meta"
    unfolding meta_def by (metis append_take_drop_id min.absorb1 take_take)
  with u have url: "?url = ''data:'' @ meta @ '','' @ encoded" by simp
  from v True p k obtain test d where
    m: "(if meta = ''image/jpeg;base64'' then Some isJPEG else if meta = ''image/png;base64'' then Some isPNG
         else if meta = ''image/webp;base64'' then Some isWebP else None) = Some test"
    and d: "decodeBase64 encoded mx = Inr d" "test d" "n = int (length d)"
    by (auto simp: meta_def encoded_def rbind_Inr_iff split: if_splits option.splits)
  note dd = decodeBase64_Inr[OF d(1)]
  have "inline_image ?url" unfolding inline_image_def
    by (intro exI[of _ meta] exI[of _ encoded] exI[of _ d] conjI url) (use m dd d(2) in \<open>auto split: if_splits\<close>)
  then show ?thesis using True dd d(3) unfolding e by simp
next
  case False
  then show ?thesis using assms by (auto simp: validateImage_def)
qed

lemma validateVideo_Inr:
  assumes "validateVideo C (Some u) mx = Inr n" "0 \<le> mx"
  shows "(parseMediaLeaseRef C u \<noteq> None \<and> n = 0 \<or>
     inline_video u \<and> parseMediaLeaseRef C u = None \<and>
     n = int (length (the (StdDecode (drop (length ''data:video/mp4;base64,'') u))))) \<and> 0 \<le> n \<and> n \<le> mx"
proof (cases "parseMediaLeaseRef C u = None")
  case True
  with assms obtain d where p: "is_prefix ''data:video/mp4;base64,'' u"
    and d: "decodeBase64 (drop (length ''data:video/mp4;base64,'') u) mx = Inr d" "isMP4 d" "n = int (length d)"
    by (auto simp: validateVideo_def rbind_Inr_iff split: if_splits)
  note dd = decodeBase64_Inr[OF d(1)]
  have "inline_video u" unfolding inline_video_def using is_prefix_split[OF p] dd d(2) by blast
  then show ?thesis using True dd d(3) by simp
qed (use assms in \<open>auto simp: validateVideo_def\<close>)

lemma validateAudio_Inr:
  assumes "validateAudio (Some a) mx = Inr n" "0 \<le> mx"
  shows "inline_audio a \<and> n = int (length (the (StdDecode (Aud_Data a)))) \<and> 0 \<le> n \<and> n \<le> mx"
  using assms decodeBase64_Inr[of "Aud_Data a" mx]
  by (auto simp: validateAudio_def inline_audio_def rbind_Inr_iff split: if_splits option.splits)

section \<open>The walk\<close>

definition is_media :: "content_part \<Rightarrow> bool" where
  "is_media p \<longleftrightarrow> Part_Type p \<in> {PartTypeImageURL, PartTypeVideoURL, PartTypeInputAudio}"

definition parts_of :: "content \<Rightarrow> content_part list" where
  "parts_of c = (case c of PartsContent ps \<Rightarrow> ps | _ \<Rightarrow> [])"

definition all_parts :: "message list \<Rightarrow> content_part list" where
  "all_parts ms = concat (map (\<lambda>m. parts_of (Content m)) ms)"

text \<open>What one step adds: the state within its limits, and the sums over the parts seen.\<close>

definition walk_ok :: "media_limits \<Rightarrow> media_walk \<Rightarrow> bool" where
  "walk_ok l st = (case st of (md, k, b) \<Rightarrow>
     0 \<le> k \<and> 0 \<le> b \<and> b \<le> MaxDecodedBytes l \<and> (0 < k \<longrightarrow> k \<le> MaxParts l) \<and> (k = 0 \<longleftrightarrow> md = ModalityText))"

definition walk_adds :: "codec \<Rightarrow> content_part list \<Rightarrow> media_walk \<Rightarrow> media_walk \<Rightarrow> bool" where
  "walk_adds C ps st st' = (case (st, st') of ((md, k, b), (md', k', b')) \<Rightarrow>
     k' = k + int (length (filter is_media ps)) \<and> b' = b + sum_list (map (decoded_size C) ps) \<and>
     (md' = ModalityAudio \<longleftrightarrow> md = ModalityAudio \<or> (\<exists>p \<in> set ps. Part_Type p = PartTypeInputAudio)))"

lemma media_part_step:
  assumes m: "media_part l role v audio st = Inr st'" and ok: "walk_ok l st" and mx: "MaxDecodedBytes l \<le> MaxInt64"
    and v: "\<And>mx n. 0 \<le> mx \<Longrightarrow> v mx = Inr n \<Longrightarrow> n = decoded_size C p \<and> 0 \<le> n \<and> n \<le> mx"
    and p: "is_media p" "audio \<longleftrightarrow> Part_Type p = PartTypeInputAudio"
  shows "role = ''user'' \<and> walk_ok l st' \<and> walk_adds C [p] st st' \<and> (\<exists>mx n. 0 \<le> mx \<and> v mx = Inr n)"
proof -
  obtain md k b where st: "st = (md, k, b)" by (cases st)
  have b: "0 \<le> k" "0 \<le> b" "b \<le> MaxDecodedBytes l" "k = 0 \<longleftrightarrow> md = ModalityText" using ok by (auto simp: st walk_ok_def)
  define left where "left = MaxDecodedBytes l - b"
  have w: "wrap64 (MaxDecodedBytes l - b) = left" "0 \<le> left"
    using b mx unfolding left_def by (auto intro!: wrap64_id)
  from m obtain n where n: "v left = Inr n" and st': "role = ''user''" "0 < MaxParts l" "k + 1 \<le> MaxParts l"
    "st' = (if audio \<or> md = ModalityAudio then ModalityAudio else ModalityMultimodal, k + 1, wrap64 (b + n))"
    using w by (auto simp: media_part_def st Let_def split: if_splits sum.splits)
  note vn = v[OF w(2) n]
  have "wrap64 (b + n) = b + n" using vn b mx by (intro wrap64_id) (auto simp: left_def)
  then have "walk_ok l st'" "walk_adds C [p] st st'"
    using st' vn b p by (auto simp: walk_ok_def walk_adds_def st left_def)
  with st'(1) n w(2) show ?thesis by blast
qed

lemma classify_part_step:
  assumes c: "classify_part C l role p st = Inr st'" and ok: "walk_ok l st" and mx: "MaxDecodedBytes l \<le> MaxInt64"
  shows "(Part_Type p = PartTypeText \<or> role = ''user'' \<and> safe_media C p) \<and> walk_ok l st' \<and> walk_adds C [p] st st'"
proof -
  consider "Part_Type p = PartTypeText" "st' = st"
    | "Part_Type p = PartTypeImageURL" "media_part l role (validateImage C (Part_ImageURL p)) False st = Inr st'"
    | "Part_Type p = PartTypeVideoURL" "media_part l role (validateVideo C (Part_VideoURL p)) False st = Inr st'"
    | "Part_Type p = PartTypeInputAudio" "media_part l role (validateAudio (Part_InputAudio p)) True st = Inr st'"
    using c by (auto simp: classify_part_def split: if_splits)
  then show ?thesis
  proof cases
    case 1
    then show ?thesis using ok by (auto simp: walk_adds_def is_media_def decoded_size_def split: prod.split)
  next
    case 2
    have v: "\<exists>i. Part_ImageURL p = Some i \<and> n = decoded_size C p \<and> 0 \<le> n \<and> n \<le> mx \<and>
        (parseMediaLeaseRef C (Img_URL i) \<noteq> None \<or> inline_image (Img_URL i))"
      if "0 \<le> mx" "validateImage C (Part_ImageURL p) mx = Inr n" for mx n
    proof (cases "Part_ImageURL p")
      case (Some i)
      then show ?thesis using validateImage_Inr[of C i mx n] that 2(1) by (auto simp: decoded_size_def)
    qed (use that in \<open>simp add: validateImage_def\<close>)
    have w: "n = decoded_size C p \<and> 0 \<le> n \<and> n \<le> mx" if "0 \<le> mx" "validateImage C (Part_ImageURL p) mx = Inr n" for mx n
      using v[OF that] by blast
    from media_part_step[OF 2(2) ok mx w] 2(1) obtain mx n where
      r: "role = ''user''" "walk_ok l st'" "walk_adds C [p] st st'" "0 \<le> mx" "validateImage C (Part_ImageURL p) mx = Inr n"
      by (auto simp: is_media_def)
    from v[OF r(4,5)] have "safe_media C p" using 2(1) by (auto simp: safe_media_def)
    with r show ?thesis by blast
  next
    case 3
    have v: "\<exists>u. Part_VideoURL p = Some u \<and> n = decoded_size C p \<and> 0 \<le> n \<and> n \<le> mx \<and>
        (parseMediaLeaseRef C u \<noteq> None \<or> inline_video u)"
      if "0 \<le> mx" "validateVideo C (Part_VideoURL p) mx = Inr n" for mx n
    proof (cases "Part_VideoURL p")
      case (Some u)
      then show ?thesis using validateVideo_Inr[of C u mx n] that 3(1) by (auto simp: decoded_size_def)
    qed (use that in \<open>simp add: validateVideo_def\<close>)
    have w: "n = decoded_size C p \<and> 0 \<le> n \<and> n \<le> mx" if "0 \<le> mx" "validateVideo C (Part_VideoURL p) mx = Inr n" for mx n
      using v[OF that] by blast
    from media_part_step[OF 3(2) ok mx w] 3(1) obtain mx n where
      r: "role = ''user''" "walk_ok l st'" "walk_adds C [p] st st'" "0 \<le> mx" "validateVideo C (Part_VideoURL p) mx = Inr n"
      by (auto simp: is_media_def)
    from v[OF r(4,5)] have "safe_media C p" using 3(1) by (auto simp: safe_media_def)
    with r show ?thesis by blast
  next
    case 4
    have v: "\<exists>a. Part_InputAudio p = Some a \<and> n = decoded_size C p \<and> 0 \<le> n \<and> n \<le> mx \<and> inline_audio a"
      if "0 \<le> mx" "validateAudio (Part_InputAudio p) mx = Inr n" for mx n
    proof (cases "Part_InputAudio p")
      case (Some a)
      then show ?thesis using validateAudio_Inr[of a mx n] that 4(1) by (auto simp: decoded_size_def)
    qed (use that in \<open>simp add: validateAudio_def\<close>)
    have w: "n = decoded_size C p \<and> 0 \<le> n \<and> n \<le> mx" if "0 \<le> mx" "validateAudio (Part_InputAudio p) mx = Inr n" for mx n
      using v[OF that] by blast
    from media_part_step[OF 4(2) ok mx w] 4(1) obtain mx n where
      r: "role = ''user''" "walk_ok l st'" "walk_adds C [p] st st'" "0 \<le> mx" "validateAudio (Part_InputAudio p) mx = Inr n"
      by (auto simp: is_media_def)
    from v[OF r(4,5)] have "safe_media C p" using 4(1) by (auto simp: safe_media_def)
    with r show ?thesis by blast
  qed
qed

lemma walk_adds_trans:
  "walk_adds C ps st st1 \<Longrightarrow> walk_adds C qs st1 st2 \<Longrightarrow> walk_adds C (ps @ qs) st st2"
  by (auto simp: walk_adds_def split: prod.splits)

lemma walk_adds_Nil [simp]: "walk_adds C [] st st"
  by (auto simp: walk_adds_def split: prod.split)

lemma classify_parts_walk:
  "classify_parts C l role ps st = Inr st' \<Longrightarrow> walk_ok l st \<Longrightarrow> MaxDecodedBytes l \<le> MaxInt64 \<Longrightarrow>
   (\<forall>p \<in> set ps. Part_Type p = PartTypeText \<or> role = ''user'' \<and> safe_media C p) \<and> walk_ok l st' \<and> walk_adds C ps st st'"
proof (induction ps arbitrary: st)
  case (Cons p ps)
  from Cons.prems(1) obtain st1 where s: "classify_part C l role p st = Inr st1" "classify_parts C l role ps st1 = Inr st'"
    by (auto simp: rbind_Inr_iff)
  note f = classify_part_step[OF s(1) Cons.prems(2,3)]
  note g = Cons.IH[OF s(2) conjunct1[OF conjunct2[OF f]] Cons.prems(3)]
  show ?case using f g walk_adds_trans[of C "[p]" st st1 ps st'] by auto
qed simp


definition closed_message :: "codec \<Rightarrow> message \<Rightarrow> bool" where
  "closed_message C m \<longleftrightarrow>
     Role m \<in> {''system'', ''user'', ''assistant'', ''tool''} \<and>
     (\<forall>p \<in> set (parts_of (Content m)). Part_Type p = PartTypeText \<or> Role m = ''user'' \<and> safe_media C p) \<and>
     (Content m \<in> {MissingContent, NullContent} \<longrightarrow> Role m = ''assistant'' \<and> hasToolCalls (ToolCalls m)) \<and>
     (Role m = ''tool'' \<longrightarrow> TrimSpace (ToolCallID m) \<noteq> [])"

lemma classify_message_walk:
  assumes "classify_message C l m st = Inr st'" "walk_ok l st" "MaxDecodedBytes l \<le> MaxInt64"
  shows "closed_message C m \<and> walk_ok l st' \<and> walk_adds C (parts_of (Content m)) st st'"
proof (cases "Content m")
  case (PartsContent ps)
  with assms(1) have r: "Role m \<in> {''system'', ''user'', ''assistant'', ''tool''}"
    "Role m = ''tool'' \<longrightarrow> TrimSpace (ToolCallID m) \<noteq> []" and c: "classify_parts C l (Role m) ps st = Inr st'"
    by (auto simp: classify_message_def split: if_splits)
  from classify_parts_walk[OF c assms(2,3)] r show ?thesis
    by (simp add: PartsContent parts_of_def closed_message_def)
qed (use assms in \<open>auto simp: classify_message_def parts_of_def closed_message_def split: if_splits\<close>)

lemma all_parts_Cons [simp]: "all_parts (m # ms) = parts_of (Content m) @ all_parts ms"
  and all_parts_Nil [simp]: "all_parts [] = []"
  by (simp_all add: all_parts_def)

lemma classify_messages_walk:
  "classify_messages C l ms st = Inr st' \<Longrightarrow> walk_ok l st \<Longrightarrow> MaxDecodedBytes l \<le> MaxInt64 \<Longrightarrow>
   list_all (closed_message C) ms \<and> walk_ok l st' \<and> walk_adds C (all_parts ms) st st'"
proof (induction ms arbitrary: st)
  case (Cons m ms)
  from Cons.prems(1) obtain st1 where s: "classify_message C l m st = Inr st1" "classify_messages C l ms st1 = Inr st'"
    by (auto simp: rbind_Inr_iff)
  note f = classify_message_walk[OF s(1) Cons.prems(2,3)]
  note g = Cons.IH[OF s(2) conjunct1[OF conjunct2[OF f]] Cons.prems(3)]
  show ?case using f g walk_adds_trans[of C "parts_of (Content m)" st st1 "all_parts ms" st'] by auto
qed simp

section \<open>A validated request\<close>

text \<open>C27. A chat request that passes validation is inside the closed protocol: only the four roles, media only in
  user messages, each media part an upload path or inline base64 data that decodes to a file of the type it says, a
  missing content only on an assistant turn that calls tools; no more media parts than allowed, no more decoded bytes
  over the whole history than allowed (the running sum never wraps), and the modality that the router sees is the one
  of the parts: audio when any part is audio, multimodal when any part is media, text otherwise.\<close>

theorem validated_media:
  assumes "ValidateAndClassify C l req = Inr md" and "0 \<le> MaxDecodedBytes l" "MaxDecodedBytes l \<le> MaxInt64"
  shows "list_all (closed_message C) (Messages req) \<and>
    int (length (filter is_media (all_parts (Messages req)))) \<le> max 0 (MaxParts l) \<and>
    sum_list (map (decoded_size C) (all_parts (Messages req))) \<le> MaxDecodedBytes l \<and>
    md = (if \<exists>p \<in> set (all_parts (Messages req)). Part_Type p = PartTypeInputAudio then ModalityAudio
          else if \<exists>p \<in> set (all_parts (Messages req)). is_media p then ModalityMultimodal else ModalityText)"
proof -
  from assms(1) obtain k b where c: "classify_messages C l (Messages req) (ModalityText, 0, 0) = Inr (md, k, b)"
    by (auto simp: ValidateAndClassify_def split: sum.splits)
  have ok: "walk_ok l (ModalityText, 0, 0)" using assms(2) by (simp add: walk_ok_def)
  from classify_messages_walk[OF c ok assms(3)]
  have w: "list_all (closed_message C) (Messages req)" "walk_ok l (md, k, b)"
    "walk_adds C (all_parts (Messages req)) (ModalityText, 0, 0) (md, k, b)" by simp_all
  have none: "k = 0 \<longleftrightarrow> \<not> (\<exists>p \<in> set (all_parts (Messages req)). is_media p)"
    using w(3) by (auto simp: walk_adds_def filter_empty_conv)
  have "md = ModalityText \<longleftrightarrow> k = 0" using w(2) by (auto simp: walk_ok_def)
  with none have md: "md = (if \<exists>p \<in> set (all_parts (Messages req)). Part_Type p = PartTypeInputAudio then ModalityAudio
          else if \<exists>p \<in> set (all_parts (Messages req)). is_media p then ModalityMultimodal else ModalityText)"
    using w(3) by (cases md) (auto simp: walk_adds_def is_media_def)
  show ?thesis using w md by (auto simp: walk_ok_def walk_adds_def)
qed

section \<open>What reaches the provider\<close>

definition lease_parts :: "codec \<Rightarrow> inbound_request \<Rightarrow> string list" where
  "lease_parts C req = map Ref_Raw (MediaLeaseRefs C req)"

lemma parse_raw: "parseMediaLeaseRef C u = Some r \<Longrightarrow> Ref_Raw r = u"
  by (auto simp: parseMediaLeaseRef_def Let_def split: if_splits option.splits)

lemma lease_part_listed:
  assumes "m \<in> set (Messages req)" "p \<in> set (parts_of (Content m))" "part_url p = Some u" "parseMediaLeaseRef C u \<noteq> None"
  shows "u \<in> set (lease_parts C req)"
proof -
  obtain r where r: "parseMediaLeaseRef C u = Some r" using assms(4) by blast
  with assms have "r \<in> set (MediaLeaseRefs C req)"
    by (auto simp: MediaLeaseRefs_def parts_of_def split: content.splits intro!: bexI[of _ m] bexI[of _ p])
  with parse_raw[OF r] show ?thesis by (force simp: lease_parts_def)
qed

lemma safe_media_url:
  assumes "safe_media C p" "part_url p = Some u"
  shows "parseMediaLeaseRef C u \<noteq> None \<or> is_prefix ''data:'' u"
  using assms
  by (auto simp: safe_media_def part_url_def inline_image_def inline_video_def is_prefix_def split: if_splits)

lemma inline_part_url:
  "part_url (inline_part t p) =
     (case part_url p of None \<Rightarrow> None | Some u \<Rightarrow> Some (case tget t u of None \<Rightarrow> u | Some d \<Rightarrow> data_uri d))"
  by (auto simp: part_url_def inline_part_def split: option.splits)

lemma inline_part_type [simp]: "Part_Type (inline_part t p) = Part_Type p"
  by (auto simp: inline_part_def split: option.splits)

lemma canonical_parts: "p \<in> set (parts_of (canonical_content c)) \<Longrightarrow> p \<in> set (parts_of c)"
  by (auto simp: canonical_content_def parts_of_def split: content.splits if_splits)


section \<open>The path of an upload\<close>

text \<open>The prefix and the suffix of the path may share a slash: the collection path itself names the lease \<open>content\<close>.\<close>

lemma overlapping_lease_path:
  assumes "url_parse C ''/v1/media/leases/content?token=t'' =
    Some \<lparr>Url_Scheme = [], Url_Host = [], Url_Opaque = [], Url_User = False, Url_Path = ''/v1/media/leases/content'',
      Url_RawQuery = ''token=t''\<rparr>"
  shows "map_option LeaseID (parseMediaLeaseRef C ''/v1/media/leases/content?token=t'') = Some ''content''"
proof -
  have "query_get ''token'' (parse_query ''token=t'') = ''t''" by code_simp
  moreover have "is_prefix leasePathPrefix ''/v1/media/leases/content?token=t''" by code_simp
  moreover have "is_prefix leasePathPrefix ''/v1/media/leases/content''" by code_simp
  moreover have "is_suffix leasePathSuffix ''/v1/media/leases/content''" by code_simp
  moreover have "trim_suffix leasePathSuffix (drop (length leasePathPrefix) ''/v1/media/leases/content'') = ''content''"
    by code_simp
  ultimately show ?thesis using assms by (simp add: parseMediaLeaseRef_def Let_def)
qed

section \<open>A request that is accepted\<close>

definition split_url :: "string \<Rightarrow> url_parts option" where
  "split_url s =
     (let p = takeWhile (\<lambda>c. c \<noteq> CHR ''?'') s
      in Some \<lparr>Url_Scheme = [], Url_Host = [], Url_Opaque = [], Url_User = False, Url_Path = p,
           Url_RawQuery = drop (length p + 1) s\<rparr>)"

definition sample_codec :: codec where
  "sample_codec = \<lparr>url_parse = split_url, parse_float = (\<lambda>s. None)\<rparr>"

definition plain_message :: "string \<Rightarrow> content \<Rightarrow> message" where
  "plain_message r c = \<lparr>Role = r, Content = c, Name = [], ToolCalls = [], ToolCallID = [], ReasoningContent = ''old''\<rparr>"

definition text_part :: "string \<Rightarrow> content_part" where
  "text_part t = \<lparr>Part_Type = PartTypeText, Part_Text = t, Part_ImageURL = None, Part_VideoURL = None, Part_InputAudio = None\<rparr>"

definition image_part :: "string \<Rightarrow> content_part" where
  "image_part u = (text_part [])\<lparr>Part_Type := PartTypeImageURL, Part_ImageURL := Some \<lparr>Img_URL = u, Img_Detail = []\<rparr>\<rparr>"

definition sample_lease :: string where "sample_lease = ''/v1/media/leases/a/content?token=t''"

definition sample_request :: inbound_request where
  "sample_request =
     \<lparr>In_Model = ''x'', Messages =
        [plain_message ''system'' (StringContent ''hi''),
         plain_message ''user'' (PartsContent [text_part ''see'', image_part ''data:image/png;base64,iVBORw0KGgo='',
           image_part sample_lease]),
         plain_message ''assistant'' (PartsContent [text_part ''a'', text_part ''b''])],
      In_Stream = True, Temperature = None, MaxTokens = Some 10, In_N = None, Tools = [], ToolChoice = []\<rparr>"

definition sample_limits :: media_limits where "sample_limits = \<lparr>MaxParts = 2, MaxDecodedBytes = 8\<rparr>"

lemma sample_valid: "ValidateAndClassify sample_codec sample_limits sample_request = Inr ModalityMultimodal"
  by code_simp

theorem validated_media_witness:
  "int (length (filter is_media (all_parts (Messages sample_request)))) \<le> 2 \<and>
   sum_list (map (decoded_size sample_codec) (all_parts (Messages sample_request))) \<le> 8"
  using validated_media[OF sample_valid] by (simp add: sample_limits_def MaxInt64_def)

end
