(* ===== verification/Chat_Wire.thy ===== *)
theory Chat_Wire
  imports Json_Text Dashboard_Http Billing Config
begin

text \<open>
  What the gateway reads of a provider's answer and lets through: the rewriting of the model name in a body or a
  stream line (\<open>internal/app/chat/response_model.go\<close>) and the usage vector (\<open>internal/domain/chat/usage.go\<close>).
\<close>

section \<open>The members of an object\<close>

text \<open>One member at the front of a text: its key, the text after the key, its value, the text after the value.\<close>

type_synonym member_token = "string \<times> string \<times> jraw \<times> string"

definition next_member :: "string \<Rightarrow> member_token option" where
  "next_member s =
     (case string_literal s of
        None \<Rightarrow> None
      | Some (k, m) \<Rightarrow>
          (case skip_ws m of
             [] \<Rightarrow> None
           | c # m1 \<Rightarrow>
               if c \<noteq> CHR '':'' then None
               else (case decode_value m1 of None \<Rightarrow> None | Some (v, m2) \<Rightarrow> Some (k, m, v, m2))))"

text \<open>The members read before the object ends or the text goes wrong, and in the first case the text after it.\<close>

fun walk_members :: "nat \<Rightarrow> string \<Rightarrow> member_token list \<times> string option" where
  "walk_members 0 s = ([], None)"
| "walk_members (Suc n) s =
     (case next_member s of
        None \<Rightarrow> ([], None)
      | Some (k, m, v, m2) \<Rightarrow>
          (case skip_ws m2 of
             [] \<Rightarrow> ([(k, m, v, m2)], None)
           | c # m3 \<Rightarrow>
               if c = CHR ''}'' then ([(k, m, v, m2)], Some m3)
               else if c = CHR '','' then (case walk_members n (skip_ws m3) of (ts, e) \<Rightarrow> ((k, m, v, m2) # ts, e))
               else ([(k, m, v, m2)], None)))"

definition walk_object :: "string \<Rightarrow> member_token list \<times> string option" where
  "walk_object p =
     (case skip_ws p of
        [] \<Rightarrow> ([], None)
      | c # r \<Rightarrow>
          if c \<noteq> CHR ''{'' then ([], None)
          else (case skip_ws r of
              [] \<Rightarrow> ([], None)
            | d # r' \<Rightarrow> if d = CHR ''}'' then ([], Some r') else walk_members (length (d # r')) (d # r')))"

section \<open>The public model name\<close>

definition utf8_tail :: "char \<Rightarrow> bool" where
  "utf8_tail c \<longleftrightarrow> (let n = of_char c :: nat in 128 \<le> n \<and> n \<le> 191)"

text \<open>\<open>utf8.Valid\<close>.\<close>

fun utf8_valid :: "string \<Rightarrow> bool" where
  "utf8_valid [] = True"
| "utf8_valid (a # s) =
     (let n = of_char a :: nat in
      if n < 128 then utf8_valid s
      else if 194 \<le> n \<and> n \<le> 223 then (case s of b # t \<Rightarrow> utf8_tail b \<and> utf8_valid t | _ \<Rightarrow> False)
      else if 224 \<le> n \<and> n \<le> 239 then
        (case s of
           b # c # t \<Rightarrow> utf8_tail b \<and> utf8_tail c \<and> (n = 224 \<longrightarrow> 160 \<le> (of_char b :: nat)) \<and>
             (n = 237 \<longrightarrow> (of_char b :: nat) \<le> 159) \<and> utf8_valid t
         | _ \<Rightarrow> False)
      else if 240 \<le> n \<and> n \<le> 244 then
        (case s of
           b # c # d # t \<Rightarrow> utf8_tail b \<and> utf8_tail c \<and> utf8_tail d \<and> (n = 240 \<longrightarrow> 144 \<le> (of_char b :: nat)) \<and>
             (n = 244 \<longrightarrow> (of_char b :: nat) \<le> 143) \<and> utf8_valid t
         | _ \<Rightarrow> False)
      else False)"

text \<open>\<open>json.Marshal\<close> of a string of valid UTF-8, which escapes HTML characters and the two line separators.\<close>

definition hex_digit :: "nat \<Rightarrow> char" where
  "hex_digit n = char_of (if n < 10 then n + 48 else n + 87)"

definition json_char :: "char \<Rightarrow> string" where
  "json_char c =
     (let n = of_char c :: nat in
      case map_of [(CHR 0x22, CHR 0x22), (CHR 0x5C, CHR 0x5C), (CHR 0x08, CHR ''b''), (CHR 0x0C, CHR ''f''),
          (CHR 0x0A, CHR ''n''), (CHR 0x0D, CHR ''r''), (CHR 0x09, CHR ''t'')] c of
        Some e \<Rightarrow> [CHR 0x5C, e]
      | None \<Rightarrow>
          if n < 32 \<or> c \<in> {CHR ''<'', CHR ''>'', CHR ''&''}
          then CHR 0x5C # ''u00'' @ [hex_digit (n div 16), hex_digit (n mod 16)]
          else [c])"

fun json_chars :: "string \<Rightarrow> string" where
  "json_chars [] = []"
| "json_chars (a # s) =
     (if a = CHR 0xE2 \<and> take 2 s = bytes [128, 168] then CHR 0x5C # ''u2028'' @ json_chars (drop 2 s)
      else if a = CHR 0xE2 \<and> take 2 s = bytes [128, 169] then CHR 0x5C # ''u2029'' @ json_chars (drop 2 s)
      else json_char a @ json_chars s)"

definition json_quote :: "string \<Rightarrow> string" where
  "json_quote s = CHR 0x22 # json_chars s @ [CHR 0x22]"

definition valueStartAfterKey :: "string \<Rightarrow> nat \<Rightarrow> nat \<Rightarrow> nat option" where
  "valueStartAfterKey payload keyEnd valueEnd =
     (if keyEnd > valueEnd \<or> valueEnd > length payload then None
      else
        let spaces_in = (\<lambda>i. length (takeWhile is_ws (take (valueEnd - i) (drop i payload))));
            i = keyEnd + spaces_in keyEnd
        in if i \<ge> valueEnd \<or> payload ! i \<noteq> CHR '':'' then None
           else let j = i + 1 + spaces_in (i + 1) in if j < valueEnd then Some j else None)"

text \<open>The span of the one \<open>model\<close> value; \<open>None\<close> refuses the payload.\<close>

fun model_span :: "string \<Rightarrow> member_token list \<Rightarrow> (nat \<times> nat) option \<Rightarrow> (nat \<times> nat) option option" where
  "model_span p [] sp = Some sp"
| "model_span p ((k, m, v, m2) # ts) sp =
     (if fold_name k \<noteq> ''model'' then model_span p ts sp
      else if k \<noteq> ''model'' \<or> sp \<noteq> None then None
      else (case valueStartAfterKey p (length p - length m) (length p - length m2) of
          None \<Rightarrow> None
        | Some start \<Rightarrow> model_span p ts (Some (start, length p - length m2))))"

definition rewriteClientModelJSON :: "string \<Rightarrow> string \<Rightarrow> string option" where
  "rewriteClientModelJSON payload publicModelID =
     (if \<not> utf8_valid payload then None
      else case walk_object payload of
        (ts, e) \<Rightarrow>
          (case model_span payload ts None of
             None \<Rightarrow> None
           | Some sp \<Rightarrow>
               (case e of
                  None \<Rightarrow> None
                | Some rest \<Rightarrow>
                    if skip_ws rest \<noteq> [] then None
                    else (case sp of
                        None \<Rightarrow> Some payload
                      | Some (a, b) \<Rightarrow> Some (take a payload @ json_quote publicModelID @ drop b payload)))))"

definition rewriteClientModelSSELine :: "string \<Rightarrow> string \<Rightarrow> string option" where
  "rewriteClientModelSSELine line publicModelID =
     (let r = dropWhile (\<lambda>c. c \<in> {CHR '' '', CHR 0x09, CHR 0x0D}) line in
      if r = [] then Some line
      else if (if last r = CHR 0x0D then butlast r else r) = ''data'' then None
      else if \<not> is_prefix ''data:'' r then (if hd r = CHR '':'' then Some '':'' else None)
      else
        let body = dropWhile (\<lambda>c. c \<in> {CHR '' '', CHR 0x09}) (drop 5 r) in
        if TrimSpace body = ''[DONE]'' then Some line
        else (case rewriteClientModelJSON body publicModelID of
            None \<Rightarrow> None
          | Some payload \<Rightarrow>
              if payload = body then Some line else Some (take (length line - length body) line @ payload)))"

section \<open>Usage\<close>

definition IsDONE :: "string \<Rightarrow> bool" where
  "IsDONE raw =
     (let line = TrimSpace raw in is_prefix ''data:'' line \<and> TrimSpace (drop 5 line) = ''[DONE]'')"

text \<open>The usage member, whether there is one, and whether the payload is beyond trust.\<close>

definition extractUsage :: "string \<Rightarrow> jraw option \<times> bool \<times> bool" where
  "extractUsage payload =
     (case walk_object payload of
        (ts, e) \<Rightarrow>
          let us = [v. (k, m, v, m2) \<leftarrow> ts, fold_name k = ''usage''] in
          if length us > 1 then (None, True, True)
          else case e of
            None \<Rightarrow> (None, us \<noteq> [], True)
          | Some rest \<Rightarrow>
              if skip_ws rest \<noteq> [] then (None, us \<noteq> [], True)
              else (case us of [] \<Rightarrow> (None, False, False) | u # _ \<Rightarrow> (Some u, True, False)))"

fun uniqueJSONKeys :: "jraw \<Rightarrow> bool" where
  "uniqueJSONKeys (Jv t (NArr vs)) = list_all uniqueJSONKeys vs"
| "uniqueJSONKeys (Jv t (NObj ms)) =
     (list_all (\<lambda>m. list_all (\<lambda>c. of_char c < (128 :: nat)) (fst m)) ms \<and>
      distinct (map (\<lambda>m. map lower_char (fst m)) ms) \<and> list_all (\<lambda>m. uniqueJSONKeys (snd m)) ms)"
| "uniqueJSONKeys (Jv t _) = True"

text \<open>Decoding into \<open>usageFields\<close>: \<open>null\<close> leaves a field, \<open>None\<close> is a value of the wrong type.\<close>

definition field_value :: "string \<Rightarrow> (string \<times> jraw) list \<Rightarrow> jraw option" where
  "field_value name ms = map_option snd (find (\<lambda>m. fold_name (fst m) = name) ms)"

definition int_field :: "string \<Rightarrow> (string \<times> jraw) list \<Rightarrow> int64 option" where
  "int_field name ms =
     (case field_value name ms of
        None \<Rightarrow> Some 0
      | Some v \<Rightarrow> (case jv_node v of NNull \<Rightarrow> Some 0 | NNum \<Rightarrow> parse_int (jv_text v) | _ \<Rightarrow> None))"

definition detail_field :: "string \<Rightarrow> string \<Rightarrow> (string \<times> jraw) list \<Rightarrow> int64 option" where
  "detail_field name sub ms =
     (case field_value name ms of
        None \<Rightarrow> Some 0
      | Some v \<Rightarrow> (case jv_node v of NNull \<Rightarrow> Some 0 | NObj ds \<Rightarrow> int_field sub ds | _ \<Rightarrow> None))"

definition malformed_usage :: "bool \<Rightarrow> usage" where
  "malformed_usage present = zero_usage\<lparr>Present := present, Malformed := True\<rparr>"

definition usage_vector :: "int64 \<Rightarrow> int64 \<Rightarrow> int64 \<Rightarrow> int64 \<Rightarrow> int64 \<Rightarrow> usage" where
  "usage_vector prompt completion all cached reasoning =
     \<lparr>Present = True,
      Malformed = (prompt < 0 \<or> completion < 0 \<or> all < 0 \<or> cached < 0 \<or> reasoning < 0),
      PromptTokens = prompt, CompletionTokens = completion, TotalTokens = all,
      CachedPromptTokens = cached, ReasoningTokens = reasoning\<rparr>"

definition parseUsagePayload :: "string \<Rightarrow> usage" where
  "parseUsagePayload payload =
     (case extractUsage payload of
        (raw, present, malformed) \<Rightarrow>
          if malformed then malformed_usage present
          else case raw of
            None \<Rightarrow> zero_usage
          | Some v \<Rightarrow>
              (case jv_node v of
                 NNull \<Rightarrow> zero_usage
               | NObj ms \<Rightarrow>
                   if \<not> uniqueJSONKeys v then malformed_usage True
                   else (case (int_field ''prompt_tokens'' ms, int_field ''completion_tokens'' ms, int_field ''total_tokens'' ms,
                       detail_field ''prompt_tokens_details'' ''cached_tokens'' ms,
                       detail_field ''completion_tokens_details'' ''reasoning_tokens'' ms) of
                       (Some p, Some c, Some t, Some h, Some r) \<Rightarrow> usage_vector p c t h r
                     | _ \<Rightarrow> malformed_usage True)
               | _ \<Rightarrow> malformed_usage True))"

definition ParseUsageSnapshotLine :: "string \<Rightarrow> usage" where
  "ParseUsageSnapshotLine raw =
     (let line = TrimSpace raw in
      if \<not> is_prefix ''data:'' line then zero_usage
      else let payload = TrimSpace (drop 5 line) in
        if payload = ''[DONE]'' then zero_usage else parseUsagePayload payload)"

end
