(* ===== verification/Chat_Decode.thy ===== *)
theory Chat_Decode
  imports Chat_Domain_Props Chat_Wire
begin

text \<open>
  The decoding of a chat request, \<open>DecodeInbound\<close> of \<open>internal/domain/chat/chat.go\<close> with the unmarshallers of
  \<open>content.go\<close>, from the bytes of the body.
\<close>

section \<open>Fields\<close>

text \<open>Decoding into a struct: members in order, matched by folded name; any value of the wrong type is an error.\<close>

fun decode_members :: "(string \<Rightarrow> jraw \<Rightarrow> 'r \<Rightarrow> 'r option) \<Rightarrow> (string \<times> jraw) list \<Rightarrow> 'r \<Rightarrow> 'r option" where
  "decode_members f [] r = Some r"
| "decode_members f ((k, v) # ms) r = (case f (fold_name k) v r of None \<Rightarrow> None | Some r' \<Rightarrow> decode_members f ms r')"

definition decode_object :: "(string \<Rightarrow> jraw \<Rightarrow> 'r \<Rightarrow> 'r option) \<Rightarrow> jraw \<Rightarrow> 'r \<Rightarrow> 'r option" where
  "decode_object f v r = (case jv_node v of NObj ms \<Rightarrow> decode_members f ms r | NNull \<Rightarrow> Some r | _ \<Rightarrow> None)"

definition string_value :: "jraw \<Rightarrow> string \<Rightarrow> string option" where
  "string_value v old = (case jv_node v of NStr s \<Rightarrow> Some s | NNull \<Rightarrow> Some old | _ \<Rightarrow> None)"

definition bool_value :: "jraw \<Rightarrow> bool \<Rightarrow> bool option" where
  "bool_value v old = (case jv_node v of NBool b \<Rightarrow> Some b | NNull \<Rightarrow> Some old | _ \<Rightarrow> None)"

text \<open>A pointer to a number: \<open>null\<close> is nil.\<close>

definition number_pointer :: "(string \<Rightarrow> 'n option) \<Rightarrow> jraw \<Rightarrow> 'n option option" where
  "number_pointer parse v =
     (case jv_node v of NNull \<Rightarrow> Some None | NNum \<Rightarrow> map_option Some (parse (jv_text v)) | _ \<Rightarrow> None)"

text \<open>A map of raw values: exact keys, the last one wins.\<close>

definition raw_fields :: "jraw \<Rightarrow> (string \<times> jraw) list option" where
  "raw_fields v = (case jv_node v of NObj ms \<Rightarrow> Some ms | NNull \<Rightarrow> Some [] | _ \<Rightarrow> None)"

definition last_field :: "string \<Rightarrow> (string \<times> jraw) list \<Rightarrow> jraw option" where
  "last_field k ms = map_of (rev ms) k"

text \<open>A field that must hold a text; an absent one and one of another type fail, \<open>null\<close> reads as the empty text.\<close>

definition text_field :: "string \<Rightarrow> (string \<times> jraw) list \<Rightarrow> string option" where
  "text_field k ms = (case last_field k ms of None \<Rightarrow> None | Some v \<Rightarrow> string_value v [])"

definition filled_field :: "string \<Rightarrow> (string \<times> jraw) list \<Rightarrow> string option" where
  "filled_field k ms = (case text_field k ms of None \<Rightarrow> None | Some s \<Rightarrow> if s = [] then None else Some s)"

definition only_fields :: "string set \<Rightarrow> (string \<times> jraw) list \<Rightarrow> bool" where
  "only_fields ks ms \<longleftrightarrow> list_all (\<lambda>m. fst m \<in> ks) ms"

section \<open>Content\<close>

definition decodeImageURL :: "jraw \<Rightarrow> image_url option" where
  "decodeImageURL v =
     (case raw_fields v of
        None \<Rightarrow> None
      | Some ms \<Rightarrow>
          if \<not> only_fields {''url'', ''detail''} ms then None
          else case filled_field ''url'' ms of
            None \<Rightarrow> None
          | Some url \<Rightarrow>
              if last_field ''detail'' ms = None then Some \<lparr>Img_URL = url, Img_Detail = []\<rparr>
              else (case text_field ''detail'' ms of
                  None \<Rightarrow> None
                | Some d \<Rightarrow>
                    if d \<in> {''auto'', ''low'', ''high''} then Some \<lparr>Img_URL = url, Img_Detail = d\<rparr> else None))"

definition decodeVideoURL :: "jraw \<Rightarrow> string option" where
  "decodeVideoURL v =
     (case raw_fields v of
        None \<Rightarrow> None
      | Some ms \<Rightarrow> if \<not> only_fields {''url''} ms then None else filled_field ''url'' ms)"

definition decodeInputAudio :: "jraw \<Rightarrow> input_audio option" where
  "decodeInputAudio v =
     (case raw_fields v of
        None \<Rightarrow> None
      | Some ms \<Rightarrow>
          if \<not> only_fields {''data'', ''format''} ms then None
          else (case (filled_field ''data'' ms, filled_field ''format'' ms) of
              (Some d, Some f) \<Rightarrow> Some \<lparr>Aud_Data = d, Aud_Format = f\<rparr>
            | _ \<Rightarrow> None))"

definition new_part :: "string \<Rightarrow> content_part" where
  "new_part typ =
     \<lparr>Part_Type = typ, Part_Text = [], Part_ImageURL = None, Part_VideoURL = None, Part_InputAudio = None\<rparr>"

definition part_payload :: "string \<Rightarrow> (string \<times> jraw) list \<Rightarrow> content_part option" where
  "part_payload typ ms =
     (if typ = PartTypeText then map_option (\<lambda>s. (new_part typ)\<lparr>Part_Text := s\<rparr>) (text_field ''text'' ms)
      else if typ = PartTypeImageURL
      then (case last_field ''image_url'' ms of
              None \<Rightarrow> None | Some v \<Rightarrow> map_option (\<lambda>i. (new_part typ)\<lparr>Part_ImageURL := Some i\<rparr>) (decodeImageURL v))
      else if typ = PartTypeVideoURL
      then (case last_field ''video_url'' ms of
              None \<Rightarrow> None | Some v \<Rightarrow> map_option (\<lambda>u. (new_part typ)\<lparr>Part_VideoURL := Some u\<rparr>) (decodeVideoURL v))
      else if typ = PartTypeInputAudio
      then (case last_field ''input_audio'' ms of
              None \<Rightarrow> None | Some v \<Rightarrow> map_option (\<lambda>a. (new_part typ)\<lparr>Part_InputAudio := Some a\<rparr>) (decodeInputAudio v))
      else None)"

definition ContentPart_UnmarshalJSON :: "jraw \<Rightarrow> content_part option" where
  "ContentPart_UnmarshalJSON v =
     (case raw_fields v of
        None \<Rightarrow> None
      | Some ms \<Rightarrow>
          (case filled_field ''type'' ms of
             None \<Rightarrow> None
           | Some typ \<Rightarrow>
               (case part_payload typ ms of
                  None \<Rightarrow> None
                | Some p \<Rightarrow> if only_fields {''type'', typ} ms then Some p else None)))"

definition Content_UnmarshalJSON :: "jraw \<Rightarrow> content option" where
  "Content_UnmarshalJSON v =
     (case jv_node v of
        NNull \<Rightarrow> Some NullContent
      | NStr s \<Rightarrow> Some (StringContent s)
      | NArr vs \<Rightarrow> map_option PartsContent (those (map ContentPart_UnmarshalJSON vs))
      | _ \<Rightarrow> None)"

section \<open>Messages and the request\<close>

definition no_message :: message where
  "no_message =
     \<lparr>Role = [], Content = MissingContent, Name = [], ToolCalls = [], ToolCallID = [], ReasoningContent = []\<rparr>"

text \<open>The wire form keeps the content raw until every member has been read.\<close>

definition message_field :: "string \<Rightarrow> jraw \<Rightarrow> message \<times> jraw option \<Rightarrow> (message \<times> jraw option) option" where
  "message_field k v w =
     (case w of (m, c) \<Rightarrow>
        if k = ''role'' then map_option (\<lambda>s. (m\<lparr>Role := s\<rparr>, c)) (string_value v (Role m))
        else if k = ''content'' then Some (m, Some v)
        else if k = ''name'' then map_option (\<lambda>s. (m\<lparr>Name := s\<rparr>, c)) (string_value v (Name m))
        else if k = ''tool_calls'' then Some (m\<lparr>ToolCalls := jv_text v\<rparr>, c)
        else if k = ''tool_call_id'' then map_option (\<lambda>s. (m\<lparr>ToolCallID := s\<rparr>, c)) (string_value v (ToolCallID m))
        else if k = ''reasoning_content'' then Some (m\<lparr>ReasoningContent := jv_text v\<rparr>, c)
        else Some w)"

definition Message_UnmarshalJSON :: "jraw \<Rightarrow> message option" where
  "Message_UnmarshalJSON v =
     (case decode_object message_field v (no_message, None) of
        None \<Rightarrow> None
      | Some (m, None) \<Rightarrow> Some m
      | Some (m, Some c) \<Rightarrow> map_option (\<lambda>x. m\<lparr>Content := x\<rparr>) (Content_UnmarshalJSON c))"

definition no_request :: inbound_request where
  "no_request =
     \<lparr>In_Model = [], Messages = [], In_Stream = False, Temperature = None, MaxTokens = None, In_N = None, Tools = [],
      ToolChoice = []\<rparr>"

definition messages_value :: "jraw \<Rightarrow> message list option" where
  "messages_value v =
     (case jv_node v of NNull \<Rightarrow> Some [] | NArr vs \<Rightarrow> those (map Message_UnmarshalJSON vs) | _ \<Rightarrow> None)"

definition request_field :: "codec \<Rightarrow> string \<Rightarrow> jraw \<Rightarrow> inbound_request \<Rightarrow> inbound_request option" where
  "request_field C k v q =
     (if k = ''model'' then map_option (\<lambda>s. q\<lparr>In_Model := s\<rparr>) (string_value v (In_Model q))
      else if k = ''messages'' then map_option (\<lambda>ms. q\<lparr>Messages := ms\<rparr>) (messages_value v)
      else if k = ''stream'' then map_option (\<lambda>b. q\<lparr>In_Stream := b\<rparr>) (bool_value v (In_Stream q))
      else if k = ''temperature'' then map_option (\<lambda>x. q\<lparr>Temperature := x\<rparr>) (number_pointer (parse_float C) v)
      else if k = ''max_tokens'' then map_option (\<lambda>x. q\<lparr>MaxTokens := x\<rparr>) (number_pointer parse_int v)
      else if k = ''n'' then map_option (\<lambda>x. q\<lparr>In_N := x\<rparr>) (number_pointer parse_int v)
      else if k = ''tools'' then Some (q\<lparr>Tools := jv_text v\<rparr>)
      else if k = ''tool_choice'' then Some (q\<lparr>ToolChoice := jv_text v\<rparr>)
      else Some q)"

definition n_field :: "string \<Rightarrow> jraw \<Rightarrow> int64 option \<Rightarrow> int64 option option" where
  "n_field k v n = (if k = ''n'' then number_pointer parse_int v else Some n)"

definition n_above_one :: "int64 option \<Rightarrow> bool" where
  "n_above_one n = (case n of None \<Rightarrow> False | Some x \<Rightarrow> x > 1)"

definition errNAllowed :: api_error where
  "errNAllowed = contentError ''n>1 is not allowed''"

definition DecodeInbound :: "codec \<Rightarrow> string \<Rightarrow> api_error + inbound_request" where
  "DecodeInbound C body =
     (if \<not> utf8_valid body then Inl (sentinel_error ErrBadRequest)
      else
        let probe = (case decode_text body of None \<Rightarrow> None | Some v \<Rightarrow> decode_object n_field v None) in
        if (case probe of None \<Rightarrow> False | Some n \<Rightarrow> n_above_one n) then Inl errNAllowed
        else case decode_value body of
          None \<Rightarrow> Inl (sentinel_error ErrBadRequest)
        | Some (v, rest) \<Rightarrow>
            (case decode_object (request_field C) v no_request of
               None \<Rightarrow> Inl (sentinel_error ErrBadRequest)
             | Some req \<Rightarrow>
                 if n_above_one (In_N req) then Inl errNAllowed
                 else if skip_ws rest \<noteq> [] then Inl (sentinel_error ErrBadRequest)
                 else Inr req))"

section \<open>What decoding accepts\<close>

text \<open>A part of the closed union: its type is one of the four and it carries that payload and no other.\<close>

definition closed_part :: "content_part \<Rightarrow> bool" where
  "closed_part p \<longleftrightarrow>
     Part_Type p = PartTypeText \<and> (\<exists>t. p = (new_part PartTypeText)\<lparr>Part_Text := t\<rparr>) \<or>
     Part_Type p = PartTypeImageURL \<and>
       (\<exists>i. p = (new_part PartTypeImageURL)\<lparr>Part_ImageURL := Some i\<rparr> \<and> Img_URL i \<noteq> [] \<and>
          Img_Detail i \<in> {[], ''auto'', ''low'', ''high''}) \<or>
     Part_Type p = PartTypeVideoURL \<and> (\<exists>u. p = (new_part PartTypeVideoURL)\<lparr>Part_VideoURL := Some u\<rparr> \<and> u \<noteq> []) \<or>
     Part_Type p = PartTypeInputAudio \<and>
       (\<exists>a. p = (new_part PartTypeInputAudio)\<lparr>Part_InputAudio := Some a\<rparr> \<and> Aud_Data a \<noteq> [] \<and> Aud_Format a \<noteq> [])"

lemma filled_field_Some: "filled_field k ms = Some s \<Longrightarrow> s \<noteq> []"
  by (auto simp: filled_field_def split: option.splits if_splits)

lemma image_decoded:
  assumes "decodeImageURL v = Some i"
  shows "Img_URL i \<noteq> [] \<and> Img_Detail i \<in> {[], ''auto'', ''low'', ''high''}"
proof -
  from assms obtain ms url where u: "filled_field ''url'' ms = Some url"
    and i: "i = \<lparr>Img_URL = url, Img_Detail = []\<rparr> \<or>
      (\<exists>d. d \<in> {''auto'', ''low'', ''high''} \<and> i = \<lparr>Img_URL = url, Img_Detail = d\<rparr>)"
    unfolding decodeImageURL_def by (force split: option.splits if_split_asm)
  from i filled_field_Some[OF u] show ?thesis by auto
qed

lemma video_decoded: "decodeVideoURL v = Some u \<Longrightarrow> u \<noteq> []"
  by (auto simp: decodeVideoURL_def split: option.splits if_splits dest: filled_field_Some)

lemma audio_decoded: "decodeInputAudio v = Some a \<Longrightarrow> Aud_Data a \<noteq> [] \<and> Aud_Format a \<noteq> []"
  by (auto simp: decodeInputAudio_def split: option.splits if_splits dest: filled_field_Some)

lemma payload_closed:
  assumes "part_payload typ ms = Some p"
  shows "closed_part p"
proof -
  from assms consider t where "typ = PartTypeText" "p = (new_part typ)\<lparr>Part_Text := t\<rparr>"
    | v i where "typ = PartTypeImageURL" "decodeImageURL v = Some i" "p = (new_part typ)\<lparr>Part_ImageURL := Some i\<rparr>"
    | v u where "typ = PartTypeVideoURL" "decodeVideoURL v = Some u" "p = (new_part typ)\<lparr>Part_VideoURL := Some u\<rparr>"
    | v a where "typ = PartTypeInputAudio" "decodeInputAudio v = Some a" "p = (new_part typ)\<lparr>Part_InputAudio := Some a\<rparr>"
    unfolding part_payload_def by (auto split: if_split_asm option.split_asm)
  then show ?thesis
  proof cases
    case 1
    then show ?thesis by (simp add: closed_part_def new_part_def)
  next
    case 2
    then show ?thesis using image_decoded[OF 2(2)] by (simp add: closed_part_def new_part_def)
  next
    case 3
    then show ?thesis using video_decoded[OF 3(2)] by (simp add: closed_part_def new_part_def)
  next
    case 4
    then show ?thesis using audio_decoded[OF 4(2)] by (simp add: closed_part_def new_part_def)
  qed
qed

lemma part_closed: "ContentPart_UnmarshalJSON v = Some p \<Longrightarrow> closed_part p"
  by (auto simp: ContentPart_UnmarshalJSON_def split: option.split_asm if_split_asm intro: payload_closed)

lemma those_Some: "those (map f vs) = Some xs \<Longrightarrow> x \<in> set xs \<Longrightarrow> \<exists>v \<in> set vs. f v = Some x"
  by (induction vs arbitrary: xs) (auto split: option.splits)

definition closed_content :: "content \<Rightarrow> bool" where
  "closed_content c = list_all closed_part (parts_of c)"

lemma content_closed: "Content_UnmarshalJSON v = Some c \<Longrightarrow> closed_content c"
  by (auto simp: Content_UnmarshalJSON_def closed_content_def parts_of_def list_all_iff dest: those_Some part_closed
      split: jnode.splits)

lemma decode_members_inv:
  assumes "decode_members f ms r = Some r'" "P r" and f: "\<And>k v r r'. f k v r = Some r' \<Longrightarrow> P r \<Longrightarrow> P r'"
  shows "P r'"
  using assms(1,2)
proof (induction ms arbitrary: r)
  case (Cons m ms)
  obtain k v where m: "m = (k, v)" by (cases m)
  from Cons.prems(1) m obtain r1 where r1: "f (fold_name k) v r = Some r1" "decode_members f ms r1 = Some r'"
    by (auto split: option.splits)
  show ?case by (rule Cons.IH[OF r1(2) f[OF r1(1) Cons.prems(2)]])
qed simp

lemma decode_object_inv:
  assumes "decode_object f v r = Some r'" "P r" and f: "\<And>k v r r'. f k v r = Some r' \<Longrightarrow> P r \<Longrightarrow> P r'"
  shows "P r'"
  using assms(1,2) decode_members_inv[of f _ r r' P] f by (auto simp: decode_object_def split: jnode.splits)

lemma message_content:
  assumes "Message_UnmarshalJSON v = Some m"
  shows "closed_content (Content m)"
proof -
  from assms obtain m' c where d: "decode_object message_field v (no_message, None) = Some (m', c)"
    and m: "c = None \<and> m = m' \<or> (\<exists>c' x. c = Some c' \<and> Content_UnmarshalJSON c' = Some x \<and> m = m'\<lparr>Content := x\<rparr>)"
    by (auto simp: Message_UnmarshalJSON_def split: option.splits prod.splits)
  have "Content (fst (m', c)) = MissingContent"
    by (rule decode_object_inv[OF d]) (auto simp: no_message_def message_field_def split: if_splits prod.splits option.splits)
  with m show ?thesis by (auto simp: content_closed) (simp add: closed_content_def parts_of_def)
qed

definition closed_request :: "inbound_request \<Rightarrow> bool" where
  "closed_request q = list_all (\<lambda>m. closed_content (Content m)) (Messages q)"

lemma request_field_closed: "request_field C k v q = Some q' \<Longrightarrow> closed_request q \<Longrightarrow> closed_request q'"
  by (auto simp: request_field_def closed_request_def messages_value_def list_all_iff split: if_splits jnode.splits
      dest!: those_Some message_content)

text \<open>C39. What decoding lets in. An accepted body is valid UTF-8 and exactly one JSON value with nothing after it; it
  asks for at most one completion; and every part of every message is in the closed union, with the payload of its type,
  complete, and no other, whatever other fields, duplicates or spellings of field names the body has.\<close>

theorem decoded_is_closed:
  assumes "DecodeInbound C body = Inr req"
  shows "utf8_valid body \<and> decode_text body \<noteq> None \<and> \<not> n_above_one (In_N req) \<and> closed_request req"
proof -
  from assms obtain v rest where d: "utf8_valid body" "decode_value body = Some (v, rest)"
    "decode_object (request_field C) v no_request = Some req" "\<not> n_above_one (In_N req)" "skip_ws rest = []"
    unfolding DecodeInbound_def Let_def by (auto split: if_split_asm option.splits)
  have "closed_request no_request" by (simp add: no_request_def closed_request_def)
  with d(3) have "closed_request req" by (rule decode_object_inv) (rule request_field_closed)
  with d show ?thesis by (simp add: decode_text_def)
qed

end
