(* ===== verification/Chat_Wire_Props.thy ===== *)
theory Chat_Wire_Props
  imports Chat_Wire
begin

text \<open>
  What the rewriting of the model name does to a provider's answer: the object the client reads is the provider's, but
  for the value of its one \<open>model\<close> member.
\<close>

section \<open>One member\<close>

lemma string_append:
  assumes "string_literal s = Some (k, m)"
  obtains a where "s = a @ m" "a \<noteq> []" "\<And>x. string_literal (a @ x) = Some (k, x)" "\<not> is_ws (hd a)"
proof -
  from assms obtain s1 us where s: "s = CHR 0x22 # s1" and u: "scan_units s1 = Some (us, m)" "k = join_units us"
    by (cases s) (auto simp: string_literal_def scan_eval split: if_splits option.splits)
  from scan_units_append[OF u(1)] obtain t where t: "s1 = t @ m" "\<And>x. scan_units (t @ x) = Some (us, x)" by blast
  show thesis
    by (rule that[of "CHR 0x22 # t"]) (simp_all add: s t u(2) string_literal_def scan_eval is_ws_def)
qed

lemma skip_ws_split: "\<exists>w. s = w @ skip_ws s \<and> list_all is_ws w"
  unfolding skip_ws_def by (metis list_all_iff set_takeWhileD takeWhile_dropWhile_id)

lemma skip_ws_append [simp]: "list_all is_ws w \<Longrightarrow> skip_ws (w @ s) = skip_ws s"
  by (simp add: skip_ws_def dropWhile_append list_all_iff)

lemma skip_ws_id [simp]: "\<not> is_ws (hd s) \<Longrightarrow> skip_ws s = s"
  by (cases s) (auto simp: skip_ws_def)

lemma skip_ws_hd: "skip_ws s \<noteq> [] \<Longrightarrow> \<not> is_ws (hd (skip_ws s))"
  unfolding skip_ws_def by (rule hd_dropWhile)

lemma skip_ws_char [simp]: "\<not> is_ws c \<Longrightarrow> skip_ws (c # s) = c # s"
  by (rule skip_ws_id) simp

lemma marks_not_ws [simp]: "\<not> is_ws CHR '':''" "\<not> is_ws CHR '',''" "\<not> is_ws CHR ''}''" "\<not> is_ws CHR ''{''" "\<not> is_ws CHR 0x22"
  by (simp_all add: is_ws_def)

lemma decode_value_split:
  assumes "decode_value s = Some (v, r)"
  obtains w where "s = w @ jv_text v @ r" "list_all is_ws w" "jv_text v \<noteq> []" "\<not> is_ws (hd (jv_text v))"
    "\<And>x. same_head r x \<Longrightarrow> decode_value (jv_text v @ x) = Some (v, x)"
proof -
  from assms have v: "scan_value (length s) (skip_ws s) = Some (v, r)" and d: "int (jdepth v) \<le> maxNestingDepth"
    by (auto simp: decode_value_def split: option.splits if_splits)
  from scan_value_local[OF v] obtain t where t: "skip_ws s = t @ r" "t \<noteq> []" "jv_text v = t"
    "\<And>r' m. same_head r r' \<Longrightarrow> length t \<le> m \<Longrightarrow> scan_value m (t @ r') = Some (v, r')" by metis
  obtain w where w: "s = w @ skip_ws s" "list_all is_ws w" using skip_ws_split by blast
  have h: "\<not> is_ws (hd t)" using skip_ws_hd[of s] t(1,2) by simp
  have "decode_value (t @ x) = Some (v, x)" if "same_head r x" for x
  proof -
    have "skip_ws (t @ x) = t @ x" using h t(2) by (intro skip_ws_id) simp
    then show ?thesis using t(4)[OF that, of "length (t @ x)"] d by (simp add: decode_value_def)
  qed
  with w t h show thesis by (intro that[of w]) simp_all
qed

lemma decode_value_ws:
  assumes "decode_value y = Some (v, r)" "list_all is_ws w" "\<not> is_ws (hd y)"
  shows "decode_value (w @ y) = Some (v, r)"
proof -
  from assms(1,3) have v: "scan_value (length y) y = Some (v, r)" and d: "int (jdepth v) \<le> maxNestingDepth"
    by (auto simp: decode_value_def split: option.splits if_splits)
  have "scan_value (length (w @ y)) y = Some (v, r)" by (rule scan_value_fuel[OF v]) simp
  then show ?thesis using assms(2,3) d by (simp add: decode_value_def)
qed

lemma next_member_split:
  assumes "next_member s = Some (k, m, v, m2)"
  obtains a w1 w2 where "s = a @ m" "m = w1 @ CHR '':'' # w2 @ jv_text v @ m2" "list_all is_ws w1" "list_all is_ws w2"
    "a \<noteq> []" "\<not> is_ws (hd a)" "jv_text v \<noteq> []" "\<not> is_ws (hd (jv_text v))"
    "\<And>x. string_literal (a @ x) = Some (k, x)"
    "\<And>x. same_head m2 x \<Longrightarrow> decode_value (jv_text v @ x) = Some (v, x)"
proof -
  from assms obtain m1 where k: "string_literal s = Some (k, m)" and m1: "skip_ws m = CHR '':'' # m1"
    and v: "decode_value m1 = Some (v, m2)"
    by (auto simp: next_member_def split: option.splits list.splits if_splits)
  from string_append[OF k] obtain a where a: "s = a @ m" "a \<noteq> []" "\<And>x. string_literal (a @ x) = Some (k, x)"
    "\<not> is_ws (hd a)" by metis
  obtain w1 where w1: "m = w1 @ CHR '':'' # m1" "list_all is_ws w1" using skip_ws_split[of m] m1 by auto
  from decode_value_split[OF v] obtain w2 where w2: "m1 = w2 @ jv_text v @ m2" "list_all is_ws w2" "jv_text v \<noteq> []"
    "\<not> is_ws (hd (jv_text v))" "\<And>x. same_head m2 x \<Longrightarrow> decode_value (jv_text v @ x) = Some (v, x)" by metis
  show thesis by (rule that[of a w1 w2]) (use a w1 w2 in simp_all)
qed

lemma next_member_build:
  assumes "\<And>x. string_literal (a @ x) = Some (k, x)" "list_all is_ws w1" "list_all is_ws w2"
    "decode_value y = Some (v, x)" "\<not> is_ws (hd y)"
  shows "next_member (a @ w1 @ CHR '':'' # w2 @ y) = Some (k, w1 @ CHR '':'' # w2 @ y, v, x)"
  using assms(1,2) decode_value_ws[OF assms(4,3,5)] by (simp add: next_member_def)

section \<open>The walk\<close>

lemma next_member_shorter: "next_member s = Some (k, m, v, m2) \<Longrightarrow> length m2 < length s"
  by (elim next_member_split) simp

lemma walk_fuel: "walk_members n s = (ts, Some rest) \<Longrightarrow> length s \<le> N \<Longrightarrow> walk_members N s = (ts, Some rest)"
proof (induction n arbitrary: s ts N)
  case (Suc n)
  from Suc.prems(1) obtain k m v m2 where nm: "next_member s = Some (k, m, v, m2)" by (auto split: option.splits)
  from Suc.prems(1) nm obtain c m3 where c: "skip_ws m2 = c # m3" by (auto split: list.splits)
  have "length (skip_ws m3) < length s"
    using next_member_shorter[OF nm] skip_ws_Cons[OF c] skip_ws_le[of m3] by linarith
  moreover from this obtain N' where N: "N = Suc N'" using Suc.prems(2) by (cases N) auto
  ultimately have le: "length (skip_ws m3) \<le> N'" using Suc.prems(2) by simp
  show ?case
  proof (cases "c = CHR '',''")
    case True
    with Suc.prems(1) nm c obtain ts' where "walk_members n (skip_ws m3) = (ts', Some rest)" "ts = (k, m, v, m2) # ts'"
      by (auto split: prod.splits)
    with Suc.IH[OF this(1) le] nm c True show ?thesis by (simp add: N)
  next
    case False
    with Suc.prems(1) nm c show ?thesis by (simp add: N split: if_splits)
  qed
qed simp

definition key_value :: "member_token \<Rightarrow> string \<times> jraw" where
  "key_value t = (case t of (k, m, v, m2) \<Rightarrow> (k, v))"

text \<open>Other text for one value leaves the other members as they are.\<close>

lemma walk_replace:
  assumes y: "y \<noteq> []" "\<not> is_ws (hd y)" "\<And>x. decode_value (y @ x) = Some (w, x)"
  shows "walk_members n s = (us @ (k, m, v, m2) # zs, Some rest) \<Longrightarrow>
    \<exists>b g us' m'. s = b @ m \<and> m = g @ jv_text v @ m2 \<and> b \<noteq> [] \<and> \<not> is_ws (hd b) \<and> map key_value us' = map key_value us \<and>
      (\<exists>w1 w2. g = w1 @ CHR '':'' # w2 \<and> list_all is_ws w1 \<and> list_all is_ws w2) \<and>
      jv_text v \<noteq> [] \<and> \<not> is_ws (hd (jv_text v)) \<and>
      (\<forall>N. length (b @ g @ y @ m2) \<le> N \<longrightarrow>
        walk_members N (b @ g @ y @ m2) = (us' @ (k, m', w, m2) # zs, Some rest))"
proof (induction us arbitrary: n s)
  case Nil
  then obtain n' where n: "n = Suc n'" by (cases n) auto
  from Nil n have nm: "next_member s = Some (k, m, v, m2)" by (auto split: option.splits list.splits if_splits prod.splits)
  from next_member_split[OF nm] obtain a w1 w2 where a: "s = a @ m" "m = w1 @ CHR '':'' # w2 @ jv_text v @ m2"
    "list_all is_ws w1" "list_all is_ws w2" "a \<noteq> []" "\<not> is_ws (hd a)" "jv_text v \<noteq> []" "\<not> is_ws (hd (jv_text v))"
    "\<And>x. string_literal (a @ x) = Some (k, x)" by metis
  define g where "g = w1 @ CHR '':'' # w2"
  have nm': "next_member (a @ g @ y @ m2) = Some (k, g @ y @ m2, w, m2)"
    using next_member_build[OF a(9,3,4) y(3)[of m2]] y(1,2) by (simp add: g_def)
  have "walk_members N (a @ g @ y @ m2) = ([] @ (k, g @ y @ m2, w, m2) # zs, Some rest)"
    if N: "length (a @ g @ y @ m2) \<le> N" for N
  proof -
    obtain N' where N': "N = Suc N'" using N a(5) by (cases N) auto
    from Nil nm n obtain c m3 where c: "skip_ws m2 = c # m3" by (auto split: list.splits)
    have le: "length (skip_ws m3) \<le> N'" using N N' skip_ws_Cons[OF c] skip_ws_le[of m3] a(5) by (cases a) auto
    show ?thesis
    proof (cases "c = CHR '',''")
      case True
      with Nil nm n c have "walk_members n' (skip_ws m3) = (zs, Some rest)" by (auto split: prod.splits)
      from walk_fuel[OF this le] nm' c True show ?thesis by (simp add: N')
    next
      case False
      with Nil nm n c nm' show ?thesis by (simp add: N' split: if_splits)
    qed
  qed
  then show ?case using a by (intro exI[of _ a] exI[of _ g] exI[of _ "[]"] exI[of _ "g @ y @ m2"]) (auto simp: g_def)
next
  case (Cons tok us)
  obtain k1 m1 v1 m21 where tok: "tok = (k1, m1, v1, m21)" by (cases tok)
  from Cons.prems obtain n' where n: "n = Suc n'" by (cases n) auto
  from Cons.prems n tok have nm: "next_member s = Some (k1, m1, v1, m21)"
    by (auto split: option.splits list.splits if_splits prod.splits)
  from Cons.prems n tok nm obtain m3 where c: "skip_ws m21 = CHR '','' # m3"
    and rec: "walk_members n' (skip_ws m3) = (us @ (k, m, v, m2) # zs, Some rest)"
    by (auto split: list.splits if_splits prod.splits)
  from Cons.IH[OF rec] obtain b g us' m' where ih: "skip_ws m3 = b @ m" "m = g @ jv_text v @ m2" "b \<noteq> []" "\<not> is_ws (hd b)"
    "map key_value us' = map key_value us" "\<exists>w1 w2. g = w1 @ CHR '':'' # w2 \<and> list_all is_ws w1 \<and> list_all is_ws w2"
    "jv_text v \<noteq> []" "\<not> is_ws (hd (jv_text v))"
    "\<And>N. length (b @ g @ y @ m2) \<le> N \<Longrightarrow>
      walk_members N (b @ g @ y @ m2) = (us' @ (k, m', w, m2) # zs, Some rest)" by blast
  from next_member_split[OF nm] obtain a w1 w2 where a: "s = a @ m1" "m1 = w1 @ CHR '':'' # w2 @ jv_text v1 @ m21"
    "list_all is_ws w1" "list_all is_ws w2" "a \<noteq> []" "\<not> is_ws (hd a)" "jv_text v1 \<noteq> []" "\<not> is_ws (hd (jv_text v1))"
    "\<And>x. string_literal (a @ x) = Some (k1, x)" "\<And>x. same_head m21 x \<Longrightarrow> decode_value (jv_text v1 @ x) = Some (v1, x)"
    by metis
  obtain u where u: "m21 = u @ CHR '','' # m3" "list_all is_ws u" using skip_ws_split[of m21] c by auto
  obtain u' where u': "m3 = u' @ skip_ws m3" "list_all is_ws u'" using skip_ws_split[of m3] by blast
  define x where "x = u @ CHR '','' # u' @ b @ g @ y @ m2"
  have head: "same_head m21 x" unfolding u(1) x_def by (cases u) (simp_all add: same_head_def)
  define b' where "b' = a @ w1 @ CHR '':'' # w2 @ jv_text v1 @ u @ CHR '','' # u' @ b"
  have whole: "a @ w1 @ CHR '':'' # w2 @ jv_text v1 @ x = b' @ g @ y @ m2" by (simp add: b'_def x_def)
  have nm': "next_member (b' @ g @ y @ m2) = Some (k1, w1 @ CHR '':'' # w2 @ jv_text v1 @ x, v1, x)"
    using next_member_build[OF a(9,3,4) a(10)[OF head]] a(7,8) by (simp add: whole)
  have skip: "skip_ws x = CHR '','' # u' @ b @ g @ y @ m2" "skip_ws (u' @ b @ g @ y @ m2) = b @ g @ y @ m2"
    using u u' ih(3,4) by (simp_all add: x_def)
  have "walk_members N (b' @ g @ y @ m2) =
      (((k1, w1 @ CHR '':'' # w2 @ jv_text v1 @ x, v1, x) # us') @ (k, m', w, m2) # zs, Some rest)"
    if N: "length (b' @ g @ y @ m2) \<le> N" for N
  proof -
    obtain N' where N': "N = Suc N'" using N by (cases N) (auto simp: b'_def)
    have "length (b @ g @ y @ m2) \<le> N'" using N N' by (simp add: b'_def)
    from ih(9)[OF this] nm' skip show ?thesis by (simp add: N')
  qed
  moreover have "s = b' @ m" using a(1,2) u(1) u' ih(1) by (simp add: b'_def)
  moreover have "b' \<noteq> []" "\<not> is_ws (hd b')" using a(5,6) by (simp_all add: b'_def)
  moreover have "map key_value ((k1, w1 @ CHR '':'' # w2 @ jv_text v1 @ x, v1, x) # us') = map key_value (tok # us)"
    using ih(5) by (simp add: tok key_value_def)
  ultimately show ?case using ih(2,6,7,8)
    by - (rule exI[of _ b'], rule exI[of _ g],
      rule exI[of _ "(k1, w1 @ CHR '':'' # w2 @ jv_text v1 @ x, v1, x) # us'"], rule exI[of _ m'], blast)
qed

section \<open>The public name\<close>

lemma public_char_plain:
  assumes "public_id_char c"
  shows "json_char c = [c]" "c \<noteq> CHR 0x22" "c \<noteq> CHR 0x5C" "\<not> of_char c < (32 :: nat)" "c \<noteq> CHR 0xE2"
proof -
  let ?n = "of_char c :: nat"
  have n: "45 \<le> ?n \<and> ?n \<le> 122 \<and> ?n \<notin> {60, 62, 92}"
    using assms by (auto simp: public_id_char_def Let_def)
  have ne: "c \<noteq> CHR 0x22" "c \<noteq> CHR 0x5C" "c \<noteq> CHR 0x08" "c \<noteq> CHR 0x0C" "c \<noteq> CHR 0x0A" "c \<noteq> CHR 0x0D" "c \<noteq> CHR 0x09"
    "c \<noteq> CHR ''<''" "c \<noteq> CHR ''>''" "c \<noteq> CHR ''&''" "c \<noteq> CHR 0xE2" using n by auto
  then show "json_char c = [c]" "c \<noteq> CHR 0x22" "c \<noteq> CHR 0x5C" "\<not> of_char c < (32 :: nat)" "c \<noteq> CHR 0xE2"
    using n by (simp_all add: json_char_def Let_def)
qed

lemma json_chars_plain: "list_all public_id_char s \<Longrightarrow> json_chars s = s"
  by (induction s rule: json_chars.induct) (auto simp: public_char_plain)

lemma scan_units_plain: "list_all public_id_char s \<Longrightarrow> scan_units (s @ CHR 0x22 # x) = Some (map Inl s, x)"
  by (induction s) (auto simp: public_char_plain)

lemma join_units_plain: "join_units (map Inl s) = s"
  by (induction s) auto

definition public_value :: "string \<Rightarrow> jraw" where
  "public_value i = Jv (json_quote i) (NStr i)"

lemma decode_quote:
  assumes "validPublicModelID i"
  shows "decode_value (json_quote i @ x) = Some (public_value i, x)"
proof -
  have c: "list_all public_id_char i" using assms by (simp add: validPublicModelID_def)
  define s where "s = CHR 0x22 # i @ CHR 0x22 # x"
  have s: "json_quote i @ x = s" "json_quote i = CHR 0x22 # i @ [CHR 0x22]"
    by (simp_all add: s_def json_quote_def json_chars_plain[OF c])
  have "string_literal s = Some (i, x)"
    by (simp add: s_def string_literal_def scan_eval scan_units_plain[OF c] join_units_plain)
  then have "node_scan M E CHR 0x22 s = Some (NStr i, x)" for M E by (simp add: node_scan_def map_Some)
  moreover have "take (length s - length x) s = json_quote i" by (simp add: s_def s(2))
  moreover have "length s = Suc (length i + Suc (length x))" by (simp add: s_def)
  ultimately have "scan_value (length s) s = Some (public_value i, x)"
    by (simp only: value_Some public_value_def) (auto simp: s_def)
  moreover have "skip_ws s = s" by (simp add: s_def)
  ultimately show ?thesis by (simp add: decode_value_def s(1) public_value_def maxNestingDepth_def)
qed

section \<open>The rewritten body\<close>

text \<open>The members of a text that is one object.\<close>

definition object_of :: "string \<Rightarrow> (string \<times> jraw) list option" where
  "object_of p =
     (case walk_object p of
        (ts, Some rest) \<Rightarrow> if skip_ws rest = [] then Some (map key_value ts) else None
      | _ \<Rightarrow> None)"

lemma value_start:
  assumes "list_all is_ws w1" "list_all is_ws w2" "t \<noteq> []" "\<not> is_ws (hd t)"
  shows "valueStartAfterKey (b @ w1 @ CHR '':'' # w2 @ t @ r) (length b) (length (b @ w1 @ CHR '':'' # w2 @ t)) =
    Some (length (b @ w1 @ CHR '':'' # w2))"
proof -
  have tw: "takeWhile is_ws (w @ c # x) = w" if "list_all is_ws w" "\<not> is_ws c" for w c x
    using that by (simp add: list_all_iff takeWhile_append)
  obtain c t' where t: "t = c # t'" using assms(3) by (cases t) auto
  have c: "\<not> is_ws c" using assms(4) t by simp
  show ?thesis
    by (simp add: valueStartAfterKey_def Let_def tw[OF assms(1)] tw[OF assms(2) c] nth_append t)
qed

lemma model_span_taken:
  "model_span p ts (Some x) = Some sp \<Longrightarrow> sp = Some x \<and> list_all (\<lambda>t. fold_name (fst t) \<noteq> ''model'') ts"
  by (induction p ts "Some x" rule: model_span.induct) (auto split: if_splits)

lemma model_span_cases:
  assumes "model_span p ts None = Some sp"
  obtains (none) "sp = None" "list_all (\<lambda>t. fold_name (fst t) \<noteq> ''model'') ts"
  | (one) us m v m2 zs start where "ts = us @ (''model'', m, v, m2) # zs"
      "list_all (\<lambda>t. fold_name (fst t) \<noteq> ''model'') (us @ zs)"
      "valueStartAfterKey p (length p - length m) (length p - length m2) = Some start"
      "sp = Some (start, length p - length m2)"
  using assms
proof (induction ts arbitrary: thesis)
  case (Cons t ts)
  obtain k m v m2 where t: "t = (k, m, v, m2)" by (cases t)
  show ?case
  proof (cases "fold_name k = ''model''")
    case False
    with Cons.prems(3) t have "model_span p ts None = Some sp" by simp
    from Cons.IH[OF _ _ this] show ?thesis
    proof (cases rule: Cons.IH[OF _ _ \<open>model_span p ts None = Some sp\<close>, case_names none one])
      case none
      with False t show ?thesis by (intro Cons.prems(1)) simp_all
    next
      case (one us m' v' m2' zs start)
      with False t show ?thesis by (intro Cons.prems(2)[of "t # us" m' v' m2' zs start]) simp_all
    qed
  next
    case True
    with Cons.prems(3) t obtain start where k: "k = ''model''"
      and st: "valueStartAfterKey p (length p - length m) (length p - length m2) = Some start"
      and r: "model_span p ts (Some (start, length p - length m2)) = Some sp"
      by (auto split: if_splits option.splits)
    from model_span_taken[OF r] st k t show ?thesis by (intro Cons.prems(2)[of "[]" m v m2 ts start]) simp_all
  qed
qed simp

lemma walk_object_split:
  assumes "walk_object p = (ts, Some rest)" "ts \<noteq> []"
  obtains l s where "p = l @ s" "walk_members (length s) s = (ts, Some rest)" "\<not> is_ws (hd s)" "s \<noteq> []"
    "\<And>s'. s' \<noteq> [] \<Longrightarrow> hd s' = hd s \<Longrightarrow> walk_object (l @ s') = walk_members (length s') s'"
proof -
  from assms obtain r where r: "skip_ws p = CHR ''{'' # r"
    by (auto simp: walk_object_def split: list.splits if_splits)
  with assms obtain d r' where d: "skip_ws r = d # r'" "d \<noteq> CHR ''}''" "walk_members (length (d # r')) (d # r') = (ts, Some rest)"
    by (auto simp: walk_object_def split: list.splits if_splits)
  obtain w where w: "p = w @ CHR ''{'' # r" "list_all is_ws w" using skip_ws_split[of p] r by auto
  obtain u where u: "r = u @ d # r'" "list_all is_ws u" using skip_ws_split[of r] d(1) by auto
  have h: "\<not> is_ws d" using skip_ws_hd[of r] d(1) by simp
  show thesis
  proof (rule that[of "w @ CHR ''{'' # u" "d # r'"])
    fix s' :: string assume s': "s' \<noteq> []" "hd s' = hd (d # r')"
    then obtain x where x: "s' = d # x" by (cases s') auto
    have "skip_ws (u @ d # x) = d # x" using u(2) h by simp
    then show "walk_object ((w @ CHR ''{'' # u) @ s') = walk_members (length s') s'"
      using w(2) d(2) by (simp add: walk_object_def x)
  qed (use w u d h in simp_all)
qed

lemma rewritten_object:
  assumes "validPublicModelID i" "rewriteClientModelJSON p i = Some q"
  shows "\<exists>ms. object_of p = Some ms \<and> length (filter (\<lambda>m. fold_name (fst m) = ''model'') ms) \<le> 1 \<and>
    object_of q = Some (map (\<lambda>m. if fold_name (fst m) = ''model'' then (''model'', public_value i) else m) ms)"
proof -
  from assms(2) obtain ts rest sp where w: "walk_object p = (ts, Some rest)" "skip_ws rest = []"
    and sp: "model_span p ts None = Some sp"
    and q: "q = (case sp of None \<Rightarrow> p | Some (a, b) \<Rightarrow> take a p @ json_quote i @ drop b p)"
    by (auto simp: rewriteClientModelJSON_def split: if_splits prod.splits option.splits)
  have op: "object_of p = Some (map key_value ts)" by (simp add: object_of_def w)
  have fst_kv: "fst (key_value t) = fst t" for t by (simp add: key_value_def split: prod.split)
  have plain: "map (\<lambda>m. if fold_name (fst m) = ''model'' then (''model'', public_value i) else m) (map key_value us) = map key_value us"
    "filter (\<lambda>m. fold_name (fst m) = ''model'') (map key_value us) = []"
    if "list_all (\<lambda>t. fold_name (fst t) \<noteq> ''model'') us" for us
    using that by (induction us) (auto simp: fst_kv)
  from sp show ?thesis
  proof (cases rule: model_span_cases)
    case none
    with op q plain[OF none(2)] show ?thesis by simp
  next
    case (one us m v m2 zs start)
    from walk_object_split[OF w(1)] one(1) obtain l s where l: "p = l @ s" "walk_members (length s) s = (ts, Some rest)"
      "\<not> is_ws (hd s)" "s \<noteq> []"
      "\<And>s'. s' \<noteq> [] \<Longrightarrow> hd s' = hd s \<Longrightarrow> walk_object (l @ s') = walk_members (length s') s'" by blast
    let ?y = "json_quote i"
    have y: "?y \<noteq> []" "\<not> is_ws (hd ?y)" by (simp_all add: json_quote_def)
    from walk_replace[OF y decode_quote[OF assms(1)] l(2)[unfolded one(1)]] obtain b g us' m' w1 w2 where
      r: "s = b @ m" "m = g @ jv_text v @ m2" "b \<noteq> []" "map key_value us' = map key_value us"
      "g = w1 @ CHR '':'' # w2" "list_all is_ws w1" "list_all is_ws w2" "jv_text v \<noteq> []" "\<not> is_ws (hd (jv_text v))"
      "walk_members (length (b @ g @ ?y @ m2)) (b @ g @ ?y @ m2) = (us' @ (''model'', m', public_value i, m2) # zs, Some rest)"
      by blast
    have p: "p = (l @ b) @ w1 @ CHR '':'' # w2 @ jv_text v @ m2" by (simp add: l(1) r(1,2,5))
    have "length p - length m = length (l @ b)" "length p - length m2 = length ((l @ b) @ w1 @ CHR '':'' # w2 @ jv_text v)"
      by (simp_all add: p r(2,5))
    with one(3) value_start[OF r(6,7,8,9), of "l @ b" m2] have st: "start = length (l @ b @ g)"
      by (simp add: p r(5))
    have "q = l @ b @ g @ ?y @ m2"
      unfolding q one(4) st by (simp add: p r(5))
    moreover have "walk_object (l @ b @ g @ ?y @ m2) = (us' @ (''model'', m', public_value i, m2) # zs, Some rest)"
      using l(5)[of "b @ g @ ?y @ m2"] r(1,3,10) by simp
    ultimately have oq: "object_of q = Some (map key_value us @ (''model'', public_value i) # map key_value zs)"
      using w(2) r(4) by (simp add: object_of_def key_value_def)
    have fold: "fold_name ''model'' = ''model''" by code_simp
    show ?thesis
      using op oq one(1,2) plain[of us] plain[of zs] fold
      by (intro exI[of _ "map key_value ts"]) (simp add: key_value_def)
  qed
qed

text \<open>C26. The model name a provider puts into an answer never reaches a client. When a body or a stream line is let
  through, it is exactly one JSON object with at most one member whose name reads as \<open>model\<close>, and the client gets the
  same object, member by member and byte for byte, but for the value of that member, which is now the public model id.
  The public id is any id the configuration accepts.\<close>

theorem model_name_hidden:
  assumes "validPublicModelID i" "rewriteClientModelJSON p i = Some q"
  shows "\<exists>ms. object_of p = Some ms \<and> length (filter (\<lambda>m. fold_name (fst m) = ''model'') ms) \<le> 1 \<and>
    object_of q = Some (map (\<lambda>m. if fold_name (fst m) = ''model'' then (''model'', public_value i) else m) ms)"
  by (rule rewritten_object[OF assms])

end
