(* ===== verification/Chat_Service.thy ===== *)
theory Chat_Service
  imports Chat_Decode Chat_Wire_Props Genrun_Store Upstream
begin

text \<open>
  The chat use case, \<open>internal/app/chat\<close>: the gates of \<open>Handle\<close> in their order, the resolution of leases, the
  reservation, the relay of the answer (\<open>forward.go\<close>) and the close-out. A port is the answer it gives this request; the
  wallet is the port of the generation runner.
\<close>

section \<open>Ports\<close>

text \<open>\<open>Lc_Body\<close> is what the body reads to, \<open>None\<close> when the read fails.\<close>

record lease_content =
  Lc_MIMEType :: string
  Lc_SizeBytes :: int64
  Lc_Body :: "string option"

record 'w chat_service =
  ca_codec :: codec
  ca_lookup :: "string \<Rightarrow> go_error + (string \<times> string \<times> bool)"
  ca_allow :: "string \<Rightarrow> bool"
  ca_degraded :: bool
  ca_cfg :: config
  ca_leases :: "(string \<Rightarrow> string \<Rightarrow> string \<Rightarrow> go_error + lease_content) option"
  ca_available :: "string \<Rightarrow> bool"
  ca_breaker :: "string \<Rightarrow> bool"
  ca_quota :: "'w quota_port"
  ca_now :: int
  ca_format :: "int option \<Rightarrow> string"

record handle_input =
  hi_InstallID :: string
  hi_Body :: string
  hi_BodyError :: bool
  hi_BodyTooLarge :: bool

text \<open>The body of an answer: its bytes, whether reading them ends in an error, and whether a scanner already holds
  that error when it returns the line it stops at.\<close>

record up_body =
  ub_data :: string
  ub_err :: bool
  ub_early :: bool

datatype open_answer = OpenFailed "api_error option" charge_exposure | OpenNil | Opened up_body

datatype slot_event = SlotFreed | WaitOver | ClientLeft

text \<open>How the world answers one request: what the other requests do to the wallet meanwhile, the slot, the provider,
  and which of the writes to the client succeed.\<close>

record 'w chat_env =
  ce_others :: "'w \<Rightarrow> 'w"
  ce_slot_free :: bool
  ce_slot_event :: slot_event
  ce_ctx_done :: bool
  ce_open :: "string \<Rightarrow> string \<Rightarrow> completion_request \<Rightarrow> open_answer"
  ce_writes :: "nat \<Rightarrow> bool"

section \<open>Before the reservation\<close>

definition admit :: "'w chat_service \<Rightarrow> handle_input \<Rightarrow> api_error + string" where
  "admit S inp =
     (if hi_InstallID inp = [] then Inl (sentinel_error ErrInvalidInstall)
      else case ca_lookup S (hi_InstallID inp) of
        Inl _ \<Rightarrow> Inl InternalError
      | Inr (installID, st, found) \<Rightarrow>
          if \<not> found then Inl (sentinel_error ErrInvalidInstall)
          else if st = StatusBanned then Inl (sentinel_error ErrAccountBanned)
          else if \<not> ca_allow S installID then Inl (sentinel_error ErrRateLimited)
          else if ca_degraded S then Inl (sentinel_error ErrDiskLow)
          else Inr installID)"

definition media_limits_of :: "config \<Rightarrow> media_limits" where
  "media_limits_of c = \<lparr>MaxParts = cfg_MaxMediaParts c, MaxDecodedBytes = cfg_MaxMediaDecodedBytes c\<rparr>"

definition read_request :: "'w chat_service \<Rightarrow> handle_input \<Rightarrow> api_error + (inbound_request \<times> modality)" where
  "read_request S inp =
     (if hi_BodyTooLarge inp then Inl (sentinel_error ErrRequestBodyTooLarge)
      else if hi_BodyError inp then Inl (sentinel_error ErrBadRequest)
      else case DecodeInbound (ca_codec S) (hi_Body inp) of
        Inl e \<Rightarrow> Inl e
      | Inr req \<Rightarrow>
          if Messages req = [] then Inl (NewError 400 ''BAD_REQUEST'' ''messages is required'')
          else
            let msg = CheckMessageShape (Messages req) (cfg_MaxMessages (ca_cfg S)) (cfg_MaxMessageChars (ca_cfg S)) in
            if msg \<noteq> [] then Inl (NewError 400 ''BAD_REQUEST'' msg)
            else case ValidateAndClassify (ca_codec S) (media_limits_of (ca_cfg S)) req of
              Inl e \<Rightarrow> Inl e
            | Inr modality \<Rightarrow>
                if modality = ModalityAudio then Inl (sentinel_error ErrAudioUnavailable) else Inr (req, modality))"

text \<open>\<open>base64.StdEncoding.EncodeToString\<close>.\<close>

definition std_char :: "nat \<Rightarrow> char" where
  "std_char n = (if n = 62 then CHR ''+'' else if n = 63 then CHR ''/'' else sextet_char n)"

definition StdEncode :: "string \<Rightarrow> string" where
  "StdEncode s =
     map std_char (sextets (map of_char s)) @ replicate ((3 - length s mod 3) mod 3) CHR ''=''"

text \<open>Each lease of the request, opened for this install, within the budget of decoded bytes, by its reference.\<close>

fun inline_leases ::
    "(string \<Rightarrow> string \<Rightarrow> go_error + lease_content) \<Rightarrow> int64 \<Rightarrow> media_lease_ref list \<Rightarrow> int64 \<Rightarrow>
     (string, inlined_lease) table \<Rightarrow> api_error + (string, inlined_lease) table" where
  "inline_leases opn mx [] sofar t = Inr t"
| "inline_leases opn mx (r # rs) sofar t =
     (case opn (LeaseID r) (Ref_Token r) of
        Inl _ \<Rightarrow> Inl (sentinel_error ErrMediaLeaseNotFound)
      | Inr src \<Rightarrow>
          let inlinedBytes = wrap64 (sofar + Lc_SizeBytes src) in
          if mx > 0 \<and> inlinedBytes > mx
          then Inl (contentError ''media exceeds the per-request decoded size limit'')
          else (case Lc_Body src of
              None \<Rightarrow> Inl (sentinel_error ErrMediaUnavailable)
            | Some content \<Rightarrow>
                let data = take (nat (wrap64 (Lc_SizeBytes src + 1))) content in
                if int (length data) \<noteq> Lc_SizeBytes src then Inl (sentinel_error ErrMediaUnavailable)
                else inline_leases opn mx rs inlinedBytes
                  (tput (Ref_Raw r) \<lparr>Inl_MIMEType = Lc_MIMEType src, Inl_Base64 = StdEncode data\<rparr> t)))"

definition resolve_leases :: "'w chat_service \<Rightarrow> string \<Rightarrow> inbound_request \<Rightarrow> api_error + inbound_request" where
  "resolve_leases S installID req =
     (let refs = MediaLeaseRefs (ca_codec S) req in
      if refs = [] then Inr req
      else case ca_leases S of
        None \<Rightarrow> Inl (sentinel_error ErrMediaUnavailable)
      | Some opn \<Rightarrow>
          (case inline_leases (opn installID) (cfg_MaxMediaDecodedBytes (ca_cfg S)) refs 0 [] of
             Inl e \<Rightarrow> Inl e
           | Inr t \<Rightarrow> Inr (WithInlinedMediaLeases t req)))"

definition routeFor :: "modality \<Rightarrow> config \<Rightarrow> string \<times> string \<times> int64" where
  "routeFor modality c = (ProviderQwen, cfg_MultimodalUpstreamModel c, Qwen37OutputLimit)"

definition min64 :: "int64 \<Rightarrow> int64 \<Rightarrow> int64" where
  "min64 a b = (if a < b then a else b)"

definition billingPlan :: "string \<Rightarrow> string \<Rightarrow> int64 \<Rightarrow> int64 \<Rightarrow> api_error + plan" where
  "billingPlan prov model promptEst maxTok =
     (case Lookup prov model of
        Inl _ \<Rightarrow> Inl InternalError
      | Inr c \<Rightarrow>
          (case (if prov = ProviderQwen then NewPlan prov model InputStandard (InputLimit c) (OutputLimit c)
                 else NewPlan prov model InputStandard (min64 promptEst (InputLimit c)) maxTok) of
             Inl _ \<Rightarrow> Inl InternalError
           | Inr pl \<Rightarrow> Inr pl))"

record prepared =
  pr_install :: string
  pr_provider :: string
  pr_model :: string
  pr_plan :: plan
  pr_request :: completion_request

definition price_request ::
    "'w chat_service \<Rightarrow> string \<Rightarrow> inbound_request \<Rightarrow> modality \<Rightarrow> api_error + prepared" where
  "price_request S installID req modality =
     (case routeFor modality (ca_cfg S) of
        (prov, model, modelOutputLimit) \<Rightarrow>
          if \<not> ca_available S prov
          then Inl (sentinel_error (if prov = ProviderQwen then ErrMultimodalUnavailable else ErrUpstreamBusy))
          else
            let promptEst = (if modality = ModalityMultimodal then TextPromptEstimate req else PromptEstimate req);
                (wireMaxTok, quoteMaxTok) =
                  BoundMaxTokens (MaxTokens req) (min64 (cfg_MaxTokensCap (ca_cfg S)) modelOutputLimit)
            in case billingPlan prov model promptEst quoteMaxTok of
                 Inl e \<Rightarrow> Inl e
               | Inr pl \<Rightarrow>
                   Inr \<lparr>pr_install = installID, pr_provider = prov, pr_model = model, pr_plan = pl,
                     pr_request = Sanitize req wireMaxTok\<rparr>)"

definition prepare :: "'w chat_service \<Rightarrow> handle_input \<Rightarrow> api_error + prepared" where
  "prepare S inp =
     rbind (admit S inp) (\<lambda>installID.
     rbind (read_request S inp) (\<lambda>(req, modality).
     rbind (resolve_leases S installID req) (\<lambda>req'. price_request S installID req' modality)))"

section \<open>Relaying\<close>

definition nonStreamBodyLimit :: int where "nonStreamBodyLimit = 8388608"
definition maxFrame :: int where "maxFrame = 1048576"

definition newline :: string where "newline = [CHR 0x0A]"

text \<open>\<open>bufio.Scanner\<close> over lines: the lines up to the first that does not fit the buffer, without their line ends, and
  whether it stops in an error.\<close>

definition body_lines :: "string \<Rightarrow> string list" where
  "body_lines s = (let ls = split_on CHR 0x0A s in if last ls = [] then butlast ls else ls)"

definition drop_cr :: "string \<Rightarrow> string" where
  "drop_cr s = (if s \<noteq> [] \<and> last s = CHR 0x0D then butlast s else s)"

definition frames :: "up_body \<Rightarrow> string list" where
  "frames b = map drop_cr (takeWhile (\<lambda>l. int (length l) < maxFrame) (body_lines (ub_data b)))"

definition frames_err :: "up_body \<Rightarrow> bool" where
  "frames_err b \<longleftrightarrow> (\<exists>l \<in> set (body_lines (ub_data b)). maxFrame \<le> int (length l)) \<or> ub_err b"

datatype relay_end = RanOut | SawDone | Stopped

text \<open>The relay loop from its \<open>i\<close>-th write on: what the client got, the usage so far, whether the terminal line was read,
  and how the loop was left.\<close>

fun relay ::
    "string \<Rightarrow> (nat \<Rightarrow> bool) \<Rightarrow> nat \<Rightarrow> usage \<Rightarrow> string list \<Rightarrow> string list \<times> usage \<times> bool \<times> relay_end" where
  "relay pub ok i u [] = ([], u, False, RanOut)"
| "relay pub ok i u (l # ls) =
     (case rewriteClientModelSSELine l pub of
        None \<Rightarrow> ([], MergeSnapshot u (malformed_usage False), False, Stopped)
      | Some clientLine \<Rightarrow>
          let u' = MergeSnapshot u (ParseUsageSnapshotLine l); terminal = IsDONE l in
          if \<not> ok i then ([], u', terminal, Stopped)
          else if \<not> ok (i + 1) then ([clientLine], u', terminal, Stopped)
          else if terminal then ([clientLine, newline], u', True, SawDone)
          else (case relay pub ok (i + 2) u' ls of (out, rest) \<Rightarrow> (clientLine # newline # out, rest)))"

text \<open>How a reservation ends: returned, or settled at an amount.\<close>

datatype closing = CloseRollback | CloseSettle int64

definition settle_amount :: "reservation \<Rightarrow> usage \<Rightarrow> int64" where
  "settle_amount res u =
     (case Cost (Plan res) u of Inr (Some c) \<Rightarrow> c | _ \<Rightarrow> Res_ReservedPUSD res)"

datatype chat_answer =
    Refused api_error
  | NoAnswer
  | Relayed "(string \<times> string) list" "string list"

definition stream_headers :: "'w chat_service \<Rightarrow> reservation \<Rightarrow> (string \<times> string) list" where
  "stream_headers S res =
     [(''Content-Type'', ''text/event-stream''), (''Cache-Control'', ''no-cache''),
      (''X-Quota-Limit'', itoa (cfg_MonthlyQuota (ca_cfg S))),
      (''X-Quota-Reset'', ca_format S (MonthResetAt (Period res) (cfg_Location (ca_cfg S))))]"

definition stream_usage :: "up_body \<Rightarrow> usage \<times> bool \<times> relay_end \<Rightarrow> usage" where
  "stream_usage b r =
     (case r of (u, terminal, e) \<Rightarrow>
        let bad = (case e of RanOut \<Rightarrow> frames_err b | SawDone \<Rightarrow> ub_err b \<and> ub_early b | Stopped \<Rightarrow> False);
            u1 = (if bad then MergeSnapshot u (malformed_usage False) else u)
        in if terminal then u1 else MergeSnapshot u1 (malformed_usage False))"

definition streamThrough ::
    "'w chat_service \<Rightarrow> (nat \<Rightarrow> bool) \<Rightarrow> reservation \<Rightarrow> up_body \<Rightarrow> chat_answer \<times> string \<times> closing" where
  "streamThrough S ok res b =
     (case relay (cfg_PublicModelID (ca_cfg S)) ok 0 zero_usage (frames b) of
        (out, u, terminal, e) \<Rightarrow>
          (Relayed (stream_headers S res) out, if terminal then ''success'' else ''error'',
           CloseSettle (settle_amount res (stream_usage b (u, terminal, e)))))"

definition nonStreamThrough :: "'w chat_service \<Rightarrow> reservation \<Rightarrow> up_body \<Rightarrow> chat_answer \<times> string \<times> closing" where
  "nonStreamThrough S res b =
     (let bad = (Refused (sentinel_error ErrUpstreamError), ''error'', CloseSettle (Res_ReservedPUSD res)) in
      if ub_err b \<or> int (length (ub_data b)) > nonStreamBodyLimit then bad
      else case rewriteClientModelJSON (ub_data b) (cfg_PublicModelID (ca_cfg S)) of
        None \<Rightarrow> bad
      | Some data \<Rightarrow>
          (Relayed (tput ''Content-Type'' ''application/json'' (stream_headers S res)) [data], ''success'',
           CloseSettle (settle_amount res (parseUsagePayload data))))"

definition markUpstreamForErr :: "api_error \<Rightarrow> string" where
  "markUpstreamForErr e =
     (if Code e = Code (sentinel_error ErrUpstreamBusy) then ''busy''
      else if Code e = Code (sentinel_error ErrUpstreamTimeout) then ''timeout''
      else if Code e = ''UPSTREAM_REJECTED'' then ''rejected'' else ''error'')"

definition forward ::
    "'w chat_service \<Rightarrow> (nat \<Rightarrow> bool) \<Rightarrow> open_answer \<Rightarrow> bool \<Rightarrow> reservation \<Rightarrow> chat_answer \<times> string \<times> closing" where
  "forward S ok opn streaming res =
     (case opn of
        OpenFailed ae ex \<Rightarrow>
          let e = (case ae of None \<Rightarrow> sentinel_error ErrUpstreamError | Some e \<Rightarrow> e) in
          (Refused e, markUpstreamForErr e,
           if MayHaveCharged ex then CloseSettle (Res_ReservedPUSD res) else CloseRollback)
      | OpenNil \<Rightarrow> (Refused (sentinel_error ErrUpstreamError), ''error'', CloseSettle (Res_ReservedPUSD res))
      | Opened b \<Rightarrow> if streaming then streamThrough S ok res b else nonStreamThrough S res b)"

section \<open>The whole request\<close>

definition acquireSlot :: "bool \<Rightarrow> int64 \<Rightarrow> slot_event \<Rightarrow> bool" where
  "acquireSlot free queueWait ev \<longleftrightarrow> free \<or> (queueWait > 0 \<and> ev = SlotFreed)"

text \<open>Close-outs run with a context detached from the request's, which never ends.\<close>

definition close_out :: "'w quota_port \<Rightarrow> reservation \<Rightarrow> closing \<Rightarrow> 'w run_state \<Rightarrow> 'w run_state" where
  "close_out q res c s =
     (case c of
        CloseRollback \<Rightarrow> snd (Run_Rollback q False (Some res) s)
      | CloseSettle a \<Rightarrow> snd (Run_Settle q False (Some res) a s))"

text \<open>What happens between the reservation and its close-out: the breaker, the slot, the provider.\<close>

definition paid_part ::
    "'w chat_service \<Rightarrow> 'w chat_env \<Rightarrow> prepared \<Rightarrow> reservation \<Rightarrow> chat_answer \<times> string option \<times> closing" where
  "paid_part S E pr res =
     (let busy = (Refused (sentinel_error ErrUpstreamBusy), Some ''busy'', CloseRollback) in
      if ca_breaker S (pr_provider pr) then busy
      else if \<not> acquireSlot (ce_slot_free E) (cfg_QueueWait (ca_cfg S)) (ce_slot_event E)
      then (if ce_ctx_done E then (NoAnswer, None, CloseRollback) else busy)
      else (case forward S (ce_writes E) (ce_open E (pr_provider pr) (pr_model pr) (pr_request pr))
              (Out_Stream (pr_request pr)) res of
            (ans, label, c) \<Rightarrow> (ans, Some label, c)))"

definition Chat_Handle ::
    "'w chat_service \<Rightarrow> 'w chat_env \<Rightarrow> handle_input \<Rightarrow> 'w run_state \<Rightarrow> chat_answer \<times> string option \<times> 'w run_state" where
  "Chat_Handle S E inp s =
     (case prepare S inp of
        Inl e \<Rightarrow> (Refused e, None, s)
      | Inr pr \<Rightarrow>
          let q = ca_quota S in
          (case q_reserve q (pr_install pr) (pr_plan pr) (q_snapshot q (ca_now S)) (world s) of
             Inl err \<Rightarrow> (Refused (api_of InternalError err), None, s)
           | Inr (w, res) \<Rightarrow>
               (case paid_part S E pr res of
                  (ans, label, c) \<Rightarrow> (ans, label, close_out q res c (s\<lparr>world := ce_others E w\<rparr>)))))"

end
