(* ===== verification/Chat_Service_Props.thy ===== *)
theory Chat_Service_Props
  imports Chat_Service
begin

text \<open>
  The chat use case: what it sends to the provider, how its books close, when it refunds, and what a stream shows.
\<close>

section \<open>What is sent\<close>

lemma inline_leases_opens:
  "inline_leases opn mx rs sofar t = Inr t' \<Longrightarrow>
   (\<forall>r \<in> set rs. (\<exists>src. opn (LeaseID r) (Ref_Token r) = Inr src) \<and> tget t' (Ref_Raw r) \<noteq> None) \<and>
   (\<forall>k. tget t k \<noteq> None \<longrightarrow> tget t' k \<noteq> None)"
proof (induction rs arbitrary: sofar t)
  case (Cons r rs)
  from Cons.prems obtain src data where o: "opn (LeaseID r) (Ref_Token r) = Inr src"
    and rec: "inline_leases opn mx rs (wrap64 (sofar + Lc_SizeBytes src))
      (tput (Ref_Raw r) \<lparr>Inl_MIMEType = Lc_MIMEType src, Inl_Base64 = StdEncode data\<rparr> t) = Inr t'"
    by (auto simp: Let_def split: sum.splits if_split_asm option.splits)
  note ih = Cons.IH[OF rec]
  have "tget t' (Ref_Raw r) \<noteq> None" using ih by simp
  moreover have "\<forall>k. tget t k \<noteq> None \<longrightarrow> tget t' k \<noteq> None"
    using conjunct2[OF ih] by (metis option.discI tget_tput)
  ultimately show ?case using ih o by auto
qed simp

lemma resolved_parts:
  assumes "resolve_leases S i req = Inr req'"
  obtains t where "req' = WithInlinedMediaLeases t req"
    "\<forall>r \<in> set (MediaLeaseRefs (ca_codec S) req).
       \<exists>opn src. ca_leases S = Some opn \<and> opn i (LeaseID r) (Ref_Token r) = Inr src"
    "\<forall>u \<in> set (lease_parts (ca_codec S) req). tget t u \<noteq> None"
proof (cases "MediaLeaseRefs (ca_codec S) req = []")
  case True
  then have "req' = WithInlinedMediaLeases [] req"
    using assms by (simp add: resolve_leases_def WithInlinedMediaLeases_def)
  with True show thesis by (intro that[of "[]"]) (simp_all add: lease_parts_def)
next
  case False
  with assms obtain opn t where o: "ca_leases S = Some opn"
    and t: "inline_leases (opn i) (cfg_MaxMediaDecodedBytes (ca_cfg S)) (MediaLeaseRefs (ca_codec S) req) 0 [] = Inr t"
    and r: "req' = WithInlinedMediaLeases t req"
    by (auto simp: resolve_leases_def Let_def split: option.splits sum.splits)
  from inline_leases_opens[OF t] o r show thesis by (intro that[of t]) (auto simp: lease_parts_def)
qed

lemma inlined_messages:
  "Messages (WithInlinedMediaLeases t req) = map (\<lambda>m. case Content m of
      PartsContent ps \<Rightarrow> m\<lparr>Content := PartsContent (map (inline_part t) ps)\<rparr> | _ \<Rightarrow> m) (Messages req) \<or>
   t = [] \<and> WithInlinedMediaLeases t req = req"
  by (auto simp: WithInlinedMediaLeases_def)

lemma inline_part_Nil [simp]: "inline_part [] p = p"
  by (simp add: inline_part_def)

lemma sent_parts:
  assumes "m \<in> set (canonicalMessages (Messages (WithInlinedMediaLeases t req)))" "p \<in> set (parts_of (Content m))"
  obtains m0 p0 where "m0 \<in> set (Messages req)" "p0 \<in> set (parts_of (Content m0))" "p = inline_part t p0" "Role m = Role m0"
proof -
  from assms(1) obtain m1 where m1: "m1 \<in> set (Messages (WithInlinedMediaLeases t req))"
    "m = m1\<lparr>Content := canonical_content (Content m1)\<rparr>" by (auto simp: canonicalMessages_def)
  then have p: "p \<in> set (parts_of (Content m1))" using assms(2) canonical_parts by simp
  from inlined_messages[of t req] show thesis
  proof
    assume e: "t = [] \<and> WithInlinedMediaLeases t req = req"
    then have "m1 \<in> set (Messages req)" using m1(1) by metis
    then show thesis by (rule that[of m1 p]) (use e m1(2) p in simp_all)
  next
    assume "Messages (WithInlinedMediaLeases t req) = map (\<lambda>m. case Content m of
      PartsContent ps \<Rightarrow> m\<lparr>Content := PartsContent (map (inline_part t) ps)\<rparr> | _ \<Rightarrow> m) (Messages req)"
    with m1(1) obtain m0 where m0: "m0 \<in> set (Messages req)" "m1 = (case Content m0 of
      PartsContent ps \<Rightarrow> m0\<lparr>Content := PartsContent (map (inline_part t) ps)\<rparr> | _ \<Rightarrow> m0)" by auto
    from p obtain ps where ps: "Content m0 = PartsContent ps" using m0(2) by (auto simp: parts_of_def split: content.splits)
    with p m0(2) obtain p0 where "p0 \<in> set ps" "p = inline_part t p0" by (auto simp: parts_of_def)
    with m0 ps m1(2) show thesis by (intro that[of m0 p0]) (simp_all add: parts_of_def)
  qed
qed

lemma data_uri_prefix [simp]: "is_prefix ''data:'' (data_uri d)"
  by (simp add: data_uri_def is_prefix_def)

lemma closed_part_sent:
  assumes "closed_message C m0" "p0 \<in> set (parts_of (Content m0))" "m0 \<in> set (Messages req)"
    "\<forall>u \<in> set (lease_parts C req). tget t u \<noteq> None" "part_url (inline_part t p0) = Some u"
  shows "is_prefix ''data:'' u"
proof -
  from assms(5) obtain u0 where u0: "part_url p0 = Some u0" and u: "u = (case tget t u0 of None \<Rightarrow> u0 | Some d \<Rightarrow> data_uri d)"
    by (auto simp: inline_part_url split: option.splits)
  then have "Part_Type p0 \<noteq> PartTypeText" by (auto simp: part_url_def split: if_splits)
  with assms(1,2) have "safe_media C p0" by (auto simp: closed_message_def)
  from safe_media_url[OF this u0] show ?thesis
  proof
    assume "parseMediaLeaseRef C u0 \<noteq> None"
    then have "tget t u0 \<noteq> None" using lease_part_listed[OF assms(3,2) u0] assms(4) by blast
    with u show ?thesis by auto
  next
    assume "is_prefix ''data:'' u0"
    with u show ?thesis by (cases "tget t u0") simp_all
  qed
qed

lemma billingPlan_qwen:
  assumes "billingPlan ProviderQwen model est q = Inr pl"
  shows "\<exists>c. Lookup ProviderQwen model = Inr c \<and> NewPlan ProviderQwen model InputStandard (InputLimit c) (OutputLimit c) = Inr pl"
proof (cases "Lookup ProviderQwen model")
  case (Inr c)
  with assms show ?thesis
    by (cases "NewPlan ProviderQwen model InputStandard (InputLimit c) (OutputLimit c)") (simp_all add: billingPlan_def)
qed (use assms in \<open>simp add: billingPlan_def\<close>)

lemma prepare_Inr:
  assumes "prepare S inp = Inr pr"
  obtains req modality t where
    "admit S inp = Inr (pr_install pr)" "DecodeInbound (ca_codec S) (hi_Body inp) = Inr req"
    "ValidateAndClassify (ca_codec S) (media_limits_of (ca_cfg S)) req = Inr modality" "modality \<noteq> ModalityAudio"
    "resolve_leases S (pr_install pr) req = Inr (WithInlinedMediaLeases t req)"
    "pr_request pr = Sanitize (WithInlinedMediaLeases t req) (fst (BoundMaxTokens (MaxTokens req)
       (min64 (cfg_MaxTokensCap (ca_cfg S)) Qwen37OutputLimit)))"
    "pr_provider pr = ProviderQwen" "pr_model pr = cfg_MultimodalUpstreamModel (ca_cfg S)"
    "\<exists>c. Lookup ProviderQwen (pr_model pr) = Inr c \<and>
       NewPlan ProviderQwen (pr_model pr) InputStandard (InputLimit c) (OutputLimit c) = Inr (pr_plan pr)"
    "\<forall>r \<in> set (MediaLeaseRefs (ca_codec S) req).
       \<exists>opn src. ca_leases S = Some opn \<and> opn (pr_install pr) (LeaseID r) (Ref_Token r) = Inr src"
    "\<forall>u \<in> set (lease_parts (ca_codec S) req). tget t u \<noteq> None"
proof -
  from assms obtain i req modality req' where a: "admit S inp = Inr i" and r: "read_request S inp = Inr (req, modality)"
    and l: "resolve_leases S i req = Inr req'" and p: "price_request S i req' modality = Inr pr"
    by (auto simp: prepare_def rbind_Inr_iff)
  from resolved_parts[OF l] obtain t where t: "req' = WithInlinedMediaLeases t req"
    "\<forall>r \<in> set (MediaLeaseRefs (ca_codec S) req).
       \<exists>opn src. ca_leases S = Some opn \<and> opn i (LeaseID r) (Ref_Token r) = Inr src"
    "\<forall>u \<in> set (lease_parts (ca_codec S) req). tget t u \<noteq> None" by blast
  from p obtain w q pl where pr: "pr = \<lparr>pr_install = i, pr_provider = ProviderQwen,
      pr_model = cfg_MultimodalUpstreamModel (ca_cfg S), pr_plan = pl, pr_request = Sanitize req' w\<rparr>"
    and w: "BoundMaxTokens (MaxTokens req') (min64 (cfg_MaxTokensCap (ca_cfg S)) Qwen37OutputLimit) = (w, q)"
    and pl: "\<exists>est. billingPlan ProviderQwen (cfg_MultimodalUpstreamModel (ca_cfg S)) est q = Inr pl"
    by (auto simp: price_request_def routeFor_def Let_def split: prod.splits if_split_asm sum.splits)
  have mt: "MaxTokens req' = MaxTokens req" by (simp add: t(1) WithInlinedMediaLeases_def)
  show thesis
  proof (rule that[of req modality t])
    show "DecodeInbound (ca_codec S) (hi_Body inp) = Inr req" "modality \<noteq> ModalityAudio"
      "ValidateAndClassify (ca_codec S) (media_limits_of (ca_cfg S)) req = Inr modality"
      using r by (auto simp: read_request_def Let_def split: if_split_asm sum.splits)
    show "\<exists>c. Lookup ProviderQwen (pr_model pr) = Inr c \<and>
       NewPlan ProviderQwen (pr_model pr) InputStandard (InputLimit c) (OutputLimit c) = Inr (pr_plan pr)"
      using pl billingPlan_qwen by (auto simp: pr)
    show "pr_request pr = Sanitize (WithInlinedMediaLeases t req) (fst (BoundMaxTokens (MaxTokens req)
       (min64 (cfg_MaxTokensCap (ca_cfg S)) Qwen37OutputLimit)))" using w[unfolded mt] by (simp add: pr t(1))
  qed (use a l t in \<open>simp_all add: pr\<close>)
qed

text \<open>C24. What a chat request sends to the provider. The provider gets the model the configuration names and nothing of the
  client's choice of model; every image or video of the forwarded body is inline data, never an address, and
  each reference to an upload was opened for this very install under that reference's id and token;
  media only ever travels in user messages, earlier reasoning is dropped, and the token bound is the client's when it is
  positive and within the smaller of the operator's and the model's caps, and that smaller cap in every other case.\<close>

theorem only_inline_media_leaves:
  assumes "prepare S inp = Inr pr"
    and "0 \<le> cfg_MaxMediaDecodedBytes (ca_cfg S)" "cfg_MaxMediaDecodedBytes (ca_cfg S) \<le> MaxInt64"
    and "encode_request (pr_provider pr) (pr_model pr) (pr_request pr) = Some up"
  shows "Up_Model up = cfg_MultimodalUpstreamModel (ca_cfg S) \<and>
    (\<forall>m \<in> set (Out_Messages (Up_Request up)). ReasoningContent m = [] \<and>
      (\<forall>p \<in> set (parts_of (Content m)). (Part_Type p = PartTypeText \<or> Role m = ''user'') \<and>
        (\<forall>u. part_url p = Some u \<longrightarrow> is_prefix ''data:'' u))) \<and>
    (\<exists>req. DecodeInbound (ca_codec S) (hi_Body inp) = Inr req \<and>
      (\<forall>r \<in> set (MediaLeaseRefs (ca_codec S) req).
         \<exists>opn src. ca_leases S = Some opn \<and> opn (pr_install pr) (LeaseID r) (Ref_Token r) = Inr src) \<and>
      Out_MaxTokens (Up_Request up) =
        (let capTok = (if cfg_MaxTokensCap (ca_cfg S) < Qwen37OutputLimit then cfg_MaxTokensCap (ca_cfg S) else Qwen37OutputLimit)
         in Some (case MaxTokens req of Some v \<Rightarrow> if 0 < v \<and> v \<le> capTok then v else capTok | None \<Rightarrow> capTok)))"
proof -
  from assms(1) obtain req modality t where p: "DecodeInbound (ca_codec S) (hi_Body inp) = Inr req"
    "ValidateAndClassify (ca_codec S) (media_limits_of (ca_cfg S)) req = Inr modality"
    "pr_request pr = Sanitize (WithInlinedMediaLeases t req) (fst (BoundMaxTokens (MaxTokens req)
       (min64 (cfg_MaxTokensCap (ca_cfg S)) Qwen37OutputLimit)))"
    "pr_model pr = cfg_MultimodalUpstreamModel (ca_cfg S)"
    "\<forall>r \<in> set (MediaLeaseRefs (ca_codec S) req).
       \<exists>opn src. ca_leases S = Some opn \<and> opn (pr_install pr) (LeaseID r) (Ref_Token r) = Inr src"
    "\<forall>u \<in> set (lease_parts (ca_codec S) req). tget t u \<noteq> None"
    by (elim prepare_Inr)
  have up: "up = \<lparr>Up_Model = pr_model pr, Up_Request = (pr_request pr)\<lparr>Out_Messages :=
      map (\<lambda>m. m\<lparr>ReasoningContent := []\<rparr>) (Out_Messages (pr_request pr))\<rparr>, EnableThinking = True\<rparr>"
    using assms(4) by (simp add: encode_request_def split: if_splits)
  from p(2) obtain st where "classify_messages (ca_codec S) (media_limits_of (ca_cfg S)) (Messages req) (ModalityText, 0, 0) = Inr st"
    by (auto simp: ValidateAndClassify_def split: sum.splits)
  from classify_messages_walk[OF this] have closed: "list_all (closed_message (ca_codec S)) (Messages req)"
    using assms(2,3) by (simp add: walk_ok_def media_limits_of_def)
  have "ReasoningContent m = [] \<and> (\<forall>p \<in> set (parts_of (Content m)). (Part_Type p = PartTypeText \<or> Role m = ''user'') \<and>
      (\<forall>u. part_url p = Some u \<longrightarrow> is_prefix ''data:'' u))" if m: "m \<in> set (Out_Messages (Up_Request up))" for m
  proof (intro conjI ballI allI impI)
    from m obtain m1 where m1: "m1 \<in> set (canonicalMessages (Messages (WithInlinedMediaLeases t req)))"
      "m = m1\<lparr>ReasoningContent := []\<rparr>" by (auto simp: up p(3) Sanitize_def)
    then show "ReasoningContent m = []" by simp
    fix q assume "q \<in> set (parts_of (Content m))"
    with m1 obtain m0 q0 where o: "m0 \<in> set (Messages req)" "q0 \<in> set (parts_of (Content m0))" "q = inline_part t q0"
      "Role m1 = Role m0" by (auto elim: sent_parts)
    from closed o(1) have c: "closed_message (ca_codec S) m0" by (auto simp: list_all_iff)
    then show "Part_Type q = PartTypeText \<or> Role m = ''user''" using o m1(2) by (auto simp: closed_message_def)
    fix u assume "part_url q = Some u"
    with closed_part_sent[OF c o(2,1) p(6)] o(3) show "is_prefix ''data:'' u" by simp
  qed
  moreover have "Up_Model up = cfg_MultimodalUpstreamModel (ca_cfg S)" by (simp add: up p(4))
  moreover have "Out_MaxTokens (Up_Request up) =
      (let capTok = (if cfg_MaxTokensCap (ca_cfg S) < Qwen37OutputLimit then cfg_MaxTokensCap (ca_cfg S) else Qwen37OutputLimit)
       in Some (case MaxTokens req of Some v \<Rightarrow> if 0 < v \<and> v \<le> capTok then v else capTok | None \<Rightarrow> capTok))"
    by (auto simp: up p(3) Sanitize_def BoundMaxTokens_def min64_def Let_def split: option.split)
  ultimately show ?thesis using p(1,5) by (intro conjI exI[of _ req]) simp_all
qed

end
