(* ===== verification/Chat_Books.thy ===== *)
theory Chat_Books
  imports Chat_Service_Props
begin

text \<open>
  The money side of a chat request: its books close exactly once, and less than the full quote is only ever kept on proof.
\<close>

section \<open>Closing out\<close>

definition closing_amount :: "closing \<Rightarrow> int64" where
  "closing_amount c = (case c of CloseRollback \<Rightarrow> 0 | CloseSettle a \<Rightarrow> a)"

context wallet
begin

lemma close_out_books:
  assumes "sound (world s)" "booked r (world s) = Some None \<or> booked r (world s) = Some (Some (Res_ReservedPUSD r))"
    and "0 \<le> closing_amount c" "closing_amount c \<le> Res_ReservedPUSD r"
  shows "sound (world (close_out port r c s)) \<and>
    booked r (world (close_out port r c s)) =
      Some (Some (if booked r (world s) = Some None then closing_amount c else Res_ReservedPUSD r)) \<and>
    settle_failures (close_out port r c s) = settle_failures s \<and>
    rollback_failures (close_out port r c s) = rollback_failures s"
proof (cases c)
  case CloseRollback
  with rollback_step[OF assms(1,2)] show ?thesis
    by (auto simp: close_out_def Run_Rollback_def closing_amount_def)
next
  case (CloseSettle a)
  with settle_step[OF assms(1,2), of a] assms(3,4) show ?thesis
    by (auto simp: close_out_def Run_Settle_def closing_amount_def)
qed

end

section \<open>Amounts\<close>

lemma parse_int_int64: "parse_int s = Some n \<Longrightarrow> is_int64 n"
  by (auto simp: parse_int_def Let_def split: list.splits option.splits if_splits)

lemma zero_int64 [simp]: "is_int64 0"
  by (simp add: is_int64_def MinInt64_def MaxInt64_def)

lemma int_field_int64: "int_field k ms = Some n \<Longrightarrow> is_int64 n"
  by (auto simp: int_field_def split: option.splits jnode.splits dest: parse_int_int64)

lemma detail_field_int64: "detail_field k k' ms = Some n \<Longrightarrow> is_int64 n"
  by (auto simp: detail_field_def split: option.splits jnode.splits dest: int_field_int64)

lemma usage_int64_plain [simp]: "usage_int64 zero_usage" "usage_int64 (malformed_usage b)"
  by (simp_all add: usage_int64_def malformed_usage_def zero_usage_def)

lemma usage_int64_payload: "usage_int64 (parseUsagePayload p)"
proof -
  have "usage_int64 (usage_vector a b c d e)"
    if "is_int64 a" "is_int64 b" "is_int64 c" "is_int64 d" "is_int64 e" for a b c d e
    using that by (simp add: usage_int64_def usage_vector_def)
  note v = this
  show ?thesis
    by (auto simp: parseUsagePayload_def split: prod.split option.split jnode.split
        intro!: v intro: int_field_int64 detail_field_int64)
qed

lemma usage_int64_line: "usage_int64 (ParseUsageSnapshotLine l)"
  by (simp add: ParseUsageSnapshotLine_def Let_def usage_int64_payload)

lemma usage_int64_merge: "usage_int64 u \<Longrightarrow> usage_int64 v \<Longrightarrow> usage_int64 (MergeSnapshot u v)"
  by (auto simp: usage_int64_def MergeSnapshot_def is_int64_def nonNegative_def max_def MinInt64_def MaxInt64_def)

lemma usage_int64_relay: "usage_int64 u \<Longrightarrow> relay pub ok i u ls = (out, u', r) \<Longrightarrow> usage_int64 u'"
  by (induction pub ok i u ls arbitrary: out r rule: relay.induct)
    (auto simp: Let_def usage_int64_merge usage_int64_line split: option.splits if_split_asm prod.splits)

lemma usage_int64_stream: "usage_int64 u \<Longrightarrow> usage_int64 (stream_usage b (u, t, e))"
  by (auto simp: stream_usage_def Let_def usage_int64_merge split: relay_end.split)

lemma settle_nonneg:
  assumes "NewPlan p m cls pb ob = Inr (Plan res)" "usage_int64 u" "0 \<le> Res_ReservedPUSD res"
  shows "0 \<le> settle_amount res u"
proof (cases "\<exists>c. Cost (Plan res) u = Inr (Some c)")
  case True
  then obtain c where c: "Cost (Plan res) u = Inr (Some c)" by blast
  from assms(1) have wf: "card_wf (card (Plan res))" by (auto elim!: NewPlanE)
  from Cost_SomeE[OF c wf assms(2)] obtain t where t: "tierForInput (card (Plan res)) (PromptTokens u) = Some t"
    and u: "0 < PromptTokens u" "0 \<le> CompletionTokens u" "PromptTokens u + CompletionTokens u \<le> TotalTokens u"
      "0 \<le> CachedPromptTokens u" "CachedPromptTokens u \<le> PromptTokens u"
    and e: "c = CachedPromptTokens u * CacheHitInputPUSD t +
         (PromptTokens u - CachedPromptTokens u) * InputPUSD t + (TotalTokens u - PromptTokens u) * OutputPUSD t"
    by metis
  have "0 \<le> c" unfolding e using u tierForInput_ok[OF wf t] by (intro add_nonneg_nonneg mult_nonneg_nonneg) linarith+
  then show ?thesis by (simp add: settle_amount_def c)
next
  case False
  then have "settle_amount res u = Res_ReservedPUSD res"
    by (auto simp: settle_amount_def split: sum.split option.split)
  with assms(3) show ?thesis by simp
qed

lemma forward_nonneg:
  assumes "forward S ok opn streaming res = (ans, label, c)" "NewPlan p m cls pb ob = Inr (Plan res)" "0 \<le> Res_ReservedPUSD res"
  shows "0 \<le> closing_amount c"
proof (cases opn)
  case (Opened b)
  show ?thesis
  proof (cases streaming)
    case True
    obtain out u t e where r: "relay (cfg_PublicModelID (ca_cfg S)) ok 0 zero_usage (frames b) = (out, u, t, e)"
      by (metis prod_cases4)
    have "usage_int64 (stream_usage b (u, t, e))" by (rule usage_int64_stream[OF usage_int64_relay[OF _ r]]) simp
    with assms True r Opened show ?thesis
      by (auto simp: forward_def streamThrough_def closing_amount_def intro: settle_nonneg)
  next
    case False
    have "0 \<le> settle_amount res (parseUsagePayload d)" for d
      by (rule settle_nonneg[OF assms(2) usage_int64_payload assms(3)])
    with assms False Opened show ?thesis
      by (auto simp: forward_def nonStreamThrough_def closing_amount_def Let_def split: if_split_asm option.splits)
  qed
qed (use assms in \<open>auto simp: forward_def closing_amount_def Let_def split: if_split_asm\<close>)

lemma paid_part_nonneg:
  assumes "paid_part S E pr res = (ans, label, c)" "NewPlan p m cls pb ob = Inr (Plan res)" "0 \<le> Res_ReservedPUSD res"
  shows "0 \<le> closing_amount c"
  using assms forward_nonneg[OF _ assms(2,3)]
  by (auto simp: paid_part_def Let_def closing_amount_def split: if_split_asm prod.splits)

lemma checkedAdd_int64: "checkedAdd a b = Inr c \<Longrightarrow> is_int64 c"
  by (auto simp: checkedAdd_def split: if_split_asm)

lemma Cost_int64: "Cost p u = Inr (Some c) \<Longrightarrow> is_int64 c"
  by (auto simp: Cost_def Let_def rbind_Inr_iff split: if_split_asm option.splits sum.splits dest: checkedAdd_int64)

lemma settle_int64: "is_int64 (Res_ReservedPUSD res) \<Longrightarrow> is_int64 (settle_amount res u)"
  by (auto simp: settle_amount_def dest: Cost_int64 split: sum.split option.split)

lemma paid_part_int64:
  assumes "paid_part S E pr res = (ans, label, c)" "is_int64 (Res_ReservedPUSD res)"
  shows "is_int64 (closing_amount c)"
  using assms settle_int64[OF assms(2)]
  by (auto simp: paid_part_def forward_def streamThrough_def nonStreamThrough_def closing_amount_def Let_def
      split: if_split_asm prod.splits open_answer.splits option.splits)

section \<open>The books of a chat request\<close>

lemma looked_up_id:
  assumes "ca_lookup S = install_auth now sv" "admit S inp = Inr i"
  shows "i \<noteq> []"
  using assms
  by (auto simp: admit_def install_auth_def LookupInstall_def split: option.splits prod.splits if_split_asm sum.splits)

lemma prepare_plan:
  assumes "prepare S inp = Inr pr"
  shows "admit S inp = Inr (pr_install pr) \<and>
    (\<exists>c :: rate_card. NewPlan ProviderQwen (pr_model pr) InputStandard (InputLimit c) (OutputLimit c) = Inr (pr_plan pr))"
  by (rule prepare_Inr[OF assms]) blast

lemma store_booked_amount:
  assumes "store_booked r w = Some a"
  shows "0 < Res_ReservedPUSD r \<and> is_int64 (Res_ReservedPUSD r)"
proof -
  have "validateReservation r = Inr ()" using assms by (cases "validateReservation r = Inr ()") (simp_all add: store_booked_def)
  from validateReservationD[OF this] show ?thesis by (simp add: is_int64_nonneg)
qed

lemma store_close_out:
  assumes w: "db_reachable (world s)"
    and b: "store_booked r (world s) = Some None \<or> store_booked r (world s) = Some (Some (Res_ReservedPUSD r))"
    and a: "0 \<le> closing_amount c" "store_booked r (world s) = Some None \<Longrightarrow> is_int64 (closing_amount c)"
    and s': "s' = close_out (store_port entropy t1 t2 lmt loc) r c s"
  shows "rollback_failures s' = rollback_failures s \<and>
    (if store_booked r (world s) = Some None \<and> Res_ReservedPUSD r < closing_amount c \<and> \<not> topup_room r (closing_amount c) (world s)
     then world s' = world s \<and> settle_failures s' = settle_failures s + 1
     else settle_failures s' = settle_failures s \<and> db_reachable (world s') \<and> store_booked r (world s') =
       Some (Some (if store_booked r (world s) = Some None then closing_amount c else Res_ReservedPUSD r)))"
proof (cases "store_booked r (world s) = Some None \<and> Res_ReservedPUSD r < closing_amount c")
  case True
  have "0 < Res_ReservedPUSD r" using True store_booked_amount by blast
  with True obtain x where c: "c = CloseSettle x" by (cases c) (auto simp: closing_amount_def)
  from store_settle_over[OF w _ _ a(2), of r entropy t1 t2 lmt loc] True c show ?thesis
    by (auto simp: s' close_out_def Run_Settle_def closing_amount_def split: if_split_asm)
next
  case False
  show ?thesis
  proof (cases "Res_ReservedPUSD r < closing_amount c")
    case True
    with False b have k: "store_booked r (world s) = Some (Some (Res_ReservedPUSD r))" by blast
    from spend_wallet.closed_settle[OF w k a(1)] spend_wallet.closed_rollback[OF w k] k w show ?thesis
      by (cases c) (auto simp: s' close_out_def Run_Settle_def Run_Rollback_def closing_amount_def)
  next
    case le: False
    with spend_wallet.close_out_books[OF w b a(1)] show ?thesis by (simp add: s')
  qed
qed

text \<open>C22. A chat request never leaves an open row behind, but for one case. Against the spend ledger
  and the install store, with any other traffic while the provider works, the request is either refused before it reserves
  anything, with the wallet untouched, or it owns exactly one reservation, which ends closed in the ledger at
  the amount the relay decided (also when that is above the quote, because the provider reports more output than the
  model has), or at the full quote when the orphan reconciler came first, and no close-out fails. The one exception: an
  amount above the quote for which some balance has no room left in 64 bits. Its settlement fails, the failure is counted,
  and the open row waits for the reconciler.\<close>

theorem chat_closes_books:
  assumes reach: "db_reachable (world s)" and look: "ca_lookup S = install_auth now sv"
    and port: "ca_quota S = store_port entropy t1 t2 lmt loc"
    and env: "\<And>w. db_reachable w \<Longrightarrow> others (idgen_RequestID entropy) w (ce_others E w)"
    and do: "Chat_Handle S E inp s = (ans, label, s')"
  shows "(\<exists>e. ans = Refused e \<and> s' = s) \<or>
    (\<exists>pr w1 res c. prepare S inp = Inr pr \<and>
      Service_Reserve (idgen_RequestID entropy) t1 lmt (pr_install pr) (pr_plan pr) (SnapshotPeriod (ca_now S) loc)
        (world s) = Inr (w1, res) \<and>
      paid_part S E pr res = (ans, label, c) \<and> 0 \<le> closing_amount c \<and>
      s' = close_out (ca_quota S) res c (s\<lparr>world := ce_others E w1\<rparr>) \<and>
      rollback_failures s' = rollback_failures s \<and>
      (if store_booked res (ce_others E w1) = Some None \<and> ReservedPUSD (pr_plan pr) < closing_amount c \<and>
          \<not> topup_room res (closing_amount c) (ce_others E w1)
       then world s' = ce_others E w1 \<and> settle_failures s' = settle_failures s + 1
       else settle_failures s' = settle_failures s \<and>
         (\<exists>x \<in> set (spend_ledger (world s')). row_of res x \<and>
            charged_pusd x = Some (if store_booked res (ce_others E w1) = Some None then closing_amount c
              else ReservedPUSD (pr_plan pr)))))"
proof (cases "prepare S inp")
  case (Inl e)
  with do have "ans = Refused e \<and> s' = s" by (auto simp: Chat_Handle_def)
  then show ?thesis by blast
next
  case (Inr pr)
  let ?q = "store_port entropy t1 t2 lmt loc"
  from prepare_plan[OF Inr] obtain c0 :: rate_card where a: "admit S inp = Inr (pr_install pr)" and
    pl: "NewPlan ProviderQwen (pr_model pr) InputStandard (InputLimit c0) (OutputLimit c0) = Inr (pr_plan pr)"
    by blast
  have id: "pr_install pr \<noteq> []" by (rule looked_up_id[OF look a])
  show ?thesis
  proof (cases "q_reserve ?q (pr_install pr) (pr_plan pr) (q_snapshot ?q (ca_now S)) (world s)")
    case (Inl e)
    with do \<open>prepare S inp = Inr pr\<close> have "ans = Refused (api_of InternalError e) \<and> s' = s"
      by (auto simp: Chat_Handle_def port)
    then show ?thesis by blast
  next
    case (Inr p)
    obtain w1 res where p: "p = (w1, res)" by (cases p)
    note R = Inr[unfolded p]
    note opened = spend_wallet.reserve_opens[OF reach id R]
    have fair: "db_reachable (ce_others E w1) \<and> (store_booked res (ce_others E w1) = Some None \<or>
        store_booked res (ce_others E w1) = Some (Some (Res_ReservedPUSD res)))"
      using others_fair[OF env] opened unfolding fair_env_def by blast
    obtain c where c: "paid_part S E pr res = (ans, label, c)"
      and s': "s' = close_out ?q res c (s\<lparr>world := ce_others E w1\<rparr>)"
      using do \<open>prepare S inp = Inr pr\<close> R by (auto simp: Chat_Handle_def port split: prod.splits)
    have nonneg: "0 \<le> closing_amount c" by (rule paid_part_nonneg[OF c]) (use pl opened in auto)
    have amount: "store_booked res (ce_others E w1) = Some None \<Longrightarrow> is_int64 (closing_amount c)"
      using paid_part_int64[OF c] store_booked_amount by blast
    note closed = store_close_out[of "s\<lparr>world := ce_others E w1\<rparr>" res c s', simplified, OF _ _ nonneg amount s']
    have b: "rollback_failures s' = rollback_failures s \<and>
      (if store_booked res (ce_others E w1) = Some None \<and> ReservedPUSD (pr_plan pr) < closing_amount c \<and>
          \<not> topup_room res (closing_amount c) (ce_others E w1)
       then world s' = ce_others E w1 \<and> settle_failures s' = settle_failures s + 1
       else settle_failures s' = settle_failures s \<and>
         (\<exists>x \<in> set (spend_ledger (world s')). row_of res x \<and>
            charged_pusd x = Some (if store_booked res (ce_others E w1) = Some None then closing_amount c
              else ReservedPUSD (pr_plan pr))))"
    proof -
      have ledger: "\<exists>x \<in> set (spend_ledger (world s')). row_of res x \<and> charged_pusd x = Some a"
        if "db_reachable (world s')" "store_booked res (world s') = Some (Some a)" for a
        using that by (auto simp: booked_iff)
      have "Res_ReservedPUSD res = ReservedPUSD (pr_plan pr)" using opened by simp
      with closed fair show ?thesis by (auto split: if_split_asm dest: ledger)
    qed
    moreover have "Service_Reserve (idgen_RequestID entropy) t1 lmt (pr_install pr) (pr_plan pr)
        (SnapshotPeriod (ca_now S) loc) (world s) = Inr (w1, res)" using R by (simp add: store_port_def)
    ultimately show ?thesis using c s' nonneg \<open>prepare S inp = Inr pr\<close> unfolding port by blast
  qed
qed

section \<open>Refunds\<close>

lemma malformed_merge [simp]: "Malformed (malformed_usage b)" "Malformed (MergeSnapshot u v) \<longleftrightarrow> Malformed u \<or> Malformed v \<or> usageHasNegative v"
  by (simp_all add: MergeSnapshot_def malformed_usage_def)

lemma settle_below:
  assumes "settle_amount res u < Res_ReservedPUSD res"
  shows "Cost (Plan res) u = Inr (Some (settle_amount res u)) \<and> \<not> Malformed u"
proof -
  from assms obtain c where c: "Cost (Plan res) u = Inr (Some c)"
    by (auto simp: settle_amount_def split: sum.splits option.splits)
  then have "usage_authoritative u" by (auto simp: Cost_def split: if_split_asm)
  with c show ?thesis by (simp add: settle_amount_def usage_authoritative_def)
qed

definition passed :: "string \<Rightarrow> string \<Rightarrow> bool" where
  "passed pub l \<longleftrightarrow> rewriteClientModelSSELine l pub \<noteq> None"

lemma relay_terminal:
  "relay pub ok i u ls = (out, u', True, e) \<Longrightarrow>
   \<exists>pre l post. ls = pre @ l # post \<and> IsDONE l \<and> list_all (passed pub) (pre @ [l]) \<and>
     u' = foldl MergeSnapshot u (map ParseUsageSnapshotLine (pre @ [l]))"
proof (induction ls arbitrary: i u out)
  case (Cons l ls)
  from Cons.prems have p: "passed pub l" by (auto simp: passed_def split: option.splits)
  show ?case
  proof (cases "IsDONE l")
    case True
    with Cons.prems have "u' = MergeSnapshot u (ParseUsageSnapshotLine l)"
      by (auto simp: Let_def split: option.splits if_split_asm)
    with True p show ?thesis by (intro exI[of _ "[]"] exI[of _ l] exI[of _ ls]) simp
  next
    case False
    with Cons.prems obtain out' where
      "relay pub ok (i + 2) (MergeSnapshot u (ParseUsageSnapshotLine l)) ls = (out', u', True, e)"
      by (auto simp: Let_def split: option.splits if_split_asm prod.splits)
    from Cons.IH[OF this] obtain pre l' post where "ls = pre @ l' # post" "IsDONE l'"
      "list_all (passed pub) (pre @ [l'])"
      "u' = foldl MergeSnapshot (MergeSnapshot u (ParseUsageSnapshotLine l)) (map ParseUsageSnapshotLine (pre @ [l']))"
      by blast
    with p show ?thesis by (intro exI[of _ "l # pre"] exI[of _ l'] exI[of _ post]) simp
  qed
qed simp

text \<open>The evidence a refund rests on: a whole answer, and the usage it reported.\<close>

definition whole_answer :: "config \<Rightarrow> bool \<Rightarrow> up_body \<Rightarrow> usage \<Rightarrow> bool" where
  "whole_answer cfg streaming b u \<longleftrightarrow>
     (if streaming
      then \<exists>pre l post. frames b = pre @ l # post \<and> IsDONE l \<and> list_all (passed (cfg_PublicModelID cfg)) (pre @ [l]) \<and>
        u = foldl MergeSnapshot zero_usage (map ParseUsageSnapshotLine (pre @ [l]))
      else \<not> ub_err b \<and> int (length (ub_data b)) \<le> nonStreamBodyLimit \<and>
        (\<exists>data. rewriteClientModelJSON (ub_data b) (cfg_PublicModelID cfg) = Some data \<and> u = parseUsagePayload data))"

lemma forward_refund:
  assumes "forward S ok opn streaming res = (ans, label, c)" "closing_amount c < Res_ReservedPUSD res"
  shows "(c = CloseRollback \<and> (\<exists>ae. opn = OpenFailed ae DefinitelyUnbilled)) \<or>
    (\<exists>b u. opn = Opened b \<and> whole_answer (ca_cfg S) streaming b u \<and> \<not> Malformed u \<and>
       c = CloseSettle (settle_amount res u) \<and> Cost (Plan res) u = Inr (Some (closing_amount c)))"
proof (cases opn)
  case (OpenFailed ae ex)
  with assms show ?thesis
    by (auto simp: forward_def closing_amount_def MayHaveCharged_def Let_def split: if_split_asm)
next
  case OpenNil
  with assms show ?thesis by (auto simp: forward_def closing_amount_def)
next
  case (Opened b)
  show ?thesis
  proof (cases streaming)
    case True
    obtain out u t e where r: "relay (cfg_PublicModelID (ca_cfg S)) ok 0 zero_usage (frames b) = (out, u, t, e)"
      by (metis prod_cases4)
    have c: "c = CloseSettle (settle_amount res (stream_usage b (u, t, e)))"
      using assms(1) True r Opened by (simp add: forward_def streamThrough_def)
    with assms(2) have s: "Cost (Plan res) (stream_usage b (u, t, e)) = Inr (Some (closing_amount c))"
      "\<not> Malformed (stream_usage b (u, t, e))" using settle_below by (simp_all add: closing_amount_def)
    from s(2) have t: "t" and u: "stream_usage b (u, t, e) = u"
      by (auto simp: stream_usage_def Let_def split: if_split_asm relay_end.splits)
    from relay_terminal[OF r[unfolded \<open>t\<close>[THEN eqTrueI]]] have "whole_answer (ca_cfg S) streaming b u"
      using True by (simp add: whole_answer_def)
    with Opened c s u show ?thesis by auto
  next
    case False
    with assms Opened obtain data where n: "\<not> ub_err b" "\<not> nonStreamBodyLimit < int (length (ub_data b))"
      "rewriteClientModelJSON (ub_data b) (cfg_PublicModelID (ca_cfg S)) = Some data"
      "c = CloseSettle (settle_amount res (parseUsagePayload data))"
      by (auto simp: forward_def nonStreamThrough_def closing_amount_def Let_def split: if_split_asm option.splits)
    with settle_below[of res "parseUsagePayload data"] assms(2) False Opened show ?thesis
      by (auto simp: whole_answer_def closing_amount_def)
  qed
qed

text \<open>C23. Money goes back only on proof. When a chat request keeps less than its full quote, then either no provider was
  called for it (the breaker was open, no slot came free), or the provider refused in a way that is never billed, or a whole
  answer was read: a stream up to and including its terminal line with every line before it a valid frame, or a complete
  body that is one JSON object; and then what is kept is exactly the price of the usage that answer reports, which is
  well-formed. A disconnect, a cut stream, a malformed or doubled usage, a timeout: the full quote stays.\<close>

theorem refund_is_proved:
  assumes "paid_part S E pr res = (ans, label, c)" "closing_amount c < Res_ReservedPUSD res"
  shows "(c = CloseRollback \<and>
      (ca_breaker S (pr_provider pr) \<or>
       \<not> acquireSlot (ce_slot_free E) (cfg_QueueWait (ca_cfg S)) (ce_slot_event E) \<or>
       (\<exists>ae. ce_open E (pr_provider pr) (pr_model pr) (pr_request pr) = OpenFailed ae DefinitelyUnbilled))) \<or>
    (\<exists>b u. ce_open E (pr_provider pr) (pr_model pr) (pr_request pr) = Opened b \<and>
       whole_answer (ca_cfg S) (Out_Stream (pr_request pr)) b u \<and> \<not> Malformed u \<and>
       Cost (Plan res) u = Inr (Some (closing_amount c)))"
proof -
  consider "c = CloseRollback" "ca_breaker S (pr_provider pr)"
    | "c = CloseRollback" "\<not> acquireSlot (ce_slot_free E) (cfg_QueueWait (ca_cfg S)) (ce_slot_event E)"
    | l' where "forward S (ce_writes E) (ce_open E (pr_provider pr) (pr_model pr) (pr_request pr))
        (Out_Stream (pr_request pr)) res = (ans, l', c)"
    using assms(1) by (auto simp: paid_part_def Let_def split: if_split_asm prod.splits)
  then show ?thesis
  proof cases
    case 3
    from forward_refund[OF 3 assms(2)] show ?thesis by blast
  qed blast+
qed

section \<open>The lines of a stream\<close>

text \<open>What a client may see on a line: white space, a bare comment, or a data field that is nothing but the terminal mark,
  or one object whose top level names no model but the public one, whatever the spelling of the name.\<close>

definition public_object :: "string \<Rightarrow> string \<Rightarrow> bool" where
  "public_object pub body \<longleftrightarrow>
     (\<exists>ms. object_of body = Some ms \<and>
        list_all (\<lambda>m. fold_name (fst m) = ''model'' \<longrightarrow> m = (''model'', public_value pub)) ms)"

definition public_frame :: "string \<Rightarrow> string \<Rightarrow> bool" where
  "public_frame pub l \<longleftrightarrow>
     list_all (\<lambda>c. c \<in> {CHR '' '', CHR 0x09, CHR 0x0D}) l \<or> l = '':'' \<or>
     (\<exists>pre sp body. l = pre @ ''data:'' @ sp @ body \<and>
       list_all (\<lambda>c. c \<in> {CHR '' '', CHR 0x09, CHR 0x0D}) pre \<and> list_all (\<lambda>c. c \<in> {CHR '' '', CHR 0x09}) sp \<and>
       (TrimSpace body = ''[DONE]'' \<or> public_object pub body))"

lemma rewritten_public: "validPublicModelID pub \<Longrightarrow> rewriteClientModelJSON p pub = Some q \<Longrightarrow> public_object pub q"
  using rewritten_object[of pub p q] by (auto simp: public_object_def list_all_iff)

lemma rewritten_line:
  assumes "validPublicModelID pub" "rewriteClientModelSSELine l pub = Some c"
  shows "public_frame pub c"
proof -
  let ?B = "{CHR '' '', CHR 0x09, CHR 0x0D}" and ?b = "{CHR '' '', CHR 0x09}"
  define r where "r = dropWhile (\<lambda>c. c \<in> ?B) l"
  define body where "body = dropWhile (\<lambda>c. c \<in> ?b) (drop 5 r)"
  define pre where "pre = takeWhile (\<lambda>c. c \<in> ?B) l"
  define sp where "sp = takeWhile (\<lambda>c. c \<in> ?b) (drop 5 r)"
  have pre: "list_all (\<lambda>c. c \<in> ?B) pre" and sp: "list_all (\<lambda>c. c \<in> ?b) sp"
    unfolding pre_def sp_def list_all_iff by (blast dest: set_takeWhileD)+
  have l: "l = pre @ ''data:'' @ sp @ body" if "is_prefix ''data:'' r"
  proof -
    have "l = pre @ r" by (simp add: pre_def r_def)
    moreover from that obtain k where "r = ''data:'' @ k" unfolding is_prefix_def by (metis append_take_drop_id)
    ultimately show ?thesis by (simp add: sp_def body_def)
  qed
  note a = assms(2)[unfolded rewriteClientModelSSELine_def Let_def, folded r_def, folded body_def]
  from a consider "r = []" "c = l" | "c = '':''" | "is_prefix ''data:'' r" "c = l" "TrimSpace body = ''[DONE]''"
    | p where "is_prefix ''data:'' r" "rewriteClientModelJSON body pub = Some p" "c = l \<and> p = body \<or> c = take (length l - length body) l @ p"
    by (auto split: if_split_asm option.splits)
  then show ?thesis
  proof cases
    case 1
    then have "list_all (\<lambda>c. c \<in> ?B) l" unfolding r_def list_all_iff dropWhile_eq_Nil_conv by blast
    with 1(2) show ?thesis by (simp add: public_frame_def)
  next
    case 2
    then show ?thesis by (simp add: public_frame_def)
  next
    case 3
    with l pre sp show ?thesis unfolding public_frame_def by blast
  next
    case (4 p)
    have "l = (pre @ ''data:'' @ sp) @ body" using l[OF 4(1)] by simp
    then have "take (length l - length body) l = pre @ ''data:'' @ sp"
      by (metis append_eq_conv_conj length_append add_diff_cancel_right')
    with 4(3) l[OF 4(1)] have "c = pre @ ''data:'' @ sp @ p" by auto
    with rewritten_public[OF assms(1) 4(2)] pre sp show ?thesis unfolding public_frame_def by blast
  qed
qed

lemma relay_public:
  "validPublicModelID pub \<Longrightarrow> relay pub ok i u ls = (out, r) \<Longrightarrow> list_all (\<lambda>c. c = newline \<or> public_frame pub c) out"
proof (induction ls arbitrary: i u out r)
  case (Cons l ls)
  show ?case
  proof (cases "rewriteClientModelSSELine l pub")
    case (Some c)
    then have "public_frame pub c" by (rule rewritten_line[OF Cons.prems(1)])
    moreover have "list_all (\<lambda>c. c = newline \<or> public_frame pub c) out'"
      if "relay pub ok (i + 2) (MergeSnapshot u (ParseUsageSnapshotLine l)) ls = (out', r')" for out' r'
      by (rule Cons.IH[OF Cons.prems(1) that])
    ultimately show ?thesis using Cons.prems(2) Some
      by (auto simp: Let_def split: if_split_asm prod.splits)
  qed (use Cons.prems in auto)
qed simp

text \<open>C25. Whatever a provider sends, every chunk a client gets of a streamed answer is a line end or a public frame (white
  space, a bare comment, a data field with nothing but the terminal mark, or a data field with one object), and a plain
  answer is one object; in each of these objects every top-level member the client's decoder takes for the model, in any
  letter case, is spelled as the contract spells it and carries the public name.\<close>

theorem client_sees_public_model:
  assumes "validPublicModelID (cfg_PublicModelID (ca_cfg S))"
    and "paid_part S E pr res = (Relayed hs out, label, c)"
  shows "if Out_Stream (pr_request pr)
    then list_all (\<lambda>x. x = newline \<or> public_frame (cfg_PublicModelID (ca_cfg S)) x) out
    else \<exists>data. out = [data] \<and> public_object (cfg_PublicModelID (ca_cfg S)) data"
proof -
  let ?pub = "cfg_PublicModelID (ca_cfg S)"
  from assms(2) obtain b where f: "(if Out_Stream (pr_request pr) then streamThrough S (ce_writes E) res b
      else nonStreamThrough S res b) = (Relayed hs out, the label, c)"
    by (auto simp: paid_part_def forward_def Let_def split: if_split_asm prod.splits open_answer.splits)
  show ?thesis
  proof (cases "Out_Stream (pr_request pr)")
    case True
    with f show ?thesis using relay_public[OF assms(1)] by (auto simp: streamThrough_def split: prod.splits)
  next
    case False
    with f obtain data where d: "rewriteClientModelJSON (ub_data b) ?pub = Some data" "out = [data]"
      by (auto simp: nonStreamThrough_def Let_def split: if_split_asm option.splits)
    with rewritten_public[OF assms(1) d(1)] False show ?thesis by auto
  qed
qed

end
