(* ===== verification/Chat_Witness.thy ===== *)
theory Chat_Witness
  imports Chat_Books Service_Witness Config_Witness
begin

text \<open>
  One chat request carried through the service, streamed and plain, and each property of the chat applied to it.
\<close>

text \<open>JSON with back quotes for quotes.\<close>

definition js_text :: "string \<Rightarrow> string" where
  "js_text = map (\<lambda>c. if c = CHR 0x60 then CHR 0x22 else c)"

definition chat_body :: string where
  "chat_body = js_text ''{`stream`:true,`messages`:[{`role`:`user`,`content`:`hi`}]}''"

definition chat_request :: inbound_request where
  "chat_request =
     no_request\<lparr>Messages := [no_message\<lparr>Role := ''user'', Content := StringContent ''hi''\<rparr>], In_Stream := True\<rparr>"

lemma chat_decoded: "DecodeInbound sample_codec chat_body = Inr chat_request"
  by code_simp

theorem decoded_is_closed_witness:
  "utf8_valid chat_body \<and> closed_request chat_request"
  using decoded_is_closed[OF chat_decoded] by simp

section \<open>The service\<close>

definition chat_plan :: plan where
  "chat_plan = projr (NewPlan ProviderQwen Qwen37Plus InputStandard Qwen37InputLimit Qwen37OutputLimit)"

definition chat_limits :: limits where
  "chat_limits = demo_limits\<lparr>GlobalMonthlySpendPUSD := 50000000000000\<rparr>"

definition chat_demo :: "db chat_service" where
  "chat_demo = \<lparr>ca_codec = sample_codec, ca_lookup = install_auth 5 demo_service, ca_allow = (\<lambda>i. True),
     ca_degraded = False, ca_cfg = demo_cfg, ca_leases = None, ca_available = (\<lambda>p. True), ca_breaker = (\<lambda>p. False),
     ca_quota = store_port ''00'' 10 20 chat_limits utc, ca_now = 0, ca_format = (\<lambda>t. [])\<rparr>"

definition chat_input :: handle_input where
  "chat_input = \<lparr>hi_InstallID = ''i1'', hi_Body = chat_body, hi_BodyError = False, hi_BodyTooLarge = False\<rparr>"

definition chat_frame :: string where
  "chat_frame = js_text ''data:{`usage`:{`prompt_tokens`:2,`total_tokens`:3}}''"

definition chat_answer_body :: up_body where
  "chat_answer_body = \<lparr>ub_data = chat_frame @ newline @ ''data:[DONE]'' @ newline,
     ub_err = False, ub_early = False\<rparr>"

definition chat_world :: "db chat_env" where
  "chat_world = \<lparr>ce_others = (\<lambda>w. w), ce_slot_free = True, ce_slot_event = WaitOver, ce_ctx_done = False,
     ce_open = (\<lambda>p m r. Opened chat_answer_body), ce_writes = (\<lambda>n. True)\<rparr>"

definition chat_prepared :: prepared where
  "chat_prepared = \<lparr>pr_install = ''i1'', pr_provider = ProviderQwen, pr_model = Qwen37Plus, pr_plan = chat_plan,
     pr_request = Sanitize chat_request 8192\<rparr>"

lemma chat_plan_new: "NewPlan ProviderQwen Qwen37Plus InputStandard Qwen37InputLimit Qwen37OutputLimit = Inr chat_plan"
  unfolding chat_plan_def by (simp add: plan_eval)

lemma chat_plan_cost: "ReservedPUSD chat_plan = 5114572800000" "Provider chat_plan = ''qwen''"
    "planCategory chat_plan = ([], 0)"
  by (simp_all add: chat_plan_def plan_eval planCategory_def category_names)

lemma chat_plan_valid: "validatePlan chat_plan = Inr ()"
  by (simp add: validatePlan_def chat_plan_def plan_eval Validate_def samePlan_def)

lemma chat_admitted: "admit chat_demo chat_input = Inr ''i1''"
  by (cases "shouldRefresh ''i1'' 5 []")
    (simp add: admit_def chat_demo_def chat_input_def install_auth_def demo_service_def LookupInstall_def
      Lookup_install_def StatusActive_def StatusBanned_def)

lemma chat_shape: "CheckMessageShape (Messages chat_request) 200 200000 = []"
  by code_simp

lemma chat_valid: "ValidateAndClassify sample_codec \<lparr>MaxParts = 8, MaxDecodedBytes = 1048576\<rparr> chat_request = Inr ModalityText"
  by code_simp

lemma chat_refs: "MediaLeaseRefs sample_codec chat_request = []"
  by code_simp

lemma demo_cfg_chat: "cfg_MaxMessages demo_cfg = 200" "cfg_MaxMessageChars demo_cfg = 200000"
    "cfg_MaxMediaParts demo_cfg = 8" "cfg_MaxMediaDecodedBytes demo_cfg = 1048576" "cfg_MaxTokensCap demo_cfg = 8192"
    "cfg_MultimodalUpstreamModel demo_cfg = Qwen37Plus" "cfg_PublicModelID demo_cfg = ''anselm-auto''"
    "cfg_QueueWait demo_cfg = 500000000" "cfg_MonthlyQuota demo_cfg = 100" "cfg_Location demo_cfg = utc"
  by (simp_all add: demo_cfg_def)

lemma qwen_card: "\<exists>c. Lookup ProviderQwen Qwen37Plus = Inr c \<and> InputLimit c = Qwen37InputLimit \<and> OutputLimit c = Qwen37OutputLimit"
  by (simp add: Lookup_def qwenCards_def model_names)

lemma chat_prepare: "prepare chat_demo chat_input = Inr chat_prepared"
proof -
  have "read_request chat_demo chat_input = Inr (chat_request, ModalityText)"
    by (simp add: read_request_def chat_demo_def chat_input_def chat_decoded media_limits_of_def demo_cfg_chat chat_shape
        chat_valid) (simp add: chat_request_def)
  moreover have "resolve_leases chat_demo ''i1'' chat_request = Inr chat_request"
    by (simp add: resolve_leases_def chat_demo_def chat_refs)
  moreover have "billingPlan ProviderQwen Qwen37Plus est q = Inr chat_plan" for est q
    using qwen_card chat_plan_new by (auto simp: billingPlan_def)
  then have "price_request chat_demo ''i1'' chat_request ModalityText = Inr chat_prepared"
    by (simp add: price_request_def chat_demo_def routeFor_def demo_cfg_chat chat_prepared_def BoundMaxTokens_def
        min64_def Qwen37OutputLimit_def chat_request_def no_request_def)
  ultimately show ?thesis by (simp add: prepare_def chat_admitted)
qed

theorem only_inline_media_leaves_witness:
  "\<exists>up. encode_request ProviderQwen Qwen37Plus (Sanitize chat_request 8192) = Some up \<and> Up_Model up = Qwen37Plus"
proof -
  obtain up where up: "encode_request (pr_provider chat_prepared) (pr_model chat_prepared) (pr_request chat_prepared) = Some up"
    by (simp add: encode_request_def chat_prepared_def ProviderQwen_def)
  from only_inline_media_leaves[OF chat_prepare _ _ up] have "Up_Model up = Qwen37Plus"
    by (simp add: chat_demo_def demo_cfg_chat MaxInt64_def)
  with up show ?thesis by (auto simp: chat_prepared_def)
qed

section \<open>The answer\<close>

definition chat_usage :: usage where
  "chat_usage = \<lparr>Present = True, Malformed = False, PromptTokens = 2, CompletionTokens = 0, TotalTokens = 3,
     CachedPromptTokens = 0, ReasoningTokens = 0\<rparr>"

definition usage_value :: jraw where
  "usage_value = Jv (js_text ''{`prompt_tokens`:2,`total_tokens`:3}'')
     (NObj [(''prompt_tokens'', Jv ''2'' NNum), (''total_tokens'', Jv ''3'' NNum)])"

definition frame_payload :: string where
  "frame_payload = js_text ''{`usage`:{`prompt_tokens`:2,`total_tokens`:3}}''"

lemma frame_text: "drop 5 chat_frame = frame_payload" "is_prefix ''data:'' chat_frame" "frame_payload \<noteq> ''[DONE]''"
    "chat_frame \<noteq> []" "chat_frame \<noteq> ''data''" "hd chat_frame = CHR ''d''" "last chat_frame = CHR 0x7D"
    "hd frame_payload = CHR 0x7B" "last frame_payload = CHR 0x7D"
  by (simp_all add: chat_frame_def frame_payload_def js_text_def is_prefix_def)

lemma done_text: "is_prefix ''data:'' ''data:[DONE]''" "drop 5 ''data:[DONE]'' = ''[DONE]''"
  by (simp_all add: is_prefix_def)

lemma end_chars: "graph_char CHR 0x7B" "graph_char CHR 0x7D" "graph_char CHR ''d''" "graph_char CHR ''[''" "graph_char CHR '']''"
  by (simp_all add: graph_char_def)

lemma frame_trimmed: "TrimSpace chat_frame = chat_frame" "TrimSpace frame_payload = frame_payload"
    "TrimSpace ''data:[DONE]'' = ''data:[DONE]''" "TrimSpace ''[DONE]'' = ''[DONE]''"
  by (rule TrimSpace_graph; simp add: frame_text end_chars)+

lemma frame_usage_value: "extractUsage frame_payload = (Some usage_value, True, False)"
  by code_simp

lemma usage_unique: "uniqueJSONKeys usage_value"
  by code_simp

lemma token_names: "fold_name ''prompt_tokens'' = ''prompt_tokens''" "fold_name ''total_tokens'' = ''total_tokens''"
  by code_simp+

lemma two_three: "parse_int ''2'' = Some 2" "parse_int ''3'' = Some 3"
  by code_simp+

lemma usage_field:
  "field_value n [(''prompt_tokens'', v), (''total_tokens'', w)] =
     (if n = ''prompt_tokens'' then Some v else if n = ''total_tokens'' then Some w else None)"
  by (simp add: field_value_def token_names del: fold_name.simps)

lemma usage_fields:
  "int_field n [(''prompt_tokens'', Jv ''2'' NNum), (''total_tokens'', Jv ''3'' NNum)] =
     Some (if n = ''prompt_tokens'' then 2 else if n = ''total_tokens'' then 3 else 0)"
  by (simp add: int_field_def usage_field two_three)

lemma frame_usage: "ParseUsageSnapshotLine chat_frame = chat_usage"
  by (simp add: ParseUsageSnapshotLine_def frame_trimmed frame_text parseUsagePayload_def frame_usage_value usage_unique)
    (simp add: usage_value_def usage_fields detail_field_def usage_field usage_vector_def chat_usage_def)

lemma done_usage: "ParseUsageSnapshotLine ''data:[DONE]'' = zero_usage"
  by (simp add: ParseUsageSnapshotLine_def frame_trimmed done_text)

lemma frame_rewritten: "rewriteClientModelJSON frame_payload ''anselm-auto'' = Some frame_payload"
  by code_simp

lemma frame_passes: "rewriteClientModelSSELine chat_frame ''anselm-auto'' = Some chat_frame"
proof -
  have "dropWhile (\<lambda>c. c \<in> {CHR '' '', CHR 0x09, CHR 0x0D}) chat_frame = chat_frame"
    "dropWhile (\<lambda>c. c \<in> {CHR '' '', CHR 0x09}) frame_payload = frame_payload"
    by (simp_all add: dropWhile_eq_self_iff frame_text)
  then show ?thesis
    by (simp add: rewriteClientModelSSELine_def Let_def frame_text frame_trimmed frame_rewritten)
qed

lemma done_passes: "rewriteClientModelSSELine ''data:[DONE]'' ''anselm-auto'' = Some ''data:[DONE]''"
  by (simp add: rewriteClientModelSSELine_def is_prefix_def frame_trimmed)

lemma frame_done: "\<not> IsDONE chat_frame" "IsDONE ''data:[DONE]''"
  by (simp_all add: IsDONE_def frame_trimmed frame_text done_text)

lemma chat_frames: "frames chat_answer_body = [chat_frame, ''data:[DONE]'']"
  by code_simp

lemma chat_merged: "MergeSnapshot zero_usage chat_usage = chat_usage" "MergeSnapshot chat_usage zero_usage = chat_usage"
  by (simp_all add: MergeSnapshot_def zero_usage_def chat_usage_def nonNegative_def usageHasNegative_def)

lemma chat_relay:
  "relay ''anselm-auto'' (\<lambda>n. True) 0 zero_usage (frames chat_answer_body) =
     ([chat_frame, newline, ''data:[DONE]'', newline], chat_usage, True, SawDone)"
  by (simp add: chat_frames frame_passes done_passes frame_usage done_usage frame_done chat_merged Let_def)

lemma chat_cost: "Cost chat_plan chat_usage = Inr (Some 4800000)"
  by (simp add: Cost_def chat_plan_def chat_usage_def usage_authoritative_def usageHasNegative_def nonNegative_def
      plan_eval MaxInt64_def)

lemma chat_paid:
  assumes "Plan res = chat_plan"
  shows "paid_part chat_demo chat_world chat_prepared res =
    (Relayed (stream_headers chat_demo res) [chat_frame, newline, ''data:[DONE]'', newline], Some ''success'', CloseSettle 4800000)"
proof -
  have "Out_Stream (pr_request chat_prepared)"
    by (simp add: chat_prepared_def Sanitize_def chat_request_def)
  moreover have "stream_usage chat_answer_body (chat_usage, True, SawDone) = chat_usage"
    by (simp add: stream_usage_def chat_answer_body_def)
  moreover have "cfg_PublicModelID (ca_cfg chat_demo) = ''anselm-auto''" by (simp add: chat_demo_def demo_cfg_chat)
  moreover have "\<not> ca_breaker chat_demo p" for p by (simp add: chat_demo_def)
  moreover have "acquireSlot (ce_slot_free chat_world) q e" for q e by (simp add: acquireSlot_def chat_world_def)
  moreover have "ce_open chat_world p m r = Opened chat_answer_body" "ce_writes chat_world = (\<lambda>n. True)" for p m r
    by (simp_all add: chat_world_def)
  ultimately show ?thesis
    by (simp add: paid_part_def forward_def streamThrough_def chat_relay settle_amount_def assms chat_cost)
qed

section \<open>The properties\<close>

definition chat_res :: reservation where
  "chat_res = new_reservation (idgen_RequestID ''00'') ''i1'' chat_plan (SnapshotPeriod 0 utc) chat_limits"

lemma chat_res_plan: "Plan chat_res = chat_plan" "Res_ReservedPUSD chat_res = 5114572800000"
  by (simp_all add: chat_res_def new_reservation_def chat_plan_cost)

theorem client_sees_public_model_witness:
  "list_all (\<lambda>x. x = newline \<or> public_frame ''anselm-auto'' x) [chat_frame, newline, ''data:[DONE]'', newline]"
proof -
  have pub: "cfg_PublicModelID (ca_cfg chat_demo) = ''anselm-auto''" by (simp add: chat_demo_def demo_cfg_chat)
  have "validPublicModelID ''anselm-auto''"
    by (simp add: validPublicModelID_def MaxPublicModelIDBytes_def public_id_char_def)
  moreover have "Out_Stream (pr_request chat_prepared)" by (simp add: chat_prepared_def Sanitize_def chat_request_def)
  ultimately show ?thesis using client_sees_public_model[OF _ chat_paid[OF chat_res_plan(1)]] by (simp add: pub)
qed

theorem model_name_hidden_witness:
  "rewriteClientModelJSON (js_text ''{`model`:1}'') ''anselm-auto'' = Some (js_text ''{`model`:`anselm-auto`}'') \<and>
   (\<exists>ms. object_of (js_text ''{`model`:1}'') = Some ms \<and>
     object_of (js_text ''{`model`:`anselm-auto`}'') =
       Some (map (\<lambda>m. if fold_name (fst m) = ''model'' then (''model'', public_value ''anselm-auto'') else m) ms))"
proof -
  have rewritten: "rewriteClientModelJSON (js_text ''{`model`:1}'') ''anselm-auto'' = Some (js_text ''{`model`:`anselm-auto`}'')"
    by code_simp
  have public: "validPublicModelID ''anselm-auto''"
    by (simp add: validPublicModelID_def MaxPublicModelIDBytes_def public_id_char_def)
  show ?thesis
    by (rule conjI[OF rewritten], rule exE[OF model_name_hidden[OF public rewritten]], elim conjE, rule exI, rule conjI)
qed

theorem refund_is_proved_witness:
  "\<exists>u. whole_answer demo_cfg True chat_answer_body u \<and> Cost chat_plan u = Inr (Some 4800000)"
proof -
  have "Out_Stream (pr_request chat_prepared)" by (simp add: chat_prepared_def Sanitize_def chat_request_def)
  with refund_is_proved[OF chat_paid[OF chat_res_plan(1)]] show ?thesis
    by (auto simp: closing_amount_def chat_res_plan chat_world_def chat_demo_def)
qed

lemma chat_reserved: "\<exists>w. Reserve (idgen_RequestID ''00'') 10 ''i1'' chat_plan (SnapshotPeriod 0 utc) chat_limits empty_db = Inr (w, chat_res)"
proof -
  have "headroom ''i1'' chat_plan (SnapshotPeriod 0 utc) empty_db"
    by (simp add: headroom_def empty_db_def at_defs chat_plan_cost MaxInt64_def)
  moreover have "idgen_RequestID ''00'' \<notin> set (map request_id (spend_ledger empty_db))" by (simp add: empty_db_def)
  moreover have "gate_error chat_res chat_limits empty_db = None"
    by (simp add: gate_error_def chat_res_def new_reservation_def chat_plan_cost chat_limits_def demo_limits_def empty_db_def
        at_defs categoryCap_def category_names wrap64_def Let_def)
  ultimately show ?thesis
    using Reserve_by_gates[OF chat_plan_valid, where rid = "idgen_RequestID ''00''" and now = 10 and lim = chat_limits]
    unfolding chat_res_def by fastforce
qed

lemma chat_parts: "ca_quota chat_demo = store_port ''00'' 10 20 chat_limits utc" "ca_now chat_demo = 0"
    "ca_lookup chat_demo = install_auth 5 demo_service"
    "pr_install chat_prepared = ''i1''" "pr_plan chat_prepared = chat_plan" "ce_others chat_world = (\<lambda>w. w)"
    "world demo_start = empty_db" "settle_failures demo_start = 0"
  by (simp_all add: chat_demo_def chat_prepared_def chat_world_def demo_start_def)

theorem chat_closes_books_witness:
  "\<exists>s' x. Chat_Handle chat_demo chat_world chat_input demo_start =
       (Relayed (stream_headers chat_demo chat_res) [chat_frame, newline, ''data:[DONE]'', newline], Some ''success'', s') \<and>
     x \<in> set (spend_ledger (world s')) \<and> charged_pusd x = Some 4800000 \<and> settle_failures s' = 0"
proof -
  obtain w where w: "Reserve (idgen_RequestID ''00'') 10 ''i1'' chat_plan (SnapshotPeriod 0 utc) chat_limits empty_db = Inr (w, chat_res)"
    using chat_reserved by blast
  then have R: "Service_Reserve (idgen_RequestID ''00'') 10 chat_limits ''i1'' chat_plan (SnapshotPeriod 0 utc) empty_db =
      Inr (w, chat_res)" by (simp add: Service_Reserve_def)
  have port: "q_reserve (store_port ''00'' 10 20 chat_limits utc) ''i1'' chat_plan
      (q_snapshot (store_port ''00'' 10 20 chat_limits utc) 0) empty_db = Inr (w, chat_res)"
    using R by (simp add: store_port_def)
  define s' where "s' = close_out (ca_quota chat_demo) chat_res (CloseSettle 4800000) (demo_start\<lparr>world := w\<rparr>)"
  have handled: "Chat_Handle chat_demo chat_world chat_input demo_start =
      (Relayed (stream_headers chat_demo chat_res) [chat_frame, newline, ''data:[DONE]'', newline], Some ''success'', s')"
    by (simp add: Chat_Handle_def chat_prepare chat_paid[OF chat_res_plan(1)] s'_def chat_parts port Let_def)
  have booked: "store_booked chat_res w = Some None"
    using spend_wallet.reserve_opens[OF reach_start, of "''i1''" "''00''" 10 20 chat_limits utc chat_plan "SnapshotPeriod 0 utc" w chat_res] R
    by (simp add: store_port_def)
  have "ReservedPUSD chat_plan \<ge> 4800000" by (simp add: chat_plan_cost)
  with chat_closes_books[OF _ chat_parts(3,1) _ handled] R booked chat_paid[OF chat_res_plan(1)]
  have "settle_failures s' = 0 \<and> (\<exists>x \<in> set (spend_ledger (world s')). charged_pusd x = Some 4800000)"
    by (auto simp: chat_parts reach_start others_refl chat_prepare closing_amount_def)
  with handled show ?thesis by blast
qed

end
