(* ===== verification/Spec2Isabelle.thy ===== *)
theory Spec2Isabelle
  imports Quota_Witness Service_Witness Install_Props Dashboard_Props Ui_Page_Witness Config_Witness
    Device_Proof_Props Pow Rate_Witness Ui_Frame Disk_Witness Upstream_Witness Chat_Witness
begin

text \<open>
  This library models the Anselm gateway: a Go service that sells metered calls to AI models against a
  quota ledger, its admin listener, and the single-page application the admin listener serves
  (TypeScript, \<open>src/internal/infra/webassets/ui/src\<close>). It follows a number an operator sees on a page down
  through the client, the wire and the handlers to the row of the ledger it is read from, and an
  operator's click back down the same way, and models the guards a request of an install passes before it may
  spend anything: proof of work, device proof, replay cache and minute limiter. It follows a chat request from the bytes
  of its body to the bytes of the answer and the row it leaves in the ledger.

  The parts and how they interact. A paid call is priced by \<open>billing\<close>, reserved in the quota store and settled or
  rolled back by \<open>genrun\<close>, or by the chat service, which relays a provider's stream in between; the live configuration sets the limits of all of them; installs are issued by the install store behind its rate valves; the admin
  backend reads and changes both, keeps the audit ring, the alerts and the rate sampler, and answers the
  application over JSON; the pages of the application keep their own state and talk to it through \<open>lib/api.ts\<close>.

  Theories, bottom up.

  Prelude, Wire, Civil: lists and tables, 64-bit integers with their wrap-around, decimal and query-string
  texts, calendar days. Texts are lists of bytes; texts of the pages that are not ASCII are
  written as their UTF-8 bytes.

  The application.
  Ui_Api: \<open>lib/api.ts\<close>. A request is a function of the transport's answer; an exception is a value.
  Ui_Wire: \<open>lib/types.ts\<close>, the declared types and the reading of an entity at them, a number as the double nearest to it.
  Ui_Money: \<open>lib/money.ts\<close> and the part of \<open>Intl.NumberFormat\<close> it uses: the quotient is a double, and its text rounds
  the exact value of that double.
  Ui_Pager, Ui_Audit, Ui_Installs: the paging hook that \<open>pages/Audit.tsx\<close> and \<open>pages/Installs.tsx\<close> repeat,
  each page's rendering and calls, and the ban dialog. The state is what \<open>useState\<close> holds, beside the
  loads and posts under way; handlers and answers are steps, in any order. Ui_Installs_Runs has the runs of all
  events of the install page.
  Js_Number, Config_Bounds, Ui_Config: \<open>Number(text)\<close> with rounding to a double, the backend's bounded
  integer, and \<open>pages/Config.tsx\<close>; Ui_Config_Runs has its runs, and Ui_Config_Live follows a save into the live
  configuration.
  Ui_Overview: \<open>pages/Overview.tsx\<close>, with the browser's intervals beside the ref that names one of them; mounting the
  page makes a fresh instance of its hooks (\<open>fresh_instance\<close>).
  Ui_Shell: \<open>App.tsx\<close> on the browser's history, mounting and unmounting the overview, \<open>main.tsx\<close>, and
  \<open>pages/Export.tsx\<close>.
  Ui_Frame: the element trees \<open>App.tsx\<close>, \<open>pages/Export.tsx\<close> and the reset dialog return, with their styles, icons and
  texts, and that the handlers they carry are the events of the runs.

  The admin backend.
  Audit_Ring: \<open>app/dashboard/audit.go\<close>. Ops: \<open>pkg/alert\<close> and \<open>pkg/ratesample\<close>. Apierr: \<open>domain/apierr\<close> and
  \<open>transport/httpapi/response\<close>. Dashboard, Dashboard_Http: the use cases of \<open>app/dashboard\<close>, the store adapters of
  \<open>bootstrap/dashstore.go\<close> and the handlers. Dashboard_Server: the JSON tags and the mux. \<open>Dispatch\<close>
  answers any request (every route, the export, HEAD, a body that is malformed or over the limit of its route, a database
  that fails), and \<open>Serve\<close> is its case for a call of the client over a database that answers, so that the pages can be run
  against the model of the server. Dashboard_Safety: what no sequence of requests can do.

  The configuration.
  Config: \<open>domain/config/config.go\<close> and \<open>capability.go\<close>, the record with its seventy fields, the cross-field rules in
  source order, the debug mask and the memory budget. Config_Spec: \<open>spec.go\<close>, a knob per editable row with the closures
  that apply and render it, and the all-or-nothing batch. Config_Provider: the atomic pair of configured and effective
  configuration, the settings table behind it and its dump (\<open>infra/configprovider\<close>, \<open>infra/store/settingsstore\<close>,
  \<open>bootstrap/adapters.go\<close>).

  The guards.
  Nonce_Cache: \<open>pkg/noncecache\<close>, the recency list with its sweeps. Encoding: unpadded URL base64 and big-endian
  integers, as the standard library gives them. Device_Proof, Device_Proof_Props: \<open>app/deviceproof\<close> and the handlers of
  \<open>handlers/business/proof\<close>. Pow: \<open>pkg/pow\<close> and \<open>app/install/powgate.go\<close>. Rate_Limit: \<open>infra/ratelimit\<close> and the anomaly
  monitor of \<open>bootstrap/loops.go\<close>; the recency list and the map of entries are one list.

  The chat.
  Json_Text: the scanner of Go's JSON package on bytes, with its tree, its limit on nesting and the reading of strings.
  Chat_Domain, Chat_Decode: \<open>domain/chat\<close>, the request and its closed content union, its decoding, validation, upload
  references, estimates and sanitized body, and what \<open>infra/chatprovider\<close> adds for the provider. Chat_Wire:
  \<open>app/chat/response_model.go\<close> and \<open>domain/chat/usage.go\<close>, the rewriting of the model name and the usage of an
  answer. Chat_Service: \<open>app/chat/service.go\<close> and \<open>forward.go\<close>, the gates in their order, the relay and the close-out.
  Upstream: \<open>infra/upstream\<close>, the classes of failure, the retries, the key pool with its cooldowns and breakers, and a
  whole call; it answers \<open>Open\<close> of the chat service. Disk_Guard: \<open>infra/diskguard\<close>, which closes the chat's
  disk gate, and the loops of \<open>bootstrap/lifecycle.go\<close> that should keep it current.

  The ledger.
  Billing: \<open>domain/billing\<close>. Quota_Store, Quota_Effects, Quota_Ledger: \<open>infra/store/quotastore\<close>, one definition per
  statement of a transaction, its effects, and the invariant of the tables. Quota_Service, Genrun, Genrun_Store:
  \<open>app/quota\<close> and \<open>app/genrun\<close> over an arbitrary quota port, and then over the store itself.
  Install: \<open>domain/install\<close>, \<open>app/install\<close> and \<open>infra/store/installstore\<close>.

  What the lemmas show. Quota_Props, Quota_Runs: in every reachable database each balance is the sum of the live
  rows of the ledger, each reservation ends once, and no sequence of operations oversells the wallet by more than settlements took beyond their
  reservations (the sum \<open>e\<close> of \<open>budget_run\<close>). Genrun_Store:
  a paid call whose context lasts leaves no open row behind; one whose client leaves before its close-out may, and then the next
  reconciliation closes that row in full. Dashboard_Props: walking the audit
  pages visits every event once in order while new ones arrive. Ui_Wire: what the handlers write is what
  the types declare. Ui_Audit and Ui_Installs: page \<open>n\<close> of a table is the \<open>n\<close>-th slice of the ring or of
  the install table, for runs whose loads are answered in order; beside them stand the runs in which that
  fails. Ui_Installs, Ui_Config, Ui_Overview: a ban, a save and a reset, from the dialog to the database and back to
  the page. Ui_Money: below \<open>2^33\<close> dollars the dollar text reads back as the amount; from there on amounts print alike. Ui_Overview, Ui_Shell: one timer runs exactly while
  the overview is on screen in a visible tab, the menu works from everywhere, and a page survives a reload. The runs
  show that no answer, however late or failed, leaves a spinner on, a second ban or reset under way, or an unchecked
  value posted. Dashboard_Safety: no call of the admin interface touches a balance or a ledger row, and none changes
  anything but the sampler's memory without an audit event. Config, Config_Spec, Config_Provider: a batch of overrides changes what it names and
  nothing else, a restart restores the live configuration, and the debug mask is a detour. Nonce_Cache: a fail-closed
  cache cannot be told from the unbounded history. Device_Proof_Props: what reaches a protected handler, and how far apart
  two acceptances of one proof are. Pow: difficulty is a threshold on the digest, and a solution is spent once. Rate_Limit: a
  window admits at most the bucket and its refill, and a flagged install at most the tightened rate. Chat_Decode, Chat_Domain_Props: what
  a decoded and validated request can still contain. Chat_Service_Props: what leaves for the provider. Chat_Wire_Props,
  Chat_Books: what comes back to the client, and that a request closes its books (but for an amount above its quote that no balance has room for in 64 bits) and gets
  money back only on proof.
  Upstream_Props: one charge per call under the contract of the provider, a bound on requests and sleep, a breaker that
  clients cannot trip, and a refused key that rests. Disk_Guard: the guard follows the disk, and an edited floor never
  reaches it. The theories named
  \<open>Witness\<close>, and the ends of Dashboard_Props, Install_Props and Ops, apply the properties that have hypotheses at concrete
  states.

  Interfaces. Four contracts are locales. \<open>wallet\<close> (Genrun) is what a paid call needs of a quota port; Genrun_Store
  interprets it on the quota tables, and Chat_Books closes the books of a chat over it. \<open>paged_view\<close> (Ui_Pager) is what a table needs of its source; it is interpreted on
  the audit ring and on the install table, each behind the client and the handlers. \<open>config_source\<close> (Ui_Config_Live) is what
  the configuration page needs of the backend's configuration port; it is interpreted on the live provider.
  \<open>replay_guard\<close> (Device_Proof_Props) is what the verifier needs of its cache; it is interpreted on the fail-closed cache.

  Bounds and fuel. Every recursion is structural or has a measure, but for the JSON scanner and the walk over the
  members of an object, whose fuel is the length of the text: each step reads at least one byte, and more fuel never changes
  the result (\<open>scan_value_fuel\<close>, \<open>walk_fuel\<close>). Amounts of the backend are
  64-bit and wrap; sums that could wrap are bounded by hypotheses named in the theorems. Numbers the
  application divides or rounds for the budget bar and the rates are exact rationals, so the last digit of a
  tie may differ from a double; every number on the wire is read as the double nearest to it, which for an integer
  below \<open>2^53\<close> is that integer, and dollars are divided and printed as doubles.

  Libraries are parameters: the browser's local dates (\<open>date\<close>), the text of an instant on the wire, the route the
  router picks (\<open>router_picks\<close>, satisfied by \<open>exact_router\<close>) and the location it reads (\<open>hash_router\<close>), the configuration port of the backend (satisfied by the live provider), and the transport. So are Ed25519, SHA-256,
  HMAC, random bytes, the JSON decoding of a proof's payload and the quoting of texts in error messages; for a chat the
  parsing of URLs and floats, and for the upstream client the base transport, the circuit-breaker library, the clock and
  the first-byte timer. What a provider may do is the hypothesis of the theorem that needs it
  (\<open>provider_contract\<close>, \<open>in_good_order\<close>), and the witnesses satisfy it with a scripted provider. The minute limiter's
  tokens are rationals where the source has float64, so its bound is that of exact arithmetic. A failing database is a flag of
  \<open>Dispatch\<close>, under which the request changes nothing; a statement that fails halfway through the reads of an overview is not
  told apart from one that fails at their start.

  Not modelled. Layout, icons and styles of the four other pages: they hold no state and take no decision. The bundle under \<open>ui/dist\<close> is generated from the sources modelled here. Of the gateway: the image, speech, video
  and voice services and the provider protocols behind them, media and voice storage, the marshalling of a forwarded body,
  HTTP middleware, metrics and logs, and the SQL driver, whose correctness is concurrency with outside systems; and the
  reading of the environment into the first configuration. In all of it mutexes are not
  modelled: each operation is one step, and the order of steps is arbitrary.
\<close>

end
